(* ===== verification/Prelude.thy ===== *)
theory Prelude
  imports Main "HOL-Library.List_Lexorder" "HOL-Library.Multiset"
begin

text \<open>
  Shared vocabulary of the development.

  Strings of the program are JavaScript strings, that is lists of UTF-16 code units; they are
  the type \<open>ustr\<close>, lists of natural numbers below 65536, and an ASCII literal of the source is
  written \<open>js ''...''\<close>. JavaScript's \<open><\<close> on strings is the lexicographic order of the code
  units, which is the order of List-Lexorder on this type.

  A computation that may throw is a value of \<open>'e + 'a\<close>: \<open>Inl e\<close> for a thrown error, \<open>Inr x\<close>
  for a normal return; \<open>bindR\<close> runs the rest of a body after a call that may throw. The theory
  also holds the facts on sorting by a comparison (ORDER BY of the SQL statements) and on
  updating a keyed table that the components share.
\<close>

named_theorems res_simps \<open>evaluation of computations that may throw\<close>
named_theorems order_facts \<open>facts about sorting a table\<close>

section \<open>JavaScript strings\<close>

type_synonym ustr = "nat list"

definition js :: "string \<Rightarrow> ustr" where
  "js s = map of_char s"

lemma js_inject [simp]: "js a = js b \<longleftrightarrow> a = b"
  unfolding js_def by (rule inj_map_eq_map) (rule inj_of_char)

lemma js_Nil [simp]: "js [] = []"
  by (simp add: js_def)

lemma js_eq_Nil_iff [simp]: "js a = [] \<longleftrightarrow> a = []"
  by (simp add: js_def)

lemma Nil_eq_js_iff [simp]: "[] = js a \<longleftrightarrow> a = []"
  by (auto simp: js_def)

lemma length_js [simp]: "length (js s) = length s"
  by (simp add: js_def)

text \<open>\<open>String.prototype.trim\<close> removes white space and line terminators at both ends.\<close>

definition js_space :: "nat \<Rightarrow> bool" where
  "js_space c \<longleftrightarrow> c \<in> {9, 10, 11, 12, 13, 32, 160, 5760, 8232, 8233, 8239, 8287, 12288, 65279}
     \<or> (8192 \<le> c \<and> c \<le> 8202)"

definition js_trim :: "ustr \<Rightarrow> ustr" where
  "js_trim s = rev (dropWhile js_space (rev (dropWhile js_space s)))"

definition is_digit :: "nat \<Rightarrow> bool" where
  "is_digit c \<longleftrightarrow> 48 \<le> c \<and> c \<le> 57"

lemma dropWhile_id_iff: "dropWhile P xs = xs \<longleftrightarrow> xs = [] \<or> \<not> P (hd xs)"
proof (cases xs)
  case (Cons x ys)
  have "length (dropWhile P ys) \<le> length ys" by (rule length_dropWhile_le)
  then have "dropWhile P ys \<noteq> x # ys" by (metis Suc_n_not_le_n length_Cons)
  with Cons show ?thesis by simp
qed simp

lemma js_trim_ends:
  "js_trim s = [] \<or> (\<not> js_space (hd (js_trim s)) \<and> \<not> js_space (last (js_trim s)))"
proof (cases "js_trim s = []")
  case False
  let ?m = "dropWhile js_space s"
  have ne: "dropWhile js_space (rev ?m) \<noteq> []" using False by (simp add: js_trim_def)
  have l: "\<not> js_space (last (js_trim s))"
    using ne by (simp add: js_trim_def last_rev hd_dropWhile)
  obtain zs where zs: "?m = js_trim s @ zs"
    unfolding js_trim_def
    by (metis rev_append rev_rev_ident takeWhile_dropWhile_id)
  have "?m \<noteq> []" using zs False by simp
  then have "\<not> js_space (hd ?m)" by (rule hd_dropWhile)
  then have "\<not> js_space (hd (js_trim s))" using zs False by simp
  with l show ?thesis by simp
qed simp

lemma js_trim_fixed:
  "(s = [] \<or> (\<not> js_space (hd s) \<and> \<not> js_space (last s))) \<Longrightarrow> js_trim s = s"
  unfolding js_trim_def
  by (cases "s = []") (simp_all add: dropWhile_id_iff [THEN iffD2] hd_rev)

lemma js_trim_idem [simp]: "js_trim (js_trim s) = js_trim s"
  by (rule js_trim_fixed) (rule js_trim_ends)

section \<open>Computations that may throw\<close>

definition bindR :: "'e + 'a \<Rightarrow> ('a \<Rightarrow> 'e + 'b) \<Rightarrow> 'e + 'b" where
  "bindR r k = (case r of Inl e \<Rightarrow> Inl e | Inr x \<Rightarrow> k x)"

lemma bindR_Inl [simp, res_simps]: "bindR (Inl e) k = Inl e"
  by (simp add: bindR_def)

lemma bindR_Inr [simp, res_simps]: "bindR (Inr x) k = k x"
  by (simp add: bindR_def)

lemma bindR_eq_Inr [res_simps]: "bindR r k = Inr y \<longleftrightarrow> (\<exists>x. r = Inr x \<and> k x = Inr y)"
  by (cases r) simp_all

lemma bindR_eq_Inl: "bindR r k = Inl e \<longleftrightarrow> r = Inl e \<or> (\<exists>x. r = Inr x \<and> k x = Inl e)"
  by (cases r) simp_all

lemma bindR_InrE:
  assumes "bindR r k = Inr y"
  obtains x where "r = Inr x" "k x = Inr y"
  using assms by (cases r) simp_all

lemma bindR_split:
  "P (bindR r k) \<longleftrightarrow> (\<forall>e. r = Inl e \<longrightarrow> P (Inl e)) \<and> (\<forall>x. r = Inr x \<longrightarrow> P (k x))"
  by (cases r) simp_all

lemma bindR_assoc [simp]: "bindR (bindR r k) l = bindR r (\<lambda>x. bindR (k x) l)"
  by (cases r) simp_all

lemma bindR_cong [fundef_cong]:
  "r = r' \<Longrightarrow> (\<And>x. r' = Inr x \<Longrightarrow> k x = k' x) \<Longrightarrow> bindR r k = bindR r' k'"
  by (cases r') simp_all

text \<open>A check that throws unless a condition holds.\<close>

definition checkR :: "bool \<Rightarrow> 'e \<Rightarrow> 'e + unit" where
  "checkR c e = (if c then Inr () else Inl e)"

lemma checkR_Inr [simp, res_simps]: "checkR c e = Inr u \<longleftrightarrow> c"
  by (simp add: checkR_def)

lemma checkR_Inl [simp]: "checkR c e = Inl e' \<longleftrightarrow> \<not> c \<and> e' = e"
  by (auto simp: checkR_def)

lemma checkR_True [simp]: "checkR True e = Inr ()"
  by (simp add: checkR_def)

lemma checkR_False [simp]: "checkR False e = Inl e"
  by (simp add: checkR_def)

text \<open>\<open>try { r } catch { throw e }\<close>.\<close>

definition rethrowR :: "'e + 'a \<Rightarrow> 'e \<Rightarrow> 'e + 'a" where
  "rethrowR r e = (case r of Inl _ \<Rightarrow> Inl e | Inr x \<Rightarrow> Inr x)"

lemma rethrowR_Inr [simp, res_simps]: "rethrowR r e = Inr x \<longleftrightarrow> r = Inr x"
  by (cases r) (simp_all add: rethrowR_def)

lemma rethrowR_Inr_eq [simp]: "rethrowR (Inr x) e = Inr x"
  by (simp add: rethrowR_def)

lemma rethrowR_Inl_eq [simp]: "rethrowR (Inl d) e = Inl e"
  by (simp add: rethrowR_def)

text \<open>\<open>rows.map(f)\<close> for an \<open>f\<close> that may throw: the first error is the result.\<close>

primrec mapR :: "('a \<Rightarrow> 'e + 'b) \<Rightarrow> 'a list \<Rightarrow> 'e + 'b list" where
  "mapR f [] = Inr []"
| "mapR f (x # xs) = bindR (f x) (\<lambda>y. bindR (mapR f xs) (\<lambda>ys. Inr (y # ys)))"

lemma mapR_cong [fundef_cong]:
  "xs = ys \<Longrightarrow> (\<And>x. x \<in> set ys \<Longrightarrow> f x = g x) \<Longrightarrow> mapR f xs = mapR g ys"
  by (induction ys arbitrary: xs) auto

lemma mapR_Inr_iff: "mapR f xs = Inr ys \<longleftrightarrow> list_all2 (\<lambda>x y. f x = Inr y) xs ys"
  by (induction xs arbitrary: ys) (auto simp: res_simps list_all2_Cons1)

lemma mapR_Inr_map: "(\<And>x. x \<in> set xs \<Longrightarrow> f x = Inr (g x)) \<Longrightarrow> mapR f xs = Inr (map g xs)"
  by (induction xs) auto

section \<open>Sorting a table by a comparison\<close>

text \<open>
  ORDER BY. \<open>le x y\<close> says that \<open>x\<close> may stand before \<open>y\<close>. The sort is stable insertion.
\<close>

primrec insort_by :: "('a \<Rightarrow> 'a \<Rightarrow> bool) \<Rightarrow> 'a \<Rightarrow> 'a list \<Rightarrow> 'a list" where
  "insort_by le x [] = [x]"
| "insort_by le x (y # ys) = (if le x y then x # y # ys else y # insort_by le x ys)"

primrec order_by :: "('a \<Rightarrow> 'a \<Rightarrow> bool) \<Rightarrow> 'a list \<Rightarrow> 'a list" where
  "order_by le [] = []"
| "order_by le (x # xs) = insort_by le x (order_by le xs)"

lemma mset_insort_by [simp]: "mset (insort_by le x xs) = add_mset x (mset xs)"
  by (induction xs) auto

lemma mset_order_by [simp, order_facts]: "mset (order_by le xs) = mset xs"
  by (induction xs) auto

lemma set_insort_by [simp]: "set (insort_by le x xs) = insert x (set xs)"
  by (induction xs) auto

lemma set_order_by [simp, order_facts]: "set (order_by le xs) = set xs"
  by (induction xs) auto

lemma length_order_by [simp]: "length (order_by le xs) = length xs"
  using mset_order_by by (metis size_mset)

lemma distinct_order_by [simp]: "distinct (map f (order_by le xs)) = distinct (map f xs)"
  by (metis mset_map mset_order_by mset_eq_imp_distinct_iff)

locale total_preorder =
  fixes le :: "'a \<Rightarrow> 'a \<Rightarrow> bool"
  assumes le_trans: "le x y \<Longrightarrow> le y z \<Longrightarrow> le x z"
    and le_total: "le x y \<or> le y x"
begin

lemma sorted_insort_by: "sorted_wrt le xs \<Longrightarrow> sorted_wrt le (insort_by le x xs)"
proof (induction xs)
  case (Cons y ys)
  show ?case
  proof (cases "le x y")
    case True
    with Cons.prems show ?thesis by (auto intro: le_trans)
  next
    case False
    with le_total have "le y x" by blast
    with False Cons show ?thesis by auto
  qed
qed simp

lemma sorted_order_by: "sorted_wrt le (order_by le xs)"
  by (induction xs) (auto intro: sorted_insort_by)

text \<open>The sort is stable, so selecting rows and ordering them commute.\<close>

lemma filter_insort_by:
  "sorted_wrt le ys \<Longrightarrow>
   filter P (insort_by le x ys) = (if P x then insort_by le x (filter P ys) else filter P ys)"
proof (induction ys)
  case (Cons y ys)
  have "insort_by le x (filter P ys) = x # filter P ys" if "le x y"
  proof (cases "filter P ys")
    case (Cons z zs)
    then have "z \<in> set ys" using filter_eq_ConsD [OF Cons] by auto
    with Cons.prems have "le y z" by simp
    with that have "le x z" by (rule le_trans)
    with Cons show ?thesis by simp
  qed simp
  with Cons show ?case by auto
qed simp

lemma filter_order_by: "filter P (order_by le xs) = order_by le (filter P xs)"
  by (induction xs) (simp_all add: filter_insort_by sorted_order_by)

end

section \<open>Tables keyed by an identifier\<close>

text \<open>
  \<open>lookup_by key k xs\<close> is the row with primary key \<open>k\<close>; \<open>replace_by\<close> rewrites that row in place.
\<close>

definition lookup_by :: "('r \<Rightarrow> 'k) \<Rightarrow> 'k \<Rightarrow> 'r list \<Rightarrow> 'r option" where
  "lookup_by key k xs = find (\<lambda>r. key r = k) xs"

definition replace_by :: "('r \<Rightarrow> 'k) \<Rightarrow> 'r \<Rightarrow> 'r list \<Rightarrow> 'r list" where
  "replace_by key r xs = map (\<lambda>x. if key x = key r then r else x) xs"

lemma lookup_by_Nil [simp]: "lookup_by key k [] = None"
  by (simp add: lookup_by_def)

lemma lookup_by_Cons [simp]:
  "lookup_by key k (x # xs) = (if key x = k then Some x else lookup_by key k xs)"
  by (simp add: lookup_by_def)

lemma lookup_by_append [simp]:
  "lookup_by key k (xs @ ys) = (case lookup_by key k xs of None \<Rightarrow> lookup_by key k ys | Some r \<Rightarrow> Some r)"
  by (induction xs) auto

lemma lookup_by_SomeD: "lookup_by key k xs = Some r \<Longrightarrow> r \<in> set xs \<and> key r = k"
  by (induction xs) (auto split: if_splits)

lemma lookup_by_key: "lookup_by key k xs = Some r \<Longrightarrow> key r = k"
  by (drule lookup_by_SomeD) simp

lemma lookup_by_None_iff: "lookup_by key k xs = None \<longleftrightarrow> k \<notin> key ` set xs"
  by (induction xs) auto

lemma lookup_by_mem:
  "distinct (map key xs) \<Longrightarrow> r \<in> set xs \<Longrightarrow> lookup_by key (key r) xs = Some r"
  by (induction xs) (auto simp: rev_image_eqI)

lemma lookup_by_replace:
  "lookup_by key k (replace_by key r xs) =
     (if k = key r \<and> k \<in> key ` set xs then Some r else lookup_by key k xs)"
  by (induction xs) (auto simp: replace_by_def)

lemma keys_replace_by [simp]: "map key (replace_by key r xs) = map key xs"
  by (simp add: replace_by_def)

lemma set_replace_by_subset: "set (replace_by key r xs) \<subseteq> insert r (set xs)"
  by (auto simp: replace_by_def)

lemma length_replace_by [simp]: "length (replace_by key r xs) = length xs"
  by (simp add: replace_by_def)

end
