(* ===== verification/JsRuntime.thy ===== *)
theory JsRuntime
  imports Prelude
begin

text \<open>
  What the program uses of the JavaScript runtime: JSON values, numbers that are IEEE doubles
  but are checked with \<open>Number.isSafeInteger\<close>, decimal text of integers, case conversion; and
  the record \<open>runtime\<close> of the parts that are not code of the repository (the Temporal polyfill,
  SHA-256, JSON text, the Unicode case tables), which every component takes as a parameter.
\<close>

named_theorems safe_facts \<open>facts about safe integers\<close>

section \<open>Values\<close>

text \<open>
  \<open>JInt i\<close> is a number whose value is the integer \<open>i\<close> with \<open>\<bar>i\<bar> < 10 ^ 21\<close> (the integers that
  JavaScript prints in plain digits; both zeros are \<open>JInt 0\<close>), \<open>JFloat t\<close> any other number (a
  fraction, a larger integer, NaN, an infinity) by its text \<open>t\<close>. An object is the list of its
  own properties in creation order.
\<close>

datatype jval =
    JUndef
  | JNull
  | JBool bool
  | JInt int
  | JFloat ustr
  | JStr ustr
  | JArr "jval list"
  | JObj "(ustr \<times> jval) list"

type_synonym jobj = "(ustr \<times> jval) list"

definition hasOwn :: "jobj \<Rightarrow> string \<Rightarrow> bool" where
  "hasOwn r k \<longleftrightarrow> map_of r (js k) \<noteq> None"

definition jget :: "jobj \<Rightarrow> string \<Rightarrow> jval" where
  "jget r k = (case map_of r (js k) of None \<Rightarrow> JUndef | Some v \<Rightarrow> v)"

lemma hasOwn_Nil [simp]: "hasOwn [] k = False"
  by (simp add: hasOwn_def)

lemma hasOwn_Cons [simp]: "hasOwn ((a, v) # r) k \<longleftrightarrow> a = js k \<or> hasOwn r k"
  by (simp add: hasOwn_def)

lemma jget_Nil [simp]: "jget [] k = JUndef"
  by (simp add: jget_def)

lemma jget_Cons [simp]: "jget ((a, v) # r) k = (if a = js k then v else jget r k)"
  by (simp add: jget_def)

section \<open>Numbers\<close>

definition MAX_SAFE :: int where
  "MAX_SAFE = 9007199254740991"

definition is_safe :: "int \<Rightarrow> bool" where
  "is_safe n \<longleftrightarrow> \<bar>n\<bar> \<le> MAX_SAFE"

lemma is_safe_0 [simp, safe_facts]: "is_safe 0"
  by (simp add: is_safe_def MAX_SAFE_def)

lemma is_safe_1 [simp, safe_facts]: "is_safe 1"
  by (simp add: is_safe_def MAX_SAFE_def)

lemma is_safe_minus [simp]: "is_safe (- n) = is_safe n"
  by (simp add: is_safe_def)

text \<open>
  The sum or difference of two doubles is the exact result rounded to 53 significant bits, ties
  to even. \<open>fl53\<close> is that rounding of an exact integer.
\<close>

fun bitlen :: "nat \<Rightarrow> nat" where
  "bitlen n = (if n = 0 then 0 else Suc (bitlen (n div 2)))"

declare bitlen.simps [simp del]

definition fl53 :: "int \<Rightarrow> int" where
  "fl53 x = (let m = nat \<bar>x\<bar>; e = bitlen m - 53 in
     if e = 0 then x
     else let q = m div 2 ^ e; r = m mod 2 ^ e; h = 2 ^ (e - 1);
              q' = (if h < r \<or> (r = h \<and> odd q) then Suc q else q)
          in sgn x * int (q' * 2 ^ e))"

lemma bitlen_bounds: "0 < n \<Longrightarrow> 2 ^ (bitlen n - 1) \<le> n \<and> n < 2 ^ bitlen n"
proof (induction n rule: bitlen.induct)
  case (1 n)
  show ?case
  proof (cases "n div 2 = 0")
    case True
    with 1(2) have "n = 1" by simp
    then show ?thesis by (simp add: bitlen.simps [of "Suc 0"] bitlen.simps [of 0])
  next
    case False
    then have ih: "2 ^ (bitlen (n div 2) - 1) \<le> n div 2" "n div 2 < 2 ^ bitlen (n div 2)"
      using 1 by auto
    obtain b where b: "bitlen (n div 2) = Suc b"
      using False bitlen.simps [of "n div 2"] by auto
    have "bitlen n = Suc (Suc b)" using b 1(2) bitlen.simps [of n] by simp
    with ih b show ?thesis by auto
  qed
qed

lemma bitlen_le: "n < 2 ^ k \<Longrightarrow> bitlen n \<le> k"
proof (cases "n = 0")
  case True
  then show ?thesis by (simp add: bitlen.simps [of 0])
next
  case False
  assume "n < 2 ^ k"
  with bitlen_bounds [of n] False have "(2::nat) ^ (bitlen n - 1) < 2 ^ k" by linarith
  then have "bitlen n - 1 < k" by simp
  then show ?thesis by simp
qed

lemma fl53_exact: "\<bar>x\<bar> < 2 ^ 53 \<Longrightarrow> fl53 x = x"
proof -
  assume "\<bar>x\<bar> < 2 ^ 53"
  then have "nat \<bar>x\<bar> < 2 ^ 53" by (simp add: nat_less_iff)
  then have "bitlen (nat \<bar>x\<bar>) \<le> 53" by (rule bitlen_le)
  then show ?thesis by (simp add: fl53_def)
qed

lemma fl53_large: "2 ^ 53 \<le> \<bar>x\<bar> \<Longrightarrow> 2 ^ 53 \<le> \<bar>fl53 x\<bar>"
proof -
  assume big: "2 ^ 53 \<le> \<bar>x\<bar>"
  define m where "m = nat \<bar>x\<bar>"
  have m: "2 ^ 53 \<le> m" "0 < m" and sgn: "\<bar>sgn x\<bar> = 1"
    using big by (auto simp: m_def sgn_if)
  have lo: "2 ^ (bitlen m - 1) \<le> m" and "m < 2 ^ bitlen m" using bitlen_bounds m(2) by auto
  then have "(2::nat) ^ 53 < 2 ^ bitlen m" using m(1) by linarith
  then have b: "53 < bitlen m" by (rule power_less_imp_less_exp [rotated]) simp
  define e where "e = bitlen m - 53"
  have e: "0 < e" "bitlen m - 1 = 52 + e" using b by (auto simp: e_def)
  define q where "q = m div 2 ^ e"
  have "2 ^ (52 + e) \<le> m" using lo e(2) by simp
  then have "(2 ^ 52 * 2 ^ e) div 2 ^ e \<le> q"
    unfolding q_def by (metis div_le_mono power_add)
  then have q: "2 ^ 52 \<le> q" by simp
  have key: "2 ^ 53 \<le> q' * 2 ^ e" if "q \<le> q'" for q'
  proof -
    have "(2::nat) ^ 52 * 2 ^ 1 \<le> q' * 2 ^ e"
      using q that e(1) by (intro mult_mono power_increasing) auto
    then show ?thesis by simp
  qed
  define q' where "q' = (if 2 ^ (e - 1) < m mod 2 ^ e \<or> (m mod 2 ^ e = 2 ^ (e - 1) \<and> odd q)
    then Suc q else q)"
  have q': "q \<le> q'" "fl53 x = sgn x * int (q' * 2 ^ e)"
    using e(1) unfolding fl53_def Let_def m_def [symmetric] e_def [symmetric] q_def [symmetric]
      q'_def by simp_all
  have "\<bar>fl53 x\<bar> = int (q' * 2 ^ e)"
    using q'(2) sgn by (simp add: abs_mult)
  moreover have "(2::int) ^ 53 \<le> int (q' * 2 ^ e)"
    using key [OF q'(1)] by (metis of_nat_le_iff of_nat_numeral of_nat_power)
  ultimately show ?thesis by simp
qed

text \<open>
  The rounding is invisible behind a safety check: a rounded result is safe exactly when the
  exact result is, and then it is the exact result.
\<close>

lemma is_safe_iff_lt: "is_safe n \<longleftrightarrow> \<bar>n\<bar> < 2 ^ 53"
  unfolding is_safe_def MAX_SAFE_def by simp linarith

lemma is_safe_fl53 [simp, safe_facts]: "is_safe (fl53 n) = is_safe n"
  using fl53_exact [of n] fl53_large [of n] unfolding is_safe_iff_lt by linarith

lemma fl53_safe [simp, safe_facts]: "is_safe n \<Longrightarrow> fl53 n = n"
  unfolding is_safe_iff_lt by (rule fl53_exact)

section \<open>Decimal text\<close>

fun nat_text :: "nat \<Rightarrow> ustr" where
  "nat_text n = (if n < 10 then [48 + n] else nat_text (n div 10) @ [48 + n mod 10])"

declare nat_text.simps [simp del]

definition int_text :: "int \<Rightarrow> ustr" where
  "int_text i = (if i < 0 then 45 # nat_text (nat (- i)) else nat_text (nat i))"

definition digits_val :: "ustr \<Rightarrow> nat" where
  "digits_val ds = foldl (\<lambda>a d. 10 * a + (d - 48)) 0 ds"

lemma digits_val_Nil [simp]: "digits_val [] = 0"
  by (simp add: digits_val_def)

lemma digits_val_snoc [simp]: "digits_val (ds @ [d]) = 10 * digits_val ds + (d - 48)"
  by (simp add: digits_val_def)

lemma digits_val_append: "digits_val (xs @ ys) = digits_val xs * 10 ^ length ys + digits_val ys"
proof (induction ys rule: rev_induct)
  case (snoc y ys)
  have "digits_val (xs @ ys @ [y]) = digits_val ((xs @ ys) @ [y])" by simp
  also have "\<dots> = 10 * digits_val (xs @ ys) + (y - 48)" by (rule digits_val_snoc)
  finally show ?case using snoc by (simp add: algebra_simps)
qed simp

lemma digits_val_replicate [simp]: "digits_val (replicate k 48) = 0"
proof (induction k)
  case (Suc k)
  have "replicate (Suc k) (48::nat) = replicate k 48 @ [48]"
    by (simp add: replicate_append_same)
  with Suc show ?case by (simp del: replicate.simps)
qed simp

lemma digits_val_zeros: "digits_val (replicate k 48 @ ds) = digits_val ds"
  by (simp add: digits_val_append)

lemma digits_val_nat_text [simp]: "digits_val (nat_text n) = n"
proof (induction n rule: nat_text.induct)
  case (1 n)
  show ?case
  proof (cases "n < 10")
    case True
    then have "nat_text n = [] @ [48 + n]" by (subst nat_text.simps) simp
    then show ?thesis by (simp only: digits_val_snoc digits_val_Nil)
  next
    case False
    with 1 show ?thesis by (subst nat_text.simps) simp
  qed
qed

lemma nat_text_digits: "list_all is_digit (nat_text n)"
proof (induction n rule: nat_text.induct)
  case (1 n)
  show ?case
    by (cases "n < 10"; subst nat_text.simps) (auto simp: is_digit_def 1)
qed

lemma nat_text_ne [simp]: "nat_text n \<noteq> []"
  by (subst nat_text.simps) simp

lemma nat_text_inject [simp]: "nat_text m = nat_text n \<longleftrightarrow> m = n"
  by (metis digits_val_nat_text)

lemma digits_val_bound: "list_all is_digit ds \<Longrightarrow> digits_val ds < 10 ^ length ds"
proof (induction ds rule: rev_induct)
  case (snoc d ds)
  then have "digits_val ds + 1 \<le> 10 ^ length ds" "d - 48 \<le> 9"
    by (auto simp: is_digit_def)
  then have "10 * digits_val ds + (d - 48) < 10 * 10 ^ length ds" by linarith
  then show ?case by simp
qed simp

lemma nat_text_length: "n < 10 ^ k \<Longrightarrow> 0 < k \<Longrightarrow> length (nat_text n) \<le> k"
proof (induction n arbitrary: k rule: nat_text.induct)
  case (1 n)
  show ?case
  proof (cases "n < 10")
    case True
    with 1(3) show ?thesis by (subst nat_text.simps) simp
  next
    case False
    have "k \<noteq> 1" using False 1(2) by auto
    with 1(3) obtain j where k: "k = Suc j" "0 < j"
      by (cases k) auto
    have "n div 10 < 10 ^ j" using 1(2) k by (simp add: div_less_iff_less_mult mult.commute)
    with False 1(1) k show ?thesis by (subst nat_text.simps) simp
  qed
qed

section \<open>Case conversion\<close>

text \<open>
  \<open>toUpperCase\<close> and \<open>toLowerCase\<close> on ASCII strings; a string with another code unit goes through
  the Unicode tables, which are a parameter.
\<close>

definition ascii_upper :: "nat \<Rightarrow> nat" where
  "ascii_upper c = (if 97 \<le> c \<and> c \<le> 122 then c - 32 else c)"

definition ascii_lower :: "nat \<Rightarrow> nat" where
  "ascii_lower c = (if 65 \<le> c \<and> c \<le> 90 then c + 32 else c)"

definition toUpperCase :: "(ustr \<Rightarrow> ustr) \<Rightarrow> ustr \<Rightarrow> ustr" where
  "toUpperCase uni s = (if list_all (\<lambda>c. c < 128) s then map ascii_upper s else uni s)"

definition toLowerCase :: "(ustr \<Rightarrow> ustr) \<Rightarrow> ustr \<Rightarrow> ustr" where
  "toLowerCase uni s = (if list_all (\<lambda>c. c < 128) s then map ascii_lower s else uni s)"

section \<open>The parameters of the model\<close>

text \<open>
  Temporal's plain dates are integers (the number of a day); an operation that can throw has an
  option result, \<open>None\<close> for the thrown RangeError.
  \<^item> \<open>instant_ok\<close>: \<open>Temporal.Instant.fromEpochMilliseconds\<close> accepts the value;
  \<^item> \<open>zone_ok\<close>: \<open>toZonedDateTimeISO\<close> of the epoch accepts the time zone;
  \<^item> \<open>date_from\<close>: \<open>Temporal.PlainDate.from(text, {overflow: 'reject'})\<close>;
  \<^item> \<open>date_of_instant t z\<close>: the local date of instant \<open>t\<close> in zone \<open>z\<close>;
  \<^item> \<open>midnight d z\<close>: epoch milliseconds of the start of day \<open>d\<close> in zone \<open>z\<close>;
  \<^item> \<open>first_of_month\<close>, \<open>first_of_year\<close>, \<open>day_of_week\<close>, \<open>add_days\<close>, \<open>add_months\<close>, \<open>add_years\<close>: the
    calendar operations, and \<open>date_text\<close> the ISO text of a date;
  \<^item> \<open>sys_now\<close>: the value of \<open>Date.now()\<close> where the code reads the clock itself;
  \<^item> \<open>write_locked\<close>: another connection holds SQLite's write lock past the busy timeout;
  \<^item> \<open>locale_compare\<close>: the sign of \<open>String.prototype.localeCompare\<close> in the default locale.
\<close>

record runtime =
  rt_lower :: "ustr \<Rightarrow> ustr"
  rt_upper :: "ustr \<Rightarrow> ustr"
  rt_json_parse :: "ustr \<Rightarrow> jval option"
  rt_json_text :: "jval \<Rightarrow> ustr"
  rt_sha256 :: "ustr \<Rightarrow> ustr"
  instant_ok :: "int \<Rightarrow> bool"
  zone_ok :: "ustr \<Rightarrow> bool"
  date_from :: "ustr \<Rightarrow> int option"
  date_text :: "int \<Rightarrow> ustr"
  date_of_instant :: "int \<Rightarrow> ustr \<Rightarrow> int"
  midnight :: "int \<Rightarrow> ustr \<Rightarrow> int option"
  day_of_week :: "int \<Rightarrow> int"
  first_of_month :: "int \<Rightarrow> int option"
  first_of_year :: "int \<Rightarrow> int option"
  add_days :: "int \<Rightarrow> int \<Rightarrow> int option"
  add_months :: "int \<Rightarrow> int \<Rightarrow> int option"
  add_years :: "int \<Rightarrow> int \<Rightarrow> int option"
  sys_now :: int
  write_locked :: bool
  locale_compare :: "ustr \<Rightarrow> ustr \<Rightarrow> int"

text \<open>
  A runtime on which closed examples evaluate: identity tables, no JSON text, every zone known,
  days of 86400000 milliseconds in every zone, and a calendar of 30-day months and 360-day years
  that has a text for its first nine days.
\<close>

definition demo_runtime :: runtime where
  "demo_runtime = \<lparr>
     rt_lower = id, rt_upper = id,
     rt_json_parse = (\<lambda>_. None), rt_json_text = (\<lambda>_. []), rt_sha256 = id,
     instant_ok = (\<lambda>t. \<bar>t\<bar> \<le> 8640000000000000), zone_ok = (\<lambda>_. True),
     date_from = (\<lambda>t. Some (int (last t) - 49)),
     date_text = (\<lambda>d. if 0 \<le> d \<and> d \<le> 8 then js ''1970-01-0'' @ [49 + nat d] else js ''far''),
     date_of_instant = (\<lambda>t _. t div 86400000), midnight = (\<lambda>d _. Some (d * 86400000)),
     day_of_week = (\<lambda>d. (d + 3) mod 7 + 1),
     first_of_month = (\<lambda>d. Some (d - d mod 30)), first_of_year = (\<lambda>d. Some (d - d mod 360)),
     add_days = (\<lambda>d k. Some (d + k)), add_months = (\<lambda>d k. Some (d + 30 * k)),
     add_years = (\<lambda>d k. Some (d + 360 * k)),
     sys_now = 864000000000,
     write_locked = False,
     locale_compare = (\<lambda>a b. if a < b then -1 else if a = b then 0 else 1)\<rparr>"

end
