(* ===== verification/LedgerErrors.thy ===== *)
theory LedgerErrors
  imports JsRuntime
begin

text \<open>
  The error vocabulary of the Ledger (server/ledger/errors.ts, the error class of
  shared/ledgerCurrency.ts), the HTTP status an escaped error is answered with
  (server/ledger/routes/shared.ts) and the write transaction around every mutation
  (server/ledger/writeTransaction.ts). An error value carries its code, its status and the
  \<open>field\<close> detail; the message text and the other details are left out.
\<close>

datatype ledger_code =
    LValidationFailed
  | LNotFound
  | LDuplicateCategory
  | LArchivedAccount
  | LArchivedCategory
  | LInvalidAccountPair
  | LCurrencyMismatch
  | LOpeningDateConflict
  | LTimezoneLocked
  | LBaseCurrencyLocked
  | LBalanceConflict
  | LVersionConflict
  | LAccountHasHistory
  | LAccountNonzeroBalance
  | LCategoryHasHistory
  | LSettingsAlreadyInitialized
  | LTransactionTypeImmutable
  | LTransactionDeleted
  | LAdjustmentImmutable
  | LIdempotencyConflict
  | LInvalidCurrency
  | LInvalidTimezone
  | LInvalidOpeningDate
  | LMoneyUnsafe
  | LMoneyNonPositive
  | LMoneyNegative
  | LMoneyOverflow
  | LCategoryKindMismatch
  | LWriteBusy

datatype currency_code =
    InvalidCurrencyCode
  | UnsupportedCurrency
  | InvalidDecimal
  | FractionalPrecisionExceeded
  | CurrencyAmountOverflow
  | CurrencyMetadataIncompatible

datatype sqlite_code = SqConstraint | SqBusy | SqOverflow

datatype js_error =
    LedgerError ledger_code nat "ustr option"
  | CurrencyError currency_code
  | SqliteError sqlite_code
  | TypeErr
  | RangeErr
  | PlainErr

type_synonym 'a res = "js_error + 'a"

definition ledgerValidationError :: "string \<Rightarrow> js_error" where
  "ledgerValidationError field = LedgerError LValidationFailed 400
     (if field = [] then None else Some (js field))"

lemma ledgerValidationError_inject [simp]:
  "ledgerValidationError f = ledgerValidationError g \<longleftrightarrow> f = g"
  by (auto simp: ledgerValidationError_def)

fun isLedgerError :: "js_error \<Rightarrow> bool" where
  "isLedgerError (LedgerError _ _ _) = True"
| "isLedgerError _ = False"

text \<open>The status of the response to an error that reaches the route.\<close>

fun ledgerErrorStatus :: "js_error \<Rightarrow> nat" where
  "ledgerErrorStatus (LedgerError _ status _) = status"
| "ledgerErrorStatus _ = 500"

section \<open>The write transaction\<close>

definition isSqliteBusy :: "js_error \<Rightarrow> bool" where
  "isSqliteBusy e \<longleftrightarrow> e = SqliteError SqBusy"

definition ledgerWriteBusyError :: js_error where
  "ledgerWriteBusyError = LedgerError LWriteBusy 503 None"

text \<open>
  A callback takes the database and returns its result and the changed database, or throws. The
  outermost call opens an IMMEDIATE transaction, commits the changed database on a normal return
  and rolls back to the one it started from on a throw; a nested call runs in the transaction
  that is open and leaves the rollback to it.
\<close>

definition runLedgerWrite ::
  "runtime \<Rightarrow> 's \<Rightarrow> ('s \<Rightarrow> js_error + 'a \<times> 's) \<Rightarrow> (js_error + 'a) \<times> 's" where
  "runLedgerWrite rt db callback =
     (case (if write_locked rt then Inl (SqliteError SqBusy) else callback db) of
        Inl e \<Rightarrow> (Inl (if isSqliteBusy e then ledgerWriteBusyError else e), db)
      | Inr (x, db') \<Rightarrow> (Inr x, db'))"

definition runNestedLedgerWrite ::
  "'s \<Rightarrow> ('s \<Rightarrow> js_error + 'a \<times> 's) \<Rightarrow> js_error + 'a \<times> 's" where
  "runNestedLedgerWrite db callback =
     (case callback db of
        Inl e \<Rightarrow> Inl (if isSqliteBusy e then ledgerWriteBusyError else e)
      | Inr r \<Rightarrow> Inr r)"

lemma runLedgerWrite_Inr:
  "runLedgerWrite rt db cb = (Inr x, db') \<longleftrightarrow> \<not> write_locked rt \<and> cb db = Inr (x, db')"
  by (auto simp: runLedgerWrite_def split: sum.splits prod.splits if_splits)

lemma runLedgerWrite_Inl: "runLedgerWrite rt db cb = (Inl e, db') \<Longrightarrow> db' = db"
  by (auto simp: runLedgerWrite_def split: sum.splits prod.splits if_splits)

lemma runNestedLedgerWrite_Inr [simp, res_simps]:
  "runNestedLedgerWrite db cb = Inr r \<longleftrightarrow> cb db = Inr r"
  by (auto simp: runNestedLedgerWrite_def split: sum.splits)

text \<open>
  What every mutation inherits: it either commits the callback's database, or throws and leaves
  the database as it was.
\<close>

lemma runLedgerWrite_cases:
  assumes "runLedgerWrite rt db cb = (r, db')"
  obtains (commit) x where "r = Inr x" "cb db = Inr (x, db')"
    | (abort) e where "r = Inl e" "db' = db"
  using assms by (auto simp: runLedgerWrite_def split: sum.splits prod.splits if_splits)

end
