(* ===== verification/LedgerMoney.thy ===== *)
theory LedgerMoney
  imports LedgerErrors
begin

text \<open>
  Minor-unit arithmetic (server/ledger/money.ts). The operations add and subtract doubles
  (\<open>fl53\<close> of the exact result) between two safety checks; the lemmas show that what comes out is
  the exact integer, or an error exactly when that integer is not safe.
\<close>

definition assertSafeMinor :: "jval \<Rightarrow> string \<Rightarrow> int res" where
  "assertSafeMinor value field =
     (case value of
        JInt n \<Rightarrow> if is_safe n then Inr n else Inl (LedgerError LMoneyUnsafe 400 (Some (js field)))
      | _ \<Rightarrow> Inl (LedgerError LMoneyUnsafe 400 (Some (js field))))"

definition assertSafeInteger :: "int \<Rightarrow> string \<Rightarrow> unit res" where
  "assertSafeInteger n field =
     checkR (is_safe n) (LedgerError LMoneyUnsafe 400 (Some (js field)))"

definition assertPositiveMinor :: "int \<Rightarrow> string \<Rightarrow> unit res" where
  "assertPositiveMinor n field =
     bindR (assertSafeInteger n field) (\<lambda>_.
     checkR (\<not> n \<le> 0) (LedgerError LMoneyNonPositive 400 (Some (js field))))"

definition assertNonNegativeSafeInteger :: "int \<Rightarrow> string \<Rightarrow> unit res" where
  "assertNonNegativeSafeInteger n field =
     bindR (assertSafeInteger n field) (\<lambda>_.
     checkR (\<not> n < 0) (LedgerError LMoneyNegative 400 (Some (js field))))"

definition checkedResult :: "int \<Rightarrow> int res" where
  "checkedResult n = (if is_safe n then Inr n else Inl (LedgerError LMoneyOverflow 400 None))"

definition checkedAddMinor :: "int \<Rightarrow> int \<Rightarrow> int res" where
  "checkedAddMinor a b =
     bindR (assertSafeInteger a ''leftMinor'') (\<lambda>_.
     bindR (assertSafeInteger b ''rightMinor'') (\<lambda>_.
     checkedResult (fl53 (a + b))))"

definition checkedSubMinor :: "int \<Rightarrow> int \<Rightarrow> int res" where
  "checkedSubMinor a b =
     bindR (assertSafeInteger a ''leftMinor'') (\<lambda>_.
     bindR (assertSafeInteger b ''rightMinor'') (\<lambda>_.
     checkedResult (fl53 (a - b))))"

text \<open>The loop \<open>for (const value of values) total = checkedAddMinor(total, value)\<close>.\<close>

primrec checkedSumFrom :: "int \<Rightarrow> int list \<Rightarrow> int res" where
  "checkedSumFrom acc [] = Inr acc"
| "checkedSumFrom acc (v # vs) = bindR (checkedAddMinor acc v) (\<lambda>t. checkedSumFrom t vs)"

definition checkedSumMinor :: "int list \<Rightarrow> int res" where
  "checkedSumMinor vs = checkedSumFrom 0 vs"

section \<open>Exactness\<close>

lemma assertSafeInteger_Inr [simp, res_simps]: "assertSafeInteger n f = Inr u \<longleftrightarrow> is_safe n"
  by (simp add: assertSafeInteger_def)

lemma assertSafeInteger_safe [simp]: "is_safe n \<Longrightarrow> assertSafeInteger n f = Inr ()"
  by simp

lemma assertSafeMinor_Inr [simp, res_simps]:
  "assertSafeMinor v f = Inr n \<longleftrightarrow> v = JInt n \<and> is_safe n"
  by (auto simp: assertSafeMinor_def split: jval.splits)

lemma assertPositiveMinor_Inr [simp, res_simps]:
  "assertPositiveMinor n f = Inr u \<longleftrightarrow> is_safe n \<and> 0 < n"
  by (auto simp: assertPositiveMinor_def bindR_eq_Inr)

lemma assertNonNegativeSafeInteger_Inr [simp, res_simps]:
  "assertNonNegativeSafeInteger n f = Inr u \<longleftrightarrow> is_safe n \<and> 0 \<le> n"
  by (auto simp: assertNonNegativeSafeInteger_def bindR_eq_Inr)

lemma assert_money_ok [simp]:
  "is_safe n \<Longrightarrow> 0 < n \<Longrightarrow> assertPositiveMinor n f = Inr ()"
  "is_safe n \<Longrightarrow> 0 \<le> n \<Longrightarrow> assertNonNegativeSafeInteger n f = Inr ()"
  "is_safe n \<Longrightarrow> assertSafeMinor (JInt n) f = Inr n"
  by simp_all

lemma checkedAddMinor_Inr [simp, res_simps]:
  "checkedAddMinor a b = Inr c \<longleftrightarrow> is_safe a \<and> is_safe b \<and> is_safe (a + b) \<and> c = a + b"
  by (auto simp: checkedAddMinor_def checkedResult_def bindR_eq_Inr)

lemma checkedSubMinor_Inr [simp, res_simps]:
  "checkedSubMinor a b = Inr c \<longleftrightarrow> is_safe a \<and> is_safe b \<and> is_safe (a - b) \<and> c = a - b"
  by (auto simp: checkedSubMinor_def checkedResult_def bindR_eq_Inr)

lemma checkedAddMinor_eq:
  "is_safe a \<Longrightarrow> is_safe b \<Longrightarrow> checkedAddMinor a b =
     (if is_safe (a + b) then Inr (a + b) else Inl (LedgerError LMoneyOverflow 400 None))"
  by (simp add: checkedAddMinor_def checkedResult_def)

lemma checkedSubMinor_eq:
  "is_safe a \<Longrightarrow> is_safe b \<Longrightarrow> checkedSubMinor a b =
     (if is_safe (a - b) then Inr (a - b) else Inl (LedgerError LMoneyOverflow 400 None))"
  by (simp add: checkedSubMinor_def checkedResult_def)

lemma checkedSubMinor_zero [simp]: "is_safe n \<Longrightarrow> checkedSubMinor 0 n = Inr (- n)"
  by (simp add: checkedSubMinor_eq)

lemma checkedSumFrom_Inr:
  "is_safe t \<Longrightarrow> checkedSumFrom t vs = Inr s \<longleftrightarrow>
     s = t + sum_list vs \<and> list_all is_safe vs \<and>
     (\<forall>k \<le> length vs. is_safe (t + sum_list (take k vs)))"
proof (induction vs arbitrary: t)
  case Nil
  then show ?case by auto
next
  case (Cons v vs)
  have split: "(\<forall>k \<le> length (v # vs). is_safe (t + sum_list (take k (v # vs)))) \<longleftrightarrow>
      (\<forall>k \<le> length vs. is_safe (t + v + sum_list (take k vs)))"
    using Cons.prems
    by (simp only: less_Suc_eq_le [symmetric] length_Cons All_less_Suc2 [of "Suc (length vs)"])
      (simp add: add.assoc)
  have zero: "is_safe (t + v)" if "\<forall>k \<le> length vs. is_safe (t + v + sum_list (take k vs))"
    using that by (metis add.right_neutral le0 sum_list.Nil take0)
  show ?case
  proof (cases "is_safe v \<and> is_safe (t + v)")
    case True
    then show ?thesis
      unfolding split by (simp add: bindR_eq_Inr Cons.IH Cons.prems add.assoc)
  next
    case False
    then show ?thesis
      unfolding split using zero by (auto simp: bindR_eq_Inr Cons.prems)
  qed
qed

text \<open>
  Adding and subtracting minor units never returns a wrong amount: on safe operands
  the checked operations return the exact integer result when it is a safe integer, and throw the
  overflow error otherwise, although the code adds and subtracts rounded doubles.
\<close>

lemma checked_arithmetic_exact:
  assumes "is_safe a" and "is_safe b"
  shows "checkedAddMinor a b =
      (if \<bar>a + b\<bar> \<le> 9007199254740991 then Inr (a + b) else Inl (LedgerError LMoneyOverflow 400 None))
    \<and> checkedSubMinor a b =
      (if \<bar>a - b\<bar> \<le> 9007199254740991 then Inr (a - b) else Inl (LedgerError LMoneyOverflow 400 None))"
  using checkedAddMinor_eq [OF assms] checkedSubMinor_eq [OF assms]
  by (simp add: is_safe_def MAX_SAFE_def)

text \<open>
  Summing a list of safe amounts returns their exact total if and only if every
  running total is safe; no overflow inside the sum is hidden by later terms.
\<close>

lemma checkedSumMinor_exact:
  "checkedSumMinor vs = Inr s \<longleftrightarrow>
     s = sum_list vs \<and> list_all is_safe vs \<and> (\<forall>k. is_safe (sum_list (take k vs)))"
proof -
  have "(\<forall>k \<le> length vs. is_safe (sum_list (take k vs))) \<longleftrightarrow> (\<forall>k. is_safe (sum_list (take k vs)))"
    by (metis nat_le_linear order_refl take_all)
  then show ?thesis using checkedSumFrom_Inr [of 0 vs s]
    by (simp add: checkedSumMinor_def)
qed

end
