(* ===== verification/LedgerCurrency.thy ===== *)
theory LedgerCurrency
  imports LedgerMoney
begin

text \<open>
  Currency metadata, decimal parsing and formatting of minor units (shared/ledgerCurrency.ts).
  The regular expressions of the source are the functions \<open>isCurrencyCode\<close> and \<open>decimalMatch\<close>.
\<close>

section \<open>The metadata snapshot\<close>

definition CURRENCY_EXPONENTS :: "(string \<times> nat) list" where
  "CURRENCY_EXPONENTS = [
  (''AED'', 2), (''AFN'', 2), (''ALL'', 2), (''AMD'', 2), (''AOA'', 2), (''ARS'', 2),
   (''AUD'', 2), (''AWG'', 2), (''AZN'', 2), (''BAM'', 2), (''BBD'', 2), (''BDT'', 2),
   (''BHD'', 3), (''BIF'', 0), (''BMD'', 2), (''BND'', 2), (''BOB'', 2), (''BOV'', 2),
   (''BRL'', 2), (''BSD'', 2), (''BTN'', 2), (''BWP'', 2), (''BYN'', 2), (''BZD'', 2),
   (''CAD'', 2), (''CDF'', 2), (''CHE'', 2), (''CHF'', 2), (''CHW'', 2), (''CLF'', 4),
   (''CLP'', 0), (''CNY'', 2), (''COP'', 2), (''COU'', 2), (''CRC'', 2), (''CUP'', 2),
   (''CVE'', 2), (''CZK'', 2), (''DJF'', 0), (''DKK'', 2), (''DOP'', 2), (''DZD'', 2),
   (''EGP'', 2), (''ERN'', 2), (''ETB'', 2), (''EUR'', 2), (''FJD'', 2), (''FKP'', 2),
   (''GBP'', 2), (''GEL'', 2), (''GHS'', 2), (''GIP'', 2), (''GMD'', 2), (''GNF'', 0),
   (''GTQ'', 2), (''GYD'', 2), (''HKD'', 2), (''HNL'', 2), (''HTG'', 2), (''HUF'', 2),
   (''IDR'', 2), (''ILS'', 2), (''INR'', 2), (''IQD'', 3), (''IRR'', 2), (''ISK'', 0),
   (''JMD'', 2), (''JOD'', 3), (''JPY'', 0), (''KES'', 2), (''KGS'', 2), (''KHR'', 2),
   (''KMF'', 0), (''KPW'', 2), (''KRW'', 0), (''KWD'', 3), (''KYD'', 2), (''KZT'', 2),
   (''LAK'', 2), (''LBP'', 2), (''LKR'', 2), (''LRD'', 2), (''LSL'', 2), (''LYD'', 3),
   (''MAD'', 2), (''MDL'', 2), (''MGA'', 2), (''MKD'', 2), (''MMK'', 2), (''MNT'', 2),
   (''MOP'', 2), (''MRU'', 2), (''MUR'', 2), (''MVR'', 2), (''MWK'', 2), (''MXN'', 2),
   (''MXV'', 2), (''MYR'', 2), (''MZN'', 2), (''NAD'', 2), (''NGN'', 2), (''NIO'', 2),
   (''NOK'', 2), (''NPR'', 2), (''NZD'', 2), (''OMR'', 3), (''PAB'', 2), (''PEN'', 2),
   (''PGK'', 2), (''PHP'', 2), (''PKR'', 2), (''PLN'', 2), (''PYG'', 0), (''QAR'', 2),
   (''RON'', 2), (''RSD'', 2), (''RUB'', 2), (''RWF'', 0), (''SAR'', 2), (''SBD'', 2),
   (''SCR'', 2), (''SDG'', 2), (''SEK'', 2), (''SGD'', 2), (''SHP'', 2), (''SLE'', 2),
   (''SOS'', 2), (''SRD'', 2), (''SSP'', 2), (''STN'', 2), (''SVC'', 2), (''SYP'', 2),
   (''SZL'', 2), (''THB'', 2), (''TJS'', 2), (''TMT'', 2), (''TND'', 3), (''TOP'', 2),
   (''TRY'', 2), (''TTD'', 2), (''TWD'', 2), (''TZS'', 2), (''UAH'', 2), (''UGX'', 0),
   (''USD'', 2), (''USN'', 2), (''UYI'', 0), (''UYU'', 2), (''UYW'', 4), (''UZS'', 2),
   (''VED'', 2), (''VES'', 2), (''VND'', 0), (''VUV'', 0), (''WST'', 2), (''XAD'', 2),
   (''XAF'', 0), (''XCD'', 2), (''XCG'', 2), (''XOF'', 0), (''XPF'', 0), (''YER'', 2),
   (''ZAR'', 2), (''ZMW'', 2), (''ZWG'', 2)]"

definition exponent_of :: "ustr \<Rightarrow> nat option" where
  "exponent_of code = map_of (map (\<lambda>(c, e). (js c, e)) CURRENCY_EXPONENTS) code"

definition isCurrencyCode :: "ustr \<Rightarrow> bool" where
  "isCurrencyCode s \<longleftrightarrow> length s = 3 \<and> list_all (\<lambda>c. 65 \<le> c \<and> c \<le> 90) s"

definition normalizeLedgerCurrencyCode :: "runtime \<Rightarrow> jval \<Rightarrow> ustr res" where
  "normalizeLedgerCurrencyCode rt value =
     (case value of
        JStr s \<Rightarrow>
          let normalized = toUpperCase (rt_upper rt) (js_trim s)
          in if isCurrencyCode normalized then Inr normalized
             else Inl (CurrencyError InvalidCurrencyCode)
      | _ \<Rightarrow> Inl (CurrencyError InvalidCurrencyCode))"

definition isSupportedLedgerCurrency :: "runtime \<Rightarrow> jval \<Rightarrow> bool" where
  "isSupportedLedgerCurrency rt value =
     (case normalizeLedgerCurrencyCode rt value of
        Inl _ \<Rightarrow> False
      | Inr code \<Rightarrow> exponent_of code \<noteq> None)"

definition getLedgerCurrencyExponent :: "runtime \<Rightarrow> jval \<Rightarrow> nat option" where
  "getLedgerCurrencyExponent rt value =
     (case normalizeLedgerCurrencyCode rt value of
        Inl _ \<Rightarrow> None
      | Inr code \<Rightarrow> exponent_of code)"

definition currencyExponentFor :: "runtime \<Rightarrow> jval \<Rightarrow> nat res" where
  "currencyExponentFor rt value =
     bindR (normalizeLedgerCurrencyCode rt value) (\<lambda>code.
     case exponent_of code of
       None \<Rightarrow> Inl (CurrencyError UnsupportedCurrency)
     | Some e \<Rightarrow> Inr e)"

definition assertSupportedLedgerCurrency :: "runtime \<Rightarrow> jval \<Rightarrow> ustr res" where
  "assertSupportedLedgerCurrency rt value =
     bindR (normalizeLedgerCurrencyCode rt value) (\<lambda>code.
     bindR (currencyExponentFor rt (JStr code)) (\<lambda>_. Inr code))"

section \<open>Decimal text and minor units\<close>

text \<open>\<open>/^(-?)(\d+)(?:\.(\d+))?$/\<close>: sign, integer digits, fraction digits.\<close>

definition decimalMatch :: "ustr \<Rightarrow> (bool \<times> ustr \<times> ustr option) option" where
  "decimalMatch s =
     (let neg = (s \<noteq> [] \<and> hd s = 45);
          body = (if neg then tl s else s);
          whole = takeWhile is_digit body;
          rest = dropWhile is_digit body
      in if whole = [] then None
         else case rest of
             [] \<Rightarrow> Some (neg, whole, None)
           | c # fraction \<Rightarrow>
               if c = 46 \<and> fraction \<noteq> [] \<and> list_all is_digit fraction
               then Some (neg, whole, Some fraction) else None)"

definition MAX_SAFE_INTEGER_DIGITS :: ustr where
  "MAX_SAFE_INTEGER_DIGITS = nat_text 9007199254740991"

text \<open>\<open>digits.replace(/^0+(?=\d)/, '')\<close> on a string of digits.\<close>

definition stripZeros :: "ustr \<Rightarrow> ustr" where
  "stripZeros ds =
     (let r = dropWhile (\<lambda>c. c = 48) ds in if r = [] \<and> ds \<noteq> [] then [48] else r)"

definition safeIntegerFromDigits :: "ustr \<Rightarrow> int res" where
  "safeIntegerFromDigits digits =
     (let canonical = stripZeros digits in
      if length canonical > length MAX_SAFE_INTEGER_DIGITS
         \<or> (length canonical = length MAX_SAFE_INTEGER_DIGITS
            \<and> canonical > MAX_SAFE_INTEGER_DIGITS)
      then Inl (CurrencyError CurrencyAmountOverflow)
      else let value = fl53 (int (digits_val canonical)) in
        if \<not> is_safe value then Inl (CurrencyError CurrencyAmountOverflow) else Inr value)"

definition padEnd :: "ustr \<Rightarrow> nat \<Rightarrow> nat \<Rightarrow> ustr" where
  "padEnd s n c = s @ replicate (n - length s) c"

definition padStart :: "ustr \<Rightarrow> nat \<Rightarrow> nat \<Rightarrow> ustr" where
  "padStart s n c = replicate (n - length s) c @ s"

definition parseDecimalToMinor :: "runtime \<Rightarrow> ustr \<Rightarrow> ustr \<Rightarrow> int res" where
  "parseDecimalToMinor rt value currency =
     bindR (currencyExponentFor rt (JStr currency)) (\<lambda>expo.
     case decimalMatch value of
       None \<Rightarrow> Inl (CurrencyError InvalidDecimal)
     | Some (neg, whole, frac) \<Rightarrow>
         let fraction = (case frac of None \<Rightarrow> [] | Some f \<Rightarrow> f) in
         if length fraction > expo then Inl (CurrencyError FractionalPrecisionExceeded)
         else bindR (safeIntegerFromDigits (whole @ padEnd fraction expo 48)) (\<lambda>magnitude.
           Inr (if neg \<and> magnitude \<noteq> 0 then - magnitude else magnitude)))"

definition formatMinorToDecimal :: "runtime \<Rightarrow> int \<Rightarrow> ustr \<Rightarrow> ustr res" where
  "formatMinorToDecimal rt value currency =
     bindR (currencyExponentFor rt (JStr currency)) (\<lambda>expo.
     if \<not> is_safe value then Inl (CurrencyError CurrencyAmountOverflow)
     else let neg = value < 0;
              digits = nat_text (nat \<bar>value\<bar>);
              sgned = (\<lambda>t. if neg then 45 # t else t)
          in if expo = 0 then Inr (sgned digits)
             else let padded = padStart digits (expo + 1) 48;
                      splitAt = length padded - expo
                  in Inr (sgned (take splitAt padded @ [46] @ drop splitAt padded)))"

section \<open>Compatibility of a metadata refresh\<close>

datatype currency_compat =
    Compatible
  | CurrencyRemoved ustr "nat option"
  | CurrencyExponentChanged ustr nat nat

primrec checkUsed :: "(ustr \<Rightarrow> nat option) \<Rightarrow> (ustr \<Rightarrow> nat option) \<Rightarrow> ustr list \<Rightarrow> currency_compat" where
  "checkUsed previous nxt [] = Compatible"
| "checkUsed previous nxt (c # cs) =
     (case nxt c of
        None \<Rightarrow> CurrencyRemoved c (previous c)
      | Some e' \<Rightarrow>
          (case previous c of
             Some e \<Rightarrow> if e \<noteq> e' then CurrencyExponentChanged c e e' else checkUsed previous nxt cs
           | None \<Rightarrow> checkUsed previous nxt cs))"

definition checkLedgerCurrencyMetadataCompatibility ::
  "runtime \<Rightarrow> (ustr \<Rightarrow> nat option) \<Rightarrow> (ustr \<Rightarrow> nat option) \<Rightarrow> ustr list \<Rightarrow> currency_compat" where
  "checkLedgerCurrencyMetadataCompatibility rt previous nxt usedCurrencies =
     checkUsed previous nxt
       (sort (remdups (map (\<lambda>v. toUpperCase (rt_upper rt) (js_trim v)) usedCurrencies)))"

definition assertLedgerCurrencyMetadataCompatible ::
  "runtime \<Rightarrow> (ustr \<Rightarrow> nat option) \<Rightarrow> (ustr \<Rightarrow> nat option) \<Rightarrow> ustr list \<Rightarrow> unit res" where
  "assertLedgerCurrencyMetadataCompatible rt previous nxt used =
     checkR (checkLedgerCurrencyMetadataCompatibility rt previous nxt used = Compatible)
       (CurrencyError CurrencyMetadataIncompatible)"

section \<open>Digits\<close>

lemma digits_val_Cons: "digits_val (d # ds) = (d - 48) * 10 ^ length ds + digits_val ds"
  using digits_val_append [of "[d]" ds] digits_val_snoc [of "[]" d] by simp

lemma digits_less_iff:
  "length xs = length ys \<Longrightarrow> list_all is_digit xs \<Longrightarrow> list_all is_digit ys \<Longrightarrow>
   xs < ys \<longleftrightarrow> digits_val xs < digits_val ys"
proof (induction xs ys rule: list_induct2)
  case (Cons x xs y ys)
  let ?p = "10 ^ length ys :: nat"
  have dx: "digits_val xs < ?p" and dy: "digits_val ys < ?p"
    using digits_val_bound [of xs] digits_val_bound [of ys] Cons by auto
  have xy: "48 \<le> x" "48 \<le> y" using Cons.prems by (auto simp: is_digit_def)
  have lt: "(a - 48) * ?p + c < (b - 48) * ?p + d"
    if "a < b" "48 \<le> a" "c < ?p" for a b c d :: nat
  proof -
    have "(a - 48) * ?p + c < Suc (a - 48) * ?p" using that by simp
    also have "\<dots> \<le> (b - 48) * ?p" using that by (intro mult_le_mono1) simp
    finally show ?thesis by simp
  qed
  show ?case
    using lt [of x y "digits_val xs" "digits_val ys"] lt [of y x "digits_val ys" "digits_val xs"]
      dx dy xy Cons by (cases x y rule: linorder_cases) (auto simp: digits_val_Cons)
qed simp

lemma stripZeros_val: "digits_val (stripZeros ds) = digits_val ds"
proof -
  let ?z = "takeWhile (\<lambda>c. c = 48) ds"
  have "?z = replicate (length ?z) 48"
    by (induction ds) auto
  then have "digits_val ds = digits_val (dropWhile (\<lambda>c. c = 48) ds)"
    by (metis digits_val_zeros takeWhile_dropWhile_id)
  then show ?thesis
    by (cases "dropWhile (\<lambda>c. c = 48) ds = []")
      (auto simp: stripZeros_def Let_def digits_val_Cons simp del: dropWhile_eq_Nil_conv)
qed

lemma stripZeros_digits: "list_all is_digit ds \<Longrightarrow> list_all is_digit (stripZeros ds)"
  by (auto simp: stripZeros_def Let_def is_digit_def list_all_iff dest: set_dropWhileD)

lemma stripZeros_long:
  assumes "list_all is_digit ds" and "1 < length (stripZeros ds)"
  shows "10 ^ (length (stripZeros ds) - 1) \<le> digits_val ds"
proof -
  define r where "r = dropWhile (\<lambda>c. c = 48) ds"
  have s: "stripZeros ds = r" using assms(2) by (auto simp: stripZeros_def r_def Let_def split: if_splits)
  then obtain x xs where r: "r = x # xs" using assms(2) by (cases r) auto
  have "x \<noteq> 48" using r hd_dropWhile [of "\<lambda>c. c = 48" ds] by (simp add: r_def)
  moreover have "is_digit x" using stripZeros_digits [OF assms(1)] s r by simp
  ultimately have "1 \<le> x - 48" unfolding is_digit_def by linarith
  then have "1 * 10 ^ length xs \<le> (x - 48) * 10 ^ length xs" by (rule mult_le_mono1)
  then have "10 ^ length xs \<le> (x - 48) * 10 ^ length xs + digits_val xs"
    unfolding mult_1 by (rule trans_le_add1)
  then have "10 ^ length xs \<le> digits_val (stripZeros ds)"
    by (simp only: s r digits_val_Cons)
  then have "10 ^ length xs \<le> digits_val ds" unfolding stripZeros_val .
  then show ?thesis by (simp add: s r)
qed

lemma MAX_digits:
  "list_all is_digit MAX_SAFE_INTEGER_DIGITS" "digits_val MAX_SAFE_INTEGER_DIGITS = 9007199254740991"
  "length MAX_SAFE_INTEGER_DIGITS = 16"
proof -
  show "list_all is_digit MAX_SAFE_INTEGER_DIGITS"
    unfolding MAX_SAFE_INTEGER_DIGITS_def by (rule nat_text_digits)
  show "digits_val MAX_SAFE_INTEGER_DIGITS = 9007199254740991"
    by (simp add: MAX_SAFE_INTEGER_DIGITS_def)
  show "length MAX_SAFE_INTEGER_DIGITS = 16"
    unfolding MAX_SAFE_INTEGER_DIGITS_def by (simp add: nat_text.simps)
qed

text \<open>
  The comparison of digit strings by length and then lexicographically decides the numeric bound.
\<close>

lemma safeIntegerFromDigits_eq:
  assumes "list_all is_digit ds"
  shows "safeIntegerFromDigits ds =
    (if digits_val ds \<le> 9007199254740991 then Inr (int (digits_val ds))
     else Inl (CurrencyError CurrencyAmountOverflow))"
proof -
  define c where "c = stripZeros ds"
  have c: "list_all is_digit c" "digits_val c = digits_val ds"
    using assms by (auto simp: c_def stripZeros_digits stripZeros_val)
  have safe: "is_safe (int (digits_val ds)) \<longleftrightarrow> digits_val ds \<le> 9007199254740991"
    by (simp add: is_safe_def MAX_SAFE_def)
  consider "16 < length c" | "length c < 16" | "length c = 16" by linarith
  then show ?thesis
  proof cases
    case 1
    have "(10::nat) ^ 16 \<le> 10 ^ (length c - 1)" using 1 by (intro power_increasing) auto
    also have "\<dots> \<le> digits_val ds" using stripZeros_long [OF assms] 1 by (simp add: c_def)
    finally show ?thesis using 1 by (simp add: safeIntegerFromDigits_def c_def Let_def MAX_digits)
  next
    case 2
    have "digits_val ds < 10 ^ length c" using digits_val_bound [OF c(1)] c(2) by simp
    also have "\<dots> \<le> 10 ^ 15" using 2 by (intro power_increasing) auto
    finally have "digits_val ds \<le> 9007199254740991" by simp
    with 2 safe show ?thesis
      by (simp add: safeIntegerFromDigits_def c_def [symmetric] Let_def MAX_digits c(2))
  next
    case 3
    have "MAX_SAFE_INTEGER_DIGITS < c \<longleftrightarrow> 9007199254740991 < digits_val ds"
      using digits_less_iff [of MAX_SAFE_INTEGER_DIGITS c] 3 c by (simp add: MAX_digits)
    with 3 safe show ?thesis
      by (auto simp: safeIntegerFromDigits_def c_def [symmetric] Let_def MAX_digits c(2))
  qed
qed

section \<open>Round trip\<close>

lemma js_trim_code: "list_all (\<lambda>c. 65 \<le> c \<and> c \<le> 90) s \<Longrightarrow> js_trim s = s"
proof -
  assume u: "list_all (\<lambda>c. 65 \<le> c \<and> c \<le> 90) s"
  have ns: "65 \<le> c \<and> c \<le> 90 \<Longrightarrow> \<not> js_space c" for c
    by (auto simp: js_space_def)
  have "s \<noteq> [] \<Longrightarrow> hd s \<in> set s \<and> last s \<in> set s" by simp
  with u ns show ?thesis
    by (intro js_trim_fixed) (auto simp: list_all_iff)
qed

lemma upper_code: "list_all (\<lambda>c. 65 \<le> c \<and> c \<le> 90) s \<Longrightarrow> toUpperCase uni s = s"
proof -
  assume u: "list_all (\<lambda>c. 65 \<le> c \<and> c \<le> 90) s"
  then have "map ascii_upper s = s"
    by (intro map_idI) (auto simp: ascii_upper_def list_all_iff)
  moreover have "list_all (\<lambda>c. c < 128) s" using u by (auto simp: list_all_iff)
  ultimately show ?thesis by (simp add: toUpperCase_def)
qed

lemma normalize_code:
  "isCurrencyCode s \<Longrightarrow> normalizeLedgerCurrencyCode rt (JStr s) = Inr s"
  by (simp add: normalizeLedgerCurrencyCode_def isCurrencyCode_def js_trim_code upper_code)

lemma exponent_USD: "exponent_of (js ''USD'') = Some 2"
  by (simp add: exponent_of_def CURRENCY_EXPONENTS_def)

lemma isCurrencyCode_USD: "isCurrencyCode (js ''USD'')"
  by (simp add: isCurrencyCode_def js_def)

lemma currencyExponentFor_USD: "currencyExponentFor rt (JStr (js ''USD'')) = Inr 2"
  by (simp add: currencyExponentFor_def normalize_code isCurrencyCode_USD exponent_USD)

lemma decimalMatch_int:
  "list_all is_digit ds \<Longrightarrow> ds \<noteq> [] \<Longrightarrow>
   decimalMatch (if neg then 45 # ds else ds) = Some (neg, ds, None)"
proof -
  assume ds: "list_all is_digit ds" "ds \<noteq> []"
  then have tw: "takeWhile is_digit ds = ds" "dropWhile is_digit ds = []"
    by (simp_all add: list_all_iff takeWhile_eq_all_conv)
  have "hd ds \<noteq> 45" using ds by (cases ds) (auto simp: is_digit_def)
  then show ?thesis using ds(2)
    by (cases neg) (simp_all add: decimalMatch_def tw del: dropWhile_eq_Nil_conv)
qed

lemma decimalMatch_frac:
  assumes "list_all is_digit ds" "ds \<noteq> []" "list_all is_digit fs" "fs \<noteq> []"
  shows "decimalMatch (if neg then 45 # ds @ 46 # fs else ds @ 46 # fs) = Some (neg, ds, Some fs)"
proof -
  have nd: "\<not> is_digit 46" by (simp add: is_digit_def)
  have tw: "takeWhile is_digit (ds @ 46 # fs) = ds" "dropWhile is_digit (ds @ 46 # fs) = 46 # fs"
    using assms(1) nd by (simp_all add: takeWhile_append dropWhile_append list_all_iff)
  have "hd (ds @ 46 # fs) \<noteq> 45" using assms(1,2) by (cases ds) (auto simp: is_digit_def)
  then show ?thesis
    using assms tw by (auto simp: decimalMatch_def Let_def)
qed

lemma sign_text: "(if v < 0 then - int (nat \<bar>v\<bar>) else int (nat \<bar>v\<bar>)) = v" for v :: int
  by simp

text \<open>
  Property C33. Formatting a safe minor-unit amount of any supported currency as a decimal text
  and parsing that text gives the amount back.
\<close>

theorem decimal_roundtrip:
  assumes "formatMinorToDecimal rt v cur = Inr t"
  shows "parseDecimalToMinor rt t cur = Inr v"
proof -
  obtain e where e: "currencyExponentFor rt (JStr cur) = Inr e" and sv: "is_safe v"
    using assms by (auto simp: formatMinorToDecimal_def bindR_eq_Inr split: if_splits)
  define ds where "ds = nat_text (nat \<bar>v\<bar>)"
  have ds: "list_all is_digit ds" "ds \<noteq> []" "digits_val ds = nat \<bar>v\<bar>"
    by (simp_all add: ds_def nat_text_digits)
  have le: "nat \<bar>v\<bar> \<le> 9007199254740991" using sv by (simp add: is_safe_def MAX_SAFE_def)
  show ?thesis
  proof (cases "e = 0")
    case True
    then have t: "t = (if v < 0 then 45 # ds else ds)"
        using assms e sv by (auto simp: formatMinorToDecimal_def Let_def ds_def)
    show ?thesis
      using decimalMatch_int [OF ds(1,2), of "v < 0"] e True ds le
      by (simp add: t parseDecimalToMinor_def padEnd_def safeIntegerFromDigits_eq)
  next
    case False
    define p where "p = padStart ds (e + 1) 48"
    define k where "k = length p - e"
    have p: "list_all is_digit p" "digits_val p = nat \<bar>v\<bar>" "e + 1 \<le> length p"
      using ds by (auto simp: p_def padStart_def digits_val_zeros is_digit_def list_all_iff)
    have t: "t = (if v < 0 then 45 # take k p @ 46 # drop k p else take k p @ 46 # drop k p)"
      using assms e sv False by (auto simp: formatMinorToDecimal_def Let_def ds_def p_def k_def)
    have parts: "list_all is_digit (take k p)" "take k p \<noteq> []"
      "list_all is_digit (drop k p)" "drop k p \<noteq> []" "length (drop k p) = e"
      using p False by (auto simp: k_def list_all_iff dest: in_set_takeD in_set_dropD)
    show ?thesis
      using decimalMatch_frac [OF parts(1-4), of "v < 0"] e parts(5) p le
      by (simp add: t parseDecimalToMinor_def padEnd_def safeIntegerFromDigits_eq)
  qed
qed

theorem decimal_roundtrip_witness:
  "formatMinorToDecimal demo_runtime (-5) (js ''USD'') = Inr (js ''-0.05'')
   \<and> parseDecimalToMinor demo_runtime (js ''-0.05'') (js ''USD'') = Inr (-5)"
proof -
  have f: "formatMinorToDecimal demo_runtime (-5) (js ''USD'') = Inr (js ''-0.05'')"
    unfolding formatMinorToDecimal_def currencyExponentFor_USD
    by (simp add: is_safe_def MAX_SAFE_def nat_text.simps padStart_def js_def Let_def)
  from f decimal_roundtrip [OF f] show ?thesis by simp
qed

section \<open>A metadata refresh keeps the meaning of stored amounts\<close>

lemma checkUsed_Compatible:
  "checkUsed previous nxt cs = Compatible \<longleftrightarrow>
     (\<forall>c\<in>set cs. \<exists>e. nxt c = Some e \<and> (previous c = None \<or> previous c = Some e))"
  by (induction cs) (auto split: option.splits)

text \<open>
  A refresh of the currency table is accepted exactly when every currency already
  used in the Ledger is still in the table with the exponent it had: no stored minor-unit amount
  changes its meaning.
\<close>

lemma metadata_compatible_iff:
  "assertLedgerCurrencyMetadataCompatible rt previous nxt used = Inr () \<longleftrightarrow>
     (\<forall>v\<in>set used. \<exists>e. nxt (toUpperCase (rt_upper rt) (js_trim v)) = Some e
        \<and> previous (toUpperCase (rt_upper rt) (js_trim v)) \<in> {None, Some e})"
  unfolding assertLedgerCurrencyMetadataCompatible_def checkLedgerCurrencyMetadataCompatibility_def
    checkR_Inr checkUsed_Compatible by auto

end
