(* ===== verification/LedgerTime.thy ===== *)
theory LedgerTime
  imports LedgerCurrency
begin

text \<open>
  Calendar and time validation of the Ledger (server/ledger/time.ts). The Temporal polyfill is a
  parameter (the calendar fields of \<open>runtime\<close>); the grammars, the order of the checks, the error
  each one throws and the construction of the period ranges are the source's. \<open>temporal_laws\<close>
  states the documented calendar laws that the lemmas on ranges use.
\<close>

definition LEDGER_FUTURE_SKEW_MS :: int where
  "LEDGER_FUTURE_SKEW_MS = 60000"

record time_range =
  startMs :: int
  endMs :: int

record month_range = time_range +
  month :: ustr

record day_point =
  pointDate :: ustr
  pointStartMs :: int

section \<open>Grammars\<close>

definition iana_char :: "nat \<Rightarrow> bool" where
  "iana_char c \<longleftrightarrow> (65 \<le> c \<and> c \<le> 90) \<or> (97 \<le> c \<and> c \<le> 122) \<or> (48 \<le> c \<and> c \<le> 57)
     \<or> c \<in> {95, 46, 43, 45}"

definition iana_first :: "nat \<Rightarrow> bool" where
  "iana_first c \<longleftrightarrow> (65 \<le> c \<and> c \<le> 90) \<or> (97 \<le> c \<and> c \<le> 122) \<or> c = 95"

primrec iana_rest :: "bool \<Rightarrow> ustr \<Rightarrow> bool" where
  "iana_rest seg [] = seg"
| "iana_rest seg (c # cs) =
     (if c = 47 then seg \<and> iana_rest False cs else iana_char c \<and> iana_rest True cs)"

definition isIanaShape :: "ustr \<Rightarrow> bool" where
  "isIanaShape s = (case s of [] \<Rightarrow> False | c # cs \<Rightarrow> iana_first c \<and> iana_rest True cs)"

definition isLocalDateShape :: "ustr \<Rightarrow> bool" where
  "isLocalDateShape s \<longleftrightarrow> length s = 10 \<and> s ! 4 = 45 \<and> s ! 7 = 45
     \<and> list_all (\<lambda>i. is_digit (s ! i)) [0, 1, 2, 3, 5, 6, 8, 9]"

section \<open>Validation\<close>

definition assertUtcMilliseconds :: "runtime \<Rightarrow> jval \<Rightarrow> string \<Rightarrow> int res" where
  "assertUtcMilliseconds rt value field =
     (case value of
        JInt n \<Rightarrow>
          if \<not> is_safe n then Inl (ledgerValidationError field)
          else if \<not> instant_ok rt n then Inl (ledgerValidationError field)
          else Inr n
      | _ \<Rightarrow> Inl (ledgerValidationError field))"

definition invalidTimezone :: js_error where
  "invalidTimezone = LedgerError LInvalidTimezone 400 None"

definition assertIanaTimeZoneId :: "runtime \<Rightarrow> jval \<Rightarrow> ustr res" where
  "assertIanaTimeZoneId rt value =
     (case value of
        JStr z \<Rightarrow>
          if \<not> isIanaShape z then Inl invalidTimezone
          else if \<not> zone_ok rt z then Inl invalidTimezone
          else Inr z
      | _ \<Rightarrow> Inl invalidTimezone)"

definition isIanaTimeZoneId :: "runtime \<Rightarrow> jval \<Rightarrow> bool" where
  "isIanaTimeZoneId rt value = (case assertIanaTimeZoneId rt value of Inl _ \<Rightarrow> False | Inr _ \<Rightarrow> True)"

definition parseLedgerLocalDate :: "runtime \<Rightarrow> jval \<Rightarrow> string \<Rightarrow> ustr res" where
  "parseLedgerLocalDate rt value field =
     (case value of
        JStr t \<Rightarrow>
          if \<not> isLocalDateShape t then Inl (ledgerValidationError field)
          else if date_from rt t = None then Inl (ledgerValidationError field)
          else Inr t
      | _ \<Rightarrow> Inl (ledgerValidationError field))"

definition invalidOpeningDate :: js_error where
  "invalidOpeningDate = LedgerError LInvalidOpeningDate 400 None"

definition assertOpeningDate :: "runtime \<Rightarrow> jval \<Rightarrow> ustr res" where
  "assertOpeningDate rt value =
     (case value of
        JStr t \<Rightarrow>
          if \<not> isLocalDateShape t then Inl invalidOpeningDate
          else if date_from rt t = None then Inl invalidOpeningDate
          else Inr t
      | _ \<Rightarrow> Inl invalidOpeningDate)"

section \<open>Instants and local dates\<close>

text \<open>\<open>PlainDate.from(text, {overflow: 'reject'})\<close>, outside a \<open>try\<close>.\<close>

definition plainDateFrom :: "runtime \<Rightarrow> ustr \<Rightarrow> int res" where
  "plainDateFrom rt t = (case date_from rt t of None \<Rightarrow> Inl RangeErr | Some d \<Rightarrow> Inr d)"

definition tryDate :: "int option \<Rightarrow> int res" where
  "tryDate r = (case r of None \<Rightarrow> Inl RangeErr | Some d \<Rightarrow> Inr d)"

definition startOfLocalDate :: "runtime \<Rightarrow> int \<Rightarrow> ustr \<Rightarrow> string \<Rightarrow> int res" where
  "startOfLocalDate rt d zone field =
     (case midnight rt d zone of
        None \<Rightarrow> Inl RangeErr
      | Some ms \<Rightarrow> assertUtcMilliseconds rt (JInt ms) field)"

definition plainDateForInstant :: "runtime \<Rightarrow> int \<Rightarrow> ustr \<Rightarrow> int res" where
  "plainDateForInstant rt instantMs zone =
     bindR (assertUtcMilliseconds rt (JInt instantMs) ''instant'') (\<lambda>t.
     Inr (date_of_instant rt t zone))"

definition plainDateForLocalDate :: "runtime \<Rightarrow> ustr \<Rightarrow> int res" where
  "plainDateForLocalDate rt localDate =
     bindR (parseLedgerLocalDate rt (JStr localDate) ''date'') (plainDateFrom rt)"

definition ledgerLocalDateForInstant :: "runtime \<Rightarrow> int \<Rightarrow> ustr \<Rightarrow> ustr res" where
  "ledgerLocalDateForInstant rt instantMs timezone =
     bindR (assertIanaTimeZoneId rt (JStr timezone)) (\<lambda>zone.
     bindR (plainDateForInstant rt instantMs zone) (\<lambda>d. Inr (date_text rt d)))"

definition openingBoundaryMs :: "runtime \<Rightarrow> ustr \<Rightarrow> ustr \<Rightarrow> int res" where
  "openingBoundaryMs rt openingDate timezone =
     bindR (bindR (assertOpeningDate rt (JStr openingDate)) (plainDateFrom rt)) (\<lambda>d.
     bindR (assertIanaTimeZoneId rt (JStr timezone)) (\<lambda>zone.
     startOfLocalDate rt d zone ''openingDate''))"

definition localDateRange :: "runtime \<Rightarrow> ustr \<Rightarrow> ustr \<Rightarrow> time_range res" where
  "localDateRange rt localDate timezone =
     bindR (plainDateForLocalDate rt localDate) (\<lambda>d.
     bindR (assertIanaTimeZoneId rt (JStr timezone)) (\<lambda>zone.
     bindR (startOfLocalDate rt d zone ''period'') (\<lambda>s.
     bindR (tryDate (add_days rt d 1)) (\<lambda>d'.
     bindR (startOfLocalDate rt d' zone ''period'') (\<lambda>e.
     Inr \<lparr>startMs = s, endMs = e\<rparr>)))))"

text \<open>\<open>catch (error) { if (error instanceof LedgerError) throw error; throw validationError(field) }\<close>.\<close>

definition catchCalendar :: "string \<Rightarrow> 'a res \<Rightarrow> 'a res" where
  "catchCalendar field r =
     (case r of
        Inl e \<Rightarrow> Inl (if isLedgerError e then e else ledgerValidationError field)
      | Inr x \<Rightarrow> Inr x)"

text \<open>\<open>Array.from({length: n}, f)\<close>: an array of more than \<open>2 ^ 32 - 1\<close> elements is a RangeError.\<close>

definition arrayFrom :: "int \<Rightarrow> (int \<Rightarrow> 'a res) \<Rightarrow> 'a list res" where
  "arrayFrom n f =
     (if n > 4294967295 then Inl RangeErr else mapR f (map int [0..<nat n]))"

text \<open>\<open>Math.round(a / b)\<close> for small non-negative integers.\<close>

definition roundDiv :: "int \<Rightarrow> int \<Rightarrow> int" where
  "roundDiv a b = (2 * a + b) div (2 * b)"

definition calendarDayPointsForInstant ::
  "runtime \<Rightarrow> int \<Rightarrow> int \<Rightarrow> int \<Rightarrow> ustr \<Rightarrow> day_point list res" where
  "calendarDayPointsForInstant rt days pointCount instantMs timezone =
     (if \<not> is_safe days \<or> days < 1 then Inl (ledgerValidationError ''days'')
      else if \<not> is_safe pointCount \<or> pointCount < 1 then Inl (ledgerValidationError ''pointCount'')
      else bindR (assertIanaTimeZoneId rt (JStr timezone)) (\<lambda>zone.
        bindR (plainDateForInstant rt instantMs zone) (\<lambda>d.
        catchCalendar ''days''
          (bindR (tryDate (add_days rt d (- (days - 1)))) (\<lambda>firstDate.
           arrayFrom pointCount (\<lambda>index.
             let offset = (if pointCount = 1 then days - 1
                           else roundDiv ((days - 1) * index) (pointCount - 1)) in
             bindR (tryDate (add_days rt firstDate offset)) (\<lambda>pd.
             bindR (startOfLocalDate rt pd zone ''trend.startAt'') (\<lambda>s.
             Inr \<lparr>pointDate = date_text rt pd, pointStartMs = s\<rparr>))))))))"

section \<open>Periods\<close>

datatype period_name = PToday | PWeek | PMonth | PYear

definition periodBounds :: "runtime \<Rightarrow> period_name \<Rightarrow> int \<Rightarrow> (int \<times> int) res" where
  "periodBounds rt period d =
     (case period of
        PToday \<Rightarrow> bindR (tryDate (add_days rt d 1)) (\<lambda>e. Inr (d, e))
      | PWeek \<Rightarrow>
          bindR (tryDate (add_days rt d (- (day_of_week rt d - 1)))) (\<lambda>s.
          bindR (tryDate (add_days rt s 7)) (\<lambda>e. Inr (s, e)))
      | PMonth \<Rightarrow>
          bindR (tryDate (first_of_month rt d)) (\<lambda>s.
          bindR (tryDate (add_months rt s 1)) (\<lambda>e. Inr (s, e)))
      | PYear \<Rightarrow>
          bindR (tryDate (first_of_year rt d)) (\<lambda>s.
          bindR (tryDate (add_years rt s 1)) (\<lambda>e. Inr (s, e))))"

definition periodRangeForPlainDate :: "runtime \<Rightarrow> period_name \<Rightarrow> int \<Rightarrow> ustr \<Rightarrow> time_range res" where
  "periodRangeForPlainDate rt period d zone =
     bindR (periodBounds rt period d) (\<lambda>(s, e).
     bindR (startOfLocalDate rt s zone ''period'') (\<lambda>sm.
     bindR (startOfLocalDate rt e zone ''period'') (\<lambda>em.
     Inr \<lparr>startMs = sm, endMs = em\<rparr>)))"

definition periodRangeForLocalDate :: "runtime \<Rightarrow> period_name \<Rightarrow> ustr \<Rightarrow> ustr \<Rightarrow> time_range res" where
  "periodRangeForLocalDate rt period localDate timezone =
     bindR (assertIanaTimeZoneId rt (JStr timezone)) (\<lambda>zone.
     bindR (plainDateForLocalDate rt localDate) (\<lambda>d.
     periodRangeForPlainDate rt period d zone))"

definition periodRange :: "runtime \<Rightarrow> period_name \<Rightarrow> int \<Rightarrow> ustr \<Rightarrow> time_range res" where
  "periodRange rt period instantMs timezone =
     bindR (assertIanaTimeZoneId rt (JStr timezone)) (\<lambda>zone.
     bindR (plainDateForInstant rt instantMs zone) (\<lambda>d.
     periodRangeForPlainDate rt period d zone))"

record period_ranges =
  todayR :: time_range
  weekR :: time_range
  monthR :: time_range
  yearR :: time_range

definition periodRangesForInstant :: "runtime \<Rightarrow> int \<Rightarrow> ustr \<Rightarrow> period_ranges res" where
  "periodRangesForInstant rt instantMs timezone =
     bindR (periodRange rt PToday instantMs timezone) (\<lambda>a.
     bindR (periodRange rt PWeek instantMs timezone) (\<lambda>b.
     bindR (periodRange rt PMonth instantMs timezone) (\<lambda>c.
     bindR (periodRange rt PYear instantMs timezone) (\<lambda>d.
     Inr \<lparr>todayR = a, weekR = b, monthR = c, yearR = d\<rparr>))))"

definition periodRangesForLocalDate :: "runtime \<Rightarrow> ustr \<Rightarrow> ustr \<Rightarrow> period_ranges res" where
  "periodRangesForLocalDate rt localDate timezone =
     bindR (assertIanaTimeZoneId rt (JStr timezone)) (\<lambda>zone.
     bindR (plainDateForLocalDate rt localDate) (\<lambda>dt.
     bindR (periodRangeForPlainDate rt PToday dt zone) (\<lambda>a.
     bindR (periodRangeForPlainDate rt PWeek dt zone) (\<lambda>b.
     bindR (periodRangeForPlainDate rt PMonth dt zone) (\<lambda>c.
     bindR (periodRangeForPlainDate rt PYear dt zone) (\<lambda>d.
     Inr \<lparr>todayR = a, weekR = b, monthR = c, yearR = d\<rparr>))))))"

definition calendarMonthAt :: "runtime \<Rightarrow> int \<Rightarrow> ustr \<Rightarrow> int \<Rightarrow> month_range res" where
  "calendarMonthAt rt firstMonth zone index =
     bindR (tryDate (add_months rt firstMonth index)) (\<lambda>s.
     bindR (tryDate (add_months rt s 1)) (\<lambda>e.
     bindR (startOfLocalDate rt s zone ''trend.startAt'') (\<lambda>sm.
     bindR (startOfLocalDate rt e zone ''trend.endAt'') (\<lambda>em.
     Inr \<lparr>startMs = sm, endMs = em, month = take 7 (date_text rt s)\<rparr>))))"

definition calendarMonthRangesForLocalDate ::
  "runtime \<Rightarrow> int \<Rightarrow> ustr \<Rightarrow> ustr \<Rightarrow> month_range list res" where
  "calendarMonthRangesForLocalDate rt months localDate timezone =
     (if \<not> is_safe months \<or> months < 1 then Inl (ledgerValidationError ''months'')
      else bindR (assertIanaTimeZoneId rt (JStr timezone)) (\<lambda>zone.
        bindR (plainDateForLocalDate rt localDate) (\<lambda>d.
        catchCalendar ''months''
          (bindR (tryDate (first_of_month rt d)) (\<lambda>currentMonth.
           bindR (tryDate (add_months rt currentMonth (- (months - 1)))) (\<lambda>firstMonth.
           arrayFrom months (calendarMonthAt rt firstMonth zone)))))))"

definition calendarMonthRanges :: "runtime \<Rightarrow> int \<Rightarrow> int \<Rightarrow> ustr \<Rightarrow> month_range list res" where
  "calendarMonthRanges rt months instantMs timezone =
     bindR (ledgerLocalDateForInstant rt instantMs timezone) (\<lambda>localDate.
     calendarMonthRangesForLocalDate rt months localDate timezone)"

definition validateOccurredAt :: "runtime \<Rightarrow> jval \<Rightarrow> int \<Rightarrow> int res" where
  "validateOccurredAt rt value nowMs =
     bindR (assertUtcMilliseconds rt value ''occurredAt'') (\<lambda>occurredAt.
     bindR (assertUtcMilliseconds rt (JInt nowMs) ''nowMs'') (\<lambda>now.
     let futureLimit = fl53 (now + LEDGER_FUTURE_SKEW_MS) in
     if \<not> is_safe futureLimit then Inl (ledgerValidationError ''nowMs'')
     else if occurredAt > futureLimit then Inl (ledgerValidationError ''occurredAt'')
     else Inr occurredAt))"

section \<open>What the checks accept\<close>

lemma assertUtcMilliseconds_Inr [simp, res_simps]:
  "assertUtcMilliseconds rt v f = Inr n \<longleftrightarrow> v = JInt n \<and> is_safe n \<and> instant_ok rt n"
  by (auto simp: assertUtcMilliseconds_def split: jval.splits)

lemma assertIanaTimeZoneId_Inr [simp, res_simps]:
  "assertIanaTimeZoneId rt v = Inr z \<longleftrightarrow> v = JStr z \<and> isIanaShape z \<and> zone_ok rt z"
  by (auto simp: assertIanaTimeZoneId_def split: jval.splits)

lemma isIanaTimeZoneId_iff: "isIanaTimeZoneId rt v \<longleftrightarrow> (\<exists>z. assertIanaTimeZoneId rt v = Inr z)"
  by (cases "assertIanaTimeZoneId rt v") (simp_all add: isIanaTimeZoneId_def del: assertIanaTimeZoneId_Inr)

lemma parseLedgerLocalDate_Inr [simp, res_simps]:
  "parseLedgerLocalDate rt v f = Inr t \<longleftrightarrow> v = JStr t \<and> isLocalDateShape t \<and> date_from rt t \<noteq> None"
  by (auto simp: parseLedgerLocalDate_def split: jval.splits)

lemma assertOpeningDate_Inr [simp, res_simps]:
  "assertOpeningDate rt v = Inr t \<longleftrightarrow> v = JStr t \<and> isLocalDateShape t \<and> date_from rt t \<noteq> None"
  by (auto simp: assertOpeningDate_def split: jval.splits)

lemma plainDateFrom_Inr [simp, res_simps]: "plainDateFrom rt t = Inr d \<longleftrightarrow> date_from rt t = Some d"
  by (auto simp: plainDateFrom_def split: option.splits)

lemma tryDate_Inr [simp, res_simps]: "tryDate r = Inr d \<longleftrightarrow> r = Some d"
  by (auto simp: tryDate_def split: option.splits)

lemma tryDate_Some [simp]: "tryDate (Some d) = Inr d"
  by (simp add: tryDate_def)

lemma startOfLocalDate_Inr [res_simps]:
  "startOfLocalDate rt d z f = Inr s \<longleftrightarrow> midnight rt d z = Some s \<and> is_safe s \<and> instant_ok rt s"
  by (auto simp: startOfLocalDate_def split: option.splits)

lemma catchCalendar_Inr [simp, res_simps]: "catchCalendar f r = Inr x \<longleftrightarrow> r = Inr x"
  by (cases r) (auto simp: catchCalendar_def)

lemma arrayFrom_Inr:
  "arrayFrom n f = Inr xs \<longleftrightarrow> n \<le> 4294967295 \<and> length xs = nat n
     \<and> (\<forall>i < nat n. f (int i) = Inr (xs ! i))"
  by (auto simp: arrayFrom_def mapR_Inr_iff list_all2_conv_all_nth)

lemma validateOccurredAt_Inr [res_simps]:
  "validateOccurredAt rt v now = Inr t \<longleftrightarrow>
     v = JInt t \<and> is_safe t \<and> instant_ok rt t \<and> is_safe now \<and> instant_ok rt now
     \<and> is_safe (now + 60000) \<and> t \<le> now + 60000"
  unfolding validateOccurredAt_def bindR_eq_Inr Let_def LEDGER_FUTURE_SKEW_MS_def
  by (auto simp: not_less)

section \<open>Ranges\<close>

text \<open>The calendar laws of Temporal that the ranges rest on.\<close>

definition temporal_laws :: "runtime \<Rightarrow> bool" where
  "temporal_laws rt \<longleftrightarrow>
     (\<forall>d a b s e. add_months rt d a = Some s \<and> first_of_month rt d = Some d
        \<and> add_months rt s b = Some e \<longrightarrow> add_months rt d (a + b) = Some e)
   \<and> (\<forall>d m. first_of_month rt d = Some m \<longrightarrow> first_of_month rt m = Some m)
   \<and> (\<forall>d a s. first_of_month rt d = Some d \<and> add_months rt d a = Some s
        \<longrightarrow> first_of_month rt s = Some s)"

lemma temporal_laws_demo: "temporal_laws demo_runtime"
proof -
  have m: "(d - d mod 30) mod 30 = (0::int)" for d by (simp add: minus_mod_eq_mult_div)
  have a: "(d + 30 * k) mod 30 = d mod (30::int)" for d k by simp
  show ?thesis
    by (simp add: temporal_laws_def demo_runtime_def m a)
qed

lemma calendarMonthAt_Inr:
  "calendarMonthAt rt fm z k = Inr r \<Longrightarrow>
   \<exists>s e. add_months rt fm k = Some s \<and> add_months rt s 1 = Some e
     \<and> midnight rt s z = Some (startMs r) \<and> midnight rt e z = Some (endMs r)"
  by (auto simp: calendarMonthAt_def res_simps)

text \<open>The month ranges are as many as asked for and consecutive, and no month ends before it starts.\<close>

definition calendar_order :: "runtime \<Rightarrow> bool" where
  "calendar_order rt \<longleftrightarrow>
     (\<forall>d e z s t. d \<le> e \<and> midnight rt d z = Some s \<and> midnight rt e z = Some t \<longrightarrow> s \<le> t)
   \<and> (\<forall>d e. add_months rt d 1 = Some e \<longrightarrow> d \<le> e)"

lemma calendar_order_demo: "calendar_order demo_runtime"
  by (simp add: calendar_order_def demo_runtime_def)

lemma month_ranges_consecutive:
  assumes "temporal_laws rt"
    and "calendarMonthRangesForLocalDate rt months localDate timezone = Inr rs"
  shows "length rs = nat months \<and> (\<forall>i. Suc i < length rs \<longrightarrow> endMs (rs ! i) = startMs (rs ! Suc i))"
proof -
  obtain z d cm fm where z: "assertIanaTimeZoneId rt (JStr timezone) = Inr z"
    and d: "first_of_month rt d = Some cm" "add_months rt cm (- (months - 1)) = Some fm"
    and rs: "length rs = nat months" "\<forall>i < nat months. calendarMonthAt rt fm z (int i) = Inr (rs ! i)"
    using assms(2)
    by (auto simp: calendarMonthRangesForLocalDate_def bindR_eq_Inr arrayFrom_Inr split: if_splits)
  have first: "first_of_month rt fm = Some fm"
    using assms(1) d unfolding temporal_laws_def by blast
  have "endMs (rs ! i) = startMs (rs ! Suc i)" if i: "Suc i < nat months" for i
  proof -
    obtain s e where a: "add_months rt fm (int i) = Some s" "add_months rt s 1 = Some e"
      "midnight rt e z = Some (endMs (rs ! i))"
      using rs(2) [rule_format, of i] i by (auto dest: calendarMonthAt_Inr)
    obtain s' where b: "add_months rt fm (int i + 1) = Some s'" "midnight rt s' z = Some (startMs (rs ! Suc i))"
      using rs(2) [rule_format, of "Suc i"] i by (auto dest: calendarMonthAt_Inr simp: add.commute)
    have "add_months rt fm (int i + 1) = Some e"
      using assms(1) a(1,2) first unfolding temporal_laws_def by blast
    with a(3) b show ?thesis by simp
  qed
  with rs(1) show ?thesis by simp
qed

lemma month_ranges_forward:
  assumes "calendar_order rt" "calendarMonthRangesForLocalDate rt months localDate timezone = Inr rs" "r \<in> set rs"
  shows "startMs r \<le> endMs r"
proof -
  from assms(2,3) obtain fm z k where "calendarMonthAt rt fm z k = Inr r"
    by (auto simp: calendarMonthRangesForLocalDate_def bindR_eq_Inr arrayFrom_Inr in_set_conv_nth split: if_splits)
  then obtain s e where "add_months rt s 1 = Some e" "midnight rt s z = Some (startMs r)" "midnight rt e z = Some (endMs r)"
    by (auto dest: calendarMonthAt_Inr)
  with assms(1) show ?thesis unfolding calendar_order_def by blast
qed

end
