(* ===== verification/LedgerDomain.thy ===== *)
theory LedgerDomain
  imports LedgerTime
begin

text \<open>
  The Ledger's data (server/ledger/domain.ts, the enumerations of server/ledger/validation.ts and
  the constants of shared/ledgerProtocol.ts): accounts, categories, settings and the
  discriminated union of transactions, and the decoders that turn an untrusted SELECT row (a
  JavaScript object) into a domain value. The encoders (the \<open>...Params\<close> functions of
  server/ledger/repository.ts) are here too, because the lemmas relate the two: the decoder of
  transactions accepts exactly the encodings of well-formed transactions.
\<close>

named_theorems row_simps \<open>columns of row objects\<close>

section \<open>Enumerations\<close>

datatype account_type = Cash | Bank | Wallet | CreditCard | Loan | OtherAccount
datatype account_nature = Asset | Liability
datatype category_kind = IncomeKind | ExpenseKind
datatype transaction_type = TIncome | TExpense | TTransfer | TAdjustment
datatype transfer_kind = General | Repayment | Withdrawal
datatype fee_mode = Extra | Deducted
datatype system_key = InterestKey | FeeKey

definition LEDGER_ACCOUNT_TYPES :: "(string \<times> account_type) list" where
  "LEDGER_ACCOUNT_TYPES = [(''cash'', Cash), (''bank'', Bank), (''wallet'', Wallet),
     (''credit_card'', CreditCard), (''loan'', Loan), (''other'', OtherAccount)]"

definition LEDGER_ACCOUNT_NATURES :: "(string \<times> account_nature) list" where
  "LEDGER_ACCOUNT_NATURES = [(''asset'', Asset), (''liability'', Liability)]"

definition LEDGER_CATEGORY_KINDS :: "(string \<times> category_kind) list" where
  "LEDGER_CATEGORY_KINDS = [(''income'', IncomeKind), (''expense'', ExpenseKind)]"

definition LEDGER_TRANSACTION_TYPES :: "(string \<times> transaction_type) list" where
  "LEDGER_TRANSACTION_TYPES = [(''income'', TIncome), (''expense'', TExpense),
     (''transfer'', TTransfer), (''adjustment'', TAdjustment)]"

definition LEDGER_TRANSFER_KINDS :: "(string \<times> transfer_kind) list" where
  "LEDGER_TRANSFER_KINDS = [(''general'', General), (''repayment'', Repayment),
     (''withdrawal'', Withdrawal)]"

definition LEDGER_TRANSFER_FEE_MODES :: "(string \<times> fee_mode) list" where
  "LEDGER_TRANSFER_FEE_MODES = [(''extra'', Extra), (''deducted'', Deducted)]"

definition LEDGER_SYSTEM_KEYS :: "(string \<times> system_key) list" where
  "LEDGER_SYSTEM_KEYS = [(''interest'', InterestKey), (''fee'', FeeKey)]"

text \<open>The enumeration value of a text, and the text of a value.\<close>

definition enum_of :: "(string \<times> 'a) list \<Rightarrow> ustr \<Rightarrow> 'a option" where
  "enum_of allowed s = map_of (map (\<lambda>(t, x). (js t, x)) allowed) s"

definition enum_text :: "(string \<times> 'a) list \<Rightarrow> 'a \<Rightarrow> ustr" where
  "enum_text allowed x =
     (case map_of (map (\<lambda>(t, x). (x, js t)) allowed) x of Some s \<Rightarrow> s | None \<Rightarrow> [])"

lemmas enum_tables = LEDGER_ACCOUNT_TYPES_def LEDGER_ACCOUNT_NATURES_def LEDGER_CATEGORY_KINDS_def
  LEDGER_TRANSACTION_TYPES_def LEDGER_TRANSFER_KINDS_def LEDGER_TRANSFER_FEE_MODES_def
  LEDGER_SYSTEM_KEYS_def

text \<open>A table that names every value once.\<close>

definition enum_table :: "(string \<times> 'a) list \<Rightarrow> bool" where
  "enum_table allowed \<longleftrightarrow> distinct (map fst allowed) \<and> distinct (map snd allowed) \<and> snd ` set allowed = UNIV"

lemma enum_of_iff: "enum_table allowed \<Longrightarrow> enum_of allowed s = Some x \<longleftrightarrow> s = enum_text allowed x"
proof -
  assume t: "enum_table allowed"
  have d1: "distinct (map fst (map (\<lambda>(t, x). (js t, x)) allowed))"
  proof -
    have "map fst (map (\<lambda>(t, x). (js t, x)) allowed) = map js (map fst allowed)" by auto
    then show ?thesis using t by (simp add: enum_table_def distinct_map inj_on_def)
  qed
  have d2: "distinct (map fst (map (\<lambda>(t, x). (x, js t)) allowed))"
    using t by (simp add: enum_table_def comp_def case_prod_beta')
  from t obtain n where n: "(n, x) \<in> set allowed"
    by (metis UNIV_I enum_table_def imageE prod.collapse)
  have "map_of (map (\<lambda>(t, x). (x, js t)) allowed) x = Some (js n)"
    using n by (intro map_of_is_SomeI d2) force
  then have et: "enum_text allowed x = js n" by (simp add: enum_text_def)
  show ?thesis
  proof
    assume "enum_of allowed s = Some x"
    then have "(s, x) \<in> set (map (\<lambda>(t, x). (js t, x)) allowed)"
      unfolding enum_of_def by (rule map_of_SomeD)
    then obtain m where m: "s = js m" "(m, x) \<in> set allowed" by auto
    have "inj_on snd (set allowed)" using t by (simp add: enum_table_def distinct_map)
    from inj_onD [OF this, of "(m, x)" "(n, x)"] m n have "m = n" by simp
    with m et show "s = enum_text allowed x" by simp
  next
    assume "s = enum_text allowed x"
    with et n show "enum_of allowed s = Some x"
      unfolding enum_of_def by (intro map_of_is_SomeI d1) force
  qed
qed

lemma enum_text_inject [simp]:
  "enum_table allowed \<Longrightarrow> enum_text allowed x = enum_text allowed y \<longleftrightarrow> x = y"
  by (metis enum_of_iff option.inject)

lemma map_enum_text_inject [simp]:
  "enum_table allowed \<Longrightarrow>
     map_option (enum_text allowed) u = map_option (enum_text allowed) v \<longleftrightarrow> u = v"
  by (cases u; cases v) simp_all

lemma map_enum_text_Some [simp]:
  "enum_table allowed \<Longrightarrow> Some (enum_text allowed x) = map_option (enum_text allowed) v \<longleftrightarrow> v = Some x"
  by (cases v) auto

lemma enum_tables_ok [simp]:
  "enum_table LEDGER_ACCOUNT_TYPES" "enum_table LEDGER_ACCOUNT_NATURES"
  "enum_table LEDGER_CATEGORY_KINDS" "enum_table LEDGER_TRANSACTION_TYPES"
  "enum_table LEDGER_TRANSFER_KINDS" "enum_table LEDGER_TRANSFER_FEE_MODES"
  "enum_table LEDGER_SYSTEM_KEYS"
proof -
  show "enum_table LEDGER_ACCOUNT_TYPES"
    by (simp add: enum_table_def LEDGER_ACCOUNT_TYPES_def) (auto intro: account_type.exhaust)
  show "enum_table LEDGER_ACCOUNT_NATURES"
    by (simp add: enum_table_def LEDGER_ACCOUNT_NATURES_def) (auto intro: account_nature.exhaust)
  show "enum_table LEDGER_CATEGORY_KINDS"
    by (simp add: enum_table_def LEDGER_CATEGORY_KINDS_def) (auto intro: category_kind.exhaust)
  show "enum_table LEDGER_TRANSACTION_TYPES"
    by (simp add: enum_table_def LEDGER_TRANSACTION_TYPES_def) (auto intro: transaction_type.exhaust)
  show "enum_table LEDGER_TRANSFER_KINDS"
    by (simp add: enum_table_def LEDGER_TRANSFER_KINDS_def) (auto intro: transfer_kind.exhaust)
  show "enum_table LEDGER_TRANSFER_FEE_MODES"
    by (simp add: enum_table_def LEDGER_TRANSFER_FEE_MODES_def) (auto intro: fee_mode.exhaust)
  show "enum_table LEDGER_SYSTEM_KEYS"
    by (simp add: enum_table_def LEDGER_SYSTEM_KEYS_def) (auto intro: system_key.exhaust)
qed

section \<open>Protocol constants\<close>

definition LEDGER_BUILTIN_ACCOUNT_ICON_NAMES :: "(ustr \<times> ustr) list" where
  "LEDGER_BUILTIN_ACCOUNT_ICON_NAMES = [
     (js ''custom_builtin_boc'', [20013, 22269, 38134, 34892]),
     (js ''custom_builtin_icbc'', [24037, 21830, 38134, 34892]),
     (js ''custom_builtin_cmb'', [25307, 21830, 38134, 34892]),
     (js ''custom_builtin_abc'', [20892, 19994, 38134, 34892]),
     (js ''custom_builtin_psbc'', [37038, 25919, 38134, 34892]),
     (js ''custom_builtin_ccb'', [24314, 35774, 38134, 34892]),
     (js ''custom_builtin_wechat_pay'', [24494, 20449, 38065, 21253]),
     (js ''custom_builtin_alipay'', [25903, 20184, 23453]),
     (js ''custom_builtin_unionpay'', [20113, 38378, 20184])]"

definition LEDGER_DEFAULT_ACCOUNT_ICONS :: "ustr list" where
  "LEDGER_DEFAULT_ACCOUNT_ICONS =
     [js ''wallet'', js ''credit_card'', js ''cash'', js ''building_bank'', js ''briefcase'']
     @ map fst LEDGER_BUILTIN_ACCOUNT_ICON_NAMES"

definition normalizeLedgerCategoryName :: "runtime \<Rightarrow> ustr \<Rightarrow> ustr" where
  "normalizeLedgerCategoryName rt name = toLowerCase (rt_lower rt) (js_trim name)"

section \<open>Domain values\<close>

record icon_config =
  defaultIcon :: ustr
  availableIcons :: "ustr list"
  archivedIcons :: "ustr list option"
  customIcons :: "(ustr \<times> ustr) list"
  customIconNames :: "(ustr \<times> ustr) list"

record settings =
  s_baseCurrency :: ustr
  s_timezone :: ustr
  s_hasCreatedAccount :: bool
  s_version :: int
  s_createdAt :: int
  s_updatedAt :: int
  s_accountIcons :: icon_config

record account =
  a_id :: ustr
  a_name :: ustr
  a_type :: account_type
  a_nature :: account_nature
  a_icon :: "ustr option"
  a_openingBalanceMinor :: int
  a_openingDate :: ustr
  a_currency :: ustr
  a_note :: ustr
  a_cardNumber :: "ustr option"
  a_archivedAt :: "int option"
  a_version :: int
  a_createdAt :: int
  a_updatedAt :: int

record category =
  c_id :: ustr
  c_kind :: category_kind
  c_name :: ustr
  c_normalizedName :: ustr
  c_systemKey :: "system_key option"
  c_isDefault :: bool
  c_icon :: "ustr option"
  c_sortOrder :: "int option"
  c_archivedAt :: "int option"
  c_version :: int
  c_createdAt :: int
  c_updatedAt :: int

text \<open>
  The members of \<open>LedgerTransactionBase\<close>, and the union. An absent optional \<open>location\<close> is the empty
  string, as every reader of it takes it.
\<close>

record tx_base =
  t_id :: ustr
  t_groupId :: "ustr option"
  t_amountMinor :: int
  t_occurredAt :: int
  t_location :: ustr
  t_note :: ustr
  t_deletedAt :: "int option"
  t_version :: int
  t_createdAt :: int
  t_updatedAt :: int

datatype tx =
    IncomeTx (tx_base: tx_base) ustr ustr ustr
  | ExpenseTx (tx_base: tx_base) ustr ustr ustr
  | TransferTx (tx_base: tx_base) transfer_kind "fee_mode option" ustr ustr ustr
  | AdjustmentTx (tx_base: tx_base) ustr int int

abbreviation tx_id :: "tx \<Rightarrow> ustr" where "tx_id t \<equiv> t_id (tx_base t)"
abbreviation tx_groupId :: "tx \<Rightarrow> ustr option" where "tx_groupId t \<equiv> t_groupId (tx_base t)"
abbreviation tx_amountMinor :: "tx \<Rightarrow> int" where "tx_amountMinor t \<equiv> t_amountMinor (tx_base t)"
abbreviation tx_occurredAt :: "tx \<Rightarrow> int" where "tx_occurredAt t \<equiv> t_occurredAt (tx_base t)"
abbreviation tx_deletedAt :: "tx \<Rightarrow> int option" where "tx_deletedAt t \<equiv> t_deletedAt (tx_base t)"
abbreviation tx_version :: "tx \<Rightarrow> int" where "tx_version t \<equiv> t_version (tx_base t)"
abbreviation tx_createdAt :: "tx \<Rightarrow> int" where "tx_createdAt t \<equiv> t_createdAt (tx_base t)"

primrec tx_type :: "tx \<Rightarrow> transaction_type" where
  "tx_type (IncomeTx b a c p) = TIncome"
| "tx_type (ExpenseTx b a c p) = TExpense"
| "tx_type (TransferTx b k f x y p) = TTransfer"
| "tx_type (AdjustmentTx b a c t) = TAdjustment"

text \<open>\<open>{...transaction, <members of the base>}\<close>.\<close>

primrec map_tx_base :: "(tx_base \<Rightarrow> tx_base) \<Rightarrow> tx \<Rightarrow> tx" where
  "map_tx_base f (IncomeTx b a c p) = IncomeTx (f b) a c p"
| "map_tx_base f (ExpenseTx b a c p) = ExpenseTx (f b) a c p"
| "map_tx_base f (TransferTx b k m x y p) = TransferTx (f b) k m x y p"
| "map_tx_base f (AdjustmentTx b a c t) = AdjustmentTx (f b) a c t"

lemma tx_base_map [simp]: "tx_base (map_tx_base f t) = f (tx_base t)"
  by (cases t) simp_all

lemma tx_type_map [simp]: "tx_type (map_tx_base f t) = tx_type t"
  by (cases t) simp_all

definition ACCOUNT_NATURES_BY_TYPE :: "account_type \<Rightarrow> account_nature list" where
  "ACCOUNT_NATURES_BY_TYPE ty =
     (case ty of
        Cash \<Rightarrow> [Asset] | Bank \<Rightarrow> [Asset] | Wallet \<Rightarrow> [Asset]
      | CreditCard \<Rightarrow> [Liability] | Loan \<Rightarrow> [Liability]
      | OtherAccount \<Rightarrow> [Asset, Liability])"

definition isLedgerAccountTypeNature :: "account_type \<Rightarrow> account_nature \<Rightarrow> bool" where
  "isLedgerAccountTypeNature ty nature \<longleftrightarrow> nature \<in> set (ACCOUNT_NATURES_BY_TYPE ty)"

section \<open>Reading a column\<close>

text \<open>The record name of \<open>invalidRow\<close>'s details is left out; the field is kept.\<close>

definition invalidRow :: "string \<Rightarrow> js_error" where
  "invalidRow field = ledgerValidationError field"

definition asRow :: "jval \<Rightarrow> jobj res" where
  "asRow v = (case v of JObj r \<Rightarrow> Inr r | _ \<Rightarrow> Inl (invalidRow ''row''))"

definition valueAt :: "jobj \<Rightarrow> string \<Rightarrow> jval res" where
  "valueAt row field = (if hasOwn row field then Inr (jget row field) else Inl (invalidRow field))"

definition requiredString :: "jobj \<Rightarrow> string \<Rightarrow> ustr res" where
  "requiredString row field = bindR (valueAt row field) (\<lambda>v.
     case v of JStr s \<Rightarrow> Inr s | _ \<Rightarrow> Inl (invalidRow field))"

definition requiredId :: "jobj \<Rightarrow> string \<Rightarrow> ustr res" where
  "requiredId row field = bindR (requiredString row field) (\<lambda>s.
     if s = [] then Inl (invalidRow field) else Inr s)"

definition nullableId :: "jobj \<Rightarrow> string \<Rightarrow> ustr option res" where
  "nullableId row field = bindR (valueAt row field) (\<lambda>v.
     case v of
       JNull \<Rightarrow> Inr None
     | JStr s \<Rightarrow> if s = [] then Inl (invalidRow field) else Inr (Some s)
     | _ \<Rightarrow> Inl (invalidRow field))"

definition requiredNullableId :: "ustr option \<Rightarrow> string \<Rightarrow> ustr res" where
  "requiredNullableId v field = (case v of None \<Rightarrow> Inl (invalidRow field) | Some s \<Rightarrow> Inr s)"

definition safeInteger :: "jobj \<Rightarrow> string \<Rightarrow> int res" where
  "safeInteger row field = bindR (valueAt row field) (\<lambda>v.
     case v of
       JInt n \<Rightarrow> if is_safe n then Inr n else Inl (invalidRow field)
     | _ \<Rightarrow> Inl (invalidRow field))"

definition positiveVersion :: "jobj \<Rightarrow> string \<Rightarrow> int res" where
  "positiveVersion row field = bindR (safeInteger row field) (\<lambda>n.
     if n < 1 then Inl (invalidRow field) else Inr n)"

definition utcMilliseconds :: "runtime \<Rightarrow> jobj \<Rightarrow> string \<Rightarrow> int res" where
  "utcMilliseconds rt row field = bindR (safeInteger row field) (\<lambda>n.
     rethrowR (assertUtcMilliseconds rt (JInt n) field) (invalidRow field))"

definition nullableUtcMilliseconds :: "runtime \<Rightarrow> jobj \<Rightarrow> string \<Rightarrow> int option res" where
  "nullableUtcMilliseconds rt row field = bindR (valueAt row field) (\<lambda>v.
     case v of
       JNull \<Rightarrow> Inr None
     | JInt n \<Rightarrow>
         if is_safe n
         then bindR (rethrowR (assertUtcMilliseconds rt (JInt n) field) (invalidRow field)) (\<lambda>m. Inr (Some m))
         else Inl (invalidRow field)
     | _ \<Rightarrow> Inl (invalidRow field))"

definition safeMinor :: "jobj \<Rightarrow> string \<Rightarrow> int res" where
  "safeMinor row field = bindR (valueAt row field) (\<lambda>v. assertSafeMinor v field)"

definition nullableSafeMinor :: "jobj \<Rightarrow> string \<Rightarrow> int option res" where
  "nullableSafeMinor row field = bindR (valueAt row field) (\<lambda>v.
     case v of
       JNull \<Rightarrow> Inr None
     | _ \<Rightarrow> bindR (assertSafeMinor v field) (\<lambda>n. Inr (Some n)))"

definition enumValue :: "jobj \<Rightarrow> string \<Rightarrow> (string \<times> 'a) list \<Rightarrow> 'a res" where
  "enumValue row field allowed = bindR (valueAt row field) (\<lambda>v.
     case v of
       JStr s \<Rightarrow> (case enum_of allowed s of None \<Rightarrow> Inl (invalidRow field) | Some x \<Rightarrow> Inr x)
     | _ \<Rightarrow> Inl (invalidRow field))"

definition nullableEnumValue :: "jobj \<Rightarrow> string \<Rightarrow> (string \<times> 'a) list \<Rightarrow> 'a option res" where
  "nullableEnumValue row field allowed = bindR (valueAt row field) (\<lambda>v.
     case v of
       JNull \<Rightarrow> Inr None
     | JStr s \<Rightarrow> (case enum_of allowed s of None \<Rightarrow> Inl (invalidRow field) | Some x \<Rightarrow> Inr (Some x))
     | _ \<Rightarrow> Inl (invalidRow field))"

definition persistedCurrency :: "runtime \<Rightarrow> jobj \<Rightarrow> string \<Rightarrow> ustr res" where
  "persistedCurrency rt row field = bindR (requiredString row field) (\<lambda>value.
     bindR (rethrowR (normalizeLedgerCurrencyCode rt (JStr value)) (invalidRow field)) (\<lambda>normalized.
     if normalized \<noteq> value \<or> \<not> isSupportedLedgerCurrency rt (JStr value)
     then Inl (invalidRow field) else Inr value))"

definition persistedTimezone :: "runtime \<Rightarrow> jobj \<Rightarrow> string \<Rightarrow> ustr res" where
  "persistedTimezone rt row field = bindR (requiredString row field) (\<lambda>value.
     if \<not> isIanaTimeZoneId rt (JStr value) then Inl (invalidRow field) else Inr value)"

definition persistedOpeningDate :: "runtime \<Rightarrow> jobj \<Rightarrow> string \<Rightarrow> ustr res" where
  "persistedOpeningDate rt row field = bindR (requiredString row field) (\<lambda>value.
     rethrowR (assertOpeningDate rt (JStr value)) (invalidRow field))"

definition persistedName :: "jobj \<Rightarrow> string \<Rightarrow> ustr res" where
  "persistedName row field = bindR (requiredString row field) (\<lambda>value.
     if length (js_trim value) = 0 then Inl (invalidRow field) else Inr value)"

text \<open>\<open>record.icon && record.icon !== 'wallet'\<close>, on a TEXT column.\<close>

definition storedIcon :: "jobj \<Rightarrow> ustr option" where
  "storedIcon row = (case jget row ''icon'' of
     JStr s \<Rightarrow> if s \<noteq> [] \<and> s \<noteq> js ''wallet'' then Some s else None
   | _ \<Rightarrow> None)"

section \<open>Decoding a row\<close>

definition readTransactionBase :: "runtime \<Rightarrow> jobj \<Rightarrow> (tx_base \<times> ustr) res" where
  "readTransactionBase rt row =
     bindR (if hasOwn row ''group_id'' then nullableId row ''group_id'' else Inr None) (\<lambda>groupId.
     bindR (requiredId row ''id'') (\<lambda>i.
     bindR (safeMinor row ''amount_minor'') (\<lambda>amount.
     bindR (utcMilliseconds rt row ''occurred_at'') (\<lambda>occurred.
     bindR (if jget row ''location'' = JUndef then Inr [] else requiredString row ''location'') (\<lambda>loc.
     bindR (requiredString row ''payee'') (\<lambda>payee.
     bindR (requiredString row ''note'') (\<lambda>nt.
     bindR (nullableUtcMilliseconds rt row ''deleted_at'') (\<lambda>deleted.
     bindR (positiveVersion row ''version'') (\<lambda>ver.
     bindR (utcMilliseconds rt row ''created_at'') (\<lambda>created.
     bindR (utcMilliseconds rt row ''updated_at'') (\<lambda>updated.
     Inr (\<lparr>t_id = i, t_groupId = groupId, t_amountMinor = amount, t_occurredAt = occurred,
           t_location = loc, t_note = nt, t_deletedAt = deleted, t_version = ver,
           t_createdAt = created, t_updatedAt = updated\<rparr>, payee))))))))))))"

text \<open>A column that must be null for the transaction type.\<close>

definition mustBeNull :: "'a option \<Rightarrow> string \<Rightarrow> unit res" where
  "mustBeNull v field = checkR (v = None) (invalidRow field)"

record tx_columns =
  k_transferKind :: "transfer_kind option"
  k_feeMode :: "fee_mode option"
  k_accountId :: "ustr option"
  k_fromAccountId :: "ustr option"
  k_toAccountId :: "ustr option"
  k_categoryId :: "ustr option"
  k_calculated :: "int option"
  k_target :: "int option"

text \<open>The income and expense branches differ only in the constructor.\<close>

definition incomeOrExpense :: "(tx_base \<Rightarrow> ustr \<Rightarrow> ustr \<Rightarrow> ustr \<Rightarrow> tx) \<Rightarrow> tx_base \<Rightarrow> ustr \<Rightarrow> tx_columns \<Rightarrow> tx res" where
  "incomeOrExpense con base payee k =
     bindR (mustBeNull (k_transferKind k) ''transfer_kind'') (\<lambda>_.
     bindR (mustBeNull (k_feeMode k) ''transfer_fee_mode'') (\<lambda>_.
     bindR (assertPositiveMinor (t_amountMinor base) ''amount_minor'') (\<lambda>_.
     bindR (mustBeNull (k_fromAccountId k) ''from_account_id'') (\<lambda>_.
     bindR (mustBeNull (k_toAccountId k) ''to_account_id'') (\<lambda>_.
     bindR (mustBeNull (k_calculated k) ''adjustment_calculated_balance_minor'') (\<lambda>_.
     bindR (mustBeNull (k_target k) ''adjustment_target_balance_minor'') (\<lambda>_.
     bindR (requiredNullableId (k_accountId k) ''account_id'') (\<lambda>accountId.
     bindR (requiredNullableId (k_categoryId k) ''category_id'') (\<lambda>categoryId.
     Inr (con base accountId categoryId payee))))))))))"

definition transferBranch :: "tx_base \<Rightarrow> ustr \<Rightarrow> tx_columns \<Rightarrow> tx res" where
  "transferBranch base payee k =
     (case k_transferKind k of
        None \<Rightarrow> Inl (invalidRow ''transfer_kind'')
      | Some transferKind \<Rightarrow>
          bindR (checkR (\<not> (k_feeMode k \<noteq> None
              \<and> (transferKind \<noteq> Withdrawal \<or> t_groupId base = None))) (invalidRow ''transfer_fee_mode'')) (\<lambda>_.
          bindR (assertPositiveMinor (t_amountMinor base) ''amount_minor'') (\<lambda>_.
          bindR (mustBeNull (k_accountId k) ''account_id'') (\<lambda>_.
          bindR (mustBeNull (k_categoryId k) ''category_id'') (\<lambda>_.
          bindR (mustBeNull (k_calculated k) ''adjustment_calculated_balance_minor'') (\<lambda>_.
          bindR (mustBeNull (k_target k) ''adjustment_target_balance_minor'') (\<lambda>_.
          bindR (requiredNullableId (k_fromAccountId k) ''from_account_id'') (\<lambda>transferFrom.
          bindR (requiredNullableId (k_toAccountId k) ''to_account_id'') (\<lambda>transferTo.
          if transferFrom = transferTo then Inl (invalidRow ''to_account_id'')
          else Inr (TransferTx base transferKind (k_feeMode k) transferFrom transferTo payee))))))))))"

definition adjustmentBranch :: "tx_base \<Rightarrow> ustr \<Rightarrow> tx_columns \<Rightarrow> tx res" where
  "adjustmentBranch base payee k =
     bindR (mustBeNull (k_transferKind k) ''transfer_kind'') (\<lambda>_.
     bindR (mustBeNull (k_feeMode k) ''transfer_fee_mode'') (\<lambda>_.
     bindR (checkR (t_amountMinor base \<noteq> 0) (invalidRow ''amount_minor'')) (\<lambda>_.
     bindR (mustBeNull (k_fromAccountId k) ''from_account_id'') (\<lambda>_.
     bindR (mustBeNull (k_toAccountId k) ''to_account_id'') (\<lambda>_.
     bindR (mustBeNull (k_categoryId k) ''category_id'') (\<lambda>_.
     bindR (checkR (payee = []) (invalidRow ''payee'')) (\<lambda>_.
     case k_calculated k of
       None \<Rightarrow> Inl (invalidRow ''adjustment_calculated_balance_minor'')
     | Some calculated \<Rightarrow>
       (case k_target k of
          None \<Rightarrow> Inl (invalidRow ''adjustment_target_balance_minor'')
        | Some target \<Rightarrow>
            bindR (checkedSubMinor target calculated) (\<lambda>expectedDelta.
            bindR (checkR (t_amountMinor base = expectedDelta) (invalidRow ''amount_minor'')) (\<lambda>_.
            bindR (requiredNullableId (k_accountId k) ''account_id'') (\<lambda>accountId.
            Inr (AdjustmentTx base accountId calculated target)))))))))))) "

text \<open>The \<open>switch (type)\<close> of \<open>ledgerTransactionFromRow\<close>.\<close>

definition transactionBranch :: "transaction_type \<Rightarrow> tx_base \<Rightarrow> ustr \<Rightarrow> tx_columns \<Rightarrow> tx res" where
  "transactionBranch ty base payee k =
     (case ty of
        TIncome \<Rightarrow> incomeOrExpense IncomeTx base payee k
      | TExpense \<Rightarrow> incomeOrExpense ExpenseTx base payee k
      | TTransfer \<Rightarrow> transferBranch base payee k
      | TAdjustment \<Rightarrow> adjustmentBranch base payee k)"

definition ledgerTransactionFromRow :: "runtime \<Rightarrow> jval \<Rightarrow> tx res" where
  "ledgerTransactionFromRow rt v =
     bindR (asRow v) (\<lambda>row.
     bindR (enumValue row ''type'' LEDGER_TRANSACTION_TYPES) (\<lambda>ty.
     bindR (nullableEnumValue row ''transfer_kind'' LEDGER_TRANSFER_KINDS) (\<lambda>transferKind.
     bindR (if hasOwn row ''transfer_fee_mode''
            then nullableEnumValue row ''transfer_fee_mode'' LEDGER_TRANSFER_FEE_MODES
            else Inr None) (\<lambda>feeMode.
     bindR (readTransactionBase rt row) (\<lambda>(base, payee).
     bindR (nullableId row ''account_id'') (\<lambda>accountId.
     bindR (nullableId row ''from_account_id'') (\<lambda>fromAccountId.
     bindR (nullableId row ''to_account_id'') (\<lambda>toAccountId.
     bindR (nullableId row ''category_id'') (\<lambda>categoryId.
     bindR (nullableSafeMinor row ''adjustment_calculated_balance_minor'') (\<lambda>calculated.
     bindR (nullableSafeMinor row ''adjustment_target_balance_minor'') (\<lambda>target.
     let k = \<lparr>k_transferKind = transferKind, k_feeMode = feeMode, k_accountId = accountId,
              k_fromAccountId = fromAccountId, k_toAccountId = toAccountId,
              k_categoryId = categoryId, k_calculated = calculated, k_target = target\<rparr> in
     transactionBranch ty base payee k)))))))))))"

definition ledgerAccountFromRow :: "runtime \<Rightarrow> jval \<Rightarrow> account res" where
  "ledgerAccountFromRow rt v =
     bindR (asRow v) (\<lambda>row.
     bindR (enumValue row ''type'' LEDGER_ACCOUNT_TYPES) (\<lambda>ty.
     bindR (enumValue row ''nature'' LEDGER_ACCOUNT_NATURES) (\<lambda>nature.
     bindR (checkR (isLedgerAccountTypeNature ty nature) (invalidRow ''nature'')) (\<lambda>_.
     bindR (requiredId row ''id'') (\<lambda>i.
     bindR (persistedName row ''name'') (\<lambda>nm.
     bindR (safeMinor row ''opening_balance_minor'') (\<lambda>opening.
     bindR (persistedOpeningDate rt row ''opening_date'') (\<lambda>openingDate.
     bindR (persistedCurrency rt row ''currency'') (\<lambda>cur.
     bindR (requiredString row ''note'') (\<lambda>nt.
     bindR (nullableUtcMilliseconds rt row ''archived_at'') (\<lambda>archived.
     bindR (positiveVersion row ''version'') (\<lambda>ver.
     bindR (utcMilliseconds rt row ''created_at'') (\<lambda>created.
     bindR (utcMilliseconds rt row ''updated_at'') (\<lambda>updated.
     Inr \<lparr>a_id = i, a_name = nm, a_type = ty, a_nature = nature, a_icon = storedIcon row,
          a_openingBalanceMinor = opening, a_openingDate = openingDate, a_currency = cur,
          a_note = nt,
          a_cardNumber = (case jget row ''card_number'' of
              JStr s \<Rightarrow> if s \<noteq> [] then Some s else None | _ \<Rightarrow> None),
          a_archivedAt = archived, a_version = ver, a_createdAt = created,
          a_updatedAt = updated\<rparr>))))))))))))))"

definition ledgerCategoryFromRow :: "runtime \<Rightarrow> jval \<Rightarrow> category res" where
  "ledgerCategoryFromRow rt v =
     bindR (asRow v) (\<lambda>row.
     bindR (persistedName row ''name'') (\<lambda>nm.
     bindR (requiredString row ''normalized_name'') (\<lambda>normalizedName.
     bindR (if hasOwn row ''system_key'' then nullableEnumValue row ''system_key'' LEDGER_SYSTEM_KEYS
            else Inr None) (\<lambda>systemKey.
     bindR (if hasOwn row ''is_default'' then safeInteger row ''is_default'' else Inr 0) (\<lambda>isDefault.
     bindR (checkR (isDefault = 0 \<or> isDefault = 1) (invalidRow ''is_default'')) (\<lambda>_.
     bindR (if hasOwn row ''sort_order''
            then bindR (safeInteger row ''sort_order'') (\<lambda>n. Inr (Some n)) else Inr None) (\<lambda>sortOrder.
     bindR (checkR (\<not> (sortOrder \<noteq> None \<and> the sortOrder < 0)) (invalidRow ''sort_order'')) (\<lambda>_.
     bindR (checkR (\<not> (length normalizedName = 0 \<or> normalizedName \<noteq> normalizeLedgerCategoryName rt nm))
            (invalidRow ''normalized_name'')) (\<lambda>_.
     bindR (enumValue row ''kind'' LEDGER_CATEGORY_KINDS) (\<lambda>kind.
     bindR (checkR (\<not> (systemKey \<noteq> None \<and> kind \<noteq> ExpenseKind)) (invalidRow ''system_key'')) (\<lambda>_.
     bindR (requiredId row ''id'') (\<lambda>i.
     bindR (nullableUtcMilliseconds rt row ''archived_at'') (\<lambda>archived.
     bindR (positiveVersion row ''version'') (\<lambda>ver.
     bindR (utcMilliseconds rt row ''created_at'') (\<lambda>created.
     bindR (utcMilliseconds rt row ''updated_at'') (\<lambda>updated.
     Inr \<lparr>c_id = i, c_kind = kind, c_name = nm, c_normalizedName = normalizedName,
          c_systemKey = systemKey, c_isDefault = (isDefault = 1), c_icon = storedIcon row,
          c_sortOrder = sortOrder, c_archivedAt = archived, c_version = ver,
          c_createdAt = created, c_updatedAt = updated\<rparr>))))))))))))))))"

section \<open>Rows of the tables and their encoding\<close>

text \<open>
  A row of a table as SQLite stores it (the CHECK constraints fix the type of every column), the
  object that a SELECT returns for it, and the parameters that an INSERT or UPDATE binds.
\<close>

record account_row =
  ra_id :: ustr
  ra_name :: ustr
  ra_type :: ustr
  ra_nature :: ustr
  ra_icon :: ustr
  ra_opening_balance_minor :: int
  ra_opening_date :: ustr
  ra_currency :: ustr
  ra_note :: ustr
  ra_card_number :: ustr
  ra_archived_at :: "int option"
  ra_version :: int
  ra_created_at :: int
  ra_updated_at :: int

record category_row =
  rc_id :: ustr
  rc_kind :: ustr
  rc_name :: ustr
  rc_normalized_name :: ustr
  rc_system_key :: "ustr option"
  rc_icon :: ustr
  rc_is_default :: int
  rc_sort_order :: int
  rc_archived_at :: "int option"
  rc_version :: int
  rc_created_at :: int
  rc_updated_at :: int

record tx_row =
  rt_id :: ustr
  rt_type :: ustr
  rt_transfer_kind :: "ustr option"
  rt_group_id :: "ustr option"
  rt_transfer_fee_mode :: "ustr option"
  rt_amount_minor :: int
  rt_account_id :: "ustr option"
  rt_from_account_id :: "ustr option"
  rt_to_account_id :: "ustr option"
  rt_category_id :: "ustr option"
  rt_occurred_at :: int
  rt_location :: ustr
  rt_payee :: ustr
  rt_note :: ustr
  rt_calculated :: "int option"
  rt_target :: "int option"
  rt_deleted_at :: "int option"
  rt_version :: int
  rt_created_at :: int
  rt_updated_at :: int

definition nullStr :: "ustr option \<Rightarrow> jval" where
  "nullStr v = (case v of None \<Rightarrow> JNull | Some s \<Rightarrow> JStr s)"

definition nullInt :: "int option \<Rightarrow> jval" where
  "nullInt v = (case v of None \<Rightarrow> JNull | Some n \<Rightarrow> JInt n)"

definition accountRowObj :: "account_row \<Rightarrow> jobj" where
  "accountRowObj r =
     [(js ''id'', JStr (ra_id r)), (js ''name'', JStr (ra_name r)), (js ''type'', JStr (ra_type r)),
      (js ''nature'', JStr (ra_nature r)), (js ''icon'', JStr (ra_icon r)),
      (js ''opening_balance_minor'', JInt (ra_opening_balance_minor r)),
      (js ''opening_date'', JStr (ra_opening_date r)), (js ''currency'', JStr (ra_currency r)),
      (js ''note'', JStr (ra_note r)), (js ''card_number'', JStr (ra_card_number r)),
      (js ''archived_at'', nullInt (ra_archived_at r)), (js ''version'', JInt (ra_version r)),
      (js ''created_at'', JInt (ra_created_at r)), (js ''updated_at'', JInt (ra_updated_at r))]"

definition categoryRowObj :: "category_row \<Rightarrow> jobj" where
  "categoryRowObj r =
     [(js ''id'', JStr (rc_id r)), (js ''kind'', JStr (rc_kind r)), (js ''name'', JStr (rc_name r)),
      (js ''normalized_name'', JStr (rc_normalized_name r)),
      (js ''system_key'', nullStr (rc_system_key r)), (js ''icon'', JStr (rc_icon r)),
      (js ''is_default'', JInt (rc_is_default r)), (js ''sort_order'', JInt (rc_sort_order r)),
      (js ''archived_at'', nullInt (rc_archived_at r)), (js ''version'', JInt (rc_version r)),
      (js ''created_at'', JInt (rc_created_at r)), (js ''updated_at'', JInt (rc_updated_at r))]"

definition txRowObj :: "tx_row \<Rightarrow> jobj" where
  "txRowObj r =
     [(js ''id'', JStr (rt_id r)), (js ''type'', JStr (rt_type r)),
      (js ''transfer_kind'', nullStr (rt_transfer_kind r)), (js ''group_id'', nullStr (rt_group_id r)),
      (js ''transfer_fee_mode'', nullStr (rt_transfer_fee_mode r)),
      (js ''amount_minor'', JInt (rt_amount_minor r)), (js ''account_id'', nullStr (rt_account_id r)),
      (js ''from_account_id'', nullStr (rt_from_account_id r)),
      (js ''to_account_id'', nullStr (rt_to_account_id r)),
      (js ''category_id'', nullStr (rt_category_id r)), (js ''occurred_at'', JInt (rt_occurred_at r)),
      (js ''location'', JStr (rt_location r)), (js ''payee'', JStr (rt_payee r)),
      (js ''note'', JStr (rt_note r)),
      (js ''adjustment_calculated_balance_minor'', nullInt (rt_calculated r)),
      (js ''adjustment_target_balance_minor'', nullInt (rt_target r)),
      (js ''deleted_at'', nullInt (rt_deleted_at r)), (js ''version'', JInt (rt_version r)),
      (js ''created_at'', JInt (rt_created_at r)), (js ''updated_at'', JInt (rt_updated_at r))]"

definition accountParams :: "account \<Rightarrow> account_row" where
  "accountParams a = \<lparr>
     ra_id = a_id a, ra_name = a_name a, ra_type = enum_text LEDGER_ACCOUNT_TYPES (a_type a),
     ra_nature = enum_text LEDGER_ACCOUNT_NATURES (a_nature a),
     ra_icon = (case a_icon a of None \<Rightarrow> js ''wallet'' | Some s \<Rightarrow> s),
     ra_opening_balance_minor = a_openingBalanceMinor a, ra_opening_date = a_openingDate a,
     ra_currency = a_currency a, ra_note = a_note a,
     ra_card_number = (case a_cardNumber a of None \<Rightarrow> [] | Some s \<Rightarrow> s),
     ra_archived_at = a_archivedAt a, ra_version = a_version a,
     ra_created_at = a_createdAt a, ra_updated_at = a_updatedAt a\<rparr>"

definition categoryParams :: "category \<Rightarrow> category_row" where
  "categoryParams c = \<lparr>
     rc_id = c_id c, rc_kind = enum_text LEDGER_CATEGORY_KINDS (c_kind c), rc_name = c_name c,
     rc_normalized_name = c_normalizedName c,
     rc_system_key = map_option (enum_text LEDGER_SYSTEM_KEYS) (c_systemKey c),
     rc_icon = (case c_icon c of None \<Rightarrow> js ''wallet'' | Some s \<Rightarrow> s),
     rc_is_default = (if c_isDefault c then 1 else 0),
     rc_sort_order = (case c_sortOrder c of None \<Rightarrow> 1000 | Some n \<Rightarrow> n),
     rc_archived_at = c_archivedAt c, rc_version = c_version c,
     rc_created_at = c_createdAt c, rc_updated_at = c_updatedAt c\<rparr>"

definition commonParams :: "tx_base \<Rightarrow> transaction_type \<Rightarrow> tx_row" where
  "commonParams b ty = \<lparr>
     rt_id = t_id b, rt_type = enum_text LEDGER_TRANSACTION_TYPES ty, rt_transfer_kind = None,
     rt_group_id = t_groupId b, rt_transfer_fee_mode = None, rt_amount_minor = t_amountMinor b,
     rt_account_id = None, rt_from_account_id = None, rt_to_account_id = None,
     rt_category_id = None, rt_occurred_at = t_occurredAt b, rt_location = t_location b,
     rt_payee = [], rt_note = t_note b, rt_calculated = None, rt_target = None,
     rt_deleted_at = t_deletedAt b, rt_version = t_version b,
     rt_created_at = t_createdAt b, rt_updated_at = t_updatedAt b\<rparr>"

primrec transactionParams :: "tx \<Rightarrow> tx_row" where
  "transactionParams (IncomeTx b acct cat payee) =
     (commonParams b TIncome)\<lparr>rt_account_id := Some acct, rt_category_id := Some cat, rt_payee := payee\<rparr>"
| "transactionParams (ExpenseTx b acct cat payee) =
     (commonParams b TExpense)\<lparr>rt_account_id := Some acct, rt_category_id := Some cat, rt_payee := payee\<rparr>"
| "transactionParams (TransferTx b kind fee src dst payee) =
     (commonParams b TTransfer)\<lparr>rt_transfer_kind := Some (enum_text LEDGER_TRANSFER_KINDS kind),
        rt_transfer_fee_mode := map_option (enum_text LEDGER_TRANSFER_FEE_MODES) fee,
        rt_from_account_id := Some src, rt_to_account_id := Some dst, rt_payee := payee\<rparr>"
| "transactionParams (AdjustmentTx b acct calculated target) =
     (commonParams b TAdjustment)\<lparr>rt_account_id := Some acct,
        rt_calculated := Some calculated, rt_target := Some target\<rparr>"

section \<open>Well-formed values\<close>

definition utc_ok :: "runtime \<Rightarrow> int \<Rightarrow> bool" where
  "utc_ok rt n \<longleftrightarrow> is_safe n \<and> instant_ok rt n"

definition opt_utc_ok :: "runtime \<Rightarrow> int option \<Rightarrow> bool" where
  "opt_utc_ok rt v = (case v of None \<Rightarrow> True | Some n \<Rightarrow> utc_ok rt n)"

definition wf_tx_base :: "runtime \<Rightarrow> tx_base \<Rightarrow> bool" where
  "wf_tx_base rt b \<longleftrightarrow> t_id b \<noteq> [] \<and> t_groupId b \<noteq> Some [] \<and> is_safe (t_amountMinor b)
     \<and> utc_ok rt (t_occurredAt b) \<and> opt_utc_ok rt (t_deletedAt b)
     \<and> 1 \<le> t_version b \<and> is_safe (t_version b)
     \<and> utc_ok rt (t_createdAt b) \<and> utc_ok rt (t_updatedAt b)"

primrec wf_tx_shape :: "tx \<Rightarrow> bool" where
  "wf_tx_shape (IncomeTx b acct cat payee) \<longleftrightarrow> 0 < t_amountMinor b \<and> acct \<noteq> [] \<and> cat \<noteq> []"
| "wf_tx_shape (ExpenseTx b acct cat payee) \<longleftrightarrow> 0 < t_amountMinor b \<and> acct \<noteq> [] \<and> cat \<noteq> []"
| "wf_tx_shape (TransferTx b kind fee src dst payee) \<longleftrightarrow>
     0 < t_amountMinor b \<and> src \<noteq> [] \<and> dst \<noteq> [] \<and> src \<noteq> dst
     \<and> (fee \<noteq> None \<longrightarrow> kind = Withdrawal \<and> t_groupId b \<noteq> None)"
| "wf_tx_shape (AdjustmentTx b acct calculated target) \<longleftrightarrow>
     acct \<noteq> [] \<and> t_amountMinor b \<noteq> 0 \<and> is_safe calculated \<and> is_safe target
     \<and> t_amountMinor b = target - calculated"

definition wf_tx :: "runtime \<Rightarrow> tx \<Rightarrow> bool" where
  "wf_tx rt t \<longleftrightarrow> wf_tx_base rt (tx_base t) \<and> wf_tx_shape t"

definition wf_account :: "runtime \<Rightarrow> account \<Rightarrow> bool" where
  "wf_account rt a \<longleftrightarrow> a_id a \<noteq> [] \<and> js_trim (a_name a) \<noteq> []
     \<and> isLedgerAccountTypeNature (a_type a) (a_nature a)
     \<and> a_icon a \<notin> {Some [], Some (js ''wallet'')} \<and> is_safe (a_openingBalanceMinor a)
     \<and> isLocalDateShape (a_openingDate a) \<and> date_from rt (a_openingDate a) \<noteq> None
     \<and> isCurrencyCode (a_currency a) \<and> exponent_of (a_currency a) \<noteq> None
     \<and> a_cardNumber a \<noteq> Some [] \<and> opt_utc_ok rt (a_archivedAt a)
     \<and> 1 \<le> a_version a \<and> is_safe (a_version a)
     \<and> utc_ok rt (a_createdAt a) \<and> utc_ok rt (a_updatedAt a)"

definition wf_category :: "runtime \<Rightarrow> category \<Rightarrow> bool" where
  "wf_category rt c \<longleftrightarrow> c_id c \<noteq> [] \<and> js_trim (c_name c) \<noteq> [] \<and> c_normalizedName c \<noteq> []
     \<and> c_normalizedName c = normalizeLedgerCategoryName rt (c_name c)
     \<and> (c_systemKey c \<noteq> None \<longrightarrow> c_kind c = ExpenseKind)
     \<and> c_icon c \<notin> {Some [], Some (js ''wallet'')}
     \<and> (case c_sortOrder c of None \<Rightarrow> False | Some n \<Rightarrow> is_safe n \<and> 0 \<le> n)
     \<and> opt_utc_ok rt (c_archivedAt c) \<and> 1 \<le> c_version c \<and> is_safe (c_version c)
     \<and> utc_ok rt (c_createdAt c) \<and> utc_ok rt (c_updatedAt c)"

section \<open>What the column readers accept\<close>

lemma requiredString_Inr [row_simps]:
  "requiredString row f = Inr s \<longleftrightarrow> hasOwn row f \<and> jget row f = JStr s"
  by (auto simp: requiredString_def valueAt_def bindR_eq_Inr split: jval.splits)

lemma requiredId_Inr [row_simps]:
  "requiredId row f = Inr s \<longleftrightarrow> hasOwn row f \<and> jget row f = JStr s \<and> s \<noteq> []"
  by (auto simp: requiredId_def bindR_eq_Inr requiredString_Inr split: if_splits)

lemma nullableId_Inr [row_simps]:
  "nullableId row f = Inr v \<longleftrightarrow> hasOwn row f \<and> jget row f = nullStr v \<and> v \<noteq> Some []"
  by (auto simp: nullableId_def valueAt_def bindR_eq_Inr nullStr_def
      split: jval.splits option.splits if_splits)

lemma requiredNullableId_Inr [row_simps]: "requiredNullableId v f = Inr s \<longleftrightarrow> v = Some s"
  by (auto simp: requiredNullableId_def split: option.splits)

lemma safeInteger_Inr [row_simps]:
  "safeInteger row f = Inr n \<longleftrightarrow> hasOwn row f \<and> jget row f = JInt n \<and> is_safe n"
  by (auto simp: safeInteger_def valueAt_def bindR_eq_Inr split: jval.splits if_splits)

lemma positiveVersion_Inr [row_simps]:
  "positiveVersion row f = Inr n \<longleftrightarrow> hasOwn row f \<and> jget row f = JInt n \<and> is_safe n \<and> 1 \<le> n"
  by (auto simp: positiveVersion_def bindR_eq_Inr safeInteger_Inr not_less)

lemma utcMilliseconds_Inr [row_simps]:
  "utcMilliseconds rt row f = Inr n \<longleftrightarrow> hasOwn row f \<and> jget row f = JInt n \<and> utc_ok rt n"
  by (auto simp: utcMilliseconds_def bindR_eq_Inr safeInteger_Inr utc_ok_def)

lemma nullableUtcMilliseconds_Inr [row_simps]:
  "nullableUtcMilliseconds rt row f = Inr v \<longleftrightarrow>
     hasOwn row f \<and> jget row f = nullInt v \<and> opt_utc_ok rt v"
  by (auto simp: nullableUtcMilliseconds_def valueAt_def bindR_eq_Inr nullInt_def utc_ok_def
      opt_utc_ok_def split: jval.splits option.splits if_splits)

lemma safeMinor_Inr [row_simps]:
  "safeMinor row f = Inr n \<longleftrightarrow> hasOwn row f \<and> jget row f = JInt n \<and> is_safe n"
  by (auto simp: safeMinor_def valueAt_def bindR_eq_Inr)

lemma nullableSafeMinor_Inr [row_simps]:
  "nullableSafeMinor row f = Inr v \<longleftrightarrow>
     hasOwn row f \<and> jget row f = nullInt v \<and> (case v of None \<Rightarrow> True | Some n \<Rightarrow> is_safe n)"
  by (auto simp: nullableSafeMinor_def valueAt_def bindR_eq_Inr nullInt_def
      split: jval.splits option.splits)

lemma enumValue_Inr [row_simps]:
  "enum_table allowed \<Longrightarrow> enumValue row f allowed = Inr x \<longleftrightarrow>
     hasOwn row f \<and> jget row f = JStr (enum_text allowed x)"
  by (auto simp: enumValue_def valueAt_def bindR_eq_Inr enum_of_iff [symmetric]
      split: jval.splits option.splits)

lemma nullableEnumValue_Inr [row_simps]:
  "enum_table allowed \<Longrightarrow> nullableEnumValue row f allowed = Inr v \<longleftrightarrow>
     hasOwn row f \<and> jget row f = nullStr (map_option (enum_text allowed) v)"
  by (cases v) (auto simp: nullableEnumValue_def valueAt_def bindR_eq_Inr nullStr_def
      enum_of_iff [symmetric] split: jval.splits option.splits)

lemma persistedName_Inr [row_simps]:
  "persistedName row f = Inr s \<longleftrightarrow> hasOwn row f \<and> jget row f = JStr s \<and> js_trim s \<noteq> []"
  by (auto simp: persistedName_def bindR_eq_Inr requiredString_Inr split: if_splits)

lemma persistedOpeningDate_Inr [row_simps]:
  "persistedOpeningDate rt row f = Inr s \<longleftrightarrow> hasOwn row f \<and> jget row f = JStr s
     \<and> isLocalDateShape s \<and> date_from rt s \<noteq> None"
  by (auto simp: persistedOpeningDate_def bindR_eq_Inr requiredString_Inr)

lemma persistedCurrency_Inr [row_simps]:
  "persistedCurrency rt row f = Inr s \<longleftrightarrow> hasOwn row f \<and> jget row f = JStr s
     \<and> isCurrencyCode s \<and> exponent_of s \<noteq> None"
proof -
  have n: "normalizeLedgerCurrencyCode rt (JStr s) = Inr s \<longleftrightarrow> isCurrencyCode s"
    using normalize_code [of s rt] by (auto simp: normalizeLedgerCurrencyCode_def Let_def split: if_splits)
  then show ?thesis
    by (auto simp: persistedCurrency_def bindR_eq_Inr requiredString_Inr isSupportedLedgerCurrency_def)
qed

text \<open>The columns of the row objects.\<close>

lemma accountRowObj_cols [row_simps]:
  "hasOwn (accountRowObj r) f \<longleftrightarrow> f \<in> {''id'', ''name'', ''type'', ''nature'', ''icon'',
     ''opening_balance_minor'', ''opening_date'', ''currency'', ''note'', ''card_number'',
     ''archived_at'', ''version'', ''created_at'', ''updated_at''}"
  "jget (accountRowObj r) ''id'' = JStr (ra_id r)"
  "jget (accountRowObj r) ''name'' = JStr (ra_name r)"
  "jget (accountRowObj r) ''type'' = JStr (ra_type r)"
  "jget (accountRowObj r) ''nature'' = JStr (ra_nature r)"
  "jget (accountRowObj r) ''icon'' = JStr (ra_icon r)"
  "jget (accountRowObj r) ''opening_balance_minor'' = JInt (ra_opening_balance_minor r)"
  "jget (accountRowObj r) ''opening_date'' = JStr (ra_opening_date r)"
  "jget (accountRowObj r) ''currency'' = JStr (ra_currency r)"
  "jget (accountRowObj r) ''note'' = JStr (ra_note r)"
  "jget (accountRowObj r) ''card_number'' = JStr (ra_card_number r)"
  "jget (accountRowObj r) ''archived_at'' = nullInt (ra_archived_at r)"
  "jget (accountRowObj r) ''version'' = JInt (ra_version r)"
  "jget (accountRowObj r) ''created_at'' = JInt (ra_created_at r)"
  "jget (accountRowObj r) ''updated_at'' = JInt (ra_updated_at r)"
  unfolding accountRowObj_def by (auto simp: hasOwn_def)

lemma categoryRowObj_cols [row_simps]:
  "hasOwn (categoryRowObj r) f \<longleftrightarrow> f \<in> {''id'', ''kind'', ''name'', ''normalized_name'',
     ''system_key'', ''icon'', ''is_default'', ''sort_order'', ''archived_at'', ''version'',
     ''created_at'', ''updated_at''}"
  "jget (categoryRowObj r) ''id'' = JStr (rc_id r)"
  "jget (categoryRowObj r) ''kind'' = JStr (rc_kind r)"
  "jget (categoryRowObj r) ''name'' = JStr (rc_name r)"
  "jget (categoryRowObj r) ''normalized_name'' = JStr (rc_normalized_name r)"
  "jget (categoryRowObj r) ''system_key'' = nullStr (rc_system_key r)"
  "jget (categoryRowObj r) ''icon'' = JStr (rc_icon r)"
  "jget (categoryRowObj r) ''is_default'' = JInt (rc_is_default r)"
  "jget (categoryRowObj r) ''sort_order'' = JInt (rc_sort_order r)"
  "jget (categoryRowObj r) ''archived_at'' = nullInt (rc_archived_at r)"
  "jget (categoryRowObj r) ''version'' = JInt (rc_version r)"
  "jget (categoryRowObj r) ''created_at'' = JInt (rc_created_at r)"
  "jget (categoryRowObj r) ''updated_at'' = JInt (rc_updated_at r)"
  unfolding categoryRowObj_def by (auto simp: hasOwn_def)

lemma txRowObj_cols [row_simps]:
  "hasOwn (txRowObj r) f \<longleftrightarrow> f \<in> {''id'', ''type'', ''transfer_kind'', ''group_id'',
     ''transfer_fee_mode'', ''amount_minor'', ''account_id'', ''from_account_id'', ''to_account_id'',
     ''category_id'', ''occurred_at'', ''location'', ''payee'', ''note'',
     ''adjustment_calculated_balance_minor'', ''adjustment_target_balance_minor'',
     ''deleted_at'', ''version'', ''created_at'', ''updated_at''}"
  "jget (txRowObj r) ''id'' = JStr (rt_id r)"
  "jget (txRowObj r) ''type'' = JStr (rt_type r)"
  "jget (txRowObj r) ''transfer_kind'' = nullStr (rt_transfer_kind r)"
  "jget (txRowObj r) ''group_id'' = nullStr (rt_group_id r)"
  "jget (txRowObj r) ''transfer_fee_mode'' = nullStr (rt_transfer_fee_mode r)"
  "jget (txRowObj r) ''amount_minor'' = JInt (rt_amount_minor r)"
  "jget (txRowObj r) ''account_id'' = nullStr (rt_account_id r)"
  "jget (txRowObj r) ''from_account_id'' = nullStr (rt_from_account_id r)"
  "jget (txRowObj r) ''to_account_id'' = nullStr (rt_to_account_id r)"
  "jget (txRowObj r) ''category_id'' = nullStr (rt_category_id r)"
  "jget (txRowObj r) ''occurred_at'' = JInt (rt_occurred_at r)"
  "jget (txRowObj r) ''location'' = JStr (rt_location r)"
  "jget (txRowObj r) ''payee'' = JStr (rt_payee r)"
  "jget (txRowObj r) ''note'' = JStr (rt_note r)"
  "jget (txRowObj r) ''adjustment_calculated_balance_minor'' = nullInt (rt_calculated r)"
  "jget (txRowObj r) ''adjustment_target_balance_minor'' = nullInt (rt_target r)"
  "jget (txRowObj r) ''deleted_at'' = nullInt (rt_deleted_at r)"
  "jget (txRowObj r) ''version'' = JInt (rt_version r)"
  "jget (txRowObj r) ''created_at'' = JInt (rt_created_at r)"
  "jget (txRowObj r) ''updated_at'' = JInt (rt_updated_at r)"
  unfolding txRowObj_def by (auto simp: hasOwn_def)

lemma null_inject [simp]:
  "nullStr a = nullStr b \<longleftrightarrow> a = b" "nullInt m = nullInt n \<longleftrightarrow> m = n"
  by (auto simp: nullStr_def nullInt_def split: option.splits)

section \<open>The decoders accept exactly the encodings of well-formed values\<close>

lemma mustBeNull_Inr [simp]: "mustBeNull v f = Inr u \<longleftrightarrow> v = None"
  by (simp add: mustBeNull_def)

lemma incomeOrExpense_Inr:
  "incomeOrExpense con b p k = Inr t \<longleftrightarrow>
     (\<exists>a c. t = con b a c p \<and> is_safe (t_amountMinor b) \<and> 0 < t_amountMinor b
        \<and> k = \<lparr>k_transferKind = None, k_feeMode = None, k_accountId = Some a,
               k_fromAccountId = None, k_toAccountId = None, k_categoryId = Some c,
               k_calculated = None, k_target = None\<rparr>)"
  by (cases k) (auto simp: incomeOrExpense_def bindR_eq_Inr row_simps)

lemma transferBranch_Inr:
  "transferBranch b p k = Inr t \<longleftrightarrow>
     (\<exists>kind fee x y. t = TransferTx b kind fee x y p \<and> is_safe (t_amountMinor b) \<and> 0 < t_amountMinor b
        \<and> x \<noteq> y \<and> (fee \<noteq> None \<longrightarrow> kind = Withdrawal \<and> t_groupId b \<noteq> None)
        \<and> k = \<lparr>k_transferKind = Some kind, k_feeMode = fee, k_accountId = None,
               k_fromAccountId = Some x, k_toAccountId = Some y, k_categoryId = None,
               k_calculated = None, k_target = None\<rparr>)"
  by (cases k) (auto simp: transferBranch_def bindR_eq_Inr row_simps split: option.splits)

lemma adjustmentBranch_Inr:
  "adjustmentBranch b p k = Inr t \<longleftrightarrow>
     (\<exists>a c g. t = AdjustmentTx b a c g \<and> p = [] \<and> t_amountMinor b \<noteq> 0
        \<and> is_safe c \<and> is_safe g \<and> is_safe (t_amountMinor b) \<and> t_amountMinor b = g - c
        \<and> k = \<lparr>k_transferKind = None, k_feeMode = None, k_accountId = Some a,
               k_fromAccountId = None, k_toAccountId = None, k_categoryId = None,
               k_calculated = Some c, k_target = Some g\<rparr>)"
  by (cases k) (auto simp: adjustmentBranch_def bindR_eq_Inr row_simps split: option.splits)

lemma readTransactionBase_row:
  "readTransactionBase rt (txRowObj r) = Inr (b, p) \<longleftrightarrow>
     wf_tx_base rt b \<and> p = rt_payee r \<and>
     b = \<lparr>t_id = rt_id r, t_groupId = rt_group_id r, t_amountMinor = rt_amount_minor r,
          t_occurredAt = rt_occurred_at r, t_location = rt_location r, t_note = rt_note r,
          t_deletedAt = rt_deleted_at r, t_version = rt_version r,
          t_createdAt = rt_created_at r, t_updatedAt = rt_updated_at r\<rparr>"
  by (auto simp: readTransactionBase_def bindR_eq_Inr row_simps wf_tx_base_def)

lemma tx_base_eta [simp]:
  "\<lparr>t_id = t_id b, t_groupId = t_groupId b, t_amountMinor = t_amountMinor b,
    t_occurredAt = t_occurredAt b, t_location = t_location b, t_note = t_note b,
    t_deletedAt = t_deletedAt b, t_version = t_version b, t_createdAt = t_createdAt b,
    t_updatedAt = t_updatedAt b\<rparr> = b"
  by simp

lemma tx_row_decode:
  "ledgerTransactionFromRow rt (JObj (txRowObj r)) = Inr t \<longleftrightarrow> wf_tx rt t \<and> r = transactionParams t"
  (is "?L \<longleftrightarrow> ?R")
proof
  assume ?L
  then obtain ty kind fee b p acct src dst cat c g where
    d: "rt_type r = enum_text LEDGER_TRANSACTION_TYPES ty"
      "rt_transfer_kind r = map_option (enum_text LEDGER_TRANSFER_KINDS) kind"
      "rt_transfer_fee_mode r = map_option (enum_text LEDGER_TRANSFER_FEE_MODES) fee"
      "readTransactionBase rt (txRowObj r) = Inr (b, p)"
      "rt_account_id r = acct" "acct \<noteq> Some []" "rt_from_account_id r = src" "src \<noteq> Some []"
      "rt_to_account_id r = dst" "dst \<noteq> Some []" "rt_category_id r = cat" "cat \<noteq> Some []"
      "rt_calculated r = c" "rt_target r = g"
    and t: "transactionBranch ty b p \<lparr>k_transferKind = kind, k_feeMode = fee, k_accountId = acct,
        k_fromAccountId = src, k_toAccountId = dst, k_categoryId = cat, k_calculated = c,
        k_target = g\<rparr> = Inr t"
    by (auto simp: ledgerTransactionFromRow_def asRow_def bindR_eq_Inr row_simps Let_def)
  from d(4) have b: "wf_tx_base rt b" "p = rt_payee r" "t_id b = rt_id r" "t_groupId b = rt_group_id r"
      "t_amountMinor b = rt_amount_minor r" "t_occurredAt b = rt_occurred_at r"
      "t_location b = rt_location r" "t_note b = rt_note r" "t_deletedAt b = rt_deleted_at r"
      "t_version b = rt_version r" "t_createdAt b = rt_created_at r" "t_updatedAt b = rt_updated_at r"
    by (auto simp: readTransactionBase_row)
  show ?R
    using t d b
    by (cases ty) (auto simp: transactionBranch_def incomeOrExpense_Inr transferBranch_Inr adjustmentBranch_Inr wf_tx_def
        commonParams_def intro!: tx_row.equality)
next
  assume r: ?R
  note decode = ledgerTransactionFromRow_def asRow_def bindR_eq_Inr row_simps Let_def
    readTransactionBase_row commonParams_def wf_tx_def wf_tx_base_def transactionBranch_def
    incomeOrExpense_Inr transferBranch_Inr adjustmentBranch_Inr
  show ?L
  proof (cases t)
    case (IncomeTx b acct cat payee)
    with r show ?thesis by (cases b) (auto simp: decode)
  next
    case (ExpenseTx b acct cat payee)
    with r show ?thesis by (cases b) (auto simp: decode)
  next
    case (TransferTx b kind fee src dst payee)
    with r show ?thesis by (cases b) (auto simp: decode)
  next
    case (AdjustmentTx b acct calculated target)
    with r show ?thesis by (cases b) (auto simp: decode)
  qed
qed

lemma storedIcon_row [simp]:
  "storedIcon (accountRowObj r) = (if ra_icon r = [] \<or> ra_icon r = js ''wallet'' then None else Some (ra_icon r))"
  "storedIcon (categoryRowObj q) = (if rc_icon q = [] \<or> rc_icon q = js ''wallet'' then None else Some (rc_icon q))"
  by (simp_all add: storedIcon_def row_simps)

lemma account_row_decode:
  assumes "ra_icon r \<noteq> []"
  shows "ledgerAccountFromRow rt (JObj (accountRowObj r)) = Inr a \<longleftrightarrow> wf_account rt a \<and> r = accountParams a"
  (is "?L \<longleftrightarrow> ?R")
proof
  assume ?L
  then obtain ty nature where
    c: "ra_type r = enum_text LEDGER_ACCOUNT_TYPES ty" "ra_nature r = enum_text LEDGER_ACCOUNT_NATURES nature"
      "isLedgerAccountTypeNature ty nature" "ra_id r \<noteq> []" "js_trim (ra_name r) \<noteq> []"
      "is_safe (ra_opening_balance_minor r)" "isLocalDateShape (ra_opening_date r)"
      "date_from rt (ra_opening_date r) \<noteq> None" "isCurrencyCode (ra_currency r)"
      "exponent_of (ra_currency r) \<noteq> None" "opt_utc_ok rt (ra_archived_at r)" "1 \<le> ra_version r"
      "is_safe (ra_version r)" "utc_ok rt (ra_created_at r)" "utc_ok rt (ra_updated_at r)"
    and a: "a = \<lparr>a_id = ra_id r, a_name = ra_name r, a_type = ty, a_nature = nature,
      a_icon = storedIcon (accountRowObj r), a_openingBalanceMinor = ra_opening_balance_minor r,
      a_openingDate = ra_opening_date r, a_currency = ra_currency r, a_note = ra_note r,
      a_cardNumber = (if ra_card_number r \<noteq> [] then Some (ra_card_number r) else None),
      a_archivedAt = ra_archived_at r, a_version = ra_version r, a_createdAt = ra_created_at r,
      a_updatedAt = ra_updated_at r\<rparr>"
    by (auto simp: ledgerAccountFromRow_def asRow_def bindR_eq_Inr row_simps)
  show ?R
    using c assms by (auto simp: a wf_account_def accountParams_def intro!: account_row.equality)
next
  assume ?R
  then show ?L
    by (cases a) (auto simp: ledgerAccountFromRow_def asRow_def bindR_eq_Inr row_simps wf_account_def
        accountParams_def split: option.splits)
qed

lemma category_row_decode:
  assumes "rc_icon r \<noteq> []"
  shows "ledgerCategoryFromRow rt (JObj (categoryRowObj r)) = Inr c \<longleftrightarrow> wf_category rt c \<and> r = categoryParams c"
  (is "?L \<longleftrightarrow> ?R")
proof
  assume ?L
  then obtain kind key where
    c: "rc_kind r = enum_text LEDGER_CATEGORY_KINDS kind"
      "rc_system_key r = map_option (enum_text LEDGER_SYSTEM_KEYS) key"
      "rc_id r \<noteq> []" "js_trim (rc_name r) \<noteq> []" "rc_normalized_name r \<noteq> []"
      "rc_normalized_name r = normalizeLedgerCategoryName rt (rc_name r)"
      "rc_is_default r = 0 \<or> rc_is_default r = 1" "key \<noteq> None \<longrightarrow> kind = ExpenseKind"
      "is_safe (rc_sort_order r)" "0 \<le> rc_sort_order r" "opt_utc_ok rt (rc_archived_at r)"
      "1 \<le> rc_version r" "is_safe (rc_version r)" "utc_ok rt (rc_created_at r)" "utc_ok rt (rc_updated_at r)"
    and a: "c = \<lparr>c_id = rc_id r, c_kind = kind, c_name = rc_name r,
      c_normalizedName = rc_normalized_name r, c_systemKey = key, c_isDefault = (rc_is_default r = 1),
      c_icon = storedIcon (categoryRowObj r), c_sortOrder = Some (rc_sort_order r),
      c_archivedAt = rc_archived_at r, c_version = rc_version r, c_createdAt = rc_created_at r,
      c_updatedAt = rc_updated_at r\<rparr>"
    by (auto simp: ledgerCategoryFromRow_def asRow_def bindR_eq_Inr row_simps)
  show ?R
    using c assms by (auto simp: a wf_category_def categoryParams_def intro!: category_row.equality)
next
  assume ?R
  then show ?L
    by (cases c) (auto simp: ledgerCategoryFromRow_def asRow_def bindR_eq_Inr row_simps wf_category_def
        categoryParams_def split: option.splits)
qed

section \<open>Settings\<close>

record settings_row =
  rs_singleton_id :: int
  rs_base_currency :: ustr
  rs_timezone :: ustr
  rs_has_created_account :: int
  rs_version :: int
  rs_created_at :: int
  rs_updated_at :: int
  rs_icon_default :: ustr
  rs_icon_available_json :: ustr
  rs_icon_archived_json :: ustr
  rs_icon_custom_json :: ustr
  rs_icon_names_json :: ustr

definition settingsRowObj :: "settings_row \<Rightarrow> jobj" where
  "settingsRowObj r =
     [(js ''singleton_id'', JInt (rs_singleton_id r)), (js ''base_currency'', JStr (rs_base_currency r)),
      (js ''timezone'', JStr (rs_timezone r)), (js ''has_created_account'', JInt (rs_has_created_account r)),
      (js ''version'', JInt (rs_version r)), (js ''created_at'', JInt (rs_created_at r)),
      (js ''updated_at'', JInt (rs_updated_at r)), (js ''account_icon_default'', JStr (rs_icon_default r)),
      (js ''account_icon_available_json'', JStr (rs_icon_available_json r)),
      (js ''account_icon_archived_json'', JStr (rs_icon_archived_json r)),
      (js ''account_icon_custom_json'', JStr (rs_icon_custom_json r)),
      (js ''account_icon_names_json'', JStr (rs_icon_names_json r))]"

definition strRecord :: "(ustr \<times> ustr) list \<Rightarrow> jval" where
  "strRecord r = JObj (map (\<lambda>(k, v). (k, JStr v)) r)"

definition settingsParams :: "runtime \<Rightarrow> settings \<Rightarrow> settings_row" where
  "settingsParams rt s = \<lparr>
     rs_singleton_id = 1, rs_base_currency = s_baseCurrency s, rs_timezone = s_timezone s,
     rs_has_created_account = (if s_hasCreatedAccount s then 1 else 0), rs_version = s_version s,
     rs_created_at = s_createdAt s, rs_updated_at = s_updatedAt s,
     rs_icon_default = defaultIcon (s_accountIcons s),
     rs_icon_available_json = rt_json_text rt (JArr (map JStr (availableIcons (s_accountIcons s)))),
     rs_icon_archived_json = rt_json_text rt (JArr (map JStr
        (case archivedIcons (s_accountIcons s) of None \<Rightarrow> [] | Some xs \<Rightarrow> xs))),
     rs_icon_custom_json = rt_json_text rt (strRecord (customIcons (s_accountIcons s))),
     rs_icon_names_json = rt_json_text rt (strRecord (customIconNames (s_accountIcons s)))\<rparr>"

definition strOf :: "jval \<Rightarrow> ustr option" where
  "strOf v = (case v of JStr s \<Rightarrow> Some s | _ \<Rightarrow> None)"

definition jsonArray :: "runtime \<Rightarrow> jval \<Rightarrow> ustr list \<Rightarrow> ustr list" where
  "jsonArray rt value fallback =
     (case value of
        JStr text \<Rightarrow>
          (case rt_json_parse rt text of
             Some (JArr items) \<Rightarrow>
               if list_all (\<lambda>i. strOf i \<noteq> None) items then map (\<lambda>i. the (strOf i)) items else fallback
           | _ \<Rightarrow> fallback)
      | _ \<Rightarrow> fallback)"

definition jsonRecord :: "runtime \<Rightarrow> jval \<Rightarrow> (ustr \<times> ustr) list" where
  "jsonRecord rt value =
     (case value of
        JStr text \<Rightarrow>
          (case rt_json_parse rt text of
             Some (JObj items) \<Rightarrow>
               if list_all (\<lambda>(_, i). strOf i \<noteq> None) items
               then map (\<lambda>(k, i). (k, the (strOf i))) items else []
           | _ \<Rightarrow> [])
      | _ \<Rightarrow> [])"

text \<open>\<open>[...new Set(xs)]\<close> keeps first occurrences; \<open>{...a, ...b}\<close> keeps the places of \<open>a\<close>'s keys.\<close>

definition uniq :: "'a list \<Rightarrow> 'a list" where
  "uniq xs = rev (remdups (rev xs))"

definition spread :: "(ustr \<times> 'a) list \<Rightarrow> (ustr \<times> 'a) list \<Rightarrow> (ustr \<times> 'a) list" where
  "spread a b = map (\<lambda>(k, v). (k, case map_of b k of Some w \<Rightarrow> w | None \<Rightarrow> v)) a
     @ filter (\<lambda>(k, _). k \<notin> fst ` set a) b"

definition iconConfigFromRow :: "runtime \<Rightarrow> jobj \<Rightarrow> icon_config" where
  "iconConfigFromRow rt row =
     (let storedAvailable = jsonArray rt (jget row ''account_icon_available_json'') [];
          storedArchived = jsonArray rt (jget row ''account_icon_archived_json'') [];
          storedNames = jsonRecord rt (jget row ''account_icon_names_json'');
          missingDefaults = filter (\<lambda>icon.
            case map_of LEDGER_BUILTIN_ACCOUNT_ICON_NAMES icon of
              None \<Rightarrow> True | Some name \<Rightarrow> name = [] \<or> name \<notin> snd ` set storedNames)
            LEDGER_DEFAULT_ACCOUNT_ICONS;
          available = uniq (missingDefaults @ storedAvailable)
      in \<lparr>defaultIcon = (case jget row ''account_icon_default'' of JStr s \<Rightarrow> s | _ \<Rightarrow> js ''wallet''),
          availableIcons = available,
          archivedIcons = Some (filter (\<lambda>icon. icon \<notin> set available) storedArchived),
          customIcons = jsonRecord rt (jget row ''account_icon_custom_json''),
          customIconNames = spread LEDGER_BUILTIN_ACCOUNT_ICON_NAMES storedNames\<rparr>)"

definition ledgerSettingsFromRow :: "runtime \<Rightarrow> jval \<Rightarrow> settings res" where
  "ledgerSettingsFromRow rt v =
     bindR (asRow v) (\<lambda>row.
     bindR (safeInteger row ''singleton_id'') (\<lambda>singleton.
     bindR (checkR (singleton = 1) (invalidRow ''singleton_id'')) (\<lambda>_.
     bindR (safeInteger row ''has_created_account'') (\<lambda>marker.
     bindR (checkR (marker = 0 \<or> marker = 1) (invalidRow ''has_created_account'')) (\<lambda>_.
     bindR (persistedCurrency rt row ''base_currency'') (\<lambda>cur.
     bindR (persistedTimezone rt row ''timezone'') (\<lambda>zone.
     bindR (positiveVersion row ''version'') (\<lambda>ver.
     bindR (utcMilliseconds rt row ''created_at'') (\<lambda>created.
     bindR (utcMilliseconds rt row ''updated_at'') (\<lambda>updated.
     Inr \<lparr>s_baseCurrency = cur, s_timezone = zone, s_hasCreatedAccount = (marker = 1),
          s_version = ver, s_createdAt = created, s_updatedAt = updated,
          s_accountIcons = iconConfigFromRow rt row\<rparr>))))))))))"

definition wf_settings :: "runtime \<Rightarrow> settings \<Rightarrow> bool" where
  "wf_settings rt s \<longleftrightarrow> isCurrencyCode (s_baseCurrency s) \<and> exponent_of (s_baseCurrency s) \<noteq> None
     \<and> isIanaShape (s_timezone s) \<and> zone_ok rt (s_timezone s)
     \<and> 1 \<le> s_version s \<and> is_safe (s_version s)
     \<and> utc_ok rt (s_createdAt s) \<and> utc_ok rt (s_updatedAt s)"

lemma persistedTimezone_Inr [row_simps]:
  "persistedTimezone rt row f = Inr s \<longleftrightarrow> hasOwn row f \<and> jget row f = JStr s
     \<and> isIanaShape s \<and> zone_ok rt s"
  by (auto simp: persistedTimezone_def bindR_eq_Inr requiredString_Inr isIanaTimeZoneId_iff)

lemma settingsRowObj_cols [row_simps]:
  "hasOwn (settingsRowObj r) f \<longleftrightarrow> f \<in> {''singleton_id'', ''base_currency'', ''timezone'',
     ''has_created_account'', ''version'', ''created_at'', ''updated_at'', ''account_icon_default'',
     ''account_icon_available_json'', ''account_icon_archived_json'', ''account_icon_custom_json'',
     ''account_icon_names_json''}"
  "jget (settingsRowObj r) ''singleton_id'' = JInt (rs_singleton_id r)"
  "jget (settingsRowObj r) ''base_currency'' = JStr (rs_base_currency r)"
  "jget (settingsRowObj r) ''timezone'' = JStr (rs_timezone r)"
  "jget (settingsRowObj r) ''has_created_account'' = JInt (rs_has_created_account r)"
  "jget (settingsRowObj r) ''version'' = JInt (rs_version r)"
  "jget (settingsRowObj r) ''created_at'' = JInt (rs_created_at r)"
  "jget (settingsRowObj r) ''updated_at'' = JInt (rs_updated_at r)"
  unfolding settingsRowObj_def by (auto simp: hasOwn_def)

lemma settings_row_decode:
  "ledgerSettingsFromRow rt (JObj (settingsRowObj (settingsParams rt s))) = Inr s' \<longleftrightarrow>
     wf_settings rt s
     \<and> s' = s\<lparr>s_accountIcons := iconConfigFromRow rt (settingsRowObj (settingsParams rt s))\<rparr>"
  by (cases s) (auto simp: ledgerSettingsFromRow_def asRow_def bindR_eq_Inr row_simps wf_settings_def
      settingsParams_def)

section \<open>Properties\<close>

text \<open>
  The decoder of transaction rows is exact: it accepts a row if and only if the row is
  the encoding of a well-formed transaction of one of the four shapes, and returns that
  transaction. No row with a contradictory discriminator reaches the domain, and every transaction
  written is read back unchanged.
\<close>

lemma transaction_rows_exact:
  "ledgerTransactionFromRow rt (JObj (txRowObj r)) = Inr t \<longleftrightarrow> wf_tx rt t \<and> r = transactionParams t"
  by (rule tx_row_decode)

text \<open>
  A well-formed account (a supported currency, a type that allows its nature, a valid
  opening date, safe amounts) is read back unchanged from the row that is written for it, and a row
  that decodes is the encoding of such an account.
\<close>

lemma account_rows_exact:
  assumes "ra_icon r \<noteq> []"
  shows "ledgerAccountFromRow rt (JObj (accountRowObj r)) = Inr a \<longleftrightarrow> wf_account rt a \<and> r = accountParams a"
  by (rule account_row_decode [OF assms])

definition demo_account :: account where
  "demo_account = \<lparr>a_id = js ''acc'', a_name = js ''Cash'', a_type = Cash, a_nature = Asset,
     a_icon = None, a_openingBalanceMinor = 500, a_openingDate = js ''1970-01-01'',
     a_currency = js ''USD'', a_note = [], a_cardNumber = None, a_archivedAt = None,
     a_version = 1, a_createdAt = 0, a_updatedAt = 0\<rparr>"

lemma wf_demo_account: "wf_account demo_runtime demo_account"
proof -
  have "js_trim (js ''Cash'') \<noteq> []" by (simp add: js_def js_trim_def js_space_def)
  moreover have "isLocalDateShape (js ''1970-01-01'')"
    by (simp add: js_def isLocalDateShape_def is_digit_def)
  ultimately show ?thesis
    by (simp add: wf_account_def demo_account_def demo_runtime_def isLedgerAccountTypeNature_def
        ACCOUNT_NATURES_BY_TYPE_def isCurrencyCode_USD exponent_USD opt_utc_ok_def utc_ok_def
        is_safe_def MAX_SAFE_def)
qed

text \<open>
  A category row decodes exactly when it encodes a category whose identity is the
  normalized form of its name, whose system key (if any) belongs to an expense category, and whose
  sort order and timestamps are in range.
\<close>

lemma category_rows_exact:
  assumes "rc_icon r \<noteq> []"
  shows "ledgerCategoryFromRow rt (JObj (categoryRowObj r)) = Inr c \<longleftrightarrow> wf_category rt c \<and> r = categoryParams c"
  by (rule category_row_decode [OF assms])

definition demo_category :: category where
  "demo_category = \<lparr>c_id = js ''cat'', c_kind = ExpenseKind, c_name = js ''Food'',
     c_normalizedName = js ''food'', c_systemKey = None, c_isDefault = False, c_icon = None,
     c_sortOrder = Some 1000, c_archivedAt = None, c_version = 1, c_createdAt = 0, c_updatedAt = 0\<rparr>"

lemma wf_demo_category: "wf_category demo_runtime demo_category"
proof -
  have "js_trim (js ''Food'') = js ''Food''" by (simp add: js_def js_trim_def js_space_def)
  then show ?thesis
    by (simp add: wf_category_def demo_category_def demo_runtime_def normalizeLedgerCategoryName_def
        opt_utc_ok_def utc_ok_def is_safe_def MAX_SAFE_def)
      (simp add: js_def toLowerCase_def ascii_lower_def)
qed

end
