(* ===== verification/LedgerBalance.thy ===== *)
theory LedgerBalance
  imports LedgerDomain
begin

text \<open>
  The financial effect of a transaction on an account and the balance derived from it
  (server/ledger/balance.ts), with the signed-integer specification \<open>effect\<close> that the other
  components' lemmas use, and the classification of transactions for statistics
  (shared/ledgerAnalytics.ts).
\<close>

datatype balance_role = RIncome | RExpense | ROutgoing | RIncoming

definition assertAccountReference :: "account \<Rightarrow> unit res" where
  "assertAccountReference a = checkR (a_id a \<noteq> []) (ledgerValidationError ''id'')"

definition signedAmountForRole :: "account_nature \<Rightarrow> balance_role \<Rightarrow> int \<Rightarrow> int res" where
  "signedAmountForRole nature role amountMinor =
     (let increases = (if nature = Asset then role = RIncome \<or> role = RIncoming
                       else role = RExpense \<or> role = ROutgoing)
      in if increases then Inr amountMinor else checkedSubMinor 0 amountMinor)"

definition assertAdjustmentEffect :: "int \<Rightarrow> int \<Rightarrow> int \<Rightarrow> unit res" where
  "assertAdjustmentEffect amount calculated target =
     bindR (assertSafeMinor (JInt amount) ''amountMinor'') (\<lambda>_.
     bindR (assertSafeMinor (JInt calculated) ''adjustmentCalculatedBalanceMinor'') (\<lambda>_.
     bindR (assertSafeMinor (JInt target) ''adjustmentTargetBalanceMinor'') (\<lambda>_.
     bindR (checkedSubMinor target calculated) (\<lambda>expectedDelta.
     bindR (checkR (amount = expectedDelta) (ledgerValidationError ''amountMinor'')) (\<lambda>_.
     checkR (amount \<noteq> 0) (ledgerValidationError ''amountMinor''))))))"

definition transactionEffectForAccount :: "tx \<Rightarrow> account \<Rightarrow> int res" where
  "transactionEffectForAccount t a =
     bindR (assertAccountReference a) (\<lambda>_.
     if tx_deletedAt t \<noteq> None then Inr 0
     else case t of
       IncomeTx b acct cat payee \<Rightarrow>
         bindR (assertPositiveMinor (t_amountMinor b) ''amountMinor'') (\<lambda>_.
         if acct = a_id a then signedAmountForRole (a_nature a) RIncome (t_amountMinor b) else Inr 0)
     | ExpenseTx b acct cat payee \<Rightarrow>
         bindR (assertPositiveMinor (t_amountMinor b) ''amountMinor'') (\<lambda>_.
         if acct = a_id a then signedAmountForRole (a_nature a) RExpense (t_amountMinor b) else Inr 0)
     | TransferTx b kind fee src dst payee \<Rightarrow>
         bindR (assertPositiveMinor (t_amountMinor b) ''amountMinor'') (\<lambda>_.
         bindR (checkR (src \<noteq> dst) (ledgerValidationError ''toAccountId'')) (\<lambda>_.
         if src = a_id a then signedAmountForRole (a_nature a) ROutgoing (t_amountMinor b)
         else if dst = a_id a then signedAmountForRole (a_nature a) RIncoming (t_amountMinor b)
         else Inr 0))
     | AdjustmentTx b acct calculated target \<Rightarrow>
         bindR (assertAdjustmentEffect (t_amountMinor b) calculated target) (\<lambda>_.
         if acct = a_id a then Inr (t_amountMinor b) else Inr 0))"

text \<open>\<open>checkedSumMinor\<close> over the generator of effects: each effect is computed when it is added.\<close>

primrec sumEffects :: "account \<Rightarrow> int \<Rightarrow> tx list \<Rightarrow> int res" where
  "sumEffects a acc [] = Inr acc"
| "sumEffects a acc (t # ts) =
     bindR (transactionEffectForAccount t a) (\<lambda>e.
     bindR (checkedAddMinor acc e) (\<lambda>acc'. sumEffects a acc' ts))"

definition deriveCurrentBalance :: "account \<Rightarrow> tx list \<Rightarrow> int res" where
  "deriveCurrentBalance a ts =
     bindR (assertAccountReference a) (\<lambda>_.
     bindR (assertSafeMinor (JInt (a_openingBalanceMinor a)) ''openingBalanceMinor'') (\<lambda>_.
     bindR (sumEffects a 0 ts) (\<lambda>transactionTotal.
     checkedAddMinor (a_openingBalanceMinor a) transactionTotal)))"

section \<open>The specification\<close>

text \<open>
  \<open>effect n i t\<close> is the change of the natural balance of account \<open>i\<close> of nature \<open>n\<close> by
  transaction \<open>t\<close>; \<open>side\<close> is the sign with which a natural balance counts in the net worth.
\<close>

definition side :: "account_nature \<Rightarrow> int" where
  "side n = (if n = Asset then 1 else -1)"

primrec gross_effect :: "account_nature \<Rightarrow> ustr \<Rightarrow> tx \<Rightarrow> int" where
  "gross_effect n i (IncomeTx b acct cat payee) = (if acct = i then side n * t_amountMinor b else 0)"
| "gross_effect n i (ExpenseTx b acct cat payee) = (if acct = i then - side n * t_amountMinor b else 0)"
| "gross_effect n i (TransferTx b kind fee src dst payee) =
     (if src = i then - side n * t_amountMinor b
      else if dst = i then side n * t_amountMinor b else 0)"
| "gross_effect n i (AdjustmentTx b acct calculated target) = (if acct = i then t_amountMinor b else 0)"

definition effect :: "account_nature \<Rightarrow> ustr \<Rightarrow> tx \<Rightarrow> int" where
  "effect n i t = (if tx_deletedAt t \<noteq> None then 0 else gross_effect n i t)"

definition balance_spec :: "account \<Rightarrow> tx list \<Rightarrow> int" where
  "balance_spec a ts = a_openingBalanceMinor a + sum_list (map (effect (a_nature a) (a_id a)) ts)"

section \<open>The engine computes the specification\<close>

lemma signedAmountForRole_eq:
  "is_safe m \<Longrightarrow> signedAmountForRole n RIncome m = Inr (side n * m)"
  "is_safe m \<Longrightarrow> signedAmountForRole n RIncoming m = Inr (side n * m)"
  "is_safe m \<Longrightarrow> signedAmountForRole n RExpense m = Inr (- side n * m)"
  "is_safe m \<Longrightarrow> signedAmountForRole n ROutgoing m = Inr (- side n * m)"
  by (cases n; simp add: signedAmountForRole_def side_def)+

lemma safe_wf_tx: "wf_tx rt t \<Longrightarrow> is_safe (tx_amountMinor t)"
  by (simp add: wf_tx_def wf_tx_base_def)

lemma transactionEffect_eq:
  assumes "wf_tx rt t" and "a_id a \<noteq> []"
  shows "transactionEffectForAccount t a = Inr (effect (a_nature a) (a_id a) t)"
proof -
  have safe: "is_safe (tx_amountMinor t)" using assms(1) by (rule safe_wf_tx)
  have ref: "assertAccountReference a = Inr ()" using assms(2) by (simp add: assertAccountReference_def)
  show ?thesis
  proof (cases t)
    case (AdjustmentTx b acct calculated target)
    then have "assertAdjustmentEffect (t_amountMinor b) calculated target = Inr ()"
      using assms(1) safe by (auto simp: assertAdjustmentEffect_def wf_tx_def bindR_eq_Inr)
    with AdjustmentTx ref show ?thesis by (simp add: transactionEffectForAccount_def effect_def)
  qed (use assms(1) safe ref in
      \<open>simp_all add: transactionEffectForAccount_def effect_def wf_tx_def signedAmountForRole_eq\<close>)
qed

lemma effect_bound: "wf_tx rt t \<Longrightarrow> is_safe (effect n i t)"
  using safe_wf_tx [of rt t] by (cases t; cases n) (auto simp: effect_def side_def)

lemma sumEffects_eq:
  assumes "\<forall>t\<in>set ts. wf_tx rt t" and "a_id a \<noteq> []"
  shows "sumEffects a acc ts = checkedSumFrom acc (map (effect (a_nature a) (a_id a)) ts)"
  using assms(1)
  by (induction ts arbitrary: acc) (simp_all add: transactionEffect_eq [of rt, OF _ assms(2)])

lemma deriveCurrentBalance_Inr:
  assumes "\<forall>t\<in>set ts. wf_tx rt t" and "a_id a \<noteq> []" and "is_safe (a_openingBalanceMinor a)"
  shows "deriveCurrentBalance a ts = Inr b \<longleftrightarrow>
     b = balance_spec a ts \<and> is_safe b \<and>
     (\<forall>k. is_safe (sum_list (map (effect (a_nature a) (a_id a)) (take k ts))))"
proof -
  let ?es = "map (effect (a_nature a) (a_id a)) ts"
  have all: "list_all is_safe ?es"
    using assms(1) by (auto simp: list_all_iff effect_bound)
  have pre: "(\<forall>k \<le> length ?es. is_safe (sum_list (take k ?es))) \<longleftrightarrow>
      (\<forall>k. is_safe (sum_list (map (effect (a_nature a) (a_id a)) (take k ts))))"
    by (metis length_map nat_le_linear order_refl take_all take_map)
  have whole: "is_safe (sum_list ?es)"
    if "\<forall>k. is_safe (sum_list (map (effect (a_nature a) (a_id a)) (take k ts)))"
    using that [rule_format, of "length ts"] by simp
  have "deriveCurrentBalance a ts = Inr b \<longleftrightarrow>
      (\<exists>s. checkedSumFrom 0 ?es = Inr s \<and> checkedAddMinor (a_openingBalanceMinor a) s = Inr b)"
    using assms by (simp add: deriveCurrentBalance_def assertAccountReference_def bindR_eq_Inr
        assertSafeMinor_def sumEffects_eq)
  also have "\<dots> \<longleftrightarrow> (\<forall>k. is_safe (sum_list (map (effect (a_nature a) (a_id a)) (take k ts)))) \<and>
      checkedAddMinor (a_openingBalanceMinor a) (sum_list ?es) = Inr b"
    using checkedSumFrom_Inr [of 0 ?es] all pre by auto
  finally show ?thesis
    using whole assms(3) by (auto simp: balance_spec_def)
qed

section \<open>Statistics\<close>

definition ledgerTransactionContributesToStatistics :: "tx \<Rightarrow> bool" where
  "ledgerTransactionContributesToStatistics t \<longleftrightarrow>
     (case t of
        IncomeTx b acct cat payee \<Rightarrow> True
      | ExpenseTx b acct cat payee \<Rightarrow> True
      | TransferTx b kind fee src dst payee \<Rightarrow> kind = Repayment
      | AdjustmentTx b acct calculated target \<Rightarrow> False)"

section \<open>Net worth\<close>

primrec tx_accounts :: "tx \<Rightarrow> ustr list" where
  "tx_accounts (IncomeTx b acct cat payee) = [acct]"
| "tx_accounts (ExpenseTx b acct cat payee) = [acct]"
| "tx_accounts (TransferTx b kind fee src dst payee) = [src, dst]"
| "tx_accounts (AdjustmentTx b acct calculated target) = [acct]"

text \<open>What a transaction adds to the net worth of a set of accounts.\<close>

definition net_gain :: "account list \<Rightarrow> tx \<Rightarrow> int" where
  "net_gain as t =
     (if tx_deletedAt t \<noteq> None then 0
      else case t of
        IncomeTx b acct cat payee \<Rightarrow> t_amountMinor b
      | ExpenseTx b acct cat payee \<Rightarrow> - t_amountMinor b
      | TransferTx b kind fee src dst payee \<Rightarrow> 0
      | AdjustmentTx b acct calculated target \<Rightarrow>
          (\<Sum>a\<leftarrow>as. if a_id a = acct then side (a_nature a) * t_amountMinor b else 0))"

lemma side_side [simp]: "side n * (side n * x) = x" "side n * side n = 1"
  by (simp_all add: side_def)

lemma effect_foreign: "i \<notin> set (tx_accounts t) \<Longrightarrow> effect n i t = 0"
  by (cases t) (auto simp: effect_def)

lemma effect_deleted: "tx_deletedAt t \<noteq> None \<Longrightarrow> effect n i t = 0"
  by (simp add: effect_def)

lemma sum_list_pick:
  "distinct (map key xs) \<Longrightarrow> k \<in> key ` set xs \<Longrightarrow>
   (\<Sum>x\<leftarrow>xs. if key x = k then c else 0) = (c :: int)"
proof (induction xs)
  case (Cons x xs)
  show ?case
  proof (cases "key x = k")
    case True
    with Cons.prems have "\<forall>y\<in>set xs. key y \<noteq> k" by (auto simp: image_iff)
    then have "(\<Sum>y\<leftarrow>xs. if key y = k then c else 0) = (\<Sum>y\<leftarrow>xs. 0)"
      by (intro arg_cong [where f = sum_list] map_cong) auto
    with True show ?thesis by simp
  next
    case False
    with Cons show ?thesis by auto
  qed
qed simp

lemma net_gain_eq:
  assumes "distinct (map a_id as)" and "set (tx_accounts t) \<subseteq> a_id ` set as" and "wf_tx_shape t"
  shows "(\<Sum>a\<leftarrow>as. side (a_nature a) * effect (a_nature a) (a_id a) t) = net_gain as t"
proof (cases "tx_deletedAt t = None")
  case False
  then show ?thesis by (simp add: effect_def net_gain_def)
next
  case live: True
  show ?thesis
  proof (cases t)
    case (IncomeTx b acct cat payee)
    have "(\<Sum>a\<leftarrow>as. side (a_nature a) * effect (a_nature a) (a_id a) t)
        = (\<Sum>a\<leftarrow>as. if a_id a = acct then t_amountMinor b else 0)"
      by (rule arg_cong [where f = sum_list], rule map_cong) (use live in \<open>auto simp: IncomeTx effect_def\<close>)
    with IncomeTx live assms(1,2) show ?thesis by (simp add: sum_list_pick net_gain_def)
  next
    case (ExpenseTx b acct cat payee)
    have "(\<Sum>a\<leftarrow>as. side (a_nature a) * effect (a_nature a) (a_id a) t)
        = (\<Sum>a\<leftarrow>as. if a_id a = acct then - t_amountMinor b else 0)"
      by (rule arg_cong [where f = sum_list], rule map_cong) (use live in \<open>auto simp: ExpenseTx effect_def\<close>)
    with ExpenseTx live assms(1,2) show ?thesis by (simp add: sum_list_pick net_gain_def)
  next
    case (TransferTx b kind fee src dst payee)
    with assms(3) have ne: "src \<noteq> dst" by simp
    have "(\<Sum>a\<leftarrow>as. side (a_nature a) * effect (a_nature a) (a_id a) t)
        = (\<Sum>a\<leftarrow>as. (if a_id a = src then - t_amountMinor b else 0) + (if a_id a = dst then t_amountMinor b else 0))"
      by (rule arg_cong [where f = sum_list], rule map_cong)
        (use live ne in \<open>auto simp: TransferTx effect_def\<close>)
    with TransferTx live assms(1,2) show ?thesis
      by (simp add: sum_list_addf sum_list_pick net_gain_def)
  next
    case (AdjustmentTx b acct calculated target)
    show ?thesis
      by (use live in \<open>simp add: AdjustmentTx effect_def net_gain_def\<close>)
        (rule arg_cong [where f = sum_list], rule map_cong, auto)
  qed
qed

lemma sum_list_swap: "(\<Sum>x\<leftarrow>xs. \<Sum>y\<leftarrow>ys. f x y) = (\<Sum>y\<leftarrow>ys. \<Sum>x\<leftarrow>xs. f x y)"
  for f :: "'a \<Rightarrow> 'b \<Rightarrow> int"
  by (induction xs) (simp_all add: sum_list_addf)

lemma net_worth_spec:
  assumes "distinct (map a_id as)"
    and "\<forall>t\<in>set ts. set (tx_accounts t) \<subseteq> a_id ` set as \<and> wf_tx_shape t"
  shows "(\<Sum>a\<leftarrow>as. side (a_nature a) * balance_spec a ts) =
    (\<Sum>a\<leftarrow>as. side (a_nature a) * a_openingBalanceMinor a) + (\<Sum>t\<leftarrow>ts. net_gain as t)"
proof -
  have "(\<Sum>t\<leftarrow>ts. net_gain as t)
      = (\<Sum>t\<leftarrow>ts. \<Sum>a\<leftarrow>as. side (a_nature a) * effect (a_nature a) (a_id a) t)"
    by (rule arg_cong [where f = sum_list], rule map_cong)
      (use assms net_gain_eq in \<open>auto simp: net_gain_eq\<close>)
  also have "\<dots> = (\<Sum>a\<leftarrow>as. side (a_nature a) * (\<Sum>t\<leftarrow>ts. effect (a_nature a) (a_id a) t))"
    by (subst sum_list_swap) (simp add: sum_list_const_mult)
  finally show ?thesis
    by (simp add: balance_spec_def sum_list_addf [symmetric] algebra_simps)
qed

section \<open>Properties\<close>

text \<open>
  Property C8. The balance engine is exact: on well-formed transactions the derived balance of an
  account is its opening balance plus the signed effects of its live transactions, and the engine
  fails only when a running total or the balance itself is not a safe integer.
\<close>

theorem derived_balance_exact:
  assumes "\<forall>t\<in>set ts. wf_tx rt t" and "wf_account rt a"
  shows "deriveCurrentBalance a ts = Inr b \<longleftrightarrow>
     b = balance_spec a ts \<and> is_safe b \<and>
     (\<forall>k. is_safe (sum_list (map (effect (a_nature a) (a_id a)) (take k ts))))"
  by (rule deriveCurrentBalance_Inr [OF assms(1)]) (use assms(2) in \<open>auto simp: wf_account_def\<close>)

definition demo_base :: tx_base where
  "demo_base = \<lparr>t_id = js ''t1'', t_groupId = None, t_amountMinor = 200, t_occurredAt = 0,
     t_location = [], t_note = [], t_deletedAt = None, t_version = 1, t_createdAt = 0, t_updatedAt = 0\<rparr>"

definition demo_expense :: tx where
  "demo_expense = ExpenseTx demo_base (js ''acc'') (js ''cat'') []"

lemma wf_demo_expense: "wf_tx demo_runtime demo_expense"
  by (simp add: wf_tx_def wf_tx_base_def demo_expense_def demo_base_def demo_runtime_def utc_ok_def
      opt_utc_ok_def is_safe_def MAX_SAFE_def)

theorem derived_balance_exact_witness:
  "deriveCurrentBalance demo_account [demo_expense] = Inr 300"
proof -
  have "\<forall>t\<in>set [demo_expense]. wf_tx demo_runtime t" by (simp add: wf_demo_expense)
  note iff = derived_balance_exact [OF this wf_demo_account, of 300]
  have e: "effect Asset (js ''acc'') demo_expense = -200"
    by (simp add: effect_def demo_expense_def demo_base_def side_def)
  have "is_safe (sum_list (map (effect Asset (js ''acc'')) (take k [demo_expense])))" for k
    by (cases k) (simp_all add: e is_safe_def MAX_SAFE_def)
  then show ?thesis
    unfolding iff by (simp add: balance_spec_def demo_account_def e is_safe_def MAX_SAFE_def)
qed

text \<open>
  Property C7. Money is conserved: over any set of accounts that contains every account the
  transactions touch, assets minus liabilities equal the opening positions plus incomes minus
  expenses plus the signed adjustments. Transfers (repayments and withdrawals included), deleted
  transactions, and the nature of the accounts they move money between never change net worth.
\<close>

theorem net_worth_conserved:
  assumes "distinct (map a_id as)" and "\<forall>a\<in>set as. wf_account rt a"
    and "\<forall>t\<in>set ts. wf_tx rt t \<and> set (tx_accounts t) \<subseteq> a_id ` set as"
    and "mapR (\<lambda>a. deriveCurrentBalance a ts) as = Inr bs"
  shows "(\<Sum>(a, b)\<leftarrow>zip as bs. side (a_nature a) * b) =
    (\<Sum>a\<leftarrow>as. side (a_nature a) * a_openingBalanceMinor a) + (\<Sum>t\<leftarrow>ts. net_gain as t)"
proof -
  have wf: "\<forall>t\<in>set ts. wf_tx rt t" using assms(3) by blast
  have "list_all2 (\<lambda>a b. deriveCurrentBalance a ts = Inr b) as bs"
    using assms(4) by (simp add: mapR_Inr_iff)
  then have "list_all2 (\<lambda>a b. b = balance_spec a ts) as bs"
    by (rule list.rel_mono_strong)
      (use deriveCurrentBalance_Inr [OF wf] assms(2) in \<open>auto simp: wf_account_def\<close>)
  then have "bs = map (\<lambda>a. balance_spec a ts) as"
    by (induction rule: list_all2_induct) auto
  then have "(\<Sum>(a, b)\<leftarrow>zip as bs. side (a_nature a) * b) = (\<Sum>a\<leftarrow>as. side (a_nature a) * balance_spec a ts)"
    by (simp add: zip_map2 comp_def case_prod_beta' zip_same_conv_map)
  then show ?thesis
    using net_worth_spec [OF assms(1)] assms(3) by (simp add: wf_tx_def)
qed

theorem net_worth_conserved_witness:
  "(\<Sum>(a, b)\<leftarrow>zip [demo_account] [300]. side (a_nature a) * b) = (300 :: int)
   \<and> (\<Sum>a\<leftarrow>[demo_account]. side (a_nature a) * a_openingBalanceMinor a)
     + (\<Sum>t\<leftarrow>[demo_expense]. net_gain [demo_account] t) = 300"
proof -
  have "\<forall>t\<in>set [demo_expense]. wf_tx demo_runtime t" by (simp add: wf_demo_expense)
  have e: "effect Asset (js ''acc'') demo_expense = -200"
    by (simp add: effect_def demo_expense_def demo_base_def side_def)
  have p: "is_safe (sum_list (map (effect Asset (js ''acc'')) (take k [demo_expense])))" for k
    by (cases k) (simp_all add: e is_safe_def MAX_SAFE_def)
  have acc: "a_id demo_account = js ''acc''" "a_nature demo_account = Asset"
    "a_openingBalanceMinor demo_account = 500" by (simp_all add: demo_account_def)
  have b: "deriveCurrentBalance demo_account [demo_expense] = Inr 300"
    using deriveCurrentBalance_Inr [of "[demo_expense]" demo_runtime demo_account 300] p wf_demo_expense
    by (simp add: acc balance_spec_def e is_safe_def MAX_SAFE_def)
  have "(\<Sum>(a, b)\<leftarrow>zip [demo_account] [300]. side (a_nature a) * b) =
    (\<Sum>a\<leftarrow>[demo_account]. side (a_nature a) * a_openingBalanceMinor a)
     + (\<Sum>t\<leftarrow>[demo_expense]. net_gain [demo_account] t)"
    by (rule net_worth_conserved [where rt = demo_runtime])
      (use b wf_demo_expense wf_demo_account in \<open>simp_all add: acc demo_expense_def\<close>)
  then show ?thesis by (simp add: acc side_def)
qed

end
