(* ===== verification/JsText.thy ===== *)
theory JsText
  imports JsRuntime
begin

text \<open>
  Text as the platform encodes it: the code points of a JavaScript string, UTF-8 (\<open>Buffer.from\<close> and the
  \<open>TextDecoder\<close> in fatal mode), UTF-16, and base64url, with the round trips between them.
\<close>

section \<open>Code points\<close>

text \<open>
  SQLite compares TEXT by its UTF-8 bytes, which is the order of the code points; \<open>code_points\<close>
  joins the surrogate pairs of a JavaScript string.
\<close>

fun code_points :: "ustr \<Rightarrow> nat list" where
  "code_points (h # l # s) =
     (if 55296 \<le> h \<and> h \<le> 56319 \<and> 56320 \<le> l \<and> l \<le> 57343
      then (65536 + (h - 55296) * 1024 + (l - 56320)) # code_points s
      else h # code_points (l # s))"
| "code_points s = s"

section \<open>Base64url\<close>

definition b64_char :: "nat \<Rightarrow> nat" where
  "b64_char n = (if n < 26 then 65 + n else if n < 52 then 71 + n else if n < 62 then n - 4
     else if n = 62 then 45 else 95)"

definition b64_val :: "nat \<Rightarrow> nat" where
  "b64_val c = (if 65 \<le> c \<and> c \<le> 90 then c - 65 else if 97 \<le> c \<and> c \<le> 122 then c - 71
     else if 48 \<le> c \<and> c \<le> 57 then c + 4 else if c = 45 then 62 else 63)"

text \<open>\<open>/[A-Za-z0-9_-]/\<close>\<close>

definition is_b64 :: "nat \<Rightarrow> bool" where
  "is_b64 c \<longleftrightarrow> (65 \<le> c \<and> c \<le> 90) \<or> (97 \<le> c \<and> c \<le> 122) \<or> (48 \<le> c \<and> c \<le> 57) \<or> c = 95 \<or> c = 45"

text \<open>\<open>bytes.toString('base64url')\<close>, without padding.\<close>

fun b64_sextets :: "nat list \<Rightarrow> nat list" where
  "b64_sextets (a # b # c # r) =
     a div 4 # (a mod 4 * 16 + b div 16) # (b mod 16 * 4 + c div 64) # c mod 64 # b64_sextets r"
| "b64_sextets [a, b] = [a div 4, a mod 4 * 16 + b div 16, b mod 16 * 4]"
| "b64_sextets [a] = [a div 4, a mod 4 * 16]"
| "b64_sextets [] = []"

definition b64_encode :: "nat list \<Rightarrow> ustr" where
  "b64_encode bytes = map b64_char (b64_sextets bytes)"

text \<open>\<open>Buffer.from(value, 'base64url')\<close>: trailing bits that do not fill a byte are dropped.\<close>

fun b64_bytes :: "nat list \<Rightarrow> nat list" where
  "b64_bytes (x # y # z # w # r) =
     (x * 4 + y div 16) # (y mod 16 * 16 + z div 4) # (z mod 4 * 64 + w) # b64_bytes r"
| "b64_bytes [x, y, z] = [x * 4 + y div 16, y mod 16 * 16 + z div 4]"
| "b64_bytes [x, y] = [x * 4 + y div 16]"
| "b64_bytes [x] = []"
| "b64_bytes [] = []"

definition b64_decode :: "ustr \<Rightarrow> nat list" where
  "b64_decode s = b64_bytes (map b64_val s)"

lemma b64_val_char: "n < 64 \<Longrightarrow> b64_val (b64_char n) = n"
  by (auto simp: b64_val_def b64_char_def)

lemma is_b64_char: "n < 64 \<Longrightarrow> is_b64 (b64_char n)"
  by (auto simp: is_b64_def b64_char_def)

lemma b64_sextets_bound: "list_all (\<lambda>b. b < 256) bs \<Longrightarrow> list_all (\<lambda>n. n < 64) (b64_sextets bs)"
  by (induction bs rule: b64_sextets.induct) auto

lemma b64_bytes_sextets: "list_all (\<lambda>b. b < 256) bs \<Longrightarrow> b64_bytes (b64_sextets bs) = bs"
  by (induction bs rule: b64_sextets.induct) auto

lemma b64_roundtrip: "list_all (\<lambda>b. b < 256) bs \<Longrightarrow> b64_decode (b64_encode bs) = bs"
proof -
  assume bs: "list_all (\<lambda>b. b < 256) bs"
  have "map b64_val (map b64_char (b64_sextets bs)) = b64_sextets bs"
    using b64_sextets_bound [OF bs] unfolding map_map by (intro map_idI) (simp add: list_all_iff b64_val_char)
  with b64_bytes_sextets [OF bs] show ?thesis by (simp add: b64_decode_def b64_encode_def)
qed

section \<open>UTF-8 and UTF-16\<close>

definition surrogate :: "nat \<Rightarrow> bool" where
  "surrogate c \<longleftrightarrow> 55296 \<le> c \<and> c \<le> 57343"

text \<open>The bytes of a code point; a lone surrogate is written as the replacement character.\<close>

definition utf8_bytes :: "nat \<Rightarrow> nat list" where
  "utf8_bytes c =
     (if surrogate c then [239, 191, 189]
      else if c < 128 then [c]
      else if c < 2048 then [192 + c div 64, 128 + c mod 64]
      else if c < 65536 then [224 + c div 4096, 128 + c div 64 mod 64, 128 + c mod 64]
      else [240 + c div 262144, 128 + c div 4096 mod 64, 128 + c div 64 mod 64, 128 + c mod 64])"

definition utf8_encode :: "ustr \<Rightarrow> nat list" where
  "utf8_encode s = concat (map utf8_bytes (code_points s))"

definition continuation :: "nat \<Rightarrow> bool" where
  "continuation b \<longleftrightarrow> 128 \<le> b \<and> b \<le> 191"

text \<open>
  The UTF-8 decoder of the Encoding Standard in fatal mode: \<open>None\<close> for a byte sequence that is not
  well formed (stray or missing continuation bytes, overlong forms, surrogates, values above 10FFFF).
\<close>

fun utf8_points :: "nat list \<Rightarrow> nat list option" where
  "utf8_points [] = Some []"
| "utf8_points (a # r) =
     (if a < 128 then map_option ((#) a) (utf8_points r)
      else if 194 \<le> a \<and> a \<le> 223 then
        (case r of
           b # r1 \<Rightarrow> if continuation b
             then map_option ((#) ((a - 192) * 64 + (b - 128))) (utf8_points r1) else None
         | _ \<Rightarrow> None)
      else if 224 \<le> a \<and> a \<le> 239 then
        (case r of
           b # c # r2 \<Rightarrow> if continuation b \<and> continuation c \<and> (a = 224 \<longrightarrow> 160 \<le> b) \<and> (a = 237 \<longrightarrow> b \<le> 159)
             then map_option ((#) ((a - 224) * 4096 + (b - 128) * 64 + (c - 128))) (utf8_points r2) else None
         | _ \<Rightarrow> None)
      else if 240 \<le> a \<and> a \<le> 244 then
        (case r of
           b # c # d # r3 \<Rightarrow> if continuation b \<and> continuation c \<and> continuation d
               \<and> (a = 240 \<longrightarrow> 144 \<le> b) \<and> (a = 244 \<longrightarrow> b \<le> 143)
             then map_option ((#) ((a - 240) * 262144 + (b - 128) * 4096 + (c - 128) * 64 + (d - 128)))
               (utf8_points r3) else None
         | _ \<Rightarrow> None)
      else None)"

definition utf16_units :: "nat \<Rightarrow> ustr" where
  "utf16_units c = (if c < 65536 then [c] else [55296 + (c - 65536) div 1024, 56320 + (c - 65536) mod 1024])"

text \<open>\<open>new TextDecoder('utf-8', { fatal: true }).decode(bytes)\<close>; a leading byte order mark is dropped.\<close>

definition text_decode :: "nat list \<Rightarrow> ustr option" where
  "text_decode bytes =
     map_option (\<lambda>ps. concat (map utf16_units ps))
       (utf8_points (if take 3 bytes = [239, 187, 191] then drop 3 bytes else bytes))"

definition scalar :: "nat \<Rightarrow> bool" where
  "scalar c \<longleftrightarrow> c \<le> 1114111 \<and> \<not> surrogate c"


lemma utf8_two: "128 \<le> c \<Longrightarrow> c < 2048 \<Longrightarrow>
  utf8_points ((192 + c div 64) # (128 + c mod 64) # r) = map_option ((#) c) (utf8_points r)" for c :: nat
proof -
  assume c: "128 \<le> c" "c < 2048"
  obtain p q where q: "c = p * 64 + q" "q < 64" "c div 64 = p" "c mod 64 = q" by (metis div_mod_decomp mod_less_divisor zero_less_numeral)
  show ?thesis unfolding q(3,4) using c q(1,2) by (simp add: continuation_def)
qed

lemma utf8_three: "2048 \<le> c \<Longrightarrow> c < 65536 \<Longrightarrow> \<not> surrogate c \<Longrightarrow>
  utf8_points ((224 + c div 4096) # (128 + c div 64 mod 64) # (128 + c mod 64) # r) = map_option ((#) c) (utf8_points r)" for c :: nat
proof -
  assume c: "2048 \<le> c" "c < 65536" "\<not> surrogate c"
  obtain p q where q: "c = p * 64 + q" "q < 64" "c div 64 = p" "c mod 64 = q" by (metis div_mod_decomp mod_less_divisor zero_less_numeral)
  obtain u v where v: "p = u * 64 + v" "v < 64" "p div 64 = u" "p mod 64 = v" by (metis div_mod_decomp mod_less_divisor zero_less_numeral)
  have "c div 4096 = c div 64 div 64" by (simp add: div_mult2_eq [symmetric])
  with q v have u: "c div 4096 = u" by simp
  show ?thesis unfolding q(3,4) v(4) u using c q(1,2) v(1,2) by (cases "u = 13") (auto simp: continuation_def surrogate_def algebra_simps)
qed

lemma utf8_four: "65536 \<le> c \<Longrightarrow> c \<le> 1114111 \<Longrightarrow>
  utf8_points ((240 + c div 262144) # (128 + c div 4096 mod 64) # (128 + c div 64 mod 64) # (128 + c mod 64) # r)
    = map_option ((#) c) (utf8_points r)" for c :: nat
proof -
  assume c: "65536 \<le> c" "c \<le> 1114111"
  obtain p q where q: "c = p * 64 + q" "q < 64" "c div 64 = p" "c mod 64 = q" by (metis div_mod_decomp mod_less_divisor zero_less_numeral)
  obtain u v where v: "p = u * 64 + v" "v < 64" "p div 64 = u" "p mod 64 = v" by (metis div_mod_decomp mod_less_divisor zero_less_numeral)
  obtain x y where y: "u = x * 64 + y" "y < 64" "u div 64 = x" "u mod 64 = y" by (metis div_mod_decomp mod_less_divisor zero_less_numeral)
  have "c div 4096 = c div 64 div 64" "c div 262144 = c div 64 div 64 div 64" by (simp_all add: div_mult2_eq [symmetric])
  with q v y have u: "c div 4096 = u" "c div 262144 = x" by simp_all
  show ?thesis unfolding q(3,4) v(4) u y(4) using c q(1,2) v(1,2) y(1,2) by (auto simp: continuation_def algebra_simps)
qed

lemma utf8_points_bytes: "scalar c \<Longrightarrow> utf8_points (utf8_bytes c @ r) = map_option ((#) c) (utf8_points r)"
  using utf8_two [of c r] utf8_three [of c r] utf8_four [of c r]
  by (auto simp: utf8_bytes_def scalar_def simp del: utf8_points.simps) simp

lemma utf8_points_concat: "list_all scalar cs \<Longrightarrow> utf8_points (concat (map utf8_bytes cs)) = Some cs"
  by (induction cs) (simp_all add: utf8_points_bytes del: utf8_points.simps(2))

lemma code_points_units: "list_all (\<lambda>c. c < 65536) s \<Longrightarrow> concat (map utf16_units (code_points s)) = s"
proof (induction s rule: code_points.induct)
  case (1 h l x)
  show ?case
  proof (cases "55296 \<le> h \<and> h \<le> 56319 \<and> 56320 \<le> l \<and> l \<le> 57343")
    case True
    then obtain m k where "l = 56320 + m" "h = 55296 + k" by (metis le_Suc_ex)
    with True 1 show ?thesis by (simp add: utf16_units_def)
  next
    case False
    with 1 show ?thesis by (auto simp: utf16_units_def)
  qed
qed (simp_all add: utf16_units_def)

lemma code_points_inj:
  "list_all (\<lambda>c. c < 65536) s \<Longrightarrow> list_all (\<lambda>c. c < 65536) t \<Longrightarrow> code_points s = code_points t \<Longrightarrow> s = t"
  by (metis code_points_units)

lemma text_decode_utf8:
  assumes "list_all scalar (code_points s)" "list_all (\<lambda>c. c < 65536) s" "s \<noteq> []" "hd s < 128"
  shows "text_decode (utf8_encode s) = Some s"
proof -
  obtain c r where s: "s = c # r" "c < 128" using assms(3,4) by (cases s) auto
  then have "code_points s = c # code_points r" by (cases r) simp_all
  then have "utf8_encode s = c # concat (map utf8_bytes (code_points r))"
    using s(2) by (simp add: utf8_encode_def utf8_bytes_def surrogate_def)
  then have bom: "take 3 (utf8_encode s) \<noteq> [239, 187, 191]" using s(2) by auto
  have "utf8_points (utf8_encode s) = Some (code_points s)"
    using utf8_points_concat [OF assms(1)] by (simp add: utf8_encode_def)
  then show ?thesis using bom code_points_units [OF assms(2)] by (simp add: text_decode_def)
qed

lemma utf8_encode_bound: "list_all scalar (code_points s) \<Longrightarrow> list_all (\<lambda>b. b < 256) (utf8_encode s)"
  by (auto simp: utf8_encode_def list_all_iff utf8_bytes_def scalar_def split: if_splits)

end
