(* ===== verification/LedgerRepository.thy ===== *)
theory LedgerRepository
  imports LedgerBalance JsText "HOL-Library.Product_Lexorder"
begin

text \<open>
  The database of the Ledger and the statements of server/ledger/repository.ts: tables as lists of
  rows, the constraints of the migrations (primary keys, CHECKs, triggers, foreign keys) as checks
  of INSERT and UPDATE, the versioned updates \<open>UPDATE ... WHERE id = @id AND version = @expected\<close>,
  the ordered SELECTs, the SQL balance aggregates and the composed transaction query. A statement
  that changes rows returns their number with the new database.
\<close>

section \<open>The database\<close>

record idem_row =
  ri_operation_scope :: ustr
  ri_idempotency_key :: ustr
  ri_request_fingerprint :: ustr
  ri_response_status :: int
  ri_response_body_json :: ustr
  ri_result_status :: ustr
  ri_result_type :: "ustr option"
  ri_result_id :: "ustr option"
  ri_created_at :: int

record ledger_db =
  db_settings :: "settings_row option"
  db_accounts :: "account_row list"
  db_categories :: "category_row list"
  db_transactions :: "tx_row list"
  db_exclusions :: "(ustr \<times> int) list"
  db_idempotency :: "idem_row list"

definition constraintError :: js_error where
  "constraintError = SqliteError SqConstraint"

section \<open>Constraints\<close>

text \<open>\<open>icon IN (...) OR icon LIKE 'custom_%'\<close>; LIKE folds ASCII case and \<open>_\<close> is any character.\<close>

definition icon_check :: "ustr \<Rightarrow> bool" where
  "icon_check s \<longleftrightarrow>
     s \<in> {js ''wallet'', js ''credit_card'', js ''cash'', js ''building_bank'', js ''briefcase''}
     \<or> (7 \<le> length s \<and> map ascii_lower (take 6 s) = js ''custom'')"

definition account_check :: "account_row \<Rightarrow> bool" where
  "account_check r \<longleftrightarrow> enum_of LEDGER_ACCOUNT_TYPES (ra_type r) \<noteq> None
     \<and> enum_of LEDGER_ACCOUNT_NATURES (ra_nature r) \<noteq> None \<and> icon_check (ra_icon r)
     \<and> 1 \<le> ra_version r"

definition category_check :: "category_row \<Rightarrow> bool" where
  "category_check r \<longleftrightarrow> enum_of LEDGER_CATEGORY_KINDS (rc_kind r) \<noteq> None \<and> icon_check (rc_icon r)
     \<and> rc_is_default r \<in> {0, 1} \<and> 0 \<le> rc_sort_order r \<and> 1 \<le> rc_version r
     \<and> (case rc_system_key r of None \<Rightarrow> True
        | Some k \<Rightarrow> enum_of LEDGER_SYSTEM_KEYS k \<noteq> None \<and> rc_kind r = js ''expense'')"

text \<open>The shape CHECK of ledger_transactions and its triggers.\<close>

definition tx_shape_check :: "tx_row \<Rightarrow> bool" where
  "tx_shape_check r \<longleftrightarrow>
     (rt_type r \<in> {js ''income'', js ''expense''} \<and> rt_account_id r \<noteq> None
        \<and> rt_from_account_id r = None \<and> rt_to_account_id r = None \<and> rt_category_id r \<noteq> None
        \<and> 0 < rt_amount_minor r \<and> rt_calculated r = None \<and> rt_target r = None)
   \<or> (rt_type r = js ''transfer'' \<and> rt_account_id r = None
        \<and> rt_from_account_id r \<noteq> None \<and> rt_to_account_id r \<noteq> None
        \<and> rt_from_account_id r \<noteq> rt_to_account_id r \<and> rt_category_id r = None
        \<and> 0 < rt_amount_minor r \<and> rt_calculated r = None \<and> rt_target r = None)
   \<or> (rt_type r = js ''adjustment'' \<and> rt_account_id r \<noteq> None
        \<and> rt_from_account_id r = None \<and> rt_to_account_id r = None \<and> rt_category_id r = None
        \<and> rt_amount_minor r \<noteq> 0
        \<and> (case (rt_calculated r, rt_target r) of
             (Some c, Some g) \<Rightarrow> rt_amount_minor r = g - c | _ \<Rightarrow> False)
        \<and> rt_payee r = [])"

definition tx_trigger_check :: "tx_row \<Rightarrow> bool" where
  "tx_trigger_check r \<longleftrightarrow>
     (rt_type r = js ''transfer'' \<longleftrightarrow> rt_transfer_kind r \<noteq> None)
   \<and> (case rt_transfer_kind r of None \<Rightarrow> True | Some k \<Rightarrow> enum_of LEDGER_TRANSFER_KINDS k \<noteq> None)
   \<and> (rt_group_id r \<noteq> None \<longrightarrow> rt_type r \<in> {js ''transfer'', js ''expense''})
   \<and> \<not> (rt_type r = js ''transfer'' \<and> rt_transfer_kind r = Some (js ''general'') \<and> rt_group_id r \<noteq> None)
   \<and> (case rt_transfer_fee_mode r of None \<Rightarrow> True
      | Some m \<Rightarrow> enum_of LEDGER_TRANSFER_FEE_MODES m \<noteq> None \<and> rt_type r = js ''transfer''
          \<and> rt_transfer_kind r = Some (js ''withdrawal'') \<and> rt_group_id r \<noteq> None)"

definition tx_check :: "tx_row \<Rightarrow> bool" where
  "tx_check r \<longleftrightarrow> enum_of LEDGER_TRANSACTION_TYPES (rt_type r) \<noteq> None \<and> 1 \<le> rt_version r
     \<and> (case rt_group_id r of None \<Rightarrow> True | Some g \<Rightarrow> \<not> list_all (\<lambda>c. c = 32) g)
     \<and> tx_shape_check r \<and> tx_trigger_check r"

definition fk :: "('r \<Rightarrow> ustr) \<Rightarrow> 'r list \<Rightarrow> ustr option \<Rightarrow> bool" where
  "fk key table v = (case v of None \<Rightarrow> True | Some k \<Rightarrow> lookup_by key k table \<noteq> None)"

definition tx_fks :: "ledger_db \<Rightarrow> tx_row \<Rightarrow> bool" where
  "tx_fks db r \<longleftrightarrow> fk ra_id (db_accounts db) (rt_account_id r)
     \<and> fk ra_id (db_accounts db) (rt_from_account_id r)
     \<and> fk ra_id (db_accounts db) (rt_to_account_id r)
     \<and> fk rc_id (db_categories db) (rt_category_id r)"

section \<open>Settings\<close>

definition getSettings :: "runtime \<Rightarrow> ledger_db \<Rightarrow> settings option res" where
  "getSettings rt db =
     (case db_settings db of
        None \<Rightarrow> Inr None
      | Some r \<Rightarrow> bindR (ledgerSettingsFromRow rt (JObj (settingsRowObj r))) (\<lambda>s. Inr (Some s)))"

definition insertSettings :: "runtime \<Rightarrow> settings \<Rightarrow> ledger_db \<Rightarrow> ledger_db res" where
  "insertSettings rt s db =
     (if db_settings db \<noteq> None \<or> s_version s < 1 then Inl constraintError
      else Inr (db\<lparr>db_settings := Some (settingsParams rt s)\<rparr>))"

definition updateSettings :: "runtime \<Rightarrow> settings \<Rightarrow> int \<Rightarrow> ledger_db \<Rightarrow> (nat \<times> ledger_db) res" where
  "updateSettings rt s expectedVersion db =
     (case db_settings db of
        None \<Rightarrow> Inr (0, db)
      | Some old \<Rightarrow>
          if rs_version old \<noteq> expectedVersion then Inr (0, db)
          else if s_version s < 1 then Inl constraintError
          else Inr (1, db\<lparr>db_settings :=
                 Some ((settingsParams rt s)\<lparr>rs_created_at := rs_created_at old\<rparr>)\<rparr>))"

section \<open>Accounts\<close>

definition accountOfRow :: "runtime \<Rightarrow> account_row \<Rightarrow> account res" where
  "accountOfRow rt r = ledgerAccountFromRow rt (JObj (accountRowObj r))"

definition getAccount :: "runtime \<Rightarrow> ustr \<Rightarrow> ledger_db \<Rightarrow> account option res" where
  "getAccount rt i db =
     (case lookup_by ra_id i (db_accounts db) of
        None \<Rightarrow> Inr None
      | Some r \<Rightarrow> bindR (accountOfRow rt r) (\<lambda>a. Inr (Some a)))"

text \<open>ORDER BY updated_at DESC, id DESC.\<close>

definition account_key :: "account_row \<Rightarrow> int \<times> nat list" where
  "account_key r = (ra_updated_at r, code_points (ra_id r))"

definition listAccounts :: "runtime \<Rightarrow> bool \<Rightarrow> ledger_db \<Rightarrow> account list res" where
  "listAccounts rt includeArchived db =
     mapR (accountOfRow rt)
       (order_by (\<lambda>x y. account_key y \<le> account_key x)
         (filter (\<lambda>r. includeArchived \<or> ra_archived_at r = None) (db_accounts db)))"

definition insertAccount :: "account \<Rightarrow> ledger_db \<Rightarrow> ledger_db res" where
  "insertAccount a db =
     (let r = accountParams a in
      if \<not> account_check r \<or> lookup_by ra_id (ra_id r) (db_accounts db) \<noteq> None then Inl constraintError
      else Inr (db\<lparr>db_accounts := db_accounts db @ [r]\<rparr>))"

definition updateAccount :: "account \<Rightarrow> int \<Rightarrow> ledger_db \<Rightarrow> (nat \<times> ledger_db) res" where
  "updateAccount a expectedVersion db =
     (case lookup_by ra_id (a_id a) (db_accounts db) of
        None \<Rightarrow> Inr (0, db)
      | Some old \<Rightarrow>
          if ra_version old \<noteq> expectedVersion then Inr (0, db)
          else let r = (accountParams a)\<lparr>ra_created_at := ra_created_at old\<rparr> in
            if \<not> account_check r then Inl constraintError
            else Inr (1, db\<lparr>db_accounts := replace_by ra_id r (db_accounts db)\<rparr>))"

definition references_account :: "ustr \<Rightarrow> tx_row \<Rightarrow> bool" where
  "references_account i r \<longleftrightarrow>
     rt_account_id r = Some i \<or> rt_from_account_id r = Some i \<or> rt_to_account_id r = Some i"

definition hasAccountHistory :: "ustr \<Rightarrow> ledger_db \<Rightarrow> bool" where
  "hasAccountHistory i db = list_ex (references_account i) (db_transactions db)"

definition deleteAccount :: "ustr \<Rightarrow> ledger_db \<Rightarrow> (nat \<times> ledger_db) res" where
  "deleteAccount i db =
     (if lookup_by ra_id i (db_accounts db) = None then Inr (0, db)
      else if hasAccountHistory i db then Inl constraintError
      else Inr (1, db\<lparr>db_accounts := filter (\<lambda>r. ra_id r \<noteq> i) (db_accounts db)\<rparr>))"

section \<open>Categories\<close>

definition categoryOfRow :: "runtime \<Rightarrow> category_row \<Rightarrow> category res" where
  "categoryOfRow rt r = ledgerCategoryFromRow rt (JObj (categoryRowObj r))"

definition firstCategory :: "runtime \<Rightarrow> (category_row \<Rightarrow> bool) \<Rightarrow> ledger_db \<Rightarrow> category option res" where
  "firstCategory rt P db =
     (case find P (db_categories db) of
        None \<Rightarrow> Inr None
      | Some r \<Rightarrow> bindR (categoryOfRow rt r) (\<lambda>c. Inr (Some c)))"

definition getCategory :: "runtime \<Rightarrow> ustr \<Rightarrow> ledger_db \<Rightarrow> category option res" where
  "getCategory rt i db = firstCategory rt (\<lambda>r. rc_id r = i) db"

definition findCategoryByIdentity :: "runtime \<Rightarrow> category_kind \<Rightarrow> ustr \<Rightarrow> ledger_db \<Rightarrow> category option res" where
  "findCategoryByIdentity rt kind normalizedName db =
     firstCategory rt (\<lambda>r. rc_kind r = enum_text LEDGER_CATEGORY_KINDS kind
       \<and> rc_normalized_name r = normalizedName) db"

definition findCategoryBySystemKey :: "runtime \<Rightarrow> system_key \<Rightarrow> ledger_db \<Rightarrow> category option res" where
  "findCategoryBySystemKey rt key db =
     firstCategory rt (\<lambda>r. rc_system_key r = Some (enum_text LEDGER_SYSTEM_KEYS key)) db"

text \<open>ORDER BY kind ASC, sort_order ASC, normalized_name ASC, id ASC.\<close>

definition category_key :: "category_row \<Rightarrow> nat list \<times> int \<times> nat list \<times> nat list" where
  "category_key r = (code_points (rc_kind r), rc_sort_order r, code_points (rc_normalized_name r),
     code_points (rc_id r))"

definition listCategories :: "runtime \<Rightarrow> bool \<Rightarrow> ledger_db \<Rightarrow> category list res" where
  "listCategories rt includeArchived db =
     mapR (categoryOfRow rt)
       (order_by (\<lambda>x y. category_key x \<le> category_key y)
         (filter (\<lambda>r. includeArchived \<or> rc_archived_at r = None) (db_categories db)))"

text \<open>UNIQUE (kind, normalized_name) and the unique index on system_key, against the other rows.\<close>

definition category_unique :: "category_row \<Rightarrow> category_row list \<Rightarrow> bool" where
  "category_unique r others \<longleftrightarrow>
     list_all (\<lambda>q. \<not> (rc_kind q = rc_kind r \<and> rc_normalized_name q = rc_normalized_name r)
       \<and> (rc_system_key r = None \<or> rc_system_key q \<noteq> rc_system_key r)) others"

definition insertCategory :: "category \<Rightarrow> ledger_db \<Rightarrow> ledger_db res" where
  "insertCategory c db =
     (let r = categoryParams c in
      if \<not> category_check r \<or> lookup_by rc_id (rc_id r) (db_categories db) \<noteq> None
         \<or> \<not> category_unique r (db_categories db)
      then Inl constraintError
      else Inr (db\<lparr>db_categories := db_categories db @ [r]\<rparr>))"

definition updateCategory :: "category \<Rightarrow> int \<Rightarrow> ledger_db \<Rightarrow> (nat \<times> ledger_db) res" where
  "updateCategory c expectedVersion db =
     (case lookup_by rc_id (c_id c) (db_categories db) of
        None \<Rightarrow> Inr (0, db)
      | Some old \<Rightarrow>
          if rc_version old \<noteq> expectedVersion then Inr (0, db)
          else let r = (categoryParams c)\<lparr>rc_created_at := rc_created_at old\<rparr> in
            if \<not> category_check r
               \<or> \<not> category_unique r (filter (\<lambda>q. rc_id q \<noteq> rc_id r) (db_categories db))
            then Inl constraintError
            else Inr (1, db\<lparr>db_categories := replace_by rc_id r (db_categories db)\<rparr>))"

definition hasCategoryHistory :: "ustr \<Rightarrow> ledger_db \<Rightarrow> bool" where
  "hasCategoryHistory i db = list_ex (\<lambda>r. rt_category_id r = Some i) (db_transactions db)"

definition deleteCategory :: "ustr \<Rightarrow> ledger_db \<Rightarrow> (nat \<times> ledger_db) res" where
  "deleteCategory i db =
     (if lookup_by rc_id i (db_categories db) = None then Inr (0, db)
      else if hasCategoryHistory i db then Inl constraintError
      else Inr (1, db\<lparr>db_categories := filter (\<lambda>r. rc_id r \<noteq> i) (db_categories db)\<rparr>))"

section \<open>Transactions\<close>

definition txOfRow :: "runtime \<Rightarrow> tx_row \<Rightarrow> tx res" where
  "txOfRow rt r = ledgerTransactionFromRow rt (JObj (txRowObj r))"

definition getTransaction :: "runtime \<Rightarrow> ustr \<Rightarrow> ledger_db \<Rightarrow> tx option res" where
  "getTransaction rt i db =
     (case lookup_by rt_id i (db_transactions db) of
        None \<Rightarrow> Inr None
      | Some r \<Rightarrow> bindR (txOfRow rt r) (\<lambda>t. Inr (Some t)))"

definition insertTransaction :: "tx \<Rightarrow> ledger_db \<Rightarrow> ledger_db res" where
  "insertTransaction t db =
     (let r = transactionParams t in
      if \<not> tx_check r \<or> \<not> tx_fks db r \<or> lookup_by rt_id (rt_id r) (db_transactions db) \<noteq> None
      then Inl constraintError
      else Inr (db\<lparr>db_transactions := db_transactions db @ [r]\<rparr>))"

definition updateTransaction :: "tx \<Rightarrow> int \<Rightarrow> ledger_db \<Rightarrow> (nat \<times> ledger_db) res" where
  "updateTransaction t expectedVersion db =
     (case lookup_by rt_id (tx_id t) (db_transactions db) of
        None \<Rightarrow> Inr (0, db)
      | Some old \<Rightarrow>
          if rt_version old \<noteq> expectedVersion then Inr (0, db)
          else let r = (transactionParams t)\<lparr>rt_created_at := rt_created_at old\<rparr> in
            if \<not> tx_check r \<or> \<not> tx_fks db r then Inl constraintError
            else Inr (1, db\<lparr>db_transactions := replace_by rt_id r (db_transactions db)\<rparr>))"

definition softDeleteTransaction ::
  "ustr \<Rightarrow> int \<Rightarrow> int \<Rightarrow> int \<Rightarrow> int \<Rightarrow> ledger_db \<Rightarrow> (nat \<times> ledger_db) res" where
  "softDeleteTransaction i deletedAt ver updatedAt expectedVersion db =
     (case lookup_by rt_id i (db_transactions db) of
        None \<Rightarrow> Inr (0, db)
      | Some old \<Rightarrow>
          if rt_version old \<noteq> expectedVersion then Inr (0, db)
          else if ver < 1 then Inl constraintError
          else Inr (1, db\<lparr>db_transactions := replace_by rt_id
                 (old\<lparr>rt_deleted_at := Some deletedAt, rt_version := ver, rt_updated_at := updatedAt\<rparr>)
                 (db_transactions db)\<rparr>))"

definition isTransactionExcludedFromStatistics :: "ustr \<Rightarrow> ledger_db \<Rightarrow> bool" where
  "isTransactionExcludedFromStatistics i db = (i \<in> fst ` set (db_exclusions db))"

definition excludeTransactionFromStatistics :: "ustr \<Rightarrow> int \<Rightarrow> ledger_db \<Rightarrow> ledger_db res" where
  "excludeTransactionFromStatistics i excludedAt db =
     (if \<not> is_safe excludedAt then Inl (ledgerValidationError ''excludedAt'')
      else if i \<in> fst ` set (db_exclusions db) then Inr db
      else if \<not> fk rt_id (db_transactions db) (Some i) then Inl constraintError
      else Inr (db\<lparr>db_exclusions := db_exclusions db @ [(i, excludedAt)]\<rparr>))"

definition restoreTransactionToStatistics :: "ustr \<Rightarrow> ledger_db \<Rightarrow> ledger_db" where
  "restoreTransactionToStatistics i db =
     db\<lparr>db_exclusions := filter (\<lambda>(j, _). j \<noteq> i) (db_exclusions db)\<rparr>"

definition listStatisticsExcludedTransactionIds :: "ledger_db \<Rightarrow> ustr list" where
  "listStatisticsExcludedTransactionIds db =
     order_by (\<lambda>x y. code_points x \<le> code_points y) (map fst (db_exclusions db))"

section \<open>Ordered SELECTs of transactions\<close>

text \<open>ORDER BY occurred_at DESC, created_at DESC, id DESC.\<close>

definition tx_key :: "tx_row \<Rightarrow> int \<times> int \<times> nat list" where
  "tx_key r = (rt_occurred_at r, rt_created_at r, code_points (rt_id r))"

definition newest_first :: "tx_row list \<Rightarrow> tx_row list" where
  "newest_first rs = order_by (\<lambda>x y. tx_key y \<le> tx_key x) rs"

definition selectTransactions :: "runtime \<Rightarrow> (tx_row \<Rightarrow> bool) \<Rightarrow> ledger_db \<Rightarrow> tx list res" where
  "selectTransactions rt P db = mapR (txOfRow rt) (newest_first (filter P (db_transactions db)))"

definition listActiveTransactionsForAccount :: "runtime \<Rightarrow> ustr \<Rightarrow> ledger_db \<Rightarrow> tx list res" where
  "listActiveTransactionsForAccount rt i db =
     selectTransactions rt (\<lambda>r. rt_deleted_at r = None \<and> references_account i r) db"

definition listActiveTransactionsForAccountInRange ::
  "runtime \<Rightarrow> ustr \<Rightarrow> int \<Rightarrow> int \<Rightarrow> ledger_db \<Rightarrow> tx list res" where
  "listActiveTransactionsForAccountInRange rt i frm til db =
     (if \<not> is_safe til then Inl (ledgerValidationError ''to'')
      else if \<not> is_safe frm then Inl (ledgerValidationError ''from'')
      else if til \<le> frm then Inl (ledgerValidationError ''from'')
      else selectTransactions rt (\<lambda>r. rt_deleted_at r = None \<and> references_account i r
             \<and> frm \<le> rt_occurred_at r \<and> rt_occurred_at r < til) db)"

definition listActiveTransactions :: "runtime \<Rightarrow> ledger_db \<Rightarrow> tx list res" where
  "listActiveTransactions rt db = selectTransactions rt (\<lambda>r. rt_deleted_at r = None) db"

definition listTransactionsByGroupId :: "runtime \<Rightarrow> ustr \<Rightarrow> bool \<Rightarrow> ledger_db \<Rightarrow> tx list res" where
  "listTransactionsByGroupId rt g includeDeleted db =
     selectTransactions rt (\<lambda>r. rt_group_id r = Some g \<and> (includeDeleted \<or> rt_deleted_at r = None)) db"

definition listActiveTransactionsInRange :: "runtime \<Rightarrow> int option \<Rightarrow> int \<Rightarrow> ledger_db \<Rightarrow> tx list res" where
  "listActiveTransactionsInRange rt frm til db =
     (if \<not> is_safe til then Inl (ledgerValidationError ''to'')
      else case frm of
        Some f \<Rightarrow>
          if \<not> is_safe f then Inl (ledgerValidationError ''from'')
          else if til \<le> f then Inl (ledgerValidationError ''from'')
          else selectTransactions rt (\<lambda>r. rt_deleted_at r = None \<and> f \<le> rt_occurred_at r
                 \<and> rt_occurred_at r < til) db
      | None \<Rightarrow> selectTransactions rt (\<lambda>r. rt_deleted_at r = None \<and> rt_occurred_at r < til) db)"

definition grouped_charge :: "tx_row \<Rightarrow> bool" where
  "grouped_charge r \<longleftrightarrow> rt_group_id r \<noteq> None \<and> rt_type r = js ''expense''"

definition listRecentActiveTransactionsBefore :: "runtime \<Rightarrow> int \<Rightarrow> int \<Rightarrow> ledger_db \<Rightarrow> tx list res" where
  "listRecentActiveTransactionsBefore rt til lim db =
     (if \<not> is_safe til then Inl (ledgerValidationError ''to'')
      else if \<not> is_safe lim \<or> lim < 1 then Inl (ledgerValidationError ''limit'')
      else mapR (txOfRow rt) (take (nat lim) (newest_first
        (filter (\<lambda>r. rt_deleted_at r = None \<and> rt_occurred_at r < til \<and> \<not> grouped_charge r)
          (db_transactions db)))))"

section \<open>Balance aggregates in SQL\<close>

text \<open>The CASE expression \<open>ACCOUNT_TRANSACTION_EFFECT_SQL\<close>.\<close>

definition sql_effect :: "ustr \<Rightarrow> account_nature \<Rightarrow> tx_row \<Rightarrow> int" where
  "sql_effect i nature r =
     (if rt_type r = js ''adjustment'' \<and> rt_account_id r = Some i then rt_amount_minor r
      else if rt_type r = js ''income'' \<and> rt_account_id r = Some i
        then (if nature = Asset then rt_amount_minor r else - rt_amount_minor r)
      else if rt_type r = js ''expense'' \<and> rt_account_id r = Some i
        then (if nature = Asset then - rt_amount_minor r else rt_amount_minor r)
      else if rt_type r = js ''transfer'' \<and> rt_from_account_id r = Some i
        then (if nature = Asset then - rt_amount_minor r else rt_amount_minor r)
      else if rt_type r = js ''transfer'' \<and> rt_to_account_id r = Some i
        then (if nature = Asset then rt_amount_minor r else - rt_amount_minor r)
      else 0)"

text \<open>
  SUM adds 64-bit integers and fails when a running total overflows. better-sqlite3 hands the
  total over as a double.
\<close>

definition int64 :: "int \<Rightarrow> bool" where
  "int64 n \<longleftrightarrow> - 9223372036854775808 \<le> n \<and> n \<le> 9223372036854775807"

primrec sqlSumFrom :: "int \<Rightarrow> int list \<Rightarrow> int res" where
  "sqlSumFrom acc [] = Inr acc"
| "sqlSumFrom acc (x # xs) =
     (if int64 (acc + x) then sqlSumFrom (acc + x) xs else Inl (SqliteError SqOverflow))"

definition sqlSum :: "int list \<Rightarrow> int res" where
  "sqlSum xs = bindR (sqlSumFrom 0 xs) (\<lambda>s. Inr (fl53 s))"

definition accountBalanceFromEffect :: "account \<Rightarrow> int \<Rightarrow> int res" where
  "accountBalanceFromEffect a eff =
     bindR (assertSafeMinor (JInt eff) ''accountBalanceEffectMinor'') (\<lambda>_.
     checkedAddMinor (a_openingBalanceMinor a) eff)"

definition balanceWhere :: "(tx_row \<Rightarrow> bool) \<Rightarrow> account \<Rightarrow> ledger_db \<Rightarrow> int res" where
  "balanceWhere P a db =
     bindR (assertSafeMinor (JInt (a_openingBalanceMinor a)) ''openingBalanceMinor'') (\<lambda>_.
     bindR (sqlSum (map (sql_effect (a_id a) (a_nature a))
       (filter (\<lambda>r. rt_deleted_at r = None \<and> references_account (a_id a) r \<and> P r)
         (db_transactions db)))) (accountBalanceFromEffect a))"

definition getAccountBalanceBefore :: "account \<Rightarrow> int \<Rightarrow> ledger_db \<Rightarrow> int res" where
  "getAccountBalanceBefore a before db =
     (if \<not> is_safe before then Inl (ledgerValidationError ''before'')
      else balanceWhere (\<lambda>r. rt_occurred_at r < before) a db)"

record position =
  pos_occurredAt :: int
  pos_createdAt :: int
  pos_id :: ustr

definition at_position :: "position \<Rightarrow> tx_row \<Rightarrow> bool" where
  "at_position p r \<longleftrightarrow>
     rt_occurred_at r < pos_occurredAt p
     \<or> (rt_occurred_at r = pos_occurredAt p \<and> rt_created_at r < pos_createdAt p)
     \<or> (rt_occurred_at r = pos_occurredAt p \<and> rt_created_at r = pos_createdAt p
        \<and> code_points (rt_id r) \<le> code_points (pos_id p))"

definition getAccountBalanceAtPosition :: "account \<Rightarrow> position \<Rightarrow> ledger_db \<Rightarrow> int res" where
  "getAccountBalanceAtPosition a p db =
     (if \<not> is_safe (pos_occurredAt p) \<or> \<not> is_safe (pos_createdAt p)
      then Inl (ledgerValidationError ''position'')
      else balanceWhere (at_position p) a db)"

text \<open>One aggregate per position, as the entries of the returned Map.\<close>

definition getAccountBalancesAtPositions ::
  "account \<Rightarrow> position list \<Rightarrow> ledger_db \<Rightarrow> (ustr \<times> int) list res" where
  "getAccountBalancesAtPositions a ps db =
     (if list_ex (\<lambda>p. \<not> is_safe (pos_occurredAt p) \<or> \<not> is_safe (pos_createdAt p)) ps
      then Inl (ledgerValidationError ''positions'')
      else bindR (assertSafeMinor (JInt (a_openingBalanceMinor a)) ''openingBalanceMinor'') (\<lambda>_.
        bindR (mapR (\<lambda>p. bindR (sqlSum (map (sql_effect (a_id a) (a_nature a))
            (filter (\<lambda>r. rt_deleted_at r = None \<and> references_account (a_id a) r \<and> at_position p r)
              (db_transactions db)))) (\<lambda>e. Inr (pos_id p, e))) ps) (\<lambda>rows.
        mapR (\<lambda>(i, e). bindR (accountBalanceFromEffect a e) (\<lambda>b. Inr (i, b))) rows)))"

section \<open>The transaction query\<close>

datatype filter_type = FAll | FIncome | FExpense | FTransfer
datatype sort_by = SortOccurredAt | SortAmount
datatype sort_direction = Asc | Desc

record query_options =
  q_type :: filter_type
  q_accountId :: "ustr option"
  q_categoryId :: "ustr option"
  q_groupId :: "ustr option"
  q_from :: "int option"
  q_to :: "int option"
  q_search :: "ustr option"
  q_searchAmountMinor :: "int option"
  q_includeDeleted :: bool
  q_limit :: int
  q_offset :: "int option"
  q_cursor :: "position option"
  q_sortBy :: sort_by
  q_sortDirection :: sort_direction

definition replaceAll :: "nat \<Rightarrow> ustr \<Rightarrow> ustr \<Rightarrow> ustr" where
  "replaceAll c by_text s = concat (map (\<lambda>x. if x = c then by_text else [x]) s)"

definition escapeLike :: "ustr \<Rightarrow> ustr" where
  "escapeLike s = replaceAll 95 [92, 95] (replaceAll 37 [92, 37] (replaceAll 92 [92, 92] s))"

text \<open>
  SQLite's LIKE with ESCAPE '\': \<open>%\<close> (37) any run, \<open>_\<close> (95) any one character, the escape (92)
  takes the next character literally, and ASCII letters match in either case.
\<close>

fun likeMatch :: "ustr \<Rightarrow> ustr \<Rightarrow> bool" where
  "likeMatch [] s \<longleftrightarrow> s = []"
| "likeMatch (p # ps) [] \<longleftrightarrow> p = 37 \<and> likeMatch ps []"
| "likeMatch (p # ps) (c # cs) \<longleftrightarrow>
     (if p = 37 then likeMatch ps (c # cs) \<or> likeMatch (p # ps) cs
      else if p = 95 then likeMatch ps cs
      else if p = 92 then (case ps of [] \<Rightarrow> False | q # qs \<Rightarrow> ascii_lower q = ascii_lower c \<and> likeMatch qs cs)
      else ascii_lower p = ascii_lower c \<and> likeMatch ps cs)"

primrec str_includes :: "ustr \<Rightarrow> ustr \<Rightarrow> bool" where
  "str_includes [] needle \<longleftrightarrow> needle = []"
| "str_includes (c # cs) needle \<longleftrightarrow> take (length needle) (c # cs) = needle \<or> str_includes cs needle"

definition LEDGER_TRANSACTION_SEARCH_TYPE_TERMS :: "(ustr \<times> (tx_row \<Rightarrow> bool)) list" where
  "LEDGER_TRANSACTION_SEARCH_TYPE_TERMS = [
     ([25910, 20837], \<lambda>r. rt_type r = js ''income''),
     ([25903, 20986], \<lambda>r. rt_type r = js ''expense''),
     ([36824, 27454], \<lambda>r. rt_type r = js ''transfer'' \<and> rt_transfer_kind r = Some (js ''repayment'')),
     ([25552, 29616], \<lambda>r. rt_type r = js ''transfer'' \<and> rt_transfer_kind r = Some (js ''withdrawal'')),
     ([36716, 36134], \<lambda>r. rt_type r = js ''transfer'' \<and> rt_transfer_kind r = Some (js ''general'')),
     ([20313, 39069, 35843, 25972], \<lambda>r. rt_type r = js ''adjustment'')]"

text \<open>\<open>transactionTypeSearchClauses\<close>: the clauses of the type names that contain the search text.\<close>

definition typeSearchClauses :: "ustr \<Rightarrow> tx_row \<Rightarrow> bool" where
  "typeSearchClauses search r =
     list_ex (\<lambda>(label, clause). str_includes label search \<and> clause r) LEDGER_TRANSACTION_SEARCH_TYPE_TERMS"

definition searchClause :: "query_options \<Rightarrow> ustr \<Rightarrow> ledger_db \<Rightarrow> tx_row \<Rightarrow> bool" where
  "searchClause q search db r =
     (let pat = 37 # escapeLike search @ [37] in
      likeMatch pat (rt_location r) \<or> likeMatch pat (rt_payee r) \<or> likeMatch pat (rt_note r)
      \<or> list_ex (\<lambda>a. likeMatch pat (ra_name a) \<and> references_account (ra_id a) r) (db_accounts db)
      \<or> list_ex (\<lambda>c. likeMatch pat (rc_name c) \<and> rt_category_id r = Some (rc_id c)) (db_categories db)
      \<or> (case q_searchAmountMinor q of None \<Rightarrow> False
         | Some m \<Rightarrow> rt_amount_minor r = m \<or> rt_amount_minor r = - m)
      \<or> typeSearchClauses search r)"

definition before_cursor :: "position \<Rightarrow> tx_row \<Rightarrow> bool" where
  "before_cursor p r \<longleftrightarrow>
     rt_occurred_at r < pos_occurredAt p
     \<or> (rt_occurred_at r = pos_occurredAt p \<and> rt_created_at r < pos_createdAt p)
     \<or> (rt_occurred_at r = pos_occurredAt p \<and> rt_created_at r = pos_createdAt p
        \<and> code_points (rt_id r) < code_points (pos_id p))"

definition optEq :: "'a option \<Rightarrow> ('a \<Rightarrow> bool) \<Rightarrow> bool" where
  "optEq v P = (case v of None \<Rightarrow> True | Some x \<Rightarrow> P x)"

definition transactionQueryFilter :: "query_options \<Rightarrow> bool \<Rightarrow> ledger_db \<Rightarrow> tx_row \<Rightarrow> bool" where
  "transactionQueryFilter q includeCursor db r \<longleftrightarrow>
     (q_includeDeleted q \<or> rt_deleted_at r = None)
   \<and> (case q_type q of
        FAll \<Rightarrow> True
      | FIncome \<Rightarrow> rt_type r = js ''income''
      | FExpense \<Rightarrow> rt_type r = js ''expense''
      | FTransfer \<Rightarrow> rt_type r = js ''transfer'')
   \<and> optEq (q_accountId q) (\<lambda>i. references_account i r)
   \<and> optEq (q_categoryId q) (\<lambda>i. rt_category_id r = Some i)
   \<and> optEq (q_groupId q) (\<lambda>g. rt_group_id r = Some g)
   \<and> optEq (q_from q) (\<lambda>t. t \<le> rt_occurred_at r)
   \<and> optEq (q_to q) (\<lambda>t. rt_occurred_at r < t)
   \<and> optEq (q_search q) (\<lambda>s. s \<noteq> [] \<longrightarrow> searchClause q s db r)
   \<and> (includeCursor \<longrightarrow> optEq (q_cursor q) (\<lambda>p. before_cursor p r))"

definition sort_amount :: "tx_row \<Rightarrow> int" where
  "sort_amount r = (if rt_type r = js ''expense'' then - rt_amount_minor r else rt_amount_minor r)"

text \<open>The primary sort key grows in the order of the result; the rest is newest first.\<close>

definition primary_key :: "query_options \<Rightarrow> tx_row \<Rightarrow> int" where
  "primary_key q r =
     (let k = (if q_sortBy q = SortAmount then sort_amount r else rt_occurred_at r)
      in if q_sortDirection q = Asc then k else - k)"

definition query_le :: "query_options \<Rightarrow> tx_row \<Rightarrow> tx_row \<Rightarrow> bool" where
  "query_le q x y \<longleftrightarrow>
     primary_key q x < primary_key q y
     \<or> (primary_key q x = primary_key q y
        \<and> (if q_sortBy q = SortAmount then tx_key y \<le> tx_key x
           else (rt_created_at y, code_points (rt_id y)) \<le> (rt_created_at x, code_points (rt_id x))))"

definition queryRows :: "query_options \<Rightarrow> ledger_db \<Rightarrow> tx_row list" where
  "queryRows q db =
     take (nat (q_limit q + 1)) (drop (nat (case q_offset q of None \<Rightarrow> 0 | Some n \<Rightarrow> n))
       (order_by (query_le q) (filter (transactionQueryFilter q True db) (db_transactions db))))"

definition queryTransactions :: "runtime \<Rightarrow> query_options \<Rightarrow> ledger_db \<Rightarrow> tx list res" where
  "queryTransactions rt q db = mapR (txOfRow rt) (queryRows q db)"

record query_summary =
  qs_total :: int
  qs_incomeMinor :: int
  qs_expenseMinor :: int
  qs_repaymentMinor :: int
  qs_statisticsExcludedCount :: int

definition is_repayment_row :: "tx_row \<Rightarrow> bool" where
  "is_repayment_row r \<longleftrightarrow> rt_type r = js ''transfer'' \<and> rt_transfer_kind r = Some (js ''repayment'')"

definition safeSummary :: "int \<Rightarrow> int res" where
  "safeSummary n = (if is_safe n then Inr n else Inl PlainErr)"

definition summarizeTransactions :: "query_options \<Rightarrow> ledger_db \<Rightarrow> query_summary res" where
  "summarizeTransactions q db =
     (let rows = filter (transactionQueryFilter q False db) (db_transactions db);
          excluded = (\<lambda>r. rt_id r \<in> fst ` set (db_exclusions db));
          amounts = (\<lambda>P. map (\<lambda>r. if P r \<and> \<not> excluded r then rt_amount_minor r else 0) rows) in
      bindR (sqlSum (amounts (\<lambda>r. rt_type r = js ''income''))) (\<lambda>inc.
      bindR (sqlSum (amounts (\<lambda>r. rt_type r = js ''expense''))) (\<lambda>ex.
      bindR (sqlSum (amounts is_repayment_row)) (\<lambda>rep.
      bindR (safeSummary (int (length rows))) (\<lambda>n.
      bindR (safeSummary inc) (\<lambda>inc'.
      bindR (safeSummary ex) (\<lambda>ex'.
      bindR (safeSummary rep) (\<lambda>rep'.
      bindR (safeSummary (int (length (filter (\<lambda>r. (rt_type r = js ''income''
          \<or> rt_type r = js ''expense'' \<or> is_repayment_row r) \<and> excluded r) rows)))) (\<lambda>x.
      Inr \<lparr>qs_total = n, qs_incomeMinor = inc', qs_expenseMinor = ex', qs_repaymentMinor = rep',
           qs_statisticsExcludedCount = x\<rparr>)))))))))"

section \<open>Idempotency records\<close>

definition idemRowObj :: "idem_row \<Rightarrow> jobj" where
  "idemRowObj r =
     [(js ''operation_scope'', JStr (ri_operation_scope r)),
      (js ''idempotency_key'', JStr (ri_idempotency_key r)),
      (js ''request_fingerprint'', JStr (ri_request_fingerprint r)),
      (js ''response_status'', JInt (ri_response_status r)),
      (js ''response_body_json'', JStr (ri_response_body_json r)),
      (js ''result_status'', JStr (ri_result_status r)),
      (js ''result_type'', nullStr (ri_result_type r)),
      (js ''result_id'', nullStr (ri_result_id r)),
      (js ''created_at'', JInt (ri_created_at r))]"

definition idempotencyString :: "jobj \<Rightarrow> string \<Rightarrow> bool \<Rightarrow> ustr res" where
  "idempotencyString row field allowEmpty =
     bindR (valueAt row field) (\<lambda>v.
     case v of
       JStr s \<Rightarrow> if \<not> allowEmpty \<and> s = [] then Inl (invalidRow field) else Inr s
     | _ \<Rightarrow> Inl (invalidRow field))"

definition idempotencyNullableString :: "jobj \<Rightarrow> string \<Rightarrow> ustr option res" where
  "idempotencyNullableString row field =
     bindR (valueAt row field) (\<lambda>v.
     case v of JNull \<Rightarrow> Inr None | JStr s \<Rightarrow> Inr (Some s) | _ \<Rightarrow> Inl (invalidRow field))"

definition isFingerprint :: "ustr \<Rightarrow> bool" where
  "isFingerprint s \<longleftrightarrow> length s = 64 \<and> list_all (\<lambda>c. is_digit c \<or> (97 \<le> c \<and> c \<le> 102)) s"

definition idempotencyRecordFromRow :: "jobj \<Rightarrow> idem_row res" where
  "idempotencyRecordFromRow row =
     bindR (idempotencyString row ''request_fingerprint'' False) (\<lambda>fp.
     bindR (checkR (isFingerprint fp) (invalidRow ''request_fingerprint'')) (\<lambda>_.
     bindR (safeInteger row ''response_status'') (\<lambda>status.
     bindR (checkR (100 \<le> status \<and> status \<le> 599) (invalidRow ''response_status'')) (\<lambda>_.
     bindR (idempotencyString row ''result_status'' False) (\<lambda>rstat.
     bindR (checkR (rstat = js ''committed'' \<or> rstat = js ''no-op'') (invalidRow ''result_status'')) (\<lambda>_.
     bindR (idempotencyString row ''operation_scope'' False) (\<lambda>scope.
     bindR (idempotencyString row ''idempotency_key'' False) (\<lambda>key.
     bindR (idempotencyString row ''response_body_json'' True) (\<lambda>body.
     bindR (idempotencyNullableString row ''result_type'') (\<lambda>rtype.
     bindR (idempotencyNullableString row ''result_id'') (\<lambda>rid.
     bindR (safeInteger row ''created_at'') (\<lambda>created.
     Inr \<lparr>ri_operation_scope = scope, ri_idempotency_key = key, ri_request_fingerprint = fp,
          ri_response_status = status, ri_response_body_json = body, ri_result_status = rstat,
          ri_result_type = rtype, ri_result_id = rid, ri_created_at = created\<rparr>))))))))))))"

definition idem_key :: "idem_row \<Rightarrow> ustr \<times> ustr" where
  "idem_key r = (ri_operation_scope r, ri_idempotency_key r)"

definition getIdempotencyRecord :: "ustr \<Rightarrow> ustr \<Rightarrow> ledger_db \<Rightarrow> idem_row option res" where
  "getIdempotencyRecord scope key db =
     (case lookup_by idem_key (scope, key) (db_idempotency db) of
        None \<Rightarrow> Inr None
      | Some r \<Rightarrow> bindR (idempotencyRecordFromRow (idemRowObj r)) (\<lambda>x. Inr (Some x)))"

definition idem_check :: "idem_row \<Rightarrow> bool" where
  "idem_check r \<longleftrightarrow> length (code_points (ri_request_fingerprint r)) = 64
     \<and> 100 \<le> ri_response_status r \<and> ri_response_status r \<le> 599
     \<and> ri_result_status r \<in> {js ''committed'', js ''no-op''}"

definition insertIdempotencyRecord :: "idem_row \<Rightarrow> ledger_db \<Rightarrow> ledger_db res" where
  "insertIdempotencyRecord r db =
     (if \<not> idem_check r \<or> lookup_by idem_key (idem_key r) (db_idempotency db) \<noteq> None
      then Inl constraintError
      else Inr (db\<lparr>db_idempotency := db_idempotency db @ [r]\<rparr>))"

section \<open>Versioned updates\<close>

text \<open>
  The contract of every optimistic update: it changes the one row that still has the expected
  version, and reports 0 changes, leaving the database alone, when there is none.
\<close>

locale versioned_store =
  fixes stored :: "'k \<Rightarrow> 'db \<Rightarrow> int option"
    and upd :: "'v \<Rightarrow> int \<Rightarrow> 'db \<Rightarrow> (nat \<times> 'db) res"
    and key :: "'v \<Rightarrow> 'k"
    and ver :: "'v \<Rightarrow> int"
  assumes upd_hit: "upd v n db = Inr (c, db') \<Longrightarrow> c = (if stored (key v) db = Some n then 1 else 0)"
    and upd_miss: "upd v n db = Inr (0, db') \<Longrightarrow> db' = db"
    and upd_skip: "stored (key v) db \<noteq> Some n \<Longrightarrow> upd v n db = Inr (0, db)"
    and stored_upd: "upd v n db = Inr (Suc 0, db') \<Longrightarrow>
      stored k db' = (if k = key v then Some (ver v) else stored k db)"
begin

lemma no_lost_update:
  assumes "upd v n db = Inr (1, db1)" and "ver v \<noteq> n" and "key w = key v"
  shows "upd w n db1 = Inr (0, db1)"
  using stored_upd [of v n db db1 "key w"] assms by (intro upd_skip) simp

lemma changed_iff: "upd v n db = Inr (c, db') \<Longrightarrow> c = 1 \<longleftrightarrow> stored (key v) db = Some n"
  by (drule upd_hit) simp

lemma others_kept: "upd v n db = Inr (c, db') \<Longrightarrow> k \<noteq> key v \<Longrightarrow> stored k db' = stored k db"
  using upd_hit [of v n db c db'] upd_miss [of v n db db'] stored_upd [of v n db db' k]
  by (auto split: if_splits)

end

definition stored_account_version :: "ustr \<Rightarrow> ledger_db \<Rightarrow> int option" where
  "stored_account_version i db = map_option ra_version (lookup_by ra_id i (db_accounts db))"

definition stored_category_version :: "ustr \<Rightarrow> ledger_db \<Rightarrow> int option" where
  "stored_category_version i db = map_option rc_version (lookup_by rc_id i (db_categories db))"

definition stored_tx_version :: "ustr \<Rightarrow> ledger_db \<Rightarrow> int option" where
  "stored_tx_version i db = map_option rt_version (lookup_by rt_id i (db_transactions db))"

lemma params_keys [simp]:
  "ra_id (accountParams a) = a_id a" "ra_version (accountParams a) = a_version a"
  "rc_id (categoryParams c) = c_id c" "rc_version (categoryParams c) = c_version c"
  "rt_id (transactionParams t) = tx_id t" "rt_version (transactionParams t) = tx_version t"
  "rt_deleted_at (transactionParams t) = tx_deletedAt t"
  "rt_group_id (transactionParams t) = tx_groupId t"
  "rt_amount_minor (transactionParams t) = tx_amountMinor t"
  "rt_occurred_at (transactionParams t) = tx_occurredAt t"
  "rt_created_at (transactionParams t) = tx_createdAt t"
  by (simp_all add: accountParams_def categoryParams_def) (cases t; simp add: commonParams_def)+

lemma lookup_by_Some_key [dest]: "lookup_by key k xs = Some r \<Longrightarrow> key r = k"
  by (rule lookup_by_key)

lemma lookup_by_in_keys: "lookup_by key k xs = Some r \<Longrightarrow> k \<in> key ` set xs"
  using lookup_by_SomeD by fastforce

interpretation accounts: versioned_store stored_account_version updateAccount a_id a_version
  by unfold_locales
    (auto simp: updateAccount_def stored_account_version_def Let_def lookup_by_replace
      dest: lookup_by_in_keys split: option.splits if_splits)

interpretation categories: versioned_store stored_category_version updateCategory c_id c_version
  by unfold_locales
    (auto simp: updateCategory_def stored_category_version_def Let_def lookup_by_replace
      dest: lookup_by_in_keys split: option.splits if_splits)

interpretation transactions: versioned_store stored_tx_version updateTransaction
  "\<lambda>t. tx_id t" "\<lambda>t. tx_version t"
  by unfold_locales
    (auto simp: updateTransaction_def stored_tx_version_def Let_def lookup_by_replace
      dest: lookup_by_in_keys split: option.splits if_splits)

interpretation settings_store: versioned_store "\<lambda>_ db. map_option rs_version (db_settings db)"
  "updateSettings rt" "\<lambda>_. ()" s_version for rt
  by unfold_locales
    (auto simp: updateSettings_def settingsParams_def split: option.splits if_splits)

lemma softDelete_hit:
  assumes "lookup_by rt_id i (db_transactions db) = Some old"
  shows "stored_tx_version k (db\<lparr>db_transactions := replace_by rt_id
      (old\<lparr>rt_deleted_at := Some d, rt_version := v, rt_updated_at := u\<rparr>) (db_transactions db)\<rparr>)
    = (if k = i then Some v else stored_tx_version k db)"
  using lookup_by_key [OF assms] lookup_by_in_keys [OF assms]
  by (auto simp: stored_tx_version_def lookup_by_replace)

lemma softDelete_Inr:
  "softDeleteTransaction i d v u n db = Inr (c, db') \<longleftrightarrow>
     (if stored_tx_version i db = Some n
      then 1 \<le> v \<and> c = 1 \<and> (\<exists>old. lookup_by rt_id i (db_transactions db) = Some old
        \<and> db' = db\<lparr>db_transactions := replace_by rt_id
            (old\<lparr>rt_deleted_at := Some d, rt_version := v, rt_updated_at := u\<rparr>) (db_transactions db)\<rparr>)
      else c = 0 \<and> db' = db)"
  by (auto simp: softDeleteTransaction_def stored_tx_version_def split: option.splits)

interpretation soft_deletes: versioned_store stored_tx_version
  "\<lambda>(i, d, v, u). softDeleteTransaction i d v u" fst "\<lambda>(i, d, v, u). v"
  by unfold_locales (auto simp: softDelete_Inr softDelete_hit split: if_splits)

text \<open>
  Property C32. No lost update, for each of the three tables by itself: once a versioned update of an
  account, of a category or of a transaction has gone through and moved the version on, a second
  update of the same row that still expects the old version reports that it changed no row and leaves
  the database as it is, whatever it would write.
\<close>

theorem no_lost_updates:
  "(updateAccount a n db = Inr (1, db1) \<and> a_version a \<noteq> n \<and> a_id a' = a_id a \<longrightarrow> updateAccount a' n db1 = Inr (0, db1))
   \<and> (updateCategory c n db = Inr (1, db1) \<and> c_version c \<noteq> n \<and> c_id c' = c_id c \<longrightarrow> updateCategory c' n db1 = Inr (0, db1))
   \<and> (updateTransaction t n db = Inr (1, db1) \<and> tx_version t \<noteq> n \<and> tx_id t' = tx_id t \<longrightarrow> updateTransaction t' n db1 = Inr (0, db1))"
  using accounts.no_lost_update [of a n db db1 a'] categories.no_lost_update [of c n db db1 c']
    transactions.no_lost_update [of t n db db1 t'] by blast

text \<open>A small database on which closed examples evaluate.\<close>

definition demo_settings :: settings where
  "demo_settings = \<lparr>s_baseCurrency = js ''USD'', s_timezone = js ''UTC'', s_hasCreatedAccount = True,
     s_version = 1, s_createdAt = 0, s_updatedAt = 0,
     s_accountIcons = \<lparr>defaultIcon = js ''wallet'', availableIcons = [], archivedIcons = None,
       customIcons = [], customIconNames = []\<rparr>\<rparr>"

definition demo_db :: ledger_db where
  "demo_db = \<lparr>db_settings = Some (settingsParams demo_runtime demo_settings),
     db_accounts = [accountParams demo_account], db_categories = [categoryParams demo_category],
     db_transactions = [transactionParams demo_expense], db_exclusions = [], db_idempotency = []\<rparr>"

lemma enum_of_enum_text [simp]: "enum_table allowed \<Longrightarrow> enum_of allowed (enum_text allowed x) = Some x"
  by (simp add: enum_of_iff)

lemma enum_text_simps [simp]:
  "enum_text LEDGER_TRANSACTION_TYPES TIncome = js ''income''"
  "enum_text LEDGER_TRANSACTION_TYPES TExpense = js ''expense''"
  "enum_text LEDGER_TRANSACTION_TYPES TTransfer = js ''transfer''"
  "enum_text LEDGER_TRANSACTION_TYPES TAdjustment = js ''adjustment''"
  "enum_text LEDGER_TRANSFER_KINDS General = js ''general''"
  "enum_text LEDGER_TRANSFER_KINDS Repayment = js ''repayment''"
  "enum_text LEDGER_TRANSFER_KINDS Withdrawal = js ''withdrawal''"
  "enum_text LEDGER_CATEGORY_KINDS IncomeKind = js ''income''"
  "enum_text LEDGER_CATEGORY_KINDS ExpenseKind = js ''expense''"
  by (simp_all add: enum_text_def enum_tables)

lemma enum_of_types [simp]:
  "enum_of LEDGER_TRANSACTION_TYPES (js ''income'') = Some TIncome"
  "enum_of LEDGER_TRANSACTION_TYPES (js ''expense'') = Some TExpense"
  "enum_of LEDGER_TRANSACTION_TYPES (js ''transfer'') = Some TTransfer"
  "enum_of LEDGER_TRANSACTION_TYPES (js ''adjustment'') = Some TAdjustment"
  "enum_of LEDGER_CATEGORY_KINDS (js ''income'') = Some IncomeKind"
  "enum_of LEDGER_CATEGORY_KINDS (js ''expense'') = Some ExpenseKind"
  "enum_of LEDGER_TRANSFER_KINDS (js ''general'') = Some General"
  "enum_of LEDGER_TRANSFER_KINDS (js ''repayment'') = Some Repayment"
  "enum_of LEDGER_TRANSFER_KINDS (js ''withdrawal'') = Some Withdrawal"
  by (simp_all add: enum_of_def enum_tables)

theorem no_lost_updates_witness:
  "\<exists>db1 db2 db3.
     updateAccount (demo_account\<lparr>a_version := 2\<rparr>) 1 demo_db = Inr (1, db1)
   \<and> updateAccount (demo_account\<lparr>a_version := 2\<rparr>) 1 db1 = Inr (0, db1)
   \<and> updateCategory (demo_category\<lparr>c_version := 2\<rparr>) 1 demo_db = Inr (1, db2)
   \<and> updateCategory (demo_category\<lparr>c_version := 2\<rparr>) 1 db2 = Inr (0, db2)
   \<and> updateTransaction (map_tx_base (\<lambda>b. b\<lparr>t_version := 2\<rparr>) demo_expense) 1 demo_db = Inr (1, db3)
   \<and> updateTransaction (map_tx_base (\<lambda>b. b\<lparr>t_version := 2\<rparr>) demo_expense) 1 db3 = Inr (0, db3)"
proof -
  let ?a = "demo_account\<lparr>a_version := 2\<rparr>" and ?c = "demo_category\<lparr>c_version := 2\<rparr>"
    and ?t = "map_tx_base (\<lambda>b. b\<lparr>t_version := 2\<rparr>) demo_expense"
  have icon: "icon_check (js ''wallet'')" by (simp add: icon_check_def)
  have "\<exists>d. updateAccount ?a 1 demo_db = Inr (1, d)"
    using icon by (simp add: updateAccount_def demo_db_def account_check_def accountParams_def
        demo_account_def)
  then obtain db1 where u1: "updateAccount ?a 1 demo_db = Inr (1, db1)" ..
  have "\<exists>d. updateCategory ?c 1 demo_db = Inr (1, d)"
    using icon by (simp add: updateCategory_def demo_db_def category_check_def categoryParams_def
        demo_category_def category_unique_def)
  then obtain db2 where u2: "updateCategory ?c 1 demo_db = Inr (1, db2)" ..
  have "\<exists>d. updateTransaction ?t 1 demo_db = Inr (1, d)"
    by (simp add: updateTransaction_def demo_db_def tx_check_def tx_shape_check_def tx_fks_def fk_def
        tx_trigger_check_def commonParams_def demo_expense_def demo_base_def
        demo_account_def demo_category_def)
  then obtain db3 where u3: "updateTransaction ?t 1 demo_db = Inr (1, db3)" ..
  have v: "a_version ?a \<noteq> 1" "c_version ?c \<noteq> 1" "tx_version ?t \<noteq> 1" by simp_all
  from no_lost_updates [of ?a 1 demo_db db1 ?a] no_lost_updates [where c = ?c and c' = ?c and n = 1 and db = demo_db and ?db1.0 = db2]
    no_lost_updates [where t = ?t and t' = ?t and n = 1 and db = demo_db and ?db1.0 = db3] v u1 u2 u3
  show ?thesis by blast
qed

section \<open>Escaped search patterns\<close>

lemma likeMatch_percent: "likeMatch [37] s"
  by (induction s) simp_all

lemma escapeLike_Cons:
  "escapeLike (c # cs) = (if c = 92 \<or> c = 37 \<or> c = 95 then [92, c] else [c]) @ escapeLike cs"
  by (simp add: escapeLike_def replaceAll_def)

lemma escapeLike_Nil [simp]: "escapeLike [] = []"
  by (simp add: escapeLike_def replaceAll_def)

text \<open>An escaped text at the head of a pattern consumes exactly that text, up to ASCII case.\<close>

lemma likeMatch_escaped:
  "likeMatch (escapeLike q @ ps) s \<longleftrightarrow>
     (\<exists>b c. s = b @ c \<and> map ascii_lower b = map ascii_lower q \<and> likeMatch ps c)"
proof (induction q arbitrary: s)
  case (Cons x xs)
  have step: "likeMatch (escapeLike (x # xs) @ ps) s \<longleftrightarrow>
      (\<exists>y t. s = y # t \<and> ascii_lower x = ascii_lower y \<and> likeMatch (escapeLike xs @ ps) t)"
    by (cases s) (auto simp: escapeLike_Cons)
  show ?case
  proof
    assume "likeMatch (escapeLike (x # xs) @ ps) s"
    then obtain y t b c where s: "s = y # t" "ascii_lower x = ascii_lower y" "t = b @ c"
      "map ascii_lower b = map ascii_lower xs" "likeMatch ps c"
      unfolding step Cons.IH by blast
    show "\<exists>b c. s = b @ c \<and> map ascii_lower b = map ascii_lower (x # xs) \<and> likeMatch ps c"
      by (rule exI [of _ "y # b"], rule exI [of _ c]) (use s in simp)
  next
    assume "\<exists>b c. s = b @ c \<and> map ascii_lower b = map ascii_lower (x # xs) \<and> likeMatch ps c"
    then obtain b c where s: "s = b @ c" "map ascii_lower b = map ascii_lower (x # xs)" "likeMatch ps c"
      by blast
    then obtain y t where b: "b = y # t" by (cases b) auto
    with s show "likeMatch (escapeLike (x # xs) @ ps) s"
      unfolding step Cons.IH by auto
  qed
qed simp

lemma likeMatch_any: "likeMatch (37 # ps) s \<longleftrightarrow> (\<exists>a b. s = a @ b \<and> likeMatch ps b)"
proof (induction s)
  case (Cons c cs)
  have "likeMatch (37 # ps) (c # cs) \<longleftrightarrow> likeMatch ps (c # cs) \<or> likeMatch (37 # ps) cs" by simp
  also have "\<dots> \<longleftrightarrow> (\<exists>a b. c # cs = a @ b \<and> likeMatch ps b)"
    unfolding Cons.IH by (auto simp: Cons_eq_append_conv)
  finally show ?case .
qed auto

text \<open>
  The search box cannot inject LIKE wildcards: the pattern built from any search text
  matches a column exactly when the text occurs in it as a substring, up to ASCII case.
\<close>

lemma search_is_substring:
  "likeMatch (37 # escapeLike q @ [37]) s \<longleftrightarrow>
     (\<exists>a b c. s = a @ b @ c \<and> map ascii_lower b = map ascii_lower q)"
  by (simp only: likeMatch_any [of "escapeLike q @ [37]"] likeMatch_escaped likeMatch_percent simp_thms)
    blast

section \<open>Order of the SELECTs\<close>

lemma key_preorder:
  "total_preorder (\<lambda>x y. f x \<le> f y)" "total_preorder (\<lambda>x y. f y \<le> f x)" for f :: "'a \<Rightarrow> 'b::linorder"
  by (unfold_locales; force)+

interpretation tx_order: total_preorder "\<lambda>x y. tx_key y \<le> tx_key x"
  by (rule key_preorder)

interpretation account_order: total_preorder "\<lambda>x y. account_key y \<le> account_key x"
  by (rule key_preorder)

interpretation category_order: total_preorder "\<lambda>x y. category_key x \<le> category_key y"
  by (rule key_preorder)

text \<open>The key of the composed query, so that its order is an order of keys as well.\<close>

definition query_key :: "query_options \<Rightarrow> tx_row \<Rightarrow> int \<times> int \<times> int \<times> nat list" where
  "query_key q r = (- primary_key q r, (if q_sortBy q = SortAmount then rt_occurred_at r else 0),
     rt_created_at r, code_points (rt_id r))"

lemma query_le_key: "query_le q x y \<longleftrightarrow> query_key q y \<le> query_key q x"
  by (cases "primary_key q x" "primary_key q y" rule: linorder_cases)
    (simp_all add: query_le_def query_key_def tx_key_def)

interpretation query_order: total_preorder "query_le q" for q
  unfolding query_le_key by (rule key_preorder)

lemma newest_first_mset [simp, order_facts]: "mset (newest_first rs) = mset rs"
  by (simp add: newest_first_def)

lemma newest_first_set [simp, order_facts]: "set (newest_first rs) = set rs"
  by (simp add: newest_first_def)

lemma newest_first_sorted: "sorted_wrt (\<lambda>x y. tx_key y \<le> tx_key x) (newest_first rs)"
  unfolding newest_first_def by (rule tx_order.sorted_order_by)

section \<open>Well-formed databases\<close>

text \<open>
  Every row decodes, identifiers are unique, and every transaction refers to rows that exist. The
  statements of this theory keep the last two, the service keeps the first.
\<close>

definition account_ok :: "runtime \<Rightarrow> account_row \<Rightarrow> bool" where
  "account_ok rt r \<longleftrightarrow> icon_check (ra_icon r) \<and> (\<exists>a. accountOfRow rt r = Inr a)"

definition category_ok :: "runtime \<Rightarrow> category_row \<Rightarrow> bool" where
  "category_ok rt r \<longleftrightarrow> icon_check (rc_icon r) \<and> (\<exists>c. categoryOfRow rt r = Inr c)"

definition tx_ok :: "runtime \<Rightarrow> tx_row \<Rightarrow> bool" where
  "tx_ok rt r \<longleftrightarrow> (\<exists>t. txOfRow rt r = Inr t)"

definition wf_db :: "runtime \<Rightarrow> ledger_db \<Rightarrow> bool" where
  "wf_db rt db \<longleftrightarrow>
     list_all (account_ok rt) (db_accounts db) \<and> distinct (map ra_id (db_accounts db))
   \<and> list_all (category_ok rt) (db_categories db) \<and> distinct (map rc_id (db_categories db))
   \<and> list_all (tx_ok rt) (db_transactions db) \<and> distinct (map rt_id (db_transactions db))
   \<and> list_all (tx_fks db) (db_transactions db)
   \<and> (\<forall>r. db_settings db = Some r \<longrightarrow> (\<exists>s. wf_settings rt s \<and> r = settingsParams rt s))"

definition tx_of :: "runtime \<Rightarrow> tx_row \<Rightarrow> tx" where
  "tx_of rt r = projr (txOfRow rt r)"

definition txs :: "runtime \<Rightarrow> ledger_db \<Rightarrow> tx list" where
  "txs rt db = map (tx_of rt) (db_transactions db)"

lemma txOfRow_Inr: "txOfRow rt r = Inr t \<longleftrightarrow> wf_tx rt t \<and> r = transactionParams t"
  unfolding txOfRow_def by (rule tx_row_decode)

lemma txOfRow_params [simp]: "wf_tx rt t \<Longrightarrow> txOfRow rt (transactionParams t) = Inr t"
  by (simp add: txOfRow_Inr)

lemma tx_okE:
  assumes "tx_ok rt r"
  obtains t where "wf_tx rt t" "r = transactionParams t" "txOfRow rt r = Inr t" "tx_of rt r = t"
proof -
  from assms obtain t where t: "txOfRow rt r = Inr t" by (auto simp: tx_ok_def)
  then have "wf_tx rt t" "r = transactionParams t" by (simp_all add: txOfRow_Inr)
  with t that show ?thesis by (simp add: tx_of_def)
qed

lemma tx_of_params [simp]: "wf_tx rt t \<Longrightarrow> tx_of rt (transactionParams t) = t"
  by (simp add: tx_of_def)

lemma wf_tx_of: "tx_ok rt r \<Longrightarrow> wf_tx rt (tx_of rt r)"
  by (erule tx_okE) simp

lemma wf_db_txs: "wf_db rt db \<Longrightarrow> \<forall>t\<in>set (txs rt db). wf_tx rt t"
  by (auto simp: wf_db_def txs_def list_all_iff wf_tx_of)

lemma selectTransactions_wf:
  "wf_db rt db \<Longrightarrow> selectTransactions rt P db =
     Inr (map (tx_of rt) (newest_first (filter P (db_transactions db))))"
  unfolding selectTransactions_def
  by (rule mapR_Inr_map) (auto simp: wf_db_def list_all_iff elim!: tx_okE)

lemma accountOfRow_Inr:
  "icon_check (ra_icon r) \<Longrightarrow> accountOfRow rt r = Inr a \<longleftrightarrow> wf_account rt a \<and> r = accountParams a"
  unfolding accountOfRow_def by (rule account_row_decode) (auto simp: icon_check_def)

lemma categoryOfRow_Inr:
  "icon_check (rc_icon r) \<Longrightarrow> categoryOfRow rt r = Inr c \<longleftrightarrow> wf_category rt c \<and> r = categoryParams c"
  unfolding categoryOfRow_def by (rule category_row_decode) (auto simp: icon_check_def)

section \<open>SQL aggregates agree with the balance engine\<close>

lemma sql_effect_gross:
  "wf_tx rt t \<Longrightarrow> sql_effect i n (transactionParams t) = gross_effect n i t"
  by (cases t; cases n) (auto simp: sql_effect_def commonParams_def side_def wf_tx_def)

lemma references_tx_accounts: "references_account i (transactionParams t) \<longleftrightarrow> i \<in> set (tx_accounts t)"
  by (cases t) (auto simp: references_account_def commonParams_def)

lemma sqlSumFrom_value: "sqlSumFrom acc xs = Inr s \<Longrightarrow> s = acc + sum_list xs"
  by (induction xs arbitrary: acc) (fastforce split: if_splits)+

lemma sum_effect_filter:
  assumes "list_all (tx_ok rt) rs"
  shows "sum_list (map (sql_effect i n) (filter (\<lambda>r. rt_deleted_at r = None \<and> references_account i r \<and> P r) rs))
    = sum_list (map (effect n i) (map (tx_of rt) (filter P rs)))"
  using assms
proof (induction rs)
  case (Cons r rs)
  then obtain t where t: "wf_tx rt t" "r = transactionParams t" "tx_of rt r = t"
    by (auto elim: tx_okE)
  have "effect n i t = 0" if "tx_deletedAt t \<noteq> None \<or> i \<notin> set (tx_accounts t)"
    using that effect_foreign effect_deleted by blast
  moreover have "effect n i t = gross_effect n i t" if "tx_deletedAt t = None"
    using that by (simp add: effect_def)
  ultimately show ?case
    using Cons t by (auto simp: sql_effect_gross references_tx_accounts)
qed simp

lemma balanceWhere_value:
  assumes "wf_db rt db" and "balanceWhere P a db = Inr b"
  shows "b = balance_spec a (map (tx_of rt) (filter P (db_transactions db)))"
proof -
  let ?es = "map (sql_effect (a_id a) (a_nature a))
    (filter (\<lambda>r. rt_deleted_at r = None \<and> references_account (a_id a) r \<and> P r) (db_transactions db))"
  from assms(2) obtain s where s: "sqlSumFrom 0 ?es = Inr s" "is_safe (fl53 s)"
    "b = a_openingBalanceMinor a + fl53 s"
    by (auto simp: balanceWhere_def sqlSum_def accountBalanceFromEffect_def bindR_eq_Inr)
  then have "b = a_openingBalanceMinor a + sum_list ?es"
    using sqlSumFrom_value [OF s(1)] by simp
  then show ?thesis
    using sum_effect_filter [of rt "db_transactions db"] assms(1)
    by (simp add: balance_spec_def wf_db_def)
qed

lemma sum_list_perm: "mset xs = mset ys \<Longrightarrow> sum_list (map f xs) = sum_list (map f ys)"
  for f :: "'a \<Rightarrow> int"
  by (metis mset_map sum_mset_sum_list)

lemma balance_spec_select:
  "wf_db rt db \<Longrightarrow> balance_spec a (map (tx_of rt) (newest_first (filter (\<lambda>r. rt_deleted_at r = None
     \<and> references_account (a_id a) r) (db_transactions db)))) = balance_spec a (txs rt db)"
proof -
  assume wf: "wf_db rt db"
  let ?F = "filter (\<lambda>r. rt_deleted_at r = None \<and> references_account (a_id a) r) (db_transactions db)"
  let ?e = "\<lambda>r. effect (a_nature a) (a_id a) (tx_of rt r)"
  have "sum_list (map ?e (newest_first ?F)) = sum_list (map ?e ?F)"
    by (rule sum_list_perm) simp
  also have "\<dots> = sum_list (map ?e (db_transactions db))"
  proof -
    have "list_all (tx_ok rt) rs \<Longrightarrow> sum_list (map ?e (filter (\<lambda>r. rt_deleted_at r = None
        \<and> references_account (a_id a) r) rs)) = sum_list (map ?e rs)" for rs
      by (induction rs) (auto simp: effect_deleted references_tx_accounts effect_foreign elim!: tx_okE)
    then show ?thesis using wf by (simp add: wf_db_def)
  qed
  finally show ?thesis by (simp add: balance_spec_def txs_def comp_def)
qed

text \<open>
  Property C6. The three ways to a balance agree: on a well-formed database the SQL aggregate
  before an instant, the SQL aggregate at a keyset position, and the in-memory engine over the
  listed transactions all return the opening balance plus the signed effects of the live
  transactions they range over.
\<close>

theorem balance_parity:
  assumes "wf_db rt db" and "wf_account rt a"
    and "getAccountBalanceBefore a before db = Inr b1"
    and "getAccountBalanceAtPosition a p db = Inr b2"
    and "bindR (listActiveTransactionsForAccount rt (a_id a) db) (deriveCurrentBalance a) = Inr b3"
  shows "b1 = balance_spec a (filter (\<lambda>t. tx_occurredAt t < before) (txs rt db))
    \<and> b2 = balance_spec a (filter (\<lambda>t. at_position p (transactionParams t)) (txs rt db))
    \<and> b3 = balance_spec a (txs rt db)"
proof -
  have F: "map (tx_of rt) (filter P (db_transactions db)) = filter (\<lambda>t. P (transactionParams t)) (txs rt db)" for P
  proof -
    have "list_all (tx_ok rt) rs \<Longrightarrow>
        map (tx_of rt) (filter P rs) = filter (\<lambda>t. P (transactionParams t)) (map (tx_of rt) rs)" for rs
      by (induction rs) (auto elim!: tx_okE)
    then show ?thesis using assms(1) by (simp add: wf_db_def txs_def)
  qed
  have 1: "b1 = balance_spec a (filter (\<lambda>t. tx_occurredAt t < before) (txs rt db))"
    using balanceWhere_value [OF assms(1), of "\<lambda>r. rt_occurred_at r < before" a b1] assms(3)
    by (simp add: getAccountBalanceBefore_def F split: if_splits)
  have 2: "b2 = balance_spec a (filter (\<lambda>t. at_position p (transactionParams t)) (txs rt db))"
    using balanceWhere_value [OF assms(1), of "at_position p" a b2] assms(4)
    by (simp add: getAccountBalanceAtPosition_def F split: if_splits)
  have 3: "b3 = balance_spec a (txs rt db)"
  proof -
    define ts where "ts = map (tx_of rt) (newest_first (filter (\<lambda>r. rt_deleted_at r = None
       \<and> references_account (a_id a) r) (db_transactions db)))"
    have "\<forall>t\<in>set ts. wf_tx rt t"
      using assms(1) by (auto simp: ts_def wf_db_def list_all_iff wf_tx_of)
    moreover have "deriveCurrentBalance a ts = Inr b3"
      using assms(5) by (simp add: listActiveTransactionsForAccount_def selectTransactions_wf [OF assms(1)] ts_def)
    ultimately have "b3 = balance_spec a ts"
      using assms(2) by (simp add: deriveCurrentBalance_Inr wf_account_def)
    then show ?thesis by (simp add: ts_def balance_spec_select [OF assms(1)])
  qed
  from 1 2 3 show ?thesis by blast
qed

lemma wf_demo_settings: "wf_settings demo_runtime demo_settings"
proof -
  have "isIanaShape (js ''UTC'')" by (simp add: js_def isIanaShape_def iana_first_def iana_char_def)
  then show ?thesis
    by (simp add: wf_settings_def demo_settings_def demo_runtime_def isCurrencyCode_USD exponent_USD
        utc_ok_def is_safe_def MAX_SAFE_def)
qed

lemma wf_demo_db: "wf_db demo_runtime demo_db"
proof -
  have i: "icon_check (js ''wallet'')" by (simp add: icon_check_def)
  have a: "account_ok demo_runtime (accountParams demo_account)"
    unfolding account_ok_def
  proof (intro conjI exI)
    show ic: "icon_check (ra_icon (accountParams demo_account))"
      using i by (simp add: accountParams_def demo_account_def)
    show "accountOfRow demo_runtime (accountParams demo_account) = Inr demo_account"
      unfolding accountOfRow_Inr [OF ic] using wf_demo_account by simp
  qed
  have c: "category_ok demo_runtime (categoryParams demo_category)"
    unfolding category_ok_def
  proof (intro conjI exI)
    show ic: "icon_check (rc_icon (categoryParams demo_category))"
      using i by (simp add: categoryParams_def demo_category_def)
    show "categoryOfRow demo_runtime (categoryParams demo_category) = Inr demo_category"
      unfolding categoryOfRow_Inr [OF ic] using wf_demo_category by simp
  qed
  have t: "tx_ok demo_runtime (transactionParams demo_expense)"
    using wf_demo_expense by (auto simp: tx_ok_def)
  have f: "tx_fks demo_db (transactionParams demo_expense)"
    by (simp add: tx_fks_def fk_def demo_db_def demo_expense_def commonParams_def demo_account_def
        demo_category_def)
  from a c t f wf_demo_settings show ?thesis by (auto simp: wf_db_def demo_db_def)
qed

lemma demo_tx_of [simp]: "tx_of demo_runtime (transactionParams demo_expense) = demo_expense"
  by (simp add: wf_demo_expense)

lemma demo_expense_facts [simp]:
  "tx_deletedAt demo_expense = None" "tx_occurredAt demo_expense = 0" "tx_createdAt demo_expense = 0"
  "tx_id demo_expense = js ''t1''" "tx_accounts demo_expense = [js ''acc'']"
  "effect Asset (js ''acc'') demo_expense = -200"
  "sql_effect (js ''acc'') Asset (transactionParams demo_expense) = -200"
  by (simp_all add: demo_expense_def demo_base_def effect_def side_def sql_effect_def commonParams_def)

lemma demo_account_facts [simp]:
  "a_id demo_account = js ''acc''" "a_nature demo_account = Asset"
  "a_openingBalanceMinor demo_account = 500"
  by (simp_all add: demo_account_def)

lemma demo_db_txs [simp]: "db_transactions demo_db = [transactionParams demo_expense]"
  by (simp add: demo_db_def)

lemma newest_first_single [simp]: "newest_first [r] = [r]" "newest_first [] = []"
  by (simp_all add: newest_first_def)

lemma demo_derived: "deriveCurrentBalance demo_account [demo_expense] = Inr 300"
proof -
  have "is_safe (sum_list (map (effect Asset (js ''acc'')) (take k [demo_expense])))" for k
    by (cases k) (simp_all add: is_safe_def MAX_SAFE_def)
  then show ?thesis
    using deriveCurrentBalance_Inr [of "[demo_expense]" demo_runtime demo_account 300] wf_demo_expense
    by (simp add: balance_spec_def is_safe_def MAX_SAFE_def)
qed

lemma demo_list: "listActiveTransactionsForAccount demo_runtime (js ''acc'') demo_db = Inr [demo_expense]"
  by (simp add: listActiveTransactionsForAccount_def selectTransactions_wf [OF wf_demo_db]
      references_tx_accounts)

theorem balance_parity_witness:
  "getAccountBalanceBefore demo_account 1 demo_db = Inr 300
   \<and> balance_spec demo_account (filter (\<lambda>t. tx_occurredAt t < 1) (txs demo_runtime demo_db)) = 300"
proof -
  let ?p = "\<lparr>pos_occurredAt = 0, pos_createdAt = 0, pos_id = js ''t1''\<rparr>"
  have s: "is_safe 1" "is_safe (-200)" "is_safe 300" "is_safe 500" "int64 (-200)"
    by (simp_all add: is_safe_def MAX_SAFE_def int64_def)
  have w: "balanceWhere P demo_account demo_db = Inr 300" if "P (transactionParams demo_expense)" for P
    using that s by (simp add: balanceWhere_def references_tx_accounts sqlSum_def
        accountBalanceFromEffect_def bindR_eq_Inr)
  have b1: "getAccountBalanceBefore demo_account 1 demo_db = Inr 300"
    using s by (simp add: getAccountBalanceBefore_def w)
  have b2: "getAccountBalanceAtPosition demo_account ?p demo_db = Inr 300"
    by (simp add: getAccountBalanceAtPosition_def w at_position_def)
  have b3: "bindR (listActiveTransactionsForAccount demo_runtime (a_id demo_account) demo_db)
      (deriveCurrentBalance demo_account) = Inr 300"
    by (simp add: demo_list demo_derived)
  from balance_parity [OF wf_demo_db wf_demo_account b1 b2 b3] b1 show ?thesis by simp
qed

section \<open>Keyset pagination\<close>

definition position_of :: "tx_row \<Rightarrow> position" where
  "position_of r = \<lparr>pos_occurredAt = rt_occurred_at r, pos_createdAt = rt_created_at r, pos_id = rt_id r\<rparr>"

lemma before_cursor_key: "before_cursor (position_of c) r \<longleftrightarrow> tx_key r < tx_key c"
  by (auto simp: before_cursor_def position_of_def tx_key_def)

lemma query_le_default:
  "q_sortBy q = SortOccurredAt \<Longrightarrow> q_sortDirection q = Desc \<Longrightarrow> query_le q x y \<longleftrightarrow> tx_key y \<le> tx_key x"
  by (auto simp: query_le_def primary_key_def tx_key_def)

lemma filter_after:
  fixes f :: "'a \<Rightarrow> 'b::linorder"
  assumes "sorted_wrt (\<lambda>x y. f y < f x) xs" and "k < length xs"
  shows "filter (\<lambda>r. f r < f (xs ! k)) xs = drop (Suc k) xs"
  using assms
proof (induction xs arbitrary: k)
  case (Cons x xs)
  show ?case
  proof (cases k)
    case 0
    with Cons.prems(1) show ?thesis by (simp add: filter_id_conv)
  next
    case (Suc j)
    with Cons.prems have "f (xs ! j) < f x" by (metis Suc_less_eq length_Cons nth_mem sorted_wrt.simps(2))
    moreover from this have "\<not> f x < f (xs ! j)" by auto
    ultimately show ?thesis using Suc Cons by auto
  qed
qed simp

lemma strictly_newest:
  assumes "distinct (map tx_key rs)"
  shows "sorted_wrt (\<lambda>x y. tx_key y < tx_key x) (newest_first rs)"
proof -
  have d: "distinct (map tx_key (newest_first rs))" using assms by (simp add: newest_first_def)
  have "sorted_wrt (\<lambda>x y. tx_key y \<le> tx_key x) xs \<Longrightarrow> distinct (map tx_key xs) \<Longrightarrow>
      sorted_wrt (\<lambda>x y. tx_key y < tx_key x) xs" for xs
    by (induction xs) (auto simp: order.strict_iff_order image_iff)
  with newest_first_sorted d show ?thesis by blast
qed

text \<open>What the query returns for a cursor at row \<open>k\<close> of the complete listing.\<close>

lemma query_after_cursor:
  assumes "q_sortBy q = SortOccurredAt" "q_sortDirection q = Desc" "q_offset q = None" "q_cursor q = None"
    and "distinct (map tx_key (db_transactions db))"
    and "full = newest_first (filter (transactionQueryFilter q True db) (db_transactions db))"
    and "k < length full"
  shows "queryRows (q\<lparr>q_cursor := Some (position_of (full ! k))\<rparr>) db = take (nat (q_limit q + 1)) (drop (Suc k) full)"
proof -
  let ?q = "q\<lparr>q_cursor := Some (position_of (full ! k))\<rparr>"
  have "query_le ?q = (\<lambda>x y. tx_key y \<le> tx_key x)"
    using assms(1,2) by (intro ext) (simp add: query_le_default)
  then have ord: "order_by (query_le ?q) rs = newest_first rs" for rs
    by (simp add: newest_first_def)
  have flt: "transactionQueryFilter ?q True db r \<longleftrightarrow>
      transactionQueryFilter q True db r \<and> tx_key r < tx_key (full ! k)" for r
    using assms(4) by (auto simp: transactionQueryFilter_def before_cursor_key optEq_def
        searchClause_def split: option.splits)
  have "filter (transactionQueryFilter ?q True db) (db_transactions db)
      = filter (\<lambda>r. tx_key r < tx_key (full ! k)) (filter (transactionQueryFilter q True db) (db_transactions db))"
    unfolding filter_filter by (rule filter_cong) (use flt in auto)
  then have "newest_first (filter (transactionQueryFilter ?q True db) (db_transactions db))
      = filter (\<lambda>r. tx_key r < tx_key (full ! k)) full"
    by (simp add: newest_first_def tx_order.filter_order_by assms(6) [unfolded newest_first_def])
  also have "\<dots> = drop (Suc k) full"
  proof (rule filter_after [OF _ assms(7)])
    have "distinct (map tx_key (filter (transactionQueryFilter q True db) (db_transactions db)))"
      using assms(5) by (simp add: distinct_map inj_on_def)
    then show "sorted_wrt (\<lambda>x y. tx_key y < tx_key x) full"
      unfolding assms(6) by (rule strictly_newest)
  qed
  finally show ?thesis using assms(3) by (simp add: queryRows_def ord)
qed

text \<open>
  Property C20. Keyset pagination neither skips nor repeats a transaction: asking again with the
  position of the last transaction of a page as the cursor returns exactly the transactions that
  follow it in the complete newest-first listing, however long the pages are.
\<close>

theorem keyset_pagination:
  assumes "q_sortBy q = SortOccurredAt" "q_sortDirection q = Desc" "q_offset q = None" "q_cursor q = None"
    and "distinct (map tx_key (db_transactions db))"
    and "full = newest_first (filter (transactionQueryFilter q True db) (db_transactions db))"
    and "k < length full"
  shows "queryRows (q\<lparr>q_cursor := Some (position_of (full ! k))\<rparr>) db = take (nat (q_limit q + 1)) (drop (Suc k) full)"
  using assms by (rule query_after_cursor)

definition demo_query :: query_options where
  "demo_query = \<lparr>q_type = FAll, q_accountId = None, q_categoryId = None, q_groupId = None, q_from = None,
     q_to = None, q_search = None, q_searchAmountMinor = None, q_includeDeleted = False, q_limit = 1,
     q_offset = None, q_cursor = None, q_sortBy = SortOccurredAt, q_sortDirection = Desc\<rparr>"

theorem keyset_pagination_witness:
  "queryRows (demo_query\<lparr>q_cursor := Some (position_of (transactionParams demo_expense))\<rparr>) demo_db = []"
proof -
  have "transactionQueryFilter demo_query True demo_db (transactionParams demo_expense)"
    by (simp add: transactionQueryFilter_def demo_query_def optEq_def)
  then have full: "[transactionParams demo_expense]
      = newest_first (filter (transactionQueryFilter demo_query True demo_db) (db_transactions demo_db))"
    by simp
  have "queryRows (demo_query\<lparr>q_cursor := Some (position_of ([transactionParams demo_expense] ! 0))\<rparr>) demo_db
      = take (nat (q_limit demo_query + 1)) (drop (Suc 0) [transactionParams demo_expense])"
    by (rule keyset_pagination [OF _ _ _ _ _ full]) (simp_all add: demo_query_def)
  then show ?thesis by simp
qed

end
