(* ===== verification/LedgerValidation.thy ===== *)
theory LedgerValidation
  imports LedgerRepository
begin

text \<open>
  The request parsers of server/ledger/validation.ts: from an untrusted JSON value to a typed
  request, or the first validation error in the order of the source. A patch is a record of
  optional fields; a field is \<open>Some\<close> exactly when the request has the property. The cursor
  decoder and the list-query parser are not modelled.
\<close>

named_theorems parse_simps \<open>what the parsers accept\<close>

section \<open>Fields\<close>

definition asRecord :: "jval \<Rightarrow> jobj res" where
  "asRecord v = (case v of JObj r \<Rightarrow> Inr r | _ \<Rightarrow> Inl (ledgerValidationError []))"

definition assertExactKeys :: "jobj \<Rightarrow> string list \<Rightarrow> string list \<Rightarrow> unit res" where
  "assertExactKeys r allowed required =
     checkR (list_all (\<lambda>(k, _). k \<in> js ` set allowed) r \<and> list_all (hasOwn r) required)
       (ledgerValidationError [])"

definition requireString :: "jobj \<Rightarrow> string \<Rightarrow> ustr res" where
  "requireString r key = (case jget r key of JStr s \<Rightarrow> Inr s | _ \<Rightarrow> Inl (ledgerValidationError key))"

definition requireNonEmptyId :: "jobj \<Rightarrow> string \<Rightarrow> ustr res" where
  "requireNonEmptyId r key = bindR (requireString r key) (\<lambda>s.
     if s = [] \<or> length (js_trim s) = 0 then Inl (ledgerValidationError key) else Inr s)"

definition optionalString :: "jobj \<Rightarrow> string \<Rightarrow> ustr \<Rightarrow> ustr res" where
  "optionalString r key default_value = (if \<not> hasOwn r key then Inr default_value else requireString r key)"

definition validateLength :: "ustr \<Rightarrow> string \<Rightarrow> nat \<Rightarrow> nat \<Rightarrow> ustr res" where
  "validateLength s key min_len max_len =
     (if length s < min_len \<or> length s > max_len then Inl (ledgerValidationError key) else Inr s)"

definition parseName :: "jobj \<Rightarrow> ustr res" where
  "parseName r = bindR (requireString r ''name'') (\<lambda>s. validateLength (js_trim s) ''name'' 1 120)"

definition parseNote :: "jobj \<Rightarrow> ustr res" where
  "parseNote r = bindR (optionalString r ''note'' []) (\<lambda>s. validateLength s ''note'' 0 2000)"

definition parseCardNumber :: "jobj \<Rightarrow> ustr res" where
  "parseCardNumber r = bindR (optionalString r ''cardNumber'' []) (\<lambda>s. validateLength s ''cardNumber'' 0 64)"

definition parsePayee :: "jobj \<Rightarrow> ustr res" where
  "parsePayee r = bindR (optionalString r ''payee'' []) (\<lambda>s. validateLength s ''payee'' 0 200)"

definition parseLocation :: "jobj \<Rightarrow> ustr res" where
  "parseLocation r = bindR (optionalString r ''location'' []) (\<lambda>s. validateLength s ''location'' 0 200)"

definition parseSafeInteger :: "jobj \<Rightarrow> string \<Rightarrow> int res" where
  "parseSafeInteger r key =
     (case jget r key of
        JInt n \<Rightarrow> if is_safe n then Inr n else Inl (ledgerValidationError key)
      | _ \<Rightarrow> Inl (ledgerValidationError key))"

definition parsePositiveInteger :: "jobj \<Rightarrow> string \<Rightarrow> int res" where
  "parsePositiveInteger r key = bindR (parseSafeInteger r key) (\<lambda>n.
     if n \<le> 0 then Inl (ledgerValidationError key) else Inr n)"

definition parseEnum :: "jobj \<Rightarrow> string \<Rightarrow> (string \<times> 'a) list \<Rightarrow> 'a res" where
  "parseEnum r key allowed = bindR (requireString r key) (\<lambda>s.
     case enum_of allowed s of None \<Rightarrow> Inl (ledgerValidationError key) | Some x \<Rightarrow> Inr x)"

definition parseAccountType :: "jobj \<Rightarrow> account_type res" where
  "parseAccountType r = parseEnum r ''type'' LEDGER_ACCOUNT_TYPES"

definition parseAccountNature :: "jobj \<Rightarrow> account_nature res" where
  "parseAccountNature r = parseEnum r ''nature'' LEDGER_ACCOUNT_NATURES"

text \<open>\<open>/^custom_[a-z0-9_]+$/\<close>.\<close>

definition isCustomIcon :: "ustr \<Rightarrow> bool" where
  "isCustomIcon s \<longleftrightarrow> take 7 s = js ''custom_'' \<and> drop 7 s \<noteq> []
     \<and> list_all (\<lambda>c. (97 \<le> c \<and> c \<le> 122) \<or> is_digit c \<or> c = 95) (drop 7 s)"

definition LEDGER_ACCOUNT_ICONS :: "ustr list" where
  "LEDGER_ACCOUNT_ICONS =
     [js ''wallet'', js ''credit_card'', js ''cash'', js ''building_bank'', js ''briefcase'']"

definition parseAccountIcon :: "jobj \<Rightarrow> ustr res" where
  "parseAccountIcon r = bindR (requireString r ''icon'') (\<lambda>s.
     if s \<in> set LEDGER_ACCOUNT_ICONS \<or> isCustomIcon s then Inr s
     else Inl (ledgerValidationError ''icon''))"

definition parseCategoryKind :: "jobj \<Rightarrow> category_kind res" where
  "parseCategoryKind r = parseEnum r ''kind'' LEDGER_CATEGORY_KINDS"

definition parseTransactionType :: "jobj \<Rightarrow> transaction_type res" where
  "parseTransactionType r = parseEnum r ''type'' LEDGER_TRANSACTION_TYPES"

definition parseTransferKind :: "jobj \<Rightarrow> transfer_kind res" where
  "parseTransferKind r = parseEnum r ''transferKind'' LEDGER_TRANSFER_KINDS"

definition parseTransferFeeMode :: "jobj \<Rightarrow> fee_mode res" where
  "parseTransferFeeMode r = parseEnum r ''feeMode'' LEDGER_TRANSFER_FEE_MODES"

definition parseCurrencyField :: "runtime \<Rightarrow> jobj \<Rightarrow> string \<Rightarrow> ustr res" where
  "parseCurrencyField rt r key = bindR (requireString r key) (\<lambda>s.
     rethrowR (assertSupportedLedgerCurrency rt (JStr s)) (LedgerError LInvalidCurrency 400 (Some (js key))))"

definition parseTimezone :: "runtime \<Rightarrow> jobj \<Rightarrow> ustr res" where
  "parseTimezone rt r = bindR (requireString r ''timezone'') (\<lambda>s. assertIanaTimeZoneId rt (JStr s))"

definition parseExpectedVersion :: "jobj \<Rightarrow> int res" where
  "parseExpectedVersion r = bindR (parseSafeInteger r ''expectedVersion'') (\<lambda>n.
     if n < 1 then Inl (ledgerValidationError ''expectedVersion'') else Inr n)"

definition parseIdempotencyKey :: "jval \<Rightarrow> ustr res" where
  "parseIdempotencyKey v =
     (case v of
        JStr s \<Rightarrow> if length s = 0 \<or> length s > 200 then Inl (ledgerValidationError ''Idempotency-Key'')
                  else Inr s
      | _ \<Rightarrow> Inl (ledgerValidationError ''Idempotency-Key''))"

definition parseOccurredAt :: "runtime \<Rightarrow> jobj \<Rightarrow> int res" where
  "parseOccurredAt rt r = bindR (parseSafeInteger r ''occurredAt'') (\<lambda>n.
     assertUtcMilliseconds rt (JInt n) ''occurredAt'')"

definition parseAmountMinor :: "jobj \<Rightarrow> int res" where
  "parseAmountMinor r = parsePositiveInteger r ''amountMinor''"

definition parseOptionalFeeMinor :: "jobj \<Rightarrow> int option res" where
  "parseOptionalFeeMinor r =
     (if \<not> hasOwn r ''feeMinor'' then Inr None
      else bindR (parseSafeInteger r ''feeMinor'') (\<lambda>n.
        if n < 0 then Inl (ledgerValidationError ''feeMinor'') else Inr (Some n)))"

text \<open>\<open>...(hasOwn(record, key) ? { key: parse(record) } : {})\<close>.\<close>

definition ifOwn :: "jobj \<Rightarrow> string \<Rightarrow> 'a res \<Rightarrow> 'a option res" where
  "ifOwn r key parsed = (if hasOwn r key then bindR parsed (\<lambda>x. Inr (Some x)) else Inr None)"

section \<open>Create requests\<close>

record settings_req =
  sq_baseCurrency :: ustr
  sq_timezone :: ustr

definition parseSettingsCreateRequest :: "runtime \<Rightarrow> jval \<Rightarrow> settings_req res" where
  "parseSettingsCreateRequest rt v =
     bindR (asRecord v) (\<lambda>r.
     bindR (assertExactKeys r [''baseCurrency'', ''timezone''] [''baseCurrency'', ''timezone'']) (\<lambda>_.
     bindR (parseCurrencyField rt r ''baseCurrency'') (\<lambda>cur.
     bindR (parseTimezone rt r) (\<lambda>zone.
     Inr \<lparr>sq_baseCurrency = cur, sq_timezone = zone\<rparr>))))"

record account_req =
  aq_name :: ustr
  aq_type :: account_type
  aq_nature :: account_nature
  aq_icon :: "ustr option"
  aq_openingBalanceMinor :: int
  aq_openingDate :: ustr
  aq_currency :: ustr
  aq_note :: ustr
  aq_cardNumber :: ustr

definition parseAccountCreateRequest :: "runtime \<Rightarrow> jval \<Rightarrow> account_req res" where
  "parseAccountCreateRequest rt v =
     bindR (asRecord v) (\<lambda>r.
     bindR (assertExactKeys r
       [''name'', ''type'', ''nature'', ''icon'', ''openingBalanceMinor'', ''openingDate'', ''currency'',
        ''note'', ''cardNumber'']
       [''name'', ''type'', ''nature'', ''openingBalanceMinor'', ''openingDate'', ''currency'']) (\<lambda>_.
     bindR (parseName r) (\<lambda>nm.
     bindR (parseAccountType r) (\<lambda>ty.
     bindR (parseAccountNature r) (\<lambda>nature.
     bindR (ifOwn r ''icon'' (parseAccountIcon r)) (\<lambda>icon.
     bindR (parseSafeInteger r ''openingBalanceMinor'') (\<lambda>opening.
     bindR (bindR (requireString r ''openingDate'') (\<lambda>d. assertOpeningDate rt (JStr d))) (\<lambda>openingDate.
     bindR (parseCurrencyField rt r ''currency'') (\<lambda>cur.
     bindR (parseNote r) (\<lambda>nt.
     bindR (parseCardNumber r) (\<lambda>card.
     Inr \<lparr>aq_name = nm, aq_type = ty, aq_nature = nature, aq_icon = icon,
          aq_openingBalanceMinor = opening, aq_openingDate = openingDate, aq_currency = cur,
          aq_note = nt, aq_cardNumber = card\<rparr>)))))))))))"

record category_req =
  cq_kind :: category_kind
  cq_name :: ustr
  cq_icon :: "ustr option"

definition parseCategoryCreateRequest :: "jval \<Rightarrow> category_req res" where
  "parseCategoryCreateRequest v =
     bindR (asRecord v) (\<lambda>r.
     bindR (assertExactKeys r [''kind'', ''name'', ''icon''] [''kind'', ''name'']) (\<lambda>_.
     bindR (parseCategoryKind r) (\<lambda>kind.
     bindR (parseName r) (\<lambda>nm.
     bindR (ifOwn r ''icon'' (parseAccountIcon r)) (\<lambda>icon.
     Inr \<lparr>cq_kind = kind, cq_name = nm, cq_icon = icon\<rparr>)))))"

record entry_req =
  eq_amountMinor :: int
  eq_accountId :: ustr
  eq_categoryId :: ustr
  eq_occurredAt :: int
  eq_location :: ustr
  eq_payee :: ustr
  eq_note :: ustr

record transfer_req =
  tq_transferKind :: "transfer_kind option"
  tq_amountMinor :: int
  tq_feeMinor :: "int option"
  tq_feeMode :: "fee_mode option"
  tq_fromAccountId :: ustr
  tq_toAccountId :: ustr
  tq_occurredAt :: int
  tq_location :: ustr
  tq_payee :: ustr
  tq_note :: ustr

record adjustment_req =
  jq_targetBalanceMinor :: int
  jq_expectedCalculatedBalanceMinor :: int
  jq_occurredAt :: int
  jq_note :: ustr

datatype tx_req =
    IncomeReq entry_req
  | ExpenseReq entry_req
  | TransferReq transfer_req
  | AdjustmentReq ustr adjustment_req

definition parseIncomeOrExpenseCreate :: "runtime \<Rightarrow> jval \<Rightarrow> transaction_type \<Rightarrow> entry_req res" where
  "parseIncomeOrExpenseCreate rt v ty =
     bindR (asRecord v) (\<lambda>r.
     bindR (assertExactKeys r
       [''type'', ''amountMinor'', ''accountId'', ''categoryId'', ''occurredAt'', ''location'', ''payee'', ''note'']
       [''type'', ''amountMinor'', ''accountId'', ''categoryId'', ''occurredAt'']) (\<lambda>_.
     bindR (parseTransactionType r) (\<lambda>t.
     bindR (checkR (t = ty) (ledgerValidationError ''type'')) (\<lambda>_.
     bindR (parseAmountMinor r) (\<lambda>amount.
     bindR (requireNonEmptyId r ''accountId'') (\<lambda>acct.
     bindR (requireNonEmptyId r ''categoryId'') (\<lambda>cat.
     bindR (parseOccurredAt rt r) (\<lambda>occurred.
     bindR (parseLocation r) (\<lambda>loc.
     bindR (parsePayee r) (\<lambda>payee.
     bindR (parseNote r) (\<lambda>nt.
     Inr \<lparr>eq_amountMinor = amount, eq_accountId = acct, eq_categoryId = cat, eq_occurredAt = occurred,
          eq_location = loc, eq_payee = payee, eq_note = nt\<rparr>)))))))))))"

definition parseTransferCreate :: "runtime \<Rightarrow> jval \<Rightarrow> transfer_req res" where
  "parseTransferCreate rt v =
     bindR (asRecord v) (\<lambda>r.
     bindR (assertExactKeys r
       [''type'', ''transferKind'', ''amountMinor'', ''feeMinor'', ''feeMode'', ''fromAccountId'',
        ''toAccountId'', ''occurredAt'', ''location'', ''payee'', ''note'']
       [''type'', ''amountMinor'', ''fromAccountId'', ''toAccountId'', ''occurredAt'']) (\<lambda>_.
     bindR (parseTransactionType r) (\<lambda>t.
     bindR (checkR (t = TTransfer) (ledgerValidationError ''type'')) (\<lambda>_.
     bindR (ifOwn r ''transferKind'' (parseTransferKind r)) (\<lambda>kind.
     bindR (parseAmountMinor r) (\<lambda>amount.
     bindR (parseOptionalFeeMinor r) (\<lambda>fee.
     bindR (ifOwn r ''feeMode'' (parseTransferFeeMode r)) (\<lambda>mode.
     bindR (requireNonEmptyId r ''fromAccountId'') (\<lambda>src.
     bindR (requireNonEmptyId r ''toAccountId'') (\<lambda>dst.
     bindR (parseOccurredAt rt r) (\<lambda>occurred.
     bindR (parseLocation r) (\<lambda>loc.
     bindR (parsePayee r) (\<lambda>payee.
     bindR (parseNote r) (\<lambda>nt.
     Inr \<lparr>tq_transferKind = kind, tq_amountMinor = amount, tq_feeMinor = fee, tq_feeMode = mode,
          tq_fromAccountId = src, tq_toAccountId = dst, tq_occurredAt = occurred,
          tq_location = loc, tq_payee = payee, tq_note = nt\<rparr>))))))))))))))"

definition parseAdjustmentFields :: "runtime \<Rightarrow> jobj \<Rightarrow> adjustment_req res" where
  "parseAdjustmentFields rt r =
     bindR (parseSafeInteger r ''targetBalanceMinor'') (\<lambda>target.
     bindR (parseSafeInteger r ''expectedCalculatedBalanceMinor'') (\<lambda>expected.
     bindR (parseOccurredAt rt r) (\<lambda>occurred.
     bindR (parseNote r) (\<lambda>nt.
     Inr \<lparr>jq_targetBalanceMinor = target, jq_expectedCalculatedBalanceMinor = expected,
          jq_occurredAt = occurred, jq_note = nt\<rparr>))))"

definition parseAdjustmentCreate :: "runtime \<Rightarrow> jval \<Rightarrow> (ustr \<times> adjustment_req) res" where
  "parseAdjustmentCreate rt v =
     bindR (asRecord v) (\<lambda>r.
     bindR (assertExactKeys r
       [''type'', ''accountId'', ''targetBalanceMinor'', ''expectedCalculatedBalanceMinor'', ''occurredAt'', ''note'']
       [''type'', ''accountId'', ''targetBalanceMinor'', ''expectedCalculatedBalanceMinor'', ''occurredAt'']) (\<lambda>_.
     bindR (parseTransactionType r) (\<lambda>t.
     bindR (checkR (t = TAdjustment) (ledgerValidationError ''type'')) (\<lambda>_.
     bindR (requireNonEmptyId r ''accountId'') (\<lambda>acct.
     bindR (parseAdjustmentFields rt r) (\<lambda>a. Inr (acct, a)))))))"

definition parseTransactionCreateRequest :: "runtime \<Rightarrow> jval \<Rightarrow> tx_req res" where
  "parseTransactionCreateRequest rt v =
     bindR (asRecord v) (\<lambda>r.
     bindR (parseTransactionType r) (\<lambda>ty.
     case ty of
       TIncome \<Rightarrow> bindR (parseIncomeOrExpenseCreate rt v TIncome) (\<lambda>q. Inr (IncomeReq q))
     | TExpense \<Rightarrow> bindR (parseIncomeOrExpenseCreate rt v TExpense) (\<lambda>q. Inr (ExpenseReq q))
     | TTransfer \<Rightarrow> bindR (parseTransferCreate rt v) (\<lambda>q. Inr (TransferReq q))
     | TAdjustment \<Rightarrow> bindR (parseAdjustmentCreate rt v) (\<lambda>(acct, q). Inr (AdjustmentReq acct q))))"

definition parseAdjustmentEndpointRequest :: "runtime \<Rightarrow> jval \<Rightarrow> adjustment_req res" where
  "parseAdjustmentEndpointRequest rt v =
     bindR (asRecord v) (\<lambda>r.
     bindR (assertExactKeys r
       [''targetBalanceMinor'', ''expectedCalculatedBalanceMinor'', ''occurredAt'', ''note'']
       [''targetBalanceMinor'', ''expectedCalculatedBalanceMinor'', ''occurredAt'']) (\<lambda>_.
     parseAdjustmentFields rt r))"

section \<open>Patches\<close>

record settings_patch =
  sp_expectedVersion :: int
  sp_baseCurrency :: "ustr option"
  sp_timezone :: "ustr option"
  sp_accountIcons :: "icon_config option"

definition strings_of :: "jval list \<Rightarrow> ustr list" where
  "strings_of xs = List.map_filter strOf xs"

text \<open>\<open>Object.fromEntries(Object.entries(v).filter(...))\<close>; an array's entries are its indices.\<close>

definition string_entries :: "jval \<Rightarrow> (ustr \<times> ustr) list" where
  "string_entries v =
     (case v of
        JObj r \<Rightarrow> List.map_filter (\<lambda>(k, x). map_option (\<lambda>s. (k, s)) (strOf x)) r
      | JArr xs \<Rightarrow> List.map_filter (\<lambda>(i, x). map_option (\<lambda>s. (nat_text i, s)) (strOf x)) (enumerate 0 xs)
      | _ \<Rightarrow> [])"

definition is_object :: "jval \<Rightarrow> bool" where
  "is_object v \<longleftrightarrow> (case v of JObj _ \<Rightarrow> True | JArr _ \<Rightarrow> True | _ \<Rightarrow> False)"

definition parseAccountIconConfig :: "jval \<Rightarrow> icon_config res" where
  "parseAccountIconConfig v =
     (case v of
        JObj config \<Rightarrow>
          (case (jget config ''availableIcons'', jget config ''defaultIcon'') of
             (JArr available, JStr dflt) \<Rightarrow>
               if \<not> is_object (jget config ''customIcons'') \<or> \<not> is_object (jget config ''customIconNames'')
               then Inl (ledgerValidationError [])
               else let icons = strings_of available in
                 if icons = [] \<or> dflt \<notin> set icons then Inl (ledgerValidationError [])
                 else Inr \<lparr>defaultIcon = dflt, availableIcons = icons,
                   archivedIcons = Some (case jget config ''archivedIcons'' of
                      JArr xs \<Rightarrow> strings_of xs | _ \<Rightarrow> []),
                   customIcons = string_entries (jget config ''customIcons''),
                   customIconNames = string_entries (jget config ''customIconNames'')\<rparr>
           | _ \<Rightarrow> Inl (ledgerValidationError []))
      | _ \<Rightarrow> Inl (ledgerValidationError []))"

text \<open>The keys a PATCH may carry, at least one of the mutable ones.\<close>

definition assertPatchKeys :: "jobj \<Rightarrow> string list \<Rightarrow> unit res" where
  "assertPatchKeys r mutable =
     bindR (assertExactKeys r (''expectedVersion'' # mutable) [''expectedVersion'']) (\<lambda>_.
     checkR (list_ex (hasOwn r) mutable) (ledgerValidationError []))"

definition parseSettingsPatchRequest :: "runtime \<Rightarrow> jval \<Rightarrow> settings_patch res" where
  "parseSettingsPatchRequest rt v =
     bindR (asRecord v) (\<lambda>r.
     bindR (assertPatchKeys r [''baseCurrency'', ''timezone'', ''accountIcons'']) (\<lambda>_.
     bindR (parseExpectedVersion r) (\<lambda>ver.
     bindR (ifOwn r ''baseCurrency'' (parseCurrencyField rt r ''baseCurrency'')) (\<lambda>cur.
     bindR (ifOwn r ''timezone'' (parseTimezone rt r)) (\<lambda>zone.
     bindR (ifOwn r ''accountIcons'' (parseAccountIconConfig (jget r ''accountIcons''))) (\<lambda>icons.
     Inr \<lparr>sp_expectedVersion = ver, sp_baseCurrency = cur, sp_timezone = zone,
          sp_accountIcons = icons\<rparr>))))))"

record account_patch =
  ap_expectedVersion :: int
  ap_name :: "ustr option"
  ap_note :: "ustr option"
  ap_cardNumber :: "ustr option"
  ap_type :: "account_type option"
  ap_nature :: "account_nature option"
  ap_icon :: "ustr option"
  ap_openingBalanceMinor :: "int option"
  ap_openingDate :: "ustr option"

definition parseAccountPatchRequest :: "runtime \<Rightarrow> jval \<Rightarrow> account_patch res" where
  "parseAccountPatchRequest rt v =
     bindR (asRecord v) (\<lambda>r.
     bindR (assertPatchKeys r [''name'', ''note'', ''cardNumber'', ''type'', ''nature'',
       ''openingBalanceMinor'', ''openingDate'', ''icon'']) (\<lambda>_.
     bindR (parseExpectedVersion r) (\<lambda>ver.
     bindR (ifOwn r ''name'' (parseName r)) (\<lambda>nm.
     bindR (ifOwn r ''note'' (parseNote r)) (\<lambda>nt.
     bindR (ifOwn r ''cardNumber'' (parseCardNumber r)) (\<lambda>card.
     bindR (ifOwn r ''type'' (parseAccountType r)) (\<lambda>ty.
     bindR (ifOwn r ''nature'' (parseAccountNature r)) (\<lambda>nature.
     bindR (ifOwn r ''icon'' (parseAccountIcon r)) (\<lambda>icon.
     bindR (ifOwn r ''openingBalanceMinor'' (parseSafeInteger r ''openingBalanceMinor'')) (\<lambda>opening.
     bindR (ifOwn r ''openingDate'' (bindR (requireString r ''openingDate'') (\<lambda>d.
        assertOpeningDate rt (JStr d)))) (\<lambda>openingDate.
     Inr \<lparr>ap_expectedVersion = ver, ap_name = nm, ap_note = nt, ap_cardNumber = card, ap_type = ty,
          ap_nature = nature, ap_icon = icon, ap_openingBalanceMinor = opening,
          ap_openingDate = openingDate\<rparr>)))))))))))"

record category_patch =
  cp_expectedVersion :: int
  cp_kind :: "category_kind option"
  cp_name :: "ustr option"
  cp_icon :: "ustr option"

definition parseCategoryPatchRequest :: "jval \<Rightarrow> category_patch res" where
  "parseCategoryPatchRequest v =
     bindR (asRecord v) (\<lambda>r.
     bindR (assertPatchKeys r [''kind'', ''name'', ''icon'']) (\<lambda>_.
     bindR (parseExpectedVersion r) (\<lambda>ver.
     bindR (ifOwn r ''kind'' (parseCategoryKind r)) (\<lambda>kind.
     bindR (ifOwn r ''name'' (parseName r)) (\<lambda>nm.
     bindR (ifOwn r ''icon'' (parseAccountIcon r)) (\<lambda>icon.
     Inr \<lparr>cp_expectedVersion = ver, cp_kind = kind, cp_name = nm, cp_icon = icon\<rparr>))))))"

record tx_patch =
  tp_expectedVersion :: int
  tp_type :: "transaction_type option"
  tp_transferKind :: "transfer_kind option"
  tp_amountMinor :: "int option"
  tp_feeMinor :: "int option"
  tp_feeMode :: "fee_mode option"
  tp_accountId :: "ustr option"
  tp_fromAccountId :: "ustr option"
  tp_toAccountId :: "ustr option"
  tp_categoryId :: "ustr option"
  tp_occurredAt :: "int option"
  tp_location :: "ustr option"
  tp_payee :: "ustr option"
  tp_note :: "ustr option"
  tp_calculated :: "int option"
  tp_target :: "int option"

definition parseTransactionPatchRequest :: "runtime \<Rightarrow> jval \<Rightarrow> tx_patch res" where
  "parseTransactionPatchRequest rt v =
     bindR (asRecord v) (\<lambda>r.
     bindR (assertPatchKeys r [''type'', ''transferKind'', ''amountMinor'', ''feeMinor'', ''feeMode'',
       ''accountId'', ''fromAccountId'', ''toAccountId'', ''categoryId'', ''occurredAt'', ''location'',
       ''payee'', ''note'', ''adjustmentCalculatedBalanceMinor'', ''adjustmentTargetBalanceMinor'']) (\<lambda>_.
     bindR (parseExpectedVersion r) (\<lambda>ver.
     bindR (ifOwn r ''type'' (parseTransactionType r)) (\<lambda>ty.
     bindR (ifOwn r ''transferKind'' (parseTransferKind r)) (\<lambda>kind.
     bindR (ifOwn r ''amountMinor'' (parseAmountMinor r)) (\<lambda>amount.
     bindR (parseOptionalFeeMinor r) (\<lambda>fee.
     bindR (ifOwn r ''feeMode'' (parseTransferFeeMode r)) (\<lambda>mode.
     bindR (ifOwn r ''accountId'' (requireNonEmptyId r ''accountId'')) (\<lambda>acct.
     bindR (ifOwn r ''fromAccountId'' (requireNonEmptyId r ''fromAccountId'')) (\<lambda>src.
     bindR (ifOwn r ''toAccountId'' (requireNonEmptyId r ''toAccountId'')) (\<lambda>dst.
     bindR (ifOwn r ''categoryId'' (requireNonEmptyId r ''categoryId'')) (\<lambda>cat.
     bindR (ifOwn r ''occurredAt'' (parseOccurredAt rt r)) (\<lambda>occurred.
     bindR (ifOwn r ''location'' (parseLocation r)) (\<lambda>loc.
     bindR (ifOwn r ''payee'' (parsePayee r)) (\<lambda>payee.
     bindR (ifOwn r ''note'' (parseNote r)) (\<lambda>nt.
     bindR (ifOwn r ''adjustmentCalculatedBalanceMinor''
        (parseSafeInteger r ''adjustmentCalculatedBalanceMinor'')) (\<lambda>calc.
     bindR (ifOwn r ''adjustmentTargetBalanceMinor''
        (parseSafeInteger r ''adjustmentTargetBalanceMinor'')) (\<lambda>target.
     Inr \<lparr>tp_expectedVersion = ver, tp_type = ty, tp_transferKind = kind, tp_amountMinor = amount,
          tp_feeMinor = fee, tp_feeMode = mode, tp_accountId = acct, tp_fromAccountId = src,
          tp_toAccountId = dst, tp_categoryId = cat, tp_occurredAt = occurred, tp_location = loc,
          tp_payee = payee, tp_note = nt, tp_calculated = calc,
          tp_target = target\<rparr>))))))))))))))))))"

definition parseExpectedVersionCommand :: "jval \<Rightarrow> int res" where
  "parseExpectedVersionCommand v =
     bindR (asRecord v) (\<lambda>r.
     bindR (assertExactKeys r [''expectedVersion''] [''expectedVersion'']) (\<lambda>_.
     parseExpectedVersion r))"

section \<open>Query values\<close>

text \<open>\<open>/^[1-9]\d*$/\<close>, \<open>/^\d+$/\<close>, \<open>/^-?\d+$/\<close> and \<open>Number\<close> of such texts.\<close>

definition isPositiveDigits :: "ustr \<Rightarrow> bool" where
  "isPositiveDigits s \<longleftrightarrow> s \<noteq> [] \<and> hd s \<noteq> 48 \<and> list_all is_digit s"

definition isDigits :: "ustr \<Rightarrow> bool" where
  "isDigits s \<longleftrightarrow> s \<noteq> [] \<and> list_all is_digit s"

definition numberOfText :: "ustr \<Rightarrow> int option" where
  "numberOfText s =
     (if isDigits s then Some (fl53 (int (digits_val s)))
      else case s of
        [] \<Rightarrow> None
      | c # ds \<Rightarrow> if c = 45 \<and> isDigits ds then Some (fl53 (- int (digits_val ds))) else None)"

definition parseLimit :: "jval \<Rightarrow> int res" where
  "parseLimit v =
     (let numeric = (case v of
          JInt n \<Rightarrow> Some n
        | JStr s \<Rightarrow> if isPositiveDigits s then numberOfText s else None
        | _ \<Rightarrow> None)
      in if v = JUndef then Inr 50
         else case numeric of
           Some n \<Rightarrow> if \<not> is_safe n \<or> n < 1 \<or> n > 200 then Inl (ledgerValidationError ''limit'') else Inr n
         | None \<Rightarrow> Inl (ledgerValidationError ''limit''))"

definition parseUtcQueryValue :: "runtime \<Rightarrow> jval \<Rightarrow> string \<Rightarrow> int option res" where
  "parseUtcQueryValue rt v key =
     (case v of
        JUndef \<Rightarrow> Inr None
      | JStr s \<Rightarrow>
          (case numberOfText s of
             None \<Rightarrow> Inl (ledgerValidationError key)
           | Some n \<Rightarrow> bindR (assertUtcMilliseconds rt (JInt n) key) (\<lambda>t. Inr (Some t)))
      | _ \<Rightarrow> Inl (ledgerValidationError key))"

definition parseBooleanQuery :: "jval \<Rightarrow> string \<Rightarrow> bool \<Rightarrow> bool res" where
  "parseBooleanQuery v key default_value =
     (if v = JUndef then Inr default_value
      else if v = JStr (js ''true'') \<or> v = JBool True then Inr True
      else if v = JStr (js ''false'') \<or> v = JBool False then Inr False
      else Inl (ledgerValidationError key))"

definition parseTransactionTypeFilter :: "jval \<Rightarrow> filter_type res" where
  "parseTransactionTypeFilter v =
     (if v = JUndef \<or> v = JStr (js ''all'') then Inr FAll
      else if v = JStr (js ''income'') then Inr FIncome
      else if v = JStr (js ''expense'') then Inr FExpense
      else if v = JStr (js ''transfer'') then Inr FTransfer
      else Inl (ledgerValidationError ''type''))"

definition parseTransactionSortBy :: "jval \<Rightarrow> sort_by option res" where
  "parseTransactionSortBy v =
     (if v = JUndef then Inr None
      else if v = JStr (js ''occurredAt'') then Inr (Some SortOccurredAt)
      else if v = JStr (js ''amount'') then Inr (Some SortAmount)
      else Inl (ledgerValidationError ''sortBy''))"

definition parseTransactionSortDirection :: "jval \<Rightarrow> sort_direction option res" where
  "parseTransactionSortDirection v =
     (if v = JUndef then Inr None
      else if v = JStr (js ''asc'') then Inr (Some Asc)
      else if v = JStr (js ''desc'') then Inr (Some Desc)
      else Inl (ledgerValidationError ''sortDirection''))"

definition parseQueryId :: "jobj \<Rightarrow> string \<Rightarrow> ustr option res" where
  "parseQueryId r key =
     (if \<not> hasOwn r key then Inr None
      else case jget r key of
        JStr s \<Rightarrow> if length s = 0 then Inl (ledgerValidationError key) else Inr (Some s)
      | _ \<Rightarrow> Inl (ledgerValidationError key))"

definition parseQuerySearch :: "jobj \<Rightarrow> ustr option res" where
  "parseQuerySearch r =
     (if \<not> hasOwn r ''search'' then Inr None
      else case jget r ''search'' of
        JStr s \<Rightarrow> Inr (if length (js_trim s) = 0 then None else Some (js_trim s))
      | _ \<Rightarrow> Inl (ledgerValidationError ''search''))"

definition parseQueryOffset :: "jobj \<Rightarrow> int option res" where
  "parseQueryOffset r =
     (if \<not> hasOwn r ''offset'' then Inr None
      else let numeric = (case jget r ''offset'' of
             JStr s \<Rightarrow> if isDigits s then numberOfText s else None
           | JInt n \<Rightarrow> Some n
           | _ \<Rightarrow> None)
        in case numeric of
          Some n \<Rightarrow> if \<not> is_safe n \<or> n < 0 then Inl (ledgerValidationError ''offset'') else Inr (Some n)
        | None \<Rightarrow> Inl (ledgerValidationError ''offset''))"

definition parseTrendMonths :: "jval \<Rightarrow> int res" where
  "parseTrendMonths v =
     (case v of
        JUndef \<Rightarrow> Inr 6
      | JStr s \<Rightarrow>
          if isPositiveDigits s
          then (case numberOfText s of
                  Some n \<Rightarrow> if \<not> is_safe n \<or> n < 1 then Inl (ledgerValidationError ''months'') else Inr n
                | None \<Rightarrow> Inl (ledgerValidationError ''months''))
          else Inl (ledgerValidationError ''months'')
      | _ \<Rightarrow> Inl (ledgerValidationError ''months''))"

definition parseAccountBalanceTrendRange :: "jval \<Rightarrow> int res" where
  "parseAccountBalanceTrendRange v =
     (case v of
        JUndef \<Rightarrow> Inr 30
      | JStr s \<Rightarrow>
          if isPositiveDigits s
          then (case numberOfText s of
                  Some n \<Rightarrow> if n \<in> {7, 30, 90, 365} then Inr n else Inl (ledgerValidationError ''range'')
                | None \<Rightarrow> Inl (ledgerValidationError ''range''))
          else Inl (ledgerValidationError ''range'')
      | _ \<Rightarrow> Inl (ledgerValidationError ''range''))"

datatype overview_scope = ScopeAll | ScopePeriod period_name

definition parseOverviewScope :: "jval \<Rightarrow> overview_scope res" where
  "parseOverviewScope v =
     (if v = JUndef \<or> v = JStr (js ''all'') then Inr ScopeAll
      else if v = JStr (js ''today'') then Inr (ScopePeriod PToday)
      else if v = JStr (js ''week'') then Inr (ScopePeriod PWeek)
      else if v = JStr (js ''month'') then Inr (ScopePeriod PMonth)
      else if v = JStr (js ''year'') then Inr (ScopePeriod PYear)
      else Inl (ledgerValidationError ''scope''))"

definition parseOverviewAnchorDate :: "runtime \<Rightarrow> jval \<Rightarrow> ustr option res" where
  "parseOverviewAnchorDate rt v =
     (if v = JUndef then Inr None
      else bindR (parseLedgerLocalDate rt v ''anchorDate'') (\<lambda>d. Inr (Some d)))"

definition isSupportedCurrencyCode :: "runtime \<Rightarrow> jval \<Rightarrow> bool" where
  "isSupportedCurrencyCode rt v =
     (case bindR (normalizeLedgerCurrencyCode rt v) (\<lambda>_. assertSupportedLedgerCurrency rt v) of
        Inl _ \<Rightarrow> False | Inr s \<Rightarrow> length s = 3)"

section \<open>What the parsers accept\<close>

lemma requireString_Inr [parse_simps]: "requireString r k = Inr s \<longleftrightarrow> jget r k = JStr s"
  by (auto simp: requireString_def split: jval.splits)

lemma js_trim_Nil [simp]: "js_trim [] = []"
  by (simp add: js_trim_def)

lemma requireNonEmptyId_Inr [parse_simps]:
  "requireNonEmptyId r k = Inr s \<longleftrightarrow> jget r k = JStr s \<and> js_trim s \<noteq> []"
proof (cases "requireString r k")
  case (Inr t)
  moreover from this have "jget r k = JStr t" by (simp add: requireString_Inr)
  ultimately show ?thesis by (cases "t = []") (auto simp: requireNonEmptyId_def)
qed (auto simp: requireNonEmptyId_def requireString_def split: jval.splits)

lemma validateLength_Inr [parse_simps]:
  "validateLength s k m n = Inr x \<longleftrightarrow> x = s \<and> m \<le> length s \<and> length s \<le> n"
  by (auto simp: validateLength_def)

lemma parseName_Inr [parse_simps]:
  "parseName r = Inr s \<longleftrightarrow> (\<exists>t. jget r ''name'' = JStr t \<and> s = js_trim t \<and> 1 \<le> length s \<and> length s \<le> 120)"
  by (auto simp: parseName_def bindR_eq_Inr requireString_Inr validateLength_Inr)

lemma parseSafeInteger_Inr [parse_simps]: "parseSafeInteger r k = Inr n \<longleftrightarrow> jget r k = JInt n \<and> is_safe n"
  by (auto simp: parseSafeInteger_def split: jval.splits)

lemma parseExpectedVersion_Inr [parse_simps]:
  "parseExpectedVersion r = Inr n \<longleftrightarrow> jget r ''expectedVersion'' = JInt n \<and> is_safe n \<and> 1 \<le> n"
  by (auto simp: parseExpectedVersion_def bindR_eq_Inr parseSafeInteger_Inr not_less)

lemma parseAmountMinor_Inr [parse_simps]:
  "parseAmountMinor r = Inr n \<longleftrightarrow> jget r ''amountMinor'' = JInt n \<and> is_safe n \<and> 0 < n"
  by (auto simp: parseAmountMinor_def parsePositiveInteger_def bindR_eq_Inr parseSafeInteger_Inr not_le)

lemma parseOccurredAt_Inr [parse_simps]:
  "parseOccurredAt rt r = Inr n \<longleftrightarrow> jget r ''occurredAt'' = JInt n \<and> utc_ok rt n"
  by (auto simp: parseOccurredAt_def bindR_eq_Inr parseSafeInteger_Inr utc_ok_def)

lemma parseOptionalFeeMinor_Inr [parse_simps]:
  "parseOptionalFeeMinor r = Inr v \<longleftrightarrow>
     (case v of None \<Rightarrow> \<not> hasOwn r ''feeMinor''
      | Some n \<Rightarrow> hasOwn r ''feeMinor'' \<and> jget r ''feeMinor'' = JInt n \<and> is_safe n \<and> 0 \<le> n)"
  by (auto simp: parseOptionalFeeMinor_def bindR_eq_Inr parseSafeInteger_Inr not_less split: option.splits)

lemma ifOwn_Inr [parse_simps]:
  "ifOwn r k p = Inr v \<longleftrightarrow> (case v of None \<Rightarrow> \<not> hasOwn r k | Some x \<Rightarrow> hasOwn r k \<and> p = Inr x)"
  by (auto simp: ifOwn_def bindR_eq_Inr split: option.splits)

lemma parseCurrencyField_Inr [parse_simps]:
  "parseCurrencyField rt r k = Inr c \<longleftrightarrow>
     (\<exists>s. jget r k = JStr s \<and> normalizeLedgerCurrencyCode rt (JStr s) = Inr c \<and> exponent_of c \<noteq> None)"
proof -
  have "assertSupportedLedgerCurrency rt (JStr s) = Inr c \<longleftrightarrow>
      normalizeLedgerCurrencyCode rt (JStr s) = Inr c \<and> exponent_of c \<noteq> None" for s
  proof
    assume "assertSupportedLedgerCurrency rt (JStr s) = Inr c"
    then show "normalizeLedgerCurrencyCode rt (JStr s) = Inr c \<and> exponent_of c \<noteq> None"
      by (auto simp: assertSupportedLedgerCurrency_def currencyExponentFor_def bindR_eq_Inr
          normalizeLedgerCurrencyCode_def Let_def normalize_code [unfolded normalizeLedgerCurrencyCode_def]
          js_trim_code upper_code isCurrencyCode_def split: option.splits if_splits)
  next
    assume n: "normalizeLedgerCurrencyCode rt (JStr s) = Inr c \<and> exponent_of c \<noteq> None"
    then have "isCurrencyCode c"
      by (auto simp: normalizeLedgerCurrencyCode_def Let_def split: if_splits)
    then show "assertSupportedLedgerCurrency rt (JStr s) = Inr c"
      using n by (auto simp: assertSupportedLedgerCurrency_def currencyExponentFor_def normalize_code)
  qed
  then show ?thesis by (auto simp: parseCurrencyField_def bindR_eq_Inr requireString_Inr)
qed

lemma normalize_is_code: "normalizeLedgerCurrencyCode rt v = Inr c \<Longrightarrow> isCurrencyCode c"
  by (auto simp: normalizeLedgerCurrencyCode_def Let_def split: jval.splits if_splits)

text \<open>What the server may rely on in a parsed request.\<close>

definition valid_entry_req :: "runtime \<Rightarrow> entry_req \<Rightarrow> bool" where
  "valid_entry_req rt q \<longleftrightarrow> is_safe (eq_amountMinor q) \<and> 0 < eq_amountMinor q
     \<and> js_trim (eq_accountId q) \<noteq> [] \<and> js_trim (eq_categoryId q) \<noteq> [] \<and> utc_ok rt (eq_occurredAt q)
     \<and> length (eq_location q) \<le> 200 \<and> length (eq_payee q) \<le> 200 \<and> length (eq_note q) \<le> 2000"

definition valid_transfer_req :: "runtime \<Rightarrow> transfer_req \<Rightarrow> bool" where
  "valid_transfer_req rt q \<longleftrightarrow> is_safe (tq_amountMinor q) \<and> 0 < tq_amountMinor q
     \<and> (case tq_feeMinor q of None \<Rightarrow> True | Some n \<Rightarrow> is_safe n \<and> 0 \<le> n)
     \<and> js_trim (tq_fromAccountId q) \<noteq> [] \<and> js_trim (tq_toAccountId q) \<noteq> [] \<and> utc_ok rt (tq_occurredAt q)
     \<and> length (tq_location q) \<le> 200 \<and> length (tq_payee q) \<le> 200 \<and> length (tq_note q) \<le> 2000"

definition valid_adjustment_req :: "runtime \<Rightarrow> adjustment_req \<Rightarrow> bool" where
  "valid_adjustment_req rt q \<longleftrightarrow> is_safe (jq_targetBalanceMinor q)
     \<and> is_safe (jq_expectedCalculatedBalanceMinor q) \<and> utc_ok rt (jq_occurredAt q)
     \<and> length (jq_note q) \<le> 2000"

primrec valid_tx_req :: "runtime \<Rightarrow> tx_req \<Rightarrow> bool" where
  "valid_tx_req rt (IncomeReq q) = valid_entry_req rt q"
| "valid_tx_req rt (ExpenseReq q) = valid_entry_req rt q"
| "valid_tx_req rt (TransferReq q) = valid_transfer_req rt q"
| "valid_tx_req rt (AdjustmentReq i q) \<longleftrightarrow> js_trim i \<noteq> [] \<and> valid_adjustment_req rt q"

definition valid_account_req :: "runtime \<Rightarrow> account_req \<Rightarrow> bool" where
  "valid_account_req rt q \<longleftrightarrow> js_trim (aq_name q) = aq_name q \<and> aq_name q \<noteq> [] \<and> length (aq_name q) \<le> 120
     \<and> (case aq_icon q of None \<Rightarrow> True | Some s \<Rightarrow> icon_check s)
     \<and> is_safe (aq_openingBalanceMinor q) \<and> isLocalDateShape (aq_openingDate q)
     \<and> date_from rt (aq_openingDate q) \<noteq> None
     \<and> isCurrencyCode (aq_currency q) \<and> exponent_of (aq_currency q) \<noteq> None
     \<and> length (aq_note q) \<le> 2000 \<and> length (aq_cardNumber q) \<le> 64"

lemma parseNote_len: "parseNote r = Inr s \<Longrightarrow> length s \<le> 2000"
  by (auto simp: parseNote_def bindR_eq_Inr validateLength_Inr)

lemma parseLocation_len: "parseLocation r = Inr s \<Longrightarrow> length s \<le> 200"
  by (auto simp: parseLocation_def bindR_eq_Inr validateLength_Inr)

lemma parsePayee_len: "parsePayee r = Inr s \<Longrightarrow> length s \<le> 200"
  by (auto simp: parsePayee_def bindR_eq_Inr validateLength_Inr)

lemma parseCardNumber_len: "parseCardNumber r = Inr s \<Longrightarrow> length s \<le> 64"
  by (auto simp: parseCardNumber_def bindR_eq_Inr validateLength_Inr)

lemma parseAccountIcon_check: "parseAccountIcon r = Inr s \<Longrightarrow> icon_check s"
proof -
  assume "parseAccountIcon r = Inr s"
  then consider "s \<in> set LEDGER_ACCOUNT_ICONS" | "isCustomIcon s"
    by (auto simp: parseAccountIcon_def bindR_eq_Inr split: if_splits)
  then show ?thesis
  proof cases
    case 1
    then show ?thesis by (auto simp: LEDGER_ACCOUNT_ICONS_def icon_check_def)
  next
    case 2
    then have t: "take 7 s = js ''custom_''" "drop 7 s \<noteq> []" by (auto simp: isCustomIcon_def)
    have "take 6 s = take 6 (take 7 s)" by simp
    then have "take 6 s = take 6 (js ''custom_'')" using t(1) by simp
    moreover have "map ascii_lower (take 6 (js ''custom_'')) = js ''custom''"
      by (simp add: js_def ascii_lower_def)
    ultimately have "map ascii_lower (take 6 s) = js ''custom''" by simp
    then show ?thesis using t(2) by (simp add: icon_check_def)
  qed
qed

lemmas request_lengths = parseNote_len parseLocation_len parsePayee_len parseCardNumber_len

lemma entry_req_valid: "parseIncomeOrExpenseCreate rt v ty = Inr q \<Longrightarrow> valid_entry_req rt q"
  unfolding parseIncomeOrExpenseCreate_def
  by (elim bindR_InrE) (auto simp: parse_simps valid_entry_req_def dest: request_lengths)

lemma transfer_req_valid: "parseTransferCreate rt v = Inr q \<Longrightarrow> valid_transfer_req rt q"
  unfolding parseTransferCreate_def
proof (elim bindR_InrE)
  fix r kind amount fee mode src dst occurred loc payee nt
  assume p: "parseAmountMinor r = Inr amount" "parseOptionalFeeMinor r = Inr fee"
    "requireNonEmptyId r ''fromAccountId'' = Inr src" "requireNonEmptyId r ''toAccountId'' = Inr dst"
    "parseOccurredAt rt r = Inr occurred" "parseLocation r = Inr loc" "parsePayee r = Inr payee"
    "parseNote r = Inr nt"
    and q: "Inr \<lparr>tq_transferKind = kind, tq_amountMinor = amount, tq_feeMinor = fee, tq_feeMode = mode,
          tq_fromAccountId = src, tq_toAccountId = dst, tq_occurredAt = occurred,
          tq_location = loc, tq_payee = payee, tq_note = nt\<rparr> = Inr q"
  have "case fee of None \<Rightarrow> True | Some n \<Rightarrow> is_safe n \<and> 0 \<le> n"
    using p(2) by (auto simp: parseOptionalFeeMinor_Inr split: option.splits)
  with p(1,3,4,5) q parseLocation_len [OF p(6)] parsePayee_len [OF p(7)] parseNote_len [OF p(8)]
  show "valid_transfer_req rt q"
    by (auto simp: valid_transfer_req_def parseAmountMinor_Inr requireNonEmptyId_Inr parseOccurredAt_Inr)
qed

lemma adjustment_fields_valid: "parseAdjustmentFields rt r = Inr q \<Longrightarrow> valid_adjustment_req rt q"
  unfolding parseAdjustmentFields_def
  by (elim bindR_InrE) (auto simp: parse_simps valid_adjustment_req_def dest: request_lengths)

lemma adjustment_create_valid:
  "parseAdjustmentCreate rt v = Inr (i, q) \<Longrightarrow> js_trim i \<noteq> [] \<and> valid_adjustment_req rt q"
  unfolding parseAdjustmentCreate_def
  by (elim bindR_InrE) (auto simp: parse_simps dest: adjustment_fields_valid)

lemma tx_req_valid: "parseTransactionCreateRequest rt v = Inr q \<Longrightarrow> valid_tx_req rt q"
  unfolding parseTransactionCreateRequest_def
proof (elim bindR_InrE)
  fix r ty
  assume q: "(case ty of
       TIncome \<Rightarrow> bindR (parseIncomeOrExpenseCreate rt v TIncome) (\<lambda>q. Inr (IncomeReq q))
     | TExpense \<Rightarrow> bindR (parseIncomeOrExpenseCreate rt v TExpense) (\<lambda>q. Inr (ExpenseReq q))
     | TTransfer \<Rightarrow> bindR (parseTransferCreate rt v) (\<lambda>q. Inr (TransferReq q))
     | TAdjustment \<Rightarrow> bindR (parseAdjustmentCreate rt v) (\<lambda>(acct, q). Inr (AdjustmentReq acct q))) = Inr q"
  then show "valid_tx_req rt q"
    by (cases ty) (auto simp: bindR_eq_Inr dest: entry_req_valid transfer_req_valid adjustment_create_valid)
qed

lemma parseName_ok:
  "parseName r = Inr s \<Longrightarrow> js_trim s = s \<and> s \<noteq> [] \<and> length s \<le> 120"
  by (auto simp: parseName_Inr)

lemma parseCurrencyField_ok:
  "parseCurrencyField rt r k = Inr c \<Longrightarrow> isCurrencyCode c \<and> exponent_of c \<noteq> None"
  by (auto simp: parseCurrencyField_Inr dest: normalize_is_code)

lemma account_req_valid: "parseAccountCreateRequest rt v = Inr q \<Longrightarrow> valid_account_req rt q"
  unfolding parseAccountCreateRequest_def
proof (elim bindR_InrE)
  fix r nm ty nature icon open_bal openingDate cur nt card d
  assume p: "parseName r = Inr nm" "ifOwn r ''icon'' (parseAccountIcon r) = Inr icon"
    "parseSafeInteger r ''openingBalanceMinor'' = Inr open_bal"
    "assertOpeningDate rt (JStr d) = Inr openingDate"
    "parseCurrencyField rt r ''currency'' = Inr cur" "parseNote r = Inr nt" "parseCardNumber r = Inr card"
    and q: "Inr \<lparr>aq_name = nm, aq_type = ty, aq_nature = nature, aq_icon = icon,
          aq_openingBalanceMinor = open_bal, aq_openingDate = openingDate, aq_currency = cur,
          aq_note = nt, aq_cardNumber = card\<rparr> = Inr q"
  have "case icon of None \<Rightarrow> True | Some s \<Rightarrow> icon_check s"
    using p(2) by (auto simp: ifOwn_Inr dest: parseAccountIcon_check split: option.splits)
  with p q parseName_ok [OF p(1)] parseCurrencyField_ok [OF p(5)] parseNote_len [OF p(6)]
    parseCardNumber_len [OF p(7)]
  show "valid_account_req rt q"
    by (auto simp: valid_account_req_def parseSafeInteger_Inr)
qed

text \<open>
  Property C34. A request that the transaction parser lets through is one the service may trust:
  a positive safe amount, a non-negative safe fee, non-blank identifiers, an instant in the
  supported range and bounded texts, for each of the four request shapes.
\<close>

theorem parsed_transactions_valid:
  assumes "parseTransactionCreateRequest rt v = Inr q"
  shows "valid_tx_req rt q"
  by (rule tx_req_valid [OF assms])

definition demo_request :: jobj where
  "demo_request = [(js ''type'', JStr (js ''expense'')), (js ''amountMinor'', JInt 200),
     (js ''accountId'', JStr (js ''acc'')), (js ''categoryId'', JStr (js ''cat'')),
     (js ''occurredAt'', JInt 0)]"

lemma demo_request_cols:
  "jget demo_request ''type'' = JStr (js ''expense'')" "jget demo_request ''amountMinor'' = JInt 200"
  "jget demo_request ''accountId'' = JStr (js ''acc'')" "jget demo_request ''categoryId'' = JStr (js ''cat'')"
  "jget demo_request ''occurredAt'' = JInt 0"
  "\<not> hasOwn demo_request ''location''" "\<not> hasOwn demo_request ''payee''" "\<not> hasOwn demo_request ''note''"
  by (simp_all add: demo_request_def)

lemma demo_ids: "js_trim (js ''acc'') \<noteq> []" "js_trim (js ''cat'') \<noteq> []"
  by (simp_all add: js_def js_trim_def js_space_def)

theorem parsed_transactions_valid_witness:
  "parseTransactionCreateRequest demo_runtime (JObj demo_request) = Inr (ExpenseReq
     \<lparr>eq_amountMinor = 200, eq_accountId = js ''acc'', eq_categoryId = js ''cat'', eq_occurredAt = 0,
      eq_location = [], eq_payee = [], eq_note = []\<rparr>)
   \<and> valid_tx_req demo_runtime (ExpenseReq
     \<lparr>eq_amountMinor = 200, eq_accountId = js ''acc'', eq_categoryId = js ''cat'', eq_occurredAt = 0,
      eq_location = [], eq_payee = [], eq_note = []\<rparr>)"
proof -
  have ty: "parseTransactionType demo_request = Inr TExpense"
    by (simp add: parseTransactionType_def parseEnum_def requireString_def demo_request_cols)
  have keys: "assertExactKeys demo_request
       [''type'', ''amountMinor'', ''accountId'', ''categoryId'', ''occurredAt'', ''location'', ''payee'', ''note'']
       [''type'', ''amountMinor'', ''accountId'', ''categoryId'', ''occurredAt''] = Inr ()"
    by (simp add: assertExactKeys_def demo_request_def)
  have fields: "parseAmountMinor demo_request = Inr 200"
    "requireNonEmptyId demo_request ''accountId'' = Inr (js ''acc'')"
    "requireNonEmptyId demo_request ''categoryId'' = Inr (js ''cat'')"
    "parseOccurredAt demo_runtime demo_request = Inr 0"
    by (simp_all add: parse_simps demo_request_cols demo_ids is_safe_def MAX_SAFE_def utc_ok_def demo_runtime_def)
  have texts: "parseLocation demo_request = Inr []" "parsePayee demo_request = Inr []"
    "parseNote demo_request = Inr []"
    by (simp_all add: parseLocation_def parsePayee_def parseNote_def optionalString_def
        validateLength_def demo_request_cols)
  have p: "parseTransactionCreateRequest demo_runtime (JObj demo_request) = Inr (ExpenseReq
     \<lparr>eq_amountMinor = 200, eq_accountId = js ''acc'', eq_categoryId = js ''cat'', eq_occurredAt = 0,
      eq_location = [], eq_payee = [], eq_note = []\<rparr>)"
    by (simp add: parseTransactionCreateRequest_def asRecord_def ty parseIncomeOrExpenseCreate_def keys
        fields texts)
  with parsed_transactions_valid [OF p] show ?thesis by simp
qed

end
