(* ===== verification/LedgerIdempotency.thy ===== *)
theory LedgerIdempotency
  imports LedgerValidation LedgerRepository
begin

text \<open>
  Idempotent creation (server/ledger/idempotency.ts): the stable serialization of JSON values, the
  fingerprint of a request, the closed set of response bodies that may be stored for replay, and
  \<open>executeIdempotentLedgerCreate\<close>, which runs a mutation once per operation scope and key. SHA-256
  is a parameter; the values are JSON data, so the checks for accessors, symbols, cycles and
  sparse arrays have nothing to reject.
\<close>

section \<open>Stable serialization\<close>

definition hex_digit :: "nat \<Rightarrow> nat" where
  "hex_digit d = (if d < 10 then 48 + d else 87 + d)"

definition unicode_escape :: "nat \<Rightarrow> ustr" where
  "unicode_escape c = [92, 117, hex_digit (c div 4096 mod 16), hex_digit (c div 256 mod 16),
     hex_digit (c div 16 mod 16), hex_digit (c mod 16)]"

text \<open>One code unit in \<open>JSON.stringify\<close> of a string; an unpaired surrogate is escaped.\<close>

definition json_unit :: "nat \<Rightarrow> ustr" where
  "json_unit c =
     (if c = 34 then [92, 34] else if c = 92 then [92, 92]
      else if c = 8 then [92, 98] else if c = 9 then [92, 116] else if c = 10 then [92, 110]
      else if c = 12 then [92, 102] else if c = 13 then [92, 114]
      else if c < 32 \<or> (55296 \<le> c \<and> c \<le> 57343) then unicode_escape c
      else [c])"

fun json_units :: "ustr \<Rightarrow> ustr" where
  "json_units (h # l # s) =
     (if 55296 \<le> h \<and> h \<le> 56319 \<and> 56320 \<le> l \<and> l \<le> 57343
      then h # l # json_units s else json_unit h @ json_units (l # s))"
| "json_units [c] = json_unit c"
| "json_units [] = []"

definition json_quote :: "ustr \<Rightarrow> ustr" where
  "json_quote s = [34] @ json_units s @ [34]"

fun join_comma :: "ustr list \<Rightarrow> ustr" where
  "join_comma [] = []"
| "join_comma [x] = x"
| "join_comma (x # xs) = x @ [44] @ join_comma xs"

function serializeLedgerJsonValue :: "jval \<Rightarrow> ustr res" where
  "serializeLedgerJsonValue JUndef = Inl TypeErr"
| "serializeLedgerJsonValue JNull = Inr (js ''null'')"
| "serializeLedgerJsonValue (JBool b) = Inr (if b then js ''true'' else js ''false'')"
| "serializeLedgerJsonValue (JInt n) = Inr (int_text n)"
| "serializeLedgerJsonValue (JFloat t) =
     (if t \<in> {js ''NaN'', js ''Infinity'', js ''-Infinity''} then Inl TypeErr else Inr t)"
| "serializeLedgerJsonValue (JStr s) = Inr (json_quote s)"
| "serializeLedgerJsonValue (JArr xs) =
     bindR (mapR serializeLedgerJsonValue xs) (\<lambda>items. Inr ([91] @ join_comma items @ [93]))"
| "serializeLedgerJsonValue (JObj ps) =
     bindR (mapR (\<lambda>(k, v). bindR (serializeLedgerJsonValue v) (\<lambda>t. Inr (json_quote k @ [58] @ t)))
       (sort_key fst ps)) (\<lambda>items. Inr ([123] @ join_comma items @ [125]))"
  by pat_completeness auto
termination
proof (relation "measure size", goal_cases)
  case (2 xs x)
  then show ?case by (simp add: size_list_estimation' less_Suc_eq_le)
next
  case (3 ps z k v)
  then have "(k, v) \<in> set ps" by simp
  then have "size v \<le> size_list (size_prod (\<lambda>_. 0) size) ps"
    by (induction ps) auto
  then show ?case using 3 by simp
qed simp

definition stableSerializeLedgerJson :: "jval \<Rightarrow> ustr res" where
  "stableSerializeLedgerJson v = serializeLedgerJsonValue v"

section \<open>The closed set of replayable response bodies\<close>

text \<open>
  Every rejection is the same \<open>TypeError\<close>. An accepted body is returned, because the check of a
  transaction completes snapshots that were taken before two of its fields existed.
\<close>

definition LEDGER_SETTINGS_REPLAY_KEYS :: "string list" where
  "LEDGER_SETTINGS_REPLAY_KEYS = [''baseCurrency'', ''currencyExponent'', ''timezone'',
     ''hasCreatedAccount'', ''version'', ''createdAt'', ''updatedAt'', ''accountIcons'']"

definition LEDGER_ACCOUNT_REPLAY_KEYS :: "string list" where
  "LEDGER_ACCOUNT_REPLAY_KEYS = [''id'', ''name'', ''type'', ''nature'', ''openingBalanceMinor'',
     ''openingDate'', ''currency'', ''currencyExponent'', ''note'', ''archivedAt'', ''version'',
     ''createdAt'', ''updatedAt'', ''currentBalanceMinor'']"

definition LEDGER_CATEGORY_REPLAY_KEYS :: "string list" where
  "LEDGER_CATEGORY_REPLAY_KEYS = [''id'', ''kind'', ''name'', ''normalizedName'', ''archivedAt'',
     ''version'', ''createdAt'', ''updatedAt'']"

definition LEDGER_TRANSACTION_BASE_REPLAY_KEYS :: "string list" where
  "LEDGER_TRANSACTION_BASE_REPLAY_KEYS = [''id'', ''groupId'', ''type'', ''amountMinor'',
     ''occurredAt'', ''location'', ''note'', ''deletedAt'', ''version'', ''createdAt'',
     ''updatedAt'', ''excludedFromStatistics'']"

definition LEDGER_INCOME_REPLAY_KEYS :: "string list" where
  "LEDGER_INCOME_REPLAY_KEYS =
     LEDGER_TRANSACTION_BASE_REPLAY_KEYS @ [''accountId'', ''categoryId'', ''payee'']"

definition LEDGER_EXPENSE_REPLAY_KEYS :: "string list" where
  "LEDGER_EXPENSE_REPLAY_KEYS =
     LEDGER_TRANSACTION_BASE_REPLAY_KEYS @ [''accountId'', ''categoryId'', ''payee'']"

definition LEDGER_TRANSFER_REPLAY_KEYS :: "string list" where
  "LEDGER_TRANSFER_REPLAY_KEYS = LEDGER_TRANSACTION_BASE_REPLAY_KEYS
     @ [''transferKind'', ''feeMode'', ''fromAccountId'', ''toAccountId'', ''payee'']"

definition LEDGER_ADJUSTMENT_REPLAY_KEYS :: "string list" where
  "LEDGER_ADJUSTMENT_REPLAY_KEYS = LEDGER_TRANSACTION_BASE_REPLAY_KEYS
     @ [''accountId'', ''adjustmentCalculatedBalanceMinor'', ''adjustmentTargetBalanceMinor'']"

definition transactionReplayKeys :: "jobj \<Rightarrow> string list \<Rightarrow> string list" where
  "transactionReplayKeys obj keys =
     filter (\<lambda>k. if k = ''location'' \<or> k = ''groupId'' \<or> k = ''feeMode'' then hasOwn obj k else True) keys"

definition LEDGER_ADJUSTMENT_MUTATION_REPLAY_KEYS :: "string list" where
  "LEDGER_ADJUSTMENT_MUTATION_REPLAY_KEYS = [''adjustment'', ''account'', ''noOp'']"

definition replayDataObject :: "jval \<Rightarrow> jobj res" where
  "replayDataObject v = (case v of JObj obj \<Rightarrow> Inr obj | _ \<Rightarrow> Inl TypeErr)"

definition replayExactObject :: "jval \<Rightarrow> string list \<Rightarrow> jobj res" where
  "replayExactObject v expectedKeys =
     bindR (replayDataObject v) (\<lambda>obj.
       if length obj \<noteq> length expectedKeys \<or> list_ex (\<lambda>k. \<not> hasOwn obj k) expectedKeys
       then Inl TypeErr else Inr obj)"

definition replayCheck :: "bool \<Rightarrow> unit res" where
  "replayCheck c = checkR c TypeErr"

definition assertReplayString :: "jval \<Rightarrow> unit res" where
  "assertReplayString v = replayCheck (case v of JStr _ \<Rightarrow> True | _ \<Rightarrow> False)"

definition assertReplayBoolean :: "jval \<Rightarrow> unit res" where
  "assertReplayBoolean v = replayCheck (case v of JBool _ \<Rightarrow> True | _ \<Rightarrow> False)"

definition assertReplaySafeInteger :: "jval \<Rightarrow> unit res" where
  "assertReplaySafeInteger v = replayCheck (case v of JInt n \<Rightarrow> is_safe n | _ \<Rightarrow> False)"

definition assertReplayPositiveSafeInteger :: "jval \<Rightarrow> unit res" where
  "assertReplayPositiveSafeInteger v =
     bindR (assertReplaySafeInteger v) (\<lambda>_.
     replayCheck (case v of JInt n \<Rightarrow> \<not> n \<le> 0 | _ \<Rightarrow> False))"

definition assertReplayNullableSafeInteger :: "jval \<Rightarrow> unit res" where
  "assertReplayNullableSafeInteger v = (if v = JNull then Inr () else assertReplaySafeInteger v)"

definition assertReplayEnum :: "jval \<Rightarrow> string list \<Rightarrow> unit res" where
  "assertReplayEnum v allowed = replayCheck (v \<in> set (map (\<lambda>k. JStr (js k)) allowed))"

text \<open>
  The icon is tested without a type check: \<open>RegExp.test\<close> converts it to text, so an array of one
  text passes with its element. Every other value is converted to a text that does not match.
\<close>

fun iconText :: "jval \<Rightarrow> ustr" where
  "iconText (JStr s) = s"
| "iconText (JArr [x]) = iconText x"
| "iconText _ = []"

definition replayIcon :: "jval \<Rightarrow> unit res" where
  "replayIcon v = replayCheck
     (v \<in> set (map (\<lambda>k. JStr (js k))
        [''wallet'', ''credit_card'', ''cash'', ''building_bank'', ''briefcase''])
      \<or> isCustomIcon (iconText v))"

definition ifReplayKey :: "jobj \<Rightarrow> string \<Rightarrow> (jval \<Rightarrow> unit res) \<Rightarrow> unit res" where
  "ifReplayKey obj k check = (if hasOwn obj k then check (jget obj k) else Inr ())"

definition hasOwnValue :: "jval \<Rightarrow> string \<Rightarrow> bool" where
  "hasOwnValue v k = (case v of JObj obj \<Rightarrow> hasOwn obj k | _ \<Rightarrow> False)"

definition replayIconConfig :: "jval \<Rightarrow> unit res" where
  "replayIconConfig v =
     (case v of
        JUndef \<Rightarrow> Inr ()
      | JObj config \<Rightarrow> replayCheck
          ((case jget config ''defaultIcon'' of JStr _ \<Rightarrow> True | _ \<Rightarrow> False)
           \<and> (case jget config ''availableIcons'' of JArr _ \<Rightarrow> True | _ \<Rightarrow> False)
           \<and> (case jget config ''customIcons'' of JObj _ \<Rightarrow> True | JArr _ \<Rightarrow> True | _ \<Rightarrow> False)
           \<and> (case jget config ''customIconNames'' of JObj _ \<Rightarrow> True | JArr _ \<Rightarrow> True | _ \<Rightarrow> False))
      | _ \<Rightarrow> Inl TypeErr)"

definition assertLedgerSettingsReplayBody :: "jval \<Rightarrow> jval res" where
  "assertLedgerSettingsReplayBody v =
     bindR (replayExactObject v
       (if hasOwnValue v ''accountIcons'' then LEDGER_SETTINGS_REPLAY_KEYS
        else filter (\<lambda>k. k \<noteq> ''accountIcons'') LEDGER_SETTINGS_REPLAY_KEYS)) (\<lambda>obj.
     bindR (assertReplayString (jget obj ''baseCurrency'')) (\<lambda>_.
     bindR (assertReplaySafeInteger (jget obj ''currencyExponent'')) (\<lambda>_.
     bindR (assertReplayString (jget obj ''timezone'')) (\<lambda>_.
     bindR (assertReplayBoolean (jget obj ''hasCreatedAccount'')) (\<lambda>_.
     bindR (assertReplayPositiveSafeInteger (jget obj ''version'')) (\<lambda>_.
     bindR (assertReplaySafeInteger (jget obj ''createdAt'')) (\<lambda>_.
     bindR (assertReplaySafeInteger (jget obj ''updatedAt'')) (\<lambda>_.
     bindR (replayIconConfig (jget obj ''accountIcons'')) (\<lambda>_. Inr v)))))))))"

definition assertLedgerAccountReplayBody :: "jval \<Rightarrow> jval res" where
  "assertLedgerAccountReplayBody v =
     bindR (replayExactObject v
       (if hasOwnValue v ''icon''
        then LEDGER_ACCOUNT_REPLAY_KEYS @ [''icon'']
               @ (if hasOwnValue v ''cardNumber'' then [''cardNumber''] else [])
        else if hasOwnValue v ''cardNumber'' then LEDGER_ACCOUNT_REPLAY_KEYS @ [''cardNumber'']
        else LEDGER_ACCOUNT_REPLAY_KEYS)) (\<lambda>obj.
     bindR (assertReplayString (jget obj ''id'')) (\<lambda>_.
     bindR (assertReplayString (jget obj ''name'')) (\<lambda>_.
     bindR (assertReplayEnum (jget obj ''type'')
       [''cash'', ''bank'', ''wallet'', ''credit_card'', ''loan'', ''other'']) (\<lambda>_.
     bindR (assertReplayEnum (jget obj ''nature'') [''asset'', ''liability'']) (\<lambda>_.
     bindR (ifReplayKey obj ''icon'' replayIcon) (\<lambda>_.
     bindR (assertReplaySafeInteger (jget obj ''openingBalanceMinor'')) (\<lambda>_.
     bindR (assertReplayString (jget obj ''openingDate'')) (\<lambda>_.
     bindR (assertReplayString (jget obj ''currency'')) (\<lambda>_.
     bindR (assertReplaySafeInteger (jget obj ''currencyExponent'')) (\<lambda>_.
     bindR (assertReplayString (jget obj ''note'')) (\<lambda>_.
     bindR (ifReplayKey obj ''cardNumber'' assertReplayString) (\<lambda>_.
     bindR (assertReplayNullableSafeInteger (jget obj ''archivedAt'')) (\<lambda>_.
     bindR (assertReplayPositiveSafeInteger (jget obj ''version'')) (\<lambda>_.
     bindR (assertReplaySafeInteger (jget obj ''createdAt'')) (\<lambda>_.
     bindR (assertReplaySafeInteger (jget obj ''updatedAt'')) (\<lambda>_.
     bindR (assertReplaySafeInteger (jget obj ''currentBalanceMinor'')) (\<lambda>_.
     Inr v)))))))))))))))))"

definition assertLedgerCategoryReplayBody :: "jval \<Rightarrow> jval res" where
  "assertLedgerCategoryReplayBody v =
     bindR (replayExactObject v (LEDGER_CATEGORY_REPLAY_KEYS
       @ (if hasOwnValue v ''icon'' then [''icon''] else [])
       @ (if hasOwnValue v ''systemKey'' then [''systemKey''] else [])
       @ (if hasOwnValue v ''protected'' then [''protected''] else []))) (\<lambda>obj.
     bindR (assertReplayString (jget obj ''id'')) (\<lambda>_.
     bindR (assertReplayEnum (jget obj ''kind'') [''income'', ''expense'']) (\<lambda>_.
     bindR (assertReplayString (jget obj ''name'')) (\<lambda>_.
     bindR (assertReplayString (jget obj ''normalizedName'')) (\<lambda>_.
     bindR (ifReplayKey obj ''systemKey'' (\<lambda>x. assertReplayEnum x [''interest'', ''fee''])) (\<lambda>_.
     bindR (ifReplayKey obj ''protected'' assertReplayBoolean) (\<lambda>_.
     bindR (ifReplayKey obj ''icon'' replayIcon) (\<lambda>_.
     bindR (assertReplayNullableSafeInteger (jget obj ''archivedAt'')) (\<lambda>_.
     bindR (assertReplayPositiveSafeInteger (jget obj ''version'')) (\<lambda>_.
     bindR (assertReplaySafeInteger (jget obj ''createdAt'')) (\<lambda>_.
     bindR (assertReplaySafeInteger (jget obj ''updatedAt'')) (\<lambda>_. Inr v))))))))))))"

definition assertLedgerTransactionBaseReplayBody :: "jobj \<Rightarrow> unit res" where
  "assertLedgerTransactionBaseReplayBody obj =
     bindR (assertReplayString (jget obj ''id'')) (\<lambda>_.
     bindR (ifReplayKey obj ''groupId'' assertReplayString) (\<lambda>_.
     bindR (assertReplaySafeInteger (jget obj ''amountMinor'')) (\<lambda>_.
     bindR (assertReplaySafeInteger (jget obj ''occurredAt'')) (\<lambda>_.
     bindR (ifReplayKey obj ''location'' assertReplayString) (\<lambda>_.
     bindR (assertReplayString (jget obj ''note'')) (\<lambda>_.
     bindR (assertReplayNullableSafeInteger (jget obj ''deletedAt'')) (\<lambda>_.
     bindR (assertReplayPositiveSafeInteger (jget obj ''version'')) (\<lambda>_.
     bindR (assertReplaySafeInteger (jget obj ''createdAt'')) (\<lambda>_.
     bindR (assertReplaySafeInteger (jget obj ''updatedAt'')) (\<lambda>_.
     assertReplayBoolean (jget obj ''excludedFromStatistics'')))))))))))"

text \<open>The cases \<open>income\<close> and \<open>expense\<close>, which differ in the label of their messages only.\<close>

definition replayEntryBody :: "jobj \<Rightarrow> string list \<Rightarrow> unit res" where
  "replayEntryBody obj keys =
     bindR (replayExactObject (JObj obj) (transactionReplayKeys obj keys)) (\<lambda>_.
     bindR (assertLedgerTransactionBaseReplayBody obj) (\<lambda>_.
     bindR (assertReplayString (jget obj ''accountId'')) (\<lambda>_.
     bindR (assertReplayString (jget obj ''categoryId'')) (\<lambda>_.
     assertReplayString (jget obj ''payee'')))))"

definition replayTransferBody :: "jobj \<Rightarrow> unit res" where
  "replayTransferBody obj =
     bindR (replayExactObject (JObj obj) (transactionReplayKeys obj
       (if hasOwn obj ''payee'' then LEDGER_TRANSFER_REPLAY_KEYS
        else filter (\<lambda>k. k \<noteq> ''payee'') LEDGER_TRANSFER_REPLAY_KEYS))) (\<lambda>_.
     bindR (assertReplayEnum (jget obj ''transferKind'') [''general'', ''repayment'', ''withdrawal'']) (\<lambda>_.
     bindR (ifReplayKey obj ''feeMode'' (\<lambda>x. assertReplayEnum x [''extra'', ''deducted''])) (\<lambda>_.
     bindR (assertLedgerTransactionBaseReplayBody obj) (\<lambda>_.
     bindR (assertReplayString (jget obj ''fromAccountId'')) (\<lambda>_.
     bindR (assertReplayString (jget obj ''toAccountId'')) (\<lambda>_.
     ifReplayKey obj ''payee'' assertReplayString))))))"

definition replayAdjustmentBody :: "jobj \<Rightarrow> unit res" where
  "replayAdjustmentBody obj =
     bindR (replayExactObject (JObj obj) (transactionReplayKeys obj LEDGER_ADJUSTMENT_REPLAY_KEYS)) (\<lambda>_.
     bindR (assertLedgerTransactionBaseReplayBody obj) (\<lambda>_.
     bindR (assertReplayString (jget obj ''accountId'')) (\<lambda>_.
     bindR (assertReplaySafeInteger (jget obj ''adjustmentCalculatedBalanceMinor'')) (\<lambda>_.
     assertReplaySafeInteger (jget obj ''adjustmentTargetBalanceMinor'')))))"

text \<open>A property assigned to an object that lacks it is appended to its properties.\<close>

definition withDefault :: "string \<Rightarrow> jval \<Rightarrow> jobj \<Rightarrow> jobj" where
  "withDefault k v obj = (if hasOwn obj k then obj else obj @ [(js k, v)])"

definition assertLedgerTransactionReplayBody :: "jval \<Rightarrow> jval res" where
  "assertLedgerTransactionReplayBody v =
     bindR (replayDataObject v) (\<lambda>raw.
     let obj = withDefault ''excludedFromStatistics'' (JBool False) raw; typ = jget obj ''type'' in
     if typ = JStr (js ''income'')
     then bindR (replayEntryBody obj LEDGER_INCOME_REPLAY_KEYS) (\<lambda>_. Inr (JObj obj))
     else if typ = JStr (js ''expense'')
     then bindR (replayEntryBody obj LEDGER_EXPENSE_REPLAY_KEYS) (\<lambda>_. Inr (JObj obj))
     else if typ = JStr (js ''transfer'')
     then let tr = withDefault ''transferKind'' (JStr (js ''general'')) obj in
          bindR (replayTransferBody tr) (\<lambda>_. Inr (JObj tr))
     else if typ = JStr (js ''adjustment'')
     then bindR (replayAdjustmentBody obj) (\<lambda>_. Inr (JObj obj))
     else Inl TypeErr)"

definition assertLedgerAdjustmentReplayBody :: "jval \<Rightarrow> jval res" where
  "assertLedgerAdjustmentReplayBody v =
     bindR (assertLedgerTransactionReplayBody v) (\<lambda>body.
     bindR (replayDataObject body) (\<lambda>obj.
     if jget obj ''type'' \<noteq> JStr (js ''adjustment'') then Inl TypeErr else Inr body))"

definition assignProperty :: "string \<Rightarrow> jval \<Rightarrow> jobj \<Rightarrow> jobj" where
  "assignProperty k v obj = map (\<lambda>(q, w). (q, if q = js k then v else w)) obj"

definition assertLedgerAdjustmentMutationReplayBody :: "jval \<Rightarrow> jval res" where
  "assertLedgerAdjustmentMutationReplayBody v =
     bindR (replayExactObject v LEDGER_ADJUSTMENT_MUTATION_REPLAY_KEYS) (\<lambda>obj.
     bindR (assertReplayBoolean (jget obj ''noOp'')) (\<lambda>_.
     bindR (assertLedgerAccountReplayBody (jget obj ''account'')) (\<lambda>_.
     if jget obj ''noOp'' = JBool True
     then (if jget obj ''adjustment'' \<noteq> JNull then Inl TypeErr else Inr v)
     else bindR (assertLedgerAdjustmentReplayBody (jget obj ''adjustment'')) (\<lambda>adj.
       Inr (JObj (assignProperty ''adjustment'' adj obj))))))"

definition assertLedgerReplayResponseBody :: "jval \<Rightarrow> jval res" where
  "assertLedgerReplayResponseBody v =
     bindR (replayDataObject v) (\<lambda>obj.
     if hasOwn obj ''noOp'' \<or> hasOwn obj ''adjustment'' then assertLedgerAdjustmentMutationReplayBody v
     else if hasOwn obj ''currentBalanceMinor'' then assertLedgerAccountReplayBody v
     else if hasOwn obj ''type'' then assertLedgerTransactionReplayBody v
     else if hasOwn obj ''normalizedName'' then assertLedgerCategoryReplayBody v
     else if hasOwn obj ''baseCurrency'' then assertLedgerSettingsReplayBody v
     else Inl TypeErr)"

definition isLedgerAdjustmentNoOpReplayBody :: "jval \<Rightarrow> bool" where
  "isLedgerAdjustmentNoOpReplayBody v = (case v of JObj obj \<Rightarrow> jget obj ''noOp'' = JBool True | _ \<Rightarrow> False)"

definition assertLedgerCommittedReplayResponseBody :: "jval \<Rightarrow> jval res" where
  "assertLedgerCommittedReplayResponseBody v =
     bindR (assertLedgerReplayResponseBody v) (\<lambda>body.
     if isLedgerAdjustmentNoOpReplayBody body then Inl TypeErr else Inr body)"

definition assertLedgerNoOpReplayResponseBody :: "jval \<Rightarrow> jval res" where
  "assertLedgerNoOpReplayResponseBody v =
     bindR (assertLedgerReplayResponseBody v) (\<lambda>body.
     if \<not> isLedgerAdjustmentNoOpReplayBody body then Inl TypeErr else Inr body)"

definition serializeLedgerReplayResponse :: "jval \<Rightarrow> ustr res" where
  "serializeLedgerReplayResponse body =
     bindR (assertLedgerReplayResponseBody body) (\<lambda>b. stableSerializeLedgerJson b)"

section \<open>Idempotent execution\<close>

definition fingerprintLedgerMutation :: "runtime \<Rightarrow> jval \<Rightarrow> ustr res" where
  "fingerprintLedgerMutation rt request =
     bindR (stableSerializeLedgerJson request) (\<lambda>t. Inr (rt_sha256 rt t))"

definition LEDGER_SETTINGS_SCOPE :: ustr where
  "LEDGER_SETTINGS_SCOPE = js ''POST:/api/ledger/settings''"

definition LEDGER_ACCOUNTS_SCOPE :: ustr where
  "LEDGER_ACCOUNTS_SCOPE = js ''POST:/api/ledger/accounts''"

definition LEDGER_CATEGORIES_SCOPE :: ustr where
  "LEDGER_CATEGORIES_SCOPE = js ''POST:/api/ledger/categories''"

definition LEDGER_TRANSACTIONS_SCOPE :: ustr where
  "LEDGER_TRANSACTIONS_SCOPE = js ''POST:/api/ledger/transactions''"

definition ledgerAccountAdjustmentOperationScope :: "ustr \<Rightarrow> ustr" where
  "ledgerAccountAdjustmentOperationScope accountId =
     js ''POST:/api/ledger/accounts/'' @ accountId @ js ''/adjust''"

datatype result_status = Committed | NoOp

definition result_status_text :: "result_status \<Rightarrow> ustr" where
  "result_status_text s = (case s of Committed \<Rightarrow> js ''committed'' | NoOp \<Rightarrow> js ''no-op'')"

record idempotent_result =
  ir_resultStatus :: result_status
  ir_responseStatus :: int
  ir_responseBody :: jval
  ir_resultType :: "ustr option"
  ir_resultId :: "ustr option"

record replay_result =
  rr_responseStatus :: int
  rr_responseBodyJson :: ustr
  rr_replayed :: bool

text \<open>The result with the body that the assertion may have completed in place.\<close>

definition assertMutationResult :: "idempotent_result \<Rightarrow> idempotent_result res" where
  "assertMutationResult r =
     (if ir_responseStatus r \<noteq> (if ir_resultStatus r = Committed then 201 else 200)
      then Inl (ledgerValidationError [])
      else bindR (if ir_resultStatus r = Committed
                  then assertLedgerCommittedReplayResponseBody (ir_responseBody r)
                  else assertLedgerNoOpReplayResponseBody (ir_responseBody r)) (\<lambda>body.
        Inr (r\<lparr>ir_responseBody := body\<rparr>)))"

definition replayResult :: "idem_row \<Rightarrow> replay_result res" where
  "replayResult record =
     (if ri_response_status record \<noteq> 200 \<and> ri_response_status record \<noteq> 201
      then Inl (ledgerValidationError [])
      else Inr \<lparr>rr_responseStatus = ri_response_status record,
        rr_responseBodyJson = ri_response_body_json record, rr_replayed = True\<rparr>)"

text \<open>The callback of the outer \<open>runLedgerWrite\<close>.\<close>

definition replayOrCreate ::
  "runtime \<Rightarrow> ustr \<Rightarrow> ustr \<Rightarrow> ustr \<Rightarrow> (ledger_db \<Rightarrow> (idempotent_result \<times> ledger_db) res)
    \<Rightarrow> int option \<Rightarrow> ledger_db \<Rightarrow> (replay_result \<times> ledger_db) res" where
  "replayOrCreate rt scope key requestFingerprint mutation createdAt db =
     bindR (getIdempotencyRecord scope key db) (\<lambda>existing.
     case existing of
       Some record \<Rightarrow>
         if ri_request_fingerprint record \<noteq> requestFingerprint
         then Inl (LedgerError LIdempotencyConflict 409 None)
         else bindR (replayResult record) (\<lambda>r. Inr (r, db))
     | None \<Rightarrow>
         bindR (runNestedLedgerWrite db mutation) (\<lambda>(raw, db1).
         bindR (assertMutationResult raw) (\<lambda>mutationResult.
         bindR (serializeLedgerReplayResponse (ir_responseBody mutationResult)) (\<lambda>responseBodyJson.
         let created = (case createdAt of Some t \<Rightarrow> t | None \<Rightarrow> sys_now rt) in
         if \<not> is_safe created then Inl (ledgerValidationError [])
         else bindR (insertIdempotencyRecord
             \<lparr>ri_operation_scope = scope, ri_idempotency_key = key,
              ri_request_fingerprint = requestFingerprint,
              ri_response_status = ir_responseStatus mutationResult,
              ri_response_body_json = responseBodyJson,
              ri_result_status = result_status_text (ir_resultStatus mutationResult),
              ri_result_type = ir_resultType mutationResult,
              ri_result_id = ir_resultId mutationResult,
              ri_created_at = created\<rparr> db1) (\<lambda>db2.
           Inr (\<lparr>rr_responseStatus = ir_responseStatus mutationResult,
                 rr_responseBodyJson = responseBodyJson, rr_replayed = False\<rparr>, db2))))))"

definition executeIdempotentLedgerCreate ::
  "runtime \<Rightarrow> ustr \<Rightarrow> ustr \<Rightarrow> jval \<Rightarrow> (ledger_db \<Rightarrow> (idempotent_result \<times> ledger_db) res)
    \<Rightarrow> int option \<Rightarrow> ledger_db \<Rightarrow> replay_result res \<times> ledger_db" where
  "executeIdempotentLedgerCreate rt scope key request mutation createdAt db =
     (case fingerprintLedgerMutation rt request of
        Inl e \<Rightarrow> (Inl e, db)
      | Inr fp \<Rightarrow> runLedgerWrite rt db (replayOrCreate rt scope key fp mutation createdAt))"

section \<open>At most once\<close>

lemma isFingerprint_Nil [simp]: "\<not> isFingerprint []"
  by (simp add: isFingerprint_def)

lemma idem_row_decode:
  "idempotencyRecordFromRow (idemRowObj r) = Inr x \<longleftrightarrow>
     x = r \<and> isFingerprint (ri_request_fingerprint r) \<and> is_safe (ri_response_status r)
     \<and> 100 \<le> ri_response_status r \<and> ri_response_status r \<le> 599
     \<and> ri_result_status r \<in> {js ''committed'', js ''no-op''} \<and> ri_operation_scope r \<noteq> []
     \<and> ri_idempotency_key r \<noteq> [] \<and> is_safe (ri_created_at r)"
  by (cases r; cases "ri_result_type r"; cases "ri_result_id r")
     (auto simp: idempotencyRecordFromRow_def idemRowObj_def idempotencyString_def
       idempotencyNullableString_def valueAt_def safeInteger_def bindR_eq_Inr nullStr_def
       split: if_splits)

lemma fingerprint_code_points: "isFingerprint s \<Longrightarrow> code_points s = s"
proof -
  have "list_all (\<lambda>c. c < 55296) t \<Longrightarrow> code_points t = t" for t
    by (induction t rule: code_points.induct) auto
  moreover have "isFingerprint s \<Longrightarrow> list_all (\<lambda>c. c < 55296) s"
    by (auto simp: isFingerprint_def is_digit_def list_all_iff)
  ultimately show "isFingerprint s \<Longrightarrow> code_points s = s" by simp
qed

lemma replayOrCreate_stored:
  assumes "replayOrCreate rt scope key fp mutation t db = Inr (r, db1)"
    and "isFingerprint fp" "scope \<noteq> []" "key \<noteq> []"
  obtains row where "lookup_by idem_key (scope, key) (db_idempotency db1) = Some row"
    "idempotencyRecordFromRow (idemRowObj row) = Inr row"
    "ri_request_fingerprint row = fp" "ri_response_status row = rr_responseStatus r"
    "ri_response_body_json row = rr_responseBodyJson r"
    "ri_response_status row = 200 \<or> ri_response_status row = 201"
proof (cases "lookup_by idem_key (scope, key) (db_idempotency db)")
  case None
  then have none: "getIdempotencyRecord scope key db = Inr None"
    by (simp add: getIdempotencyRecord_def)
  from assms(1) obtain raw dbm m json row where m: "assertMutationResult raw = Inr m"
    and ins: "insertIdempotencyRecord row dbm = Inr db1"
    and row: "row = \<lparr>ri_operation_scope = scope, ri_idempotency_key = key, ri_request_fingerprint = fp,
       ri_response_status = ir_responseStatus m, ri_response_body_json = json,
       ri_result_status = result_status_text (ir_resultStatus m),
       ri_result_type = ir_resultType m, ri_result_id = ir_resultId m,
       ri_created_at = (case t of Some t \<Rightarrow> t | None \<Rightarrow> sys_now rt)\<rparr>"
    and safe: "is_safe (case t of Some t \<Rightarrow> t | None \<Rightarrow> sys_now rt)"
    and r: "r = \<lparr>rr_responseStatus = ir_responseStatus m, rr_responseBodyJson = json, rr_replayed = False\<rparr>"
    by (auto simp: replayOrCreate_def none bindR_eq_Inr Let_def split: if_splits)
  have st: "ir_responseStatus m = 200 \<or> ir_responseStatus m = 201"
    using m by (auto simp: assertMutationResult_def bindR_eq_Inr split: if_splits)
  have "is_safe (ir_responseStatus m)" using st by (auto simp: is_safe_def MAX_SAFE_def)
  then have "idempotencyRecordFromRow (idemRowObj row) = Inr row"
    using safe st assms(2-4) by (auto simp: row idem_row_decode result_status_text_def split: result_status.splits)
  moreover have "lookup_by idem_key (scope, key) (db_idempotency db1) = Some row"
    using ins by (auto simp: insertIdempotencyRecord_def row idem_key_def split: if_splits)
  ultimately show ?thesis using st r by (intro that) (auto simp: row)
next
  case (Some row)
  from assms(1) have dec: "idempotencyRecordFromRow (idemRowObj row) = Inr row"
    and "ri_request_fingerprint row = fp" "replayResult row = Inr r" "db1 = db"
    by (auto simp: replayOrCreate_def getIdempotencyRecord_def Some bindR_eq_Inr idem_row_decode
        split: if_splits)
  then show ?thesis using Some
    by (intro that) (auto simp: replayResult_def split: if_splits)
qed

lemma replayOrCreate_again:
  assumes "lookup_by idem_key (scope, key) (db_idempotency db) = Some row"
    "idempotencyRecordFromRow (idemRowObj row) = Inr row"
    "ri_response_status row = 200 \<or> ri_response_status row = 201"
  shows "replayOrCreate rt scope key fp mutation t db =
    (if ri_request_fingerprint row \<noteq> fp then Inl (LedgerError LIdempotencyConflict 409 None)
     else Inr (\<lparr>rr_responseStatus = ri_response_status row,
       rr_responseBodyJson = ri_response_body_json row, rr_replayed = True\<rparr>, db))"
  using assms by (auto simp: replayOrCreate_def getIdempotencyRecord_def replayResult_def)

lemma execute_Inr:
  "executeIdempotentLedgerCreate rt scope key request mutation t db = (Inr r, db1) \<longleftrightarrow>
     (\<exists>fp. fingerprintLedgerMutation rt request = Inr fp \<and> \<not> write_locked rt
       \<and> replayOrCreate rt scope key fp mutation t db = Inr (r, db1))"
  by (auto simp: executeIdempotentLedgerCreate_def runLedgerWrite_Inr split: sum.splits)

text \<open>
  Property C29. A retried create is answered from the stored response: after a first success, a
  request with the same scope, key and content, at any later time and whatever its mutation would
  do, returns the same status and the same body, marked as replayed, and leaves the database as
  it is; later writes may have added idempotency rows in between.
\<close>

theorem retried_create_replays:
  assumes "executeIdempotentLedgerCreate rt scope key request mutation t db = (Inr r, db1)"
    and "\<forall>s. isFingerprint (rt_sha256 rt s)" "scope \<noteq> []" "key \<noteq> []"
    and "db_idempotency db2 = db_idempotency db1 @ later"
  shows "executeIdempotentLedgerCreate rt scope key request mutation' t' db2 =
    (Inr \<lparr>rr_responseStatus = rr_responseStatus r, rr_responseBodyJson = rr_responseBodyJson r,
       rr_replayed = True\<rparr>, db2)"
proof -
  from assms(1) obtain fp where fp: "fingerprintLedgerMutation rt request = Inr fp"
    and run: "\<not> write_locked rt" "replayOrCreate rt scope key fp mutation t db = Inr (r, db1)"
    by (auto simp: execute_Inr)
  have "isFingerprint fp" using fp assms(2) by (auto simp: fingerprintLedgerMutation_def bindR_eq_Inr)
  then obtain row
    where row: "lookup_by idem_key (scope, key) (db_idempotency db1) = Some row"
      "idempotencyRecordFromRow (idemRowObj row) = Inr row" "ri_request_fingerprint row = fp"
      "ri_response_status row = rr_responseStatus r" "ri_response_body_json row = rr_responseBodyJson r"
      "ri_response_status row = 200 \<or> ri_response_status row = 201"
    using replayOrCreate_stored [OF run(2) _ assms(3,4)] by blast
  have "lookup_by idem_key (scope, key) (db_idempotency db2) = Some row"
    using row(1) assms(5) by simp
  from replayOrCreate_again [OF this row(2) row(6), of rt fp mutation' t'] show ?thesis
    unfolding execute_Inr using fp run(1) row by auto
qed

section \<open>The serialized text identifies the value\<close>

text \<open>
  JSON data as the parser of a request body produces it: no \<open>undefined\<close>, every string a list of
  16-bit units, no property twice, and every number that is not printed in plain digits with a
  fraction or an exponent.
\<close>

definition num_char :: "nat \<Rightarrow> bool" where
  "num_char c \<longleftrightarrow> is_digit c \<or> c \<in> {43, 45, 46, 101}"

definition float_text :: "ustr \<Rightarrow> bool" where
  "float_text t \<longleftrightarrow> list_all num_char t \<and> (46 \<in> set t \<or> 101 \<in> set t)"

definition units16 :: "ustr \<Rightarrow> bool" where
  "units16 s \<longleftrightarrow> list_all (\<lambda>c. c < 65536) s"

fun json_data :: "jval \<Rightarrow> bool" where
  "json_data JUndef = False"
| "json_data JNull = True"
| "json_data (JBool b) = True"
| "json_data (JInt n) = True"
| "json_data (JFloat t) = float_text t"
| "json_data (JStr s) = units16 s"
| "json_data (JArr xs) = (\<forall>x\<in>set xs. json_data x)"
| "json_data (JObj ps) = (distinct (map fst ps) \<and> (\<forall>p\<in>set ps. units16 (fst p) \<and> json_data (snd p)))"

text \<open>Two values are the same up to the order in which the properties of objects were created.\<close>

inductive same_json :: "jval \<Rightarrow> jval \<Rightarrow> bool" where
  same_atom: "(\<forall>xs. v \<noteq> JArr xs) \<Longrightarrow> (\<forall>ps. v \<noteq> JObj ps) \<Longrightarrow> same_json v v"
| same_arr: "list_all2 same_json xs ys \<Longrightarrow> same_json (JArr xs) (JArr ys)"
| same_obj: "(\<And>k. rel_option same_json (map_of ps k) (map_of qs k)) \<Longrightarrow> same_json (JObj ps) (JObj qs)"

lemma mapR_total: "(\<And>x. x \<in> set xs \<Longrightarrow> \<exists>y. f x = Inr y) \<Longrightarrow> \<exists>ys. mapR f xs = Inr ys"
proof (induction xs)
  case (Cons x xs)
  then obtain y ys where "f x = Inr y" "mapR f xs = Inr ys" by force
  then show ?case by simp
qed simp

lemma float_text_finite: "float_text t \<Longrightarrow> t \<notin> {js ''NaN'', js ''Infinity'', js ''-Infinity''}"
  by (auto simp: float_text_def num_char_def is_digit_def js_def)

lemma serialize_total: "json_data v \<Longrightarrow> \<exists>t. serializeLedgerJsonValue v = Inr t"
proof (induction v rule: serializeLedgerJsonValue.induct)
  case (5 t)
  then show ?case using float_text_finite by auto
next
  case (7 xs)
  then have "\<exists>ys. mapR serializeLedgerJsonValue xs = Inr ys" by (intro mapR_total) auto
  then show ?case by (auto simp: bindR_eq_Inr)
next
  case (8 ps)
  have "\<exists>ys. mapR (\<lambda>(k, v). bindR (serializeLedgerJsonValue v) (\<lambda>t. Inr (json_quote k @ [58] @ t)))
      (sort_key fst ps) = Inr ys"
  proof (rule mapR_total)
    fix p assume p: "p \<in> set (sort_key fst ps)"
    obtain k v where kv: "p = (k, v)" by (cases p)
    with p 8 have "\<exists>t. serializeLedgerJsonValue v = Inr t" by fastforce
    then show "\<exists>y. (case p of (k, v) \<Rightarrow> bindR (serializeLedgerJsonValue v) (\<lambda>t. Inr (json_quote k @ [58] @ t))) = Inr y"
      by (auto simp: kv)
  qed
  then show ?case by (auto simp: bindR_eq_Inr)
qed auto

text \<open>Reading a quoted string back; \<open>unhex\<close> and \<open>unescape\<close> undo the escapes.\<close>

definition unhex :: "nat \<Rightarrow> nat" where
  "unhex c = (if c < 58 then c - 48 else c - 87)"

definition unescape :: "nat \<Rightarrow> nat" where
  "unescape c = (if c = 98 then 8 else if c = 116 then 9 else if c = 110 then 10
     else if c = 102 then 12 else if c = 114 then 13 else c)"

fun unquote :: "ustr \<Rightarrow> (ustr \<times> ustr) option" where
  "unquote [] = None"
| "unquote (c # s) =
     (if c = 34 then Some ([], s)
      else if c \<noteq> 92 then map_option (\<lambda>(x, r). (c # x, r)) (unquote s)
      else case s of
        e # s1 \<Rightarrow>
          if e \<noteq> 117 then map_option (\<lambda>(x, r). (unescape e # x, r)) (unquote s1)
          else (case s1 of
            p # q # u # w # s2 \<Rightarrow>
              map_option (\<lambda>(x, r). ((4096 * unhex p + 256 * unhex q + 16 * unhex u + unhex w) # x, r)) (unquote s2)
          | _ \<Rightarrow> None)
      | [] \<Rightarrow> None)"

lemma unhex_hex_digit: "d < 16 \<Longrightarrow> unhex (hex_digit d) = d"
  by (auto simp: unhex_def hex_digit_def)

lemma hex_value:
  assumes "c < 65536"
  shows "4096 * unhex (hex_digit (c div 4096 mod 16)) + 256 * unhex (hex_digit (c div 256 mod 16))
    + 16 * unhex (hex_digit (c div 16 mod 16)) + unhex (hex_digit (c mod 16)) = c"
proof -
  have d: "c div 256 = c div 16 div 16" "c div 4096 = c div 16 div 16 div 16"
    by (simp_all add: div_mult2_eq [symmetric])
  have sum: "x = 16 * y + z \<Longrightarrow> y = 16 * w + u \<Longrightarrow> w = 16 * v + t \<Longrightarrow>
      4096 * v + 256 * t + 16 * u + z = (x :: nat)" for x y z w u v t
    by linarith
  have "c div 4096 < 16" using assms by (simp add: less_mult_imp_div_less)
  then have top: "c div 4096 mod 16 = c div 16 div 16 div 16" by (simp add: d)
  have "4096 * (c div 16 div 16 div 16) + 256 * (c div 16 div 16 mod 16) + 16 * (c div 16 mod 16)
      + c mod 16 = c"
    by (rule sum) simp_all
  then show ?thesis unfolding top d(1) by (simp only: unhex_hex_digit mod_less_divisor
    \<open>c div 4096 < 16\<close> [unfolded d])
qed

lemma unquote_unicode:
  assumes "c < 65536"
  shows "unquote (unicode_escape c @ s) = map_option (\<lambda>(x, r). (c # x, r)) (unquote s)"
  by (simp only: unicode_escape_def append_Cons append_Nil unquote.simps list.case hex_value [OF assms]) simp

lemma unquote_unit:
  assumes "c < 65536"
  shows "unquote (json_unit c @ s) = map_option (\<lambda>(x, r). (c # x, r)) (unquote s)"
proof (cases "c \<in> {34, 92, 8, 9, 10, 12, 13}")
  case True
  then show ?thesis by (auto simp: json_unit_def unescape_def)
next
  case False
  then show ?thesis using unquote_unicode [OF assms] by (simp add: json_unit_def)
qed

lemma unquote_units: "units16 a \<Longrightarrow> unquote (json_units a @ 34 # r) = Some (a, r)"
  by (induction a rule: json_units.induct) (auto simp: units16_def unquote_unit)

lemma quote_prefix:
  assumes "json_quote a @ r = json_quote b @ q" "units16 a" "units16 b"
  shows "a = b \<and> r = q"
  using arg_cong [OF assms(1), of "\<lambda>s. unquote (tl s)"] assms(2,3)
  by (simp add: json_quote_def unquote_units)

lemma int_text_ne: "int_text n \<noteq> []"
  by (simp add: int_text_def)

lemma int_text_chars: "list_all num_char (int_text n) \<and> 46 \<notin> set (int_text n) \<and> 101 \<notin> set (int_text n)"
  using nat_text_digits [of "nat n"] nat_text_digits [of "nat (- n)"]
  by (auto simp: int_text_def num_char_def list_all_iff is_digit_def)

lemma float_not_int: "float_text t \<Longrightarrow> t \<noteq> int_text n"
  using int_text_chars [of n] by (auto simp: float_text_def)

text \<open>What may follow a value: the end of the text, a comma or a closing bracket.\<close>

definition delim :: "ustr \<Rightarrow> bool" where
  "delim r \<longleftrightarrow> r = [] \<or> hd r \<in> {44, 93, 125}"

lemma delim_simps [simp]: "delim []" "delim (44 # r)" "delim (93 # r)" "delim (125 # r)"
  by (simp_all add: delim_def)

lemma number_prefix:
  assumes "s @ r = t @ q" "list_all num_char s" "list_all num_char t" "delim r" "delim q"
  shows "s = t \<and> r = q"
proof -
  have end_of: "takeWhile num_char (x @ y) = x" if "list_all num_char x" "delim y" for x y
  proof -
    have "takeWhile num_char y = []"
      using that(2) by (cases y) (auto simp: delim_def num_char_def is_digit_def)
    with that(1) show ?thesis by (simp add: takeWhile_append2 list_all_iff)
  qed
  have "s = t" using end_of [OF assms(2,4)] end_of [OF assms(3,5)] assms(1) by simp
  with assms(1) show ?thesis by simp
qed

text \<open>The first unit of a serialized value tells its kind.\<close>

datatype json_kind = KNull | KTrue | KFalse | KNumber | KString | KArray | KObject

definition head_kind :: "ustr \<Rightarrow> json_kind" where
  "head_kind t = (if hd t = 110 then KNull else if hd t = 116 then KTrue else if hd t = 102 then KFalse
     else if hd t = 34 then KString else if hd t = 91 then KArray else if hd t = 123 then KObject
     else KNumber)"

fun value_kind :: "jval \<Rightarrow> json_kind" where
  "value_kind (JBool b) = (if b then KTrue else KFalse)"
| "value_kind (JInt n) = KNumber"
| "value_kind (JFloat t) = KNumber"
| "value_kind (JStr s) = KString"
| "value_kind (JArr xs) = KArray"
| "value_kind (JObj ps) = KObject"
| "value_kind _ = KNull"

lemma num_head: "list_all num_char t \<Longrightarrow> t \<noteq> [] \<Longrightarrow> head_kind (t @ r) = KNumber \<and> t \<noteq> [] \<and> \<not> delim (t @ r)"
  by (cases t) (auto simp: head_kind_def num_char_def is_digit_def delim_def)

lemma serialized_head:
  assumes "json_data v" "serializeLedgerJsonValue v = Inr t"
  shows "head_kind (t @ r) = value_kind v \<and> t \<noteq> [] \<and> \<not> delim (t @ r)"
proof (cases v)
  case (JInt n)
  then show ?thesis using assms num_head [of "int_text n"] int_text_chars [of n] int_text_ne by auto
next
  case (JFloat x)
  then show ?thesis using assms num_head [of t] by (cases t) (auto simp: float_text_def split: if_splits)
qed (use assms in \<open>auto simp: head_kind_def delim_def json_quote_def js_def bindR_eq_Inr split: if_splits\<close>)

lemma join_comma_Cons: "join_comma (x # xs) @ r = x @ concat (map ((#) 44) xs) @ r"
  by (induction xs arbitrary: x) auto

text \<open>
  Lists of serialized items, closed by a bracket: when every item can be told from what follows,
  so can the list.
\<close>

lemma items_prefix:
  assumes "join_comma ss @ c # r = join_comma ts @ c # q" "c \<in> {93, 125}"
    and "\<And>s t r q. s \<in> set ss \<Longrightarrow> t \<in> set ts \<Longrightarrow> s @ r = t @ q \<Longrightarrow> delim r \<Longrightarrow> delim q \<Longrightarrow> s = t \<and> r = q"
    and "\<And>s r. s \<in> set ss \<union> set ts \<Longrightarrow> \<not> delim (s @ r)"
  shows "ss = ts \<and> r = q"
  using assms
proof (induction ss arbitrary: ts)
  case Nil
  then show ?case
  proof (cases ts)
    case (Cons t ts')
    have "join_comma ts @ c # q = c # r" using Nil(1) by simp
    then have "delim (join_comma ts @ c # q)" using Nil(2) by auto
    with Nil(4) [of t] Cons show ?thesis by (metis UnI2 join_comma_Cons list.set_intros(1))
  qed simp
next
  case (Cons s ss)
  show ?case
  proof (cases ts)
    case Nil
    have "join_comma (s # ss) @ c # r = c # q" using Cons.prems(1) Nil by simp
    then have "delim (join_comma (s # ss) @ c # r)" using Cons.prems(2) by auto
    with Cons.prems(4) [of s] show ?thesis by (metis UnI1 join_comma_Cons list.set_intros(1))
  next
    case (Cons t ts')
    let ?rest = "\<lambda>xs r. concat (map ((#) 44) xs) @ c # r"
    have d: "delim (?rest xs x)" for xs x using Cons.prems(2) by (cases xs) auto
    have "s @ ?rest ss r = t @ ?rest ts' q"
      using Cons.prems(1) by (simp add: Cons join_comma_Cons)
    with Cons.prems(3) [of s t, OF _ _ _ d d] have st: "s = t" and rest: "?rest ss r = ?rest ts' q"
      by (auto simp: Cons)
    have c: "c \<noteq> 44" using Cons.prems(2) by auto
    have "join_comma ss @ c # r = join_comma ts' @ c # q"
    proof (cases ss)
      case Nil
      then show ?thesis using rest c by (cases ts') simp_all
    next
      case ss: (Cons s' ss')
      then obtain t' ts'' where ts': "ts' = t' # ts''" using rest c by (cases ts') simp_all
      show ?thesis using rest unfolding ss ts' join_comma_Cons by simp
    qed
    then have "ss = ts' \<and> r = q"
    proof (rule Cons.IH [OF _ Cons.prems(2)])
      show "a = b \<and> r' = q'"
        if "a \<in> set ss" "b \<in> set ts'" "a @ r' = b @ q'" "delim r'" "delim q'" for a b r' q'
        using Cons.prems(3) [of a b r' q'] that by (simp add: Cons)
      show "\<not> delim (a @ r')" if "a \<in> set ss \<union> set ts'" for a r'
        using Cons.prems(4) [of a r'] that by (auto simp: Cons)
    qed
    with st Cons show ?thesis by simp
  qed
qed

definition serializeProperty :: "ustr \<times> jval \<Rightarrow> ustr res" where
  "serializeProperty = (\<lambda>(k, v). bindR (serializeLedgerJsonValue v) (\<lambda>t. Inr (json_quote k @ [58] @ t)))"

lemma serializeProperty_Inr:
  "serializeProperty p = Inr s \<longleftrightarrow> (\<exists>t. serializeLedgerJsonValue (snd p) = Inr t \<and> s = json_quote (fst p) @ 58 # t)"
  by (auto simp: serializeProperty_def bindR_eq_Inr split: prod.splits)

lemma serialize_obj: "serializeLedgerJsonValue (JObj ps) =
    bindR (mapR serializeProperty (sort_key fst ps)) (\<lambda>items. Inr (123 # join_comma items @ [125]))"
  by (simp add: serializeProperty_def)

lemma distinct_sort_key: "distinct (map fst (sort_key fst ps)) = distinct (map fst ps)"
  by (rule mset_eq_imp_distinct_iff) simp

lemma map_of_sort_key:
  assumes "distinct (map fst ps)"
  shows "map_of (sort_key fst ps) = map_of ps"
proof
  fix k
  show "map_of (sort_key fst ps) k = map_of ps k"
  proof (cases "map_of ps k")
    case None
    moreover from this have "map_of (sort_key fst ps) k = None" by (simp add: map_of_eq_None_iff)
    ultimately show ?thesis by simp
  next
    case (Some v)
    then show ?thesis using assms distinct_sort_key [of ps] map_of_SomeD [OF Some] by simp
  qed
qed

lemma map_of_related:
  "list_all2 (\<lambda>p q. fst p = fst q \<and> R (snd p) (snd q)) ps qs \<Longrightarrow> rel_option R (map_of ps k) (map_of qs k)"
  by (induction ps qs rule: list_all2_induct) auto

lemma mapR_same_texts:
  assumes "mapR f xs = Inr ss" "mapR g ys = Inr ss"
    and "\<And>x y s. x \<in> set xs \<Longrightarrow> y \<in> set ys \<Longrightarrow> f x = Inr s \<Longrightarrow> g y = Inr s \<Longrightarrow> P x y"
  shows "list_all2 P xs ys"
  using assms
  by (auto simp: mapR_Inr_iff list_all2_conv_all_nth)

lemma mapR_set: "mapR f xs = Inr ss \<Longrightarrow> s \<in> set ss \<Longrightarrow> \<exists>x\<in>set xs. f x = Inr s"
  by (auto simp: mapR_Inr_iff list_all2_conv_all_nth in_set_conv_nth) (metis nth_mem)

definition told_apart :: "jval \<Rightarrow> bool" where
  "told_apart v \<longleftrightarrow> (\<forall>w s t r q. json_data w \<longrightarrow> serializeLedgerJsonValue v = Inr s \<longrightarrow>
     serializeLedgerJsonValue w = Inr t \<longrightarrow> s @ r = t @ q \<longrightarrow> delim r \<longrightarrow> delim q \<longrightarrow>
     same_json v w \<and> s = t \<and> r = q)"

lemma told_apartD:
  "told_apart v \<Longrightarrow> json_data w \<Longrightarrow> serializeLedgerJsonValue v = Inr s \<Longrightarrow>
     serializeLedgerJsonValue w = Inr t \<Longrightarrow> s @ r = t @ q \<Longrightarrow> delim r \<Longrightarrow> delim q \<Longrightarrow>
     same_json v w \<and> s = t \<and> r = q"
  unfolding told_apart_def by blast

lemma told_apart_arr:
  assumes "\<And>x. x \<in> set xs \<Longrightarrow> told_apart x" "json_data (JArr xs)"
  shows "told_apart (JArr xs)"
  unfolding told_apart_def
proof (intro allI impI)
  fix w s t r q
  assume w: "json_data w" and s: "serializeLedgerJsonValue (JArr xs) = Inr s"
    and t: "serializeLedgerJsonValue w = Inr t" and eq: "s @ r = t @ q" and d: "delim r" "delim q"
  have "value_kind w = KArray"
    using serialized_head [OF assms(2) s, of r] serialized_head [OF w t, of q] eq by simp
  then obtain ys where ys: "w = JArr ys" by (cases w) (auto split: if_splits)
  from s t ys obtain ss ts where ss: "mapR serializeLedgerJsonValue xs = Inr ss" "s = 91 # join_comma ss @ [93]"
    and ts: "mapR serializeLedgerJsonValue ys = Inr ts" "t = 91 # join_comma ts @ [93]"
    by (auto simp: bindR_eq_Inr)
  have data: "\<And>x. x \<in> set xs \<Longrightarrow> json_data x" "\<And>y. y \<in> set ys \<Longrightarrow> json_data y"
    using assms(2) w ys by auto
  have "ss = ts \<and> r = q"
  proof (rule items_prefix)
    show "join_comma ss @ 93 # r = join_comma ts @ 93 # q" using eq ss ts by simp
    show "a = b \<and> r' = q'"
      if "a \<in> set ss" "b \<in> set ts" "a @ r' = b @ q'" "delim r'" "delim q'" for a b r' q'
      using mapR_set [OF ss(1) that(1)] mapR_set [OF ts(1) that(2)] told_apartD [OF assms(1) _ _ _ that(3-5)] data
      by blast
    show "\<not> delim (a @ r')" if "a \<in> set ss \<union> set ts" for a r'
      using that mapR_set [OF ss(1)] mapR_set [OF ts(1)] serialized_head data by blast
  qed simp
  moreover from this have "list_all2 same_json xs ys"
    using mapR_same_texts [OF ss(1), of serializeLedgerJsonValue ys same_json] ts(1)
      told_apartD [OF assms(1) data(2), where r = "[]" and q = "[]"] by simp
  ultimately show "same_json (JArr xs) w \<and> s = t \<and> r = q"
    using ss ts ys by (auto intro: same_arr)
qed

lemma property_prefix:
  assumes "serializeProperty p = Inr a" "serializeProperty p' = Inr b" "a @ r = b @ q" "delim r" "delim q"
    and "told_apart (snd p)" "json_data (snd p')" "units16 (fst p)" "units16 (fst p')"
  shows "fst p = fst p' \<and> same_json (snd p) (snd p') \<and> a = b \<and> r = q"
proof -
  obtain s t where s: "serializeLedgerJsonValue (snd p) = Inr s" "a = json_quote (fst p) @ 58 # s"
    and t: "serializeLedgerJsonValue (snd p') = Inr t" "b = json_quote (fst p') @ 58 # t"
    using assms(1,2) by (auto simp: serializeProperty_Inr)
  have "json_quote (fst p) @ (58 # s @ r) = json_quote (fst p') @ (58 # t @ q)"
    using assms(3) s t by simp
  from quote_prefix [OF this assms(8,9)] have k: "fst p = fst p'" and eq: "s @ r = t @ q" by simp_all
  from told_apartD [OF assms(6,7) s(1) t(1) eq assms(4,5)] k s t show ?thesis by simp
qed

lemma told_apart_obj:
  assumes "\<And>p. p \<in> set ps \<Longrightarrow> told_apart (snd p)" "json_data (JObj ps)"
  shows "told_apart (JObj ps)"
  unfolding told_apart_def
proof (intro allI impI)
  fix w s t r q
  assume w: "json_data w" and s: "serializeLedgerJsonValue (JObj ps) = Inr s"
    and t: "serializeLedgerJsonValue w = Inr t" and eq: "s @ r = t @ q" and d: "delim r" "delim q"
  have "value_kind w = KObject"
    using serialized_head [OF assms(2) s, of r] serialized_head [OF w t, of q] eq by simp
  then obtain qs where qs: "w = JObj qs" by (cases w) (auto split: if_splits)
  from s t obtain ss ts
    where ss: "mapR serializeProperty (sort_key fst ps) = Inr ss" "s = 123 # join_comma ss @ [125]"
    and ts: "mapR serializeProperty (sort_key fst qs) = Inr ts" "t = 123 # join_comma ts @ [125]"
    unfolding qs serialize_obj by (auto simp: bindR_eq_Inr)
  have data: "\<And>p. p \<in> set ps \<Longrightarrow> units16 (fst p) \<and> json_data (snd p)"
    "\<And>p. p \<in> set qs \<Longrightarrow> units16 (fst p) \<and> json_data (snd p)"
    and dist: "distinct (map fst ps)" "distinct (map fst qs)"
    using assms(2) w qs by auto
  note same = property_prefix [OF _ _ _ _ _ assms(1) conjunct2 [OF data(2)] conjunct1 [OF data(1)]
      conjunct1 [OF data(2)]]
  have "ss = ts \<and> r = q"
  proof (rule items_prefix)
    show "join_comma ss @ 125 # r = join_comma ts @ 125 # q" using eq ss ts by simp
    show "a = b \<and> r' = q'"
      if "a \<in> set ss" "b \<in> set ts" "a @ r' = b @ q'" "delim r'" "delim q'" for a b r' q'
      using mapR_set [OF ss(1) that(1)] mapR_set [OF ts(1) that(2)] same [OF _ _ that(3-5)] by auto
    show "\<not> delim (a @ r')" if "a \<in> set ss \<union> set ts" for a r'
    proof -
      have "\<exists>k z. a = json_quote k @ z"
        using that mapR_set [OF ss(1)] mapR_set [OF ts(1)] by (fastforce simp: serializeProperty_Inr)
      then show ?thesis by (auto simp: json_quote_def delim_def)
    qed
  qed simp
  moreover from this have
    "list_all2 (\<lambda>p q. fst p = fst q \<and> same_json (snd p) (snd q)) (sort_key fst ps) (sort_key fst qs)"
    using mapR_same_texts [OF ss(1), of serializeProperty "sort_key fst qs"
        "\<lambda>p q. fst p = fst q \<and> same_json (snd p) (snd q)"] ts(1) same [where r = "[]" and q = "[]"]
    by simp
  then have "rel_option same_json (map_of ps k) (map_of qs k)" for k
    using map_of_related [of same_json "sort_key fst ps" "sort_key fst qs" k] dist
    by (simp add: map_of_sort_key)
  ultimately show "same_json (JObj ps) w \<and> s = t \<and> r = q"
    using ss ts qs by (auto intro: same_obj)
qed

lemma int_text_inject [simp]: "int_text m = int_text n \<longleftrightarrow> m = n"
proof -
  have "hd (nat_text k) \<noteq> 45" for k
    using nat_text_digits [of k] by (cases "nat_text k") (auto simp: is_digit_def)
  then have "45 # s \<noteq> nat_text k" "nat_text k \<noteq> 45 # s" for s k by (metis list.sel(1))+
  then show ?thesis by (auto simp: int_text_def)
qed

lemma told_apart_number:
  assumes "serializeLedgerJsonValue v = Inr s" "json_data v" "value_kind v = KNumber"
    and "json_data w" "serializeLedgerJsonValue w = Inr t" "s @ r = t @ q" "delim r" "delim q"
  shows "same_json v w \<and> s = t \<and> r = q"
proof -
  have kind: "value_kind w = KNumber"
    using serialized_head [OF assms(2,1), of r] serialized_head [OF assms(4,5), of q] assms(3,6) by simp
  have chars: "list_all num_char x" if "serializeLedgerJsonValue u = Inr x" "json_data u" "value_kind u = KNumber" for u x
    using that int_text_chars by (cases u) (auto simp: float_text_def split: if_splits)
  from number_prefix [OF assms(6) chars [OF assms(1-3)] chars [OF assms(5,4) kind] assms(7,8)]
  have "s = t" "r = q" by auto
  moreover from \<open>s = t\<close> have "v = w"
    using assms(1-5) kind
    by (cases v; cases w) (auto dest: float_not_int split: if_splits)
  ultimately show ?thesis using assms(3) by (auto intro!: same_atom)
qed

lemma told_apart_literal:
  assumes "json_data v" "value_kind v \<in> {KNull, KTrue, KFalse}"
  shows "told_apart v"
  unfolding told_apart_def
proof (intro allI impI)
  fix w s t r q
  assume w: "json_data w" and s: "serializeLedgerJsonValue v = Inr s"
    and t: "serializeLedgerJsonValue w = Inr t" and eq: "s @ r = t @ q"
  have "value_kind w = value_kind v"
    using serialized_head [OF assms(1) s, of r] serialized_head [OF w t, of q] eq by simp
  then have "w = v" "\<forall>xs. v \<noteq> JArr xs" "\<forall>ps. v \<noteq> JObj ps"
    using assms w by (cases v; cases w; simp split: if_splits)+
  with s t eq show "same_json v w \<and> s = t \<and> r = q" by (auto intro: same_atom)
qed

lemma told_apart_all: "json_data v \<Longrightarrow> told_apart v"
proof (induction v rule: serializeLedgerJsonValue.induct)
  case (4 n)
  show ?case unfolding told_apart_def
    by (intro allI impI) (rule told_apart_number, simp_all)
next
  case (5 x)
  show ?case unfolding told_apart_def
    by (intro allI impI) (rule told_apart_number [OF _ 5], simp_all)
next
  case (6 a)
  show ?case unfolding told_apart_def
  proof (intro allI impI)
    fix w s t r q
    assume w: "json_data w" and s: "serializeLedgerJsonValue (JStr a) = Inr s"
      and t: "serializeLedgerJsonValue w = Inr t" and eq: "s @ r = t @ q"
    have "value_kind w = KString"
      using serialized_head [OF 6 s, of r] serialized_head [OF w t, of q] eq by simp
    then obtain b where b: "w = JStr b" by (cases w) (auto split: if_splits)
    with s t eq quote_prefix [of a r b q] 6 w have "a = b \<and> r = q" by simp
    with s t b show "same_json (JStr a) w \<and> s = t \<and> r = q" by (auto intro: same_atom)
  qed
next
  case (7 xs)
  then show ?case by (intro told_apart_arr) auto
next
  case (8 ps)
  show ?case
  proof (rule told_apart_obj [OF _ 8(2)])
    fix p assume p: "p \<in> set ps"
    obtain k v where kv: "p = (k, v)" by (cases p)
    from p 8(2) have "json_data v" by (auto simp: kv)
    have "told_apart v" by (rule 8(1) [of p k v]) (use p kv \<open>json_data v\<close> in simp_all)
    then show "told_apart (snd p)" by (simp add: kv)
  qed
qed (simp_all add: told_apart_literal)

lemma mapR_eq: "list_all2 (\<lambda>x y. f x = g y) xs ys \<Longrightarrow> mapR f xs = mapR g ys"
  by (induction xs ys rule: list_all2_induct) auto

lemma same_properties_sorted:
  fixes ps qs :: "(ustr \<times> 'v) list"
  assumes "\<And>k. rel_option R (map_of ps k) (map_of qs k)"
    and "distinct (map fst ps)" "distinct (map fst qs)"
  shows "list_all2 (\<lambda>p q. p \<in> set ps \<and> q \<in> set qs \<and> fst p = fst q \<and> R (snd p) (snd q))
    (sort_key fst ps) (sort_key fst qs)"
proof -
  let ?ps = "sort_key fst ps" and ?qs = "sort_key fst qs"
  have "(k \<in> fst ` set ps) = (k \<in> fst ` set qs)" for k
  proof -
    have "map_of ps k = None \<longleftrightarrow> map_of qs k = None"
      using assms(1) [of k] by (cases "map_of ps k"; cases "map_of qs k") simp_all
    then show ?thesis by (simp add: map_of_eq_None_iff)
  qed
  then have "set (map fst ?ps) = set (map fst ?qs)" by auto
  then have keys: "map fst ?ps = map fst ?qs"
    using assms(2,3) by (intro sorted_distinct_set_unique) (simp_all add: distinct_sort_key)
  then have len: "length ?ps = length ?qs" by (metis length_map)
  show ?thesis
  proof (rule list_all2_all_nthI [OF len])
    fix i assume i: "i < length ?ps"
    let ?p = "?ps ! i" and ?q = "?qs ! i"
    have mem: "?p \<in> set ps" "?q \<in> set qs" using i len by (metis nth_mem set_sort)+
    have fst: "fst ?p = fst ?q" using keys i len by (metis nth_map)
    have "map_of ps (fst ?p) = Some (snd ?p)" "map_of qs (fst ?q) = Some (snd ?q)"
      using mem assms(2,3) by simp_all
    with assms(1) [of "fst ?p"] fst mem show
      "?p \<in> set ps \<and> ?q \<in> set qs \<and> fst ?p = fst ?q \<and> R (snd ?p) (snd ?q)" by simp
  qed
qed

lemma same_json_text:
  "same_json v w \<Longrightarrow> json_data v \<Longrightarrow> json_data w \<Longrightarrow>
     serializeLedgerJsonValue v = serializeLedgerJsonValue w"
proof (induction rule: same_json.induct)
  case (same_arr xs ys)
  have "list_all2 (\<lambda>x y. serializeLedgerJsonValue x = serializeLedgerJsonValue y) xs ys"
    using same_arr by (auto simp: list_all2_conv_all_nth)
  then show ?case by (simp add: mapR_eq)
next
  case (same_obj ps qs)
  have "list_all2 (\<lambda>p q. serializeProperty p = serializeProperty q) (sort_key fst ps) (sort_key fst qs)"
  proof (rule list_all2_mono)
    show "list_all2 (\<lambda>p q. p \<in> set ps \<and> q \<in> set qs \<and> fst p = fst q \<and>
        (same_json (snd p) (snd q) \<and> (json_data (snd p) \<longrightarrow> json_data (snd q) \<longrightarrow>
          serializeLedgerJsonValue (snd p) = serializeLedgerJsonValue (snd q))))
        (sort_key fst ps) (sort_key fst qs)"
      by (rule same_properties_sorted) (use same_obj in auto)
  qed (use same_obj.prems in \<open>auto simp: serializeProperty_def split: prod.splits\<close>)
  then show ?case unfolding serialize_obj by (simp add: mapR_eq)
qed simp

lemma serialize_identifies:
  assumes "json_data v" "json_data w"
  shows "stableSerializeLedgerJson v = stableSerializeLedgerJson w \<longleftrightarrow> same_json v w"
proof -
  obtain s t where "serializeLedgerJsonValue v = Inr s" "serializeLedgerJsonValue w = Inr t"
    using serialize_total assms by metis
  then show ?thesis
    using told_apartD [OF told_apart_all [OF assms(1)] assms(2), of s t "[]" "[]"]
      same_json_text [OF _ assms] by (auto simp: stableSerializeLedgerJson_def)
qed

text \<open>
  Property C31. The text behind a fingerprint identifies the request: on JSON data the stable
  serialization always succeeds, and two values have the same text exactly when they are the same
  up to the order of the properties of their objects.
\<close>

theorem fingerprint_text_identifies:
  assumes "json_data v" "json_data w"
  shows "(\<exists>t. stableSerializeLedgerJson v = Inr t)
    \<and> (stableSerializeLedgerJson v = stableSerializeLedgerJson w \<longleftrightarrow> same_json v w)"
  using serialize_total [OF assms(1)] serialize_identifies [OF assms]
  by (simp add: stableSerializeLedgerJson_def)

text \<open>
  Property C30. A key that was used for one request is never accepted for a different one: after a
  first success, a request with other content under the same scope and key is answered with the
  idempotency conflict and the database is left alone, as long as SHA-256 does not collide on the
  two texts.
\<close>

theorem reused_key_conflicts:
  assumes "executeIdempotentLedgerCreate rt scope key request mutation t db = (Inr r, db1)"
    and "\<forall>s. isFingerprint (rt_sha256 rt s)" "scope \<noteq> []" "key \<noteq> []"
    and "json_data request" "json_data request'" "\<not> same_json request request'"
    and "\<forall>s u. stableSerializeLedgerJson request = Inr s \<longrightarrow> stableSerializeLedgerJson request' = Inr u
      \<longrightarrow> rt_sha256 rt s = rt_sha256 rt u \<longrightarrow> s = u"
    and "db_idempotency db2 = db_idempotency db1 @ later"
  shows "executeIdempotentLedgerCreate rt scope key request' mutation' t' db2 =
    (Inl (LedgerError LIdempotencyConflict 409 None), db2)"
proof -
  obtain s u where su: "stableSerializeLedgerJson request = Inr s" "stableSerializeLedgerJson request' = Inr u"
    using serialize_total assms(5,6) by (metis stableSerializeLedgerJson_def)
  with serialize_identifies [OF assms(5,6)] assms(7) have "s \<noteq> u" by auto
  with assms(8) su have ne: "rt_sha256 rt s \<noteq> rt_sha256 rt u" by blast
  from assms(1) su have run: "\<not> write_locked rt"
    "replayOrCreate rt scope key (rt_sha256 rt s) mutation t db = Inr (r, db1)"
    by (auto simp: execute_Inr fingerprintLedgerMutation_def)
  from replayOrCreate_stored [OF run(2) _ assms(3,4)] assms(2) obtain row
    where row: "lookup_by idem_key (scope, key) (db_idempotency db1) = Some row"
      "idempotencyRecordFromRow (idemRowObj row) = Inr row"
      "ri_request_fingerprint row = rt_sha256 rt s"
      "ri_response_status row = 200 \<or> ri_response_status row = 201"
    by metis
  have "lookup_by idem_key (scope, key) (db_idempotency db2) = Some row"
    using row(1) assms(9) by simp
  from replayOrCreate_again [OF this row(2,4), of rt "rt_sha256 rt u" mutation' t'] show ?thesis
    using su run(1) row(3) ne
    by (simp add: executeIdempotentLedgerCreate_def fingerprintLedgerMutation_def runLedgerWrite_def
        isSqliteBusy_def)
qed

section \<open>An example run\<close>

inductive_simps same_json_obj [simp]: "same_json (JObj ps) (JObj qs)"
inductive_simps same_json_str [simp]: "same_json (JStr a) (JStr b)"

definition demo_post :: "string \<Rightarrow> jval" where
  "demo_post name = JObj [(js ''name'', JStr (js name))]"

definition hash_runtime :: runtime where
  "hash_runtime = demo_runtime\<lparr>rt_sha256 := (\<lambda>s. replicate 64
     (if stableSerializeLedgerJson (demo_post ''Food'') = Inr s then 48 else 49))\<rparr>"

definition demo_category_body :: jval where
  "demo_category_body = JObj [(js ''id'', JStr (js ''c1'')), (js ''kind'', JStr (js ''expense'')),
     (js ''name'', JStr (js ''Food'')), (js ''normalizedName'', JStr (js ''food'')),
     (js ''archivedAt'', JNull), (js ''version'', JInt 1), (js ''createdAt'', JInt 5),
     (js ''updatedAt'', JInt 5)]"

definition demo_mutation :: "ledger_db \<Rightarrow> (idempotent_result \<times> ledger_db) res" where
  "demo_mutation db = Inr (\<lparr>ir_resultStatus = Committed, ir_responseStatus = 201,
     ir_responseBody = demo_category_body, ir_resultType = Some (js ''category''),
     ir_resultId = Some (js ''c1'')\<rparr>, db)"

lemma demo_body_accepted: "assertLedgerReplayResponseBody demo_category_body = Inr demo_category_body"
  by (simp add: assertLedgerReplayResponseBody_def demo_category_body_def replayDataObject_def
      assertLedgerCategoryReplayBody_def replayExactObject_def hasOwnValue_def
      LEDGER_CATEGORY_REPLAY_KEYS_def assertReplayString_def replayCheck_def assertReplayEnum_def
      ifReplayKey_def assertReplayNullableSafeInteger_def assertReplayPositiveSafeInteger_def
      assertReplaySafeInteger_def is_safe_def MAX_SAFE_def checkR_def)

lemma js_units16: "list_all (\<lambda>c. of_char c < (65536 :: nat)) s \<Longrightarrow> units16 (js s)"
  by (simp add: units16_def js_def list_all_iff)

lemma demo_post_data: "json_data (demo_post ''Food'')" "json_data (demo_post ''Rent'')"
  by (simp_all add: demo_post_def js_units16)

lemma demo_body_data: "json_data demo_category_body"
  by (simp add: demo_category_body_def js_units16)

lemma demo_posts_differ: "\<not> same_json (demo_post ''Food'') (demo_post ''Rent'')"
  by (auto simp: demo_post_def intro!: exI [of _ "js ''name''"])

lemma hash_runtime_fingerprints: "isFingerprint (rt_sha256 hash_runtime s)"
  by (simp add: hash_runtime_def isFingerprint_def is_digit_def list_all_iff)

lemma hash_runtime_no_collision:
  "\<forall>s u. stableSerializeLedgerJson (demo_post ''Food'') = Inr s \<longrightarrow>
     stableSerializeLedgerJson (demo_post ''Rent'') = Inr u \<longrightarrow>
     rt_sha256 hash_runtime s = rt_sha256 hash_runtime u \<longrightarrow> s = u"
proof -
  have "replicate 64 48 \<noteq> replicate 64 (49 :: nat)" by (simp only: replicate_eq_replicate) simp
  then show ?thesis by (auto simp: hash_runtime_def split: if_splits)
qed

lemma demo_first_run:
  "\<exists>r db1. executeIdempotentLedgerCreate hash_runtime (js ''s'') (js ''k'') (demo_post ''Food'')
     demo_mutation (Some 5) demo_db = (Inr r, db1)"
proof -
  obtain s where s: "stableSerializeLedgerJson (demo_post ''Food'') = Inr s"
    using serialize_total [OF demo_post_data(1)] by (auto simp: stableSerializeLedgerJson_def)
  obtain b where b: "stableSerializeLedgerJson demo_category_body = Inr b"
    using serialize_total [OF demo_body_data] by (auto simp: stableSerializeLedgerJson_def)
  have noop: "\<not> isLedgerAdjustmentNoOpReplayBody demo_category_body"
    by (simp add: isLedgerAdjustmentNoOpReplayBody_def demo_category_body_def)
  have "length (code_points (rt_sha256 hash_runtime s)) = 64"
    using hash_runtime_fingerprints [of s] by (simp add: fingerprint_code_points isFingerprint_def)
  moreover have "\<not> write_locked hash_runtime" by (simp add: hash_runtime_def demo_runtime_def)
  moreover have "db_idempotency demo_db = []" by (simp add: demo_db_def)
  ultimately show ?thesis
    by (simp add: execute_Inr fingerprintLedgerMutation_def s replayOrCreate_def getIdempotencyRecord_def
        runNestedLedgerWrite_def demo_mutation_def assertMutationResult_def noop
        assertLedgerCommittedReplayResponseBody_def demo_body_accepted serializeLedgerReplayResponse_def b
        insertIdempotencyRecord_def idem_check_def result_status_text_def is_safe_def MAX_SAFE_def)
qed

theorem retried_create_replays_witness:
  "\<exists>r db1. executeIdempotentLedgerCreate hash_runtime (js ''s'') (js ''k'') (demo_post ''Food'')
       demo_mutation (Some 5) demo_db = (Inr r, db1)
     \<and> executeIdempotentLedgerCreate hash_runtime (js ''s'') (js ''k'') (demo_post ''Food'')
       (\<lambda>_. Inl PlainErr) None db1
       = (Inr \<lparr>rr_responseStatus = rr_responseStatus r, rr_responseBodyJson = rr_responseBodyJson r,
            rr_replayed = True\<rparr>, db1)"
proof -
  obtain r db1 where first: "executeIdempotentLedgerCreate hash_runtime (js ''s'') (js ''k'')
      (demo_post ''Food'') demo_mutation (Some 5) demo_db = (Inr r, db1)"
    using demo_first_run by blast
  have "executeIdempotentLedgerCreate hash_runtime (js ''s'') (js ''k'') (demo_post ''Food'')
       (\<lambda>_. Inl PlainErr) None db1
       = (Inr \<lparr>rr_responseStatus = rr_responseStatus r, rr_responseBodyJson = rr_responseBodyJson r,
            rr_replayed = True\<rparr>, db1)"
    by (rule retried_create_replays [OF first, where later = "[]"])
       (simp_all add: hash_runtime_fingerprints)
  with first show ?thesis by blast
qed

theorem reused_key_conflicts_witness:
  "\<exists>r db1. executeIdempotentLedgerCreate hash_runtime (js ''s'') (js ''k'') (demo_post ''Food'')
       demo_mutation (Some 5) demo_db = (Inr r, db1)
     \<and> executeIdempotentLedgerCreate hash_runtime (js ''s'') (js ''k'') (demo_post ''Rent'')
       demo_mutation None db1 = (Inl (LedgerError LIdempotencyConflict 409 None), db1)"
proof -
  obtain r db1 where first: "executeIdempotentLedgerCreate hash_runtime (js ''s'') (js ''k'')
      (demo_post ''Food'') demo_mutation (Some 5) demo_db = (Inr r, db1)"
    using demo_first_run by blast
  have "executeIdempotentLedgerCreate hash_runtime (js ''s'') (js ''k'') (demo_post ''Rent'')
       demo_mutation None db1 = (Inl (LedgerError LIdempotencyConflict 409 None), db1)"
    by (rule reused_key_conflicts [OF first, where later = "[]"])
       (simp_all add: hash_runtime_fingerprints demo_post_data demo_posts_differ hash_runtime_no_collision)
  with first show ?thesis by blast
qed

theorem fingerprint_text_identifies_witness:
  "stableSerializeLedgerJson (demo_post ''Food'') \<noteq> stableSerializeLedgerJson (demo_post ''Rent'')"
  using fingerprint_text_identifies [OF demo_post_data] demo_posts_differ by simp

end
