(* ===== verification/LedgerService.thy ===== *)
theory LedgerService
  imports LedgerIdempotency
begin

text \<open>
  The Ledger service (server/ledger/service.ts) and the category seed
  (server/ledger/defaultCategories.ts): the response objects, the domain assertions, and every
  operation of the service. A mutation is a function on the database that fails or returns its
  response with the changed database; the operation runs it in the write transaction. The record
  \<open>service_deps\<close> holds the injected dependencies: \<open>dep_now k\<close> and \<open>dep_createId k\<close> are the results
  of the \<open>k\<close>-th call of the clock and of the identifier generator during the operation.
\<close>

section \<open>Dependencies and errors\<close>

record service_deps =
  dep_now :: "nat \<Rightarrow> int"
  dep_createId :: "nat \<Rightarrow> ustr"

definition asMutationRecord :: "jval \<Rightarrow> jobj option" where
  "asMutationRecord v = (case v of JObj r \<Rightarrow> Some r | _ \<Rightarrow> None)"

definition notFound :: js_error where
  "notFound = LedgerError LNotFound 404 None"

definition versionConflict :: js_error where
  "versionConflict = LedgerError LVersionConflict 409 None"

definition assertExpectedVersion :: "int \<Rightarrow> int \<Rightarrow> unit res" where
  "assertExpectedVersion currentVersion expectedVersion =
     checkR (currentVersion = expectedVersion) versionConflict"

definition nextVersion :: "int \<Rightarrow> int res" where
  "nextVersion currentVersion =
     (if currentVersion \<ge> MAX_SAFE then Inl (ledgerValidationError ''version'')
      else Inr (currentVersion + 1))"

definition generatedTimestamp :: "runtime \<Rightarrow> service_deps \<Rightarrow> nat \<Rightarrow> int res" where
  "generatedTimestamp rt d k = assertUtcMilliseconds rt (JInt (dep_now d k)) ''server timestamp''"

definition generatedId :: "service_deps \<Rightarrow> nat \<Rightarrow> ustr res" where
  "generatedId d k =
     (if dep_createId d k = [] then Inl (ledgerValidationError []) else Inr (dep_createId d k))"

definition invalidAccountPair :: js_error where
  "invalidAccountPair = LedgerError LInvalidAccountPair 400 (Some (js ''nature''))"

definition assertAccountPair :: "account_type \<Rightarrow> account_nature \<Rightarrow> unit res" where
  "assertAccountPair ty nature = checkR (isLedgerAccountTypeNature ty nature) invalidAccountPair"

definition duplicateCategory :: js_error where
  "duplicateCategory = LedgerError LDuplicateCategory 409 None"

definition archivedAccount :: js_error where
  "archivedAccount = LedgerError LArchivedAccount 409 None"

definition archivedCategory :: js_error where
  "archivedCategory = LedgerError LArchivedCategory 409 None"

definition invalidTransactionPair :: js_error where
  "invalidTransactionPair = ledgerValidationError ''toAccountId''"

definition categoryKindMismatch :: js_error where
  "categoryKindMismatch = LedgerError LCategoryKindMismatch 409 (Some (js ''categoryId''))"

definition transactionTypeImmutable :: js_error where
  "transactionTypeImmutable = LedgerError LTransactionTypeImmutable 409 (Some (js ''type''))"

definition transactionDeleted :: js_error where
  "transactionDeleted = LedgerError LTransactionDeleted 409 None"

definition adjustmentImmutable :: js_error where
  "adjustmentImmutable = LedgerError LAdjustmentImmutable 409 None"

definition currencyMismatch :: "string \<Rightarrow> js_error" where
  "currencyMismatch field = LedgerError LCurrencyMismatch 409 (Some (js field))"

section \<open>Response objects\<close>

text \<open>\<open>...(v && v !== 'wallet' ? { icon: v } : {})\<close>\<close>

definition iconEntry :: "ustr option \<Rightarrow> jobj" where
  "iconEntry v = (case v of
     Some s \<Rightarrow> if s \<noteq> [] \<and> s \<noteq> js ''wallet'' then [(js ''icon'', JStr s)] else []
   | None \<Rightarrow> [])"

text \<open>\<open>...(v ? { key: v } : {})\<close> for an optional string.\<close>

definition truthyEntry :: "string \<Rightarrow> ustr option \<Rightarrow> jobj" where
  "truthyEntry k v = (case v of Some s \<Rightarrow> if s \<noteq> [] then [(js k, JStr s)] else [] | None \<Rightarrow> [])"

definition iconConfigJson :: "icon_config \<Rightarrow> jval" where
  "iconConfigJson c = JObj
     ([(js ''defaultIcon'', JStr (defaultIcon c)),
       (js ''availableIcons'', JArr (map JStr (availableIcons c)))]
      @ (case archivedIcons c of None \<Rightarrow> [] | Some xs \<Rightarrow> [(js ''archivedIcons'', JArr (map JStr xs))])
      @ [(js ''customIcons'', strRecord (customIcons c)),
         (js ''customIconNames'', strRecord (customIconNames c))])"

definition toSettingsDto :: "runtime \<Rightarrow> settings \<Rightarrow> jval res" where
  "toSettingsDto rt s =
     bindR (currencyExponentFor rt (JStr (s_baseCurrency s))) (\<lambda>e.
     Inr (JObj [(js ''baseCurrency'', JStr (s_baseCurrency s)), (js ''currencyExponent'', JInt (int e)),
       (js ''timezone'', JStr (s_timezone s)), (js ''hasCreatedAccount'', JBool (s_hasCreatedAccount s)),
       (js ''version'', JInt (s_version s)), (js ''createdAt'', JInt (s_createdAt s)),
       (js ''updatedAt'', JInt (s_updatedAt s)), (js ''accountIcons'', iconConfigJson (s_accountIcons s))]))"

definition toCategoryDto :: "category \<Rightarrow> jval" where
  "toCategoryDto c = JObj
     ([(js ''id'', JStr (c_id c)), (js ''kind'', JStr (enum_text LEDGER_CATEGORY_KINDS (c_kind c))),
       (js ''name'', JStr (c_name c)), (js ''normalizedName'', JStr (c_normalizedName c))]
      @ (case c_systemKey c of None \<Rightarrow> []
         | Some k \<Rightarrow> [(js ''systemKey'', JStr (enum_text LEDGER_SYSTEM_KEYS k))])
      @ (if c_isDefault c \<or> c_systemKey c \<noteq> None then [(js ''protected'', JBool True)] else [])
      @ iconEntry (c_icon c)
      @ [(js ''archivedAt'', nullInt (c_archivedAt c)), (js ''version'', JInt (c_version c)),
         (js ''createdAt'', JInt (c_createdAt c)), (js ''updatedAt'', JInt (c_updatedAt c))])"

definition transactionDtoBase :: "tx_base \<Rightarrow> bool \<Rightarrow> jobj" where
  "transactionDtoBase b excluded =
     [(js ''id'', JStr (t_id b))] @ truthyEntry ''groupId'' (t_groupId b)
     @ [(js ''excludedFromStatistics'', JBool excluded), (js ''amountMinor'', JInt (t_amountMinor b)),
        (js ''occurredAt'', JInt (t_occurredAt b)), (js ''location'', JStr (t_location b)),
        (js ''note'', JStr (t_note b)), (js ''deletedAt'', nullInt (t_deletedAt b)),
        (js ''version'', JInt (t_version b)), (js ''createdAt'', JInt (t_createdAt b)),
        (js ''updatedAt'', JInt (t_updatedAt b))]"

primrec toTransactionDto :: "tx \<Rightarrow> bool \<Rightarrow> jval" where
  "toTransactionDto (IncomeTx b acct cat payee) excluded = JObj (transactionDtoBase b excluded
     @ [(js ''type'', JStr (js ''income'')), (js ''accountId'', JStr acct),
        (js ''categoryId'', JStr cat), (js ''payee'', JStr payee)])"
| "toTransactionDto (ExpenseTx b acct cat payee) excluded = JObj (transactionDtoBase b excluded
     @ [(js ''type'', JStr (js ''expense'')), (js ''accountId'', JStr acct),
        (js ''categoryId'', JStr cat), (js ''payee'', JStr payee)])"
| "toTransactionDto (TransferTx b kind fee src dst payee) excluded = JObj (transactionDtoBase b excluded
     @ [(js ''type'', JStr (js ''transfer'')),
        (js ''transferKind'', JStr (enum_text LEDGER_TRANSFER_KINDS kind))]
     @ (case fee of None \<Rightarrow> []
        | Some m \<Rightarrow> [(js ''feeMode'', JStr (enum_text LEDGER_TRANSFER_FEE_MODES m))])
     @ [(js ''fromAccountId'', JStr src), (js ''toAccountId'', JStr dst), (js ''payee'', JStr payee)])"
| "toTransactionDto (AdjustmentTx b acct calculated target) excluded = JObj (transactionDtoBase b excluded
     @ [(js ''type'', JStr (js ''adjustment'')), (js ''accountId'', JStr acct),
        (js ''adjustmentCalculatedBalanceMinor'', JInt calculated),
        (js ''adjustmentTargetBalanceMinor'', JInt target)])"

definition deletedResponse :: "ustr \<Rightarrow> jval" where
  "deletedResponse i = JObj [(js ''deleted'', JBool True), (js ''id'', JStr i)]"

definition toAccountDto :: "runtime \<Rightarrow> account \<Rightarrow> ledger_db \<Rightarrow> jval res" where
  "toAccountDto rt a db =
     bindR (currencyExponentFor rt (JStr (a_currency a))) (\<lambda>e.
     bindR (listActiveTransactionsForAccount rt (a_id a) db) (\<lambda>ts.
     bindR (deriveCurrentBalance a ts) (\<lambda>balance.
     Inr (JObj
       ([(js ''id'', JStr (a_id a)), (js ''name'', JStr (a_name a)),
         (js ''type'', JStr (enum_text LEDGER_ACCOUNT_TYPES (a_type a))),
         (js ''nature'', JStr (enum_text LEDGER_ACCOUNT_NATURES (a_nature a)))]
        @ iconEntry (a_icon a)
        @ [(js ''openingBalanceMinor'', JInt (a_openingBalanceMinor a)),
           (js ''openingDate'', JStr (a_openingDate a)), (js ''currency'', JStr (a_currency a)),
           (js ''currencyExponent'', JInt (int e)), (js ''note'', JStr (a_note a))]
        @ truthyEntry ''cardNumber'' (a_cardNumber a)
        @ [(js ''archivedAt'', nullInt (a_archivedAt a)), (js ''version'', JInt (a_version a)),
           (js ''createdAt'', JInt (a_createdAt a)), (js ''updatedAt'', JInt (a_updatedAt a)),
           (js ''currentBalanceMinor'', JInt balance)])))))"

section \<open>Lookups and domain assertions\<close>

definition requireSettings :: "runtime \<Rightarrow> ledger_db \<Rightarrow> settings res" where
  "requireSettings rt db =
     bindR (getSettings rt db) (\<lambda>s. case s of None \<Rightarrow> Inl notFound | Some x \<Rightarrow> Inr x)"

definition requireAccount :: "runtime \<Rightarrow> ustr \<Rightarrow> ledger_db \<Rightarrow> account res" where
  "requireAccount rt i db =
     bindR (getAccount rt i db) (\<lambda>a. case a of None \<Rightarrow> Inl notFound | Some x \<Rightarrow> Inr x)"

definition requireActiveAccount :: "runtime \<Rightarrow> ustr \<Rightarrow> ledger_db \<Rightarrow> account res" where
  "requireActiveAccount rt i db =
     bindR (requireAccount rt i db) (\<lambda>a.
     if a_archivedAt a \<noteq> None then Inl archivedAccount else Inr a)"

definition requireCategory :: "runtime \<Rightarrow> ustr \<Rightarrow> ledger_db \<Rightarrow> category res" where
  "requireCategory rt i db =
     bindR (getCategory rt i db) (\<lambda>c. case c of None \<Rightarrow> Inl notFound | Some x \<Rightarrow> Inr x)"

definition assertTransactionCurrency :: "settings \<Rightarrow> account \<Rightarrow> unit res" where
  "assertTransactionCurrency s a =
     checkR (a_currency a = s_baseCurrency s) (currencyMismatch ''accountId'')"

definition openingDateConflict :: js_error where
  "openingDateConflict = LedgerError LOpeningDateConflict 409 (Some (js ''occurredAt''))"

definition assertTransactionTime :: "runtime \<Rightarrow> settings \<Rightarrow> account list \<Rightarrow> int \<Rightarrow> int \<Rightarrow> unit res" where
  "assertTransactionTime rt s accounts occurredAt nowMs =
     bindR (validateOccurredAt rt (JInt occurredAt) nowMs) (\<lambda>_.
     bindR (mapR (\<lambda>a.
       bindR (openingBoundaryMs rt (a_openingDate a) (s_timezone s)) (\<lambda>b.
       if occurredAt < b then Inl openingDateConflict else Inr ())) accounts) (\<lambda>_. Inr ()))"

definition assertCategoryForTransaction :: "category \<Rightarrow> category_kind \<Rightarrow> unit res" where
  "assertCategoryForTransaction c ty = checkR (c_kind c = ty) categoryKindMismatch"

definition requireSystemCategory :: "runtime \<Rightarrow> system_key \<Rightarrow> ledger_db \<Rightarrow> category res" where
  "requireSystemCategory rt key db =
     bindR (findCategoryBySystemKey rt key db) (\<lambda>c.
     case c of
       None \<Rightarrow> Inl (ledgerValidationError ''systemKey'')
     | Some x \<Rightarrow> if c_archivedAt x \<noteq> None then Inl (ledgerValidationError ''systemKey'') else Inr x)"

definition companionPayee :: "transfer_kind \<Rightarrow> ustr \<Rightarrow> ustr \<Rightarrow> ustr \<Rightarrow> ustr" where
  "companionPayee kind fromName toName transferPayee =
     (case kind of
        Repayment \<Rightarrow> toName @ [36824, 27454, 21033, 24687]
      | Withdrawal \<Rightarrow> fromName @ [25552, 29616, 25163, 32493, 36153]
      | General \<Rightarrow> transferPayee)"

definition assertTransferKindAccounts :: "transfer_kind \<Rightarrow> account \<Rightarrow> account \<Rightarrow> unit res" where
  "assertTransferKindAccounts kind src dst =
     checkR (kind = General
       \<or> (kind = Repayment \<and> a_nature src = Asset \<and> a_nature dst = Liability)
       \<or> (kind = Withdrawal \<and> a_nature src = Asset \<and> a_nature dst = Asset))
       (ledgerValidationError ''transferKind'')"

primrec transactionAccountIds :: "tx \<Rightarrow> ustr list" where
  "transactionAccountIds (IncomeTx b acct cat payee) = [acct]"
| "transactionAccountIds (ExpenseTx b acct cat payee) = [acct]"
| "transactionAccountIds (TransferTx b kind fee src dst payee) = [src, dst]"
| "transactionAccountIds (AdjustmentTx b acct calculated target) = [acct]"

definition transactionAccounts :: "runtime \<Rightarrow> tx \<Rightarrow> ledger_db \<Rightarrow> account list res" where
  "transactionAccounts rt t db = mapR (\<lambda>i. requireAccount rt i db) (transactionAccountIds t)"

definition someArchived :: "account list \<Rightarrow> bool" where
  "someArchived accounts = list_ex (\<lambda>a. a_archivedAt a \<noteq> None) accounts"

definition assertTransactionAccountsNotArchived :: "runtime \<Rightarrow> tx \<Rightarrow> ledger_db \<Rightarrow> unit res" where
  "assertTransactionAccountsNotArchived rt t db =
     bindR (transactionAccounts rt t db) (\<lambda>as. checkR (\<not> someArchived as) archivedAccount)"

definition onlyKeys :: "string list \<Rightarrow> jobj \<Rightarrow> bool" where
  "onlyKeys allowed r = list_all (\<lambda>(k, v). k \<in> set (map js allowed)) r"

definition assertArchivedPatchWhitelist :: "runtime \<Rightarrow> tx \<Rightarrow> jobj option \<Rightarrow> ledger_db \<Rightarrow> unit res" where
  "assertArchivedPatchWhitelist rt t rawRecord db =
     bindR (transactionAccounts rt t db) (\<lambda>as.
     if \<not> someArchived as then Inr ()
     else case rawRecord of
       None \<Rightarrow> Inl archivedAccount
     | Some r \<Rightarrow> checkR (onlyKeys
         (if tx_type t = TIncome \<or> tx_type t = TExpense
          then [''expectedVersion'', ''location'', ''note'', ''payee'']
          else [''expectedVersion'', ''location'', ''note'']) r) archivedAccount)"

definition assertCandidateAccountsNotArchived :: "runtime \<Rightarrow> tx \<Rightarrow> jobj option \<Rightarrow> ledger_db \<Rightarrow> unit res" where
  "assertCandidateAccountsNotArchived rt t rawRecord db =
     (case rawRecord of
        None \<Rightarrow> Inr ()
      | Some r \<Rightarrow>
          bindR (mapR (\<lambda>field.
            case jget r field of
              JStr i \<Rightarrow> bindR (getAccount rt i db) (\<lambda>a.
                case a of None \<Rightarrow> Inr () | Some x \<Rightarrow> checkR (a_archivedAt x = None) archivedAccount)
            | _ \<Rightarrow> Inr ())
            (if tx_type t = TTransfer then [''fromAccountId'', ''toAccountId''] else [''accountId'']))
          (\<lambda>_. Inr ()))"

text \<open>\<open>hasOwn(patch, field)\<close> of a parsed patch.\<close>

definition patchHas :: "tx_patch \<Rightarrow> string \<Rightarrow> bool" where
  "patchHas p field = (\<exists>(k, present)\<in>set
     [(''type'', tp_type p \<noteq> None), (''transferKind'', tp_transferKind p \<noteq> None),
      (''amountMinor'', tp_amountMinor p \<noteq> None), (''feeMinor'', tp_feeMinor p \<noteq> None),
      (''feeMode'', tp_feeMode p \<noteq> None), (''accountId'', tp_accountId p \<noteq> None),
      (''fromAccountId'', tp_fromAccountId p \<noteq> None), (''toAccountId'', tp_toAccountId p \<noteq> None),
      (''categoryId'', tp_categoryId p \<noteq> None), (''occurredAt'', tp_occurredAt p \<noteq> None),
      (''location'', tp_location p \<noteq> None), (''payee'', tp_payee p \<noteq> None), (''note'', tp_note p \<noteq> None),
      (''adjustmentCalculatedBalanceMinor'', tp_calculated p \<noteq> None),
      (''adjustmentTargetBalanceMinor'', tp_target p \<noteq> None)]. k = field \<and> present)"

definition assertPatchFields :: "tx \<Rightarrow> tx_patch \<Rightarrow> unit res" where
  "assertPatchFields t p =
     (let inapplicable =
        (if tx_type t = TIncome \<or> tx_type t = TExpense
         then [''transferKind'', ''fromAccountId'', ''toAccountId'', ''feeMinor'', ''feeMode'',
               ''adjustmentCalculatedBalanceMinor'', ''adjustmentTargetBalanceMinor'']
         else if tx_type t = TTransfer
         then [''accountId'', ''categoryId'', ''adjustmentCalculatedBalanceMinor'',
               ''adjustmentTargetBalanceMinor'']
         else [''transferKind'', ''amountMinor'', ''accountId'', ''fromAccountId'', ''toAccountId'',
               ''categoryId'', ''occurredAt'', ''payee'', ''feeMinor'', ''feeMode'',
               ''adjustmentCalculatedBalanceMinor'', ''adjustmentTargetBalanceMinor''])
      in case find (patchHas p) inapplicable of
           None \<Rightarrow> Inr ()
         | Some field \<Rightarrow>
             Inl (if tx_type t = TAdjustment then adjustmentImmutable else ledgerValidationError field))"

definition assertCandidateCategory :: "runtime \<Rightarrow> ustr \<Rightarrow> category_kind \<Rightarrow> ledger_db \<Rightarrow> category res" where
  "assertCandidateCategory rt i ty db =
     bindR (requireCategory rt i db) (\<lambda>c.
     if c_archivedAt c \<noteq> None then Inl archivedCategory
     else bindR (assertCategoryForTransaction c ty) (\<lambda>_. Inr c))"

section \<open>Settings\<close>

text \<open>\<open>if (repository.update...(...) !== 1) versionConflict()\<close>.\<close>

definition expectOneChange :: "(nat \<times> ledger_db) res \<Rightarrow> ledger_db res" where
  "expectOneChange r = bindR r (\<lambda>(changes, db). if changes \<noteq> 1 then Inl versionConflict else Inr db)"

text \<open>The version check that precedes the payload parser, for a payload that is an object.\<close>

definition precheckVersion :: "jobj option \<Rightarrow> int \<Rightarrow> unit res" where
  "precheckVersion rawRecord currentVersion =
     (case rawRecord of
        None \<Rightarrow> Inr ()
      | Some r \<Rightarrow> bindR (parseExpectedVersion r) (\<lambda>v. assertExpectedVersion currentVersion v))"

definition timezoneLocked :: js_error where
  "timezoneLocked = LedgerError LTimezoneLocked 409 (Some (js ''timezone''))"

definition baseCurrencyLocked :: js_error where
  "baseCurrencyLocked = LedgerError LBaseCurrencyLocked 409 (Some (js ''baseCurrency''))"

definition checkSettingsLock :: "runtime \<Rightarrow> settings \<Rightarrow> jval \<Rightarrow> unit res" where
  "checkSettingsLock rt s v =
     (if \<not> s_hasCreatedAccount s then Inr ()
      else case asMutationRecord v of
        None \<Rightarrow> Inr ()
      | Some r \<Rightarrow>
          if hasOwn r ''timezone'' \<and> jget r ''timezone'' \<noteq> JStr (s_timezone s) then Inl timezoneLocked
          else if hasOwn r ''baseCurrency'' then
            (let sameCurrency = (case jget r ''baseCurrency'' of
                   JStr t \<Rightarrow> normalizeLedgerCurrencyCode rt (JStr t) = Inr (s_baseCurrency s)
                 | _ \<Rightarrow> False)
             in if \<not> sameCurrency then Inl baseCurrencyLocked else Inr ())
          else Inr ())"

definition patchSettingsMutation :: "runtime \<Rightarrow> service_deps \<Rightarrow> jval \<Rightarrow> ledger_db \<Rightarrow> (jval \<times> ledger_db) res" where
  "patchSettingsMutation rt d v db =
     bindR (requireSettings rt db) (\<lambda>s.
     bindR (checkSettingsLock rt s v) (\<lambda>_.
     bindR (precheckVersion (asMutationRecord v) (s_version s)) (\<lambda>_.
     bindR (parseSettingsPatchRequest rt v) (\<lambda>p.
     bindR (assertExpectedVersion (s_version s) (sp_expectedVersion p)) (\<lambda>_.
     bindR (nextVersion (s_version s)) (\<lambda>ver.
     bindR (generatedTimestamp rt d 0) (\<lambda>timestamp.
     let updated = s\<lparr>s_baseCurrency := case_option (s_baseCurrency s) id (sp_baseCurrency p),
           s_timezone := case_option (s_timezone s) id (sp_timezone p),
           s_accountIcons := case_option (s_accountIcons s) id (sp_accountIcons p),
           s_version := ver, s_updatedAt := timestamp\<rparr>
     in bindR (expectOneChange (updateSettings rt updated (s_version s) db)) (\<lambda>db1.
        bindR (toSettingsDto rt updated) (\<lambda>dto. Inr (dto, db1))))))))))"

definition patchSettings :: "runtime \<Rightarrow> service_deps \<Rightarrow> jval \<Rightarrow> ledger_db \<Rightarrow> jval res \<times> ledger_db" where
  "patchSettings rt d v db = runLedgerWrite rt db (patchSettingsMutation rt d v)"

text \<open>The catalog of default categories: kind, name, icon, sort order, system key.\<close>

definition LEDGER_BUILTIN_CATEGORY_ICONS ::
  "(category_kind \<times> ustr \<times> string \<times> int \<times> system_key option) list" where
  "LEDGER_BUILTIN_CATEGORY_ICONS = [
     (IncomeKind, [24037, 36164], ''custom_builtin_category_income_salary'', 1, None),
     (IncomeKind, [22870, 37329], ''custom_builtin_category_income_bonus'', 2, None),
     (IncomeKind, [20860, 32844], ''custom_builtin_category_income_part_time'', 3, None),
     (IncomeKind, [25237, 36164, 25910, 30410], ''custom_builtin_category_income_investment'', 4, None),
     (IncomeKind, [32418, 21253, 32, 47, 32, 31036, 37329], ''custom_builtin_category_income_red_packet'', 5, None),
     (IncomeKind, [36864, 27454], ''custom_builtin_category_income_refund'', 6, None),
     (IncomeKind, [20854, 20182], ''custom_builtin_category_income_other'', 7, None),
     (ExpenseKind, [39184, 39278], ''custom_builtin_category_expense_food'', 1, None),
     (ExpenseKind, [20132, 36890], ''custom_builtin_category_expense_transport'', 2, None),
     (ExpenseKind, [36141, 29289], ''custom_builtin_category_expense_shopping'', 3, None),
     (ExpenseKind, [26085, 29992], ''custom_builtin_category_expense_daily'', 4, None),
     (ExpenseKind, [20303, 25151], ''custom_builtin_category_expense_home'', 5, None),
     (ExpenseKind, [36890, 35759], ''custom_builtin_category_expense_communication'', 6, None),
     (ExpenseKind, [35746, 38405], ''custom_builtin_category_expense_subscription'', 7, None),
     (ExpenseKind, [23089, 20048], ''custom_builtin_category_expense_entertainment'', 8, None),
     (ExpenseKind, [21307, 30103], ''custom_builtin_category_expense_medical'', 9, None),
     (ExpenseKind, [25945, 32946], ''custom_builtin_category_expense_education'', 10, None),
     (ExpenseKind, [26053, 34892], ''custom_builtin_category_expense_travel'', 11, None),
     (ExpenseKind, [20154, 24773, 24448, 26469], ''custom_builtin_category_expense_gift'', 12, None),
     (ExpenseKind, [20445, 38505], ''custom_builtin_category_expense_insurance'', 13, None),
     (ExpenseKind, [21033, 24687], ''custom_builtin_category_expense_interest'', 14, Some InterestKey),
     (ExpenseKind, [25163, 32493, 36153], ''custom_builtin_category_expense_fee'', 15, Some FeeKey),
     (ExpenseKind, [20854, 20182], ''custom_builtin_category_expense_other'', 16, None)]"

text \<open>
  \<open>seedDefaultLedgerCategories\<close>; \<open>k\<close> counts the categories inserted so far: the clock is first
  read for the settings row, so the \<open>k\<close>-th inserted category reads it for the \<open>(k + 1)\<close>-st time.
\<close>

fun seedDefaultLedgerCategories ::
  "runtime \<Rightarrow> service_deps \<Rightarrow> (category_kind \<times> ustr \<times> string \<times> int \<times> system_key option) list \<Rightarrow> nat
    \<Rightarrow> ledger_db \<Rightarrow> ledger_db res" where
  "seedDefaultLedgerCategories rt d [] k db = Inr db"
| "seedDefaultLedgerCategories rt d ((kind, name, icon, sortOrder, key) # rest) k db =
     bindR (findCategoryByIdentity rt kind (normalizeLedgerCategoryName rt name) db) (\<lambda>existing.
     if existing \<noteq> None then seedDefaultLedgerCategories rt d rest k db
     else
       bindR (generatedTimestamp rt d (Suc k)) (\<lambda>timestamp.
       bindR (generatedId d k) (\<lambda>i.
       bindR (insertCategory
         \<lparr>c_id = i, c_kind = kind, c_name = name,
          c_normalizedName = normalizeLedgerCategoryName rt name, c_systemKey = key, c_isDefault = True,
          c_icon = Some (js icon), c_sortOrder = Some sortOrder, c_archivedAt = None, c_version = 1,
          c_createdAt = timestamp, c_updatedAt = timestamp\<rparr> db) (\<lambda>db1.
       seedDefaultLedgerCategories rt d rest (Suc k) db1))))"

definition settingsAlreadyInitialized :: js_error where
  "settingsAlreadyInitialized = LedgerError LSettingsAlreadyInitialized 409 None"

definition defaultIconConfig :: icon_config where
  "defaultIconConfig = \<lparr>defaultIcon = js ''wallet'', availableIcons = LEDGER_DEFAULT_ACCOUNT_ICONS,
     archivedIcons = None, customIcons = [], customIconNames = LEDGER_BUILTIN_ACCOUNT_ICON_NAMES\<rparr>"

definition createSettingsMutation ::
  "runtime \<Rightarrow> service_deps \<Rightarrow> settings_req \<Rightarrow> ledger_db \<Rightarrow> (idempotent_result \<times> ledger_db) res" where
  "createSettingsMutation rt d q db =
     bindR (getSettings rt db) (\<lambda>existing.
     if existing \<noteq> None then Inl settingsAlreadyInitialized
     else
       bindR (generatedTimestamp rt d 0) (\<lambda>timestamp.
       let s = \<lparr>s_baseCurrency = sq_baseCurrency q, s_timezone = sq_timezone q,
                s_hasCreatedAccount = False, s_version = 1, s_createdAt = timestamp,
                s_updatedAt = timestamp, s_accountIcons = defaultIconConfig\<rparr>
       in bindR (insertSettings rt s db) (\<lambda>db1.
          bindR (seedDefaultLedgerCategories rt d LEDGER_BUILTIN_CATEGORY_ICONS 0 db1) (\<lambda>db2.
          bindR (toSettingsDto rt s) (\<lambda>dto.
          Inr (\<lparr>ir_resultStatus = Committed, ir_responseStatus = 201, ir_responseBody = dto,
                ir_resultType = Some (js ''settings''), ir_resultId = Some (js ''ledger-settings'')\<rparr>, db2))))))"

definition settingsReqJson :: "settings_req \<Rightarrow> jval" where
  "settingsReqJson q = JObj [(js ''baseCurrency'', JStr (sq_baseCurrency q)),
     (js ''timezone'', JStr (sq_timezone q))]"

definition createSettings ::
  "runtime \<Rightarrow> service_deps \<Rightarrow> settings_req \<Rightarrow> ustr \<Rightarrow> ledger_db \<Rightarrow> replay_result res \<times> ledger_db" where
  "createSettings rt d q key db =
     executeIdempotentLedgerCreate rt LEDGER_SETTINGS_SCOPE key (settingsReqJson q)
       (createSettingsMutation rt d q) None db"

definition getSettingsDto :: "runtime \<Rightarrow> ledger_db \<Rightarrow> jval res" where
  "getSettingsDto rt db = bindR (requireSettings rt db) (toSettingsDto rt)"

definition getSettingsOrNull :: "runtime \<Rightarrow> ledger_db \<Rightarrow> jval option res" where
  "getSettingsOrNull rt db =
     bindR (getSettings rt db) (\<lambda>s. case s of
       None \<Rightarrow> Inr None | Some x \<Rightarrow> bindR (toSettingsDto rt x) (\<lambda>dto. Inr (Some dto)))"

section \<open>Accounts\<close>

definition listAccountDtos :: "runtime \<Rightarrow> bool \<Rightarrow> ledger_db \<Rightarrow> jval list res" where
  "listAccountDtos rt includeArchived db =
     bindR (requireSettings rt db) (\<lambda>_.
     bindR (listAccounts rt includeArchived db) (\<lambda>as.
     mapR (\<lambda>a. toAccountDto rt a db) as))"

definition getAccountDto :: "runtime \<Rightarrow> ustr \<Rightarrow> ledger_db \<Rightarrow> jval res" where
  "getAccountDto rt i db =
     bindR (requireSettings rt db) (\<lambda>_.
     bindR (requireAccount rt i db) (\<lambda>a. toAccountDto rt a db))"

definition markAccountCreated :: "runtime \<Rightarrow> settings \<Rightarrow> ledger_db \<Rightarrow> ledger_db res" where
  "markAccountCreated rt s db =
     (if s_hasCreatedAccount s then Inr db
      else expectOneChange (updateSettings rt (s\<lparr>s_hasCreatedAccount := True\<rparr>) (s_version s) db))"

definition createAccountMutation ::
  "runtime \<Rightarrow> service_deps \<Rightarrow> account_req \<Rightarrow> ledger_db \<Rightarrow> (idempotent_result \<times> ledger_db) res" where
  "createAccountMutation rt d q db =
     bindR (requireSettings rt db) (\<lambda>s.
     bindR (assertAccountPair (aq_type q) (aq_nature q)) (\<lambda>_.
     if aq_currency q \<noteq> s_baseCurrency s then Inl (currencyMismatch ''currency'')
     else
       bindR (generatedTimestamp rt d 0) (\<lambda>timestamp.
       bindR (generatedId d 0) (\<lambda>i.
       let a = \<lparr>a_id = i, a_name = aq_name q, a_type = aq_type q, a_nature = aq_nature q,
                a_icon = Some (case_option (js ''wallet'') id (aq_icon q)),
                a_openingBalanceMinor = aq_openingBalanceMinor q, a_openingDate = aq_openingDate q,
                a_currency = aq_currency q, a_note = aq_note q, a_cardNumber = Some (aq_cardNumber q),
                a_archivedAt = None, a_version = 1, a_createdAt = timestamp, a_updatedAt = timestamp\<rparr>
       in bindR (insertAccount a db) (\<lambda>db1.
          bindR (markAccountCreated rt s db1) (\<lambda>db2.
          bindR (toAccountDto rt a db2) (\<lambda>dto.
          Inr (\<lparr>ir_resultStatus = Committed, ir_responseStatus = 201, ir_responseBody = dto,
                ir_resultType = Some (js ''account''), ir_resultId = Some i\<rparr>, db2))))))))"

definition accountReqJson :: "account_req \<Rightarrow> jval" where
  "accountReqJson q = JObj
     ([(js ''name'', JStr (aq_name q)), (js ''type'', JStr (enum_text LEDGER_ACCOUNT_TYPES (aq_type q))),
       (js ''nature'', JStr (enum_text LEDGER_ACCOUNT_NATURES (aq_nature q)))]
      @ (case aq_icon q of None \<Rightarrow> [] | Some s \<Rightarrow> [(js ''icon'', JStr s)])
      @ [(js ''openingBalanceMinor'', JInt (aq_openingBalanceMinor q)),
         (js ''openingDate'', JStr (aq_openingDate q)), (js ''currency'', JStr (aq_currency q)),
         (js ''note'', JStr (aq_note q)), (js ''cardNumber'', JStr (aq_cardNumber q))])"

definition createAccount ::
  "runtime \<Rightarrow> service_deps \<Rightarrow> account_req \<Rightarrow> ustr \<Rightarrow> ledger_db \<Rightarrow> replay_result res \<times> ledger_db" where
  "createAccount rt d q key db =
     executeIdempotentLedgerCreate rt LEDGER_ACCOUNTS_SCOPE key (accountReqJson q)
       (createAccountMutation rt d q) None db"

definition patchedAccount :: "account \<Rightarrow> account_patch \<Rightarrow> int \<Rightarrow> int \<Rightarrow> account" where
  "patchedAccount a p ver timestamp = a\<lparr>
     a_name := case_option (a_name a) id (ap_name p), a_note := case_option (a_note a) id (ap_note p),
     a_cardNumber := case_option (a_cardNumber a) Some (ap_cardNumber p),
     a_icon := case_option (a_icon a) Some (ap_icon p),
     a_type := case_option (a_type a) id (ap_type p),
     a_nature := case_option (a_nature a) id (ap_nature p),
     a_openingBalanceMinor := case_option (a_openingBalanceMinor a) id (ap_openingBalanceMinor p),
     a_openingDate := case_option (a_openingDate a) id (ap_openingDate p),
     a_version := ver, a_updatedAt := timestamp\<rparr>"

definition patchAccountMutation ::
  "runtime \<Rightarrow> service_deps \<Rightarrow> ustr \<Rightarrow> jval \<Rightarrow> ledger_db \<Rightarrow> (jval \<times> ledger_db) res" where
  "patchAccountMutation rt d i v db =
     bindR (requireSettings rt db) (\<lambda>_.
     bindR (requireAccount rt i db) (\<lambda>a.
     bindR (case asMutationRecord v of
              None \<Rightarrow> Inr ()
            | Some r \<Rightarrow> checkR (a_archivedAt a = None \<or> onlyKeys [''expectedVersion'', ''name'', ''note''] r)
                archivedAccount) (\<lambda>_.
     bindR (precheckVersion (asMutationRecord v) (a_version a)) (\<lambda>_.
     bindR (parseAccountPatchRequest rt v) (\<lambda>p.
     bindR (assertExpectedVersion (a_version a) (ap_expectedVersion p)) (\<lambda>_.
     if hasAccountHistory i db \<and> (ap_type p \<noteq> None \<or> ap_nature p \<noteq> None
          \<or> ap_openingBalanceMinor p \<noteq> None \<or> ap_openingDate p \<noteq> None)
     then Inl (ledgerValidationError [])
     else
       bindR (assertAccountPair (case_option (a_type a) id (ap_type p))
         (case_option (a_nature a) id (ap_nature p))) (\<lambda>_.
       bindR (nextVersion (a_version a)) (\<lambda>ver.
       bindR (generatedTimestamp rt d 0) (\<lambda>timestamp.
       let updated = patchedAccount a p ver timestamp
       in bindR (expectOneChange (updateAccount updated (a_version a) db)) (\<lambda>db1.
          bindR (toAccountDto rt updated db1) (\<lambda>dto. Inr (dto, db1))))))))))))"

definition patchAccount ::
  "runtime \<Rightarrow> service_deps \<Rightarrow> ustr \<Rightarrow> jval \<Rightarrow> ledger_db \<Rightarrow> jval res \<times> ledger_db" where
  "patchAccount rt d i v db = runLedgerWrite rt db (patchAccountMutation rt d i v)"

definition accountHasHistory :: js_error where
  "accountHasHistory = LedgerError LAccountHasHistory 409 None"

definition deleteAccountMutation :: "runtime \<Rightarrow> ustr \<Rightarrow> jval \<Rightarrow> ledger_db \<Rightarrow> (jval \<times> ledger_db) res" where
  "deleteAccountMutation rt i v db =
     bindR (requireSettings rt db) (\<lambda>_.
     bindR (requireAccount rt i db) (\<lambda>a.
     bindR (parseExpectedVersionCommand v) (\<lambda>expected.
     bindR (assertExpectedVersion (a_version a) expected) (\<lambda>_.
     if hasAccountHistory i db then Inl accountHasHistory
     else bindR (expectOneChange (deleteAccount i db)) (\<lambda>db1. Inr (deletedResponse i, db1))))))"

definition removeAccount :: "runtime \<Rightarrow> ustr \<Rightarrow> jval \<Rightarrow> ledger_db \<Rightarrow> jval res \<times> ledger_db" where
  "removeAccount rt i v db = runLedgerWrite rt db (deleteAccountMutation rt i v)"

definition accountNonzeroBalance :: js_error where
  "accountNonzeroBalance = LedgerError LAccountNonzeroBalance 409 None"

definition archiveAccountMutation ::
  "runtime \<Rightarrow> service_deps \<Rightarrow> ustr \<Rightarrow> jval \<Rightarrow> ledger_db \<Rightarrow> (jval \<times> ledger_db) res" where
  "archiveAccountMutation rt d i v db =
     bindR (requireSettings rt db) (\<lambda>_.
     bindR (requireAccount rt i db) (\<lambda>a.
     if a_archivedAt a \<noteq> None then Inl archivedAccount
     else
       bindR (parseExpectedVersionCommand v) (\<lambda>expected.
       bindR (assertExpectedVersion (a_version a) expected) (\<lambda>_.
       bindR (listActiveTransactionsForAccount rt i db) (\<lambda>ts.
       bindR (deriveCurrentBalance a ts) (\<lambda>balance.
       if balance \<noteq> 0 then Inl accountNonzeroBalance
       else
         bindR (generatedTimestamp rt d 0) (\<lambda>timestamp.
         bindR (nextVersion (a_version a)) (\<lambda>ver.
         let updated = a\<lparr>a_archivedAt := Some timestamp, a_version := ver, a_updatedAt := timestamp\<rparr>
         in bindR (expectOneChange (updateAccount updated (a_version a) db)) (\<lambda>db1.
            bindR (toAccountDto rt updated db1) (\<lambda>dto. Inr (dto, db1)))))))))))"

definition archiveAccount ::
  "runtime \<Rightarrow> service_deps \<Rightarrow> ustr \<Rightarrow> jval \<Rightarrow> ledger_db \<Rightarrow> jval res \<times> ledger_db" where
  "archiveAccount rt d i v db = runLedgerWrite rt db (archiveAccountMutation rt d i v)"

definition restoreAccountMutation ::
  "runtime \<Rightarrow> service_deps \<Rightarrow> ustr \<Rightarrow> jval \<Rightarrow> ledger_db \<Rightarrow> (jval \<times> ledger_db) res" where
  "restoreAccountMutation rt d i v db =
     bindR (requireSettings rt db) (\<lambda>_.
     bindR (requireAccount rt i db) (\<lambda>a.
     bindR (parseExpectedVersionCommand v) (\<lambda>expected.
     bindR (assertExpectedVersion (a_version a) expected) (\<lambda>_.
     if a_archivedAt a = None then bindR (toAccountDto rt a db) (\<lambda>dto. Inr (dto, db))
     else
       bindR (nextVersion (a_version a)) (\<lambda>ver.
       bindR (generatedTimestamp rt d 0) (\<lambda>timestamp.
       let updated = a\<lparr>a_archivedAt := None, a_version := ver, a_updatedAt := timestamp\<rparr>
       in bindR (expectOneChange (updateAccount updated (a_version a) db)) (\<lambda>db1.
          bindR (toAccountDto rt updated db1) (\<lambda>dto. Inr (dto, db1)))))))))"

definition restoreAccount ::
  "runtime \<Rightarrow> service_deps \<Rightarrow> ustr \<Rightarrow> jval \<Rightarrow> ledger_db \<Rightarrow> jval res \<times> ledger_db" where
  "restoreAccount rt d i v db = runLedgerWrite rt db (restoreAccountMutation rt d i v)"

section \<open>Categories\<close>

definition listCategoryDtos :: "runtime \<Rightarrow> category_kind option \<Rightarrow> bool \<Rightarrow> ledger_db \<Rightarrow> jval list res" where
  "listCategoryDtos rt kind includeArchived db =
     bindR (requireSettings rt db) (\<lambda>_.
     bindR (listCategories rt includeArchived db) (\<lambda>cs.
     Inr (map toCategoryDto (filter (\<lambda>c. kind = None \<or> kind = Some (c_kind c)) cs))))"

definition createCategoryMutation ::
  "runtime \<Rightarrow> service_deps \<Rightarrow> category_req \<Rightarrow> ledger_db \<Rightarrow> (idempotent_result \<times> ledger_db) res" where
  "createCategoryMutation rt d q db =
     bindR (requireSettings rt db) (\<lambda>_.
     let normalizedName = normalizeLedgerCategoryName rt (cq_name q) in
     bindR (findCategoryByIdentity rt (cq_kind q) normalizedName db) (\<lambda>existing.
     if existing \<noteq> None then Inl duplicateCategory
     else
       bindR (generatedTimestamp rt d 0) (\<lambda>timestamp.
       bindR (generatedId d 0) (\<lambda>i.
       let c = \<lparr>c_id = i, c_kind = cq_kind q, c_name = cq_name q, c_normalizedName = normalizedName,
                c_systemKey = None, c_isDefault = False,
                c_icon = (case cq_icon q of Some s \<Rightarrow> if s \<noteq> [] \<and> s \<noteq> js ''wallet'' then Some s else None
                          | None \<Rightarrow> None),
                c_sortOrder = None, c_archivedAt = None, c_version = 1,
                c_createdAt = timestamp, c_updatedAt = timestamp\<rparr>
       in bindR (insertCategory c db) (\<lambda>db1.
          Inr (\<lparr>ir_resultStatus = Committed, ir_responseStatus = 201, ir_responseBody = toCategoryDto c,
                ir_resultType = Some (js ''category''), ir_resultId = Some i\<rparr>, db1))))))"

definition categoryReqJson :: "category_req \<Rightarrow> jval" where
  "categoryReqJson q = JObj
     ([(js ''kind'', JStr (enum_text LEDGER_CATEGORY_KINDS (cq_kind q))), (js ''name'', JStr (cq_name q))]
      @ (case cq_icon q of None \<Rightarrow> [] | Some s \<Rightarrow> [(js ''icon'', JStr s)]))"

definition createCategory ::
  "runtime \<Rightarrow> service_deps \<Rightarrow> category_req \<Rightarrow> ustr \<Rightarrow> ledger_db \<Rightarrow> replay_result res \<times> ledger_db" where
  "createCategory rt d q key db =
     executeIdempotentLedgerCreate rt LEDGER_CATEGORIES_SCOPE key (categoryReqJson q)
       (createCategoryMutation rt d q) None db"

text \<open>\<open>category.isDefault || category.systemKey\<close>\<close>

definition isDefaultCategory :: "category \<Rightarrow> bool" where
  "isDefaultCategory c \<longleftrightarrow> c_isDefault c \<or> c_systemKey c \<noteq> None"

definition defaultCategoryError :: "category \<Rightarrow> js_error" where
  "defaultCategoryError c = ledgerValidationError (if c_systemKey c \<noteq> None then ''systemKey'' else ''isDefault'')"

definition patchedCategory :: "runtime \<Rightarrow> category \<Rightarrow> category_patch \<Rightarrow> int \<Rightarrow> int \<Rightarrow> category" where
  "patchedCategory rt c p ver timestamp =
     (let name = case_option (c_name c) id (cp_name p) in
      c\<lparr>c_kind := case_option (c_kind c) id (cp_kind p), c_name := name,
        c_normalizedName := normalizeLedgerCategoryName rt name,
        c_icon := (case cp_icon p of None \<Rightarrow> c_icon c
                   | Some s \<Rightarrow> if s = js ''wallet'' then None else Some s),
        c_version := ver, c_updatedAt := timestamp\<rparr>)"

definition patchCategoryMutation ::
  "runtime \<Rightarrow> service_deps \<Rightarrow> ustr \<Rightarrow> jval \<Rightarrow> ledger_db \<Rightarrow> (jval \<times> ledger_db) res" where
  "patchCategoryMutation rt d i v db =
     bindR (requireSettings rt db) (\<lambda>_.
     bindR (requireCategory rt i db) (\<lambda>c.
     if c_archivedAt c \<noteq> None then Inl archivedCategory
     else
       bindR (precheckVersion (asMutationRecord v) (c_version c)) (\<lambda>_.
       bindR (parseCategoryPatchRequest v) (\<lambda>p.
       bindR (assertExpectedVersion (c_version c) (cp_expectedVersion p)) (\<lambda>_.
       if isDefaultCategory c \<and> (cp_name p \<noteq> None \<or> cp_kind p \<noteq> None) then Inl (defaultCategoryError c)
       else if hasCategoryHistory i db \<and> cp_kind p \<noteq> None then Inl (ledgerValidationError ''kind'')
       else
         let kind = case_option (c_kind c) id (cp_kind p);
             normalizedName = normalizeLedgerCategoryName rt (case_option (c_name c) id (cp_name p))
         in bindR (findCategoryByIdentity rt kind normalizedName db) (\<lambda>existing.
            if (case existing of None \<Rightarrow> False | Some e \<Rightarrow> c_id e \<noteq> c_id c) then Inl duplicateCategory
            else
              bindR (nextVersion (c_version c)) (\<lambda>ver.
              bindR (generatedTimestamp rt d 0) (\<lambda>timestamp.
              let updated = patchedCategory rt c p ver timestamp
              in bindR (expectOneChange (updateCategory updated (c_version c) db)) (\<lambda>db1.
                 Inr (toCategoryDto updated, db1))))))))))"

definition patchCategory ::
  "runtime \<Rightarrow> service_deps \<Rightarrow> ustr \<Rightarrow> jval \<Rightarrow> ledger_db \<Rightarrow> jval res \<times> ledger_db" where
  "patchCategory rt d i v db = runLedgerWrite rt db (patchCategoryMutation rt d i v)"

definition categoryHasHistory :: js_error where
  "categoryHasHistory = LedgerError LCategoryHasHistory 409 None"

definition deleteCategoryMutation :: "runtime \<Rightarrow> ustr \<Rightarrow> jval \<Rightarrow> ledger_db \<Rightarrow> (jval \<times> ledger_db) res" where
  "deleteCategoryMutation rt i v db =
     bindR (requireSettings rt db) (\<lambda>_.
     bindR (requireCategory rt i db) (\<lambda>c.
     if isDefaultCategory c then Inl (defaultCategoryError c)
     else
       bindR (parseExpectedVersionCommand v) (\<lambda>expected.
       bindR (assertExpectedVersion (c_version c) expected) (\<lambda>_.
       if hasCategoryHistory i db then Inl categoryHasHistory
       else bindR (expectOneChange (deleteCategory i db)) (\<lambda>db1. Inr (deletedResponse i, db1))))))"

definition removeCategory :: "runtime \<Rightarrow> ustr \<Rightarrow> jval \<Rightarrow> ledger_db \<Rightarrow> jval res \<times> ledger_db" where
  "removeCategory rt i v db = runLedgerWrite rt db (deleteCategoryMutation rt i v)"

definition archiveCategoryMutation ::
  "runtime \<Rightarrow> service_deps \<Rightarrow> ustr \<Rightarrow> jval \<Rightarrow> ledger_db \<Rightarrow> (jval \<times> ledger_db) res" where
  "archiveCategoryMutation rt d i v db =
     bindR (requireSettings rt db) (\<lambda>_.
     bindR (requireCategory rt i db) (\<lambda>c.
     if isDefaultCategory c then Inl (defaultCategoryError c)
     else if c_archivedAt c \<noteq> None then Inl archivedCategory
     else
       bindR (parseExpectedVersionCommand v) (\<lambda>expected.
       bindR (assertExpectedVersion (c_version c) expected) (\<lambda>_.
       if hasCategoryHistory i db then Inl categoryHasHistory
       else
         bindR (generatedTimestamp rt d 0) (\<lambda>timestamp.
         bindR (nextVersion (c_version c)) (\<lambda>ver.
         let updated = c\<lparr>c_archivedAt := Some timestamp, c_version := ver, c_updatedAt := timestamp\<rparr>
         in bindR (expectOneChange (updateCategory updated (c_version c) db)) (\<lambda>db1.
            Inr (toCategoryDto updated, db1))))))))"

definition archiveCategory ::
  "runtime \<Rightarrow> service_deps \<Rightarrow> ustr \<Rightarrow> jval \<Rightarrow> ledger_db \<Rightarrow> jval res \<times> ledger_db" where
  "archiveCategory rt d i v db = runLedgerWrite rt db (archiveCategoryMutation rt d i v)"

definition restoreCategoryMutation ::
  "runtime \<Rightarrow> service_deps \<Rightarrow> ustr \<Rightarrow> jval \<Rightarrow> ledger_db \<Rightarrow> (jval \<times> ledger_db) res" where
  "restoreCategoryMutation rt d i v db =
     bindR (requireSettings rt db) (\<lambda>_.
     bindR (requireCategory rt i db) (\<lambda>c.
     bindR (parseExpectedVersionCommand v) (\<lambda>expected.
     bindR (assertExpectedVersion (c_version c) expected) (\<lambda>_.
     if c_archivedAt c = None then Inr (toCategoryDto c, db)
     else
       bindR (nextVersion (c_version c)) (\<lambda>ver.
       bindR (generatedTimestamp rt d 0) (\<lambda>timestamp.
       let updated = c\<lparr>c_archivedAt := None, c_version := ver, c_updatedAt := timestamp\<rparr>
       in bindR (expectOneChange (updateCategory updated (c_version c) db)) (\<lambda>db1.
          Inr (toCategoryDto updated, db1))))))))"

definition restoreCategory ::
  "runtime \<Rightarrow> service_deps \<Rightarrow> ustr \<Rightarrow> jval \<Rightarrow> ledger_db \<Rightarrow> jval res \<times> ledger_db" where
  "restoreCategory rt d i v db = runLedgerWrite rt db (restoreCategoryMutation rt d i v)"

section \<open>Transactions: reading and statistics\<close>

definition requireUserTransaction :: "runtime \<Rightarrow> ustr \<Rightarrow> ledger_db \<Rightarrow> tx res" where
  "requireUserTransaction rt i db =
     bindR (getTransaction rt i db) (\<lambda>t.
     case t of
       None \<Rightarrow> Inl notFound
     | Some x \<Rightarrow> if tx_type x = TExpense \<and> tx_groupId x \<noteq> None then Inl notFound else Inr x)"

definition requireStatisticsEligibleTransaction :: "runtime \<Rightarrow> ustr \<Rightarrow> ledger_db \<Rightarrow> tx res" where
  "requireStatisticsEligibleTransaction rt i db =
     bindR (getTransaction rt i db) (\<lambda>t.
     case t of
       None \<Rightarrow> Inl notFound
     | Some x \<Rightarrow>
         if tx_deletedAt x \<noteq> None then Inl transactionDeleted
         else if \<not> ledgerTransactionContributesToStatistics x
         then Inl (ledgerValidationError ''transactionId'')
         else Inr x)"

definition getTransactionDto :: "runtime \<Rightarrow> ustr \<Rightarrow> ledger_db \<Rightarrow> jval res" where
  "getTransactionDto rt i db =
     bindR (requireSettings rt db) (\<lambda>_.
     bindR (requireUserTransaction rt i db) (\<lambda>t.
     Inr (toTransactionDto t (isTransactionExcludedFromStatistics (tx_id t) db))))"

definition exclusionDto :: "ustr \<Rightarrow> bool \<Rightarrow> jval" where
  "exclusionDto i excluded =
     JObj [(js ''transactionId'', JStr i), (js ''excludedFromStatistics'', JBool excluded)]"

definition excludeMutation :: "runtime \<Rightarrow> service_deps \<Rightarrow> ustr \<Rightarrow> ledger_db \<Rightarrow> (jval \<times> ledger_db) res" where
  "excludeMutation rt d i db =
     bindR (requireSettings rt db) (\<lambda>_.
     bindR (requireStatisticsEligibleTransaction rt i db) (\<lambda>t.
     bindR (generatedTimestamp rt d 0) (\<lambda>timestamp.
     bindR (excludeTransactionFromStatistics (tx_id t) timestamp db) (\<lambda>db1.
     Inr (exclusionDto (tx_id t) True, db1)))))"

definition excludeFromStatistics ::
  "runtime \<Rightarrow> service_deps \<Rightarrow> ustr \<Rightarrow> ledger_db \<Rightarrow> jval res \<times> ledger_db" where
  "excludeFromStatistics rt d i db = runLedgerWrite rt db (excludeMutation rt d i)"

definition restoreMutation :: "runtime \<Rightarrow> ustr \<Rightarrow> ledger_db \<Rightarrow> (jval \<times> ledger_db) res" where
  "restoreMutation rt i db =
     bindR (requireSettings rt db) (\<lambda>_.
     bindR (requireStatisticsEligibleTransaction rt i db) (\<lambda>t.
     Inr (exclusionDto (tx_id t) False, restoreTransactionToStatistics (tx_id t) db)))"

definition restoreToStatistics :: "runtime \<Rightarrow> ustr \<Rightarrow> ledger_db \<Rightarrow> jval res \<times> ledger_db" where
  "restoreToStatistics rt i db = runLedgerWrite rt db (restoreMutation rt i)"

section \<open>Transactions: creation\<close>

text \<open>A new transaction: version 1, not deleted, created and updated at the same instant.\<close>

definition newBase :: "ustr \<Rightarrow> ustr option \<Rightarrow> int \<Rightarrow> int \<Rightarrow> ustr \<Rightarrow> ustr \<Rightarrow> int \<Rightarrow> tx_base" where
  "newBase i groupId amountMinor occurredAt location note timestamp =
     \<lparr>t_id = i, t_groupId = groupId, t_amountMinor = amountMinor, t_occurredAt = occurredAt,
      t_location = location, t_note = note, t_deletedAt = None, t_version = 1,
      t_createdAt = timestamp, t_updatedAt = timestamp\<rparr>"

definition committedTransaction :: "tx \<Rightarrow> idempotent_result" where
  "committedTransaction t = \<lparr>ir_resultStatus = Committed, ir_responseStatus = 201,
     ir_responseBody = toTransactionDto t False, ir_resultType = Some (js ''transaction''),
     ir_resultId = Some (tx_id t)\<rparr>"

text \<open>The cases \<open>income\<close> and \<open>expense\<close>, which differ in the constructor and the category kind.\<close>

definition createEntry ::
  "runtime \<Rightarrow> service_deps \<Rightarrow> category_kind \<Rightarrow> (tx_base \<Rightarrow> ustr \<Rightarrow> ustr \<Rightarrow> ustr \<Rightarrow> tx) \<Rightarrow> settings \<Rightarrow> int
    \<Rightarrow> entry_req \<Rightarrow> ledger_db \<Rightarrow> (idempotent_result \<times> ledger_db) res" where
  "createEntry rt d kind con s timestamp q db =
     bindR (requireActiveAccount rt (eq_accountId q) db) (\<lambda>a.
     bindR (assertCandidateCategory rt (eq_categoryId q) kind db) (\<lambda>c.
     bindR (assertTransactionCurrency s a) (\<lambda>_.
     bindR (assertTransactionTime rt s [a] (eq_occurredAt q) timestamp) (\<lambda>_.
     bindR (generatedId d 0) (\<lambda>i.
     let t = con (newBase i None (eq_amountMinor q) (eq_occurredAt q) (eq_location q) (eq_note q) timestamp)
               (a_id a) (c_id c) (eq_payee q)
     in bindR (insertTransaction t db) (\<lambda>db1. Inr (committedTransaction t, db1)))))))"

text \<open>
  The fee of a transfer: its system category, the mode, and the amount that is transferred. The
  category is looked up before the mode is judged.
\<close>

definition feeModeConflict :: js_error where
  "feeModeConflict = ledgerValidationError ''feeMode''"

definition transferFee ::
  "runtime \<Rightarrow> transfer_req \<Rightarrow> ledger_db \<Rightarrow> (category option \<times> fee_mode option \<times> int) res" where
  "transferFee rt q db =
     (let kind = case_option General id (tq_transferKind q); feeMinor = case_option 0 id (tq_feeMinor q) in
      bindR (assertNonNegativeSafeInteger feeMinor ''feeMinor'') (\<lambda>_.
      if feeMinor = 0 \<and> tq_feeMode q \<noteq> None then Inl (ledgerValidationError ''feeMinor'')
      else if 0 < feeMinor \<and> kind = General then Inl (ledgerValidationError ''transferKind'')
      else if \<not> 0 < feeMinor then Inr (None, None, tq_amountMinor q)
      else
        bindR (requireSystemCategory rt (if kind = Repayment then InterestKey else FeeKey) db) (\<lambda>c.
        if kind = Repayment
        then (if tq_feeMode q \<noteq> None then Inl feeModeConflict else Inr (Some c, None, tq_amountMinor q))
        else
          let mode = case_option Extra id (tq_feeMode q) in
          if mode = Deducted
          then bindR (checkedSubMinor (tq_amountMinor q) feeMinor) (\<lambda>amount.
               bindR (assertPositiveMinor amount ''amountMinor after fee'') (\<lambda>_.
               Inr (Some c, Some mode, amount)))
          else Inr (Some c, Some mode, tq_amountMinor q))))"

definition createTransfer ::
  "runtime \<Rightarrow> service_deps \<Rightarrow> settings \<Rightarrow> int \<Rightarrow> transfer_req \<Rightarrow> ledger_db
    \<Rightarrow> (idempotent_result \<times> ledger_db) res" where
  "createTransfer rt d s timestamp q db =
     (if tq_fromAccountId q = tq_toAccountId q then Inl invalidTransactionPair
      else
        bindR (requireActiveAccount rt (tq_fromAccountId q) db) (\<lambda>src.
        bindR (requireActiveAccount rt (tq_toAccountId q) db) (\<lambda>dst.
        let kind = case_option General id (tq_transferKind q); feeMinor = case_option 0 id (tq_feeMinor q) in
        bindR (assertTransferKindAccounts kind src dst) (\<lambda>_.
        bindR (assertTransactionCurrency s src) (\<lambda>_.
        bindR (assertTransactionCurrency s dst) (\<lambda>_.
        bindR (assertTransactionTime rt s [src, dst] (tq_occurredAt q) timestamp) (\<lambda>_.
        bindR (transferFee rt q db) (\<lambda>(feeCategory, feeMode, amount).
        bindR (if 0 < feeMinor then bindR (generatedId d 0) (\<lambda>g. Inr (Some g)) else Inr None) (\<lambda>groupId.
        bindR (generatedId d (if 0 < feeMinor then 1 else 0)) (\<lambda>i.
        let t = TransferTx (newBase i groupId amount (tq_occurredAt q) (tq_location q) (tq_note q) timestamp)
                  kind feeMode (a_id src) (a_id dst) (tq_payee q)
        in bindR (insertTransaction t db) (\<lambda>db1.
           bindR (case feeCategory of
                    None \<Rightarrow> Inr db1
                  | Some c \<Rightarrow>
                      bindR (generatedId d 2) (\<lambda>j.
                      insertTransaction (ExpenseTx
                        (newBase j groupId feeMinor (tq_occurredAt q) (tq_location q) (tq_note q) timestamp)
                        (a_id src) (c_id c)
                        (companionPayee kind (a_name src) (a_name dst) (tq_payee q))) db1)) (\<lambda>db2.
           Inr (committedTransaction t, db2)))))))))))))"

definition createTransactionMutation ::
  "runtime \<Rightarrow> service_deps \<Rightarrow> tx_req \<Rightarrow> ledger_db \<Rightarrow> (idempotent_result \<times> ledger_db) res" where
  "createTransactionMutation rt d q db =
     bindR (requireSettings rt db) (\<lambda>s.
     bindR (generatedTimestamp rt d 0) (\<lambda>timestamp.
     case q of
       IncomeReq e \<Rightarrow> createEntry rt d IncomeKind IncomeTx s timestamp e db
     | ExpenseReq e \<Rightarrow> createEntry rt d ExpenseKind ExpenseTx s timestamp e db
     | TransferReq tr \<Rightarrow> createTransfer rt d s timestamp tr db
     | AdjustmentReq i j \<Rightarrow> Inl (ledgerValidationError ''type'')))"

definition entryReqJson :: "string \<Rightarrow> entry_req \<Rightarrow> jval" where
  "entryReqJson ty q = JObj
     [(js ''type'', JStr (js ty)), (js ''amountMinor'', JInt (eq_amountMinor q)),
      (js ''accountId'', JStr (eq_accountId q)), (js ''categoryId'', JStr (eq_categoryId q)),
      (js ''occurredAt'', JInt (eq_occurredAt q)), (js ''location'', JStr (eq_location q)),
      (js ''payee'', JStr (eq_payee q)), (js ''note'', JStr (eq_note q))]"

definition transferReqJson :: "transfer_req \<Rightarrow> jval" where
  "transferReqJson q = JObj
     ([(js ''type'', JStr (js ''transfer''))]
      @ (case tq_transferKind q of None \<Rightarrow> []
         | Some k \<Rightarrow> [(js ''transferKind'', JStr (enum_text LEDGER_TRANSFER_KINDS k))])
      @ [(js ''amountMinor'', JInt (tq_amountMinor q))]
      @ (case tq_feeMinor q of None \<Rightarrow> [] | Some n \<Rightarrow> [(js ''feeMinor'', JInt n)])
      @ (case tq_feeMode q of None \<Rightarrow> []
         | Some m \<Rightarrow> [(js ''feeMode'', JStr (enum_text LEDGER_TRANSFER_FEE_MODES m))])
      @ [(js ''fromAccountId'', JStr (tq_fromAccountId q)), (js ''toAccountId'', JStr (tq_toAccountId q)),
         (js ''occurredAt'', JInt (tq_occurredAt q)), (js ''location'', JStr (tq_location q)),
         (js ''payee'', JStr (tq_payee q)), (js ''note'', JStr (tq_note q))])"

definition adjustmentReqJson :: "adjustment_req \<Rightarrow> jval" where
  "adjustmentReqJson q = JObj
     [(js ''targetBalanceMinor'', JInt (jq_targetBalanceMinor q)),
      (js ''expectedCalculatedBalanceMinor'', JInt (jq_expectedCalculatedBalanceMinor q)),
      (js ''occurredAt'', JInt (jq_occurredAt q)), (js ''note'', JStr (jq_note q))]"

definition createTransaction ::
  "runtime \<Rightarrow> service_deps \<Rightarrow> tx_req \<Rightarrow> ustr \<Rightarrow> ledger_db \<Rightarrow> replay_result res \<times> ledger_db" where
  "createTransaction rt d q key db =
     (case q of
        AdjustmentReq i j \<Rightarrow> (Inl (ledgerValidationError ''type''), db)
      | IncomeReq e \<Rightarrow> executeIdempotentLedgerCreate rt LEDGER_TRANSACTIONS_SCOPE key
          (entryReqJson ''income'' e) (createTransactionMutation rt d q) None db
      | ExpenseReq e \<Rightarrow> executeIdempotentLedgerCreate rt LEDGER_TRANSACTIONS_SCOPE key
          (entryReqJson ''expense'' e) (createTransactionMutation rt d q) None db
      | TransferReq e \<Rightarrow> executeIdempotentLedgerCreate rt LEDGER_TRANSACTIONS_SCOPE key
          (transferReqJson e) (createTransactionMutation rt d q) None db)"

section \<open>Transactions: correction\<close>

text \<open>The cases \<open>income\<close> and \<open>expense\<close> of \<open>patchTransaction\<close>.\<close>

definition patchEntry ::
  "runtime \<Rightarrow> category_kind \<Rightarrow> (tx_base \<Rightarrow> ustr \<Rightarrow> ustr \<Rightarrow> ustr \<Rightarrow> tx) \<Rightarrow> settings \<Rightarrow> int \<Rightarrow> tx_patch
    \<Rightarrow> tx_base \<Rightarrow> ustr \<Rightarrow> ustr \<Rightarrow> ustr \<Rightarrow> ledger_db \<Rightarrow> (jval \<times> ledger_db) res" where
  "patchEntry rt kind con s timestamp p b acct cat payee db =
     bindR (case tp_accountId p of Some i \<Rightarrow> requireActiveAccount rt i db
            | None \<Rightarrow> requireAccount rt acct db) (\<lambda>a.
     bindR (case tp_categoryId p of Some i \<Rightarrow> assertCandidateCategory rt i kind db
            | None \<Rightarrow> requireCategory rt cat db) (\<lambda>c.
     bindR (assertCategoryForTransaction c kind) (\<lambda>_.
     bindR (assertTransactionCurrency s a) (\<lambda>_.
     let occurredAt = case_option (t_occurredAt b) id (tp_occurredAt p) in
     bindR (assertTransactionTime rt s [a] occurredAt timestamp) (\<lambda>_.
     bindR (nextVersion (t_version b)) (\<lambda>ver.
     let updated = con (b\<lparr>t_amountMinor := case_option (t_amountMinor b) id (tp_amountMinor p),
           t_occurredAt := occurredAt, t_location := case_option (t_location b) id (tp_location p),
           t_note := case_option (t_note b) id (tp_note p), t_version := ver, t_updatedAt := timestamp\<rparr>)
           (a_id a) (c_id c) (case_option payee id (tp_payee p))
     in bindR (expectOneChange (updateTransaction updated (t_version b) db)) (\<lambda>db1.
        Inr (toTransactionDto updated (isTransactionExcludedFromStatistics (tx_id updated) db1), db1))))))))"

text \<open>
  The companion expense of a grouped transfer: there must be exactly one, not deleted, and no
  deleted one.
\<close>

definition companionExpense :: "runtime \<Rightarrow> ustr option \<Rightarrow> ledger_db \<Rightarrow> tx option res" where
  "companionExpense rt groupId db =
     (case groupId of
        None \<Rightarrow> Inr None
      | Some g \<Rightarrow>
          bindR (listTransactionsByGroupId rt g True db) (\<lambda>ts.
          let active = filter (\<lambda>t. tx_type t = TExpense \<and> tx_deletedAt t = None) ts in
          if length active \<noteq> 1 \<or> list_ex (\<lambda>t. tx_type t = TExpense \<and> tx_deletedAt t \<noteq> None) ts
          then Inl (ledgerValidationError ''groupId'')
          else Inr (Some (hd active))))"

text \<open>
  The fee after the patch: its amount, its system category, its mode and the amount transferred.
  A patch without \<open>amountMinor\<close> keeps the gross amount: for a withdrawal with a deducted fee that
  is the transferred amount plus the fee.
\<close>

definition patchedFeeMinor :: "tx_patch \<Rightarrow> tx option \<Rightarrow> int res" where
  "patchedFeeMinor p existingFee =
     bindR (case tp_feeMinor p of None \<Rightarrow> Inr ()
            | Some n \<Rightarrow> assertNonNegativeSafeInteger n ''feeMinor'') (\<lambda>_.
     if tp_feeMode p \<noteq> None \<and> tp_feeMinor p = None \<and> existingFee = None
     then Inl (ledgerValidationError ''feeMinor'')
     else Inr (case tp_feeMinor p of Some n \<Rightarrow> n
               | None \<Rightarrow> (case existingFee of None \<Rightarrow> 0 | Some e \<Rightarrow> tx_amountMinor e)))"

definition requestedAmount ::
  "tx_patch \<Rightarrow> tx_base \<Rightarrow> transfer_kind \<Rightarrow> fee_mode option \<Rightarrow> tx option \<Rightarrow> int res" where
  "requestedAmount p b oldKind oldMode existingFee =
     (case tp_amountMinor p of
        Some n \<Rightarrow> Inr n
      | None \<Rightarrow>
          (case existingFee of
             Some e \<Rightarrow> if oldKind = Withdrawal \<and> oldMode = Some Deducted
                       then checkedAddMinor (t_amountMinor b) (tx_amountMinor e)
                       else Inr (t_amountMinor b)
           | None \<Rightarrow> Inr (t_amountMinor b)))"

definition patchedFee ::
  "runtime \<Rightarrow> tx_patch \<Rightarrow> transfer_kind \<Rightarrow> tx_base \<Rightarrow> transfer_kind \<Rightarrow> fee_mode option \<Rightarrow> tx option
    \<Rightarrow> ledger_db \<Rightarrow> (int \<times> category option \<times> fee_mode option \<times> int) res" where
  "patchedFee rt p kind b oldKind oldMode existingFee db =
     bindR (patchedFeeMinor p existingFee) (\<lambda>feeMinor.
     if feeMinor = 0 \<and> tp_feeMode p \<noteq> None then Inl (ledgerValidationError ''feeMinor'')
     else if 0 < feeMinor \<and> kind = General then Inl (ledgerValidationError ''transferKind'')
     else
       bindR (if 0 < feeMinor
              then bindR (requireSystemCategory rt (if kind = Repayment then InterestKey else FeeKey) db)
                     (\<lambda>c. Inr (Some c))
              else Inr None) (\<lambda>feeCategory.
       bindR (if 0 < feeMinor \<and> kind = Repayment
              then (if tp_feeMode p \<noteq> None then Inl feeModeConflict else Inr None)
              else if 0 < feeMinor \<and> kind = Withdrawal
              then Inr (Some (case tp_feeMode p of Some m \<Rightarrow> m
                              | None \<Rightarrow> case_option Extra id oldMode))
              else Inr None) (\<lambda>feeMode.
       bindR (requestedAmount p b oldKind oldMode existingFee) (\<lambda>requested.
       if 0 < feeMinor \<and> kind = Withdrawal \<and> feeMode = Some Deducted
       then bindR (checkedSubMinor requested feeMinor) (\<lambda>amount.
            bindR (assertPositiveMinor amount ''amountMinor after fee'') (\<lambda>_.
            Inr (feeMinor, feeCategory, feeMode, amount)))
       else Inr (feeMinor, feeCategory, feeMode, requested)))))"

text \<open>
  Writing the companion after its transfer: rewritten with the transfer's data, created, or soft
  deleted when no fee is left.
\<close>

definition writeCompanion ::
  "service_deps \<Rightarrow> int \<Rightarrow> int \<Rightarrow> category option \<Rightarrow> ustr option \<Rightarrow> nat \<Rightarrow> tx_base \<Rightarrow> account \<Rightarrow> ustr \<Rightarrow> bool
    \<Rightarrow> tx option \<Rightarrow> ledger_db \<Rightarrow> ledger_db res" where
  "writeCompanion d timestamp feeMinor feeCategory groupId k u src payee identityChanged existingFee db =
     (case feeCategory of
        Some c \<Rightarrow>
          (case existingFee of
             Some e \<Rightarrow>
               bindR (nextVersion (tx_version e)) (\<lambda>ver.
               expectOneChange (updateTransaction
                 (ExpenseTx ((tx_base e)\<lparr>t_groupId := groupId, t_amountMinor := feeMinor,
                    t_occurredAt := t_occurredAt u, t_location := t_location u, t_note := t_note u,
                    t_version := ver, t_updatedAt := timestamp\<rparr>) (a_id src) (c_id c)
                    (case e of ExpenseTx _ _ _ oldPayee \<Rightarrow> if identityChanged then payee else oldPayee
                     | _ \<Rightarrow> payee)) (tx_version e) db))
           | None \<Rightarrow>
               bindR (generatedId d k) (\<lambda>j.
               insertTransaction (ExpenseTx
                 (newBase j groupId feeMinor (t_occurredAt u) (t_location u) (t_note u) timestamp)
                 (a_id src) (c_id c) payee) db))
      | None \<Rightarrow>
          (case existingFee of
             Some e \<Rightarrow>
               bindR (nextVersion (tx_version e)) (\<lambda>ver.
               expectOneChange (softDeleteTransaction (tx_id e) timestamp ver timestamp (tx_version e) db))
           | None \<Rightarrow> Inr db))"

definition patchTransfer ::
  "runtime \<Rightarrow> service_deps \<Rightarrow> settings \<Rightarrow> int \<Rightarrow> tx_patch \<Rightarrow> tx_base \<Rightarrow> transfer_kind \<Rightarrow> fee_mode option
    \<Rightarrow> ustr \<Rightarrow> ustr \<Rightarrow> ustr \<Rightarrow> ledger_db \<Rightarrow> (jval \<times> ledger_db) res" where
  "patchTransfer rt d s timestamp p b oldKind oldMode oldSrc oldDst oldPayee db =
     (if case_option oldSrc id (tp_fromAccountId p) = case_option oldDst id (tp_toAccountId p)
      then Inl invalidTransactionPair
      else
        bindR (case tp_fromAccountId p of Some i \<Rightarrow> requireActiveAccount rt i db
               | None \<Rightarrow> requireAccount rt oldSrc db) (\<lambda>src.
        bindR (case tp_toAccountId p of Some i \<Rightarrow> requireActiveAccount rt i db
               | None \<Rightarrow> requireAccount rt oldDst db) (\<lambda>dst.
        let kind = case_option oldKind id (tp_transferKind p);
            occurredAt = case_option (t_occurredAt b) id (tp_occurredAt p);
            payee = case_option oldPayee id (tp_payee p) in
        bindR (assertTransferKindAccounts kind src dst) (\<lambda>_.
        bindR (assertTransactionCurrency s src) (\<lambda>_.
        bindR (assertTransactionCurrency s dst) (\<lambda>_.
        bindR (assertTransactionTime rt s [src, dst] occurredAt timestamp) (\<lambda>_.
        bindR (companionExpense rt (t_groupId b) db) (\<lambda>existingFee.
        bindR (patchedFee rt p kind b oldKind oldMode existingFee db) (\<lambda>(feeMinor, feeCategory, feeMode, amount).
        bindR (if 0 < feeMinor
               then (case t_groupId b of Some g \<Rightarrow> Inr (Some g)
                     | None \<Rightarrow> bindR (generatedId d 0) (\<lambda>g. Inr (Some g)))
               else Inr None) (\<lambda>nextGroupId.
        bindR (nextVersion (t_version b)) (\<lambda>ver.
        let u = b\<lparr>t_groupId := nextGroupId, t_amountMinor := amount, t_occurredAt := occurredAt,
                  t_location := case_option (t_location b) id (tp_location p),
                  t_note := case_option (t_note b) id (tp_note p),
                  t_version := ver, t_updatedAt := timestamp\<rparr>;
            updated = TransferTx u kind feeMode (a_id src) (a_id dst) payee;
            identityChanged = (kind \<noteq> oldKind \<or> a_id src \<noteq> oldSrc \<or> a_id dst \<noteq> oldDst) in
        bindR (expectOneChange (updateTransaction updated (t_version b) db)) (\<lambda>db1.
        let db2 = (if oldKind = Repayment \<and> kind \<noteq> Repayment
                   then restoreTransactionToStatistics (t_id b) db1 else db1) in
        bindR (writeCompanion d timestamp feeMinor feeCategory nextGroupId
                 (if t_groupId b = None then 1 else 0) u src
                 (companionPayee kind (a_name src) (a_name dst) payee) identityChanged existingFee db2) (\<lambda>db3.
        Inr (toTransactionDto updated (isTransactionExcludedFromStatistics (tx_id updated) db3), db3))))))))))))))"

definition patchAdjustment ::
  "runtime \<Rightarrow> settings \<Rightarrow> int \<Rightarrow> tx_patch \<Rightarrow> tx_base \<Rightarrow> ustr \<Rightarrow> int \<Rightarrow> int \<Rightarrow> ledger_db \<Rightarrow> (jval \<times> ledger_db) res" where
  "patchAdjustment rt s timestamp p b acct calculated target db =
     bindR (requireAccount rt acct db) (\<lambda>a.
     bindR (assertTransactionCurrency s a) (\<lambda>_.
     bindR (assertTransactionTime rt s [a] (t_occurredAt b) timestamp) (\<lambda>_.
     bindR (nextVersion (t_version b)) (\<lambda>ver.
     let updated = AdjustmentTx (b\<lparr>t_location := case_option (t_location b) id (tp_location p),
           t_note := case_option (t_note b) id (tp_note p), t_version := ver, t_updatedAt := timestamp\<rparr>)
           acct calculated target
     in bindR (expectOneChange (updateTransaction updated (t_version b) db)) (\<lambda>db1.
        Inr (toTransactionDto updated (isTransactionExcludedFromStatistics (tx_id updated) db1), db1))))))"

definition patchTransactionMutation ::
  "runtime \<Rightarrow> service_deps \<Rightarrow> ustr \<Rightarrow> jval \<Rightarrow> ledger_db \<Rightarrow> (jval \<times> ledger_db) res" where
  "patchTransactionMutation rt d i v db =
     bindR (requireSettings rt db) (\<lambda>s.
     bindR (requireUserTransaction rt i db) (\<lambda>t.
     if tx_deletedAt t \<noteq> None then Inl transactionDeleted
     else
       bindR (assertArchivedPatchWhitelist rt t (asMutationRecord v) db) (\<lambda>_.
       bindR (assertCandidateAccountsNotArchived rt t (asMutationRecord v) db) (\<lambda>_.
       bindR (precheckVersion (asMutationRecord v) (tx_version t)) (\<lambda>_.
       bindR (parseTransactionPatchRequest rt v) (\<lambda>p.
       bindR (assertExpectedVersion (tx_version t) (tp_expectedVersion p)) (\<lambda>_.
       if tp_type p \<noteq> None \<and> tp_type p \<noteq> Some (tx_type t) then Inl transactionTypeImmutable
       else if tx_type t = TAdjustment \<and> tp_type p \<noteq> None then Inl adjustmentImmutable
       else
         bindR (assertPatchFields t p) (\<lambda>_.
         bindR (generatedTimestamp rt d 0) (\<lambda>timestamp.
         case t of
           IncomeTx b acct cat payee \<Rightarrow> patchEntry rt IncomeKind IncomeTx s timestamp p b acct cat payee db
         | ExpenseTx b acct cat payee \<Rightarrow> patchEntry rt ExpenseKind ExpenseTx s timestamp p b acct cat payee db
         | TransferTx b kind mode src dst payee \<Rightarrow>
             patchTransfer rt d s timestamp p b kind mode src dst payee db
         | AdjustmentTx b acct calculated target \<Rightarrow>
             patchAdjustment rt s timestamp p b acct calculated target db)))))))))"

definition patchTransaction ::
  "runtime \<Rightarrow> service_deps \<Rightarrow> ustr \<Rightarrow> jval \<Rightarrow> ledger_db \<Rightarrow> jval res \<times> ledger_db" where
  "patchTransaction rt d i v db = runLedgerWrite rt db (patchTransactionMutation rt d i v)"

section \<open>Transactions: deletion\<close>

definition deletedItem :: "int \<Rightarrow> int \<Rightarrow> tx \<Rightarrow> tx" where
  "deletedItem timestamp ver t =
     map_tx_base (\<lambda>b. b\<lparr>t_deletedAt := Some timestamp, t_version := ver, t_updatedAt := timestamp\<rparr>) t"

text \<open>
  The loop over the group: live items are soft deleted one by one; \<open>target\<close> is the transaction that
  was asked for, whose deleted form is the response.
\<close>

fun softDeleteGroup :: "tx \<Rightarrow> int \<Rightarrow> tx list \<Rightarrow> tx option \<Rightarrow> ledger_db \<Rightarrow> (tx option \<times> ledger_db) res" where
  "softDeleteGroup target timestamp [] returned db = Inr (returned, db)"
| "softDeleteGroup target timestamp (t # ts) returned db =
     (if tx_deletedAt t \<noteq> None then softDeleteGroup target timestamp ts returned db
      else
        bindR (nextVersion (tx_version t)) (\<lambda>ver.
        bindR (expectOneChange (softDeleteTransaction (tx_id t) timestamp ver timestamp
                 (if tx_id t = tx_id target then tx_version target else tx_version t) db)) (\<lambda>db1.
        softDeleteGroup target timestamp ts
          (if tx_id t = tx_id target then Some (deletedItem timestamp ver t) else returned) db1)))"

definition deleteTransactionMutation ::
  "runtime \<Rightarrow> service_deps \<Rightarrow> ustr \<Rightarrow> jval \<Rightarrow> ledger_db \<Rightarrow> (jval \<times> ledger_db) res" where
  "deleteTransactionMutation rt d i v db =
     bindR (requireSettings rt db) (\<lambda>_.
     bindR (requireUserTransaction rt i db) (\<lambda>t.
     if tx_deletedAt t \<noteq> None
     then bindR (parseExpectedVersionCommand v) (\<lambda>_.
          Inr (toTransactionDto t (isTransactionExcludedFromStatistics (tx_id t) db), db))
     else
       bindR (case tx_groupId t of Some g \<Rightarrow> listTransactionsByGroupId rt g True db
              | None \<Rightarrow> Inr [t]) (\<lambda>items.
       case find (\<lambda>x. tx_id x = tx_id t) items of
         None \<Rightarrow> Inl notFound
       | Some deleted \<Rightarrow>
           bindR (mapR (\<lambda>x. assertTransactionAccountsNotArchived rt x db)
             (filter (\<lambda>x. tx_deletedAt x = None) items)) (\<lambda>_.
           bindR (parseExpectedVersionCommand v) (\<lambda>expected.
           bindR (assertExpectedVersion (tx_version t) expected) (\<lambda>_.
           bindR (generatedTimestamp rt d 0) (\<lambda>timestamp.
           bindR (softDeleteGroup t timestamp items None db) (\<lambda>(returned, db1).
           let shown = case_option deleted id returned in
           Inr (toTransactionDto shown (isTransactionExcludedFromStatistics (tx_id shown) db1), db1)))))))))"

definition deleteTransaction ::
  "runtime \<Rightarrow> service_deps \<Rightarrow> ustr \<Rightarrow> jval \<Rightarrow> ledger_db \<Rightarrow> jval res \<times> ledger_db" where
  "deleteTransaction rt d i v db = runLedgerWrite rt db (deleteTransactionMutation rt d i v)"

section \<open>Balance adjustment\<close>

definition balanceConflict :: js_error where
  "balanceConflict = LedgerError LBalanceConflict 409 None"

definition adjustmentMutationDto :: "jval \<Rightarrow> jval \<Rightarrow> bool \<Rightarrow> jval" where
  "adjustmentMutationDto adjustment account noOp =
     JObj [(js ''adjustment'', adjustment), (js ''account'', account), (js ''noOp'', JBool noOp)]"

definition adjustAccountMutation ::
  "runtime \<Rightarrow> service_deps \<Rightarrow> ustr \<Rightarrow> adjustment_req \<Rightarrow> ledger_db \<Rightarrow> (idempotent_result \<times> ledger_db) res" where
  "adjustAccountMutation rt d i q db =
     bindR (requireSettings rt db) (\<lambda>s.
     bindR (requireActiveAccount rt i db) (\<lambda>a.
     bindR (assertTransactionCurrency s a) (\<lambda>_.
     bindR (generatedTimestamp rt d 0) (\<lambda>timestamp.
     bindR (assertTransactionTime rt s [a] (jq_occurredAt q) timestamp) (\<lambda>_.
     bindR (listActiveTransactionsForAccount rt (a_id a) db) (\<lambda>ts.
     bindR (deriveCurrentBalance a ts) (\<lambda>actual.
     if actual \<noteq> jq_expectedCalculatedBalanceMinor q then Inl balanceConflict
     else
       bindR (checkedSubMinor (jq_targetBalanceMinor q) actual) (\<lambda>delta.
       if delta = 0
       then bindR (toAccountDto rt a db) (\<lambda>dto.
            Inr (\<lparr>ir_resultStatus = NoOp, ir_responseStatus = 200,
                  ir_responseBody = adjustmentMutationDto JNull dto True,
                  ir_resultType = None, ir_resultId = None\<rparr>, db))
       else
         bindR (generatedId d 0) (\<lambda>j.
         let t = AdjustmentTx (newBase j None delta (jq_occurredAt q) [] (jq_note q) timestamp)
                   (a_id a) actual (jq_targetBalanceMinor q)
         in bindR (insertTransaction t db) (\<lambda>db1.
            bindR (toAccountDto rt a db1) (\<lambda>dto.
            Inr (\<lparr>ir_resultStatus = Committed, ir_responseStatus = 201,
                  ir_responseBody = adjustmentMutationDto (toTransactionDto t False) dto False,
                  ir_resultType = Some (js ''transaction''), ir_resultId = Some j\<rparr>, db1))))))))))))"

definition adjustAccount ::
  "runtime \<Rightarrow> service_deps \<Rightarrow> ustr \<Rightarrow> adjustment_req \<Rightarrow> ustr \<Rightarrow> ledger_db \<Rightarrow> replay_result res \<times> ledger_db" where
  "adjustAccount rt d i q key db =
     executeIdempotentLedgerCreate rt (ledgerAccountAdjustmentOperationScope i) key (adjustmentReqJson q)
       (adjustAccountMutation rt d i q) None db"

end
