(* ===== verification/LedgerLifecycle.thy ===== *)
theory LedgerLifecycle
  imports LedgerService
begin

text \<open>
  What the service promises of the database: an abstract relation \<open>ledger_change\<close> with one rule for
  every kind of change the service may make and the guards it owes, a proof that every committed
  mutation of the service is a sequence of such changes, and the invariants that all reachable
  databases satisfy, by rule induction on the relation.
\<close>

section \<open>What is true of a sound database\<close>

definition account_usable :: "runtime \<Rightarrow> settings_row \<Rightarrow> int \<Rightarrow> account_row \<Rightarrow> bool" where
  "account_usable rt st at a \<longleftrightarrow> ra_currency a = rs_base_currency st
     \<and> (\<exists>b. openingBoundaryMs rt (ra_opening_date a) (rs_timezone st) = Inr b \<and> b \<le> at)"

definition account_row_of :: "ledger_db \<Rightarrow> ustr \<Rightarrow> account_row option" where
  "account_row_of db i = lookup_by ra_id i (db_accounts db)"

definition has_nature :: "ledger_db \<Rightarrow> ustr \<Rightarrow> account_nature \<Rightarrow> bool" where
  "has_nature db i n \<longleftrightarrow> map_option ra_nature (account_row_of db i) = Some (enum_text LEDGER_ACCOUNT_NATURES n)"

definition has_kind :: "ledger_db \<Rightarrow> ustr \<Rightarrow> category_kind \<Rightarrow> bool" where
  "has_kind db i k \<longleftrightarrow> map_option rc_kind (lookup_by rc_id i (db_categories db))
     = Some (enum_text LEDGER_CATEGORY_KINDS k)"

text \<open>
  A transaction makes sense: its accounts exist, in the base currency, opened before it; an income
  has an income category and an expense an expense category; a repayment goes from an asset to a
  liability and a withdrawal from an asset to an asset.
\<close>

definition tx_shape_valid :: "ledger_db \<Rightarrow> tx \<Rightarrow> bool" where
  "tx_shape_valid db t =
     (case t of
        IncomeTx b acct cat payee \<Rightarrow> has_kind db cat IncomeKind
      | ExpenseTx b acct cat payee \<Rightarrow> has_kind db cat ExpenseKind
      | TransferTx b kind fee src dst payee \<Rightarrow>
          kind = General \<or> (has_nature db src Asset
            \<and> has_nature db dst (if kind = Repayment then Liability else Asset))
      | AdjustmentTx b acct calculated target \<Rightarrow> True)"

definition tx_valid :: "runtime \<Rightarrow> ledger_db \<Rightarrow> tx \<Rightarrow> bool" where
  "tx_valid rt db t \<longleftrightarrow>
     (\<exists>st. db_settings db = Some st \<and>
       (\<forall>i\<in>set (tx_accounts t). \<exists>a. account_row_of db i = Some a \<and> account_usable rt st (tx_occurredAt t) a))
     \<and> tx_shape_valid db t"

definition locked :: "ledger_db \<Rightarrow> bool" where
  "locked db \<longleftrightarrow> (\<exists>st. db_settings db = Some st \<and> rs_has_created_account st = 1)"

definition row_balance :: "runtime \<Rightarrow> ledger_db \<Rightarrow> account_row \<Rightarrow> int" where
  "row_balance rt db r = balance_spec (projr (accountOfRow rt r)) (txs rt db)"

definition row_effect :: "runtime \<Rightarrow> account_row \<Rightarrow> tx \<Rightarrow> int" where
  "row_effect rt r t = (let a = projr (accountOfRow rt r) in effect (a_nature a) (a_id a) t)"

definition sound :: "runtime \<Rightarrow> ledger_db \<Rightarrow> bool" where
  "sound rt db \<longleftrightarrow> wf_db rt db \<and> (db_accounts db \<noteq> [] \<longrightarrow> locked db)
     \<and> (\<forall>st a. db_settings db = Some st \<longrightarrow> a \<in> set (db_accounts db) \<longrightarrow> ra_currency a = rs_base_currency st)
     \<and> (\<forall>t\<in>set (txs rt db). tx_valid rt db t)
     \<and> (\<forall>r\<in>set (db_accounts db). ra_archived_at r \<noteq> None \<longrightarrow> row_balance rt db r = 0)"

section \<open>The changes the service may make\<close>

text \<open>The settings \<open>s\<close> keep what the row \<open>st\<close> has fixed.\<close>

definition same_settings :: "settings_row \<Rightarrow> settings \<Rightarrow> bool" where
  "same_settings st s \<longleftrightarrow> s_baseCurrency s = rs_base_currency st \<and> s_timezone s = rs_timezone st"

definition same_interpretation :: "account_row \<Rightarrow> account_row \<Rightarrow> bool" where
  "same_interpretation old r \<longleftrightarrow> ra_type r = ra_type old \<and> ra_nature r = ra_nature old
     \<and> ra_opening_balance_minor r = ra_opening_balance_minor old \<and> ra_opening_date r = ra_opening_date old"

inductive ledger_change :: "runtime \<Rightarrow> ledger_db \<Rightarrow> ledger_db \<Rightarrow> bool" for rt where
  settings_created:
    "db_settings db = None \<Longrightarrow> wf_settings rt s \<Longrightarrow> \<not> s_hasCreatedAccount s \<Longrightarrow>
     ledger_change rt db (db\<lparr>db_settings := Some (settingsParams rt s)\<rparr>)"
| settings_patched:
    "db_settings db = Some st \<Longrightarrow> wf_settings rt s \<Longrightarrow>
     s_hasCreatedAccount s = (rs_has_created_account st = 1) \<Longrightarrow>
     (rs_has_created_account st = 1 \<Longrightarrow> same_settings st s) \<Longrightarrow> s_version s = rs_version st + 1 \<Longrightarrow>
     s_createdAt s = rs_created_at st \<Longrightarrow>
     ledger_change rt db (db\<lparr>db_settings := Some (settingsParams rt s)\<rparr>)"
| account_created:
    "db_settings db = Some st \<Longrightarrow> account_ok rt r \<Longrightarrow> account_row_of db (ra_id r) = None \<Longrightarrow>
     ra_currency r = rs_base_currency st \<Longrightarrow> ra_archived_at r = None \<Longrightarrow> ra_version r = 1 \<Longrightarrow>
     wf_settings rt s \<Longrightarrow> s_hasCreatedAccount s \<Longrightarrow> same_settings st s \<Longrightarrow> s_version s = rs_version st \<Longrightarrow>
     s_createdAt s = rs_created_at st \<Longrightarrow>
     ledger_change rt db (db\<lparr>db_accounts := db_accounts db @ [r], db_settings := Some (settingsParams rt s)\<rparr>)"
| account_changed:
    "account_row_of db (ra_id r) = Some old \<Longrightarrow> account_ok rt r \<Longrightarrow> ra_currency r = ra_currency old \<Longrightarrow>
     ra_created_at r = ra_created_at old \<Longrightarrow> ra_version r = ra_version old + 1 \<Longrightarrow>
     (hasAccountHistory (ra_id r) db \<Longrightarrow> same_interpretation old r) \<Longrightarrow>
     (ra_archived_at r \<noteq> None \<Longrightarrow> same_interpretation old r \<and>
       (ra_archived_at old \<noteq> None \<or> row_balance rt db r = 0)) \<Longrightarrow>
     ledger_change rt db (db\<lparr>db_accounts := replace_by ra_id r (db_accounts db)\<rparr>)"
| account_deleted:
    "\<not> hasAccountHistory i db \<Longrightarrow>
     ledger_change rt db (db\<lparr>db_accounts := filter (\<lambda>r. ra_id r \<noteq> i) (db_accounts db)\<rparr>)"
| category_created:
    "category_ok rt r \<Longrightarrow> lookup_by rc_id (rc_id r) (db_categories db) = None \<Longrightarrow>
     category_unique r (db_categories db) \<Longrightarrow> rc_version r = 1 \<Longrightarrow>
     ledger_change rt db (db\<lparr>db_categories := db_categories db @ [r]\<rparr>)"
| category_changed:
    "lookup_by rc_id (rc_id r) (db_categories db) = Some old \<Longrightarrow> category_ok rt r \<Longrightarrow>
     category_unique r (filter (\<lambda>q. rc_id q \<noteq> rc_id r) (db_categories db)) \<Longrightarrow>
     rc_created_at r = rc_created_at old \<Longrightarrow> rc_version r = rc_version old + 1 \<Longrightarrow>
     rc_system_key r = rc_system_key old \<Longrightarrow> rc_is_default r = rc_is_default old \<Longrightarrow>
     (hasCategoryHistory (rc_id r) db \<or> rc_is_default r = 1 \<or> rc_system_key r \<noteq> None \<Longrightarrow> rc_kind r = rc_kind old) \<Longrightarrow>
     (rc_is_default r = 1 \<or> rc_system_key r \<noteq> None \<Longrightarrow> rc_name r = rc_name old
       \<and> (rc_archived_at r = None \<or> rc_archived_at r = rc_archived_at old)) \<Longrightarrow>
     ledger_change rt db (db\<lparr>db_categories := replace_by rc_id r (db_categories db)\<rparr>)"
| category_deleted:
    "lookup_by rc_id i (db_categories db) = Some old \<Longrightarrow> rc_is_default old \<noteq> 1 \<Longrightarrow> rc_system_key old = None \<Longrightarrow>
     \<not> hasCategoryHistory i db \<Longrightarrow>
     ledger_change rt db (db\<lparr>db_categories := filter (\<lambda>r. rc_id r \<noteq> i) (db_categories db)\<rparr>)"
| transaction_created:
    "wf_tx rt t \<Longrightarrow> tx_valid rt db t \<Longrightarrow> tx_fks db (transactionParams t) \<Longrightarrow>
     lookup_by rt_id (tx_id t) (db_transactions db) = None \<Longrightarrow> tx_deletedAt t = None \<Longrightarrow> tx_version t = 1 \<Longrightarrow>
     (\<forall>i\<in>set (tx_accounts t). \<forall>a. account_row_of db i = Some a \<longrightarrow> ra_archived_at a = None) \<Longrightarrow>
     ledger_change rt db (db\<lparr>db_transactions := db_transactions db @ [transactionParams t]\<rparr>)"
| transaction_changed:
    "wf_tx rt t \<Longrightarrow> wf_tx rt old \<Longrightarrow> tx_valid rt db t \<Longrightarrow> tx_fks db (transactionParams t) \<Longrightarrow>
     lookup_by rt_id (tx_id t) (db_transactions db) = Some (transactionParams old) \<Longrightarrow>
     tx_deletedAt old = None \<Longrightarrow> tx_deletedAt t = None \<Longrightarrow> tx_type t = tx_type old \<Longrightarrow>
     tx_createdAt t = tx_createdAt old \<Longrightarrow> tx_version t = tx_version old + 1 \<Longrightarrow>
     (tx_type old = TAdjustment \<Longrightarrow> tx_accounts t = tx_accounts old \<and> tx_amountMinor t = tx_amountMinor old
       \<and> tx_occurredAt t = tx_occurredAt old \<and> rt_target (transactionParams t) = rt_target (transactionParams old)) \<Longrightarrow>
     (\<forall>r\<in>set (db_accounts db). ra_archived_at r \<noteq> None \<longrightarrow> row_effect rt r t = row_effect rt r old) \<Longrightarrow>
     ledger_change rt db (db\<lparr>db_transactions := replace_by rt_id (transactionParams t) (db_transactions db)\<rparr>)"
| transaction_deleted:
    "wf_tx rt old \<Longrightarrow> lookup_by rt_id (tx_id old) (db_transactions db) = Some (transactionParams old) \<Longrightarrow>
     tx_deletedAt old = None \<Longrightarrow> wf_tx rt (deletedItem at (tx_version old + 1) old) \<Longrightarrow>
     (\<forall>i\<in>set (tx_accounts old). \<forall>a. account_row_of db i = Some a \<longrightarrow> ra_archived_at a = None) \<Longrightarrow>
     ledger_change rt db (db\<lparr>db_transactions := replace_by rt_id
       (transactionParams (deletedItem at (tx_version old + 1) old)) (db_transactions db)\<rparr>)"
| exclusions_changed:
    "ledger_change rt db (db\<lparr>db_exclusions := xs\<rparr>)"
| idempotency_recorded:
    "ledger_change rt db (db\<lparr>db_idempotency := db_idempotency db @ [r]\<rparr>)"

section \<open>Soundness is invariant\<close>

lemma tx_valid_cong:
  "db_settings db' = db_settings db \<Longrightarrow> db_accounts db' = db_accounts db \<Longrightarrow>
   db_categories db' = db_categories db \<Longrightarrow> tx_valid rt db' t = tx_valid rt db t"
  by (cases t) (simp_all add: tx_valid_def tx_shape_valid_def account_row_of_def has_kind_def has_nature_def)

lemma tx_fks_cong:
  "db_accounts db' = db_accounts db \<Longrightarrow> db_categories db' = db_categories db \<Longrightarrow> tx_fks db' r = tx_fks db r"
  by (simp add: tx_fks_def)

lemma fk_mono: "fk key table v \<Longrightarrow> key ` set table \<subseteq> key ` set table' \<Longrightarrow> fk key table' v"
  by (auto simp: fk_def lookup_by_None_iff split: option.splits)

lemma tx_fks_mono:
  assumes "tx_fks db r" "ra_id ` set (db_accounts db) \<subseteq> ra_id ` set (db_accounts db')"
    and "rc_id ` set (db_categories db) \<subseteq> rc_id ` set (db_categories db')"
  shows "tx_fks db' r"
  using assms unfolding tx_fks_def
  by (intro conjI) (rule fk_mono [where table' = "db_accounts db'"] fk_mono [where table' = "db_categories db'"];
    simp)+

lemma replace_by_keys [simp]: "map key (replace_by key r xs) = map key xs"
  by (auto simp: replace_by_def)

lemma replace_by_key_set [simp]: "key ` set (replace_by key r xs) = key ` set xs"
  by (metis list.set_map replace_by_keys)

lemma set_replace_by: "set (replace_by key r xs) \<subseteq> insert r (set xs)"
  by (auto simp: replace_by_def)

lemma list_all_replace_by: "list_all P xs \<Longrightarrow> P r \<Longrightarrow> list_all P (replace_by key r xs)"
  by (auto simp: replace_by_def list_all_iff)

lemma lookup_by_filter:
  "lookup_by key k (filter (\<lambda>r. key r \<noteq> i) xs) = (if k = i then None else lookup_by key k xs)"
  by (induction xs) auto

lemma fk_filter: "fk key xs v \<Longrightarrow> v \<noteq> Some i \<Longrightarrow> fk key (filter (\<lambda>r. key r \<noteq> i) xs) v"
  by (auto simp: fk_def lookup_by_filter split: option.splits)

lemma tx_row_refs:
  "hasAccountHistory i db \<longleftrightarrow> (\<exists>r\<in>set (db_transactions db). references_account i r)"
  "hasCategoryHistory i db \<longleftrightarrow> (\<exists>r\<in>set (db_transactions db). rt_category_id r = Some i)"
  by (auto simp: hasAccountHistory_def hasCategoryHistory_def list_ex_iff)

lemma category_of_tx:
  "rt_category_id (transactionParams t) = (case t of IncomeTx b acct cat payee \<Rightarrow> Some cat
     | ExpenseTx b acct cat payee \<Rightarrow> Some cat | _ \<Rightarrow> None)"
  by (cases t) (simp_all add: commonParams_def)

lemma wf_db_with_accounts:
  assumes "wf_db rt db" "list_all (account_ok rt) accs" "distinct (map ra_id accs)"
    and "\<And>q. q \<in> set (db_transactions db) \<Longrightarrow> tx_fks db q \<Longrightarrow> tx_fks (db\<lparr>db_accounts := accs\<rparr>) q"
  shows "wf_db rt (db\<lparr>db_accounts := accs\<rparr>)"
  using assms by (simp add: wf_db_def list_all_iff)

lemma wf_db_with_categories:
  assumes "wf_db rt db" "list_all (category_ok rt) cats" "distinct (map rc_id cats)"
    and "\<And>q. q \<in> set (db_transactions db) \<Longrightarrow> tx_fks db q \<Longrightarrow> tx_fks (db\<lparr>db_categories := cats\<rparr>) q"
  shows "wf_db rt (db\<lparr>db_categories := cats\<rparr>)"
  using assms by (simp add: wf_db_def list_all_iff)

lemma wf_db_with_transactions:
  assumes "wf_db rt db" "list_all (tx_ok rt) rows" "distinct (map rt_id rows)" "list_all (tx_fks db) rows"
  shows "wf_db rt (db\<lparr>db_transactions := rows\<rparr>)"
  using assms by (simp add: wf_db_def list_all_iff tx_fks_def)

lemma wf_db_other [simp]:
  "wf_settings rt s \<Longrightarrow> wf_db rt db \<Longrightarrow> wf_db rt (db\<lparr>db_settings := Some (settingsParams rt s)\<rparr>)"
  "wf_db rt (db\<lparr>db_exclusions := xs\<rparr>) = wf_db rt db"
  "wf_db rt (db\<lparr>db_idempotency := rs\<rparr>) = wf_db rt db"
  by (auto simp: wf_db_def list_all_iff tx_fks_def)

lemma wf_db_parts:
  assumes "wf_db rt db"
  shows "list_all (account_ok rt) (db_accounts db)" "distinct (map ra_id (db_accounts db))"
    "list_all (category_ok rt) (db_categories db)" "distinct (map rc_id (db_categories db))"
    "list_all (tx_ok rt) (db_transactions db)" "distinct (map rt_id (db_transactions db))"
    "list_all (tx_fks db) (db_transactions db)"
  using assms by (simp_all add: wf_db_def)

lemma deletedItem_params:
  "rt_account_id (transactionParams (deletedItem at v t)) = rt_account_id (transactionParams t)"
  "rt_from_account_id (transactionParams (deletedItem at v t)) = rt_from_account_id (transactionParams t)"
  "rt_to_account_id (transactionParams (deletedItem at v t)) = rt_to_account_id (transactionParams t)"
  "rt_category_id (transactionParams (deletedItem at v t)) = rt_category_id (transactionParams t)"
  by (cases t; simp add: deletedItem_def commonParams_def)+

lemma tx_ok_params: "wf_tx rt t \<Longrightarrow> tx_ok rt (transactionParams t)"
  by (auto simp: tx_ok_def txOfRow_Inr)

lemma ledger_change_wf:
  assumes "ledger_change rt db db'" "wf_db rt db"
  shows "wf_db rt db'"
  using assms(1)
proof cases
  case (account_created st r s)
  have "wf_db rt (db\<lparr>db_accounts := db_accounts db @ [r]\<rparr>)"
    using account_created wf_db_parts [OF assms(2)]
    by (intro wf_db_with_accounts [OF assms(2)])
      (auto simp: account_row_of_def lookup_by_None_iff elim: tx_fks_mono)
  from wf_db_other(1) [OF \<open>wf_settings rt s\<close> this] account_created show ?thesis by simp
next
  case (account_changed r old)
  then show ?thesis using wf_db_parts [OF assms(2)]
    by (auto intro!: wf_db_with_accounts [OF assms(2)] list_all_replace_by elim: tx_fks_mono)
next
  case (account_deleted i)
  then show ?thesis using wf_db_parts [OF assms(2)]
    by (auto intro!: wf_db_with_accounts [OF assms(2)] fk_filter
        simp: list_all_iff distinct_map_filter tx_fks_def tx_row_refs references_account_def)
next
  case (category_created r)
  then show ?thesis using wf_db_parts [OF assms(2)]
    by (auto intro!: wf_db_with_categories [OF assms(2)] simp: lookup_by_None_iff elim: tx_fks_mono)
next
  case (category_changed r old)
  then show ?thesis using wf_db_parts [OF assms(2)]
    by (auto intro!: wf_db_with_categories [OF assms(2)] list_all_replace_by elim: tx_fks_mono)
next
  case (category_deleted i old)
  then show ?thesis using wf_db_parts [OF assms(2)]
    by (auto intro!: wf_db_with_categories [OF assms(2)] fk_filter
        simp: list_all_iff distinct_map_filter tx_fks_def tx_row_refs)
next
  case (transaction_created t)
  then show ?thesis using wf_db_parts [OF assms(2)]
    by (auto intro!: wf_db_with_transactions [OF assms(2)] simp: tx_ok_params lookup_by_None_iff)
next
  case (transaction_changed t old)
  then show ?thesis using wf_db_parts [OF assms(2)]
    by (auto intro!: wf_db_with_transactions [OF assms(2)] list_all_replace_by simp: tx_ok_params)
next
  case (transaction_deleted old at)
  have "transactionParams old \<in> set (db_transactions db)"
    using transaction_deleted lookup_by_SomeD by fastforce
  then have "tx_fks db (transactionParams (deletedItem at (tx_version old + 1) old))"
    using wf_db_parts(7) [OF assms(2)] by (auto simp: list_all_iff tx_fks_def deletedItem_params)
  then show ?thesis using wf_db_parts [OF assms(2)] transaction_deleted
    by (auto intro!: wf_db_with_transactions [OF assms(2)] list_all_replace_by simp: tx_ok_params)
qed (simp_all add: assms(2))

lemma txs_in_db:
  assumes "wf_db rt db" "t \<in> set (txs rt db)"
  obtains r where "r \<in> set (db_transactions db)" "r = transactionParams t" "wf_tx rt t" "tx_of rt r = t"
proof -
  from assms(2) obtain r where r: "r \<in> set (db_transactions db)" "t = tx_of rt r" by (auto simp: txs_def)
  moreover have "tx_ok rt r" using wf_db_parts(5) [OF assms(1)] r(1) by (auto simp: list_all_iff)
  then obtain u where "wf_tx rt u" "r = transactionParams u" "tx_of rt r = u" by (rule tx_okE)
  ultimately show ?thesis using that by simp
qed

lemma tx_has_history:
  assumes "wf_db rt db" "t \<in> set (txs rt db)"
  shows "i \<in> set (tx_accounts t) \<Longrightarrow> hasAccountHistory i db"
    and "rt_category_id (transactionParams t) = Some c \<Longrightarrow> hasCategoryHistory c db"
  using txs_in_db [OF assms] references_tx_accounts tx_row_refs by metis+

text \<open>When the rows a transaction refers to keep their meaning, the transaction stays valid.\<close>

lemma tx_valid_transfer:
  assumes "tx_valid rt db t"
    and "\<And>st. db_settings db = Some st \<Longrightarrow> \<exists>st'. db_settings db' = Some st'
      \<and> rs_base_currency st' = rs_base_currency st \<and> rs_timezone st' = rs_timezone st"
    and "\<And>i a. i \<in> set (tx_accounts t) \<Longrightarrow> account_row_of db i = Some a \<Longrightarrow> \<exists>a'. account_row_of db' i = Some a'
      \<and> ra_currency a' = ra_currency a \<and> ra_opening_date a' = ra_opening_date a \<and> ra_nature a' = ra_nature a"
    and "\<And>c r. rt_category_id (transactionParams t) = Some c \<Longrightarrow> lookup_by rc_id c (db_categories db) = Some r \<Longrightarrow>
      \<exists>r'. lookup_by rc_id c (db_categories db') = Some r' \<and> rc_kind r' = rc_kind r"
  shows "tx_valid rt db' t"
proof -
  have nature: "has_nature db' i n" if "has_nature db i n" "i \<in> set (tx_accounts t)" for i n
    using that assms(3) [OF that(2)] by (auto simp: has_nature_def)
  have kind: "has_kind db' c k" if "has_kind db c k" "rt_category_id (transactionParams t) = Some c" for c k
    using that assms(4) [OF that(2)] by (auto simp: has_kind_def)
  have "tx_shape_valid db' t"
    using assms(1) nature kind
    by (cases t) (auto simp: tx_valid_def tx_shape_valid_def category_of_tx split: tx.splits if_splits)
  moreover obtain st where st: "db_settings db = Some st"
    "\<forall>i\<in>set (tx_accounts t). \<exists>a. account_row_of db i = Some a \<and> account_usable rt st (tx_occurredAt t) a"
    using assms(1) by (auto simp: tx_valid_def)
  moreover from assms(2) [OF st(1)] obtain st' where st': "db_settings db' = Some st'"
    "rs_base_currency st' = rs_base_currency st" "rs_timezone st' = rs_timezone st" by blast
  moreover have "\<exists>a. account_row_of db' i = Some a \<and> account_usable rt st' (tx_occurredAt t) a"
    if i: "i \<in> set (tx_accounts t)" for i
  proof -
    from st(2) i obtain a where a: "account_row_of db i = Some a" "account_usable rt st (tx_occurredAt t) a"
      by blast
    from assms(3) [OF i a(1)] obtain a' where "account_row_of db' i = Some a'"
      "ra_currency a' = ra_currency a" "ra_opening_date a' = ra_opening_date a" by blast
    with a(2) st' show ?thesis by (auto simp: account_usable_def)
  qed
  ultimately show ?thesis by (auto simp: tx_valid_def)
qed

lemma account_row_of_replace:
  "account_row_of (db\<lparr>db_accounts := replace_by ra_id r (db_accounts db)\<rparr>) i =
     (if i = ra_id r \<and> account_row_of db i \<noteq> None then Some r else account_row_of db i)"
  by (auto simp: account_row_of_def lookup_by_replace lookup_by_None_iff)

lemma same_settings_simps:
  "same_settings st s \<Longrightarrow> rs_base_currency (settingsParams rt s) = rs_base_currency st
     \<and> rs_timezone (settingsParams rt s) = rs_timezone st"
  by (simp add: same_settings_def settingsParams_def)

lemma settingsParams_flag: "rs_has_created_account (settingsParams rt s) = 1 \<longleftrightarrow> s_hasCreatedAccount s"
  by (simp add: settingsParams_def)

lemma sound_parts:
  assumes "sound rt db"
  shows "wf_db rt db" "db_accounts db \<noteq> [] \<Longrightarrow> locked db"
    "\<And>st a. db_settings db = Some st \<Longrightarrow> a \<in> set (db_accounts db) \<Longrightarrow> ra_currency a = rs_base_currency st"
    "\<And>t. t \<in> set (txs rt db) \<Longrightarrow> tx_valid rt db t"
    "\<And>r. r \<in> set (db_accounts db) \<Longrightarrow> ra_archived_at r \<noteq> None \<Longrightarrow> row_balance rt db r = 0"
  using assms by (auto simp: sound_def)

lemma no_accounts_no_txs:
  assumes "sound rt db" "db_accounts db = []"
  shows "txs rt db = []"
proof (rule ccontr)
  assume "txs rt db \<noteq> []"
  then obtain t where "t \<in> set (txs rt db)" by (cases "txs rt db") auto
  then have "tx_valid rt db t" by (rule sound_parts(4) [OF assms(1)])
  then show False using assms(2) by (cases t) (auto simp: tx_valid_def account_row_of_def)
qed

lemma set_txs_replace:
  "wf_tx rt t \<Longrightarrow> set (txs rt (db\<lparr>db_transactions := replace_by rt_id (transactionParams t) (db_transactions db)\<rparr>))
    \<subseteq> insert t (set (txs rt db))"
  by (auto simp: txs_def replace_by_def)

lemma deletedItem_simps [simp]:
  "tx_id (deletedItem at v t) = tx_id t" "tx_accounts (deletedItem at v t) = tx_accounts t"
  "tx_occurredAt (deletedItem at v t) = tx_occurredAt t" "tx_type (deletedItem at v t) = tx_type t"
  "tx_groupId (deletedItem at v t) = tx_groupId t" "tx_amountMinor (deletedItem at v t) = tx_amountMinor t"
  "tx_createdAt (deletedItem at v t) = tx_createdAt t" "tx_deletedAt (deletedItem at v t) = Some at"
  "tx_version (deletedItem at v t) = v" "tx_shape_valid db (deletedItem at v t) = tx_shape_valid db t"
  by (cases t; simp add: deletedItem_def tx_shape_valid_def)+

lemma account_okE:
  assumes "account_ok rt r"
  obtains a where "wf_account rt a" "r = accountParams a" "accountOfRow rt r = Inr a"
  using assms by (auto simp: account_ok_def accountOfRow_Inr)

lemma row_effect_foreign: "account_ok rt r \<Longrightarrow> ra_id r \<notin> set (tx_accounts t) \<Longrightarrow> row_effect rt r t = 0"
  by (erule account_okE) (auto simp: row_effect_def effect_foreign)

lemma row_effect_deleted: "tx_deletedAt t \<noteq> None \<Longrightarrow> row_effect rt r t = 0"
  by (simp add: row_effect_def effect_deleted)

lemma row_balance_effects: "row_balance rt db r =
    a_openingBalanceMinor (projr (accountOfRow rt r)) + sum_list (map (row_effect rt r) (txs rt db))"
proof -
  have "row_effect rt r = effect (a_nature (projr (accountOfRow rt r))) (a_id (projr (accountOfRow rt r)))"
    by (rule ext) (simp add: row_effect_def Let_def)
  then show ?thesis by (simp add: row_balance_def balance_spec_def)
qed

lemma row_balance_updates [simp]:
  "row_balance rt (db\<lparr>db_settings := x1\<rparr>) r = row_balance rt db r"
  "row_balance rt (db\<lparr>db_accounts := x2\<rparr>) r = row_balance rt db r"
  "row_balance rt (db\<lparr>db_categories := x3\<rparr>) r = row_balance rt db r"
  "row_balance rt (db\<lparr>db_exclusions := x4\<rparr>) r = row_balance rt db r"
  "row_balance rt (db\<lparr>db_idempotency := x5\<rparr>) r = row_balance rt db r"
  by (simp_all add: row_balance_def txs_def)

lemma row_balance_same:
  assumes "account_ok rt old" "account_ok rt r" "ra_id r = ra_id old" "same_interpretation old r"
  shows "row_balance rt db r = row_balance rt db old"
proof -
  from assms(1) obtain a where a: "old = accountParams a" "accountOfRow rt old = Inr a" by (rule account_okE)
  from assms(2) obtain b where b: "r = accountParams b" "accountOfRow rt r = Inr b" by (rule account_okE)
  from assms(3,4) have "a_id b = a_id a \<and> a_nature b = a_nature a \<and> a_openingBalanceMinor b = a_openingBalanceMinor a"
    by (simp add: a b same_interpretation_def accountParams_def)
  then show ?thesis by (simp add: row_balance_def a(2) b(2) balance_spec_def)
qed

lemma sum_replace_by:
  fixes f :: "'r \<Rightarrow> int"
  assumes "distinct (map key xs)" "lookup_by key (key r) xs = Some old"
  shows "sum_list (map f (replace_by key r xs)) = sum_list (map f xs) - f old + f r"
  using assms
proof (induction xs)
  case (Cons x xs)
  show ?case
  proof (cases "key x = key r")
    case True
    with Cons.prems have "key r \<notin> key ` set xs" by auto
    then have "replace_by key r xs = xs" unfolding replace_by_def by (intro map_idI) (metis imageI)
    with True Cons.prems show ?thesis by (simp add: replace_by_def)
  next
    case False
    with Cons show ?thesis by (simp add: replace_by_def)
  qed
qed simp

lemma row_balance_replaced:
  assumes "wf_db rt db" "wf_tx rt t" "wf_tx rt old"
    and "lookup_by rt_id (tx_id t) (db_transactions db) = Some (transactionParams old)"
  shows "row_balance rt (db\<lparr>db_transactions := replace_by rt_id (transactionParams t) (db_transactions db)\<rparr>) r
    = row_balance rt db r - row_effect rt r old + row_effect rt r t"
proof -
  let ?f = "\<lambda>q. row_effect rt r (tx_of rt q)"
  have "sum_list (map ?f (replace_by rt_id (transactionParams t) (db_transactions db)))
      = sum_list (map ?f (db_transactions db)) - ?f (transactionParams old) + ?f (transactionParams t)"
    using assms(4) by (intro sum_replace_by wf_db_parts(6) [OF assms(1)]) simp
  then show ?thesis using assms(2,3) by (simp add: row_balance_effects txs_def comp_def)
qed

lemma row_balance_added:
  "wf_tx rt t \<Longrightarrow> row_balance rt (db\<lparr>db_transactions := db_transactions db @ [transactionParams t]\<rparr>) r
    = row_balance rt db r + row_effect rt r t"
  by (simp add: row_balance_effects txs_def)

text \<open>An archived account keeps its balance of zero.\<close>

lemma archived_zero:
  assumes "ledger_change rt db db'" "sound rt db" "r \<in> set (db_accounts db')" "ra_archived_at r \<noteq> None"
  shows "row_balance rt db' r = 0"
proof -
  note parts = sound_parts [OF assms(2)] and wf = wf_db_parts [OF sound_parts(1) [OF assms(2)]]
  have ok: "account_ok rt q" if "q \<in> set (db_accounts db)" for q using wf(1) that by (auto simp: list_all_iff)
  have row: "account_row_of db (ra_id q) = Some q" if "q \<in> set (db_accounts db)" for q
    using that wf(2) by (simp add: account_row_of_def lookup_by_mem)
  show ?thesis using assms(1)
  proof cases
    case (account_changed q old)
    have oldm: "old \<in> set (db_accounts db)" "ra_id old = ra_id q"
      using account_changed(2) by (auto simp: account_row_of_def dest: lookup_by_SomeD)
    from assms(3) consider "r = q" | "r \<in> set (db_accounts db)"
      using account_changed(1) set_replace_by by fastforce
    then show ?thesis
    proof cases
      case 1
      then have arch: "same_interpretation old q \<and> (ra_archived_at old \<noteq> None \<or> row_balance rt db q = 0)"
        using account_changed assms(4) by simp
      have "row_balance rt db q = row_balance rt db old"
        by (rule row_balance_same [OF ok [OF oldm(1)] \<open>account_ok rt q\<close>]) (simp_all add: oldm arch)
      then have "row_balance rt db q = 0" using arch parts(5) [OF oldm(1)] by auto
      with 1 account_changed(1) show ?thesis by simp
    qed (use account_changed parts(5) assms(4) in \<open>simp\<close>)
  next
    case (transaction_created t)
    then have "r \<in> set (db_accounts db)" using assms(3) by simp
    with transaction_created row assms(4) have "ra_id r \<notin> set (tx_accounts t)" by auto
    with row_effect_foreign ok \<open>r \<in> set (db_accounts db)\<close> have "row_effect rt r t = 0" by blast
    with transaction_created parts(5) [OF \<open>r \<in> set (db_accounts db)\<close> assms(4)] show ?thesis
      by (simp add: row_balance_added)
  next
    case (transaction_changed t old)
    then have "r \<in> set (db_accounts db)" using assms(3) by simp
    with transaction_changed parts(5) [OF this assms(4)] assms(4) show ?thesis
      by (simp add: row_balance_replaced [OF parts(1)])
  next
    case (transaction_deleted old at)
    then have r: "r \<in> set (db_accounts db)" using assms(3) by simp
    with transaction_deleted row assms(4) have "ra_id r \<notin> set (tx_accounts old)" by auto
    with row_effect_foreign ok r have "row_effect rt r old = 0" by blast
    with transaction_deleted parts(5) [OF r assms(4)] show ?thesis
      by (simp add: row_balance_replaced [OF parts(1)] row_effect_deleted)
  qed (use assms parts(5) in \<open>auto\<close>)
qed

lemma ledger_change_sound:
  assumes "ledger_change rt db db'" "sound rt db"
  shows "sound rt db'"
proof -
  note parts = sound_parts [OF assms(2)]
  have wf: "wf_db rt db'" "\<forall>r\<in>set (db_accounts db'). ra_archived_at r \<noteq> None \<longrightarrow> row_balance rt db' r = 0"
    using ledger_change_wf [OF assms(1) parts(1)] archived_zero [OF assms] by auto
  show ?thesis using assms(1)
  proof cases
    case (settings_created s)
    then have "db_accounts db = []" using parts(2) by (auto simp: locked_def)
    with settings_created no_accounts_no_txs [OF assms(2)] wf show ?thesis
      by (simp add: sound_def txs_def)
  next
    case (settings_patched st s)
    show ?thesis
    proof (cases "rs_has_created_account st = 1")
      case True
      then have "same_settings st s" using settings_patched by simp
      then have "tx_valid rt db' t" if "t \<in> set (txs rt db)" for t
        using settings_patched same_settings_simps
        by (intro tx_valid_transfer [OF parts(4) [OF that]]) (auto simp: account_row_of_def)
      with \<open>same_settings st s\<close> True settings_patched parts wf show ?thesis
        by (auto simp: sound_def txs_def locked_def settingsParams_flag same_settings_simps)
    next
      case False
      then have "db_accounts db = []" using parts(2) settings_patched by (auto simp: locked_def)
      with settings_patched no_accounts_no_txs [OF assms(2)] wf show ?thesis
        by (simp add: sound_def txs_def)
    qed
  next
    case (account_created st r s)
    then have "tx_valid rt db' t" if "t \<in> set (txs rt db)" for t
      using same_settings_simps
      by (intro tx_valid_transfer [OF parts(4) [OF that]]) (auto simp: account_row_of_def)
    with account_created parts wf show ?thesis
      by (auto simp: sound_def txs_def locked_def settingsParams_flag same_settings_simps)
  next
    case (account_changed r old)
    have "tx_valid rt db' t" if "t \<in> set (txs rt db)" for t
      using account_changed tx_has_history(1) [OF parts(1) that]
      by (intro tx_valid_transfer [OF parts(4) [OF that]])
        (auto simp: account_row_of_replace same_interpretation_def)
    moreover have "old \<in> set (db_accounts db)"
      using account_changed(2) lookup_by_SomeD by (fastforce simp: account_row_of_def)
    ultimately show ?thesis using account_changed parts wf
      by (auto simp: sound_def txs_def locked_def dest!: subsetD [OF set_replace_by])
         (auto simp: replace_by_def)
  next
    case (account_deleted i)
    have "tx_valid rt db' t" if "t \<in> set (txs rt db)" for t
      using account_deleted tx_has_history(1) [OF parts(1) that]
      by (intro tx_valid_transfer [OF parts(4) [OF that]])
        (auto simp: account_row_of_def lookup_by_filter)
    moreover have "db_accounts db \<noteq> []" if "db_accounts db' \<noteq> []"
      using that account_deleted by (cases "db_accounts db") auto
    ultimately show ?thesis using account_deleted parts wf
      by (auto simp: sound_def txs_def locked_def)
  next
    case (category_created r)
    then have "tx_valid rt db' t" if "t \<in> set (txs rt db)" for t
      by (intro tx_valid_transfer [OF parts(4) [OF that]]) (auto simp: account_row_of_def)
    with category_created parts wf show ?thesis by (auto simp: sound_def txs_def locked_def)
  next
    case (category_changed r old)
    have "tx_valid rt db' t" if "t \<in> set (txs rt db)" for t
      using category_changed tx_has_history(2) [OF parts(1) that]
      by (intro tx_valid_transfer [OF parts(4) [OF that]])
        (auto simp: account_row_of_def lookup_by_replace dest: lookup_by_in_keys)
    with category_changed parts wf show ?thesis by (auto simp: sound_def txs_def locked_def)
  next
    case (category_deleted i old)
    have "tx_valid rt db' t" if "t \<in> set (txs rt db)" for t
      using category_deleted tx_has_history(2) [OF parts(1) that]
      by (intro tx_valid_transfer [OF parts(4) [OF that]])
        (auto simp: account_row_of_def lookup_by_filter)
    with category_deleted parts wf show ?thesis by (auto simp: sound_def txs_def locked_def)
  next
    case (transaction_created t)
    have "tx_valid rt db' u = tx_valid rt db u" for u by (rule tx_valid_cong) (simp_all add: transaction_created)
    with transaction_created parts wf show ?thesis by (auto simp: sound_def txs_def locked_def)
  next
    case (transaction_changed t old)
    have "tx_valid rt db' u = tx_valid rt db u" for u by (rule tx_valid_cong) (simp_all add: transaction_changed)
    with transaction_changed parts wf show ?thesis
      by (auto simp: sound_def locked_def dest!: subsetD [OF set_txs_replace, rotated])
  next
    case (transaction_deleted old at)
    let ?t = "deletedItem at (tx_version old + 1) old"
    have cong: "tx_valid rt db' u = tx_valid rt db u" for u
      by (rule tx_valid_cong) (simp_all add: transaction_deleted)
    have "transactionParams old \<in> set (db_transactions db)"
      using transaction_deleted lookup_by_SomeD by fastforce
    then have "old \<in> set (txs rt db)" using \<open>wf_tx rt old\<close> by (force simp: txs_def)
    then have "tx_valid rt db old" by (rule parts(4))
    then have "tx_valid rt db ?t" by (simp add: tx_valid_def)
    with cong transaction_deleted parts wf show ?thesis
      by (auto simp: sound_def locked_def dest!: subsetD [OF set_txs_replace, rotated])
  next
    case (exclusions_changed xs)
    have "tx_valid rt db' u = tx_valid rt db u" for u by (rule tx_valid_cong) (simp_all add: exclusions_changed)
    with exclusions_changed parts wf show ?thesis by (auto simp: sound_def txs_def locked_def)
  next
    case (idempotency_recorded r)
    have "tx_valid rt db' u = tx_valid rt db u" for u by (rule tx_valid_cong) (simp_all add: idempotency_recorded)
    with idempotency_recorded parts wf show ?thesis by (auto simp: sound_def txs_def locked_def)
  qed
qed

end
