(* ===== verification/LedgerRefinement.thy ===== *)
theory LedgerRefinement
  imports LedgerLifecycle
begin

text \<open>
  Every mutation of the service, from a sound database, is a sequence of the changes that
  \<open>ledger_change\<close> allows: one lemma per mutation, for well-formed requests. The rows that the
  service reads are decoded first (what \<open>requireSettings\<close>, \<open>requireAccount\<close> and the others return on
  a well-formed database), then each versioned write is matched with a rule of the relation.
\<close>

named_theorems read_facts \<open>what the service knows of a row it has read\<close>

section \<open>Rows read from a well-formed database\<close>

lemma requireSettings_read:
  assumes "wf_db rt db" "requireSettings rt db = Inr s"
  obtains st where "db_settings db = Some st" "wf_settings rt s" "rs_base_currency st = s_baseCurrency s"
    "rs_timezone st = s_timezone s" "rs_version st = s_version s" "rs_created_at st = s_createdAt s"
    "rs_has_created_account st = 1 \<longleftrightarrow> s_hasCreatedAccount s"
proof -
  from assms(2) obtain st where st: "db_settings db = Some st"
    "ledgerSettingsFromRow rt (JObj (settingsRowObj st)) = Inr s"
    by (auto simp: requireSettings_def getSettings_def bindR_eq_Inr split: option.splits)
  from assms(1) st(1) obtain s0 where s0: "wf_settings rt s0" "st = settingsParams rt s0"
    by (auto simp: wf_db_def)
  with st(2) have s: "s = s0\<lparr>s_accountIcons := iconConfigFromRow rt (settingsRowObj (settingsParams rt s0))\<rparr>"
    by (simp add: settings_row_decode)
  show ?thesis
    by (rule that [OF st(1)]) (use s0 in \<open>simp_all add: s settingsParams_def wf_settings_def\<close>)
qed

lemma wf_db_account: "wf_db rt db \<Longrightarrow> r \<in> set (db_accounts db) \<Longrightarrow> account_ok rt r"
  by (auto simp: wf_db_def list_all_iff)

lemma wf_db_category: "wf_db rt db \<Longrightarrow> r \<in> set (db_categories db) \<Longrightarrow> category_ok rt r"
  by (auto simp: wf_db_def list_all_iff)

lemma getAccount_read:
  assumes "wf_db rt db" "getAccount rt i db = Inr (Some a)"
  shows "account_row_of db i = Some (accountParams a) \<and> wf_account rt a \<and> a_id a = i"
proof -
  from assms(2) obtain r where r: "account_row_of db i = Some r" "accountOfRow rt r = Inr a"
    by (auto simp: getAccount_def account_row_of_def bindR_eq_Inr split: option.splits)
  then have "r \<in> set (db_accounts db)" "ra_id r = i"
    by (auto simp: account_row_of_def dest: lookup_by_SomeD)
  with wf_db_account [OF assms(1)] have "icon_check (ra_icon r)" "ra_id r = i" by (auto simp: account_ok_def)
  with r show ?thesis by (auto simp: accountOfRow_Inr)
qed

lemma requireAccount_read:
  "wf_db rt db \<Longrightarrow> requireAccount rt i db = Inr a \<Longrightarrow>
     account_row_of db i = Some (accountParams a) \<and> wf_account rt a \<and> a_id a = i"
  by (rule getAccount_read) (auto simp: requireAccount_def bindR_eq_Inr split: option.splits)

lemma requireActiveAccount_read:
  "wf_db rt db \<Longrightarrow> requireActiveAccount rt i db = Inr a \<Longrightarrow>
     account_row_of db i = Some (accountParams a) \<and> wf_account rt a \<and> a_id a = i \<and> a_archivedAt a = None"
  by (auto simp: requireActiveAccount_def bindR_eq_Inr dest: requireAccount_read split: if_splits)

lemma firstCategory_read:
  assumes "wf_db rt db" "firstCategory rt P db = Inr (Some c)"
  shows "find P (db_categories db) = Some (categoryParams c) \<and> wf_category rt c \<and> P (categoryParams c)
    \<and> categoryParams c \<in> set (db_categories db)"
proof -
  from assms(2) obtain r where r: "find P (db_categories db) = Some r" "categoryOfRow rt r = Inr c"
    by (auto simp: firstCategory_def bindR_eq_Inr split: option.splits)
  then have "r \<in> set (db_categories db)" "P r" by (auto simp: find_Some_iff)
  with wf_db_category [OF assms(1)] have "icon_check (rc_icon r)" by (auto simp: category_ok_def)
  with r \<open>P r\<close> \<open>r \<in> set (db_categories db)\<close> show ?thesis by (auto simp: categoryOfRow_Inr)
qed

lemma find_lookup: "find (\<lambda>r. key r = k) xs = lookup_by key k xs"
  by (induction xs) auto

lemma getCategory_read:
  "wf_db rt db \<Longrightarrow> getCategory rt i db = Inr (Some c) \<Longrightarrow>
     lookup_by rc_id i (db_categories db) = Some (categoryParams c) \<and> wf_category rt c \<and> c_id c = i"
  using firstCategory_read [of rt db "\<lambda>r. rc_id r = i" c] by (auto simp: getCategory_def find_lookup)

lemma requireCategory_read:
  "wf_db rt db \<Longrightarrow> requireCategory rt i db = Inr c \<Longrightarrow>
     lookup_by rc_id i (db_categories db) = Some (categoryParams c) \<and> wf_category rt c \<and> c_id c = i"
  by (rule getCategory_read) (auto simp: requireCategory_def bindR_eq_Inr split: option.splits)

lemma getTransaction_read:
  assumes "getTransaction rt i db = Inr (Some t)"
  shows "lookup_by rt_id i (db_transactions db) = Some (transactionParams t) \<and> wf_tx rt t \<and> tx_id t = i"
proof -
  from assms obtain r where r: "lookup_by rt_id i (db_transactions db) = Some r" "txOfRow rt r = Inr t"
    by (auto simp: getTransaction_def bindR_eq_Inr split: option.splits)
  then have w: "wf_tx rt t" and p: "r = transactionParams t" by (simp_all add: txOfRow_Inr)
  from r(1) p have l: "lookup_by rt_id i (db_transactions db) = Some (transactionParams t)" by simp
  moreover from l have "rt_id (transactionParams t) = i" by (rule lookup_by_key)
  ultimately show ?thesis using w by simp
qed

lemma requireUserTransaction_read:
  "requireUserTransaction rt i db = Inr t \<Longrightarrow>
     lookup_by rt_id i (db_transactions db) = Some (transactionParams t) \<and> wf_tx rt t \<and> tx_id t = i"
proof (rule getTransaction_read)
  assume r: "requireUserTransaction rt i db = Inr t"
  then obtain x where x: "getTransaction rt i db = Inr x" by (auto simp: requireUserTransaction_def bindR_eq_Inr)
  with r show "getTransaction rt i db = Inr (Some t)"
    by (cases x) (simp_all add: requireUserTransaction_def split: if_splits)
qed

lemma generatedTimestamp_Inr [read_facts]: "generatedTimestamp rt d k = Inr t \<longleftrightarrow> t = dep_now d k \<and> utc_ok rt t"
  by (auto simp: generatedTimestamp_def assertUtcMilliseconds_def utc_ok_def)

lemma generatedId_Inr [read_facts]: "generatedId d k = Inr i \<longleftrightarrow> i = dep_createId d k \<and> i \<noteq> []"
  by (auto simp: generatedId_def)

lemma nextVersion_Inr [read_facts]: "nextVersion v = Inr n \<longleftrightarrow> v < MAX_SAFE \<and> n = v + 1"
  by (auto simp: nextVersion_def)

lemma next_version_safe: "1 \<le> v \<Longrightarrow> v < MAX_SAFE \<Longrightarrow> 1 \<le> v + 1 \<and> is_safe (v + 1)"
  by (auto simp: is_safe_def)

lemma expectOneChange_Inr [read_facts]: "expectOneChange r = Inr db' \<longleftrightarrow> r = Inr (Suc 0, db')"
  by (auto simp: expectOneChange_def bindR_eq_Inr)

lemma guard_Inr [read_facts]:
  "(if c then Inl e else r) = Inr x \<longleftrightarrow> \<not> c \<and> r = Inr x"
  "(if c then r else Inl e) = Inr x \<longleftrightarrow> c \<and> r = Inr x"
  by auto

section \<open>Versioned writes as changes\<close>

lemma updateAccount_hit:
  "updateAccount u n db = Inr (Suc 0, db') \<longleftrightarrow>
     (\<exists>old. account_row_of db (a_id u) = Some old \<and> ra_version old = n
       \<and> account_check ((accountParams u)\<lparr>ra_created_at := ra_created_at old\<rparr>)
       \<and> db' = db\<lparr>db_accounts := replace_by ra_id ((accountParams u)\<lparr>ra_created_at := ra_created_at old\<rparr>)
            (db_accounts db)\<rparr>)"
  by (auto simp: updateAccount_def account_row_of_def Let_def split: option.splits if_splits)

lemma updateCategory_hit:
  "updateCategory u n db = Inr (Suc 0, db') \<longleftrightarrow>
     (\<exists>old r. lookup_by rc_id (c_id u) (db_categories db) = Some old \<and> rc_version old = n
       \<and> r = (categoryParams u)\<lparr>rc_created_at := rc_created_at old\<rparr> \<and> category_check r
       \<and> category_unique r (filter (\<lambda>q. rc_id q \<noteq> rc_id r) (db_categories db))
       \<and> db' = db\<lparr>db_categories := replace_by rc_id r (db_categories db)\<rparr>)"
  by (auto simp: updateCategory_def Let_def split: option.splits if_splits)

lemma updateTransaction_hit:
  "updateTransaction u n db = Inr (Suc 0, db') \<longleftrightarrow>
     (\<exists>old r. lookup_by rt_id (tx_id u) (db_transactions db) = Some old \<and> rt_version old = n
       \<and> r = (transactionParams u)\<lparr>rt_created_at := rt_created_at old\<rparr> \<and> tx_check r \<and> tx_fks db r
       \<and> db' = db\<lparr>db_transactions := replace_by rt_id r (db_transactions db)\<rparr>)"
  by (auto simp: updateTransaction_def Let_def split: option.splits if_splits)

lemma insertTransaction_Inr:
  "insertTransaction t db = Inr db' \<longleftrightarrow> tx_check (transactionParams t) \<and> tx_fks db (transactionParams t)
     \<and> lookup_by rt_id (tx_id t) (db_transactions db) = None
     \<and> db' = db\<lparr>db_transactions := db_transactions db @ [transactionParams t]\<rparr>"
  by (auto simp: insertTransaction_def Let_def)

text \<open>
  A row whose icon or card number is the default is the encoding of the value without them.
\<close>

lemma account_ok_params:
  assumes "wf_account rt (a\<lparr>a_icon := None, a_cardNumber := None\<rparr>)" "icon_check (ra_icon (accountParams a))"
  shows "account_ok rt (accountParams a)"
proof -
  let ?c = "a\<lparr>a_icon := (case a_icon a of Some s \<Rightarrow> if s = js ''wallet'' then None else Some s | None \<Rightarrow> None),
      a_cardNumber := (case a_cardNumber a of Some s \<Rightarrow> if s = [] then None else Some s | None \<Rightarrow> None)\<rparr>"
  have "\<not> icon_check []" by (simp add: icon_check_def)
  then have "a_icon a \<noteq> Some []" using assms(2) by (auto simp: accountParams_def)
  then have "wf_account rt ?c" using assms(1) by (auto simp: wf_account_def split: option.splits)
  moreover have "accountParams ?c = accountParams a" by (auto simp: accountParams_def split: option.splits)
  ultimately have "accountOfRow rt (accountParams a) = Inr ?c" by (simp add: accountOfRow_Inr [OF assms(2)])
  with assms(2) show ?thesis unfolding account_ok_def by blast
qed

lemma category_ok_params:
  assumes "wf_category rt (c\<lparr>c_icon := None, c_sortOrder := Some 0\<rparr>)" "icon_check (rc_icon (categoryParams c))"
    and "case c_sortOrder c of None \<Rightarrow> True | Some n \<Rightarrow> is_safe n \<and> 0 \<le> n"
  shows "category_ok rt (categoryParams c)"
proof -
  let ?c = "c\<lparr>c_icon := (case c_icon c of Some s \<Rightarrow> if s = js ''wallet'' then None else Some s | None \<Rightarrow> None),
      c_sortOrder := Some (case c_sortOrder c of Some n \<Rightarrow> n | None \<Rightarrow> 1000)\<rparr>"
  have "\<not> icon_check []" by (simp add: icon_check_def)
  then have "c_icon c \<noteq> Some []" using assms(2) by (auto simp: categoryParams_def)
  moreover have "is_safe 1000" by (simp add: is_safe_def MAX_SAFE_def)
  ultimately have "wf_category rt ?c"
    using assms(1,3) by (auto simp: wf_category_def split: option.splits)
  moreover have "categoryParams ?c = categoryParams c" by (auto simp: categoryParams_def split: option.splits)
  ultimately have "categoryOfRow rt (categoryParams c) = Inr ?c" by (simp add: categoryOfRow_Inr [OF assms(2)])
  with assms(2) show ?thesis unfolding category_ok_def by blast
qed

section \<open>What a parsed patch may carry\<close>

lemma asRecord_Inr [parse_simps]: "asRecord v = Inr r \<longleftrightarrow> v = JObj r"
  by (auto simp: asRecord_def split: jval.splits)

lemma asMutationRecord_JObj [simp]: "asMutationRecord (JObj r) = Some r"
  by (simp add: asMutationRecord_def)

lemma onlyKeys_hasOwn: "onlyKeys ks r \<Longrightarrow> hasOwn r k \<Longrightarrow> k \<in> set ks"
  by (auto simp: onlyKeys_def hasOwn_def list_all_iff map_of_eq_None_iff)

lemma ifOwn_cases:
  assumes "ifOwn r k p = Inr v"
  shows "(v \<noteq> None \<longleftrightarrow> hasOwn r k)" "\<And>x. v = Some x \<Longrightarrow> p = Inr x"
  using assms by (auto simp: ifOwn_Inr split: option.splits)

definition valid_account_patch :: "runtime \<Rightarrow> account_patch \<Rightarrow> bool" where
  "valid_account_patch rt p \<longleftrightarrow> (\<forall>s. ap_name p = Some s \<longrightarrow> js_trim s \<noteq> [])
     \<and> (\<forall>n. ap_openingBalanceMinor p = Some n \<longrightarrow> is_safe n)
     \<and> (\<forall>s. ap_openingDate p = Some s \<longrightarrow> isLocalDateShape s \<and> date_from rt s \<noteq> None)"

lemma account_patch_parsed:
  assumes "parseAccountPatchRequest rt v = Inr p"
  obtains r where "v = JObj r" "valid_account_patch rt p"
    "ap_type p \<noteq> None \<longleftrightarrow> hasOwn r ''type''" "ap_nature p \<noteq> None \<longleftrightarrow> hasOwn r ''nature''"
    "ap_openingBalanceMinor p \<noteq> None \<longleftrightarrow> hasOwn r ''openingBalanceMinor''"
    "ap_openingDate p \<noteq> None \<longleftrightarrow> hasOwn r ''openingDate''"
  using assms unfolding parseAccountPatchRequest_def
proof (elim bindR_InrE)
  fix r u ver nm nt card ty nature icon opens openingDate
  assume r: "asRecord v = Inr r" and nm: "ifOwn r ''name'' (parseName r) = Inr nm"
    and ty: "ifOwn r ''type'' (parseAccountType r) = Inr ty" and na: "ifOwn r ''nature'' (parseAccountNature r) = Inr nature"
    and ob: "ifOwn r ''openingBalanceMinor'' (parseSafeInteger r ''openingBalanceMinor'') = Inr opens"
    and od: "ifOwn r ''openingDate'' (bindR (requireString r ''openingDate'') (\<lambda>d. assertOpeningDate rt (JStr d))) = Inr openingDate"
    and p: "Inr \<lparr>ap_expectedVersion = ver, ap_name = nm, ap_note = nt, ap_cardNumber = card, ap_type = ty,
          ap_nature = nature, ap_icon = icon, ap_openingBalanceMinor = opens, ap_openingDate = openingDate\<rparr> = Inr p"
  have "js_trim s \<noteq> []" if "nm = Some s" for s
    using ifOwn_cases(2) [OF nm that] by (auto dest: parseName_ok)
  moreover have "is_safe n" if "opens = Some n" for n
    using ifOwn_cases(2) [OF ob that] by (simp add: parseSafeInteger_Inr)
  moreover have "isLocalDateShape s \<and> date_from rt s \<noteq> None" if "openingDate = Some s" for s
    using ifOwn_cases(2) [OF od that] by (auto simp: bindR_eq_Inr assertOpeningDate_Inr)
  ultimately have "valid_account_patch rt p" using p by (auto simp: valid_account_patch_def)
  then show ?thesis
    using that [of r] r p ifOwn_cases(1) [OF ty] ifOwn_cases(1) [OF na] ifOwn_cases(1) [OF ob] ifOwn_cases(1) [OF od]
    by (auto simp: asRecord_Inr)
qed

section \<open>Accounts\<close>

lemma account_update_change:
  assumes "account_row_of db (a_id a) = Some (accountParams a)" "updateAccount u n db = Inr (Suc 0, db')"
    and "a_id u = a_id a" "a_createdAt u = a_createdAt a" "a_currency u = a_currency a"
      "a_version u = a_version a + 1" "wf_account rt (u\<lparr>a_icon := None, a_cardNumber := None\<rparr>)"
    and "hasAccountHistory (a_id a) db \<Longrightarrow> same_interpretation (accountParams a) (accountParams u)"
    and "a_archivedAt u \<noteq> None \<Longrightarrow> same_interpretation (accountParams a) (accountParams u)
      \<and> (a_archivedAt a \<noteq> None \<or> row_balance rt db (accountParams u) = 0)"
  shows "ledger_change rt db db'"
proof -
  from assms(1-4) have chk: "account_check (accountParams u)"
    and db': "db' = db\<lparr>db_accounts := replace_by ra_id (accountParams u) (db_accounts db)\<rparr>"
    by (auto simp: updateAccount_hit accountParams_def)
  from chk have "icon_check (ra_icon (accountParams u))" by (simp add: account_check_def)
  with assms(7) have ok: "account_ok rt (accountParams u)" by (rule account_ok_params)
  show ?thesis unfolding db'
    by (rule account_changed [OF _ ok]) (use assms in \<open>auto simp: accountParams_def\<close>)
qed

lemma patchAccount_change:
  assumes "wf_db rt db" "patchAccountMutation rt d i v db = Inr (dto, db')"
  shows "ledger_change rt db db'"
proof -
  from assms(2) obtain a p timestamp where
    a: "requireAccount rt i db = Inr a" and r: "(case asMutationRecord v of None \<Rightarrow> Inr ()
       | Some r \<Rightarrow> checkR (a_archivedAt a = None \<or> onlyKeys [''expectedVersion'', ''name'', ''note''] r) archivedAccount) = Inr ()"
    and p: "parseAccountPatchRequest rt v = Inr p"
    and h: "\<not> (hasAccountHistory i db \<and> (ap_type p \<noteq> None \<or> ap_nature p \<noteq> None
          \<or> ap_openingBalanceMinor p \<noteq> None \<or> ap_openingDate p \<noteq> None))"
    and pair: "isLedgerAccountTypeNature (case_option (a_type a) id (ap_type p)) (case_option (a_nature a) id (ap_nature p))"
    and ver: "a_version a < MAX_SAFE" and ts: "utc_ok rt timestamp"
    and up: "updateAccount (patchedAccount a p (a_version a + 1) timestamp) (a_version a) db = Inr (Suc 0, db')"
    unfolding patchAccountMutation_def assertAccountPair_def
    by (auto simp: bindR_eq_Inr read_facts Let_def)
  note ra = requireAccount_read [OF assms(1) a]
  let ?u = "patchedAccount a p (a_version a + 1) timestamp"
  from account_patch_parsed [OF p] obtain ob where v: "v = JObj ob" and vp: "valid_account_patch rt p"
    and own: "ap_type p \<noteq> None \<longleftrightarrow> hasOwn ob ''type''" "ap_nature p \<noteq> None \<longleftrightarrow> hasOwn ob ''nature''"
      "ap_openingBalanceMinor p \<noteq> None \<longleftrightarrow> hasOwn ob ''openingBalanceMinor''"
      "ap_openingDate p \<noteq> None \<longleftrightarrow> hasOwn ob ''openingDate''" by blast
  have same: "same_interpretation (accountParams a) (accountParams ?u)"
    if "ap_type p = None" "ap_nature p = None" "ap_openingBalanceMinor p = None" "ap_openingDate p = None"
    using that by (simp add: same_interpretation_def patchedAccount_def accountParams_def)
  have arch: "same_interpretation (accountParams a) (accountParams ?u)" if "a_archivedAt a \<noteq> None"
  proof -
    from that r v have "onlyKeys [''expectedVersion'', ''name'', ''note''] ob" by auto
    from onlyKeys_hasOwn [OF this] own have "ap_type p = None \<and> ap_nature p = None
      \<and> ap_openingBalanceMinor p = None \<and> ap_openingDate p = None" by auto
    then show ?thesis by (intro same) simp_all
  qed
  show ?thesis
  proof (rule account_update_change [OF _ up])
    show "account_row_of db (a_id a) = Some (accountParams a)" using ra by simp
    show "wf_account rt (?u\<lparr>a_icon := None, a_cardNumber := None\<rparr>)"
      using ra vp pair ver ts by (auto simp: patchedAccount_def wf_account_def valid_account_patch_def is_safe_def
          split: option.splits)
    show "same_interpretation (accountParams a) (accountParams ?u)" if "hasAccountHistory (a_id a) db"
      using that h ra by (intro same) auto
    show "same_interpretation (accountParams a) (accountParams ?u)
        \<and> (a_archivedAt a \<noteq> None \<or> row_balance rt db (accountParams ?u) = 0)" if "a_archivedAt ?u \<noteq> None"
      using that arch by (simp add: patchedAccount_def)
  qed (simp_all add: patchedAccount_def)
qed

lemma deleteAccount_change:
  assumes "deleteAccountMutation rt i v db = Inr (dto, db')"
  shows "ledger_change rt db db'"
proof -
  from assms have h: "\<not> hasAccountHistory i db" and d: "deleteAccount i db = Inr (Suc 0, db')"
    unfolding deleteAccountMutation_def by (auto simp: bindR_eq_Inr read_facts)
  from d h have "db' = db\<lparr>db_accounts := filter (\<lambda>r. ra_id r \<noteq> i) (db_accounts db)\<rparr>"
    by (auto simp: deleteAccount_def split: if_splits)
  with account_deleted [OF h] show ?thesis by simp
qed

lemma row_balance_params: "wf_account rt a \<Longrightarrow> icon_check (ra_icon (accountParams a)) \<Longrightarrow>
    row_balance rt db (accountParams a) = balance_spec a (txs rt db)"
  by (simp add: row_balance_def accountOfRow_Inr [THEN iffD2])

lemma derived_spec:
  assumes "wf_db rt db" "wf_account rt a" "listActiveTransactionsForAccount rt (a_id a) db = Inr ts"
    "deriveCurrentBalance a ts = Inr b"
  shows "b = balance_spec a (txs rt db)"
proof -
  have ts: "ts = map (tx_of rt) (newest_first (filter (\<lambda>r. rt_deleted_at r = None
      \<and> references_account (a_id a) r) (db_transactions db)))"
    using assms(3) by (simp add: listActiveTransactionsForAccount_def selectTransactions_wf [OF assms(1)])
  have "\<forall>t\<in>set ts. wf_tx rt t" using assms(1) by (auto simp: ts wf_db_def list_all_iff wf_tx_of)
  with assms(2,4) have "b = balance_spec a ts" by (simp add: deriveCurrentBalance_Inr wf_account_def)
  then show ?thesis by (simp add: ts balance_spec_select [OF assms(1)])
qed

lemma archiveAccount_change:
  assumes "wf_db rt db" "archiveAccountMutation rt d i v db = Inr (dto, db')"
  shows "ledger_change rt db db'"
proof -
  from assms(2) obtain a ts timestamp where a: "requireAccount rt i db = Inr a"
    and l: "listActiveTransactionsForAccount rt i db = Inr ts" "deriveCurrentBalance a ts = Inr 0"
    and ver: "a_version a < MAX_SAFE" and tm: "utc_ok rt timestamp"
    and up: "updateAccount (a\<lparr>a_archivedAt := Some timestamp, a_version := a_version a + 1,
      a_updatedAt := timestamp\<rparr>) (a_version a) db = Inr (Suc 0, db')"
    unfolding archiveAccountMutation_def by (auto simp: bindR_eq_Inr read_facts Let_def)
  note ra = requireAccount_read [OF assms(1) a]
  let ?u = "a\<lparr>a_archivedAt := Some timestamp, a_version := a_version a + 1, a_updatedAt := timestamp\<rparr>"
  have wf: "wf_account rt ?u" using ra ver tm by (auto simp: wf_account_def opt_utc_ok_def is_safe_def)
  have "accountParams a \<in> set (db_accounts db)" using ra by (auto simp: account_row_of_def dest: lookup_by_SomeD)
  then have "account_ok rt (accountParams a)" using wf_db_account assms(1) by blast
  then have "icon_check (ra_icon (accountParams ?u))" by (simp add: account_ok_def accountParams_def)
  then have "row_balance rt db (accountParams ?u) = balance_spec ?u (txs rt db)" using wf by (simp add: row_balance_params)
  moreover have "balance_spec a (txs rt db) = 0" using derived_spec [OF assms(1) _ _ l(2)] ra l(1) by auto
  ultimately have zero: "row_balance rt db (accountParams ?u) = 0" by (simp add: balance_spec_def)
  have same: "same_interpretation (accountParams a) (accountParams ?u)"
    by (simp add: same_interpretation_def accountParams_def)
  show ?thesis
    by (rule account_update_change [OF _ up]) (use ra wf zero same in \<open>auto simp: wf_account_def\<close>)
qed

lemma restoreAccount_change:
  assumes "wf_db rt db" "restoreAccountMutation rt d i v db = Inr (dto, db')"
  shows "db' = db \<or> ledger_change rt db db'"
proof -
  from assms(2) obtain a where a: "requireAccount rt i db = Inr a"
    and rest: "(if a_archivedAt a = None then bindR (toAccountDto rt a db) (\<lambda>dto. Inr (dto, db))
     else
       bindR (nextVersion (a_version a)) (\<lambda>ver.
       bindR (generatedTimestamp rt d 0) (\<lambda>timestamp.
       let updated = a\<lparr>a_archivedAt := None, a_version := ver, a_updatedAt := timestamp\<rparr>
       in bindR (expectOneChange (updateAccount updated (a_version a) db)) (\<lambda>db1.
          bindR (toAccountDto rt updated db1) (\<lambda>dto. Inr (dto, db1)))))) = Inr (dto, db')"
    unfolding restoreAccountMutation_def by (auto simp: bindR_eq_Inr)
  note ra = requireAccount_read [OF assms(1) a]
  show ?thesis
  proof (cases "a_archivedAt a = None")
    case True
    with rest show ?thesis by (auto simp: bindR_eq_Inr)
  next
    case False
    with rest obtain timestamp where ver: "a_version a < MAX_SAFE" and tm: "utc_ok rt timestamp"
      and up: "updateAccount (a\<lparr>a_archivedAt := None, a_version := a_version a + 1, a_updatedAt := timestamp\<rparr>)
        (a_version a) db = Inr (Suc 0, db')"
      by (auto simp: bindR_eq_Inr read_facts Let_def)
    have "ledger_change rt db db'"
      by (rule account_update_change [OF _ up])
        (use ra ver tm in \<open>auto simp: wf_account_def same_interpretation_def accountParams_def is_safe_def
          opt_utc_ok_def\<close>)
    then show ?thesis ..
  qed
qed

lemma createAccount_change:
  assumes "wf_db rt db" "valid_account_req rt q" "createAccountMutation rt d q db = Inr (res, db')"
  shows "ledger_change rt db db'"
proof -
  define acct where "acct = (\<lambda>i timestamp. \<lparr>a_id = i, a_name = aq_name q, a_type = aq_type q,
     a_nature = aq_nature q, a_icon = Some (case_option (js ''wallet'') id (aq_icon q)),
     a_openingBalanceMinor = aq_openingBalanceMinor q, a_openingDate = aq_openingDate q,
     a_currency = aq_currency q, a_note = aq_note q, a_cardNumber = Some (aq_cardNumber q),
     a_archivedAt = None, a_version = 1, a_createdAt = timestamp, a_updatedAt = timestamp\<rparr>)"
  from assms(3) obtain s i timestamp db1 where s: "requireSettings rt db = Inr s"
    and pair: "isLedgerAccountTypeNature (aq_type q) (aq_nature q)" and cur: "aq_currency q = s_baseCurrency s"
    and tm: "utc_ok rt timestamp" and i: "i \<noteq> []" and ins: "insertAccount (acct i timestamp) db = Inr db1"
    and mark: "markAccountCreated rt s db1 = Inr db'"
    unfolding createAccountMutation_def assertAccountPair_def acct_def
    by (auto simp: bindR_eq_Inr read_facts Let_def)
  let ?a = "acct i timestamp" and ?r = "accountParams (acct i timestamp)"
  from requireSettings_read [OF assms(1) s] obtain st where st: "db_settings db = Some st" "wf_settings rt s"
    "rs_base_currency st = s_baseCurrency s" "rs_timezone st = s_timezone s" "rs_version st = s_version s"
    "rs_created_at st = s_createdAt s" "rs_has_created_account st = 1 \<longleftrightarrow> s_hasCreatedAccount s" by blast
  from ins have chk: "account_check ?r" and fresh: "account_row_of db (ra_id ?r) = None"
    and db1: "db1 = db\<lparr>db_accounts := db_accounts db @ [?r]\<rparr>"
    by (auto simp: insertAccount_def Let_def account_row_of_def split: if_splits)
  have "is_safe 1" by (simp add: is_safe_def MAX_SAFE_def)
  with assms(2) pair tm i have "wf_account rt (?a\<lparr>a_icon := None, a_cardNumber := None\<rparr>)"
    by (auto simp: acct_def wf_account_def valid_account_req_def opt_utc_ok_def)
  then have ok: "account_ok rt ?r" using chk by (intro account_ok_params) (simp_all add: account_check_def)
  have r: "ra_currency ?r = rs_base_currency st" "ra_archived_at ?r = None" "ra_version ?r = 1"
    using st cur by (simp_all add: acct_def accountParams_def)
  show ?thesis
  proof (cases "s_hasCreatedAccount s")
    case True
    obtain s0 where s0: "wf_settings rt s0" "st = settingsParams rt s0"
      using assms(1) st(1) by (auto simp: wf_db_def)
    have "db' = db1" using mark True by (simp add: markAccountCreated_def)
    also have "\<dots> = db\<lparr>db_accounts := db_accounts db @ [?r], db_settings := Some (settingsParams rt s0)\<rparr>"
      using st(1) s0(2) by (simp add: db1)
    also have "ledger_change rt db \<dots>"
      by (rule account_created [OF st(1) ok fresh r s0(1)])
        (use s0 st True in \<open>auto simp: settingsParams_flag same_settings_def\<close>,
         simp_all add: settingsParams_def)
    finally show ?thesis .
  next
    case False
    let ?s = "s\<lparr>s_hasCreatedAccount := True\<rparr>"
    have "db' = db\<lparr>db_accounts := db_accounts db @ [?r], db_settings := Some (settingsParams rt ?s)\<rparr>"
      using mark False st(1,6) by (auto simp: markAccountCreated_def read_facts updateSettings_def db1
          settingsParams_def split: if_splits)
    also have "ledger_change rt db \<dots>"
      by (rule account_created [OF st(1) ok fresh r])
        (use st in \<open>auto simp: same_settings_def wf_settings_def\<close>)
    finally show ?thesis .
  qed
qed

section \<open>Settings\<close>

definition valid_settings_req :: "runtime \<Rightarrow> settings_req \<Rightarrow> bool" where
  "valid_settings_req rt q \<longleftrightarrow> isCurrencyCode (sq_baseCurrency q) \<and> exponent_of (sq_baseCurrency q) \<noteq> None
     \<and> isIanaShape (sq_timezone q) \<and> zone_ok rt (sq_timezone q)"

lemma parseTimezone_Inr [parse_simps]:
  "parseTimezone rt r = Inr z \<longleftrightarrow> jget r ''timezone'' = JStr z \<and> isIanaShape z \<and> zone_ok rt z"
  by (auto simp: parseTimezone_def bindR_eq_Inr requireString_Inr assertIanaTimeZoneId_Inr)

lemma settings_req_valid: "parseSettingsCreateRequest rt v = Inr q \<Longrightarrow> valid_settings_req rt q"
  unfolding parseSettingsCreateRequest_def
  by (elim bindR_InrE) (auto simp: valid_settings_req_def parseTimezone_Inr dest: parseCurrencyField_ok)

text \<open>The parsed patch agrees with what the lock compared, field by field.\<close>

lemma settings_patch_parsed:
  assumes "parseSettingsPatchRequest rt v = Inr p"
  obtains r where "v = JObj r"
    "\<And>z. sp_timezone p = Some z \<Longrightarrow> hasOwn r ''timezone'' \<and> jget r ''timezone'' = JStr z \<and> isIanaShape z \<and> zone_ok rt z"
    "\<And>c. sp_baseCurrency p = Some c \<Longrightarrow> hasOwn r ''baseCurrency''
      \<and> (\<exists>s. jget r ''baseCurrency'' = JStr s \<and> normalizeLedgerCurrencyCode rt (JStr s) = Inr c)
      \<and> isCurrencyCode c \<and> exponent_of c \<noteq> None"
  using assms unfolding parseSettingsPatchRequest_def
proof (elim bindR_InrE)
  fix r u ver cur zone icons
  assume r: "asRecord v = Inr r"
    and cur: "ifOwn r ''baseCurrency'' (parseCurrencyField rt r ''baseCurrency'') = Inr cur"
    and zone: "ifOwn r ''timezone'' (parseTimezone rt r) = Inr zone"
    and p: "Inr \<lparr>sp_expectedVersion = ver, sp_baseCurrency = cur, sp_timezone = zone, sp_accountIcons = icons\<rparr> = Inr p"
  show ?thesis
  proof (rule that [of r])
    show "v = JObj r" using r by (simp add: asRecord_Inr)
    show "hasOwn r ''timezone'' \<and> jget r ''timezone'' = JStr z \<and> isIanaShape z \<and> zone_ok rt z"
      if "sp_timezone p = Some z" for z
      using zone that p by (auto simp: ifOwn_Inr parseTimezone_Inr)
    show "hasOwn r ''baseCurrency''
        \<and> (\<exists>s. jget r ''baseCurrency'' = JStr s \<and> normalizeLedgerCurrencyCode rt (JStr s) = Inr c)
        \<and> isCurrencyCode c \<and> exponent_of c \<noteq> None" if "sp_baseCurrency p = Some c" for c
    proof -
      have "hasOwn r ''baseCurrency'' \<and> parseCurrencyField rt r ''baseCurrency'' = Inr c"
        using cur that p by (auto simp: ifOwn_Inr)
      then show ?thesis by (auto simp: parseCurrencyField_Inr normalize_is_code)
    qed
  qed
qed

lemma patchSettings_change:
  assumes "wf_db rt db" "patchSettingsMutation rt d v db = Inr (dto, db')"
  shows "ledger_change rt db db'"
proof -
  define upd where "upd = (\<lambda>(s :: settings) (p :: settings_patch) ver timestamp. s\<lparr>s_baseCurrency := case_option (s_baseCurrency s) id (sp_baseCurrency p),
           s_timezone := case_option (s_timezone s) id (sp_timezone p),
           s_accountIcons := case_option (s_accountIcons s) id (sp_accountIcons p),
           s_version := ver, s_updatedAt := timestamp :: int\<rparr>)"
  from assms(2) obtain s p timestamp where s: "requireSettings rt db = Inr s"
    and lock: "checkSettingsLock rt s v = Inr ()" and p: "parseSettingsPatchRequest rt v = Inr p"
    and ver: "s_version s < MAX_SAFE" and tm: "utc_ok rt timestamp"
    and up: "updateSettings rt (upd s p (s_version s + 1) timestamp) (s_version s) db = Inr (Suc 0, db')"
    unfolding patchSettingsMutation_def upd_def by (auto simp: bindR_eq_Inr read_facts Let_def)
  from requireSettings_read [OF assms(1) s] obtain st where st: "db_settings db = Some st" "wf_settings rt s"
    "rs_base_currency st = s_baseCurrency s" "rs_timezone st = s_timezone s" "rs_version st = s_version s"
    "rs_created_at st = s_createdAt s" "rs_has_created_account st = 1 \<longleftrightarrow> s_hasCreatedAccount s" by blast
  from settings_patch_parsed [OF p] obtain r where v: "v = JObj r"
    and zone: "\<And>z. sp_timezone p = Some z \<Longrightarrow> hasOwn r ''timezone'' \<and> jget r ''timezone'' = JStr z \<and> isIanaShape z \<and> zone_ok rt z"
    and cur: "\<And>c. sp_baseCurrency p = Some c \<Longrightarrow> hasOwn r ''baseCurrency''
      \<and> (\<exists>s. jget r ''baseCurrency'' = JStr s \<and> normalizeLedgerCurrencyCode rt (JStr s) = Inr c)
      \<and> isCurrencyCode c \<and> exponent_of c \<noteq> None" by blast
  let ?s = "upd s p (s_version s + 1) timestamp"
  have wf: "wf_settings rt ?s"
    using st(2) ver tm zone cur by (auto simp: upd_def wf_settings_def is_safe_def split: option.splits)
  have same: "same_settings st ?s" if locked: "s_hasCreatedAccount s"
  proof -
    have "z = s_timezone s" if "sp_timezone p = Some z" for z
      using zone [OF that] lock locked v by (auto simp: checkSettingsLock_def split: if_splits)
    moreover have "c = s_baseCurrency s" if "sp_baseCurrency p = Some c" for c
      using cur [OF that] lock locked v
      by (cases "hasOwn r ''timezone'' \<and> jget r ''timezone'' \<noteq> JStr (s_timezone s)")
        (auto simp: checkSettingsLock_def read_facts Let_def)
    ultimately show ?thesis using st by (auto simp: same_settings_def upd_def split: option.splits)
  qed
  have "db' = db\<lparr>db_settings := Some (settingsParams rt ?s)\<rparr>"
    using up st(1,6) by (auto simp: updateSettings_def settingsParams_def upd_def split: if_splits)
  also have "ledger_change rt db \<dots>"
    by (rule settings_patched [OF st(1) wf]) (use st same in \<open>auto simp: upd_def\<close>)
  finally show ?thesis .
qed

text \<open>Lower-casing never empties a text.\<close>

definition case_tables_ok :: "runtime \<Rightarrow> bool" where
  "case_tables_ok rt \<longleftrightarrow> (\<forall>s. s \<noteq> [] \<longrightarrow> rt_lower rt s \<noteq> [])"

lemma normalized_nonempty: "case_tables_ok rt \<Longrightarrow> js_trim name \<noteq> [] \<Longrightarrow> normalizeLedgerCategoryName rt name \<noteq> []"
  by (simp add: case_tables_ok_def normalizeLedgerCategoryName_def toLowerCase_def)

lemma category_insert_change:
  assumes "insertCategory c db = Inr db'" "c_version c = 1" "wf_category rt (c\<lparr>c_icon := None, c_sortOrder := Some 0\<rparr>)"
    and "case c_sortOrder c of None \<Rightarrow> True | Some n \<Rightarrow> is_safe n \<and> 0 \<le> n"
  shows "ledger_change rt db db'"
proof -
  let ?r = "categoryParams c"
  from assms(1) have chk: "category_check ?r" and fresh: "lookup_by rc_id (rc_id ?r) (db_categories db) = None"
    and uniq: "category_unique ?r (db_categories db)" and db': "db' = db\<lparr>db_categories := db_categories db @ [?r]\<rparr>"
    by (auto simp: insertCategory_def Let_def split: if_splits)
  have "category_ok rt ?r" using chk assms(3,4) by (intro category_ok_params) (auto simp: category_check_def)
  then show ?thesis unfolding db' by (rule category_created [OF _ fresh uniq]) (simp add: categoryParams_def assms(2))
qed

definition catalog_entry_ok :: "category_kind \<times> ustr \<times> string \<times> int \<times> system_key option \<Rightarrow> bool" where
  "catalog_entry_ok e = (case e of (kind, name, icon, sortOrder, key) \<Rightarrow> js_trim name \<noteq> [] \<and> 0 \<le> sortOrder
     \<and> sortOrder \<le> 1000 \<and> (key \<noteq> None \<longrightarrow> kind = ExpenseKind))"

lemma catalog_ok: "list_all catalog_entry_ok LEDGER_BUILTIN_CATEGORY_ICONS"
  by (simp add: LEDGER_BUILTIN_CATEGORY_ICONS_def catalog_entry_ok_def js_trim_def js_space_def)

lemma seed_changes:
  "seedDefaultLedgerCategories rt d items k db = Inr db' \<Longrightarrow> list_all catalog_entry_ok items \<Longrightarrow>
     case_tables_ok rt \<Longrightarrow> (ledger_change rt)\<^sup>*\<^sup>* db db'"
proof (induction rt d items k db arbitrary: db' rule: seedDefaultLedgerCategories.induct)
  case (2 rt d kind name icon sortOrder key rest k db)
  then obtain existing where ex: "findCategoryByIdentity rt kind (normalizeLedgerCategoryName rt name) db = Inr existing"
    by (auto simp: bindR_eq_Inr)
  show ?case
  proof (cases "existing = None")
    case False
    with 2 ex show ?thesis by simp
  next
    case True
    let ?c = "\<lambda>i timestamp. \<lparr>c_id = i, c_kind = kind, c_name = name,
          c_normalizedName = normalizeLedgerCategoryName rt name, c_systemKey = key, c_isDefault = True,
          c_icon = Some (js icon), c_sortOrder = Some sortOrder, c_archivedAt = None, c_version = 1,
          c_createdAt = timestamp, c_updatedAt = timestamp\<rparr>"
    from 2 ex True obtain i timestamp db1 where t: "generatedTimestamp rt d (Suc k) = Inr timestamp"
      and i: "generatedId d k = Inr i" and ins: "insertCategory (?c i timestamp) db = Inr db1"
      and rest: "seedDefaultLedgerCategories rt d rest (Suc k) db1 = Inr db'"
      by (auto simp: bindR_eq_Inr)
    have "js_trim name \<noteq> []" "0 \<le> sortOrder" "is_safe sortOrder" "key \<noteq> None \<longrightarrow> kind = ExpenseKind" "is_safe 1" "is_safe 0"
      using 2(4) by (auto simp: catalog_entry_ok_def is_safe_def MAX_SAFE_def)
    then have "ledger_change rt db db1"
      using t i normalized_nonempty [OF 2(5)]
      by (intro category_insert_change [OF ins]) (auto simp: wf_category_def read_facts opt_utc_ok_def)
    moreover have "(ledger_change rt)\<^sup>*\<^sup>* db1 db'"
      using 2(2) [OF ex _ t i ins rest] True 2(4,5) by simp
    ultimately show ?thesis by (rule converse_rtranclp_into_rtranclp)
  qed
qed simp

lemma createSettings_changes:
  assumes "wf_db rt db" "valid_settings_req rt q" "case_tables_ok rt"
    and "createSettingsMutation rt d q db = Inr (res, db')"
  shows "(ledger_change rt)\<^sup>*\<^sup>* db db'"
proof -
  define st where "st = (\<lambda>timestamp. \<lparr>s_baseCurrency = sq_baseCurrency q, s_timezone = sq_timezone q,
                s_hasCreatedAccount = False, s_version = 1, s_createdAt = timestamp,
                s_updatedAt = timestamp, s_accountIcons = defaultIconConfig\<rparr>)"
  from assms(4) obtain timestamp db1 where tm: "utc_ok rt timestamp"
    and ins: "insertSettings rt (st timestamp) db = Inr db1"
    and seed: "seedDefaultLedgerCategories rt d LEDGER_BUILTIN_CATEGORY_ICONS 0 db1 = Inr db'"
    unfolding createSettingsMutation_def st_def by (auto simp: bindR_eq_Inr read_facts Let_def)
  from ins have none: "db_settings db = None" and db1: "db1 = db\<lparr>db_settings := Some (settingsParams rt (st timestamp))\<rparr>"
    by (auto simp: insertSettings_def split: if_splits)
  have "is_safe 1" by (simp add: is_safe_def MAX_SAFE_def)
  then have "ledger_change rt db db1" unfolding db1
    by (intro settings_created [OF none]) (use assms(2) tm in \<open>auto simp: st_def wf_settings_def valid_settings_req_def\<close>)
  also have "(ledger_change rt)\<^sup>*\<^sup>* db1 db'" using seed_changes [OF seed catalog_ok assms(3)] .
  finally show ?thesis .
qed

section \<open>Categories\<close>

lemma category_req_name: "parseCategoryCreateRequest v = Inr q \<Longrightarrow> js_trim (cq_name q) \<noteq> []"
  unfolding parseCategoryCreateRequest_def by (elim bindR_InrE) (auto dest: parseName_ok)

lemma category_patch_name:
  "parseCategoryPatchRequest v = Inr p \<Longrightarrow> cp_name p = Some s \<Longrightarrow> js_trim s \<noteq> []"
  unfolding parseCategoryPatchRequest_def
  by (elim bindR_InrE) (auto simp: ifOwn_Inr parseName_Inr)

lemma createCategory_change:
  assumes "js_trim (cq_name q) \<noteq> []" "case_tables_ok rt" "createCategoryMutation rt d q db = Inr (res, db')"
  shows "ledger_change rt db db'"
proof -
  define cat where "cat = (\<lambda>i timestamp. \<lparr>c_id = i, c_kind = cq_kind q, c_name = cq_name q,
      c_normalizedName = normalizeLedgerCategoryName rt (cq_name q), c_systemKey = None, c_isDefault = False,
      c_icon = (case cq_icon q of Some s \<Rightarrow> if s \<noteq> [] \<and> s \<noteq> js ''wallet'' then Some s else None | None \<Rightarrow> None),
      c_sortOrder = None, c_archivedAt = None, c_version = 1, c_createdAt = timestamp, c_updatedAt = timestamp\<rparr>)"
  from assms(3) obtain i timestamp where tm: "utc_ok rt timestamp" and i: "i \<noteq> []"
    and ins: "insertCategory (cat i timestamp) db = Inr db'"
    unfolding createCategoryMutation_def cat_def by (auto simp: bindR_eq_Inr read_facts Let_def)
  have "is_safe 1" "is_safe 0" by (simp_all add: is_safe_def MAX_SAFE_def)
  with assms(1) tm i normalized_nonempty [OF assms(2,1)] show ?thesis
    by (intro category_insert_change [OF ins]) (auto simp: cat_def wf_category_def opt_utc_ok_def)
qed

lemma category_update_change:
  assumes "lookup_by rc_id (c_id c) (db_categories db) = Some (categoryParams c)"
    and "updateCategory u n db = Inr (Suc 0, db')" "wf_category rt c"
    and "wf_category rt (u\<lparr>c_icon := None, c_sortOrder := Some 0\<rparr>)" "c_sortOrder u = c_sortOrder c"
    and "c_id u = c_id c" "c_createdAt u = c_createdAt c" "c_version u = c_version c + 1"
      "c_systemKey u = c_systemKey c" "c_isDefault u = c_isDefault c"
    and "hasCategoryHistory (c_id c) db \<or> isDefaultCategory c \<Longrightarrow> c_kind u = c_kind c"
    and "isDefaultCategory c \<Longrightarrow> c_name u = c_name c \<and> (c_archivedAt u = None \<or> c_archivedAt u = c_archivedAt c)"
  shows "ledger_change rt db db'"
proof -
  from assms(1,2,6,7) have chk: "category_check (categoryParams u)"
    and uniq: "category_unique (categoryParams u) (filter (\<lambda>q. rc_id q \<noteq> rc_id (categoryParams u)) (db_categories db))"
    and db': "db' = db\<lparr>db_categories := replace_by rc_id (categoryParams u) (db_categories db)\<rparr>"
    by (auto simp: updateCategory_hit categoryParams_def)
  have ok: "category_ok rt (categoryParams u)"
    using chk assms(3-5) by (intro category_ok_params) (auto simp: category_check_def wf_category_def split: option.splits)
  have dflt: "rc_is_default (categoryParams u) = 1 \<or> rc_system_key (categoryParams u) \<noteq> None \<longleftrightarrow> isDefaultCategory c"
    using assms(9,10) by (auto simp: isDefaultCategory_def categoryParams_def)
  show ?thesis unfolding db'
    by (rule category_changed [OF _ ok uniq])
      (use assms dflt in \<open>auto simp: categoryParams_def isDefaultCategory_def\<close>)
qed

lemma patchCategory_change:
  assumes "wf_db rt db" "case_tables_ok rt" "patchCategoryMutation rt d i v db = Inr (dto, db')"
  shows "ledger_change rt db db'"
proof -
  from assms(3) obtain c p timestamp where c: "requireCategory rt i db = Inr c" and act: "c_archivedAt c = None"
    and p: "parseCategoryPatchRequest v = Inr p"
    and dflt: "\<not> (isDefaultCategory c \<and> (cp_name p \<noteq> None \<or> cp_kind p \<noteq> None))"
    and hist: "\<not> (hasCategoryHistory i db \<and> cp_kind p \<noteq> None)"
    and ver: "c_version c < MAX_SAFE" and tm: "utc_ok rt timestamp"
    and up: "updateCategory (patchedCategory rt c p (c_version c + 1) timestamp) (c_version c) db = Inr (Suc 0, db')"
    unfolding patchCategoryMutation_def by (auto simp: bindR_eq_Inr read_facts Let_def)
  note rc = requireCategory_read [OF assms(1) c]
  let ?u = "patchedCategory rt c p (c_version c + 1) timestamp"
  let ?name = "case_option (c_name c) id (cp_name p)"
  have name: "js_trim ?name \<noteq> []" using rc category_patch_name [OF p] by (auto simp: wf_category_def split: option.splits)
  have kind: "c_systemKey c \<noteq> None \<Longrightarrow> c_kind ?u = ExpenseKind"
    using dflt rc by (auto simp: patchedCategory_def Let_def isDefaultCategory_def wf_category_def split: option.splits)
  have wf: "wf_category rt (?u\<lparr>c_icon := None, c_sortOrder := Some 0\<rparr>)"
    using rc ver tm name kind normalized_nonempty [OF assms(2) name]
    by (auto simp: patchedCategory_def Let_def wf_category_def is_safe_def MAX_SAFE_def)
  show ?thesis
    by (rule category_update_change [OF _ up _ wf])
      (use rc act dflt hist in \<open>auto simp: patchedCategory_def Let_def split: option.splits\<close>)
qed

lemma deleteCategory_change:
  assumes "wf_db rt db" "deleteCategoryMutation rt i v db = Inr (dto, db')"
  shows "ledger_change rt db db'"
proof -
  from assms(2) obtain c where c: "requireCategory rt i db = Inr c" and nd: "\<not> isDefaultCategory c"
    and h: "\<not> hasCategoryHistory i db" and d: "deleteCategory i db = Inr (Suc 0, db')"
    unfolding deleteCategoryMutation_def by (auto simp: bindR_eq_Inr read_facts)
  note rc = requireCategory_read [OF assms(1) c]
  from d h have db': "db' = db\<lparr>db_categories := filter (\<lambda>r. rc_id r \<noteq> i) (db_categories db)\<rparr>"
    by (auto simp: deleteCategory_def split: if_splits)
  show ?thesis unfolding db'
    by (rule category_deleted [OF _ _ _ h]) (use rc nd in \<open>auto simp: isDefaultCategory_def categoryParams_def\<close>)
qed

lemma archiveCategory_change:
  assumes "wf_db rt db" "archiveCategoryMutation rt d i v db = Inr (dto, db')"
  shows "ledger_change rt db db'"
proof -
  from assms(2) obtain c timestamp where c: "requireCategory rt i db = Inr c" and nd: "\<not> isDefaultCategory c"
    and ver: "c_version c < MAX_SAFE" and tm: "utc_ok rt timestamp"
    and up: "updateCategory (c\<lparr>c_archivedAt := Some timestamp, c_version := c_version c + 1, c_updatedAt := timestamp\<rparr>)
      (c_version c) db = Inr (Suc 0, db')"
    unfolding archiveCategoryMutation_def by (auto simp: bindR_eq_Inr read_facts Let_def)
  note rc = requireCategory_read [OF assms(1) c]
  show ?thesis
    by (rule category_update_change [OF _ up])
      (use rc nd ver tm in \<open>auto simp: wf_category_def is_safe_def MAX_SAFE_def opt_utc_ok_def\<close>)
qed

lemma restoreCategory_change:
  assumes "wf_db rt db" "restoreCategoryMutation rt d i v db = Inr (dto, db')"
  shows "db' = db \<or> ledger_change rt db db'"
proof -
  from assms(2) obtain c where c: "requireCategory rt i db = Inr c"
    and rest: "(if c_archivedAt c = None then Inr (toCategoryDto c, db)
     else
       bindR (nextVersion (c_version c)) (\<lambda>ver.
       bindR (generatedTimestamp rt d 0) (\<lambda>timestamp.
       let updated = c\<lparr>c_archivedAt := None, c_version := ver, c_updatedAt := timestamp\<rparr>
       in bindR (expectOneChange (updateCategory updated (c_version c) db)) (\<lambda>db1.
          Inr (toCategoryDto updated, db1))))) = Inr (dto, db')"
    unfolding restoreCategoryMutation_def by (auto simp: bindR_eq_Inr)
  note rc = requireCategory_read [OF assms(1) c]
  show ?thesis
  proof (cases "c_archivedAt c = None")
    case False
    with rest obtain timestamp where ver: "c_version c < MAX_SAFE" and tm: "utc_ok rt timestamp"
      and up: "updateCategory (c\<lparr>c_archivedAt := None, c_version := c_version c + 1, c_updatedAt := timestamp\<rparr>)
        (c_version c) db = Inr (Suc 0, db')"
      by (auto simp: bindR_eq_Inr read_facts Let_def)
    have "ledger_change rt db db'"
      by (rule category_update_change [OF _ up])
        (use rc ver tm in \<open>auto simp: wf_category_def is_safe_def MAX_SAFE_def opt_utc_ok_def\<close>)
    then show ?thesis ..
  qed (use rest in simp)
qed

end
