(* ===== verification/LedgerGroups.thy ===== *)
theory LedgerGroups
  imports LedgerRefinement
begin

text \<open>
  The transactions of the service: transfers with their companion fees. A live group is empty or a
  transfer with exactly one companion expense on its source account at the same instant
  (\<open>paired\<close>); every mutation of transactions is a sequence of \<open>ledger_change\<close> steps and keeps the
  groups paired.
\<close>

section \<open>Groups\<close>

definition live_in :: "ustr \<Rightarrow> tx \<Rightarrow> bool" where
  "live_in g t \<longleftrightarrow> tx_groupId t = Some g \<and> tx_deletedAt t = None"

definition group_members :: "runtime \<Rightarrow> ledger_db \<Rightarrow> ustr \<Rightarrow> tx multiset" where
  "group_members rt db g = filter_mset (live_in g) (mset (txs rt db))"

fun companion_of :: "tx \<Rightarrow> tx \<Rightarrow> bool" where
  "companion_of (TransferTx b kind mode src dst payee) (ExpenseTx c acct cat p) \<longleftrightarrow>
     acct = src \<and> t_occurredAt c = t_occurredAt b \<and> kind \<noteq> General"
| "companion_of _ _ \<longleftrightarrow> False"

definition group_ok :: "tx multiset \<Rightarrow> bool" where
  "group_ok M \<longleftrightarrow> M = {#} \<or> (\<exists>t e. M = {#t, e#} \<and> companion_of t e)"

definition paired :: "runtime \<Rightarrow> ledger_db \<Rightarrow> bool" where
  "paired rt db \<longleftrightarrow> (\<forall>g. group_ok (group_members rt db g))"

lemma group_ok_empty [simp]: "group_ok {#}"
  by (simp add: group_ok_def)

lemma companion_of_cases:
  assumes "companion_of t e"
  obtains b kind mode src dst payee c cat p where "t = TransferTx b kind mode src dst payee"
    "e = ExpenseTx c src cat p" "t_occurredAt c = t_occurredAt b" "kind \<noteq> General"
  using assms by (cases "(t, e)" rule: companion_of.cases) auto

lemma group_transfer:
  assumes "group_ok M" "TransferTx b kind mode src dst payee \<in># M"
  obtains e where "M = {#TransferTx b kind mode src dst payee, e#}" "companion_of (TransferTx b kind mode src dst payee) e"
proof -
  from assms obtain t e where te: "M = {#t, e#}" "companion_of t e" by (auto simp: group_ok_def)
  with assms(2) have "t = TransferTx b kind mode src dst payee" by (auto elim: companion_of_cases)
  with te that show ?thesis by simp
qed

lemma group_no_entry:
  "group_ok M \<Longrightarrow> t \<in># M \<Longrightarrow> tx_type t = TTransfer \<or> tx_type t = TExpense"
  by (auto simp: group_ok_def elim!: companion_of_cases)

lemma mset_replace_by:
  "distinct (map key xs) \<Longrightarrow> lookup_by key (key r) xs = Some old \<Longrightarrow>
     mset (replace_by key r xs) = add_mset r (mset xs - {#old#})"
proof (induction xs)
  case (Cons x xs)
  show ?case
  proof (cases "key x = key r")
    case True
    with Cons.prems have "key r \<notin> key ` set xs" by auto
    then have "replace_by key r xs = xs" unfolding replace_by_def by (intro map_idI) (metis imageI)
    with True Cons.prems show ?thesis by (simp add: replace_by_def)
  next
    case False
    with Cons.prems have "lookup_by key (key r) xs = Some old" "old \<noteq> x" "old \<in> set xs"
      by (auto dest: lookup_by_SomeD)
    with Cons False show ?thesis by (simp add: replace_by_def)
  qed
qed simp

lemma txs_added:
  "wf_tx rt t \<Longrightarrow> mset (txs rt (db\<lparr>db_transactions := db_transactions db @ [transactionParams t]\<rparr>))
     = add_mset t (mset (txs rt db))"
  by (simp add: txs_def)

lemma txs_mem: "wf_tx rt t \<Longrightarrow> lookup_by rt_id i (db_transactions db) = Some (transactionParams t) \<Longrightarrow> t \<in> set (txs rt db)"
  using lookup_by_SomeD [of rt_id i "db_transactions db"] by (force simp: txs_def)

lemma txs_replaced:
  assumes "wf_db rt db" "wf_tx rt t" "wf_tx rt old"
    and "lookup_by rt_id (tx_id t) (db_transactions db) = Some (transactionParams old)"
  shows "mset (txs rt (db\<lparr>db_transactions := replace_by rt_id (transactionParams t) (db_transactions db)\<rparr>))
    = add_mset t (mset (txs rt db) - {#old#})"
proof -
  have "mset (replace_by rt_id (transactionParams t) (db_transactions db))
      = add_mset (transactionParams t) (mset (db_transactions db) - {#transactionParams old#})"
    using assms(4) by (intro mset_replace_by wf_db_parts(6) [OF assms(1)]) simp
  moreover have "transactionParams old \<in># mset (db_transactions db)"
    using assms(4) by (auto dest: lookup_by_SomeD)
  ultimately show ?thesis using assms(2,3) by (simp add: txs_def image_mset_Diff)
qed

lemma members_added:
  "wf_tx rt t \<Longrightarrow> group_members rt (db\<lparr>db_transactions := db_transactions db @ [transactionParams t]\<rparr>) g
     = (if live_in g t then add_mset t (group_members rt db g) else group_members rt db g)"
  by (simp add: group_members_def txs_added)

lemma members_replaced:
  assumes "wf_db rt db" "wf_tx rt t" "wf_tx rt old"
    and "lookup_by rt_id (tx_id t) (db_transactions db) = Some (transactionParams old)"
  shows "group_members rt (db\<lparr>db_transactions := replace_by rt_id (transactionParams t) (db_transactions db)\<rparr>) g
    = (if live_in g t then {#t#} else {#}) + (group_members rt db g - (if live_in g old then {#old#} else {#}))"
  by (simp add: group_members_def txs_replaced [OF assms])

lemma members_updates [simp]:
  "group_members rt (db\<lparr>db_settings := x1\<rparr>) = group_members rt db"
  "group_members rt (db\<lparr>db_accounts := x2\<rparr>) = group_members rt db"
  "group_members rt (db\<lparr>db_categories := x3\<rparr>) = group_members rt db"
  "group_members rt (db\<lparr>db_exclusions := x4\<rparr>) = group_members rt db"
  "group_members rt (db\<lparr>db_idempotency := x5\<rparr>) = group_members rt db"
  by (simp_all add: group_members_def txs_def fun_eq_iff)

lemma paired_updates [simp]:
  "paired rt (db\<lparr>db_settings := x1\<rparr>) = paired rt db"
  "paired rt (db\<lparr>db_accounts := x2\<rparr>) = paired rt db"
  "paired rt (db\<lparr>db_categories := x3\<rparr>) = paired rt db"
  "paired rt (db\<lparr>db_exclusions := x4\<rparr>) = paired rt db"
  "paired rt (db\<lparr>db_idempotency := x5\<rparr>) = paired rt db"
  by (simp_all add: paired_def)

lemma paired_ungrouped_added:
  "paired rt db \<Longrightarrow> wf_tx rt t \<Longrightarrow> tx_groupId t = None \<Longrightarrow>
     paired rt (db\<lparr>db_transactions := db_transactions db @ [transactionParams t]\<rparr>)"
  by (simp add: paired_def members_added live_in_def)

lemma paired_ungrouped_replaced:
  assumes "paired rt db" "wf_db rt db" "wf_tx rt t" "wf_tx rt old" "tx_groupId t = None" "tx_groupId old = None"
    and "lookup_by rt_id (tx_id t) (db_transactions db) = Some (transactionParams old)"
  shows "paired rt (db\<lparr>db_transactions := replace_by rt_id (transactionParams t) (db_transactions db)\<rparr>)"
  using assms(1,5,6) by (simp add: paired_def members_replaced [OF assms(2-4,7)] live_in_def)

lemma paired_group:
  assumes "paired rt db" "t \<in> set (txs rt db)" "live_in g t" "tx_type t \<noteq> TTransfer" "tx_type t \<noteq> TExpense"
  shows False
proof -
  have "t \<in># group_members rt db g" using assms(2,3) by (simp add: group_members_def)
  with assms(1) group_no_entry [of "group_members rt db g" t] assms(4,5) show False by (auto simp: paired_def)
qed

section \<open>Usable accounts\<close>

lemma mapR_Inr_ex: "(\<exists>ys. mapR f xs = Inr ys) \<longleftrightarrow> (\<forall>x\<in>set xs. \<exists>y. f x = Inr y)"
  by (induction xs) (auto simp: bindR_eq_Inr)

lemma assertTransactionTime_Inr:
  "assertTransactionTime rt s as at now = Inr () \<longleftrightarrow> (\<exists>x. validateOccurredAt rt (JInt at) now = Inr x)
     \<and> (\<forall>a\<in>set as. \<exists>b. openingBoundaryMs rt (a_openingDate a) (s_timezone s) = Inr b \<and> b \<le> at)"
proof -
  define f where "f = (\<lambda>(a :: account). bindR (openingBoundaryMs rt (a_openingDate a) (s_timezone s)) (\<lambda>b.
       if at < b then Inl openingDateConflict else Inr ()))"
  have f: "(\<exists>u. f a = Inr u) \<longleftrightarrow> (\<exists>b. openingBoundaryMs rt (a_openingDate a) (s_timezone s) = Inr b \<and> b \<le> at)" for a
    by (auto simp: f_def bindR_eq_Inr not_less)
  show ?thesis unfolding assertTransactionTime_def f_def [symmetric]
    using mapR_Inr_ex [of f as] f by (auto simp: bindR_eq_Inr)
qed

lemma usable_account:
  assumes "wf_db rt db" "requireSettings rt db = Inr s" "assertTransactionCurrency s a = Inr ()"
    and "assertTransactionTime rt s as at now = Inr ()" "a \<in> set as"
  obtains st where "db_settings db = Some st" "account_usable rt st at (accountParams a)"
proof -
  from requireSettings_read [OF assms(1,2)] obtain st where st: "db_settings db = Some st"
    "rs_base_currency st = s_baseCurrency s" "rs_timezone st = s_timezone s" by blast
  have "account_usable rt st at (accountParams a)"
    using assms(3-5) st by (auto simp: account_usable_def accountParams_def assertTransactionCurrency_def
        assertTransactionTime_Inr)
  with st(1) show ?thesis by (rule that)
qed

section \<open>Single writes as changes\<close>

lemma insert_change:
  assumes "insertTransaction t db = Inr db'" "wf_tx rt t" "tx_valid rt db t" "tx_deletedAt t = None"
    and "tx_version t = 1"
    and "\<And>i a. i \<in> set (tx_accounts t) \<Longrightarrow> account_row_of db i = Some a \<Longrightarrow> ra_archived_at a = None"
  shows "ledger_change rt db db'" "db' = db\<lparr>db_transactions := db_transactions db @ [transactionParams t]\<rparr>"
proof -
  from assms(1) have i: "tx_fks db (transactionParams t)" "lookup_by rt_id (tx_id t) (db_transactions db) = None"
    and db': "db' = db\<lparr>db_transactions := db_transactions db @ [transactionParams t]\<rparr>"
    by (simp_all add: insertTransaction_Inr)
  show "ledger_change rt db db'" unfolding db'
    by (rule transaction_created [OF assms(2,3) i assms(4,5)]) (use assms(6) in blast)
  show "db' = db\<lparr>db_transactions := db_transactions db @ [transactionParams t]\<rparr>" by (rule db')
qed

lemma params_created:
  "tx_createdAt u = c \<Longrightarrow> (transactionParams u)\<lparr>rt_created_at := c\<rparr> = transactionParams u"
  by (cases u) (simp_all add: commonParams_def)

lemma params_created_at [simp]: "rt_created_at (transactionParams u) = tx_createdAt u"
  by (cases u) (simp_all add: commonParams_def)

lemma params_version [simp]: "rt_version (transactionParams u) = tx_version u"
  by (cases u) (simp_all add: commonParams_def)

lemma update_hit:
  assumes "updateTransaction u n db = Inr (Suc 0, db')"
    and "lookup_by rt_id (tx_id u) (db_transactions db) = Some (transactionParams old)" "tx_createdAt u = tx_createdAt old"
  shows "tx_fks db (transactionParams u)" "tx_version old = n"
    "db' = db\<lparr>db_transactions := replace_by rt_id (transactionParams u) (db_transactions db)\<rparr>"
  using assms by (auto simp: updateTransaction_hit params_created)

lemma update_change:
  assumes "updateTransaction u n db = Inr (Suc 0, db')"
    and "lookup_by rt_id (tx_id u) (db_transactions db) = Some (transactionParams old)"
    and "wf_tx rt u" "wf_tx rt old" "tx_valid rt db u" "tx_deletedAt old = None" "tx_deletedAt u = None"
      "tx_type u = tx_type old" "tx_createdAt u = tx_createdAt old" "tx_version u = tx_version old + 1"
    and "tx_type old = TAdjustment \<Longrightarrow> tx_accounts u = tx_accounts old \<and> tx_amountMinor u = tx_amountMinor old
       \<and> tx_occurredAt u = tx_occurredAt old \<and> rt_target (transactionParams u) = rt_target (transactionParams old)"
    and "\<And>r. r \<in> set (db_accounts db) \<Longrightarrow> ra_archived_at r \<noteq> None \<Longrightarrow> row_effect rt r u = row_effect rt r old"
  shows "ledger_change rt db db'"
  unfolding update_hit(3) [OF assms(1,2,9)]
  by (rule transaction_changed [OF assms(3-5) update_hit(1) [OF assms(1,2,9)] assms(2,6-10)]) (use assms in auto)

lemma deletedItem_wf:
  assumes "wf_tx rt t" "utc_ok rt at" "tx_version t < MAX_SAFE"
  shows "wf_tx rt (deletedItem at (tx_version t + 1) t)"
proof -
  have "wf_tx_shape (deletedItem at (tx_version t + 1) t)"
    using assms(1) by (cases t) (simp_all add: deletedItem_def wf_tx_def)
  moreover have "wf_tx_base rt (tx_base (deletedItem at (tx_version t + 1) t))"
    using assms next_version_safe [of "tx_version t"]
    by (simp add: deletedItem_def wf_tx_def wf_tx_base_def opt_utc_ok_def)
  ultimately show ?thesis by (simp add: wf_tx_def)
qed

lemma params_deleted:
  "(transactionParams t)\<lparr>rt_deleted_at := Some at, rt_version := v, rt_updated_at := at\<rparr>
     = transactionParams (deletedItem at v t)"
  by (cases t) (simp_all add: deletedItem_def commonParams_def)

lemma softDelete_change:
  assumes "softDeleteTransaction (tx_id t) at (tx_version t + 1) at n db = Inr (Suc 0, db')"
    and "lookup_by rt_id (tx_id t) (db_transactions db) = Some (transactionParams t)"
    and "wf_tx rt t" "tx_deletedAt t = None" "utc_ok rt at" "tx_version t < MAX_SAFE"
    and "\<And>i a. i \<in> set (tx_accounts t) \<Longrightarrow> account_row_of db i = Some a \<Longrightarrow> ra_archived_at a = None"
  shows "ledger_change rt db db'"
    "db' = db\<lparr>db_transactions := replace_by rt_id (transactionParams (deletedItem at (tx_version t + 1) t)) (db_transactions db)\<rparr>"
proof -
  show db': "db' = db\<lparr>db_transactions := replace_by rt_id (transactionParams (deletedItem at (tx_version t + 1) t)) (db_transactions db)\<rparr>"
    using assms(1,2) by (auto simp: softDeleteTransaction_def params_deleted split: if_splits)
  show "ledger_change rt db db'" unfolding db'
    by (rule transaction_deleted [OF assms(3,2,4) deletedItem_wf]) (use assms in auto)
qed

section \<open>Creation\<close>

definition entry_con :: "category_kind \<Rightarrow> tx_base \<Rightarrow> ustr \<Rightarrow> ustr \<Rightarrow> ustr \<Rightarrow> tx" where
  "entry_con k = (case k of IncomeKind \<Rightarrow> IncomeTx | ExpenseKind \<Rightarrow> ExpenseTx)"

lemma entry_con_simps [simp]:
  "tx_base (entry_con k b acct cat payee) = b" "tx_accounts (entry_con k b acct cat payee) = [acct]"
  "wf_tx rt (entry_con k b acct cat payee) \<longleftrightarrow> wf_tx_base rt b \<and> 0 < t_amountMinor b \<and> acct \<noteq> [] \<and> cat \<noteq> []"
  "tx_shape_valid db (entry_con k b acct cat payee) \<longleftrightarrow> has_kind db cat k"
  by (cases k; simp add: entry_con_def wf_tx_def tx_shape_valid_def)+

lemma entry_cons: "IncomeTx = entry_con IncomeKind" "ExpenseTx = entry_con ExpenseKind"
  by (simp_all add: entry_con_def)

lemma wf_newBase:
  "wf_tx_base rt (newBase i g n at loc nt timestamp) \<longleftrightarrow> i \<noteq> [] \<and> g \<noteq> Some [] \<and> is_safe n \<and> utc_ok rt at \<and> utc_ok rt timestamp"
  by (auto simp: newBase_def wf_tx_base_def opt_utc_ok_def is_safe_def MAX_SAFE_def)

lemma newBase_simps [simp]:
  "t_id (newBase i g n at loc nt ts) = i" "t_groupId (newBase i g n at loc nt ts) = g"
  "t_amountMinor (newBase i g n at loc nt ts) = n" "t_occurredAt (newBase i g n at loc nt ts) = at"
  "t_deletedAt (newBase i g n at loc nt ts) = None" "t_version (newBase i g n at loc nt ts) = 1"
  by (simp_all add: newBase_def)

lemma category_has_kind:
  assumes "wf_db rt db" "requireCategory rt i db = Inr c" "assertCategoryForTransaction c k = Inr ()"
  shows "has_kind db (c_id c) k" "c_id c \<noteq> []"
  using requireCategory_read [OF assms(1,2)] assms(3)
  by (auto simp: has_kind_def categoryParams_def assertCategoryForTransaction_def wf_category_def)

lemma assertCandidateCategory_Inr:
  "assertCandidateCategory rt i k db = Inr c \<Longrightarrow>
     requireCategory rt i db = Inr c \<and> assertCategoryForTransaction c k = Inr ()"
  by (auto simp: assertCandidateCategory_def bindR_eq_Inr read_facts)

lemma tx_valid_entry:
  assumes "wf_db rt db" "requireSettings rt db = Inr s" "requireAccount rt i db = Inr a"
    and "assertTransactionCurrency s a = Inr ()" "assertTransactionTime rt s [a] (t_occurredAt b) now = Inr ()"
    and "has_kind db cat k"
  shows "tx_valid rt db (entry_con k b (a_id a) cat payee)"
proof -
  from usable_account [OF assms(1,2,4,5)] obtain st where "db_settings db = Some st"
    "account_usable rt st (t_occurredAt b) (accountParams a)" by auto
  with requireAccount_read [OF assms(1,3)] assms(6) show ?thesis by (auto simp: tx_valid_def)
qed

lemma requireActive_require: "requireActiveAccount rt i db = Inr a \<Longrightarrow> requireAccount rt i db = Inr a \<and> a_archivedAt a = None"
  by (auto simp: requireActiveAccount_def bindR_eq_Inr read_facts)

lemma createEntry_change:
  assumes "wf_db rt db" "paired rt db" "requireSettings rt db = Inr s" "valid_entry_req rt q" "utc_ok rt timestamp"
    and "createEntry rt d k (entry_con k) s timestamp q db = Inr (res, db')"
  shows "ledger_change rt db db' \<and> paired rt db'"
proof -
  from assms(6) obtain a c i where act: "requireActiveAccount rt (eq_accountId q) db = Inr a"
    and cat: "assertCandidateCategory rt (eq_categoryId q) k db = Inr c"
    and cur: "assertTransactionCurrency s a = Inr ()"
    and time: "assertTransactionTime rt s [a] (eq_occurredAt q) timestamp = Inr ()" and i: "i \<noteq> []"
    and ins: "insertTransaction (entry_con k (newBase i None (eq_amountMinor q) (eq_occurredAt q) (eq_location q)
       (eq_note q) timestamp) (a_id a) (c_id c) (eq_payee q)) db = Inr db'"
    unfolding createEntry_def by (auto simp: bindR_eq_Inr read_facts Let_def)
  let ?t = "entry_con k (newBase i None (eq_amountMinor q) (eq_occurredAt q) (eq_location q)
       (eq_note q) timestamp) (a_id a) (c_id c) (eq_payee q)"
  note ra = requireActiveAccount_read [OF assms(1) act] and req = requireActive_require [OF act]
    and rc = assertCandidateCategory_Inr [OF cat]
  have kind: "has_kind db (c_id c) k" "c_id c \<noteq> []" using category_has_kind [OF assms(1)] rc by auto
  have wf: "wf_tx rt ?t" using assms(4,5) i ra kind by (auto simp: wf_newBase valid_entry_req_def wf_account_def)
  have valid: "tx_valid rt db ?t"
    by (rule tx_valid_entry [OF assms(1,3) req [THEN conjunct1] cur, where now = timestamp]) (use time kind in simp_all)
  have act: "ra_archived_at r = None" if "j \<in> set (tx_accounts ?t)" "account_row_of db j = Some r" for j r
    using that ra by (auto simp: accountParams_def)
  note ch = insert_change [OF ins wf valid _ _ act]
  have "ledger_change rt db db'" by (rule ch(1)) simp_all
  moreover have "db' = db\<lparr>db_transactions := db_transactions db @ [transactionParams ?t]\<rparr>" by (rule ch(2)) simp_all
  then have "paired rt db'" using paired_ungrouped_added [OF assms(2) wf] by simp
  ultimately show ?thesis ..
qed

text \<open>A fee that is charged comes with its system category, an expense category.\<close>

lemma requireSystemCategory_read:
  assumes "wf_db rt db" "requireSystemCategory rt key db = Inr c"
  shows "has_kind db (c_id c) ExpenseKind" "c_id c \<noteq> []"
proof -
  from assms(2) have "firstCategory rt (\<lambda>r. rc_system_key r = Some (enum_text LEDGER_SYSTEM_KEYS key)) db = Inr (Some c)"
    by (auto simp: requireSystemCategory_def findCategoryBySystemKey_def bindR_eq_Inr split: option.splits if_splits)
  from firstCategory_read [OF assms(1) this] have c: "wf_category rt c" "categoryParams c \<in> set (db_categories db)"
    "rc_system_key (categoryParams c) = Some (enum_text LEDGER_SYSTEM_KEYS key)" by auto
  from c(1,3) have "c_kind c = ExpenseKind" "c_id c \<noteq> []" by (auto simp: categoryParams_def wf_category_def)
  moreover have "lookup_by rc_id (c_id c) (db_categories db) = Some (categoryParams c)"
    using c(2) wf_db_parts(4) [OF assms(1)] lookup_by_mem [of rc_id "db_categories db" "categoryParams c"] by simp
  ultimately show "has_kind db (c_id c) ExpenseKind" "c_id c \<noteq> []"
    by (simp_all add: has_kind_def categoryParams_def)
qed

definition fee_of :: "transfer_req \<Rightarrow> int" where
  "fee_of q = case_option 0 id (tq_feeMinor q)"

lemma transferFee_read:
  assumes "wf_db rt db" "valid_transfer_req rt q" "transferFee rt q db = Inr (c, mode, amount)"
  shows "is_safe amount" "0 < amount" "is_safe (fee_of q)" "0 \<le> fee_of q"
    "0 < fee_of q \<Longrightarrow> case_option General id (tq_transferKind q) \<noteq> General"
    "mode \<noteq> None \<Longrightarrow> 0 < fee_of q \<and> case_option General id (tq_transferKind q) = Withdrawal"
    "c \<noteq> None \<longleftrightarrow> 0 < fee_of q"
    "\<And>x. c = Some x \<Longrightarrow> has_kind db (c_id x) ExpenseKind \<and> c_id x \<noteq> []"
proof -
  define kind where "kind = case_option General id (tq_transferKind q)"
  have fee: "is_safe (fee_of q)" "0 \<le> fee_of q" "is_safe (tq_amountMinor q)" "0 < tq_amountMinor q"
    using assms(2) by (auto simp: fee_of_def valid_transfer_req_def is_safe_def MAX_SAFE_def split: option.splits)
  from assms(3) have general: "\<not> (0 < fee_of q \<and> kind = General)"
    by (auto simp: transferFee_def fee_of_def [symmetric] kind_def [symmetric] Let_def read_facts bindR_eq_Inr)
  have *: "is_safe amount \<and> 0 < amount \<and> (mode \<noteq> None \<longrightarrow> 0 < fee_of q \<and> kind = Withdrawal)
    \<and> (c \<noteq> None \<longleftrightarrow> 0 < fee_of q) \<and> (\<forall>x. c = Some x \<longrightarrow> has_kind db (c_id x) ExpenseKind \<and> c_id x \<noteq> [])"
  proof (cases "0 < fee_of q")
    case False
    with assms(3) fee show ?thesis
      by (auto simp: transferFee_def fee_of_def [symmetric] kind_def [symmetric] Let_def read_facts bindR_eq_Inr)
  next
    case True
    with general have kind: "kind = Repayment \<or> kind = Withdrawal" by (cases kind) auto
    from assms(3) True obtain x where x: "requireSystemCategory rt (if kind = Repayment then InterestKey else FeeKey) db = Inr x"
      and r: "(if kind = Repayment
        then (if tq_feeMode q \<noteq> None then Inl feeModeConflict else Inr (Some x, None, tq_amountMinor q))
        else
          let mode = case_option Extra id (tq_feeMode q) in
          if mode = Deducted
          then bindR (checkedSubMinor (tq_amountMinor q) (fee_of q)) (\<lambda>amount.
               bindR (assertPositiveMinor amount ''amountMinor after fee'') (\<lambda>_.
               Inr (Some x, Some mode, amount)))
          else Inr (Some x, Some mode, tq_amountMinor q)) = Inr (c, mode, amount)"
      by (auto simp: transferFee_def fee_of_def [symmetric] kind_def [symmetric] Let_def read_facts bindR_eq_Inr)
    note sys = requireSystemCategory_read [OF assms(1) x]
    show ?thesis
    proof (cases "kind = Repayment")
      case True
      with r fee sys \<open>0 < fee_of q\<close> show ?thesis by (auto split: if_splits)
    next
      case False
      with r fee sys kind \<open>0 < fee_of q\<close> show ?thesis by (auto simp: Let_def bindR_eq_Inr split: if_splits)
    qed
  qed
  show "is_safe amount" "0 < amount" "is_safe (fee_of q)" "0 \<le> fee_of q"
    "0 < fee_of q \<Longrightarrow> case_option General id (tq_transferKind q) \<noteq> General"
    "mode \<noteq> None \<Longrightarrow> 0 < fee_of q \<and> case_option General id (tq_transferKind q) = Withdrawal"
    "c \<noteq> None \<longleftrightarrow> 0 < fee_of q"
    "\<And>x. c = Some x \<Longrightarrow> has_kind db (c_id x) ExpenseKind \<and> c_id x \<noteq> []"
    using * fee general unfolding kind_def [symmetric] by auto
qed

lemma tx_valid_transfer_accounts:
  assumes "wf_db rt db" "requireSettings rt db = Inr s" "requireAccount rt i db = Inr src" "requireAccount rt j db = Inr dst"
    and "assertTransferKindAccounts kind src dst = Inr ()" "assertTransactionCurrency s src = Inr ()"
      "assertTransactionCurrency s dst = Inr ()" "assertTransactionTime rt s [src, dst] (t_occurredAt b) now = Inr ()"
  shows "tx_valid rt db (TransferTx b kind mode (a_id src) (a_id dst) payee)"
proof -
  note r = requireAccount_read [OF assms(1,3)] requireAccount_read [OF assms(1,4)]
  from usable_account [OF assms(1,2,6,8)] obtain st where st: "db_settings db = Some st"
    "account_usable rt st (t_occurredAt b) (accountParams src)" by auto
  moreover from usable_account [OF assms(1,2,7,8)] st(1) have "account_usable rt st (t_occurredAt b) (accountParams dst)" by auto
  moreover have "tx_shape_valid db (TransferTx b kind mode (a_id src) (a_id dst) payee)"
    using r assms(5) by (cases kind) (auto simp: tx_shape_valid_def has_nature_def accountParams_def assertTransferKindAccounts_def)
  ultimately show ?thesis using r by (auto simp: tx_valid_def)
qed

lemma tx_valid_frame:
  "tx_valid rt (db\<lparr>db_transactions := x\<rparr>) t = tx_valid rt db t"
  "tx_valid rt (db\<lparr>db_exclusions := y\<rparr>) t = tx_valid rt db t"
  by (rule tx_valid_cong; simp)+

lemma account_row_frame [simp]:
  "account_row_of (db\<lparr>db_transactions := x\<rparr>) i = account_row_of db i"
  "account_row_of (db\<lparr>db_exclusions := y\<rparr>) i = account_row_of db i"
  by (simp_all add: account_row_of_def)

text \<open>The identifiers the generator returns are new: no transaction uses one as its group.\<close>

definition fresh_ids :: "runtime \<Rightarrow> service_deps \<Rightarrow> ledger_db \<Rightarrow> bool" where
  "fresh_ids rt d db \<longleftrightarrow> (\<forall>k. \<forall>t\<in>set (txs rt db). tx_groupId t \<noteq> Some (dep_createId d k))"

lemma fresh_group: "fresh_ids rt d db \<Longrightarrow> group_members rt db (dep_createId d k) = {#}"
  by (auto simp: group_members_def fresh_ids_def live_in_def)

lemma createTransfer_changes:
  assumes "wf_db rt db" "paired rt db" "requireSettings rt db = Inr s" "valid_transfer_req rt q" "utc_ok rt timestamp"
    and "fresh_ids rt d db" "createTransfer rt d s timestamp q db = Inr (res, db')"
  shows "(ledger_change rt)\<^sup>*\<^sup>* db db' \<and> paired rt db'"
proof -
  define kind where "kind = case_option General id (tq_transferKind q)"
  define g where "g = (if 0 < fee_of q then Some (dep_createId d 0) else None)"
  define tr where "tr = (\<lambda>mode amount src dst. TransferTx (newBase (dep_createId d (if 0 < fee_of q then 1 else 0)) g amount
    (tq_occurredAt q) (tq_location q) (tq_note q) timestamp) kind mode src dst (tq_payee q))"
  define ex where "ex = (\<lambda>src cat payee. entry_con ExpenseKind (newBase (dep_createId d 2) g (fee_of q) (tq_occurredAt q)
    (tq_location q) (tq_note q) timestamp) src cat payee)"
  from assms(7) obtain src dst c mode amount db1 where ne: "tq_fromAccountId q \<noteq> tq_toAccountId q"
    and src: "requireActiveAccount rt (tq_fromAccountId q) db = Inr src"
    and dst: "requireActiveAccount rt (tq_toAccountId q) db = Inr dst"
    and nat: "assertTransferKindAccounts kind src dst = Inr ()"
    and cur: "assertTransactionCurrency s src = Inr ()" "assertTransactionCurrency s dst = Inr ()"
    and time: "assertTransactionTime rt s [src, dst] (tq_occurredAt q) timestamp = Inr ()"
    and fee: "transferFee rt q db = Inr (c, mode, amount)"
    and gid: "0 < fee_of q \<longrightarrow> dep_createId d 0 \<noteq> []" and tid: "dep_createId d (if 0 < fee_of q then 1 else 0) \<noteq> []"
    and ins: "insertTransaction (tr mode amount (a_id src) (a_id dst)) db = Inr db1"
    and comp: "case c of None \<Rightarrow> db' = db1 | Some x \<Rightarrow> dep_createId d 2 \<noteq> [] \<and> insertTransaction (ex (a_id src) (c_id x)
        (companionPayee kind (a_name src) (a_name dst) (tq_payee q))) db1 = Inr db'"
    unfolding createTransfer_def kind_def [symmetric] fee_of_def [symmetric] Let_def tr_def ex_def g_def entry_con_def
    by (auto simp: bindR_eq_Inr read_facts split: if_splits option.splits)
  note rs = requireActiveAccount_read [OF assms(1) src] and rd = requireActiveAccount_read [OF assms(1) dst]
    and reqs = requireActive_require [OF src] requireActive_require [OF dst]
    and fee_ok = transferFee_read [OF assms(1,4) fee, folded kind_def]
  let ?t = "tr mode amount (a_id src) (a_id dst)"
  have ids: "a_id src \<noteq> []" "a_id dst \<noteq> []" "a_id src \<noteq> a_id dst" using rs rd ne by (auto simp: wf_account_def)
  have base: "wf_tx_base rt (newBase i g n (tq_occurredAt q) (tq_location q) (tq_note q) timestamp)"
    if "i \<noteq> []" "is_safe n" for i n
    using that gid assms(4,5) by (auto simp: wf_newBase g_def valid_transfer_req_def)
  have wft: "wf_tx rt ?t"
    using base [OF tid fee_ok(1)] fee_ok ids by (auto simp: tr_def wf_tx_def g_def)
  have validt: "tx_valid rt db ?t"
    unfolding tr_def
    by (rule tx_valid_transfer_accounts [OF assms(1,3) reqs(1) [THEN conjunct1] reqs(2) [THEN conjunct1] nat cur,
      where now = timestamp]) (use time in simp)
  have active: "ra_archived_at r = None" if "j = a_id src \<or> j = a_id dst" "account_row_of db j = Some r" for j r
    using that rs rd by (auto simp: accountParams_def)
  have ch1: "ledger_change rt db db1" "db1 = db\<lparr>db_transactions := db_transactions db @ [transactionParams ?t]\<rparr>"
    by (rule insert_change [OF ins wft validt]; use active in \<open>auto simp: tr_def\<close>)+
  note wf1 = ledger_change_wf [OF ch1(1) assms(1)]
  show ?thesis
  proof (cases c)
    case None
    with comp fee_ok(7) have "db' = db1" "g = None" by (auto simp: g_def)
    moreover have "paired rt db1" unfolding ch1(2)
      using paired_ungrouped_added [OF assms(2) wft] \<open>g = None\<close> by (simp add: tr_def)
    ultimately show ?thesis using ch1(1) by auto
  next
    case (Some x)
    let ?e = "ex (a_id src) (c_id x) (companionPayee kind (a_name src) (a_name dst) (tq_payee q))"
    from Some comp fee_ok(7) have pos: "0 < fee_of q" and cid: "dep_createId d 2 \<noteq> []"
      and ins2: "insertTransaction ?e db1 = Inr db'" by auto
    have sys: "has_kind db (c_id x) ExpenseKind" "c_id x \<noteq> []" using fee_ok(8) [OF Some] by auto
    have wfe: "wf_tx rt ?e" using base [OF cid fee_ok(3)] pos sys ids by (simp add: ex_def)
    have time1: "assertTransactionTime rt s [src] (tq_occurredAt q) timestamp = Inr ()"
      using time by (simp add: assertTransactionTime_Inr)
    have "tx_valid rt db ?e" unfolding ex_def
      by (rule tx_valid_entry [OF assms(1,3) reqs(1) [THEN conjunct1] cur(1), where now = timestamp]) (use time1 sys in simp_all)
    then have valide: "tx_valid rt db1 ?e" by (simp add: ch1(2) tx_valid_frame)
    have ch2: "ledger_change rt db1 db'" "db' = db1\<lparr>db_transactions := db_transactions db1 @ [transactionParams ?e]\<rparr>"
      by (rule insert_change [OF ins2 wfe valide]; use active in \<open>auto simp: ex_def ch1(2)\<close>)+
    have g: "g = Some (dep_createId d 0)" using pos by (simp add: g_def)
    have comp: "companion_of ?t ?e" using fee_ok(5) pos by (simp add: tr_def ex_def entry_con_def)
    have "group_ok (group_members rt db' h)" for h
    proof -
      have live: "live_in h ?t \<longleftrightarrow> g = Some h" "live_in h ?e \<longleftrightarrow> g = Some h"
        by (simp_all add: tr_def ex_def live_in_def)
      have "group_members rt db1 h = (if g = Some h then add_mset ?t (group_members rt db h) else group_members rt db h)"
        unfolding ch1(2) members_added [OF wft] live by (rule refl)
      moreover have "group_members rt db' h = (if g = Some h then add_mset ?e (group_members rt db1 h) else group_members rt db1 h)"
        unfolding ch2(2) members_added [OF wfe] live by (rule refl)
      moreover have "group_members rt db h = {#}" if "g = Some h"
        using that g fresh_group [OF assms(6)] by auto
      ultimately have "group_members rt db' h = (if g = Some h then {#?t, ?e#} else group_members rt db h)"
        by (simp add: add_mset_commute)
      with assms(2) comp show ?thesis by (auto simp: paired_def group_ok_def)
    qed
    then have "paired rt db'" by (simp add: paired_def)
    moreover have "(ledger_change rt)\<^sup>*\<^sup>* db db'" using ch1(1) ch2(1) by (rule converse_rtranclp_into_rtranclp [OF _ r_into_rtranclp])
    ultimately show ?thesis by simp
  qed
qed

end
