(* ===== verification/LedgerCorrections.thy ===== *)
theory LedgerCorrections
  imports LedgerGroups
begin

text \<open>
  Corrections and deletions of transactions: every patch, of an entry, a transfer with its companion
  fee or an adjustment, and every deletion is a sequence of \<open>ledger_change\<close> steps and keeps the
  groups paired.
\<close>

section \<open>Corrections of entries and adjustments\<close>

text \<open>What a parsed patch may carry, and which keys of the payload its fields come from.\<close>

definition valid_tx_patch :: "runtime \<Rightarrow> tx_patch \<Rightarrow> bool" where
  "valid_tx_patch rt p \<longleftrightarrow> (\<forall>n. tp_amountMinor p = Some n \<longrightarrow> is_safe n \<and> 0 < n)
     \<and> (\<forall>t. tp_occurredAt p = Some t \<longrightarrow> utc_ok rt t)"

definition changes_nothing_priced :: "tx_patch \<Rightarrow> bool" where
  "changes_nothing_priced p \<longleftrightarrow> tp_transferKind p = None \<and> tp_amountMinor p = None \<and> tp_feeMinor p = None
     \<and> tp_feeMode p = None \<and> tp_accountId p = None \<and> tp_fromAccountId p = None \<and> tp_toAccountId p = None
     \<and> tp_occurredAt p = None"

lemma tx_patch_parsed:
  assumes "parseTransactionPatchRequest rt v = Inr p"
  obtains r where "v = JObj r" "valid_tx_patch rt p"
    "onlyKeys [''expectedVersion'', ''location'', ''note'', ''payee''] r \<Longrightarrow> changes_nothing_priced p"
    "onlyKeys [''expectedVersion'', ''location'', ''note''] r \<Longrightarrow> changes_nothing_priced p"
  using assms unfolding parseTransactionPatchRequest_def
proof (elim bindR_InrE)
  fix r u ver ty kind amount fee mode acct src dst cat occurred loc payee nt calc target
  assume r: "asRecord v = Inr r"
    and f: "ifOwn r ''transferKind'' (parseTransferKind r) = Inr kind" "ifOwn r ''amountMinor'' (parseAmountMinor r) = Inr amount"
      "parseOptionalFeeMinor r = Inr fee" "ifOwn r ''feeMode'' (parseTransferFeeMode r) = Inr mode"
      "ifOwn r ''accountId'' (requireNonEmptyId r ''accountId'') = Inr acct"
      "ifOwn r ''fromAccountId'' (requireNonEmptyId r ''fromAccountId'') = Inr src"
      "ifOwn r ''toAccountId'' (requireNonEmptyId r ''toAccountId'') = Inr dst"
      "ifOwn r ''occurredAt'' (parseOccurredAt rt r) = Inr occurred"
    and p: "Inr \<lparr>tp_expectedVersion = ver, tp_type = ty, tp_transferKind = kind, tp_amountMinor = amount,
          tp_feeMinor = fee, tp_feeMode = mode, tp_accountId = acct, tp_fromAccountId = src,
          tp_toAccountId = dst, tp_categoryId = cat, tp_occurredAt = occurred, tp_location = loc,
          tp_payee = payee, tp_note = nt, tp_calculated = calc, tp_target = target\<rparr> = Inr p"
  have "valid_tx_patch rt p" using p ifOwn_cases(2) [OF f(2)] ifOwn_cases(2) [OF f(8)]
    by (auto simp: valid_tx_patch_def parseAmountMinor_Inr parseOccurredAt_Inr)
  moreover have "fee \<noteq> None \<longrightarrow> hasOwn r ''feeMinor''" using f(3) by (auto simp: parseOptionalFeeMinor_Inr split: option.splits)
  then have "changes_nothing_priced p" if ks: "onlyKeys ks r" "set ks \<subseteq> {''expectedVersion'', ''location'', ''note'', ''payee''}" for ks
  proof -
    have no: "\<not> hasOwn r k" if "k \<in> {''transferKind'', ''amountMinor'', ''feeMinor'', ''feeMode'', ''accountId'',
        ''fromAccountId'', ''toAccountId'', ''occurredAt''}" for k
      using onlyKeys_hasOwn [OF ks(1)] ks(2) that by force
    have "kind = None" "amount = None" "mode = None" "acct = None" "src = None" "dst = None" "occurred = None" "fee = None"
      using no ifOwn_cases(1) [OF f(1)] ifOwn_cases(1) [OF f(2)] ifOwn_cases(1) [OF f(4)]
        ifOwn_cases(1) [OF f(5)] ifOwn_cases(1) [OF f(6)] ifOwn_cases(1) [OF f(7)] ifOwn_cases(1) [OF f(8)]
        \<open>fee \<noteq> None \<longrightarrow> hasOwn r ''feeMinor''\<close> by simp_all
    then show ?thesis using p by (auto simp: changes_nothing_priced_def)
  qed
  then have "onlyKeys [''expectedVersion'', ''location'', ''note'', ''payee''] r \<Longrightarrow> changes_nothing_priced p"
    "onlyKeys [''expectedVersion'', ''location'', ''note''] r \<Longrightarrow> changes_nothing_priced p"
    by simp_all
  ultimately show ?thesis using that [of r] r by (simp add: asRecord_Inr)
qed

text \<open>The archived accounts a correction must not disturb.\<close>

definition unpriced_or_active :: "runtime \<Rightarrow> ledger_db \<Rightarrow> tx_patch \<Rightarrow> tx \<Rightarrow> bool" where
  "unpriced_or_active rt db p t \<longleftrightarrow> changes_nothing_priced p
     \<or> (\<forall>i\<in>set (tx_accounts t). \<forall>r. account_row_of db i = Some r \<longrightarrow> ra_archived_at r = None)"

lemma mapR_Inr_mem: "mapR f xs = Inr ys \<Longrightarrow> x \<in> set xs \<Longrightarrow> \<exists>y\<in>set ys. f x = Inr y"
  by (induction xs arbitrary: ys) (auto simp: bindR_eq_Inr)

lemma transactionAccountIds_eq: "transactionAccountIds t = tx_accounts t"
  by (cases t) simp_all

lemma someArchived_active:
  assumes "wf_db rt db" "transactionAccounts rt t db = Inr as" "\<not> someArchived as"
    and "i \<in> set (tx_accounts t)" "account_row_of db i = Some r"
  shows "ra_archived_at r = None"
proof -
  from mapR_Inr_mem [of "\<lambda>i. requireAccount rt i db" "tx_accounts t" as i] assms(2,4)
  obtain a where "a \<in> set as" "requireAccount rt i db = Inr a"
    by (auto simp: transactionAccounts_def transactionAccountIds_eq)
  with requireAccount_read [OF assms(1) this(2)] assms(3,5) show ?thesis
    by (auto simp: someArchived_def list_ex_iff accountParams_def)
qed

lemma whitelisted:
  assumes "wf_db rt db" "assertArchivedPatchWhitelist rt t (asMutationRecord v) db = Inr ()"
    and "parseTransactionPatchRequest rt v = Inr p"
  shows "unpriced_or_active rt db p t"
proof -
  from tx_patch_parsed [OF assms(3)] obtain ob where v: "v = JObj ob"
    and keys: "onlyKeys [''expectedVersion'', ''location'', ''note'', ''payee''] ob \<Longrightarrow> changes_nothing_priced p"
      "onlyKeys [''expectedVersion'', ''location'', ''note''] ob \<Longrightarrow> changes_nothing_priced p" by blast
  from assms(2) obtain as where as: "transactionAccounts rt t db = Inr as"
    and c: "\<not> someArchived as \<or> onlyKeys (if tx_type t = TIncome \<or> tx_type t = TExpense
          then [''expectedVersion'', ''location'', ''note'', ''payee'']
          else [''expectedVersion'', ''location'', ''note'']) ob"
    unfolding assertArchivedPatchWhitelist_def v by (auto simp: bindR_eq_Inr split: if_splits)
  from c show ?thesis
  proof
    assume "\<not> someArchived as"
    with someArchived_active [OF assms(1) as] show ?thesis by (auto simp: unpriced_or_active_def)
  next
    assume "onlyKeys (if tx_type t = TIncome \<or> tx_type t = TExpense
          then [''expectedVersion'', ''location'', ''note'', ''payee'']
          else [''expectedVersion'', ''location'', ''note'']) ob"
    with keys show ?thesis by (auto simp: unpriced_or_active_def split: if_splits)
  qed
qed

lemma row_effect_active:
  assumes "wf_db rt db" "r \<in> set (db_accounts db)" "ra_archived_at r \<noteq> None"
    and "\<And>i q. i \<in> set (tx_accounts t) \<Longrightarrow> account_row_of db i = Some q \<Longrightarrow> ra_archived_at q = None"
  shows "row_effect rt r t = 0"
proof -
  have "account_row_of db (ra_id r) = Some r"
    using assms(2) wf_db_parts(2) [OF assms(1)] by (simp add: account_row_of_def lookup_by_mem)
  with assms(3,4) have "ra_id r \<notin> set (tx_accounts t)" by auto
  with row_effect_foreign [OF wf_db_account [OF assms(1,2)]] show ?thesis by simp
qed

lemma row_effect_entry:
  "t_amountMinor u = t_amountMinor b \<Longrightarrow> t_deletedAt u = t_deletedAt b \<Longrightarrow>
     row_effect rt r (entry_con k u acct cat payee) = row_effect rt r (entry_con k b acct cat' payee')"
  by (cases k) (simp_all add: row_effect_def entry_con_def effect_def Let_def)

lemma require_either:
  assumes "wf_db rt db" "(case new of Some i \<Rightarrow> requireActiveAccount rt i db | None \<Rightarrow> requireAccount rt old db) = Inr a"
  shows "requireAccount rt (case_option old id new) db = Inr a"
    "account_row_of db (a_id a) = Some (accountParams a)" "wf_account rt a" "a_id a = case_option old id new"
    "new \<noteq> None \<Longrightarrow> ra_archived_at (accountParams a) = None"
proof -
  have *: "requireAccount rt (case_option old id new) db = Inr a \<and> (new \<noteq> None \<longrightarrow> a_archivedAt a = None)"
    using assms(2) requireActive_require by (cases new) auto
  then show "requireAccount rt (case_option old id new) db = Inr a" by simp
  from requireAccount_read [OF assms(1) this]
  show "account_row_of db (a_id a) = Some (accountParams a)" "wf_account rt a" "a_id a = case_option old id new" by auto
  show "ra_archived_at (accountParams a) = None" if "new \<noteq> None" using * that by (simp add: accountParams_def)
qed

lemma category_either:
  assumes "wf_db rt db" "(case new of Some i \<Rightarrow> assertCandidateCategory rt i k db | None \<Rightarrow> requireCategory rt old db) = Inr c"
    and "assertCategoryForTransaction c k = Inr ()"
  shows "has_kind db (c_id c) k" "c_id c \<noteq> []"
proof -
  from assms(2) obtain i where "requireCategory rt i db = Inr c"
    by (auto dest: assertCandidateCategory_Inr split: option.splits)
  from category_has_kind [OF assms(1) this assms(3)] show "has_kind db (c_id c) k" "c_id c \<noteq> []" by auto
qed

lemma entry_con_type: "tx_type (entry_con k b acct cat payee) = tx_type (entry_con k b' acct' cat' payee')"
  by (cases k; simp add: entry_con_def)

lemma entry_con_kind [simp]: "entry_con k b acct cat payee \<noteq> AdjustmentTx x y z w" "tx_type (entry_con k b acct cat payee) \<noteq> TAdjustment"
    "tx_type (entry_con k b acct cat payee) \<noteq> TTransfer"
  by (cases k; simp add: entry_con_def)+

lemma patchEntry_change:
  assumes "wf_db rt db" "paired rt db" "requireSettings rt db = Inr s" "valid_tx_patch rt p" "utc_ok rt timestamp"
    and "lookup_by rt_id (t_id b) (db_transactions db) = Some (transactionParams (entry_con k b acct cat payee))"
    and "wf_tx rt (entry_con k b acct cat payee)" "t_deletedAt b = None" "t_groupId b = None"
    and "unpriced_or_active rt db p (entry_con k b acct cat payee)"
    and "patchEntry rt k (entry_con k) s timestamp p b acct cat payee db = Inr (dto, db')"
  shows "ledger_change rt db db' \<and> paired rt db'"
proof -
  define at where "at = case_option (t_occurredAt b) id (tp_occurredAt p)"
  define u where "u = b\<lparr>t_amountMinor := case_option (t_amountMinor b) id (tp_amountMinor p),
     t_occurredAt := at, t_location := case_option (t_location b) id (tp_location p),
     t_note := case_option (t_note b) id (tp_note p), t_version := t_version b + 1, t_updatedAt := timestamp\<rparr>"
  from assms(11) obtain a c where
    a: "(case tp_accountId p of Some i \<Rightarrow> requireActiveAccount rt i db | None \<Rightarrow> requireAccount rt acct db) = Inr a"
    and c: "(case tp_categoryId p of Some i \<Rightarrow> assertCandidateCategory rt i k db | None \<Rightarrow> requireCategory rt cat db) = Inr c"
    and ck: "assertCategoryForTransaction c k = Inr ()" and cur: "assertTransactionCurrency s a = Inr ()"
    and time: "assertTransactionTime rt s [a] at timestamp = Inr ()" and ver: "t_version b < MAX_SAFE"
    and up: "updateTransaction (entry_con k u (a_id a) (c_id c) (case_option payee id (tp_payee p))) (t_version b) db
       = Inr (Suc 0, db')"
    unfolding patchEntry_def at_def u_def by (auto simp: bindR_eq_Inr read_facts Let_def)
  let ?old = "entry_con k b acct cat payee"
  let ?t = "entry_con k u (a_id a) (c_id c) (case_option payee id (tp_payee p))"
  note ra = require_either [OF assms(1) a] and rc = category_either [OF assms(1) c ck]
  have base: "t_id u = t_id b" "t_createdAt u = t_createdAt b" "t_deletedAt u = None" "t_groupId u = None"
    "t_version u = t_version b + 1" "t_occurredAt u = at"
    using assms(8,9) by (simp_all add: u_def)
  have wfu: "wf_tx_base rt u \<and> 0 < t_amountMinor u"
    using assms(4,5,7) next_version_safe [of "t_version b"] ver
    by (auto simp: wf_tx_base_def u_def valid_tx_patch_def at_def split: option.splits)
  then have wf: "wf_tx rt ?t" using ra rc by (simp add: wf_account_def)
  have valid: "tx_valid rt db ?t"
    by (rule tx_valid_entry [OF assms(1,3) ra(1) cur, where now = timestamp]) (use time rc base in simp_all)
  have eff: "row_effect rt r ?t = row_effect rt r ?old" if r: "r \<in> set (db_accounts db)" "ra_archived_at r \<noteq> None" for r
  proof (cases "changes_nothing_priced p")
    case True
    then have "a_id a = acct" using ra(4) by (simp add: changes_nothing_priced_def)
    with True show ?thesis
      by (simp only:) (rule row_effect_entry; simp add: u_def changes_nothing_priced_def assms(8))
  next
    case False
    then have act: "\<And>q. account_row_of db acct = Some q \<Longrightarrow> ra_archived_at q = None"
      using assms(10) by (auto simp: unpriced_or_active_def)
    have "ra_archived_at q = None" if "account_row_of db (a_id a) = Some q" for q
      using that act ra(2,4,5) by (cases "tp_accountId p") auto
    then have "row_effect rt r ?t = 0" by (intro row_effect_active [OF assms(1) r]) simp
    moreover have "row_effect rt r ?old = 0" using act by (intro row_effect_active [OF assms(1) r]) simp
    ultimately show ?thesis by simp
  qed
  have look: "lookup_by rt_id (tx_id ?t) (db_transactions db) = Some (transactionParams ?old)"
    using assms(6) base by simp
  have created: "tx_createdAt ?t = tx_createdAt ?old" using base by simp
  have "ledger_change rt db db'"
    by (rule update_change [OF up look wf assms(7) valid]) (use base eff entry_con_type assms(8) in auto)
  moreover have "paired rt db'"
    unfolding update_hit(3) [OF up look created]
    by (rule paired_ungrouped_replaced [OF assms(2,1) wf assms(7)]) (use base look assms(9) in simp_all)
  ultimately show ?thesis ..
qed

lemma patchAdjustment_change:
  assumes "wf_db rt db" "paired rt db" "requireSettings rt db = Inr s" "utc_ok rt timestamp"
    and "lookup_by rt_id (t_id b) (db_transactions db) = Some (transactionParams (AdjustmentTx b acct calculated target))"
    and "wf_tx rt (AdjustmentTx b acct calculated target)" "t_deletedAt b = None" "t_groupId b = None"
    and "patchAdjustment rt s timestamp p b acct calculated target db = Inr (dto, db')"
  shows "ledger_change rt db db' \<and> paired rt db'"
proof -
  define u where "u = b\<lparr>t_location := case_option (t_location b) id (tp_location p),
     t_note := case_option (t_note b) id (tp_note p), t_version := t_version b + 1, t_updatedAt := timestamp\<rparr>"
  from assms(9) obtain a where a: "requireAccount rt acct db = Inr a" and cur: "assertTransactionCurrency s a = Inr ()"
    and time: "assertTransactionTime rt s [a] (t_occurredAt b) timestamp = Inr ()" and ver: "t_version b < MAX_SAFE"
    and up: "updateTransaction (AdjustmentTx u acct calculated target) (t_version b) db = Inr (Suc 0, db')"
    unfolding patchAdjustment_def u_def by (auto simp: bindR_eq_Inr read_facts Let_def)
  let ?old = "AdjustmentTx b acct calculated target" and ?t = "AdjustmentTx u acct calculated target"
  have base: "t_id u = t_id b" "t_createdAt u = t_createdAt b" "t_deletedAt u = None" "t_groupId u = None"
    "t_version u = t_version b + 1" "t_occurredAt u = t_occurredAt b" "t_amountMinor u = t_amountMinor b"
    using assms(7,8) by (simp_all add: u_def)
  have wf: "wf_tx rt ?t" using assms(4,6) next_version_safe [of "t_version b"] ver base
    by (auto simp: wf_tx_def wf_tx_base_def u_def)
  note ra = requireAccount_read [OF assms(1) a]
  from usable_account [OF assms(1,3) cur time] obtain st where "db_settings db = Some st"
    "account_usable rt st (t_occurredAt b) (accountParams a)" by auto
  with ra base have valid: "tx_valid rt db ?t" by (auto simp: tx_valid_def tx_shape_valid_def)
  have look: "lookup_by rt_id (tx_id ?t) (db_transactions db) = Some (transactionParams ?old)"
    using assms(5) base by simp
  have created: "tx_createdAt ?t = tx_createdAt ?old" using base by simp
  have eff: "row_effect rt r ?t = row_effect rt r ?old" for r
    using base assms(7) by (simp add: row_effect_def effect_def Let_def)
  have "ledger_change rt db db'"
    by (rule update_change [OF up look wf assms(6) valid]) (use base eff assms(7) in \<open>simp_all add: commonParams_def\<close>)
  moreover have "paired rt db'"
    unfolding update_hit(3) [OF up look created]
    by (rule paired_ungrouped_replaced [OF assms(2,1) wf assms(6)]) (use base look assms(8) in simp_all)
  ultimately show ?thesis ..
qed

section \<open>Corrections of transfers\<close>

lemma companion_read:
  assumes "wf_db rt db" "paired rt db" "companionExpense rt (t_groupId b) db = Inr x"
    and "lookup_by rt_id (t_id b) (db_transactions db) = Some (transactionParams (TransferTx b kind mode src dst payee))"
    and "wf_tx rt (TransferTx b kind mode src dst payee)" "t_deletedAt b = None"
  shows "(t_groupId b = None \<and> x = None) \<or>
    (\<exists>g c cat q. t_groupId b = Some g \<and> x = Some (ExpenseTx c src cat q) \<and> wf_tx rt (ExpenseTx c src cat q)
      \<and> lookup_by rt_id (t_id c) (db_transactions db) = Some (transactionParams (ExpenseTx c src cat q))
      \<and> t_groupId c = Some g \<and> t_deletedAt c = None \<and> t_id c \<noteq> t_id b
      \<and> group_members rt db g = {#TransferTx b kind mode src dst payee, ExpenseTx c src cat q#})"
proof (cases "t_groupId b")
  case None
  with assms(3) show ?thesis by (simp add: companionExpense_def)
next
  case (Some g)
  let ?old = "TransferTx b kind mode src dst payee"
  let ?act = "\<lambda>t. tx_type t = TExpense \<and> tx_deletedAt t = None"
  define ts where "ts = map (tx_of rt) (newest_first (filter (\<lambda>r. rt_group_id r = Some g \<and> (True \<or> rt_deleted_at r = None))
    (db_transactions db)))"
  have "listTransactionsByGroupId rt g True db = Inr ts"
    unfolding listTransactionsByGroupId_def ts_def by (rule selectTransactions_wf [OF assms(1)])
  then have "length (filter ?act ts) = 1" and x: "x = Some (hd (filter ?act ts))"
    using assms(3) Some by (simp_all add: companionExpense_def Let_def split: if_splits)
  then have "filter ?act ts \<noteq> []" by auto
  from hd_in_set [OF this] obtain r where r: "r \<in> set (db_transactions db)" "rt_group_id r = Some g"
    "hd (filter ?act ts) = tx_of rt r" "?act (tx_of rt r)" by (auto simp: ts_def)
  then have "tx_ok rt r" using wf_db_parts(5) [OF assms(1)] by (auto simp: list_all_iff)
  then obtain e where e: "wf_tx rt e" "r = transactionParams e" "tx_of rt r = e" by (rule tx_okE)
  have "e \<in> set (txs rt db)" using r(1) e(3) by (auto simp: txs_def)
  moreover have live: "live_in g e" using r e by (cases e) (auto simp: live_in_def commonParams_def)
  ultimately have em: "e \<in># group_members rt db g" by (simp add: group_members_def)
  have "?old \<in># group_members rt db g"
    using txs_mem [OF assms(5,4)] Some assms(6) by (simp add: group_members_def live_in_def)
  with assms(2) obtain e' where m: "group_members rt db g = {#?old, e'#}" "companion_of ?old e'"
    by (auto simp: paired_def elim: group_transfer)
  have "e \<noteq> ?old" using r e by auto
  with em m(1) have "e' = e" by auto
  with m obtain c cat q where ec: "e = ExpenseTx c src cat q" by (auto elim!: companion_of_cases)
  have look: "lookup_by rt_id (t_id c) (db_transactions db) = Some (transactionParams e)"
    using lookup_by_mem [OF wf_db_parts(6) [OF assms(1)] r(1)] e(2) ec by (simp add: commonParams_def)
  have "t_id c \<noteq> t_id b"
  proof
    assume "t_id c = t_id b"
    with look assms(4) have "transactionParams e = transactionParams ?old" by simp
    then have "e = ?old" using tx_of_params [OF e(1)] tx_of_params [OF assms(5)] by metis
    with \<open>e \<noteq> ?old\<close> show False by simp
  qed
  with Some x r(3) e ec live look m(1) \<open>e' = e\<close> show ?thesis by (auto simp: live_in_def)
qed

lemma patchedFee_read:
  assumes "wf_db rt db" "valid_tx_patch rt p" "is_safe (t_amountMinor b)" "0 < t_amountMinor b"
    and "\<forall>e. ex = Some e \<longrightarrow> is_safe (tx_amountMinor e) \<and> 0 < tx_amountMinor e"
    and "patchedFee rt p kind b oldKind oldMode ex db = Inr (fm, fc, mode, amount)"
  shows "is_safe fm" "0 \<le> fm" "is_safe amount" "0 < amount" "0 < fm \<Longrightarrow> kind \<noteq> General"
    "mode \<noteq> None \<Longrightarrow> 0 < fm \<and> kind = Withdrawal" "fc \<noteq> None \<longleftrightarrow> 0 < fm"
    "\<And>c. fc = Some c \<Longrightarrow> has_kind db (c_id c) ExpenseKind \<and> c_id c \<noteq> []"
    "changes_nothing_priced p \<Longrightarrow> kind = oldKind \<Longrightarrow> fm = (case ex of None \<Rightarrow> 0 | Some e \<Rightarrow> tx_amountMinor e)
       \<and> amount = t_amountMinor b"
proof -
  have exs: "is_safe (tx_amountMinor e) \<and> 0 < tx_amountMinor e" if "ex = Some e" for e using assms(5) that by blast
  define M where "M = (if 0 < fm \<and> kind = Repayment
      then (if tp_feeMode p \<noteq> None then Inl feeModeConflict else Inr None)
      else if 0 < fm \<and> kind = Withdrawal
      then Inr (Some (case tp_feeMode p of Some m \<Rightarrow> m | None \<Rightarrow> case_option Extra id oldMode)) else Inr None)"
  from assms(6) obtain fm' fc' mode' requested where
    fm': "patchedFeeMinor p ex = Inr fm'" and general': "\<not> (0 < fm' \<and> kind = General)"
    and fc': "(if 0 < fm' then bindR (requireSystemCategory rt (if kind = Repayment then InterestKey else FeeKey) db)
          (\<lambda>c. Inr (Some c)) else Inr None) = Inr fc'"
    and md': "(if 0 < fm' \<and> kind = Repayment
      then (if tp_feeMode p \<noteq> None then Inl feeModeConflict else Inr None)
      else if 0 < fm' \<and> kind = Withdrawal
      then Inr (Some (case tp_feeMode p of Some m \<Rightarrow> m | None \<Rightarrow> case_option Extra id oldMode)) else Inr None) = Inr mode'"
    and rq: "requestedAmount p b oldKind oldMode ex = Inr requested"
    and am': "(if 0 < fm' \<and> kind = Withdrawal \<and> mode' = Some Deducted then bindR (checkedSubMinor requested fm') (\<lambda>a.
         bindR (assertPositiveMinor a ''amountMinor after fee'') (\<lambda>_. Inr (fm', fc', mode', a)))
       else Inr (fm', fc', mode', requested)) = Inr (fm, fc, mode, amount)"
    unfolding patchedFee_def bindR_eq_Inr guard_Inr by blast
  from am' have eqs: "fm' = fm" "fc' = fc" "mode' = mode" by (auto simp: bindR_eq_Inr split: if_splits)
  note fm = fm' [unfolded eqs] and general = general' [unfolded eqs] and fc = fc' [unfolded eqs]
    and md = md' [unfolded eqs M_def [symmetric]] and am = am' [unfolded eqs]
  have fm_ok: "is_safe fm \<and> 0 \<le> fm" using fm assms(5)
    by (fastforce simp: patchedFeeMinor_def bindR_eq_Inr is_safe_def MAX_SAFE_def split: option.splits if_splits)
  have rq_ok: "is_safe requested \<and> 0 < requested"
  proof (cases "tp_amountMinor p")
    case None
    with rq assms(3-5) show ?thesis
      by (cases ex) (fastforce simp: requestedAmount_def split: if_splits)+
  next
    case (Some n)
    with rq assms(2) show ?thesis by (simp add: requestedAmount_def valid_tx_patch_def)
  qed
  show "is_safe fm" "0 \<le> fm" using fm_ok by auto
  show "is_safe amount" "0 < amount" using am rq_ok fm_ok by (auto simp: bindR_eq_Inr split: if_splits)
  show "kind \<noteq> General" if "0 < fm" using general that by simp
  show "0 < fm \<and> kind = Withdrawal" if "mode \<noteq> None" using md that by (auto simp: M_def split: if_splits)
  show "fc \<noteq> None \<longleftrightarrow> 0 < fm" using fc by (auto simp: bindR_eq_Inr split: if_splits)
  show "has_kind db (c_id c) ExpenseKind \<and> c_id c \<noteq> []" if "fc = Some c" for c
    using fc that requireSystemCategory_read [OF assms(1)] by (auto simp: bindR_eq_Inr split: if_splits)
  show "fm = (case ex of None \<Rightarrow> 0 | Some e \<Rightarrow> tx_amountMinor e) \<and> amount = t_amountMinor b"
    if "changes_nothing_priced p" "kind = oldKind"
  proof
    show f: "fm = (case ex of None \<Rightarrow> 0 | Some e \<Rightarrow> tx_amountMinor e)"
      using fm that by (auto simp: patchedFeeMinor_def changes_nothing_priced_def bindR_eq_Inr)
    show "amount = t_amountMinor b"
    proof (cases ex)
      case None
      with f have "fm = 0" by simp
      with am rq None that show ?thesis by (simp add: requestedAmount_def changes_nothing_priced_def)
    next
      case (Some e)
      have "mode = Some Deducted \<longleftrightarrow> oldKind = Withdrawal \<and> oldMode = Some Deducted"
        using md f Some exs [OF Some] that
        by (cases oldKind; cases oldMode) (auto simp: M_def changes_nothing_priced_def)
      with am rq Some f that exs [OF Some] show ?thesis
        by (auto simp: requestedAmount_def changes_nothing_priced_def bindR_eq_Inr split: if_splits)
    qed
  qed
qed

lemma paired_from:
  assumes "\<And>h. h \<noteq> g \<Longrightarrow> group_ok (group_members rt db h)" "\<And>h. h \<noteq> g \<Longrightarrow> group_members rt db' h = group_members rt db h"
    and "group_ok (group_members rt db' g)"
  shows "paired rt db'"
  unfolding paired_def using assms by metis

lemma account_rows_frame:
  "db_accounts db' = db_accounts db \<Longrightarrow> account_row_of db' i = account_row_of db i"
  by (simp add: account_row_of_def)

text \<open>The three ways a companion follows its transfer.\<close>

lemma companion_added:
  assumes "insertTransaction e db = Inr db'" "wf_tx rt e" "tx_valid rt db e" "tx_deletedAt e = None" "tx_version e = 1"
    and "\<And>i a. i \<in> set (tx_accounts e) \<Longrightarrow> account_row_of db i = Some a \<Longrightarrow> ra_archived_at a = None"
    and "tx_groupId e = Some g" "\<And>h. h \<noteq> g \<Longrightarrow> group_ok (group_members rt db h)"
    and "group_members rt db g = {#t#}" "companion_of t e"
  shows "ledger_change rt db db' \<and> paired rt db'"
proof -
  have ch: "ledger_change rt db db'" "db' = db\<lparr>db_transactions := db_transactions db @ [transactionParams e]\<rparr>"
    by (rule insert_change [OF assms(1-5)]; use assms(6) in blast)+
  have "paired rt db'"
  proof (rule paired_from [OF assms(8)])
    show "group_members rt db' h = group_members rt db h" if "h \<noteq> g" for h
      using that assms(7) unfolding ch(2) members_added [OF assms(2)] by (simp add: live_in_def)
    have "group_members rt db' g = {#t, e#}"
      using assms(4,7,9) unfolding ch(2) members_added [OF assms(2)] by (simp add: live_in_def add_mset_commute)
    with assms(10) show "group_ok (group_members rt db' g)" by (auto simp: group_ok_def)
  qed
  with ch(1) show ?thesis by simp
qed

lemma companion_rewritten:
  assumes "wf_db rt db" "updateTransaction u n db = Inr (Suc 0, db')"
    and "lookup_by rt_id (tx_id u) (db_transactions db) = Some (transactionParams e)" "wf_tx rt u" "wf_tx rt e"
    and "tx_valid rt db u" "tx_deletedAt e = None" "tx_deletedAt u = None"
      "tx_type u = tx_type e" "tx_createdAt u = tx_createdAt e" "tx_version u = tx_version e + 1"
    and "tx_type e \<noteq> TAdjustment"
    and "\<And>r. r \<in> set (db_accounts db) \<Longrightarrow> ra_archived_at r \<noteq> None \<Longrightarrow> row_effect rt r u = row_effect rt r e"
    and "tx_groupId u = Some g" "tx_groupId e = Some g" "\<And>h. h \<noteq> g \<Longrightarrow> group_ok (group_members rt db h)"
    and "group_members rt db g = {#t, e#}" "companion_of t u"
  shows "ledger_change rt db db' \<and> paired rt db'"
proof -
  have "ledger_change rt db db'" by (rule update_change [OF assms(2-11)]) (use assms(12,13) in auto)
  note db' = update_hit(3) [OF assms(2,3,10)]
  note members = members_replaced [OF assms(1,4,5,3)]
  have "paired rt db'"
  proof (rule paired_from [OF assms(16)])
    show "group_members rt db' h = group_members rt db h" if "h \<noteq> g" for h
      using that assms(14,15) unfolding db' members by (simp add: live_in_def)
    have "group_members rt db' g = {#t, u#}"
      using assms(7,8,14,15,17) unfolding db' members by (simp add: live_in_def add_mset_commute)
    with assms(18) show "group_ok (group_members rt db' g)" by (auto simp: group_ok_def)
  qed
  with \<open>ledger_change rt db db'\<close> show ?thesis by simp
qed

lemma companion_removed:
  assumes "wf_db rt db" "softDeleteTransaction (tx_id e) at (tx_version e + 1) at n db = Inr (Suc 0, db')"
    and "lookup_by rt_id (tx_id e) (db_transactions db) = Some (transactionParams e)"
    and "wf_tx rt e" "tx_deletedAt e = None" "utc_ok rt at" "tx_version e < MAX_SAFE"
    and "\<And>i a. i \<in> set (tx_accounts e) \<Longrightarrow> account_row_of db i = Some a \<Longrightarrow> ra_archived_at a = None"
    and "tx_groupId e = Some g" "\<And>h. h \<noteq> g \<Longrightarrow> group_ok (group_members rt db h)" "group_members rt db g = {#e#}"
  shows "ledger_change rt db db' \<and> paired rt db'"
proof -
  have ch: "ledger_change rt db db'" "db' = db\<lparr>db_transactions := replace_by rt_id
      (transactionParams (deletedItem at (tx_version e + 1) e)) (db_transactions db)\<rparr>"
    by (rule softDelete_change [OF assms(2-7)]; use assms(8) in blast)+
  have look: "lookup_by rt_id (tx_id (deletedItem at (tx_version e + 1) e)) (db_transactions db) = Some (transactionParams e)"
    using assms(3) by simp
  note members = members_replaced [OF assms(1) deletedItem_wf [OF assms(4,6,7)] assms(4) look]
  have "paired rt db'"
  proof (rule paired_from [OF assms(10)])
    show "group_members rt db' h = group_members rt db h" if "h \<noteq> g" for h
      using that assms(9) unfolding ch(2) members by (simp add: live_in_def)
    have "group_members rt db' g = {#}"
      using assms(5,9,11) unfolding ch(2) members by (simp add: live_in_def)
    then show "group_ok (group_members rt db' g)" by simp
  qed
  with ch(1) show ?thesis by simp
qed

lemma row_effect_transfer:
  "t_amountMinor u = t_amountMinor b \<Longrightarrow> t_deletedAt u = t_deletedAt b \<Longrightarrow>
     row_effect rt r (TransferTx u kind mode src dst payee) = row_effect rt r (TransferTx b kind' mode' src dst payee')"
  by (simp add: row_effect_def effect_def Let_def)

lemma row_effect_companion:
  assumes "t_amountMinor u = t_amountMinor c" "t_deletedAt u = t_deletedAt c"
  shows "row_effect rt r (ExpenseTx u src cat q) = row_effect rt r (ExpenseTx c src cat' q')"
  using assms by (simp add: row_effect_def effect_def Let_def)

lemma companion_followed:
  assumes db2: "wf_db rt db2" "paired rt db" "db_accounts db2 = db_accounts db"
    and wc: "writeCompanion d timestamp fm fc next k u src py changed ex db2 = Inr db3"
    and wft: "wf_tx rt (TransferTx u kind mode (a_id src) dst payee)" "utc_ok rt timestamp" "t_deletedAt u = None"
      "t_groupId u = next" "kind \<noteq> General \<or> fm = 0" "is_safe fm" "0 \<le> fm" "a_id src \<noteq> []"
    and fc: "fc \<noteq> None \<longleftrightarrow> 0 < fm" "\<And>c. fc = Some c \<Longrightarrow> c_id c \<noteq> []"
      "\<And>c x z. fc = Some c \<Longrightarrow> t_occurredAt x = t_occurredAt u \<Longrightarrow> tx_valid rt db2 (ExpenseTx x (a_id src) (c_id c) z)"
    and nx: "next = (if 0 < fm then Some g else None)"
    and new: "\<And>h. group_members rt db2 h = (if next = Some h then {#TransferTx u kind mode (a_id src) dst payee#} else {#})
      + (group_members rt db h - (if g0 = Some h then {#old#} else {#}))"
    and ex: "(g0 = None \<and> ex = None \<and> group_members rt db g = {#}) \<or>
      (\<exists>c cat q. g0 = Some g \<and> ex = Some (ExpenseTx c os cat q) \<and> wf_tx rt (ExpenseTx c os cat q)
        \<and> lookup_by rt_id (t_id c) (db_transactions db2) = Some (transactionParams (ExpenseTx c os cat q))
        \<and> t_groupId c = Some g \<and> t_deletedAt c = None \<and> group_members rt db g = {#old, ExpenseTx c os cat q#})"
    and arch: "(fm = (case ex of None \<Rightarrow> 0 | Some e \<Rightarrow> tx_amountMinor e) \<and> a_id src = os)
      \<or> (\<forall>i\<in>{a_id src, os}. \<forall>r. account_row_of db i = Some r \<longrightarrow> ra_archived_at r = None)"
  shows "(ledger_change rt)\<^sup>*\<^sup>* db2 db3 \<and> paired rt db3"
proof -
  let ?t = "TransferTx u kind mode (a_id src) dst payee"
  have act: "ra_archived_at r = None" if "i \<in> {a_id src, os}" "account_row_of db2 i = Some r"
      "\<not> (fm = (case ex of None \<Rightarrow> 0 | Some e \<Rightarrow> tx_amountMinor e) \<and> a_id src = os)" for i r
    using arch that account_rows_frame [OF db2(3)] by metis
  have others: "group_ok (group_members rt db2 h)" if "h \<noteq> g" for h
    using db2(2) that nx ex new [of h] by (auto simp: paired_def)
  have base: "wf_tx_base rt u" using wft(1) by (simp add: wf_tx_def)
  from ex show ?thesis
  proof (elim disjE exE conjE)
    assume g0: "g0 = None" "ex = None" "group_members rt db g = {#}"
    show ?thesis
    proof (cases fc)
      case None
      then have "db3 = db2" "next = None" using wc g0 fc(1) nx by (auto simp: writeCompanion_def)
      moreover have "group_ok (group_members rt db2 g)" using new [of g] g0 \<open>next = None\<close> by simp
      ultimately have "paired rt db3" unfolding paired_def using others by metis
      with \<open>db3 = db2\<close> show ?thesis by simp
    next
      case (Some c)
      then have pos: "0 < fm" using fc(1) by simp
      define e where "e = ExpenseTx (newBase (dep_createId d k) next fm (t_occurredAt u) (t_location u) (t_note u) timestamp)
          (a_id src) (c_id c) py"
      have ins: "insertTransaction e db2 = Inr db3" and cid: "dep_createId d k \<noteq> []"
        using wc Some g0 by (auto simp: writeCompanion_def bindR_eq_Inr read_facts e_def)
      have wfe: "wf_tx rt e" using base wft cid pos fc(2) [OF Some] nx
        by (simp add: e_def wf_tx_def wf_newBase) (auto simp: wf_tx_base_def)
      have "ledger_change rt db2 db3 \<and> paired rt db3"
      proof (rule companion_added [OF ins wfe, where g = g and t = ?t])
        show "tx_valid rt db2 e" using fc(3) [OF Some] by (simp add: e_def)
        show "ra_archived_at a = None" if "i \<in> set (tx_accounts e)" "account_row_of db2 i = Some a" for i a
          using act [of i a] that pos g0 by (simp add: e_def)
        show "group_members rt db2 g = {#?t#}" using new [of g] g0 nx pos by simp
        show "companion_of ?t e" using wft(5) pos by (simp add: e_def)
      qed (use others nx pos in \<open>simp_all add: e_def\<close>)
      then show ?thesis by auto
    qed
  next
    fix c cat q
    assume g0: "g0 = Some g" "ex = Some (ExpenseTx c os cat q)" and wfe: "wf_tx rt (ExpenseTx c os cat q)"
      and look: "lookup_by rt_id (t_id c) (db_transactions db2) = Some (transactionParams (ExpenseTx c os cat q))"
      and ce: "t_groupId c = Some g" "t_deletedAt c = None" and mem: "group_members rt db g = {#old, ExpenseTx c os cat q#}"
    let ?e = "ExpenseTx c os cat q"
    have amount: "0 < t_amountMinor c" "1 \<le> t_version c" using wfe by (simp_all add: wf_tx_def wf_tx_base_def)
    show ?thesis
    proof (cases fc)
      case None
      then have zero: "fm = 0" "next = None" using fc(1) wft(7) nx by auto
      from wc None g0 have ver: "t_version c < MAX_SAFE"
        and del: "softDeleteTransaction (tx_id ?e) timestamp (tx_version ?e + 1) timestamp (t_version c) db2 = Inr (Suc 0, db3)"
        by (auto simp: writeCompanion_def bindR_eq_Inr read_facts)
      have "ledger_change rt db2 db3 \<and> paired rt db3"
      proof (rule companion_removed [OF db2(1) del _ wfe, where g = g])
        show "ra_archived_at a = None" if "i \<in> set (tx_accounts ?e)" "account_row_of db2 i = Some a" for i a
          using act [of i a] that zero g0 amount by simp
        show "group_members rt db2 g = {#?e#}" using new [of g] g0 zero mem by simp
      qed (use look ce others wft(2) ver in simp_all)
      then show ?thesis by auto
    next
      case (Some cc)
      then have pos: "0 < fm" using fc(1) by simp
      define x where "x = c\<lparr>t_groupId := next, t_amountMinor := fm, t_occurredAt := t_occurredAt u,
         t_location := t_location u, t_note := t_note u, t_version := t_version c + 1, t_updatedAt := timestamp\<rparr>"
      define n where "n = ExpenseTx x (a_id src) (c_id cc) (if changed then py else q)"
      from wc Some g0 have ver: "t_version c < MAX_SAFE" and up: "updateTransaction n (t_version c) db2 = Inr (Suc 0, db3)"
        by (auto simp: writeCompanion_def bindR_eq_Inr read_facts n_def x_def)
      have wfn: "wf_tx rt n" using base wfe wft pos fc(2) [OF Some] nx ver next_version_safe [OF amount(2) ver]
        by (auto simp: n_def x_def wf_tx_def wf_tx_base_def)
      have eff: "row_effect rt r n = row_effect rt r ?e" if r: "r \<in> set (db_accounts db2)" "ra_archived_at r \<noteq> None" for r
      proof (cases "fm = t_amountMinor c \<and> a_id src = os")
        case True
        then show ?thesis unfolding n_def by (simp only:) (rule row_effect_companion; simp add: x_def)
      next
        case False
        then have a: "ra_archived_at q = None" if "i = a_id src \<or> i = os" "account_row_of db2 i = Some q" for i q
          using act [of i q] that g0 by simp
        have "row_effect rt r n = 0" by (rule row_effect_active [OF db2(1) r a]) (auto simp: n_def)
        moreover have "row_effect rt r ?e = 0" by (rule row_effect_active [OF db2(1) r a]) auto
        ultimately show ?thesis by simp
      qed
      have "ledger_change rt db2 db3 \<and> paired rt db3"
      proof (rule companion_rewritten [OF db2(1) up _ wfn wfe, where g = g and t = ?t])
        show "tx_valid rt db2 n" using fc(3) [OF Some] by (simp add: n_def x_def)
        show "group_members rt db2 g = {#?t, ?e#}" using new [of g] g0 nx pos mem by simp
        show "companion_of ?t n" using wft(5) pos by (simp add: n_def x_def)
      qed (use look ce others nx pos eff in \<open>simp_all add: n_def x_def\<close>)
      then show ?thesis by auto
    qed
  qed
qed

lemma patchTransfer_changes:
  assumes db: "wf_db rt db" "paired rt db" "requireSettings rt db = Inr s" "fresh_ids rt d db"
    and p: "valid_tx_patch rt p" "utc_ok rt timestamp"
    and old: "lookup_by rt_id (t_id b) (db_transactions db) = Some (transactionParams (TransferTx b ok om os od py))"
      "wf_tx rt (TransferTx b ok om os od py)" "t_deletedAt b = None"
    and arch: "unpriced_or_active rt db p (TransferTx b ok om os od py)"
    and run: "patchTransfer rt d s timestamp p b ok om os od py db = Inr (dto, db')"
  shows "(ledger_change rt)\<^sup>*\<^sup>* db db' \<and> paired rt db'"
proof -
  define kind where "kind = case_option ok id (tp_transferKind p)"
  define at where "at = case_option (t_occurredAt b) id (tp_occurredAt p)"
  define payee where "payee = case_option py id (tp_payee p)"
  define U where "U = (\<lambda>(next :: ustr option) amount. b\<lparr>t_groupId := next, t_amountMinor := amount, t_occurredAt := at,
     t_location := case_option (t_location b) id (tp_location p), t_note := case_option (t_note b) id (tp_note p),
     t_version := t_version b + 1, t_updatedAt := timestamp\<rparr>)"
  let ?old = "TransferTx b ok om os od py"
  from run obtain src dst ex fm fc mode amount nxt db1 where
    ne: "case_option os id (tp_fromAccountId p) \<noteq> case_option od id (tp_toAccountId p)"
    and src: "(case tp_fromAccountId p of Some i \<Rightarrow> requireActiveAccount rt i db | None \<Rightarrow> requireAccount rt os db) = Inr src"
    and dst: "(case tp_toAccountId p of Some i \<Rightarrow> requireActiveAccount rt i db | None \<Rightarrow> requireAccount rt od db) = Inr dst"
    and nat: "assertTransferKindAccounts kind src dst = Inr ()"
    and cur: "assertTransactionCurrency s src = Inr ()" "assertTransactionCurrency s dst = Inr ()"
    and time: "assertTransactionTime rt s [src, dst] at timestamp = Inr ()"
    and ex: "companionExpense rt (t_groupId b) db = Inr ex"
    and fee: "patchedFee rt p kind b ok om ex db = Inr (fm, fc, mode, amount)"
    and nxt: "(if 0 < fm then (case t_groupId b of Some g \<Rightarrow> Inr (Some g)
        | None \<Rightarrow> bindR (generatedId d 0) (\<lambda>g. Inr (Some g))) else Inr None) = Inr nxt"
    and ver: "t_version b < MAX_SAFE"
    and up: "updateTransaction (TransferTx (U nxt amount) kind mode (a_id src) (a_id dst) payee) (t_version b) db = Inr (Suc 0, db1)"
    and wc: "writeCompanion d timestamp fm fc nxt (if t_groupId b = None then 1 else 0) (U nxt amount) src
        (companionPayee kind (a_name src) (a_name dst) payee) (kind \<noteq> ok \<or> a_id src \<noteq> os \<or> a_id dst \<noteq> od) ex
        (if ok = Repayment \<and> kind \<noteq> Repayment then restoreTransactionToStatistics (t_id b) db1 else db1) = Inr db'"
    unfolding patchTransfer_def Let_def kind_def [symmetric] at_def [symmetric] payee_def [symmetric] U_def
    by (auto simp add: bindR_eq_Inr read_facts simp del: not_less split del: if_split)
  note rs = require_either [OF db(1) src] and rd = require_either [OF db(1) dst]
  have ids: "a_id src \<noteq> a_id dst" "a_id src \<noteq> []" "a_id dst \<noteq> []" using ne rs rd by (auto simp: wf_account_def)
  have wfb: "wf_tx_base rt b" "0 < t_amountMinor b" using old(2) by (simp_all add: wf_tx_def)
  note comp = companion_read [OF db(1,2) ex old]
  have exs: "\<forall>e. ex = Some e \<longrightarrow> is_safe (tx_amountMinor e) \<and> 0 < tx_amountMinor e"
    using comp by (auto simp: wf_tx_def wf_tx_base_def)
  have safe: "is_safe (t_amountMinor b)" using wfb by (simp add: wf_tx_base_def)
  note fees = patchedFee_read [OF db(1) p(1) safe wfb(2) exs fee]
  let ?u = "U nxt amount"
  have base: "t_id ?u = t_id b" "t_createdAt ?u = t_createdAt b" "t_deletedAt ?u = None" "t_groupId ?u = nxt"
    "t_version ?u = t_version b + 1" "t_occurredAt ?u = at" "t_amountMinor ?u = amount"
    using old(3) by (simp_all add: U_def)
  define g where "g = (case t_groupId b of Some g \<Rightarrow> g | None \<Rightarrow> dep_createId d 0)"
  have nx: "nxt = (if 0 < fm then Some g else None)" "nxt \<noteq> Some []"
    using nxt wfb(1) by (auto simp: g_def wf_tx_base_def bindR_eq_Inr read_facts split: option.splits if_splits)
  let ?t = "TransferTx ?u kind mode (a_id src) (a_id dst) payee"
  have wft: "wf_tx rt ?t"
    using wfb p ids fees(3,4,6) nx next_version_safe [of "t_version b"] ver
    by (auto simp: wf_tx_def wf_tx_base_def U_def at_def valid_tx_patch_def split: option.splits)
  have valid: "tx_valid rt db ?t"
    by (rule tx_valid_transfer_accounts [OF db(1,3) rs(1) rd(1) nat cur, where now = timestamp]) (use time base in simp)
  have active: "ra_archived_at r = None" if "i \<in> {a_id src, os} \<union> {a_id dst, od}" "account_row_of db i = Some r"
      "\<not> changes_nothing_priced p" for i r
    using that arch rs(2,4,5) rd(2,4,5)
    by (cases "tp_fromAccountId p"; cases "tp_toAccountId p") (auto simp: unpriced_or_active_def)
  have same: "kind = ok" "a_id src = os" "a_id dst = od" if "changes_nothing_priced p"
    using that rs(4) rd(4) by (simp_all add: changes_nothing_priced_def kind_def)
  have eff: "row_effect rt r ?t = row_effect rt r ?old" if r: "r \<in> set (db_accounts db)" "ra_archived_at r \<noteq> None" for r
  proof (cases "changes_nothing_priced p")
    case True
    with same fees(9) show ?thesis by (simp only:) (rule row_effect_transfer; simp add: U_def old(3))
  next
    case False
    have "row_effect rt r ?t = 0" by (rule row_effect_active [OF db(1) r]) (use active False in auto)
    moreover have "row_effect rt r ?old = 0" by (rule row_effect_active [OF db(1) r]) (use active False in auto)
    ultimately show ?thesis by simp
  qed
  have look: "lookup_by rt_id (tx_id ?t) (db_transactions db) = Some (transactionParams ?old)" using old(1) base by simp
  have created: "tx_createdAt ?t = tx_createdAt ?old" using base by simp
  have ch1: "ledger_change rt db db1"
    by (rule update_change [OF up look wft old(2) valid]) (use base eff old(3) in auto)
  note db1 = update_hit(3) [OF up look created]
  define db2 where "db2 = (if ok = Repayment \<and> kind \<noteq> Repayment then restoreTransactionToStatistics (t_id b) db1 else db1)"
  have ch2: "(ledger_change rt)\<^sup>*\<^sup>* db1 db2"
    using exclusions_changed [of rt db1] by (auto simp: db2_def restoreTransactionToStatistics_def)
  have frame: "db_accounts db2 = db_accounts db" "db_transactions db2 = db_transactions db1" "tx_valid rt db2 = tx_valid rt db"
    "group_members rt db2 = group_members rt db1"
    by (simp_all add: db2_def db1 restoreTransactionToStatistics_def fun_eq_iff tx_valid_frame)
  have wf2: "wf_db rt db2" using ledger_change_wf [OF ch1 db(1)]
    by (simp add: db2_def restoreTransactionToStatistics_def)
  have ids_ne: "t_id c \<noteq> t_id b \<Longrightarrow> lookup_by rt_id (t_id c) (db_transactions db2) = lookup_by rt_id (t_id c) (db_transactions db)" for c
    using base by (auto simp: frame db1 lookup_by_replace commonParams_def)
  have new: "group_members rt db2 h = (if nxt = Some h then {#?t#} else {#})
      + (group_members rt db h - (if t_groupId b = Some h then {#?old#} else {#}))" for h
    unfolding frame db1 members_replaced [OF db(1) wft old(2) look] using base old(3) by (simp add: live_in_def)
  have valid_e: "tx_valid rt db2 (ExpenseTx x (a_id src) (c_id c) z)" if "fc = Some c" "t_occurredAt x = t_occurredAt ?u" for c x z
  proof -
    have "assertTransactionTime rt s [src] (t_occurredAt x) timestamp = Inr ()"
      using time that(2) base by (simp add: assertTransactionTime_Inr)
    from tx_valid_entry [OF db(1,3) rs(1) cur(1) this, of "c_id c" ExpenseKind z] fees(8) [OF that(1)] show ?thesis
      by (simp add: frame entry_con_def)
  qed
  have "(ledger_change rt)\<^sup>*\<^sup>* db2 db' \<and> paired rt db'"
  proof (rule companion_followed [OF wf2 db(2) frame(1) wc [folded db2_def] wft p(2) base(3,4) _ fees(1,2) ids(2) fees(7) _ valid_e
      nx(1) new])
    show "kind \<noteq> General \<or> fm = 0" using fees(2,5) by linarith
    show "c_id c \<noteq> []" if "fc = Some c" for c using fees(8) [OF that] by simp
    show "(t_groupId b = None \<and> ex = None \<and> group_members rt db g = {#}) \<or>
      (\<exists>c cat q. t_groupId b = Some g \<and> ex = Some (ExpenseTx c os cat q) \<and> wf_tx rt (ExpenseTx c os cat q)
        \<and> lookup_by rt_id (t_id c) (db_transactions db2) = Some (transactionParams (ExpenseTx c os cat q))
        \<and> t_groupId c = Some g \<and> t_deletedAt c = None \<and> group_members rt db g = {#?old, ExpenseTx c os cat q#})"
      using comp
    proof (elim disjE exE conjE)
      fix g' c cat q
      assume "t_groupId b = Some g'" "ex = Some (ExpenseTx c os cat q)" "wf_tx rt (ExpenseTx c os cat q)"
        "lookup_by rt_id (t_id c) (db_transactions db) = Some (transactionParams (ExpenseTx c os cat q))"
        "t_groupId c = Some g'" "t_deletedAt c = None" "t_id c \<noteq> t_id b"
        "group_members rt db g' = {#?old, ExpenseTx c os cat q#}"
      with ids_ne [of c] show ?thesis by (intro disjI2 exI [of _ c] exI [of _ cat] exI [of _ q]) (simp add: g_def)
    qed (simp add: g_def fresh_group [OF db(4)])
    show "(fm = (case ex of None \<Rightarrow> 0 | Some e \<Rightarrow> tx_amountMinor e) \<and> a_id src = os)
      \<or> (\<forall>i\<in>{a_id src, os}. \<forall>r. account_row_of db i = Some r \<longrightarrow> ra_archived_at r = None)"
    proof (cases "changes_nothing_priced p")
      case True
      with fees(9) same show ?thesis by simp
    next
      case False
      with active have "\<forall>i\<in>{a_id src, os}. \<forall>r. account_row_of db i = Some r \<longrightarrow> ra_archived_at r = None" by blast
      then show ?thesis ..
    qed
  qed
  with ch1 ch2 show ?thesis by (meson converse_rtranclp_into_rtranclp rtranclp_trans)
qed

lemma user_transaction_own:
  assumes "requireUserTransaction rt i db = Inr t"
  shows "\<not> (tx_type t = TExpense \<and> tx_groupId t \<noteq> None)"
proof -
  from assms obtain x where "(case x of None \<Rightarrow> Inl notFound
      | Some y \<Rightarrow> if tx_type y = TExpense \<and> tx_groupId y \<noteq> None then Inl notFound else Inr y) = Inr t"
    by (auto simp only: requireUserTransaction_def bindR_eq_Inr)
  then show ?thesis by (cases x) (simp_all add: guard_Inr)
qed

lemma patchTransaction_changes:
  assumes "wf_db rt db" "paired rt db" "fresh_ids rt d db" "patchTransactionMutation rt d i v db = Inr (dto, db')"
  shows "(ledger_change rt)\<^sup>*\<^sup>* db db' \<and> paired rt db'"
proof -
  from assms(4) obtain s t p timestamp where s: "requireSettings rt db = Inr s" and t: "requireUserTransaction rt i db = Inr t"
    and live: "tx_deletedAt t = None" and white: "assertArchivedPatchWhitelist rt t (asMutationRecord v) db = Inr ()"
    and p: "parseTransactionPatchRequest rt v = Inr p" and ts: "utc_ok rt timestamp"
    and run: "(case t of
           IncomeTx b acct cat payee \<Rightarrow> patchEntry rt IncomeKind IncomeTx s timestamp p b acct cat payee db
         | ExpenseTx b acct cat payee \<Rightarrow> patchEntry rt ExpenseKind ExpenseTx s timestamp p b acct cat payee db
         | TransferTx b kind mode src dst payee \<Rightarrow> patchTransfer rt d s timestamp p b kind mode src dst payee db
         | AdjustmentTx b acct calculated target \<Rightarrow> patchAdjustment rt s timestamp p b acct calculated target db) = Inr (dto, db')"
    unfolding patchTransactionMutation_def bindR_eq_Inr guard_Inr generatedTimestamp_Inr
    by - (elim exE conjE, rule that, assumption, assumption, simp, simp, assumption, assumption, assumption)
  note rt = requireUserTransaction_read [OF t]
  have vp: "valid_tx_patch rt p" using tx_patch_parsed [OF p] by blast
  have arch: "unpriced_or_active rt db p t" by (rule whitelisted [OF assms(1) white p])
  have mem: "t \<in> set (txs rt db)" using rt txs_mem by blast
  have alone: "tx_groupId t = None" if "tx_type t \<noteq> TTransfer"
  proof (rule ccontr)
    assume "tx_groupId t \<noteq> None"
    then obtain g where g: "tx_groupId t = Some g" by auto
    moreover have "tx_type t \<noteq> TExpense" using user_transaction_own [OF t] g by auto
    ultimately show False using paired_group [OF assms(2) mem _ that] live by (auto simp: live_in_def)
  qed
  show ?thesis
  proof (cases t)
    case (IncomeTx b acct cat payee)
    then have t: "t = entry_con IncomeKind b acct cat payee" by (simp add: entry_con_def)
    from run have "patchEntry rt IncomeKind (entry_con IncomeKind) s timestamp p b acct cat payee db = Inr (dto, db')"
      by (simp add: t entry_con_def)
    then have "ledger_change rt db db' \<and> paired rt db'"
      by (rule patchEntry_change [OF assms(1,2) s vp ts, rotated 5]) (use rt live alone arch in \<open>auto simp: t\<close>)
    then show ?thesis by auto
  next
    case (ExpenseTx b acct cat payee)
    then have t: "t = entry_con ExpenseKind b acct cat payee" by (simp add: entry_con_def)
    from run have "patchEntry rt ExpenseKind (entry_con ExpenseKind) s timestamp p b acct cat payee db = Inr (dto, db')"
      by (simp add: t entry_con_def)
    then have "ledger_change rt db db' \<and> paired rt db'"
      by (rule patchEntry_change [OF assms(1,2) s vp ts, rotated 5]) (use rt live alone arch in \<open>auto simp: t\<close>)
    then show ?thesis by auto
  next
    case (TransferTx b kind mode src dst payee)
    show ?thesis
      by (rule patchTransfer_changes [OF assms(1,2) s assms(3) vp ts, where b = b])
        (use TransferTx run rt live arch in auto)
  next
    case (AdjustmentTx b acct calculated target)
    have "ledger_change rt db db' \<and> paired rt db'"
      by (rule patchAdjustment_change [OF assms(1,2) s ts, where b = b])
        (use AdjustmentTx run rt live alone in auto)
    then show ?thesis by auto
  qed
qed

section \<open>Deletion\<close>

definition accounts_active :: "ledger_db \<Rightarrow> tx \<Rightarrow> bool" where
  "accounts_active db t \<longleftrightarrow> (\<forall>i\<in>set (tx_accounts t). \<forall>a. account_row_of db i = Some a \<longrightarrow> ra_archived_at a = None)"

lemma softDeleteGroup_changes:
  assumes "wf_db rt db" "softDeleteGroup target at items returned db = Inr (res, db')" "utc_ok rt at"
    and "distinct (map tx_id items)"
    and "\<forall>t\<in>set items. wf_tx rt t \<and> lookup_by rt_id (tx_id t) (db_transactions db) = Some (transactionParams t)"
    and "\<forall>t\<in>set items. tx_deletedAt t = None \<longrightarrow> accounts_active db t"
  shows "(ledger_change rt)\<^sup>*\<^sup>* db db' \<and> (\<forall>h. group_members rt db' h = group_members rt db h - mset (filter (live_in h) items))"
  using assms
proof (induction target at items returned db rule: softDeleteGroup.induct)
  case (1 target at returned db)
  then show ?case by simp
next
  case (2 target at t ts returned db)
  show ?case
  proof (cases "tx_deletedAt t = None")
    case False
    then have skip: "live_in h t = False" for h by (simp add: live_in_def)
    have "(ledger_change rt)\<^sup>*\<^sup>* db db' \<and> (\<forall>h. group_members rt db' h = group_members rt db h - mset (filter (live_in h) ts))"
      using False 2 by (intro "2.IH"(1)) auto
    with skip show ?thesis by simp
  next
    case True
    from "2.prems"(5) have t: "wf_tx rt t" "lookup_by rt_id (tx_id t) (db_transactions db) = Some (transactionParams t)" by auto
    from "2.prems"(2) True obtain db1 n ret where ver: "tx_version t < MAX_SAFE"
      and del: "softDeleteTransaction (tx_id t) at (tx_version t + 1) at n db = Inr (Suc 0, db1)"
      and rest: "softDeleteGroup target at ts ret db1 = Inr (res, db')"
      and ret: "n = (if tx_id t = tx_id target then tx_version target else tx_version t)"
        "ret = (if tx_id t = tx_id target then Some (deletedItem at (tx_version t + 1) t) else returned)"
      by (auto simp: bindR_eq_Inr read_facts)
    let ?d = "deletedItem at (tx_version t + 1) t"
    have ch: "ledger_change rt db db1" "db1 = db\<lparr>db_transactions := replace_by rt_id (transactionParams ?d) (db_transactions db)\<rparr>"
      by (rule softDelete_change [OF del t(2,1) True "2.prems"(3) ver]; use "2.prems"(6) True in \<open>auto simp: accounts_active_def\<close>)+
    have look: "lookup_by rt_id (tx_id ?d) (db_transactions db) = Some (transactionParams t)" using t(2) by simp
    have ids: "\<forall>u\<in>set ts. tx_id u \<noteq> tx_id t" using "2.prems"(4) by (auto simp: image_iff)
    have frame: "account_row_of db1 i = account_row_of db i" for i using ch(2) by simp
    have "(ledger_change rt)\<^sup>*\<^sup>* db1 db' \<and> (\<forall>h. group_members rt db' h = group_members rt db1 h - mset (filter (live_in h) ts))"
    proof (rule "2.IH"(2) [where x = "tx_version t + 1" and xa = db1])
      show "distinct (map tx_id ts)" using "2.prems"(4) by simp
      show "\<forall>u\<in>set ts. wf_tx rt u \<and> lookup_by rt_id (tx_id u) (db_transactions db1) = Some (transactionParams u)"
        using "2.prems"(5) ids unfolding ch(2) by (auto simp: lookup_by_replace)
      show "\<forall>u\<in>set ts. tx_deletedAt u = None \<longrightarrow> accounts_active db1 u"
        using "2.prems"(6) frame by (simp add: accounts_active_def)
    qed (use True ver del rest ret ledger_change_wf [OF ch(1) "2.prems"(1)] "2.prems"(3) in \<open>auto simp: nextVersion_Inr expectOneChange_Inr\<close>)
    moreover have "group_members rt db1 h = group_members rt db h - (if live_in h t then {#t#} else {#})" for h
      unfolding ch(2) members_replaced [OF "2.prems"(1) deletedItem_wf [OF t(1) "2.prems"(3) ver] t(1) look]
      by (simp add: live_in_def)
    ultimately show ?thesis using converse_rtranclp_into_rtranclp [of "ledger_change rt" db db1 db'] ch(1) by auto
  qed
qed

lemma params_group: "rt_group_id (transactionParams t) = tx_groupId t"
  by (cases t) (simp_all add: commonParams_def)

lemma group_listing:
  assumes "wf_db rt db" "listTransactionsByGroupId rt g True db = Inr items"
  shows "set items \<subseteq> set (txs rt db)" "\<forall>t\<in>set items. tx_groupId t = Some g" "distinct (map tx_id items)"
    "mset (filter (live_in g) items) = group_members rt db g"
proof -
  let ?rows = "filter (\<lambda>r. rt_group_id r = Some g) (db_transactions db)"
  have items: "items = map (tx_of rt) (newest_first ?rows)"
    using assms(2) selectTransactions_wf [OF assms(1)] by (simp add: listTransactionsByGroupId_def)
  have row: "rt_group_id r = tx_groupId (tx_of rt r)" "tx_id (tx_of rt r) = rt_id r" if "r \<in> set (db_transactions db)" for r
  proof -
    have "tx_ok rt r" using wf_db_parts(5) [OF assms(1)] that by (auto simp: list_all_iff)
    then obtain t where "r = transactionParams t" "tx_of rt r = t" by (rule tx_okE)
    then show "rt_group_id r = tx_groupId (tx_of rt r)" "tx_id (tx_of rt r) = rt_id r" by (simp_all add: params_group)
  qed
  show "set items \<subseteq> set (txs rt db)" by (auto simp: items txs_def)
  show "\<forall>t\<in>set items. tx_groupId t = Some g" using row by (auto simp: items)
  have "map tx_id items = map rt_id (newest_first ?rows)" using row(2) by (simp add: items)
  moreover have "mset (map rt_id (newest_first ?rows)) = mset (map rt_id ?rows)" by simp
  then have "distinct (map rt_id (newest_first ?rows))"
    using distinct_map_filter [OF wf_db_parts(6) [OF assms(1)]] mset_eq_imp_distinct_iff by blast
  ultimately show "distinct (map tx_id items)" by simp
  have "mset (filter (live_in g) items) = image_mset (tx_of rt) (filter_mset (\<lambda>r. rt_group_id r = Some g \<and> live_in g (tx_of rt r))
      (mset (db_transactions db)))"
    by (simp add: items filter_mset_image_mset filter_filter_mset comp_def)
  also have "\<dots> = image_mset (tx_of rt) (filter_mset (\<lambda>r. live_in g (tx_of rt r)) (mset (db_transactions db)))"
    using row(1) by (intro arg_cong [where f = "image_mset (tx_of rt)"] filter_mset_cong) (auto simp: live_in_def)
  also have "\<dots> = group_members rt db g"
    by (simp add: group_members_def txs_def filter_mset_image_mset comp_def)
  finally show "mset (filter (live_in g) items) = group_members rt db g" .
qed

lemma deleteTransaction_changes:
  assumes "wf_db rt db" "paired rt db" "deleteTransactionMutation rt d i v db = Inr (dto, db')"
  shows "(ledger_change rt)\<^sup>*\<^sup>* db db' \<and> paired rt db'"
proof -
  from assms(3) obtain t where t: "requireUserTransaction rt i db = Inr t"
    by (auto simp: deleteTransactionMutation_def bindR_eq_Inr)
  note rt = requireUserTransaction_read [OF t]
  show ?thesis
  proof (cases "tx_deletedAt t = None")
    case False
    with assms(3) t have "db' = db" by (auto simp: deleteTransactionMutation_def bindR_eq_Inr)
    with assms(2) show ?thesis by simp
  next
    case True
    from assms(3) t True obtain items us returned timestamp where
      items: "(case tx_groupId t of Some g \<Rightarrow> listTransactionsByGroupId rt g True db | None \<Rightarrow> Inr [t]) = Inr items"
      and act: "mapR (\<lambda>x. assertTransactionAccountsNotArchived rt x db) (filter (\<lambda>x. tx_deletedAt x = None) items) = Inr us"
      and ts: "utc_ok rt timestamp" and del: "softDeleteGroup t timestamp items None db = Inr (returned, db')"
      by (auto simp: deleteTransactionMutation_def bindR_eq_Inr generatedTimestamp_Inr Let_def split: option.splits)
    have "accounts_active db x" if x: "x \<in> set items" "tx_deletedAt x = None" for x
    proof -
      have "x \<in> set (filter (\<lambda>x. tx_deletedAt x = None) items)" using x by simp
      from mapR_Inr_mem [OF act this] obtain as where "transactionAccounts rt x db = Inr as" "\<not> someArchived as"
        by (auto simp: assertTransactionAccountsNotArchived_def bindR_eq_Inr)
      from someArchived_active [OF assms(1) this] show ?thesis by (auto simp: accounts_active_def)
    qed
    then have act: "\<forall>x\<in>set items. tx_deletedAt x = None \<longrightarrow> accounts_active db x" by blast
    have mem: "t \<in> set (txs rt db)" using rt txs_mem by blast
    have own: "wf_tx rt x \<and> lookup_by rt_id (tx_id x) (db_transactions db) = Some (transactionParams x)" if "x \<in> set (txs rt db)" for x
    proof -
      from txs_in_db [OF assms(1) that] obtain r where r: "r \<in> set (db_transactions db)" "r = transactionParams x" "wf_tx rt x" by blast
      with lookup_by_mem [OF wf_db_parts(6) [OF assms(1)] r(1)] show ?thesis by simp
    qed
    show ?thesis
    proof (cases "tx_groupId t")
      case None
      then have "items = [t]" using items by simp
      moreover have "live_in h t = False" for h using None by (simp add: live_in_def)
      ultimately have "(ledger_change rt)\<^sup>*\<^sup>* db db' \<and> (\<forall>h. group_members rt db' h = group_members rt db h)"
        using softDeleteGroup_changes [OF assms(1) del ts _ _ act] own [OF mem] by simp
      with assms(2) show ?thesis by (simp add: paired_def)
    next
      case (Some g)
      then have "listTransactionsByGroupId rt g True db = Inr items" using items by simp
      note listing = group_listing [OF assms(1) this]
      have "(ledger_change rt)\<^sup>*\<^sup>* db db' \<and> (\<forall>h. group_members rt db' h = group_members rt db h - mset (filter (live_in h) items))"
        using listing own by (intro softDeleteGroup_changes [OF assms(1) del ts _ _ act]) auto
      moreover have "mset (filter (live_in h) items) = (if h = g then group_members rt db g else {#})" for h
        using listing(2,4) by (auto simp: live_in_def filter_mset_eq_mempty_iff)
      ultimately show ?thesis using assms(2) by (simp add: paired_def)
    qed
  qed
qed

section \<open>Creation, adjustment and exclusion\<close>

lemma createTransaction_changes:
  assumes "wf_db rt db" "paired rt db" "fresh_ids rt d db" "valid_tx_req rt q"
    and "createTransactionMutation rt d q db = Inr (res, db')"
  shows "(ledger_change rt)\<^sup>*\<^sup>* db db' \<and> paired rt db'"
proof -
  from assms(5) obtain s timestamp where s: "requireSettings rt db = Inr s" "utc_ok rt timestamp"
    and run: "(case q of
       IncomeReq e \<Rightarrow> createEntry rt d IncomeKind IncomeTx s timestamp e db
     | ExpenseReq e \<Rightarrow> createEntry rt d ExpenseKind ExpenseTx s timestamp e db
     | TransferReq tr \<Rightarrow> createTransfer rt d s timestamp tr db
     | AdjustmentReq i j \<Rightarrow> Inl (ledgerValidationError ''type'')) = Inr (res, db')"
    unfolding createTransactionMutation_def bindR_eq_Inr generatedTimestamp_Inr by blast
  show ?thesis
  proof (cases q)
    case (IncomeReq e)
    with run assms(4) show ?thesis
      using createEntry_change [OF assms(1,2) s(1) _ s(2), of e d IncomeKind res db'] by (auto simp: entry_cons)
  next
    case (ExpenseReq e)
    with run assms(4) show ?thesis
      using createEntry_change [OF assms(1,2) s(1) _ s(2), of e d ExpenseKind res db'] by (auto simp: entry_cons)
  next
    case (TransferReq tr)
    with run assms(4) show ?thesis
      using createTransfer_changes [OF assms(1,2) s(1) _ s(2) assms(3)] by auto
  qed (use run in simp)
qed

lemma exclude_changes:
  "excludeMutation rt d i db = Inr (dto, db') \<Longrightarrow> paired rt db \<Longrightarrow> (ledger_change rt)\<^sup>*\<^sup>* db db' \<and> paired rt db'"
  using exclusions_changed [of rt db]
  by (auto simp: excludeMutation_def bindR_eq_Inr excludeTransactionFromStatistics_def split: if_splits)

lemma restore_changes:
  "restoreMutation rt i db = Inr (dto, db') \<Longrightarrow> paired rt db \<Longrightarrow> (ledger_change rt)\<^sup>*\<^sup>* db db' \<and> paired rt db'"
  using exclusions_changed [of rt db]
  by (auto simp: restoreMutation_def bindR_eq_Inr restoreTransactionToStatistics_def split: if_splits)

lemma adjustAccount_changes:
  assumes "wf_db rt db" "paired rt db" "valid_adjustment_req rt q"
    and "adjustAccountMutation rt d i q db = Inr (res, db')"
  shows "(ledger_change rt)\<^sup>*\<^sup>* db db' \<and> paired rt db'"
proof -
  from assms(4) obtain s a timestamp ts actual where s: "requireSettings rt db = Inr s" and a: "requireActiveAccount rt i db = Inr a"
    and cur: "assertTransactionCurrency s a = Inr ()" and stamp: "utc_ok rt timestamp"
    and time: "assertTransactionTime rt s [a] (jq_occurredAt q) timestamp = Inr ()"
    and bal: "deriveCurrentBalance a ts = Inr actual" "listActiveTransactionsForAccount rt (a_id a) db = Inr ts"
    and delta: "is_safe (jq_targetBalanceMinor q)" "is_safe actual" "is_safe (jq_targetBalanceMinor q - actual)"
    and run: "db' = db \<or> (jq_targetBalanceMinor q \<noteq> actual \<and> dep_createId d 0 \<noteq> [] \<and>
       insertTransaction (AdjustmentTx (newBase (dep_createId d 0) None (jq_targetBalanceMinor q - actual) (jq_occurredAt q) []
         (jq_note q) timestamp) (a_id a) actual (jq_targetBalanceMinor q)) db = Inr db')"
    unfolding adjustAccountMutation_def bindR_eq_Inr guard_Inr generatedTimestamp_Inr generatedId_Inr checkedSubMinor_Inr
    by (auto simp: Let_def bindR_eq_Inr generatedId_Inr split: if_splits)
  note ra = requireActiveAccount_read [OF assms(1) a]
  let ?t = "AdjustmentTx (newBase (dep_createId d 0) None (jq_targetBalanceMinor q - actual) (jq_occurredAt q) []
         (jq_note q) timestamp) (a_id a) actual (jq_targetBalanceMinor q)"
  from run show ?thesis
  proof (elim disjE conjE)
    assume ins: "insertTransaction ?t db = Inr db'" and new: "dep_createId d 0 \<noteq> []" "jq_targetBalanceMinor q \<noteq> actual"
    have wf: "wf_tx rt ?t" using new delta ra assms(3) stamp
      by (auto simp: wf_tx_def wf_newBase wf_account_def valid_adjustment_req_def)
    from usable_account [OF assms(1) s cur time] obtain st where "db_settings db = Some st"
      "account_usable rt st (jq_occurredAt q) (accountParams a)" by auto
    with ra have valid: "tx_valid rt db ?t" by (auto simp: tx_valid_def tx_shape_valid_def)
    have ch: "ledger_change rt db db'" "db' = db\<lparr>db_transactions := db_transactions db @ [transactionParams ?t]\<rparr>"
      by (rule insert_change [OF ins wf valid]; use ra in \<open>auto simp: accountParams_def\<close>)+
    have "paired rt db'" unfolding ch(2) by (rule paired_ungrouped_added [OF assms(2) wf]) simp
    with ch(1) show ?thesis by auto
  qed (use assms(2) in simp)
qed

end
