(* ===== verification/LedgerQuery.thy ===== *)
theory LedgerQuery
  imports LedgerRefinement
begin

text \<open>
  The transaction query contract of server/ledger/validation.ts: the opaque cursor, which is base64url
  over the UTF-8 bytes of a small JSON object, and the query record parser; with the cursor encoder of
  server/ledger/projections.ts. Base64url and the text encodings are those of JsText;
  \<open>JSON.parse\<close> is the parameter \<open>rt_json_parse\<close>.
\<close>

section \<open>The opaque cursor\<close>

text \<open>The payload of \<open>encodeCursor\<close> (server/ledger/projections.ts) as \<open>JSON.stringify\<close> writes it.\<close>

definition cursorText :: "position \<Rightarrow> ustr" where
  \<open>cursorText p =
     js ''{"v":1,"occurredAt":'' @ int_text (pos_occurredAt p) @ js '',"createdAt":'' @ int_text (pos_createdAt p)
       @ js '',"id":'' @ json_quote (pos_id p) @ js ''}''\<close>

definition cursorPayload :: "position \<Rightarrow> jval" where
  "cursorPayload p = JObj [(js ''v'', JInt 1), (js ''occurredAt'', JInt (pos_occurredAt p)),
     (js ''createdAt'', JInt (pos_createdAt p)), (js ''id'', JStr (pos_id p))]"

definition tx_position :: "tx \<Rightarrow> position" where
  "tx_position t = \<lparr>pos_occurredAt = tx_occurredAt t, pos_createdAt = tx_createdAt t, pos_id = tx_id t\<rparr>"

definition encodeCursor :: "tx \<Rightarrow> ustr" where
  "encodeCursor t = b64_encode (utf8_encode (cursorText (tx_position t)))"

definition invalidCursor :: "position res" where
  "invalidCursor = Inl (ledgerValidationError ''cursor'')"

definition cursorFromPayload :: "runtime \<Rightarrow> jobj \<Rightarrow> position res" where
  "cursorFromPayload rt payload =
     (if length payload \<noteq> 4 \<or> join_comma (sort (map fst payload)) \<noteq> js ''createdAt,id,occurredAt,v''
      then invalidCursor
      else if jget payload ''v'' \<noteq> JInt 1 then invalidCursor
      else case (jget payload ''id'', jget payload ''occurredAt'', jget payload ''createdAt'') of
        (JStr i, JInt occurred, JInt created) \<Rightarrow>
          if length i = 0 \<or> \<not> is_safe occurred \<or> \<not> is_safe created then invalidCursor
          else (case bindR (assertUtcMilliseconds rt (JInt occurred) ''cursor.occurredAt'') (\<lambda>at.
                     bindR (assertUtcMilliseconds rt (JInt created) ''cursor.createdAt'') (\<lambda>made.
                     Inr \<lparr>pos_occurredAt = at, pos_createdAt = made, pos_id = i\<rparr>)) of
                  Inl _ \<Rightarrow> invalidCursor
                | Inr p \<Rightarrow> Inr p)
      | _ \<Rightarrow> invalidCursor)"

definition parseLedgerTransactionCursor :: "runtime \<Rightarrow> jval \<Rightarrow> position res" where
  "parseLedgerTransactionCursor rt v =
     (case v of
        JStr s \<Rightarrow>
          if length s = 0 \<or> \<not> list_all is_b64 s then invalidCursor
          else let bytes = b64_decode s in
            if length bytes = 0 \<or> b64_encode bytes \<noteq> s then invalidCursor
            else (case text_decode bytes of
                    None \<Rightarrow> invalidCursor
                  | Some t \<Rightarrow>
                      (case rt_json_parse rt t of
                         Some (JObj payload) \<Rightarrow> cursorFromPayload rt payload
                       | _ \<Rightarrow> invalidCursor))
      | _ \<Rightarrow> invalidCursor)"

section \<open>The query record\<close>

record tx_query =
  lq_type :: "filter_type option"
  lq_accountId :: "ustr option"
  lq_categoryId :: "ustr option"
  lq_groupId :: "ustr option"
  lq_from :: "int option"
  lq_to :: "int option"
  lq_search :: "ustr option"
  lq_includeDeleted :: "bool option"
  lq_limit :: "int option"
  lq_cursor :: "ustr option"
  lq_offset :: "int option"
  lq_sortBy :: "sort_by option"
  lq_sortDirection :: "sort_direction option"

definition parseQueryCursor :: "runtime \<Rightarrow> jobj \<Rightarrow> ustr option res" where
  "parseQueryCursor rt r =
     (if \<not> hasOwn r ''cursor'' then Inr None
      else bindR (parseLedgerTransactionCursor rt (jget r ''cursor'')) (\<lambda>_.
        case jget r ''cursor'' of
          JStr s \<Rightarrow> Inr (Some s)
        | _ \<Rightarrow> Inl (ledgerValidationError ''cursor'')))"

definition parseTransactionQuery :: "runtime \<Rightarrow> jobj \<Rightarrow> tx_query res" where
  "parseTransactionQuery rt r =
     bindR (assertExactKeys r
       [''type'', ''accountId'', ''categoryId'', ''from'', ''to'', ''search'', ''groupId'',
        ''includeDeleted'', ''limit'', ''cursor'', ''offset'', ''sortBy'', ''sortDirection''] []) (\<lambda>_.
     bindR (parseUtcQueryValue rt (jget r ''from'') ''from'') (\<lambda>from_ms.
     bindR (parseUtcQueryValue rt (jget r ''to'') ''to'') (\<lambda>to_ms.
     if (case (from_ms, to_ms) of (Some f, Some t) \<Rightarrow> f \<ge> t | _ \<Rightarrow> False)
     then Inl (ledgerValidationError ''from'')
     else
       bindR (parseQueryCursor rt r) (\<lambda>cursor.
       bindR (parseQueryOffset r) (\<lambda>offset.
       bindR (parseTransactionSortBy (jget r ''sortBy'')) (\<lambda>sortBy.
       bindR (parseTransactionSortDirection (jget r ''sortDirection'')) (\<lambda>sortDirection.
       if cursor \<noteq> None \<and> offset \<noteq> None then Inl (ledgerValidationError ''offset'')
       else if cursor \<noteq> None \<and> (sortBy = Some SortAmount \<or> sortDirection = Some Asc)
       then Inl (ledgerValidationError ''cursor'')
       else
         bindR (parseTransactionTypeFilter (jget r ''type'')) (\<lambda>ty.
         bindR (parseQueryId r ''accountId'') (\<lambda>acct.
         bindR (parseQueryId r ''categoryId'') (\<lambda>cat.
         bindR (parseQueryId r ''groupId'') (\<lambda>grp.
         bindR (parseQuerySearch r) (\<lambda>search.
         bindR (parseBooleanQuery (jget r ''includeDeleted'') ''includeDeleted'' False) (\<lambda>deleted.
         bindR (parseLimit (jget r ''limit'')) (\<lambda>limit.
         Inr \<lparr>lq_type = Some ty, lq_accountId = acct, lq_categoryId = cat, lq_groupId = grp,
              lq_from = from_ms, lq_to = to_ms, lq_search = search, lq_includeDeleted = Some deleted,
              lq_limit = Some limit, lq_cursor = cursor, lq_offset = offset,
              lq_sortBy = sortBy, lq_sortDirection = sortDirection\<rparr>))))))))))))))"

section \<open>What the cursor carries\<close>

lemma code_points_plain: "\<not> (55296 \<le> c \<and> c \<le> 56319) \<Longrightarrow> code_points (c # r) = c # code_points r"
  by (cases r) auto

lemma code_points_append: "list_all (\<lambda>c. c < 128) a \<Longrightarrow> code_points (a @ r) = a @ code_points r"
  by (induction a) (simp_all add: code_points_plain)

lemma scalar_ascii: "list_all (\<lambda>c. c < 128) a \<Longrightarrow> list_all scalar a"
  by (auto simp: list_all_iff scalar_def surrogate_def)

lemma scalar_prefix:
  "list_all (\<lambda>c. c < 128) a \<Longrightarrow> list_all scalar (code_points (a @ r)) \<longleftrightarrow> list_all scalar (code_points r)"
  by (simp add: code_points_append scalar_ascii)

lemma unicode_escape_ascii: "list_all (\<lambda>c. c < 128) (unicode_escape c)"
proof -
  have "hex_digit (n mod 16) < 128" for n
    using mod_less_divisor [of 16 n] by (simp add: hex_digit_def del: mod_less_divisor)
  then show ?thesis by (simp add: unicode_escape_def)
qed

lemma scalar_json_unit:
  assumes "c < 65536" "list_all scalar (code_points r)"
  shows "list_all scalar (code_points (json_unit c @ r))"
  using assms unicode_escape_ascii [of c]
  by (auto simp: json_unit_def code_points_append scalar_ascii code_points_plain scalar_def surrogate_def)

lemma scalar_json_units:
  "list_all (\<lambda>c. c < 65536) s \<Longrightarrow> list_all scalar (code_points r) \<Longrightarrow> list_all scalar (code_points (json_units s @ r))"
proof (induction s rule: json_units.induct)
  case (1 h l s)
  show ?case
  proof (cases "55296 \<le> h \<and> h \<le> 56319 \<and> 56320 \<le> l \<and> l \<le> 57343")
    case True
    then have "65536 + (h - 55296) * 1024 + (l - 56320) \<le> 1114111" by auto
    with 1 True show ?thesis by (simp add: scalar_def surrogate_def)
  next
    case False
    then have eq: "json_units (h # l # s) = json_unit h @ json_units (l # s)" by auto
    from 1 False have "list_all scalar (code_points (json_units (l # s) @ r))" by auto
    with 1 show ?thesis unfolding eq append_assoc by (intro scalar_json_unit) auto
  qed
qed (simp_all add: scalar_json_unit)

lemma int_text_ascii: "list_all (\<lambda>c. c < 128) (int_text n)"
  using int_text_chars [of n] by (auto simp: list_all_iff num_char_def is_digit_def)

lemma json_units_bound: "list_all (\<lambda>c. c < 65536) s \<Longrightarrow> list_all (\<lambda>c. c < 65536) (json_units s)"
proof -
  have "list_all (\<lambda>c. c < 65536) (json_unit c)" if "c < 65536" for c
    using unicode_escape_ascii [of c] that by (auto simp: json_unit_def list_all_iff)
  then show "list_all (\<lambda>c. c < 65536) s \<Longrightarrow> ?thesis"
    by (induction s rule: json_units.induct) auto
qed

lemma cursorText_decodes:
  assumes "units16 (pos_id p)"
  shows "text_decode (utf8_encode (cursorText p)) = Some (cursorText p)"
    and "list_all (\<lambda>b. b < 256) (utf8_encode (cursorText p))"
proof -
  have id: "list_all (\<lambda>c. c < 65536) (pos_id p)" using assms by (simp add: units16_def)
  have tail: "list_all scalar (code_points (json_units (pos_id p) @ [34, 125]))"
    by (rule scalar_json_units [OF id]) (simp add: scalar_def surrogate_def)
  have points: "list_all scalar (code_points (cursorText p))"
    unfolding cursorText_def json_quote_def append_assoc
    using tail by (simp add: scalar_prefix int_text_ascii js_def code_points_plain scalar_def surrogate_def)
  have units: "list_all (\<lambda>c. c < 65536) (cursorText p)"
    using json_units_bound [OF id] int_text_ascii [of "pos_occurredAt p"] int_text_ascii [of "pos_createdAt p"]
    by (auto simp: cursorText_def json_quote_def js_def list_all_iff)
  show "text_decode (utf8_encode (cursorText p)) = Some (cursorText p)"
    by (rule text_decode_utf8 [OF points units]) (simp_all add: cursorText_def js_def)
  show "list_all (\<lambda>b. b < 256) (utf8_encode (cursorText p))" by (rule utf8_encode_bound [OF points])
qed

lemma cursor_decodes:
  assumes "wf_tx rt t" "units16 (tx_id t)"
    and "rt_json_parse rt (cursorText (tx_position t)) = Some (cursorPayload (tx_position t))"
  shows "parseLedgerTransactionCursor rt (JStr (encodeCursor t)) = Inr (tx_position t)"
proof -
  let ?p = "tx_position t"
  have id: "units16 (pos_id ?p)" using assms(2) by (simp add: tx_position_def)
  note decodes = cursorText_decodes [OF id]
  have sextets: "list_all (\<lambda>n. n < 64) (b64_sextets (utf8_encode (cursorText ?p)))"
    using decodes(2) by (rule b64_sextets_bound)
  have bytes: "b64_decode (encodeCursor t) = utf8_encode (cursorText ?p)"
    unfolding encodeCursor_def using decodes(2) by (rule b64_roundtrip)
  have nonempty: "utf8_encode (cursorText ?p) \<noteq> []" using decodes(1) by (auto simp: text_decode_def cursorText_def js_def)
  then have ne: "encodeCursor t \<noteq> []" using bytes by (auto simp: b64_decode_def)
  have chars: "list_all is_b64 (encodeCursor t)"
    using sextets by (simp add: encodeCursor_def b64_encode_def list_all_iff is_b64_char)
  have stamps: "assertUtcMilliseconds rt (JInt (tx_occurredAt t)) f = Inr (tx_occurredAt t)"
     "assertUtcMilliseconds rt (JInt (tx_createdAt t)) f = Inr (tx_createdAt t)" for f
    using assms(1) by (simp_all add: wf_tx_def wf_tx_base_def utc_ok_def)
  have safe: "is_safe (tx_occurredAt t)" "is_safe (tx_createdAt t)"
    using assms(1) by (simp_all add: wf_tx_def wf_tx_base_def utc_ok_def)
  have payload: "cursorFromPayload rt [(js ''v'', JInt 1), (js ''occurredAt'', JInt (pos_occurredAt ?p)),
     (js ''createdAt'', JInt (pos_createdAt ?p)), (js ''id'', JStr (pos_id ?p))] = Inr ?p"
    using assms(1) stamps safe by (simp add: cursorFromPayload_def jget_def tx_position_def wf_tx_def wf_tx_base_def js_def del: assertUtcMilliseconds_Inr)
  show ?thesis
    using ne chars nonempty assms(3) payload
    by (simp add: parseLedgerTransactionCursor_def bytes decodes(1) cursorPayload_def Let_def)
      (simp add: encodeCursor_def)
qed

text \<open>
  Property C25. A cursor gives back the position it was made from: decoding \<open>encodeCursor t\<close> yields
  the instants and the identifier of \<open>t\<close>, whatever characters the identifier has, provided
  \<open>JSON.parse\<close> reads the payload that \<open>JSON.stringify\<close> wrote.
\<close>

theorem cursor_roundtrip:
  assumes "wf_tx rt t" "units16 (tx_id t)"
    and "rt_json_parse rt (cursorText (tx_position t)) = Some (cursorPayload (tx_position t))"
  shows "parseLedgerTransactionCursor rt (JStr (encodeCursor t)) = Inr (tx_position t)"
  using assms by (rule cursor_decodes)

definition cursor_runtime :: "tx \<Rightarrow> runtime" where
  "cursor_runtime t = demo_runtime\<lparr>rt_json_parse := (\<lambda>s. if s = cursorText (tx_position t)
     then Some (cursorPayload (tx_position t)) else None)\<rparr>"

lemma demo_expense_position: "tx_id demo_expense = js ''t1''"
  by (simp add: demo_expense_def demo_base_def)

theorem cursor_roundtrip_witness:
  "parseLedgerTransactionCursor (cursor_runtime demo_expense) (JStr (encodeCursor demo_expense))
    = Inr (tx_position demo_expense)"
proof (rule cursor_roundtrip)
  show "wf_tx (cursor_runtime demo_expense) demo_expense"
    using wf_demo_expense by (simp add: wf_tx_def wf_tx_base_def utc_ok_def opt_utc_ok_def cursor_runtime_def demo_runtime_def)
  show "units16 (tx_id demo_expense)" by (simp add: units16_def demo_expense_position js_def)
qed (simp add: cursor_runtime_def)

section \<open>What a parsed query promises\<close>

definition query_consistent :: "runtime \<Rightarrow> tx_query \<Rightarrow> bool" where
  "query_consistent rt q \<longleftrightarrow>
     (\<exists>n. lq_limit q = Some n \<and> 1 \<le> n \<and> n \<le> 200)
   \<and> (case lq_offset q of None \<Rightarrow> True | Some k \<Rightarrow> is_safe k \<and> 0 \<le> k)
   \<and> (case (lq_from q, lq_to q) of (Some f, Some t) \<Rightarrow> f < t | _ \<Rightarrow> True)
   \<and> (case lq_cursor q of None \<Rightarrow> True
      | Some c \<Rightarrow> lq_offset q = None \<and> lq_sortBy q \<noteq> Some SortAmount \<and> lq_sortDirection q \<noteq> Some Asc
          \<and> (\<exists>p. parseLedgerTransactionCursor rt (JStr c) = Inr p \<and> pos_id p \<noteq> [] \<and> utc_ok rt (pos_occurredAt p)
              \<and> utc_ok rt (pos_createdAt p)))
   \<and> (case lq_search q of None \<Rightarrow> True | Some s \<Rightarrow> s \<noteq> [] \<and> js_trim s = s)
   \<and> list_all (\<lambda>i. i \<noteq> Some []) [lq_accountId q, lq_categoryId q, lq_groupId q]"

lemma parsed_cursor:
  assumes "parseLedgerTransactionCursor rt v = Inr p"
  shows "pos_id p \<noteq> [] \<and> utc_ok rt (pos_occurredAt p) \<and> utc_ok rt (pos_createdAt p)"
  using assms
  by (auto simp: parseLedgerTransactionCursor_def cursorFromPayload_def invalidCursor_def Let_def bindR_eq_Inr
      utc_ok_def split: jval.splits if_splits option.splits sum.splits)

lemma parsed_offset: "parseQueryOffset r = Inr (Some n) \<Longrightarrow> is_safe n \<and> 0 \<le> n"
  by (auto simp: parseQueryOffset_def Let_def split: if_splits option.splits)

lemma parsed_limit: "parseLimit v = Inr n \<Longrightarrow> 1 \<le> n \<and> n \<le> 200"
  by (auto simp: parseLimit_def Let_def split: if_splits option.splits)

lemma parsed_id: "parseQueryId r k \<noteq> Inr (Some [])"
  by (auto simp: parseQueryId_def split: jval.splits)

lemma parsed_search: "parseQuerySearch r = Inr (Some s) \<Longrightarrow> s \<noteq> [] \<and> js_trim s = s"
  by (auto simp: parseQuerySearch_def split: if_splits jval.splits)

lemma parsed_query_cursor:
  "parseQueryCursor rt r = Inr (Some c) \<Longrightarrow> \<exists>p. parseLedgerTransactionCursor rt (JStr c) = Inr p"
  by (auto simp: parseQueryCursor_def bindR_eq_Inr split: if_splits jval.splits)

text \<open>
  A transaction query that the parser accepts is consistent: the limit is between 1 and
  200, the offset a non-negative safe integer, the interval non-empty, the identifiers and the search
  text non-empty and the search text trimmed; and a cursor decodes to a position with instants in
  range, excludes an offset and comes only with the default newest-first order.
\<close>

lemma parsed_query_is_consistent:
  assumes "parseTransactionQuery rt r = Inr q"
  shows "query_consistent rt q"
proof -
  from assms obtain f t cursor offset sb sd ty acct cat grp search del limit
    where p: "\<not> (case (f, t) of (Some a, Some b) \<Rightarrow> a \<ge> b | _ \<Rightarrow> False)" "parseQueryCursor rt r = Inr cursor"
      "parseQueryOffset r = Inr offset" "\<not> (cursor \<noteq> None \<and> offset \<noteq> None)"
      "\<not> (cursor \<noteq> None \<and> (sb = Some SortAmount \<or> sd = Some Asc))"
      "parseQueryId r ''accountId'' = Inr acct" "parseQueryId r ''categoryId'' = Inr cat"
      "parseQueryId r ''groupId'' = Inr grp" "parseQuerySearch r = Inr search" "parseLimit (jget r ''limit'') = Inr limit"
    and q: "q = \<lparr>lq_type = Some ty, lq_accountId = acct, lq_categoryId = cat, lq_groupId = grp,
              lq_from = f, lq_to = t, lq_search = search, lq_includeDeleted = Some del,
              lq_limit = Some limit, lq_cursor = cursor, lq_offset = offset,
              lq_sortBy = sb, lq_sortDirection = sd\<rparr>"
    unfolding parseTransactionQuery_def bindR_eq_Inr guard_Inr by blast
  have ids: "acct \<noteq> Some []" "cat \<noteq> Some []" "grp \<noteq> Some []" using p(6-8) parsed_id by metis+
  have off: "case offset of None \<Rightarrow> True | Some k \<Rightarrow> is_safe k \<and> 0 \<le> k" using parsed_offset [of r] p(3) by (cases offset) auto
  have search: "case search of None \<Rightarrow> True | Some s \<Rightarrow> s \<noteq> [] \<and> js_trim s = s"
    using parsed_search [of r] p(9) by (cases search) auto
  have cur: "\<exists>x. parseLedgerTransactionCursor rt (JStr c) = Inr x \<and> pos_id x \<noteq> [] \<and> utc_ok rt (pos_occurredAt x)
      \<and> utc_ok rt (pos_createdAt x)" if "cursor = Some c" for c
    using parsed_query_cursor [of rt r c] parsed_cursor p(2) that by metis
  have range: "case (f, t) of (Some a, Some b) \<Rightarrow> a < b | _ \<Rightarrow> True" using p(1) by (auto split: option.splits)
  show ?thesis
    unfolding query_consistent_def q using ids off search range parsed_limit [OF p(10)] p(4,5) cur
    by (cases cursor) auto
qed

end
