(* ===== verification/LedgerProjections.thy ===== *)
theory LedgerProjections
  imports LedgerQuery LedgerRefinement
begin

text \<open>
  The read models of server/ledger/projections.ts: transaction pages with their keyset cursor, the
  transactions of an account with running balances, the balance trend, the overview and the monthly
  trend. The results are records; the \<open>...Json\<close> functions print them as the response objects of the
  source. \<open>dep_now d 0\<close> is the clock reading of the request.
\<close>

named_theorems projection_defs \<open>operations of the read models\<close>

section \<open>Response objects\<close>

definition transactionDtoBody :: "tx_base \<Rightarrow> bool \<Rightarrow> jobj \<Rightarrow> jval" where
  "transactionDtoBody b excluded rest = JObj
     ([(js ''id'', JStr (t_id b))]
      @ (case t_groupId b of Some g \<Rightarrow> if g = [] then [] else [(js ''groupId'', JStr g)] | None \<Rightarrow> [])
      @ [(js ''excludedFromStatistics'', JBool excluded), (js ''amountMinor'', JInt (t_amountMinor b)),
         (js ''occurredAt'', JInt (t_occurredAt b)), (js ''location'', JStr (t_location b)),
         (js ''note'', JStr (t_note b)),
         (js ''deletedAt'', case t_deletedAt b of None \<Rightarrow> JNull | Some t \<Rightarrow> JInt t),
         (js ''version'', JInt (t_version b)), (js ''createdAt'', JInt (t_createdAt b)),
         (js ''updatedAt'', JInt (t_updatedAt b))]
      @ rest)"

definition transactionDto :: "tx \<Rightarrow> bool \<Rightarrow> jval" where
  "transactionDto t excluded =
     (case t of
        IncomeTx b acct cat payee \<Rightarrow> transactionDtoBody b excluded
          [(js ''type'', JStr (js ''income'')), (js ''accountId'', JStr acct),
           (js ''categoryId'', JStr cat), (js ''payee'', JStr payee)]
      | ExpenseTx b acct cat payee \<Rightarrow> transactionDtoBody b excluded
          [(js ''type'', JStr (js ''expense'')), (js ''accountId'', JStr acct),
           (js ''categoryId'', JStr cat), (js ''payee'', JStr payee)]
      | TransferTx b kind fee src dst payee \<Rightarrow> transactionDtoBody b excluded
          ([(js ''type'', JStr (js ''transfer'')),
            (js ''transferKind'', JStr (enum_text LEDGER_TRANSFER_KINDS kind))]
           @ (case fee of None \<Rightarrow> [] | Some m \<Rightarrow> [(js ''feeMode'', JStr (enum_text LEDGER_TRANSFER_FEE_MODES m))])
           @ [(js ''fromAccountId'', JStr src), (js ''toAccountId'', JStr dst), (js ''payee'', JStr payee)])
      | AdjustmentTx b acct calculated target \<Rightarrow> transactionDtoBody b excluded
          [(js ''type'', JStr (js ''adjustment'')), (js ''accountId'', JStr acct),
           (js ''adjustmentCalculatedBalanceMinor'', JInt calculated),
           (js ''adjustmentTargetBalanceMinor'', JInt target)])"

definition accountDtoEntries :: "runtime \<Rightarrow> account \<Rightarrow> int \<Rightarrow> jobj res" where
  "accountDtoEntries rt a currentBalanceMinor =
     bindR (currencyExponentFor rt (JStr (a_currency a))) (\<lambda>e.
     Inr ([(js ''id'', JStr (a_id a)), (js ''name'', JStr (a_name a)),
           (js ''type'', JStr (enum_text LEDGER_ACCOUNT_TYPES (a_type a))),
           (js ''nature'', JStr (enum_text LEDGER_ACCOUNT_NATURES (a_nature a)))]
        @ (case a_icon a of Some i \<Rightarrow> if i = [] \<or> i = js ''wallet'' then [] else [(js ''icon'', JStr i)] | None \<Rightarrow> [])
        @ [(js ''openingBalanceMinor'', JInt (a_openingBalanceMinor a)),
           (js ''openingDate'', JStr (a_openingDate a)), (js ''currency'', JStr (a_currency a)),
           (js ''currencyExponent'', JInt (int e)), (js ''note'', JStr (a_note a))]
        @ (case a_cardNumber a of Some n \<Rightarrow> if n = [] then [] else [(js ''cardNumber'', JStr n)] | None \<Rightarrow> [])
        @ [(js ''archivedAt'', case a_archivedAt a of None \<Rightarrow> JNull | Some t \<Rightarrow> JInt t),
           (js ''version'', JInt (a_version a)), (js ''createdAt'', JInt (a_createdAt a)),
           (js ''updatedAt'', JInt (a_updatedAt a)), (js ''currentBalanceMinor'', JInt currentBalanceMinor)]))"

definition accountDto :: "runtime \<Rightarrow> account \<Rightarrow> int \<Rightarrow> jval res" where
  "accountDto rt a balance = bindR (accountDtoEntries rt a balance) (\<lambda>es. Inr (JObj es))"

section \<open>Cash flow\<close>

definition isWithinRange :: "int \<Rightarrow> 'a time_range_scheme \<Rightarrow> bool" where
  "isWithinRange v r \<longleftrightarrow> startMs r \<le> v \<and> v < endMs r"

definition exclusiveInstant :: "runtime \<Rightarrow> int \<Rightarrow> int res" where
  "exclusiveInstant rt instantMs = assertUtcMilliseconds rt (JInt (instantMs + 1)) ''projection now exclusive''"

record cashflow =
  cf_incomeMinor :: int
  cf_expenseMinor :: int
  cf_repaymentMinor :: int
  cf_balanceMinor :: int

primrec cashflowLoop :: "int \<times> int \<times> int \<Rightarrow> tx list \<Rightarrow> (int \<times> int \<times> int) res" where
  "cashflowLoop acc [] = Inr acc"
| "cashflowLoop acc (t # ts) =
     (case acc of (inc, ex, rep) \<Rightarrow>
     case t of
       IncomeTx b _ _ _ \<Rightarrow>
         bindR (checkedAddMinor inc (t_amountMinor b)) (\<lambda>inc'. cashflowLoop (inc', ex, rep) ts)
     | ExpenseTx b _ _ _ \<Rightarrow>
         bindR (checkedAddMinor ex (t_amountMinor b)) (\<lambda>ex'. cashflowLoop (inc, ex', rep) ts)
     | TransferTx b kind _ _ _ _ \<Rightarrow>
         if kind = Repayment
         then bindR (checkedAddMinor rep (t_amountMinor b)) (\<lambda>rep'. cashflowLoop (inc, ex, rep') ts)
         else cashflowLoop acc ts
     | AdjustmentTx _ _ _ _ \<Rightarrow> cashflowLoop acc ts)"

definition cashflowForTransactions :: "tx list \<Rightarrow> cashflow res" where
  "cashflowForTransactions ts =
     bindR (cashflowLoop (0, 0, 0) ts) (\<lambda>(inc, ex, rep).
     bindR (checkedSubMinor inc ex) (\<lambda>balance.
     Inr \<lparr>cf_incomeMinor = inc, cf_expenseMinor = ex, cf_repaymentMinor = rep, cf_balanceMinor = balance\<rparr>))"

definition cashflowEntries :: "cashflow \<Rightarrow> jobj" where
  "cashflowEntries c =
     [(js ''incomeMinor'', JInt (cf_incomeMinor c)), (js ''expenseMinor'', JInt (cf_expenseMinor c)),
      (js ''repaymentMinor'', JInt (cf_repaymentMinor c)), (js ''balanceMinor'', JInt (cf_balanceMinor c))]"

definition statisticsTransactions :: "tx list \<Rightarrow> ustr set \<Rightarrow> tx list" where
  "statisticsTransactions ts excludedIds =
     filter (\<lambda>t. \<not> (tx_id t \<in> excludedIds \<and> ledgerTransactionContributesToStatistics t)) ts"

section \<open>Category breakdown\<close>

record category_slice =
  sl_categoryId :: ustr
  sl_name :: ustr
  sl_kind :: category_kind
  sl_amountMinor :: int

text \<open>A JavaScript \<open>Map\<close> from identifiers to amounts is the list of its entries in insertion order.\<close>

primrec map_put :: "ustr \<Rightarrow> int \<Rightarrow> (ustr \<times> int) list \<Rightarrow> (ustr \<times> int) list" where
  "map_put k v [] = [(k, v)]"
| "map_put k v (p # ps) = (if fst p = k then (k, v) # ps else p # map_put k v ps)"

definition addToGroup ::
  "(ustr \<Rightarrow> category option) \<Rightarrow> category_kind \<Rightarrow> ustr \<Rightarrow> int \<Rightarrow> (ustr \<times> int) list \<Rightarrow> (ustr \<times> int) list res" where
  "addToGroup categories kind categoryId amount grp =
     (case categories categoryId of
        None \<Rightarrow> Inl PlainErr
      | Some c \<Rightarrow>
          if c_kind c \<noteq> kind then Inl PlainErr
          else bindR (checkedAddMinor (case map_of grp categoryId of None \<Rightarrow> 0 | Some n \<Rightarrow> n) amount) (\<lambda>total.
            Inr (map_put categoryId total grp)))"

primrec groupByCategory ::
  "(ustr \<Rightarrow> category option) \<Rightarrow> (ustr \<times> int) list \<times> (ustr \<times> int) list \<Rightarrow> tx list
    \<Rightarrow> ((ustr \<times> int) list \<times> (ustr \<times> int) list) res" where
  "groupByCategory categories groups [] = Inr groups"
| "groupByCategory categories groups (t # ts) =
     (case groups of (inc, ex) \<Rightarrow>
     case t of
       IncomeTx b _ cat _ \<Rightarrow>
         bindR (addToGroup categories IncomeKind cat (t_amountMinor b) inc) (\<lambda>inc'.
         groupByCategory categories (inc', ex) ts)
     | ExpenseTx b _ cat _ \<Rightarrow>
         bindR (addToGroup categories ExpenseKind cat (t_amountMinor b) ex) (\<lambda>ex'.
         groupByCategory categories (inc, ex') ts)
     | _ \<Rightarrow> groupByCategory categories groups ts)"

definition slice_le :: "category_slice \<Rightarrow> category_slice \<Rightarrow> bool" where
  "slice_le l r \<longleftrightarrow> sl_amountMinor l > sl_amountMinor r
     \<or> (sl_amountMinor l = sl_amountMinor r \<and> sl_categoryId l \<le> sl_categoryId r)"

definition toSlices :: "(ustr \<Rightarrow> category option) \<Rightarrow> (ustr \<times> int) list \<Rightarrow> category_slice list res" where
  "toSlices categories grp =
     bindR (mapR (\<lambda>(i, amount).
        case categories i of
          None \<Rightarrow> Inl PlainErr
        | Some c \<Rightarrow> Inr \<lparr>sl_categoryId = i, sl_name = c_name c, sl_kind = c_kind c, sl_amountMinor = amount\<rparr>) grp)
       (\<lambda>slices. Inr (order_by slice_le slices))"

definition categorySlicesForTransactions ::
  "tx list \<Rightarrow> (ustr \<Rightarrow> category option) \<Rightarrow> (category_slice list \<times> category_slice list) res" where
  "categorySlicesForTransactions ts categories =
     bindR (groupByCategory categories ([], []) ts) (\<lambda>(inc, ex).
     bindR (toSlices categories inc) (\<lambda>income.
     bindR (toSlices categories ex) (\<lambda>expense. Inr (income, expense))))"

section \<open>Movement and balance trend\<close>

record movement =
  balanceIncreaseMinor :: int
  balanceDecreaseMinor :: int

primrec movementLoop :: "account \<Rightarrow> time_range \<Rightarrow> int \<times> int \<Rightarrow> tx list \<Rightarrow> (int \<times> int) res" where
  "movementLoop a r acc [] = Inr acc"
| "movementLoop a r acc (t # ts) =
     (if tx_type t = TAdjustment \<or> \<not> isWithinRange (tx_occurredAt t) r then movementLoop a r acc ts
      else bindR (transactionEffectForAccount t a) (\<lambda>delta.
        if delta > 0
        then bindR (checkedAddMinor (fst acc) delta) (\<lambda>up. movementLoop a r (up, snd acc) ts)
        else if delta < 0
        then bindR (checkedSubMinor 0 delta) (\<lambda>drop.
             bindR (checkedAddMinor (snd acc) drop) (\<lambda>down. movementLoop a r (fst acc, down) ts))
        else movementLoop a r acc ts))"

definition movementForAccount :: "account \<Rightarrow> tx list \<Rightarrow> time_range \<Rightarrow> movement res" where
  "movementForAccount a ts r =
     bindR (movementLoop a r (0, 0) ts) (\<lambda>(up, down).
     Inr \<lparr>balanceIncreaseMinor = up, balanceDecreaseMinor = down\<rparr>)"

definition movementEntries :: "movement \<Rightarrow> jobj" where
  "movementEntries m =
     [(js ''balanceIncreaseMinor'', JInt (balanceIncreaseMinor m)),
      (js ''balanceDecreaseMinor'', JInt (balanceDecreaseMinor m))]"

record trend_point =
  bp_date :: ustr
  bp_timestamp :: int
  bp_balanceMinor :: int

definition trend_le :: "runtime \<Rightarrow> tx \<Rightarrow> tx \<Rightarrow> bool" where
  "trend_le rt l r \<longleftrightarrow>
     (if tx_occurredAt l \<noteq> tx_occurredAt r then tx_occurredAt l < tx_occurredAt r
      else if tx_createdAt l \<noteq> tx_createdAt r then tx_createdAt l < tx_createdAt r
      else locale_compare rt (tx_id l) (tx_id r) \<le> 0)"

text \<open>The inner loop: the transactions before the cutoff are added to the balance.\<close>

primrec advanceBalance :: "account \<Rightarrow> int \<Rightarrow> int \<Rightarrow> tx list \<Rightarrow> (int \<times> tx list) res" where
  "advanceBalance a cutoff balance [] = Inr (balance, [])"
| "advanceBalance a cutoff balance (t # ts) =
     (if tx_occurredAt t < cutoff
      then bindR (transactionEffectForAccount t a) (\<lambda>e.
           bindR (checkedAddMinor balance e) (\<lambda>balance'. advanceBalance a cutoff balance' ts))
      else Inr (balance, t # ts))"

primrec trendPoints ::
  "runtime \<Rightarrow> account \<Rightarrow> ustr \<Rightarrow> int \<Rightarrow> int \<Rightarrow> int \<times> tx list \<Rightarrow> day_point list \<Rightarrow> trend_point list res" where
  "trendPoints rt a timezone nowMs nowExclusive st [] = Inr []"
| "trendPoints rt a timezone nowMs nowExclusive st (p # ps) =
     bindR (if ps = [] then Inr nowExclusive
            else bindR (localDateRange rt (pointDate p) timezone) (\<lambda>r. Inr (endMs r))) (\<lambda>cutoff.
     bindR (advanceBalance a cutoff (fst st) (snd st)) (\<lambda>st'.
     bindR (trendPoints rt a timezone nowMs nowExclusive st' ps) (\<lambda>rest.
     Inr (\<lparr>bp_date = pointDate p, bp_timestamp = (if ps = [] then nowMs else cutoff),
           bp_balanceMinor = fst st'\<rparr> # rest))))"

definition accountBalanceTrend ::
  "runtime \<Rightarrow> account \<Rightarrow> int \<Rightarrow> tx list \<Rightarrow> day_point list \<Rightarrow> int \<Rightarrow> ustr \<Rightarrow> trend_point list res" where
  "accountBalanceTrend rt a prefixBalanceMinor ts calendarPoints nowMs timezone =
     bindR (exclusiveInstant rt nowMs) (\<lambda>nowExclusive.
     trendPoints rt a timezone nowMs nowExclusive (prefixBalanceMinor, order_by (trend_le rt) ts) calendarPoints)"

section \<open>Periods and months\<close>

definition periodName :: "period_name \<Rightarrow> ustr" where
  "periodName p = js (case p of PToday \<Rightarrow> ''today'' | PWeek \<Rightarrow> ''week'' | PMonth \<Rightarrow> ''month'' | PYear \<Rightarrow> ''year'')"

definition PERIOD_ORDER :: "period_name list" where
  "PERIOD_ORDER = [PToday, PWeek, PMonth, PYear]"

record period_summary = time_range +
  ps_period :: period_name
  ps_cashflow :: cashflow

definition periodSummary :: "period_name \<Rightarrow> time_range \<Rightarrow> tx list \<Rightarrow> period_summary res" where
  "periodSummary p r ts =
     bindR (cashflowForTransactions (filter (\<lambda>t. isWithinRange (tx_occurredAt t) r) ts)) (\<lambda>c.
     Inr \<lparr>startMs = startMs r, endMs = endMs r, ps_period = p, ps_cashflow = c\<rparr>)"

record month_point = month_range +
  mp_cashflow :: cashflow

definition trendForRanges :: "month_range list \<Rightarrow> tx list \<Rightarrow> month_point list res" where
  "trendForRanges ranges ts =
     mapR (\<lambda>r. bindR (cashflowForTransactions (filter (\<lambda>t. isWithinRange (tx_occurredAt t) r) ts)) (\<lambda>c.
       Inr \<lparr>startMs = startMs r, endMs = endMs r, month = month r, mp_cashflow = c\<rparr>)) ranges"

section \<open>Query normalization\<close>

text \<open>
  \<open>TRANSACTION_AMOUNT_SEARCH_RE\<close>: an optional sign, digits, plain or in comma groups of three, and an
  optional fraction; the match is the sign, the integer part and the fraction.
\<close>

primrec split_at :: "nat \<Rightarrow> ustr \<Rightarrow> ustr list" where
  "split_at c [] = [[]]"
| "split_at c (x # xs) =
     (if x = c then [] # split_at c xs
      else case split_at c xs of [] \<Rightarrow> [[x]] | w # ws \<Rightarrow> (x # w) # ws)"

definition groupedDigits :: "ustr \<Rightarrow> bool" where
  "groupedDigits s \<longleftrightarrow>
     (case split_at 44 s of
        [] \<Rightarrow> False
      | w # ws \<Rightarrow> if ws = [] then isDigits w
                  else isDigits w \<and> length w \<le> 3 \<and> list_all (\<lambda>g. isDigits g \<and> length g = 3) ws)"

definition amountSearchMatch :: "ustr \<Rightarrow> (ustr \<times> ustr \<times> ustr option) option" where
  "amountSearchMatch s =
     (let (sign, rest) = (case s of c # cs \<Rightarrow> if c = 43 \<or> c = 45 then ([c], cs) else ([], s) | [] \<Rightarrow> ([], s)) in
      case split_at 46 rest of
        [i] \<Rightarrow> if groupedDigits i then Some (sign, i, None) else None
      | [i, f] \<Rightarrow> if groupedDigits i \<and> isDigits f then Some (sign, i, Some f) else None
      | _ \<Rightarrow> None)"

definition transactionAmountSearchMinor :: "runtime \<Rightarrow> ustr option \<Rightarrow> ustr \<Rightarrow> int option" where
  "transactionAmountSearchMinor rt search currency =
     (case search of
        None \<Rightarrow> None
      | Some s \<Rightarrow>
          (case amountSearchMatch s of
             None \<Rightarrow> None
           | Some (sg, i, frac) \<Rightarrow>
               let integer = filter (\<lambda>c. c \<noteq> 44) i;
                   sign = (if sg = [45] then [45] else []);
                   normalized = sign @ integer @ (case frac of None \<Rightarrow> [] | Some f \<Rightarrow> 46 # f)
               in case parseDecimalToMinor rt normalized currency of
                    Inl _ \<Rightarrow> None
                  | Inr parsed \<Rightarrow> Some (if parsed < 0 then - parsed else parsed)))"

definition normalizeTransactionQuery :: "runtime \<Rightarrow> tx_query \<Rightarrow> ustr \<Rightarrow> query_options res" where
  "normalizeTransactionQuery rt q currency =
     (let limit = (case lq_limit q of None \<Rightarrow> 50 | Some n \<Rightarrow> n) in
      if \<not> is_safe limit \<or> limit < 1 \<or> limit > 200 then Inl (ledgerValidationError ''limit'')
      else
        bindR (case lq_cursor q of
                 None \<Rightarrow> Inr None
               | Some c \<Rightarrow> bindR (parseLedgerTransactionCursor rt (JStr c)) (\<lambda>p. Inr (Some p))) (\<lambda>cursor.
        Inr \<lparr>q_type = case_option FAll id (lq_type q), q_accountId = lq_accountId q,
             q_categoryId = lq_categoryId q, q_groupId = lq_groupId q, q_from = lq_from q, q_to = lq_to q,
             q_search = lq_search q, q_searchAmountMinor = transactionAmountSearchMinor rt (lq_search q) currency,
             q_includeDeleted = case_option False id (lq_includeDeleted q), q_limit = limit,
             q_offset = lq_offset q, q_cursor = cursor,
             q_sortBy = case_option SortOccurredAt id (lq_sortBy q),
             q_sortDirection = case_option Desc id (lq_sortDirection q)\<rparr>))"

section \<open>Transaction pages\<close>

definition captureNow :: "runtime \<Rightarrow> service_deps \<Rightarrow> int res" where
  "captureNow rt d = assertUtcMilliseconds rt (JInt (dep_now d 0)) ''projection now''"

record account_state =
  st_account :: account
  st_transactions :: "tx list"
  st_currentBalanceMinor :: int

definition accountState :: "runtime \<Rightarrow> ledger_db \<Rightarrow> account \<Rightarrow> account_state res" where
  "accountState rt db a =
     bindR (listActiveTransactionsForAccount rt (a_id a) db) (\<lambda>ts.
     bindR (deriveCurrentBalance a ts) (\<lambda>balance.
     Inr \<lparr>st_account = a, st_transactions = ts, st_currentBalanceMinor = balance\<rparr>))"

record tx_page =
  pg_rows :: "tx list"
  pg_nextCursor :: "ustr option"
  pg_summary :: "query_summary option"
  pg_excludedIds :: "ustr set"

definition transactionPage :: "runtime \<Rightarrow> tx_query \<Rightarrow> ustr \<Rightarrow> bool \<Rightarrow> ledger_db \<Rightarrow> tx_page res" where
  "transactionPage rt q currency includeSummary db =
     bindR (normalizeTransactionQuery rt q currency) (\<lambda>opts.
     bindR (queryTransactions rt opts db) (\<lambda>rows.
     let excludedIds = set (listStatisticsExcludedTransactionIds db) in
     bindR (if includeSummary then bindR (summarizeTransactions opts db) (\<lambda>s. Inr (Some s)) else Inr None) (\<lambda>summary.
     let hasNextPage = int (length rows) > q_limit opts;
         returnedRows = (if hasNextPage then take (nat (q_limit opts)) rows else rows);
         supportsCursor = (q_sortBy opts \<noteq> SortAmount \<and> q_sortDirection opts \<noteq> Asc)
     in Inr \<lparr>pg_rows = returnedRows,
             pg_nextCursor = (if supportsCursor \<and> hasNextPage \<and> returnedRows \<noteq> []
                              then Some (encodeCursor (last returnedRows)) else None),
             pg_summary = summary, pg_excludedIds = excludedIds\<rparr>)))"

definition pageInfoJson :: "tx_page \<Rightarrow> jval" where
  "pageInfoJson p = JObj
     ([(js ''nextCursor'', case pg_nextCursor p of None \<Rightarrow> JNull | Some c \<Rightarrow> JStr c)]
      @ (case pg_summary p of
           None \<Rightarrow> []
         | Some s \<Rightarrow>
             [(js ''total'', JInt (qs_total s)), (js ''incomeMinor'', JInt (qs_incomeMinor s)),
              (js ''expenseMinor'', JInt (qs_expenseMinor s)), (js ''repaymentMinor'', JInt (qs_repaymentMinor s)),
              (js ''statisticsExcludedCount'', JInt (qs_statisticsExcludedCount s))]))"

definition isExpense :: "tx \<Rightarrow> bool" where
  "isExpense t \<longleftrightarrow> tx_type t = TExpense"

definition transactionDtoWithBundle :: "runtime \<Rightarrow> ledger_db \<Rightarrow> tx \<Rightarrow> ustr set \<Rightarrow> jval res" where
  "transactionDtoWithBundle rt db t excludedIds =
     (let dto = transactionDto t (tx_id t \<in> excludedIds) in
      if tx_type t \<noteq> TTransfer then Inr dto
      else case tx_groupId t of
        None \<Rightarrow> Inr dto
      | Some g \<Rightarrow>
          bindR (listTransactionsByGroupId rt g False db) (\<lambda>ts.
          bindR (checkedSumMinor (map tx_amountMinor (filter isExpense ts))) (\<lambda>chargeMinor.
          if chargeMinor \<le> 0 then Inr dto
          else bindR (checkedAddMinor (tx_amountMinor t) chargeMinor) (\<lambda>totalMinor.
            case dto of
              JObj es \<Rightarrow> Inr (JObj (es @ [(js ''bundle'', JObj [(js ''chargeMinor'', JInt chargeMinor),
                (js ''totalMinor'', JInt totalMinor)])]))
            | other \<Rightarrow> Inr other))))"

definition listTransactions :: "runtime \<Rightarrow> tx_query \<Rightarrow> ledger_db \<Rightarrow> jval res" where
  "listTransactions rt q db =
     bindR (requireSettings rt db) (\<lambda>s.
     bindR (transactionPage rt q (s_baseCurrency s) True db) (\<lambda>page.
     bindR (mapR (\<lambda>t. transactionDtoWithBundle rt db t (pg_excludedIds page)) (pg_rows page)) (\<lambda>dtos.
     Inr (JObj [(js ''transactions'', JArr dtos), (js ''page'', pageInfoJson page)]))))"

section \<open>Account transactions\<close>

record account_page =
  ap_account :: account
  ap_accountDto :: jval
  ap_currentBalanceMinor :: int
  ap_hasHistory :: bool
  ap_movement :: movement
  ap_balances :: "(ustr \<times> int) list"
  ap_page :: tx_page

definition rowBalances :: "(ustr \<times> int) list \<Rightarrow> tx list \<Rightarrow> (ustr \<times> int) list res" where
  "rowBalances balances rows =
     mapR (\<lambda>t. case map_of balances (tx_id t) of None \<Rightarrow> Inl PlainErr | Some b \<Rightarrow> Inr (tx_id t, b)) rows"

definition accountPage :: "runtime \<Rightarrow> service_deps \<Rightarrow> ustr \<Rightarrow> tx_query \<Rightarrow> ledger_db \<Rightarrow> account_page res" where
  "accountPage rt d accountId q db =
     bindR (requireSettings rt db) (\<lambda>s.
     bindR (requireAccount rt accountId db) (\<lambda>a.
     bindR (captureNow rt d) (\<lambda>nowMs.
     bindR (exclusiveInstant rt nowMs) (\<lambda>nowExclusive.
     bindR (getAccountBalanceBefore a nowExclusive db) (\<lambda>currentBalance.
     bindR (transactionPage rt (q\<lparr>lq_accountId := Some accountId\<rparr>) (s_baseCurrency s) False db) (\<lambda>page.
     bindR (getAccountBalancesAtPositions a (map tx_position (pg_rows page)) db) (\<lambda>balances.
     bindR (periodRange rt PMonth nowMs (s_timezone s)) (\<lambda>movementRange.
     bindR (listActiveTransactionsForAccountInRange rt (a_id a) (startMs movementRange) (endMs movementRange) db)
       (\<lambda>movementTransactions.
     bindR (accountDto rt a currentBalance) (\<lambda>dto.
     bindR (movementForAccount a movementTransactions movementRange) (\<lambda>mv.
     bindR (rowBalances balances (pg_rows page)) (\<lambda>rows.
     Inr \<lparr>ap_account = a, ap_accountDto = dto, ap_currentBalanceMinor = currentBalance, ap_hasHistory = hasAccountHistory (a_id a) db,
          ap_movement = mv, ap_balances = rows, ap_page = page\<rparr>))))))))))))"

definition getAccountTransactions :: "runtime \<Rightarrow> service_deps \<Rightarrow> ustr \<Rightarrow> tx_query \<Rightarrow> ledger_db \<Rightarrow> jval res" where
  "getAccountTransactions rt d accountId q db =
     bindR (accountPage rt d accountId q db) (\<lambda>p.
     bindR (mapR (\<lambda>t. transactionDtoWithBundle rt db t (pg_excludedIds (ap_page p))) (pg_rows (ap_page p))) (\<lambda>dtos.
     Inr (JObj [(js ''account'', ap_accountDto p), (js ''hasHistory'', JBool (ap_hasHistory p)),
       (js ''movement'', JObj (movementEntries (ap_movement p))),
       (js ''transactionBalances'', JArr (map (\<lambda>(i, b).
          JObj [(js ''transactionId'', JStr i), (js ''balanceMinor'', JInt b)]) (ap_balances p))),
       (js ''transactions'', JArr dtos), (js ''page'', pageInfoJson (ap_page p))])))"

section \<open>Account balance trend\<close>

definition getAccountBalanceTrend ::
  "runtime \<Rightarrow> service_deps \<Rightarrow> ustr \<Rightarrow> int \<Rightarrow> ledger_db \<Rightarrow> trend_point list res" where
  "getAccountBalanceTrend rt d accountId days db =
     bindR (requireSettings rt db) (\<lambda>s.
     bindR (requireAccount rt accountId db) (\<lambda>a.
     bindR (captureNow rt d) (\<lambda>nowMs.
     bindR (exclusiveInstant rt nowMs) (\<lambda>nowExclusive.
     let pointCount = (if days \<le> 30 then days else 12) in
     bindR (calendarDayPointsForInstant rt days pointCount nowMs (s_timezone s)) (\<lambda>calendarPoints.
     case calendarPoints of
       [] \<Rightarrow> Inl TypeErr
     | p # _ \<Rightarrow>
         bindR (listActiveTransactionsForAccountInRange rt (a_id a) (pointStartMs p) nowExclusive db) (\<lambda>ts.
         bindR (getAccountBalanceBefore a (pointStartMs p) db) (\<lambda>prefix_balance.
         accountBalanceTrend rt a prefix_balance ts calendarPoints nowMs (s_timezone s))))))))"

definition balanceTrendJson :: "int \<Rightarrow> trend_point list \<Rightarrow> jval" where
  "balanceTrendJson days ps = JObj
     [(js ''range'', JInt days),
      (js ''points'', JArr (map (\<lambda>p. JObj [(js ''date'', JStr (bp_date p)),
         (js ''timestamp'', JInt (bp_timestamp p)), (js ''balanceMinor'', JInt (bp_balanceMinor p))]) ps))]"

section \<open>Overview\<close>

definition resolveAnchorDate :: "runtime \<Rightarrow> ustr option \<Rightarrow> ustr \<Rightarrow> ustr res" where
  "resolveAnchorDate rt anchorDate todayDate =
     bindR (case anchorDate of
              None \<Rightarrow> Inr todayDate
            | Some t \<Rightarrow> parseLedgerLocalDate rt (JStr t) ''anchorDate'') (\<lambda>resolved.
     if todayDate < resolved then Inl (ledgerValidationError ''anchorDate'') else Inr resolved)"

definition periodOf :: "period_ranges \<Rightarrow> period_name \<Rightarrow> time_range" where
  "periodOf r p = (case p of PToday \<Rightarrow> todayR r | PWeek \<Rightarrow> weekR r | PMonth \<Rightarrow> monthR r | PYear \<Rightarrow> yearR r)"

record overview =
  ov_anchorDate :: ustr
  ov_todayDate :: ustr
  ov_scope :: overview_scope
  ov_currency :: ustr
  ov_currencyExponent :: nat
  ov_assetTotalMinor :: int
  ov_liabilityTotalMinor :: int
  ov_netWorthMinor :: int
  ov_accounts :: "jval list"
  ov_cashflow :: cashflow
  ov_income :: "category_slice list"
  ov_expense :: "category_slice list"
  ov_periods :: "period_summary list"
  ov_trend :: "month_point list"
  ov_recent :: "jval list"

definition natureTotal :: "account_nature \<Rightarrow> account_state list \<Rightarrow> int res" where
  "natureTotal nature states =
     checkedSumMinor (map st_currentBalanceMinor (filter (\<lambda>s. a_nature (st_account s) = nature) states))"

definition accountSummary :: "runtime \<Rightarrow> time_range \<Rightarrow> account_state \<Rightarrow> jval res" where
  "accountSummary rt m s =
     bindR (accountDtoEntries rt (st_account s) (st_currentBalanceMinor s)) (\<lambda>es.
     bindR (movementForAccount (st_account s) (st_transactions s) m) (\<lambda>mv.
     Inr (JObj (es @ movementEntries mv))))"

definition getOverview :: "runtime \<Rightarrow> service_deps \<Rightarrow> overview_scope \<Rightarrow> ustr option \<Rightarrow> ledger_db \<Rightarrow> overview res" where
  "getOverview rt d scope anchorDate db =
     bindR (requireSettings rt db) (\<lambda>s.
     bindR (captureNow rt d) (\<lambda>nowMs.
     bindR (ledgerLocalDateForInstant rt nowMs (s_timezone s)) (\<lambda>todayDate.
     bindR (resolveAnchorDate rt anchorDate todayDate) (\<lambda>resolved.
     bindR (periodRangesForLocalDate rt resolved (s_timezone s)) (\<lambda>fixedPeriods.
     bindR (calendarMonthRangesForLocalDate rt 12 resolved (s_timezone s)) (\<lambda>trendRanges.
     bindR (listAccounts rt True db) (\<lambda>allAccounts.
     bindR (mapR (accountState rt db) allAccounts) (\<lambda>accountStates.
     let activeAccounts = filter (\<lambda>st. a_archivedAt (st_account st) = None) accountStates in
     bindR (listCategories rt True db) (\<lambda>categoryList.
     let categories = map_of (rev (map (\<lambda>c. (c_id c, c)) categoryList));
         fixed = map (periodOf fixedPeriods) PERIOD_ORDER;
         periodWindowStart = Min (set (startMs (hd trendRanges) # map startMs fixed));
         periodWindowEnd = Max (set (endMs (last trendRanges) # map endMs fixed)) in
     bindR (listActiveTransactionsInRange rt (Some periodWindowStart) periodWindowEnd db) (\<lambda>periodTransactions.
     bindR (case scope of
              ScopeAll \<Rightarrow> listActiveTransactionsInRange rt None (endMs (todayR fixedPeriods)) db
            | ScopePeriod p \<Rightarrow> Inr (filter (\<lambda>t. isWithinRange (tx_occurredAt t) (periodOf fixedPeriods p))
                periodTransactions)) (\<lambda>scopedTransactions.
     let excludedIds = set (listStatisticsExcludedTransactionIds db) in
     bindR (natureTotal Asset accountStates) (\<lambda>assetTotal.
     bindR (natureTotal Liability accountStates) (\<lambda>liabilityTotal.
     let analyticsPeriodTransactions = statisticsTransactions periodTransactions excludedIds;
         analyticsScopedTransactions = statisticsTransactions scopedTransactions excludedIds in
     bindR (periodRange rt PMonth nowMs (s_timezone s)) (\<lambda>currentMonth.
     bindR (mapR (accountSummary rt currentMonth) activeAccounts) (\<lambda>accounts.
     bindR (currencyExponentFor rt (JStr (s_baseCurrency s))) (\<lambda>expo.
     bindR (checkedSubMinor assetTotal liabilityTotal) (\<lambda>netWorth.
     bindR (cashflowForTransactions analyticsScopedTransactions) (\<lambda>flow.
     bindR (categorySlicesForTransactions analyticsScopedTransactions categories) (\<lambda>(income, expense).
     bindR (mapR (\<lambda>p. periodSummary p (periodOf fixedPeriods p) analyticsPeriodTransactions) PERIOD_ORDER) (\<lambda>periods.
     bindR (trendForRanges trendRanges analyticsPeriodTransactions) (\<lambda>trend.
     bindR (listRecentActiveTransactionsBefore rt (endMs (todayR fixedPeriods)) 5 db) (\<lambda>recent.
     bindR (mapR (\<lambda>t. transactionDtoWithBundle rt db t excludedIds) recent) (\<lambda>recentDtos.
     Inr \<lparr>ov_anchorDate = resolved, ov_todayDate = todayDate, ov_scope = scope, ov_currency = s_baseCurrency s,
          ov_currencyExponent = expo, ov_assetTotalMinor = assetTotal, ov_liabilityTotalMinor = liabilityTotal,
          ov_netWorthMinor = netWorth, ov_accounts = accounts, ov_cashflow = flow, ov_income = income,
          ov_expense = expense, ov_periods = periods, ov_trend = trend,
          ov_recent = recentDtos\<rparr>)))))))))))))))))))))))"

definition sliceJson :: "category_slice \<Rightarrow> jval" where
  "sliceJson c = JObj
     [(js ''categoryId'', JStr (sl_categoryId c)), (js ''name'', JStr (sl_name c)),
      (js ''kind'', JStr (enum_text LEDGER_CATEGORY_KINDS (sl_kind c))), (js ''amountMinor'', JInt (sl_amountMinor c))]"

definition periodJson :: "period_summary \<Rightarrow> jval" where
  "periodJson p = JObj
     ([(js ''period'', JStr (periodName (ps_period p))), (js ''startAt'', JInt (startMs p)), (js ''endAt'', JInt (endMs p))]
      @ cashflowEntries (ps_cashflow p))"

definition monthJson :: "month_point \<Rightarrow> jval" where
  "monthJson p = JObj
     ([(js ''month'', JStr (month p)), (js ''startAt'', JInt (startMs p)), (js ''endAt'', JInt (endMs p))]
      @ cashflowEntries (mp_cashflow p))"

definition overviewJson :: "overview \<Rightarrow> jval" where
  "overviewJson v = JObj
     [(js ''context'', JObj [(js ''anchorDate'', JStr (ov_anchorDate v)), (js ''todayDate'', JStr (ov_todayDate v)),
        (js ''isToday'', JBool (ov_anchorDate v = ov_todayDate v)),
        (js ''scope'', JStr (case ov_scope v of ScopeAll \<Rightarrow> js ''all'' | ScopePeriod p \<Rightarrow> periodName p))]),
      (js ''currency'', JStr (ov_currency v)), (js ''currencyExponent'', JInt (int (ov_currencyExponent v))),
      (js ''assetTotalMinor'', JInt (ov_assetTotalMinor v)),
      (js ''liabilityTotalMinor'', JInt (ov_liabilityTotalMinor v)), (js ''netWorthMinor'', JInt (ov_netWorthMinor v)),
      (js ''accounts'', JArr (ov_accounts v)), (js ''cashflow'', JObj (cashflowEntries (ov_cashflow v))),
      (js ''categoryBreakdown'', JObj [(js ''income'', JArr (map sliceJson (ov_income v))),
        (js ''expense'', JArr (map sliceJson (ov_expense v)))]),
      (js ''periods'', JArr (map periodJson (ov_periods v))), (js ''trend'', JArr (map monthJson (ov_trend v))),
      (js ''recentTransactions'', JArr (ov_recent v))]"

definition getTrend :: "runtime \<Rightarrow> service_deps \<Rightarrow> int \<Rightarrow> ustr option \<Rightarrow> ledger_db \<Rightarrow> month_point list res" where
  "getTrend rt d months anchorDate db =
     bindR (requireSettings rt db) (\<lambda>s.
     bindR (captureNow rt d) (\<lambda>nowMs.
     bindR (ledgerLocalDateForInstant rt nowMs (s_timezone s)) (\<lambda>todayDate.
     bindR (resolveAnchorDate rt anchorDate todayDate) (\<lambda>resolved.
     let excludedIds = set (listStatisticsExcludedTransactionIds db) in
     bindR (calendarMonthRangesForLocalDate rt months resolved (s_timezone s)) (\<lambda>ranges.
     bindR (listActiveTransactions rt db) (\<lambda>ts.
     trendForRanges ranges (statisticsTransactions ts excludedIds)))))))"

end
