(* ===== verification/LedgerRoutes.thy ===== *)
theory LedgerRoutes
  imports LedgerCorrections LedgerProjections
begin

text \<open>
  The HTTP routes of the Ledger service (server/ledger/routes/), as functions from a request to a
  response and the database after it: the body is parsed first, then the \<open>Idempotency-Key\<close> header,
  then the service is called; an error that escapes becomes an error response. A request body is
  \<open>None\<close> when it is not JSON, a query value or header that is absent is \<open>JUndef\<close>.
\<close>

section \<open>Responses\<close>

datatype http_response =
    JsonResponse jval
  | ReplayResponse int ustr
  | ErrorResponse nat "ledger_code option" "ustr option"

definition readLedgerJson :: "jval option \<Rightarrow> jval res" where
  "readLedgerJson body = (case body of None \<Rightarrow> Inl (ledgerValidationError []) | Some v \<Rightarrow> Inr v)"

text \<open>An error that is not a \<open>LedgerError\<close> is answered as \<open>ledger-internal-error\<close>.\<close>

definition ledgerErrorResponse :: "js_error \<Rightarrow> http_response" where
  "ledgerErrorResponse e =
     (case e of
        LedgerError code status field \<Rightarrow> ErrorResponse status (Some code) field
      | _ \<Rightarrow> ErrorResponse 500 None None)"

definition withLedgerErrors :: "http_response res \<times> ledger_db \<Rightarrow> http_response \<times> ledger_db" where
  "withLedgerErrors out =
     (case out of
        (Inl e, db) \<Rightarrow> (ledgerErrorResponse e, db)
      | (Inr r, db) \<Rightarrow> (r, db))"

definition ledgerReplayResponse :: "replay_result \<Rightarrow> http_response" where
  "ledgerReplayResponse r = ReplayResponse (rr_responseStatus r) (rr_responseBodyJson r)"

text \<open>The three shapes of a handler: a read, a change, and a create with an idempotency key.\<close>

definition readRoute :: "jval res \<Rightarrow> ledger_db \<Rightarrow> http_response \<times> ledger_db" where
  "readRoute r db = withLedgerErrors (map_sum id JsonResponse r, db)"

definition changeRoute :: "jval res \<times> ledger_db \<Rightarrow> http_response \<times> ledger_db" where
  "changeRoute out = withLedgerErrors (map_prod (map_sum id JsonResponse) id out)"

definition bodyRoute ::
  "jval option \<Rightarrow> (jval \<Rightarrow> jval res \<times> ledger_db) \<Rightarrow> ledger_db \<Rightarrow> http_response \<times> ledger_db" where
  "bodyRoute body service db =
     (case readLedgerJson body of
        Inl e \<Rightarrow> withLedgerErrors (Inl e, db)
      | Inr v \<Rightarrow> changeRoute (service v))"

definition createRoute ::
  "(jval \<Rightarrow> 'q res) \<Rightarrow> ('q \<Rightarrow> ustr \<Rightarrow> replay_result res \<times> ledger_db) \<Rightarrow> jval option \<Rightarrow> jval \<Rightarrow> ledger_db
    \<Rightarrow> http_response \<times> ledger_db" where
  "createRoute parse service body header db =
     (case bindR (readLedgerJson body) (\<lambda>v. bindR (parse v) (\<lambda>q.
           bindR (parseIdempotencyKey header) (\<lambda>key. Inr (q, key)))) of
        Inl e \<Rightarrow> withLedgerErrors (Inl e, db)
      | Inr (q, key) \<Rightarrow> withLedgerErrors (map_prod (map_sum id ledgerReplayResponse) id (service q key)))"

section \<open>Settings\<close>

datatype settings_call =
    GetSettings
  | PostSettings "jval option" jval
  | PatchSettings "jval option"

definition settingsRoutes ::
  "runtime \<Rightarrow> service_deps \<Rightarrow> settings_call \<Rightarrow> ledger_db \<Rightarrow> http_response \<times> ledger_db" where
  "settingsRoutes rt d call db =
     (case call of
        GetSettings \<Rightarrow> readRoute (bindR (getSettingsOrNull rt db) (\<lambda>s. Inr (case_option JNull id s))) db
      | PostSettings body key \<Rightarrow>
          createRoute (parseSettingsCreateRequest rt) (\<lambda>q k. createSettings rt d q k db) body key db
      | PatchSettings body \<Rightarrow> bodyRoute body (\<lambda>v. patchSettings rt d v db) db)"

section \<open>Accounts\<close>

datatype accounts_call =
    GetAccounts jval
  | PostAccount "jval option" jval
  | ArchiveAccount ustr "jval option"
  | RestoreAccount ustr "jval option"
  | AdjustAccount ustr "jval option" jval
  | GetBalanceTrend ustr jval
  | GetAccountTransactions ustr jobj
  | GetAccount ustr
  | PatchAccount ustr "jval option"
  | DeleteAccount ustr "jval option"

definition accountRoutes ::
  "runtime \<Rightarrow> service_deps \<Rightarrow> accounts_call \<Rightarrow> ledger_db \<Rightarrow> http_response \<times> ledger_db" where
  "accountRoutes rt d call db =
     (case call of
        GetAccounts includeArchived \<Rightarrow>
          readRoute (bindR (parseBooleanQuery includeArchived ''includeArchived'' False) (\<lambda>b.
            bindR (listAccountDtos rt b db) (\<lambda>xs. Inr (JArr xs)))) db
      | PostAccount body key \<Rightarrow>
          createRoute (parseAccountCreateRequest rt) (\<lambda>q k. createAccount rt d q k db) body key db
      | ArchiveAccount i body \<Rightarrow> bodyRoute body (\<lambda>v. archiveAccount rt d i v db) db
      | RestoreAccount i body \<Rightarrow> bodyRoute body (\<lambda>v. restoreAccount rt d i v db) db
      | AdjustAccount i body key \<Rightarrow>
          createRoute (parseAdjustmentEndpointRequest rt) (\<lambda>q k. adjustAccount rt d i q k db) body key db
      | GetBalanceTrend i rangeValue \<Rightarrow>
          readRoute (bindR (parseAccountBalanceTrendRange rangeValue) (\<lambda>days.
            bindR (getAccountBalanceTrend rt d i days db) (\<lambda>ps. Inr (balanceTrendJson days ps)))) db
      | GetAccountTransactions i query \<Rightarrow>
          readRoute (bindR (parseTransactionQuery rt query) (\<lambda>q. getAccountTransactions rt d i q db)) db
      | GetAccount i \<Rightarrow> readRoute (getAccountDto rt i db) db
      | PatchAccount i body \<Rightarrow> bodyRoute body (\<lambda>v. patchAccount rt d i v db) db
      | DeleteAccount i body \<Rightarrow> bodyRoute body (\<lambda>v. removeAccount rt i v db) db)"

section \<open>Categories\<close>

datatype categories_call =
    GetCategories jval jval
  | PostCategory "jval option" jval
  | ArchiveCategory ustr "jval option"
  | RestoreCategory ustr "jval option"
  | PatchCategory ustr "jval option"
  | DeleteCategory ustr "jval option"

definition categoryRoutes ::
  "runtime \<Rightarrow> service_deps \<Rightarrow> categories_call \<Rightarrow> ledger_db \<Rightarrow> http_response \<times> ledger_db" where
  "categoryRoutes rt d call db =
     (case call of
        GetCategories kindValue includeArchived \<Rightarrow>
          readRoute (bindR (if kindValue = JUndef then Inr None
              else bindR (parseCategoryKind [(js ''kind'', kindValue)]) (\<lambda>k. Inr (Some k))) (\<lambda>kind.
            bindR (parseBooleanQuery includeArchived ''includeArchived'' False) (\<lambda>b.
            bindR (listCategoryDtos rt kind b db) (\<lambda>xs. Inr (JArr xs))))) db
      | PostCategory body key \<Rightarrow>
          createRoute parseCategoryCreateRequest (\<lambda>q k. createCategory rt d q k db) body key db
      | ArchiveCategory i body \<Rightarrow> bodyRoute body (\<lambda>v. archiveCategory rt d i v db) db
      | RestoreCategory i body \<Rightarrow> bodyRoute body (\<lambda>v. restoreCategory rt d i v db) db
      | PatchCategory i body \<Rightarrow> bodyRoute body (\<lambda>v. patchCategory rt d i v db) db
      | DeleteCategory i body \<Rightarrow> bodyRoute body (\<lambda>v. removeCategory rt i v db) db)"

section \<open>Transactions\<close>

datatype transactions_call =
    GetTransactions jobj
  | PostTransaction "jval option" jval
  | PutExclusion ustr
  | DeleteExclusion ustr
  | GetTransaction ustr
  | PatchTransaction ustr "jval option"
  | DeleteTransaction ustr "jval option"

definition transactionRoutes ::
  "runtime \<Rightarrow> service_deps \<Rightarrow> transactions_call \<Rightarrow> ledger_db \<Rightarrow> http_response \<times> ledger_db" where
  "transactionRoutes rt d call db =
     (case call of
        GetTransactions query \<Rightarrow>
          readRoute (bindR (parseTransactionQuery rt query) (\<lambda>q. listTransactions rt q db)) db
      | PostTransaction body key \<Rightarrow>
          createRoute (parseTransactionCreateRequest rt) (\<lambda>q k. createTransaction rt d q k db) body key db
      | PutExclusion i \<Rightarrow> changeRoute (excludeFromStatistics rt d i db)
      | DeleteExclusion i \<Rightarrow> changeRoute (restoreToStatistics rt i db)
      | GetTransaction i \<Rightarrow> readRoute (getTransactionDto rt i db) db
      | PatchTransaction i body \<Rightarrow> bodyRoute body (\<lambda>v. patchTransaction rt d i v db) db
      | DeleteTransaction i body \<Rightarrow> bodyRoute body (\<lambda>v. deleteTransaction rt d i v db) db)"

section \<open>Projections\<close>

datatype projections_call =
    GetOverview jval jval
  | GetTrend jval jval

definition projectionRoutes ::
  "runtime \<Rightarrow> service_deps \<Rightarrow> projections_call \<Rightarrow> ledger_db \<Rightarrow> http_response \<times> ledger_db" where
  "projectionRoutes rt d call db =
     (case call of
        GetOverview scopeValue anchorValue \<Rightarrow>
          readRoute (bindR (parseOverviewScope scopeValue) (\<lambda>scope.
            bindR (parseOverviewAnchorDate rt anchorValue) (\<lambda>anchor.
            bindR (getOverview rt d scope anchor db) (\<lambda>v. Inr (overviewJson v))))) db
      | GetTrend monthsValue anchorValue \<Rightarrow>
          readRoute (bindR (parseTrendMonths monthsValue) (\<lambda>months.
            bindR (parseOverviewAnchorDate rt anchorValue) (\<lambda>anchor.
            bindR (getTrend rt d months anchor db) (\<lambda>ps. Inr (JArr (map monthJson ps)))))) db)"

datatype ledger_request =
    SettingsRequest settings_call
  | AccountsRequest accounts_call
  | CategoriesRequest categories_call
  | TransactionsRequest transactions_call
  | ProjectionsRequest projections_call

definition ledgerRoutes ::
  "runtime \<Rightarrow> service_deps \<Rightarrow> ledger_request \<Rightarrow> ledger_db \<Rightarrow> http_response \<times> ledger_db" where
  "ledgerRoutes rt d request db =
     (case request of
        SettingsRequest call \<Rightarrow> settingsRoutes rt d call db
      | AccountsRequest call \<Rightarrow> accountRoutes rt d call db
      | CategoriesRequest call \<Rightarrow> categoryRoutes rt d call db
      | TransactionsRequest call \<Rightarrow> transactionRoutes rt d call db
      | ProjectionsRequest call \<Rightarrow> projectionRoutes rt d call db)"

section \<open>What a request keeps\<close>

text \<open>
  The routes and the idempotent wrapper only compose service mutations; whatever relation between
  databases the mutations respect, is reflexive and transitive and allows the idempotency record to be added
  is respected by every route.
\<close>

locale write_contract =
  fixes kept :: "ledger_db \<Rightarrow> ledger_db \<Rightarrow> bool"
  assumes kept_refl: "kept db db"
    and kept_trans: "kept db db1 \<Longrightarrow> kept db1 db2 \<Longrightarrow> kept db db2"
    and kept_record: "kept db (db\<lparr>db_idempotency := db_idempotency db @ [row]\<rparr>)"
begin

lemma write_kept:
  assumes "\<And>x db1. callback db = Inr (x, db1) \<Longrightarrow> kept db db1"
  shows "kept db (snd (runLedgerWrite rt db callback))"
  using assms kept_refl by (auto simp: runLedgerWrite_def split: sum.splits)

lemma replay_kept:
  assumes "\<And>x db1. mutation db = Inr (x, db1) \<Longrightarrow> kept db db1"
    and "replayOrCreate rt scope key fp mutation t db = Inr (r, db')"
  shows "kept db db'"
proof -
  from assms(2) obtain x where x: "(case x of Some record \<Rightarrow>
         if ri_request_fingerprint record \<noteq> fp then Inl (LedgerError LIdempotencyConflict 409 None)
         else bindR (replayResult record) (\<lambda>r. Inr (r, db))
     | None \<Rightarrow>
         bindR (runNestedLedgerWrite db mutation) (\<lambda>(raw, db1).
         bindR (assertMutationResult raw) (\<lambda>m.
         bindR (serializeLedgerReplayResponse (ir_responseBody m)) (\<lambda>json.
         let created = (case t of Some t \<Rightarrow> t | None \<Rightarrow> sys_now rt) in
         if \<not> is_safe created then Inl (ledgerValidationError [])
         else bindR (insertIdempotencyRecord
             \<lparr>ri_operation_scope = scope, ri_idempotency_key = key, ri_request_fingerprint = fp,
              ri_response_status = ir_responseStatus m, ri_response_body_json = json,
              ri_result_status = result_status_text (ir_resultStatus m), ri_result_type = ir_resultType m,
              ri_result_id = ir_resultId m, ri_created_at = created\<rparr> db1) (\<lambda>db2.
           Inr (\<lparr>rr_responseStatus = ir_responseStatus m, rr_responseBodyJson = json, rr_replayed = False\<rparr>, db2)))))) =
      Inr (r, db')"
    unfolding replayOrCreate_def bindR_eq_Inr by blast
  show ?thesis
  proof (cases x)
    case (Some row)
    with x have "db' = db" by (auto simp: bindR_eq_Inr split: if_splits)
    then show ?thesis by (simp add: kept_refl)
  next
    case None
    with x obtain raw db1 row where m: "mutation db = Inr (raw, db1)" and ins: "insertIdempotencyRecord row db1 = Inr db'"
      by (auto simp: bindR_eq_Inr Let_def split: if_splits)
    from ins have "db' = db1\<lparr>db_idempotency := db_idempotency db1 @ [row]\<rparr>"
      by (auto simp: insertIdempotencyRecord_def split: if_splits)
    with kept_trans [OF assms(1) [OF m] kept_record] show ?thesis by simp
  qed
qed

lemma create_kept:
  assumes "\<And>x db1. mutation db = Inr (x, db1) \<Longrightarrow> kept db db1"
  shows "kept db (snd (executeIdempotentLedgerCreate rt scope key v mutation t db))"
proof (cases "fingerprintLedgerMutation rt v")
  case (Inr fp)
  with write_kept [of "replayOrCreate rt scope key fp mutation t" db] replay_kept [OF assms] show ?thesis
    by (auto simp: executeIdempotentLedgerCreate_def)
qed (simp add: executeIdempotentLedgerCreate_def kept_refl)

lemma errors_kept: "kept db (snd out) \<Longrightarrow> kept db (snd (withLedgerErrors out))"
  by (cases out; cases "fst out") (auto simp: withLedgerErrors_def)

lemma read_kept: "kept db (snd (readRoute r db))"
  unfolding readRoute_def by (rule errors_kept) (simp add: kept_refl)

lemma change_kept: "kept db (snd out) \<Longrightarrow> kept db (snd (changeRoute out))"
  unfolding changeRoute_def by (rule errors_kept) (cases out, simp)

lemma body_kept:
  assumes "\<And>v. kept db (snd (service v))"
  shows "kept db (snd (bodyRoute body service db))"
  using assms kept_refl [of db] unfolding bodyRoute_def
  by (cases "readLedgerJson body") (auto intro!: change_kept errors_kept)

lemma post_kept:
  assumes "\<And>v q key. parse v = Inr q \<Longrightarrow> kept db (snd (service q key))"
  shows "kept db (snd (createRoute parse service body header db))"
proof (cases "bindR (readLedgerJson body) (\<lambda>v. bindR (parse v) (\<lambda>q.
           bindR (parseIdempotencyKey header) (\<lambda>key. Inr (q, key))))")
  case (Inl e)
  have "kept db (snd (withLedgerErrors (Inl e :: http_response res, db)))" by (rule errors_kept) (simp add: kept_refl)
  with Inl show ?thesis by (simp add: createRoute_def)
next
  case (Inr p)
  then obtain v q key where p: "p = (q, key)" "parse v = Inr q" by (auto simp: bindR_eq_Inr)
  have "kept db (snd (withLedgerErrors (map_prod (map_sum id ledgerReplayResponse) id (service q key))))"
    by (rule errors_kept) (use assms [OF p(2), of key] in \<open>cases "service q key", simp\<close>)
  with Inr p(1) show ?thesis by (simp add: createRoute_def)
qed

end

text \<open>The contract of the Ledger: changes of \<open>ledger_change\<close>, and groups that stay paired.\<close>

definition ledger_kept :: "runtime \<Rightarrow> ledger_db \<Rightarrow> ledger_db \<Rightarrow> bool" where
  "ledger_kept rt db db' \<longleftrightarrow> (ledger_change rt)\<^sup>*\<^sup>* db db' \<and> (paired rt db \<longrightarrow> paired rt db')"

interpretation ledger: write_contract "ledger_kept rt" for rt
  by unfold_locales (auto simp: ledger_kept_def intro: rtranclp_trans idempotency_recorded)

lemma kept_same_txs:
  "(ledger_change rt)\<^sup>*\<^sup>* db db' \<Longrightarrow> db_transactions db' = db_transactions db \<Longrightarrow> ledger_kept rt db db'"
  by (simp add: ledger_kept_def paired_def group_members_def txs_def)

text \<open>Mutations of settings, accounts and categories leave the transactions alone.\<close>

lemma updates_keep_txs:
  "updateSettings rt st v db = Inr (n, db') \<Longrightarrow> db_transactions db' = db_transactions db"
  "updateAccount a v db = Inr (n, db') \<Longrightarrow> db_transactions db' = db_transactions db"
  "updateCategory c v db = Inr (n, db') \<Longrightarrow> db_transactions db' = db_transactions db"
  "deleteAccount i db = Inr (n, db') \<Longrightarrow> db_transactions db' = db_transactions db"
  "deleteCategory i db = Inr (n, db') \<Longrightarrow> db_transactions db' = db_transactions db"
  "insertSettings rt st db = Inr db' \<Longrightarrow> db_transactions db' = db_transactions db"
  "insertAccount a db = Inr db' \<Longrightarrow> db_transactions db' = db_transactions db"
  "insertCategory c db = Inr db' \<Longrightarrow> db_transactions db' = db_transactions db"
  by (auto simp: updateSettings_def updateAccount_def updateCategory_def deleteAccount_def deleteCategory_def
      insertSettings_def insertAccount_def insertCategory_def Let_def split: if_splits option.splits)

lemma seed_keeps_txs: "seedDefaultLedgerCategories rt d es k db = Inr db' \<Longrightarrow> db_transactions db' = db_transactions db"
proof (induction rt d es k db rule: seedDefaultLedgerCategories.induct)
  case (2 rt d kind name icon sortOrder key rest k db)
  then obtain x where x: "findCategoryByIdentity rt kind (normalizeLedgerCategoryName rt name) db = Inr x"
    by (auto simp: bindR_eq_Inr)
  show ?case
  proof (cases x)
    case None
    with 2 x show ?thesis by (auto simp: bindR_eq_Inr read_facts dest: updates_keep_txs)
  qed (use 2 x in \<open>simp add: bindR_eq_Inr\<close>)
qed simp

lemma mutations_keep_txs:
  "createSettingsMutation rt d q db = Inr (x, db') \<Longrightarrow> db_transactions db' = db_transactions db"
  "patchSettingsMutation rt d v db = Inr (y, db') \<Longrightarrow> db_transactions db' = db_transactions db"
  by (auto simp: createSettingsMutation_def patchSettingsMutation_def bindR_eq_Inr read_facts Let_def
      dest!: updates_keep_txs seed_keeps_txs)

lemma account_mutations_keep_txs:
  "createAccountMutation rt d aq db = Inr (x, db') \<Longrightarrow> db_transactions db' = db_transactions db"
  "patchAccountMutation rt d i v db = Inr (y, db') \<Longrightarrow> db_transactions db' = db_transactions db"
  "deleteAccountMutation rt i v db = Inr (y, db') \<Longrightarrow> db_transactions db' = db_transactions db"
  "archiveAccountMutation rt d i v db = Inr (y, db') \<Longrightarrow> db_transactions db' = db_transactions db"
  "restoreAccountMutation rt d i v db = Inr (y, db') \<Longrightarrow> db_transactions db' = db_transactions db"
  by (auto simp: createAccountMutation_def markAccountCreated_def patchAccountMutation_def deleteAccountMutation_def
      archiveAccountMutation_def restoreAccountMutation_def bindR_eq_Inr read_facts Let_def
      dest!: updates_keep_txs split: if_splits)

lemma category_mutations_keep_txs:
  "createCategoryMutation rt d cq db = Inr (x, db') \<Longrightarrow> db_transactions db' = db_transactions db"
  "patchCategoryMutation rt d i v db = Inr (y, db') \<Longrightarrow> db_transactions db' = db_transactions db"
  "deleteCategoryMutation rt i v db = Inr (y, db') \<Longrightarrow> db_transactions db' = db_transactions db"
  "archiveCategoryMutation rt d i v db = Inr (y, db') \<Longrightarrow> db_transactions db' = db_transactions db"
  "restoreCategoryMutation rt d i v db = Inr (y, db') \<Longrightarrow> db_transactions db' = db_transactions db"
  by (auto simp: createCategoryMutation_def patchCategoryMutation_def deleteCategoryMutation_def
      archiveCategoryMutation_def restoreCategoryMutation_def bindR_eq_Inr read_facts Let_def
      dest!: updates_keep_txs split: if_splits)

section \<open>Every request is a sequence of changes\<close>

lemma change_or_same: "db' = db \<or> ledger_change rt db db' \<Longrightarrow> (ledger_change rt)\<^sup>*\<^sup>* db db'"
  by auto

lemma keptI: "(ledger_change rt)\<^sup>*\<^sup>* db db' \<and> paired rt db' \<Longrightarrow> ledger_kept rt db db'"
  by (simp add: ledger_kept_def)

lemma body_write_kept:
  assumes "\<And>v x db1. m v db = Inr (x, db1) \<Longrightarrow> db1 = db \<or> ledger_change rt db db1"
    and "\<And>v x db1. m v db = Inr (x, db1) \<Longrightarrow> db_transactions db1 = db_transactions db"
  shows "ledger_kept rt db (snd (bodyRoute body (\<lambda>v. runLedgerWrite rt db (m v)) db))"
  by (intro ledger.body_kept ledger.write_kept kept_same_txs change_or_same) (rule assms, assumption)+

lemma settingsRoutes_kept:
  assumes "wf_db rt db" "case_tables_ok rt"
  shows "ledger_kept rt db (snd (settingsRoutes rt d call db))"
proof (cases call)
  case (PostSettings body key)
  have "ledger_kept rt db db1" if "parseSettingsCreateRequest rt v = Inr q" "createSettingsMutation rt d q db = Inr (x, db1)" for v q x db1
    using createSettings_changes [OF assms(1) settings_req_valid [OF that(1)] assms(2) that(2)] mutations_keep_txs(1) [OF that(2)] by (intro kept_same_txs) auto
  then show ?thesis unfolding PostSettings settingsRoutes_def settings_call.case createSettings_def
    by (intro ledger.post_kept ledger.create_kept) blast
next
  case (PatchSettings body)
  show ?thesis unfolding PatchSettings settingsRoutes_def settings_call.case patchSettings_def
    by (rule body_write_kept [OF _ mutations_keep_txs(2)]) (use patchSettings_change [OF assms(1)] in blast)
qed (simp add: settingsRoutes_def ledger.read_kept)

lemma accountRoutes_kept:
  assumes "wf_db rt db" "paired rt db"
  shows "ledger_kept rt db (snd (accountRoutes rt d call db))"
proof (cases call)
  case (PostAccount body key)
  have "ledger_kept rt db db1" if "parseAccountCreateRequest rt v = Inr q" "createAccountMutation rt d q db = Inr (x, db1)" for v q x db1
    using createAccount_change [OF assms(1) account_req_valid [OF that(1)] that(2)] account_mutations_keep_txs(1) [OF that(2)] by (intro kept_same_txs) auto
  then show ?thesis unfolding PostAccount accountRoutes_def accounts_call.case createAccount_def
    by (intro ledger.post_kept ledger.create_kept) blast
next
  case (AdjustAccount i body key)
  have "valid_adjustment_req rt q" if "parseAdjustmentEndpointRequest rt v = Inr q" for v q
    using that by (auto simp: parseAdjustmentEndpointRequest_def bindR_eq_Inr dest: adjustment_fields_valid)
  with adjustAccount_changes [OF assms] show ?thesis
    unfolding AdjustAccount accountRoutes_def accounts_call.case adjustAccount_def
    by (intro ledger.post_kept ledger.create_kept keptI) blast
next
  case (ArchiveAccount i body)
  show ?thesis unfolding ArchiveAccount accountRoutes_def accounts_call.case archiveAccount_def
    by (rule body_write_kept [OF _ account_mutations_keep_txs(4)]) (use archiveAccount_change [OF assms(1)] in blast)
next
  case (RestoreAccount i body)
  show ?thesis unfolding RestoreAccount accountRoutes_def accounts_call.case restoreAccount_def
    by (rule body_write_kept [OF _ account_mutations_keep_txs(5)]) (use restoreAccount_change [OF assms(1)] in blast)
next
  case (PatchAccount i body)
  show ?thesis unfolding PatchAccount accountRoutes_def accounts_call.case patchAccount_def
    by (rule body_write_kept [OF _ account_mutations_keep_txs(2)]) (use patchAccount_change [OF assms(1)] in blast)
next
  case (DeleteAccount i body)
  show ?thesis unfolding DeleteAccount accountRoutes_def accounts_call.case removeAccount_def
    by (rule body_write_kept [OF _ account_mutations_keep_txs(3)]) (use deleteAccount_change in blast)
qed (simp_all add: accountRoutes_def ledger.read_kept)

lemma categoryRoutes_kept:
  assumes "wf_db rt db" "case_tables_ok rt"
  shows "ledger_kept rt db (snd (categoryRoutes rt d call db))"
proof (cases call)
  case (PostCategory body key)
  have "ledger_kept rt db db1" if "parseCategoryCreateRequest v = Inr q" "createCategoryMutation rt d q db = Inr (x, db1)" for v q x db1
    using createCategory_change [OF category_req_name [OF that(1)] assms(2) that(2)] category_mutations_keep_txs(1) [OF that(2)] by (intro kept_same_txs) auto
  then show ?thesis unfolding PostCategory categoryRoutes_def categories_call.case createCategory_def
    by (intro ledger.post_kept ledger.create_kept) blast
next
  case (ArchiveCategory i body)
  show ?thesis unfolding ArchiveCategory categoryRoutes_def categories_call.case archiveCategory_def
    by (rule body_write_kept [OF _ category_mutations_keep_txs(4)]) (use archiveCategory_change [OF assms(1)] in blast)
next
  case (RestoreCategory i body)
  show ?thesis unfolding RestoreCategory categoryRoutes_def categories_call.case restoreCategory_def
    by (rule body_write_kept [OF _ category_mutations_keep_txs(5)]) (use restoreCategory_change [OF assms(1)] in blast)
next
  case (PatchCategory i body)
  show ?thesis unfolding PatchCategory categoryRoutes_def categories_call.case patchCategory_def
    by (rule body_write_kept [OF _ category_mutations_keep_txs(2)]) (use patchCategory_change [OF assms] in blast)
next
  case (DeleteCategory i body)
  show ?thesis unfolding DeleteCategory categoryRoutes_def categories_call.case removeCategory_def
    by (rule body_write_kept [OF _ category_mutations_keep_txs(3)]) (use deleteCategory_change [OF assms(1)] in blast)
qed (simp_all add: categoryRoutes_def ledger.read_kept)

lemma createTransaction_kept:
  assumes "wf_db rt db" "paired rt db" "fresh_ids rt d db" "valid_tx_req rt q"
  shows "ledger_kept rt db (snd (createTransaction rt d q key db))"
proof -
  have m: "ledger_kept rt db db1" if "createTransactionMutation rt d q db = Inr (x, db1)" for x db1
    using createTransaction_changes [OF assms that] by (rule keptI)
  show ?thesis by (cases q) (auto simp: createTransaction_def ledger.kept_refl intro: ledger.create_kept m)
qed

lemma transactionRoutes_kept:
  assumes "wf_db rt db" "paired rt db" "fresh_ids rt d db"
  shows "ledger_kept rt db (snd (transactionRoutes rt d call db))"
proof (cases call)
  case (PostTransaction body key)
  show ?thesis unfolding PostTransaction transactionRoutes_def transactions_call.case
    by (rule ledger.post_kept) (rule createTransaction_kept [OF assms tx_req_valid])
next
  case (PutExclusion i)
  show ?thesis unfolding PutExclusion transactionRoutes_def transactions_call.case excludeFromStatistics_def
    by (rule ledger.change_kept, rule ledger.write_kept, rule keptI) (rule exclude_changes [OF _ assms(2)])
next
  case (DeleteExclusion i)
  show ?thesis unfolding DeleteExclusion transactionRoutes_def transactions_call.case restoreToStatistics_def
    by (rule ledger.change_kept, rule ledger.write_kept, rule keptI) (rule restore_changes [OF _ assms(2)])
next
  case (PatchTransaction i body)
  show ?thesis unfolding PatchTransaction transactionRoutes_def transactions_call.case patchTransaction_def
    by (rule ledger.body_kept, rule ledger.write_kept, rule keptI) (rule patchTransaction_changes [OF assms])
next
  case (DeleteTransaction i body)
  show ?thesis unfolding DeleteTransaction transactionRoutes_def transactions_call.case deleteTransaction_def
    by (rule ledger.body_kept, rule ledger.write_kept, rule keptI) (rule deleteTransaction_changes [OF assms(1,2)])
qed (simp_all add: transactionRoutes_def ledger.read_kept)

lemma projectionRoutes_kept: "ledger_kept rt db (snd (projectionRoutes rt d call db))"
  by (cases call) (simp_all add: projectionRoutes_def ledger.read_kept)

lemma ledgerRoutes_kept:
  assumes "wf_db rt db" "paired rt db" "case_tables_ok rt" "fresh_ids rt d db"
  shows "ledger_kept rt db (snd (ledgerRoutes rt d request db))"
  using settingsRoutes_kept [OF assms(1,3)] accountRoutes_kept [OF assms(1,2)] categoryRoutes_kept [OF assms(1,3)]
    transactionRoutes_kept [OF assms(1,2,4)] projectionRoutes_kept
  by (cases request) (simp_all add: ledgerRoutes_def)

end
