(* ===== verification/LedgerSystem.thy ===== *)
theory LedgerSystem
  imports LedgerRoutes
begin

text \<open>
  The Ledger as a state machine: a step is one HTTP request, whatever its content, and the states
  are the databases that requests reach. The invariants and safety properties below follow by rule
  induction from the refinement of requests by \<open>ledger_change\<close>.
\<close>

section \<open>Requests as steps\<close>

inductive served :: "runtime \<Rightarrow> ledger_db \<Rightarrow> ledger_db \<Rightarrow> bool" for rt where
  request: "fresh_ids rt d db \<Longrightarrow> served rt db (snd (ledgerRoutes rt d req db))"

inductive_cases servedE: "served rt db db'"

definition empty_db :: ledger_db where
  "empty_db = \<lparr>db_settings = None, db_accounts = [], db_categories = [], db_transactions = [],
     db_exclusions = [], db_idempotency = []\<rparr>"

definition reachable :: "runtime \<Rightarrow> ledger_db \<Rightarrow> bool" where
  "reachable rt db \<longleftrightarrow> (served rt)\<^sup>*\<^sup>* empty_db db"

definition good :: "runtime \<Rightarrow> ledger_db \<Rightarrow> bool" where
  "good rt db \<longleftrightarrow> sound rt db \<and> paired rt db"

lemma good_parts: "good rt db \<Longrightarrow> sound rt db" "good rt db \<Longrightarrow> paired rt db" "good rt db \<Longrightarrow> wf_db rt db"
  by (simp_all add: good_def sound_parts(1))

lemma good_empty: "good rt empty_db"
  by (simp add: good_def sound_def wf_db_def paired_def group_members_def txs_def empty_db_def)

lemma changes_sound: "(ledger_change rt)\<^sup>*\<^sup>* db db' \<Longrightarrow> sound rt db \<Longrightarrow> sound rt db'"
  by (induction rule: rtranclp_induct) (auto intro: ledger_change_sound)

lemma request_changes:
  assumes "good rt db" "case_tables_ok rt" "fresh_ids rt d db"
  shows "(ledger_change rt)\<^sup>*\<^sup>* db (snd (ledgerRoutes rt d req db)) \<and> good rt (snd (ledgerRoutes rt d req db))"
proof -
  have "ledger_kept rt db (snd (ledgerRoutes rt d req db))"
    using good_parts [OF assms(1)] assms(2,3) by (intro ledgerRoutes_kept) simp_all
  with good_parts [OF assms(1)] changes_sound show ?thesis by (auto simp: ledger_kept_def good_def)
qed

lemma served_changes:
  assumes "(served rt)\<^sup>*\<^sup>* db db'" "good rt db" "case_tables_ok rt"
  shows "(ledger_change rt)\<^sup>*\<^sup>* db db' \<and> good rt db'"
  using assms
proof (induction rule: rtranclp_induct)
  case (step db1 db2)
  then show ?case using request_changes by (auto elim!: servedE intro: rtranclp_trans)
qed simp

lemma reachable_good: "reachable rt db \<Longrightarrow> case_tables_ok rt \<Longrightarrow> good rt db"
  using served_changes [OF _ good_empty] by (auto simp: reachable_def)

text \<open>An invariant of changes, stated once for every property of the histories below.\<close>

lemma changes_induct:
  assumes "(ledger_change rt)\<^sup>*\<^sup>* db db'" "sound rt db" "P db"
    and "\<And>x y. ledger_change rt x y \<Longrightarrow> sound rt x \<Longrightarrow> P x \<Longrightarrow> P y"
  shows "P db'"
proof -
  have "P db' \<and> sound rt db'" using assms(1)
    by (induction rule: rtranclp_induct) (use assms(2-4) ledger_change_sound in blast)+
  then show ?thesis ..
qed

section \<open>Histories of transactions\<close>

definition evolved :: "tx \<Rightarrow> tx \<Rightarrow> bool" where
  "evolved t u \<longleftrightarrow> tx_id u = tx_id t \<and> tx_type u = tx_type t \<and> tx_createdAt u = tx_createdAt t
     \<and> tx_version t \<le> tx_version u \<and> (tx_deletedAt t \<noteq> None \<longrightarrow> u = t)
     \<and> (tx_version u = tx_version t \<longrightarrow> u = t)
     \<and> (tx_type t = TAdjustment \<longrightarrow> tx_accounts u = tx_accounts t \<and> tx_amountMinor u = tx_amountMinor t
        \<and> tx_occurredAt u = tx_occurredAt t)"

lemma evolved_refl: "evolved t t"
  by (simp add: evolved_def)

lemma evolved_trans: "evolved t u \<Longrightarrow> evolved u w \<Longrightarrow> evolved t w"
  by (auto simp: evolved_def)

lemma txs_replaced_mem:
  assumes "wf_db rt db" "wf_tx rt u" "wf_tx rt old" "t \<in> set (txs rt db)"
    and "lookup_by rt_id (tx_id u) (db_transactions db) = Some (transactionParams old)"
  shows "t = old \<or> t \<in> set (txs rt (db\<lparr>db_transactions := replace_by rt_id (transactionParams u) (db_transactions db)\<rparr>))"
    "u \<in> set (txs rt (db\<lparr>db_transactions := replace_by rt_id (transactionParams u) (db_transactions db)\<rparr>))"
proof -
  let ?p = "transactionParams u"
  from txs_in_db [OF assms(1,4)] obtain r where r: "r \<in> set (db_transactions db)" "r = transactionParams t" "wf_tx rt t" by blast
  show "t = old \<or> t \<in> set (txs rt (db\<lparr>db_transactions := replace_by rt_id ?p (db_transactions db)\<rparr>))"
  proof (cases "rt_id r = rt_id ?p")
    case True
    with lookup_by_mem [OF wf_db_parts(6) [OF assms(1)] r(1)] assms(5) have "transactionParams t = transactionParams old"
      by (simp add: r(2))
    then have "t = old" using tx_of_params [OF r(3)] tx_of_params [OF assms(3)] by metis
    then show ?thesis ..
  next
    case False
    then have "r \<in> set (replace_by rt_id ?p (db_transactions db))" using r(1) by (force simp: replace_by_def)
    then show ?thesis using r by (force simp: txs_def)
  qed
  from assms(5) obtain q where "q \<in> set (db_transactions db)" "rt_id q = rt_id ?p"
    using lookup_by_SomeD [of rt_id "tx_id u" "db_transactions db"] by fastforce
  then have "?p \<in> set (replace_by rt_id ?p (db_transactions db))" by (force simp: replace_by_def)
  then show "u \<in> set (txs rt (db\<lparr>db_transactions := replace_by rt_id ?p (db_transactions db)\<rparr>))"
    using assms(2) by (force simp: txs_def)
qed

lemma change_evolves:
  assumes "ledger_change rt db db'" "wf_db rt db" "t \<in> set (txs rt db)"
  shows "\<exists>u\<in>set (txs rt db'). evolved t u"
  using assms(1)
proof cases
  case (transaction_created n)
  with assms(3) evolved_refl [of t] show ?thesis by (auto simp: txs_def)
next
  case (transaction_changed u old)
  note mem = txs_replaced_mem [OF assms(2) transaction_changed(2,3) assms(3) transaction_changed(6)]
  have "tx_id u = tx_id old" using lookup_by_key [OF transaction_changed(6)] by simp
  then have "evolved old u" using transaction_changed by (simp add: evolved_def)
  with mem evolved_refl [of t] show ?thesis unfolding transaction_changed(1) by blast
next
  case (transaction_deleted old at)
  let ?u = "deletedItem at (tx_version old + 1) old"
  have look: "lookup_by rt_id (tx_id ?u) (db_transactions db) = Some (transactionParams old)"
    using transaction_deleted by simp
  note mem = txs_replaced_mem [OF assms(2) transaction_deleted(5,2) assms(3) look]
  have "evolved old ?u" using transaction_deleted by (simp add: evolved_def)
  with mem evolved_refl [of t] show ?thesis unfolding transaction_deleted(1) by blast
qed (use assms(3) evolved_refl [of t] in \<open>auto simp: txs_def\<close>)

lemma changes_evolve:
  assumes "(ledger_change rt)\<^sup>*\<^sup>* db db'" "sound rt db" "t \<in> set (txs rt db)"
  shows "\<exists>u\<in>set (txs rt db'). evolved t u"
proof (rule changes_induct [OF assms(1,2)])
  show "\<exists>u\<in>set (txs rt db). evolved t u" using assms(3) evolved_refl by blast
  show "\<exists>u\<in>set (txs rt y). evolved t u" if "ledger_change rt x y" "sound rt x" "\<exists>u\<in>set (txs rt x). evolved t u" for x y
    using that change_evolves [OF that(1) sound_parts(1) [OF that(2)]] evolved_trans by blast
qed

section \<open>Histories of settings and categories\<close>

definition fixed_settings :: "ustr \<Rightarrow> ustr \<Rightarrow> ledger_db \<Rightarrow> bool" where
  "fixed_settings currency zone db \<longleftrightarrow> (\<exists>st. db_settings db = Some st \<and> rs_has_created_account st = 1
     \<and> rs_base_currency st = currency \<and> rs_timezone st = zone)"

lemma change_fixed_settings:
  assumes "ledger_change rt db db'" "fixed_settings currency zone db"
  shows "fixed_settings currency zone db'"
  using assms(1)
proof cases
  case (settings_patched st s)
  with assms(2) show ?thesis
    by (auto simp: fixed_settings_def settingsParams_flag same_settings_simps)
next
  case (account_created st r s)
  with assms(2) show ?thesis
    by (auto simp: fixed_settings_def settingsParams_flag same_settings_simps)
qed (use assms(2) in \<open>auto simp: fixed_settings_def\<close>)

definition protected_category :: "category_row \<Rightarrow> bool" where
  "protected_category r \<longleftrightarrow> rc_is_default r = 1 \<or> rc_system_key r \<noteq> None"

definition same_category :: "category_row \<Rightarrow> category_row \<Rightarrow> bool" where
  "same_category r q \<longleftrightarrow> rc_id q = rc_id r \<and> rc_name q = rc_name r \<and> rc_kind q = rc_kind r
     \<and> rc_system_key q = rc_system_key r \<and> rc_is_default q = rc_is_default r
     \<and> (rc_archived_at r = None \<longrightarrow> rc_archived_at q = None)"

lemma change_protected:
  assumes "ledger_change rt db db'" "wf_db rt db" "protected_category r" "r \<in> set (db_categories db)"
  shows "\<exists>q\<in>set (db_categories db'). same_category r q"
  using assms(1)
proof cases
  case (category_changed q old)
  show ?thesis
  proof (cases "rc_id r = rc_id q")
    case True
    with lookup_by_mem [OF wf_db_parts(4) [OF assms(2)] assms(4)] category_changed(2) have "old = r" by simp
    moreover from this have "same_category r q"
      using category_changed assms(3) True by (auto simp: same_category_def protected_category_def)
    moreover have "q \<in> set (replace_by rc_id q (db_categories db))"
      using True assms(4) by (force simp: replace_by_def)
    ultimately show ?thesis unfolding category_changed(1) by auto
  next
    case False
    then have "r \<in> set (replace_by rc_id q (db_categories db))" using assms(4) by (force simp: replace_by_def)
    then show ?thesis unfolding category_changed(1) by (auto simp: same_category_def)
  qed
next
  case (category_deleted i old)
  then have "rc_id r \<noteq> i"
    using lookup_by_mem [OF wf_db_parts(4) [OF assms(2)] assms(4)] assms(3) by (auto simp: protected_category_def)
  with assms(4) show ?thesis unfolding category_deleted(1) by (auto simp: same_category_def)
qed (use assms(4) in \<open>auto simp: same_category_def\<close>)

section \<open>Failures\<close>

definition aborts :: "ledger_db \<Rightarrow> 'a res \<times> ledger_db \<Rightarrow> bool" where
  "aborts db out \<longleftrightarrow> (\<forall>e db'. out = (Inl e, db') \<longrightarrow> db' = db)"

definition refuses :: "ledger_db \<Rightarrow> http_response \<times> ledger_db \<Rightarrow> bool" where
  "refuses db out \<longleftrightarrow> (\<forall>st c f db'. out = (ErrorResponse st c f, db') \<longrightarrow> db' = db)"

lemma write_aborts: "aborts db (runLedgerWrite rt db cb)"
  by (auto simp: aborts_def dest: runLedgerWrite_Inl)

lemma create_aborts: "aborts db (executeIdempotentLedgerCreate rt scope key v m t db)"
  unfolding executeIdempotentLedgerCreate_def
  by (cases "fingerprintLedgerMutation rt v") (simp_all add: write_aborts, simp add: aborts_def)

lemma create_transaction_aborts: "aborts db (createTransaction rt d q key db)"
  unfolding createTransaction_def by (cases q) (simp_all add: create_aborts, simp add: aborts_def)

lemma errors_refuse:
  "aborts db out \<Longrightarrow> (\<And>r db' st c f. out = (Inr r, db') \<Longrightarrow> r \<noteq> ErrorResponse st c f) \<Longrightarrow> refuses db (withLedgerErrors out)"
  by (cases out; cases "fst out") (auto simp: withLedgerErrors_def refuses_def aborts_def)

lemma change_refuses: "aborts db out \<Longrightarrow> refuses db (changeRoute out)"
  unfolding changeRoute_def by (rule errors_refuse) (cases out; cases "fst out"; auto simp: aborts_def)+

lemma read_refuses: "refuses db (readRoute r db)"
  unfolding readRoute_def by (rule errors_refuse) (cases r; auto simp: aborts_def)+

lemma body_refuses: "(\<And>v. aborts db (service v)) \<Longrightarrow> refuses db (bodyRoute body service db)"
  unfolding bodyRoute_def
  by (cases "readLedgerJson body") (auto intro!: change_refuses errors_refuse simp: aborts_def)

lemma post_refuses: "(\<And>q key. aborts db (service q key)) \<Longrightarrow> refuses db (createRoute parse service body header db)"
proof -
  assume s: "\<And>q key. aborts db (service q key)"
  have "refuses db (withLedgerErrors (map_prod (map_sum id ledgerReplayResponse) id (service q key)))" for q key
    using s [of q key]
    by (intro errors_refuse) (cases "service q key"; cases "fst (service q key)"; auto simp: aborts_def ledgerReplayResponse_def)+
  then show "refuses db (createRoute parse service body header db)"
    unfolding createRoute_def by (auto split: sum.splits prod.splits intro!: errors_refuse simp: aborts_def)
qed

lemmas abort_rules = post_refuses body_refuses change_refuses read_refuses write_aborts create_aborts
  create_transaction_aborts

lemma routes_refuse: "refuses db (ledgerRoutes rt d req db)"
proof (cases req)
  case (SettingsRequest call)
  then show ?thesis unfolding ledgerRoutes_def settingsRoutes_def
    by (cases call) (simp_all add: abort_rules createSettings_def patchSettings_def)
next
  case (AccountsRequest call)
  then show ?thesis unfolding ledgerRoutes_def accountRoutes_def
    by (cases call) (simp_all add: abort_rules createAccount_def patchAccount_def removeAccount_def archiveAccount_def
        restoreAccount_def adjustAccount_def)
next
  case (CategoriesRequest call)
  then show ?thesis unfolding ledgerRoutes_def categoryRoutes_def
    by (cases call) (simp_all add: abort_rules createCategory_def patchCategory_def removeCategory_def archiveCategory_def
        restoreCategory_def)
next
  case (TransactionsRequest call)
  then show ?thesis unfolding ledgerRoutes_def transactionRoutes_def
    by (cases call) (simp_all add: abort_rules patchTransaction_def deleteTransaction_def excludeFromStatistics_def
        restoreToStatistics_def)
next
  case (ProjectionsRequest call)
  then show ?thesis unfolding ledgerRoutes_def projectionRoutes_def
    by (cases call) (simp_all add: abort_rules)
qed

lemma wf_db_added:
  "wf_db rt db \<Longrightarrow> wf_tx rt t \<Longrightarrow> tx_fks db (transactionParams t) \<Longrightarrow>
     lookup_by rt_id (tx_id t) (db_transactions db) = None \<Longrightarrow>
     wf_db rt (db\<lparr>db_transactions := db_transactions db @ [transactionParams t]\<rparr>)"
  using wf_db_parts [of rt db]
  by (auto intro!: wf_db_with_transactions simp: tx_ok_params lookup_by_None_iff)

lemma balance_spec_added:
  "wf_tx rt t \<Longrightarrow> balance_spec a (txs rt (db\<lparr>db_transactions := db_transactions db @ [transactionParams t]\<rparr>))
     = balance_spec a (txs rt db) + effect (a_nature a) (a_id a) t"
  by (simp add: balance_spec_def txs_def)

section \<open>A run on a small database\<close>

definition demo_deps :: service_deps where
  "demo_deps = \<lparr>dep_now = (\<lambda>_. 7), dep_createId = (\<lambda>k. js ''new'' @ replicate k 120)\<rparr>"

text \<open>The deletion of the expense of \<open>demo_db\<close>, and an archiving of its account that is refused.\<close>

definition demo_delete :: ledger_request where
  "demo_delete = TransactionsRequest (DeleteTransaction (js ''t1'') (Some (JObj [(js ''expectedVersion'', JInt 1)])))"

definition demo_archive :: ledger_request where
  "demo_archive = AccountsRequest (ArchiveAccount (js ''acc'') (Some (JObj [(js ''expectedVersion'', JInt 1)])))"

lemma demo_case_tables: "case_tables_ok demo_runtime"
  by (simp add: case_tables_ok_def demo_runtime_def)

lemma demo_txs: "txs demo_runtime demo_db = [demo_expense]"
  using wf_demo_expense by (simp add: txs_def)

lemma demo_boundary: "openingBoundaryMs demo_runtime (a_openingDate demo_account) (js ''UTC'') = Inr 0"
proof -
  have "isLocalDateShape (js ''1970-01-01'')" by (simp add: js_def isLocalDateShape_def is_digit_def)
  moreover have "isIanaShape (js ''UTC'')" by (simp add: js_def isIanaShape_def iana_first_def iana_char_def)
  ultimately show ?thesis
    by (simp add: openingBoundaryMs_def assertOpeningDate_def plainDateFrom_def assertIanaTimeZoneId_def
        startOfLocalDate_def demo_runtime_def demo_account_def bindR_eq_Inr) (simp add: js_def)
qed

lemma demo_sound: "sound demo_runtime demo_db"
proof -
  have "tx_valid demo_runtime demo_db demo_expense"
    using demo_boundary
    by (simp add: tx_valid_def tx_shape_valid_def has_kind_def account_row_of_def demo_expense_def demo_base_def demo_db_def
        account_usable_def accountParams_def categoryParams_def settingsParams_def demo_settings_def
        demo_category_def demo_account_def)
  then show ?thesis
    by (auto simp: sound_def wf_demo_db demo_txs locked_def) (auto simp: demo_db_def settingsParams_def demo_settings_def
        accountParams_def demo_account_def)
qed

lemma demo_good: "good demo_runtime demo_db"
proof -
  have "live_in g demo_expense = False" for g by (simp add: live_in_def demo_expense_def demo_base_def)
  then have "paired demo_runtime demo_db" by (simp add: paired_def group_members_def demo_txs)
  with demo_sound show ?thesis by (simp add: good_def)
qed

lemma demo_fresh: "fresh_ids demo_runtime demo_deps demo_db"
  by (simp add: fresh_ids_def demo_txs demo_expense_def demo_base_def)

lemma demo_served: "(served demo_runtime)\<^sup>*\<^sup>* demo_db (snd (ledgerRoutes demo_runtime demo_deps demo_delete demo_db))"
  using served.request [OF demo_fresh] by blast

section \<open>Properties\<close>

text \<open>
  Property C1. Every HTTP request, whatever its content and whether it succeeds, takes a good
  database to a good one by a sequence of the changes that \<open>ledger_change\<close> allows: rows well formed,
  references intact, versions raised by one, archived and default rows protected.
\<close>

theorem requests_refine_changes:
  assumes "sound rt db" "paired rt db" "case_tables_ok rt" "fresh_ids rt d db"
  shows "(ledger_change rt)\<^sup>*\<^sup>* db (snd (ledgerRoutes rt d req db))"
  using request_changes [of rt db d req] assms by (simp add: good_def)

theorem requests_refine_changes_witness:
  "(ledger_change demo_runtime)\<^sup>*\<^sup>* demo_db (snd (ledgerRoutes demo_runtime demo_deps demo_delete demo_db))"
  by (rule requests_refine_changes) (simp_all add: good_parts [OF demo_good] demo_case_tables demo_fresh)

text \<open>
  Property C2. Every database that requests reach from the empty one is sound (well-formed rows and
  references, accounts in the base currency, no transaction before the opening of its accounts,
  categories of the right kind, transfers between accounts of the right nature, archived accounts at
  balance zero) and every live group is a transfer with exactly one companion fee.
\<close>

theorem reachable_sound:
  assumes "reachable rt db" "case_tables_ok rt"
  shows "sound rt db \<and> paired rt db"
  using reachable_good [OF assms] by (simp add: good_def)

theorem reachable_sound_witness:
  "sound demo_runtime (snd (ledgerRoutes demo_runtime demo_deps demo_delete empty_db))
   \<and> paired demo_runtime (snd (ledgerRoutes demo_runtime demo_deps demo_delete empty_db))"
proof (rule reachable_sound)
  have "fresh_ids demo_runtime demo_deps empty_db" by (simp add: fresh_ids_def txs_def empty_db_def)
  then show "reachable demo_runtime (snd (ledgerRoutes demo_runtime demo_deps demo_delete empty_db))"
    unfolding reachable_def using served.request by blast
qed (rule demo_case_tables)

text \<open>
  Property C26. A request that is answered with an error leaves the database exactly as it was.
\<close>

theorem failed_requests_change_nothing:
  assumes "ledgerRoutes rt d req db = (ErrorResponse status code field, db')"
  shows "db' = db"
  using routes_refuse [of db rt d req] assms by (auto simp: refuses_def)

theorem failed_requests_change_nothing_witness:
  "snd (ledgerRoutes demo_runtime demo_deps demo_archive empty_db) = empty_db"
proof -
  have "requireSettings demo_runtime empty_db = Inl notFound"
    by (simp add: requireSettings_def getSettings_def empty_db_def)
  then have "archiveAccountMutation demo_runtime demo_deps (js ''acc'') v empty_db = Inl notFound" for v
    by (simp add: archiveAccountMutation_def)
  then have "\<exists>st c f db'. ledgerRoutes demo_runtime demo_deps demo_archive empty_db = (ErrorResponse st c f, db')"
    by (simp add: ledgerRoutes_def demo_archive_def accountRoutes_def bodyRoute_def readLedgerJson_def changeRoute_def
        archiveAccount_def runLedgerWrite_def withLedgerErrors_def ledgerErrorResponse_def notFound_def demo_runtime_def
        isSqliteBusy_def)
  then obtain st c f db' where e: "ledgerRoutes demo_runtime demo_deps demo_archive empty_db = (ErrorResponse st c f, db')"
    by blast
  from failed_requests_change_nothing [OF e] e show ?thesis by simp
qed

text \<open>
  Property C27. Once an account has been created, no later request changes the base currency or the
  time zone of the ledger.
\<close>

theorem locked_settings_are_fixed:
  assumes "(served rt)\<^sup>*\<^sup>* db db'" "sound rt db" "paired rt db" "case_tables_ok rt"
    and "db_accounts db \<noteq> []" "db_settings db = Some st"
  shows "\<exists>st'. db_settings db' = Some st' \<and> rs_base_currency st' = rs_base_currency st
    \<and> rs_timezone st' = rs_timezone st"
proof -
  have start: "fixed_settings (rs_base_currency st) (rs_timezone st) db"
    using sound_parts(2) [OF assms(2,5)] assms(6) by (auto simp: locked_def fixed_settings_def)
  have run: "(ledger_change rt)\<^sup>*\<^sup>* db db'" using served_changes [OF assms(1) _ assms(4)] assms(2,3) by (simp add: good_def)
  have "fixed_settings (rs_base_currency st) (rs_timezone st) db'"
    by (rule changes_induct [OF run assms(2), where P = "fixed_settings (rs_base_currency st) (rs_timezone st)", OF start])
      (rule change_fixed_settings)
  then show ?thesis by (auto simp: fixed_settings_def)
qed

theorem locked_settings_are_fixed_witness:
  "\<exists>st'. db_settings (snd (ledgerRoutes demo_runtime demo_deps demo_delete demo_db)) = Some st'
     \<and> rs_base_currency st' = js ''USD'' \<and> rs_timezone st' = js ''UTC''"
proof -
  have st: "db_accounts demo_db \<noteq> []" "db_settings demo_db = Some (settingsParams demo_runtime demo_settings)"
    by (simp_all add: demo_db_def)
  from locked_settings_are_fixed [OF demo_served good_parts(1,2) [OF demo_good] demo_case_tables st]
  show ?thesis by (simp add: settingsParams_def demo_settings_def)
qed

text \<open>
  Property C3. No transaction is ever lost: after any requests a row with the same identifier is
  still there, with the same type and creation instant and a version that has not gone down; a
  deleted transaction stays as it is, an unchanged version means an unchanged transaction, and an
  adjustment keeps its account, amount and instant.
\<close>

theorem transactions_are_never_lost:
  assumes "(served rt)\<^sup>*\<^sup>* db db'" "sound rt db" "paired rt db" "case_tables_ok rt" "t \<in> set (txs rt db)"
  shows "\<exists>u\<in>set (txs rt db'). evolved t u"
proof -
  have "(ledger_change rt)\<^sup>*\<^sup>* db db'" using served_changes [OF assms(1) _ assms(4)] assms(2,3) by (simp add: good_def)
  then show ?thesis by (rule changes_evolve [OF _ assms(2,5)])
qed

theorem transactions_are_never_lost_witness:
  "\<exists>u\<in>set (txs demo_runtime (snd (ledgerRoutes demo_runtime demo_deps demo_delete demo_db))). evolved demo_expense u"
  by (rule transactions_are_never_lost [OF demo_served good_parts(1,2) [OF demo_good] demo_case_tables])
    (simp add: demo_txs)

text \<open>
  An archived account has balance zero in every database that requests reach from a sound
  one: whenever its balance is derived from its live transactions, it is 0.
\<close>

lemma archived_accounts_are_empty:
  assumes "(served rt)\<^sup>*\<^sup>* db0 db" "sound rt db0" "paired rt db0" "case_tables_ok rt" "getAccount rt i db = Inr (Some a)" "a_archivedAt a \<noteq> None"
    and "listActiveTransactionsForAccount rt i db = Inr ts" "deriveCurrentBalance a ts = Inr b"
  shows "b = 0"
proof -
  have sound: "sound rt db" using served_changes [OF assms(1) _ assms(4)] assms(2,3) by (simp add: good_def)
  note read = getAccount_read [OF sound_parts(1) [OF sound] assms(5)]
  have row: "accountParams a \<in> set (db_accounts db)" using read lookup_by_SomeD by (fastforce simp: account_row_of_def)
  have "ra_archived_at (accountParams a) \<noteq> None" using assms(6) by (simp add: accountParams_def)
  with sound_parts(5) [OF sound row] have "row_balance rt db (accountParams a) = 0" by simp
  moreover have "icon_check (ra_icon (accountParams a))"
    using wf_db_account [OF sound_parts(1) [OF sound] row] by (auto simp: account_ok_def)
  ultimately have "balance_spec a (txs rt db) = 0" using read by (simp add: row_balance_params)
  with derived_spec [OF sound_parts(1) [OF sound], of a ts b] read assms(7,8) show ?thesis by simp
qed

text \<open>
  Property C4. In every database that requests reach from a sound one a live transfer that belongs to a group has exactly one live
  companion there: an expense with a positive amount on the source account at the same instant; and
  a live expense that belongs to a group is such a companion.
\<close>

theorem fees_follow_their_transfer:
  assumes "(served rt)\<^sup>*\<^sup>* db0 db" "sound rt db0" "paired rt db0" "case_tables_ok rt"
    and "t \<in> set (txs rt db)" "live_in g t"
  shows "\<exists>tr e. group_members rt db g = {#tr, e#} \<and> companion_of tr e \<and> (t = tr \<or> t = e) \<and> 0 < tx_amountMinor e"
proof -
  have good: "good rt db" using served_changes [OF assms(1) _ assms(4)] assms(2,3) by (simp add: good_def)
  have mem: "t \<in># group_members rt db g" using assms(5,6) by (simp add: group_members_def)
  with good_parts(2) [OF good] obtain tr e where g: "group_members rt db g = {#tr, e#}" "companion_of tr e"
    by (force simp: paired_def group_ok_def)
  have "e \<in># group_members rt db g" by (simp add: g(1))
  then have "e \<in> set (txs rt db)" by (simp add: group_members_def)
  with wf_db_txs [OF good_parts(3) [OF good]] have "wf_tx rt e" by blast
  with g(2) have "0 < tx_amountMinor e" by (auto simp: wf_tx_def elim!: companion_of_cases)
  with g mem show ?thesis by auto
qed

text \<open>
  A default or system category is never deleted, renamed, given another kind or
  archived: after any requests it is there with its name, kind, system key and default flag.
\<close>

lemma default_categories_are_kept:
  assumes "(served rt)\<^sup>*\<^sup>* db db'" "sound rt db" "paired rt db" "case_tables_ok rt"
    and "r \<in> set (db_categories db)" "protected_category r"
  shows "\<exists>q\<in>set (db_categories db'). same_category r q"
proof -
  have run: "(ledger_change rt)\<^sup>*\<^sup>* db db'" using served_changes [OF assms(1) _ assms(4)] assms(2,3) by (simp add: good_def)
  have start: "\<exists>q\<in>set (db_categories db). same_category r q" using assms(5) by (auto simp: same_category_def)
  have step: "\<exists>q\<in>set (db_categories y). same_category r q"
    if ch: "ledger_change rt x y" and s: "sound rt x" and q: "\<exists>q\<in>set (db_categories x). same_category r q" for x y
  proof -
    from q obtain q where q: "q \<in> set (db_categories x)" "same_category r q" by blast
    then have "protected_category q" using assms(6) by (simp add: same_category_def protected_category_def)
    from change_protected [OF ch sound_parts(1) [OF s] this q(1)] q(2) show ?thesis
      by (auto simp: same_category_def)
  qed
  show ?thesis
    by (rule changes_induct [OF run assms(2), where P = "\<lambda>y. \<exists>q\<in>set (db_categories y). same_category r q", OF start])
      (rule step)
qed

text \<open>
  Property C5. An adjustment reaches its target: after it the account's balance, derived from its
  live transactions, is the requested one, whether a transaction was recorded or none was needed.
\<close>

theorem adjustment_reaches_target:
  assumes "wf_db rt db" "valid_adjustment_req rt q" "adjustAccountMutation rt d i q db = Inr (res, db')"
    and "requireAccount rt i db' = Inr a" "listActiveTransactionsForAccount rt i db' = Inr ts"
      "deriveCurrentBalance a ts = Inr b"
  shows "b = jq_targetBalanceMinor q"
proof -
  from assms(3) obtain a0 timestamp ts0 actual where a0: "requireActiveAccount rt i db = Inr a0"
    and stamp: "utc_ok rt timestamp" and bal: "deriveCurrentBalance a0 ts0 = Inr actual"
      "listActiveTransactionsForAccount rt (a_id a0) db = Inr ts0"
    and delta: "is_safe (jq_targetBalanceMinor q)" "is_safe actual" "is_safe (jq_targetBalanceMinor q - actual)"
    and run: "(db' = db \<and> jq_targetBalanceMinor q = actual) \<or> (jq_targetBalanceMinor q \<noteq> actual \<and> dep_createId d 0 \<noteq> [] \<and>
       insertTransaction (AdjustmentTx (newBase (dep_createId d 0) None (jq_targetBalanceMinor q - actual) (jq_occurredAt q) []
         (jq_note q) timestamp) (a_id a0) actual (jq_targetBalanceMinor q)) db = Inr db')"
    unfolding adjustAccountMutation_def bindR_eq_Inr guard_Inr generatedTimestamp_Inr generatedId_Inr checkedSubMinor_Inr
    by (auto simp: Let_def bindR_eq_Inr generatedId_Inr split: if_splits)
  note r0 = requireActiveAccount_read [OF assms(1) a0]
  have spec: "actual = balance_spec a0 (txs rt db)" using derived_spec [OF assms(1) _ bal(2,1)] r0 by blast
  from run show ?thesis
  proof (elim disjE conjE)
    assume same: "db' = db" "jq_targetBalanceMinor q = actual"
    have "a = a0" using assms(4) requireActive_require [OF a0] same(1) by simp
    with derived_spec [OF assms(1), of a ts b] assms(5,6) same r0 spec show ?thesis by simp
  next
    let ?t = "AdjustmentTx (newBase (dep_createId d 0) None (jq_targetBalanceMinor q - actual) (jq_occurredAt q) []
         (jq_note q) timestamp) (a_id a0) actual (jq_targetBalanceMinor q)"
    assume ins: "insertTransaction ?t db = Inr db'" and new: "dep_createId d 0 \<noteq> []" "jq_targetBalanceMinor q \<noteq> actual"
    have wf: "wf_tx rt ?t" using new delta r0 assms(2) stamp
      by (auto simp: wf_tx_def wf_newBase wf_account_def valid_adjustment_req_def)
    have fks: "tx_fks db (transactionParams ?t)" "lookup_by rt_id (tx_id ?t) (db_transactions db) = None"
      and db': "db' = db\<lparr>db_transactions := db_transactions db @ [transactionParams ?t]\<rparr>"
      using ins by (simp_all only: insertTransaction_Inr)
    have wf': "wf_db rt db'" unfolding db' by (rule wf_db_added [OF assms(1) wf fks])
    have "requireAccount rt i db' = requireAccount rt i db" by (simp add: db' requireAccount_def getAccount_def)
    then have "a = a0" using assms(4) requireActive_require [OF a0] by simp
    with derived_spec [OF wf', of a ts b] assms(5,6) r0 have "b = balance_spec a0 (txs rt db')" by simp
    also have "\<dots> = balance_spec a0 (txs rt db) + (jq_targetBalanceMinor q - actual)"
      unfolding db' balance_spec_added [OF wf] by (simp add: effect_def)
    finally show ?thesis using spec by simp
  qed
qed

section \<open>Databases for the witnesses\<close>

lemma account_ok_wf: "wf_account rt a \<Longrightarrow> icon_check (ra_icon (accountParams a)) \<Longrightarrow> account_ok rt (accountParams a)"
  unfolding account_ok_def by (auto simp: accountOfRow_Inr)

definition demo_savings :: account where
  "demo_savings = demo_account\<lparr>a_id := js ''sav''\<rparr>"

lemma demo_icon: "icon_check (js ''wallet'')"
  by (simp add: icon_check_def)

lemma wf_demo_savings: "wf_account demo_runtime demo_savings"
  using wf_demo_account by (simp add: wf_account_def demo_savings_def)

lemma demo_savings_ok: "account_ok demo_runtime (accountParams demo_savings)"
  by (rule account_ok_wf [OF wf_demo_savings]) (simp add: demo_savings_def demo_account_def accountParams_def demo_icon)

definition demo_db2 :: ledger_db where
  "demo_db2 = demo_db\<lparr>db_accounts := db_accounts demo_db @ [accountParams demo_savings],
     db_settings := Some (settingsParams demo_runtime demo_settings)\<rparr>"

definition demo_transfer :: tx where
  "demo_transfer = TransferTx (demo_base\<lparr>t_id := js ''t2'', t_groupId := Some (js ''g'')\<rparr>) Withdrawal (Some Extra)
     (js ''acc'') (js ''sav'') []"

definition demo_fee :: tx where
  "demo_fee = ExpenseTx (demo_base\<lparr>t_id := js ''t3'', t_groupId := Some (js ''g''), t_amountMinor := 3\<rparr>)
     (js ''acc'') (js ''cat'') []"

definition demo_db3 :: ledger_db where
  "demo_db3 = demo_db2\<lparr>db_transactions := db_transactions demo_db2 @ [transactionParams demo_transfer]\<rparr>"

definition demo_db4 :: ledger_db where
  "demo_db4 = demo_db3\<lparr>db_transactions := db_transactions demo_db3 @ [transactionParams demo_fee]\<rparr>"

lemma demo_account_row: "account_row_of demo_db (js ''acc'') = Some (accountParams demo_account)"
  by (simp add: account_row_of_def demo_db_def demo_account_def accountParams_def)

lemma demo_db2_sound: "sound demo_runtime demo_db2"
proof (rule ledger_change_sound [OF _ demo_sound])
  show "ledger_change demo_runtime demo_db demo_db2"
    unfolding demo_db2_def
    by (rule account_created [OF _ demo_savings_ok _ _ _ _ wf_demo_settings])
      (auto simp: demo_db_def account_row_of_def demo_savings_def demo_account_def accountParams_def settingsParams_def
        demo_settings_def same_settings_def)
qed

lemma demo_usable: "a = demo_account \<or> a = demo_savings \<Longrightarrow> account_usable demo_runtime (settingsParams demo_runtime demo_settings) 0 (accountParams a)"
  using demo_boundary
  by (auto simp: account_usable_def accountParams_def settingsParams_def demo_settings_def demo_savings_def demo_account_def)

lemma demo_db2_rows:
  "account_row_of demo_db2 (js ''acc'') = Some (accountParams demo_account)"
  "account_row_of demo_db2 (js ''sav'') = Some (accountParams demo_savings)"
  "db_settings demo_db2 = Some (settingsParams demo_runtime demo_settings)"
  "lookup_by rc_id (js ''cat'') (db_categories demo_db2) = Some (categoryParams demo_category)"
  "db_transactions demo_db2 = [transactionParams demo_expense]"
  by (simp_all add: demo_db2_def demo_db_def account_row_of_def demo_savings_def demo_account_def accountParams_def
      demo_category_def categoryParams_def)

lemma wf_demo_group: "wf_tx demo_runtime demo_transfer" "wf_tx demo_runtime demo_fee"
  by (simp_all add: wf_tx_def wf_tx_base_def demo_transfer_def demo_fee_def demo_base_def demo_runtime_def utc_ok_def
      opt_utc_ok_def is_safe_def MAX_SAFE_def)

lemma demo_active: "ra_archived_at (accountParams demo_account) = None" "ra_archived_at (accountParams demo_savings) = None"
  by (simp_all add: demo_savings_def demo_account_def accountParams_def)

lemma demo_db3_change: "ledger_change demo_runtime demo_db2 demo_db3"
  unfolding demo_db3_def
proof (rule transaction_created [OF wf_demo_group(1)])
  show "tx_valid demo_runtime demo_db2 demo_transfer"
    using demo_db2_rows demo_usable
    by (simp add: tx_valid_def tx_shape_valid_def demo_transfer_def demo_base_def has_nature_def)
      (simp add: demo_savings_def demo_account_def accountParams_def)
  show "tx_fks demo_db2 (transactionParams demo_transfer)"
    using demo_db2_rows by (simp add: tx_fks_def fk_def demo_transfer_def commonParams_def account_row_of_def)
  show "lookup_by rt_id (tx_id demo_transfer) (db_transactions demo_db2) = None"
    using demo_db2_rows by (simp add: demo_transfer_def demo_expense_def demo_base_def commonParams_def)
  show "\<forall>i\<in>set (tx_accounts demo_transfer). \<forall>a. account_row_of demo_db2 i = Some a \<longrightarrow> ra_archived_at a = None"
    using demo_db2_rows demo_active by (auto simp: demo_transfer_def)
qed (simp_all add: demo_transfer_def demo_base_def)

lemma demo_db4_change: "ledger_change demo_runtime demo_db3 demo_db4"
  unfolding demo_db4_def
proof (rule transaction_created [OF wf_demo_group(2)])
  have rows: "account_row_of demo_db3 i = account_row_of demo_db2 i" "db_settings demo_db3 = db_settings demo_db2"
    "db_categories demo_db3 = db_categories demo_db2" "db_accounts demo_db3 = db_accounts demo_db2" for i
    by (simp_all add: demo_db3_def)
  show "tx_valid demo_runtime demo_db3 demo_fee"
    using demo_db2_rows demo_usable
    by (simp add: tx_valid_def tx_shape_valid_def demo_fee_def demo_base_def has_kind_def rows)
      (simp add: demo_category_def categoryParams_def)
  show "tx_fks demo_db3 (transactionParams demo_fee)"
    using demo_db2_rows by (simp add: tx_fks_def fk_def demo_fee_def commonParams_def account_row_of_def rows)
  show "lookup_by rt_id (tx_id demo_fee) (db_transactions demo_db3) = None"
    using demo_db2_rows
    by (simp add: demo_db3_def demo_fee_def demo_transfer_def demo_expense_def demo_base_def commonParams_def)
  show "\<forall>i\<in>set (tx_accounts demo_fee). \<forall>a. account_row_of demo_db3 i = Some a \<longrightarrow> ra_archived_at a = None"
    using demo_db2_rows demo_active by (auto simp: demo_fee_def rows)
qed (simp_all add: demo_fee_def demo_base_def)

lemma demo_db4_txs: "txs demo_runtime demo_db4 = [demo_expense, demo_transfer, demo_fee]"
  by (simp add: txs_def demo_db4_def demo_db3_def demo_db2_rows wf_demo_group)

lemma demo_db4_good: "good demo_runtime demo_db4"
proof -
  have "sound demo_runtime demo_db4"
    using demo_db2_sound ledger_change_sound demo_db3_change demo_db4_change by blast
  moreover have "group_members demo_runtime demo_db4 g = (if g = js ''g'' then {#demo_transfer, demo_fee#} else {#})" for g
    by (simp add: group_members_def demo_db4_txs live_in_def demo_expense_def demo_transfer_def demo_fee_def demo_base_def)
  moreover have "companion_of demo_transfer demo_fee" by (simp add: demo_transfer_def demo_fee_def)
  ultimately show ?thesis by (auto simp: good_def paired_def group_ok_def)
qed

definition demo_adjustment :: adjustment_req where
  "demo_adjustment = \<lparr>jq_targetBalanceMinor = 0, jq_expectedCalculatedBalanceMinor = 300, jq_occurredAt = 0, jq_note = []\<rparr>"

definition demo_adjusted :: tx where
  "demo_adjusted = AdjustmentTx (newBase (js ''new'') None (-300) 0 [] [] 7) (js ''acc'') 300 0"

definition demo_db5 :: ledger_db where
  "demo_db5 = demo_db\<lparr>db_transactions := db_transactions demo_db @ [transactionParams demo_adjusted]\<rparr>"

lemma demo_read:
  "\<exists>s. requireSettings demo_runtime demo_db = Inr s \<and> s_baseCurrency s = js ''USD'' \<and> s_timezone s = js ''UTC''"
  "requireAccount demo_runtime (js ''acc'') demo_db = Inr demo_account"
proof -
  have "db_settings demo_db = Some (settingsParams demo_runtime demo_settings)" by (simp add: demo_db_def)
  then show "\<exists>s. requireSettings demo_runtime demo_db = Inr s \<and> s_baseCurrency s = js ''USD'' \<and> s_timezone s = js ''UTC''"
    using settings_row_decode [THEN iffD2, OF conjI, OF wf_demo_settings refl]
    by (simp add: requireSettings_def getSettings_def bindR_def) (simp add: demo_settings_def)
  have "icon_check (ra_icon (accountParams demo_account))" by (simp add: demo_icon accountParams_def demo_account_def)
  then show "requireAccount demo_runtime (js ''acc'') demo_db = Inr demo_account"
    using demo_account_row wf_demo_account
    by (simp add: requireAccount_def getAccount_def account_row_of_def accountOfRow_Inr [THEN iffD2])
qed

lemma wf_demo_adjusted: "wf_tx demo_runtime demo_adjusted"
  by (simp add: wf_tx_def wf_newBase demo_adjusted_def demo_runtime_def utc_ok_def is_safe_def MAX_SAFE_def)

lemma demo_adjust_fks: "tx_fks demo_db (transactionParams demo_adjusted)"
  "lookup_by rt_id (tx_id demo_adjusted) (db_transactions demo_db) = None"
  by (simp_all add: tx_fks_def fk_def demo_adjusted_def commonParams_def demo_db_def demo_account_def accountParams_def
      demo_expense_def demo_base_def newBase_def)

lemma demo_insert: "insertTransaction demo_adjusted demo_db = Inr demo_db5"
  unfolding insertTransaction_Inr demo_db5_def using demo_adjust_fks
  by (simp add: tx_check_def tx_shape_check_def tx_trigger_check_def demo_adjusted_def commonParams_def newBase_def)

lemma wf_demo_db5: "wf_db demo_runtime demo_db5"
  unfolding demo_db5_def by (rule wf_db_added [OF wf_demo_db wf_demo_adjusted demo_adjust_fks])

lemma demo_db5_txs: "txs demo_runtime demo_db5 = [demo_expense, demo_adjusted]"
  using wf_demo_adjusted by (simp add: txs_def demo_db5_def wf_demo_expense)

lemma demo_list5: "\<exists>ts. listActiveTransactionsForAccount demo_runtime (js ''acc'') demo_db5 = Inr ts
   \<and> deriveCurrentBalance demo_account ts = Inr 0"
proof -
  define P where "P = (\<lambda>r. rt_deleted_at r = None \<and> references_account (js ''acc'') r)"
  define ts where "ts = map (tx_of demo_runtime) (newest_first (filter P (db_transactions demo_db5)))"
  have l: "listActiveTransactionsForAccount demo_runtime (js ''acc'') demo_db5 = Inr ts"
    unfolding listActiveTransactionsForAccount_def ts_def P_def by (rule selectTransactions_wf [OF wf_demo_db5])
  have "mset ts = image_mset (tx_of demo_runtime) (filter_mset P (mset (db_transactions demo_db5)))"
    by (simp add: ts_def)
  also have "\<dots> = {#demo_expense, demo_adjusted#}"
    using wf_demo_adjusted wf_demo_expense
    by (simp add: P_def demo_db5_def references_tx_accounts) (simp add: demo_adjusted_def commonParams_def newBase_def)
  finally have m: "mset ts = {#demo_expense, demo_adjusted#}" .
  then have two: "ts = [demo_expense, demo_adjusted] \<or> ts = [demo_adjusted, demo_expense]"
  proof -
    have "size (mset ts) = 2" by (simp add: m)
    then obtain x y where "ts = [x, y]" by (cases ts; cases "tl ts") auto
    with m show ?thesis by (auto simp: add_eq_conv_ex)
  qed
  have eff: "effect Asset (js ''acc'') demo_expense = -200" "effect Asset (js ''acc'') demo_adjusted = -300"
    by (simp_all add: effect_def demo_expense_def demo_base_def demo_adjusted_def side_def)
  have pre: "is_safe (sum_list (map (effect Asset (js ''acc'')) (take k ts)))" for k
    using two by (cases k; cases "k - 1") (auto simp: eff is_safe_def MAX_SAFE_def take_Cons')
  have "deriveCurrentBalance demo_account ts = Inr 0"
    using two wf_demo_expense wf_demo_adjusted pre
    by (subst deriveCurrentBalance_Inr [where rt = demo_runtime])
      (auto simp: balance_spec_def eff demo_account_def is_safe_def MAX_SAFE_def)
  with l show ?thesis by blast
qed

lemma demo_adjust_runs: "\<exists>res. adjustAccountMutation demo_runtime demo_deps (js ''acc'') demo_adjustment demo_db = Inr (res, demo_db5)"
proof -
  obtain s where s: "requireSettings demo_runtime demo_db = Inr s" "s_baseCurrency s = js ''USD''" "s_timezone s = js ''UTC''"
    using demo_read(1) by blast
  have act: "requireActiveAccount demo_runtime (js ''acc'') demo_db = Inr demo_account"
    using demo_read(2) by (simp add: requireActiveAccount_def demo_account_def)
  have id: "a_id demo_account = js ''acc''" "a_currency demo_account = js ''USD''" by (simp_all add: demo_account_def)
  have cur: "assertTransactionCurrency s demo_account = Inr ()" using s(2) by (simp add: assertTransactionCurrency_def id)
  have time: "assertTransactionTime demo_runtime s [demo_account] 0 7 = Inr ()"
    using demo_boundary s(3)
    by (simp add: assertTransactionTime_Inr validateOccurredAt_Inr) (simp add: demo_runtime_def is_safe_def MAX_SAFE_def)
  have now: "generatedTimestamp demo_runtime demo_deps 0 = Inr 7"
    by (simp add: generatedTimestamp_Inr demo_deps_def utc_ok_def demo_runtime_def is_safe_def MAX_SAFE_def)
  have new: "generatedId demo_deps 0 = Inr (js ''new'')" by (simp add: generatedId_Inr demo_deps_def)
  have delta: "checkedSubMinor 0 300 = Inr (-300)" by (simp add: is_safe_def MAX_SAFE_def)
  have dto: "\<exists>dto. toAccountDto demo_runtime demo_account demo_db5 = Inr dto"
    using demo_list5 currencyExponentFor_USD
    by (auto simp: toAccountDto_def id bindR_eq_Inr)
  show ?thesis
    using dto by (auto simp: adjustAccountMutation_def s act cur time now demo_list demo_derived id demo_adjustment_def delta new Let_def
      demo_insert [unfolded demo_adjusted_def])
qed

theorem adjustment_reaches_target_witness:
  "\<exists>res ts. adjustAccountMutation demo_runtime demo_deps (js ''acc'') demo_adjustment demo_db = Inr (res, demo_db5)
     \<and> listActiveTransactionsForAccount demo_runtime (js ''acc'') demo_db5 = Inr ts
     \<and> (\<forall>b. deriveCurrentBalance demo_account ts = Inr b \<longrightarrow> b = 0)"
proof -
  obtain res where run: "adjustAccountMutation demo_runtime demo_deps (js ''acc'') demo_adjustment demo_db = Inr (res, demo_db5)"
    using demo_adjust_runs by blast
  obtain ts where ts: "listActiveTransactionsForAccount demo_runtime (js ''acc'') demo_db5 = Inr ts" using demo_list5 by blast
  have valid: "valid_adjustment_req demo_runtime demo_adjustment"
    by (simp add: valid_adjustment_req_def demo_adjustment_def is_safe_def MAX_SAFE_def utc_ok_def demo_runtime_def)
  have acct: "requireAccount demo_runtime (js ''acc'') demo_db5 = Inr demo_account"
    using demo_read(2) by (simp add: demo_db5_def requireAccount_def getAccount_def)
  have "b = 0" if "deriveCurrentBalance demo_account ts = Inr b" for b
    using adjustment_reaches_target [OF wf_demo_db valid run acct ts that] by (simp add: demo_adjustment_def)
  with run ts show ?thesis by blast
qed

text \<open>The adjusted account can be archived.\<close>

definition demo_archived :: account where
  "demo_archived = demo_account\<lparr>a_archivedAt := Some 8, a_version := 2, a_updatedAt := 8\<rparr>"

definition demo_db6 :: ledger_db where
  "demo_db6 = demo_db5\<lparr>db_accounts := replace_by ra_id (accountParams demo_archived) (db_accounts demo_db5)\<rparr>"

lemma wf_demo_archived: "wf_account demo_runtime demo_archived"
  using wf_demo_account
  by (simp add: wf_account_def demo_archived_def demo_account_def opt_utc_ok_def utc_ok_def demo_runtime_def is_safe_def MAX_SAFE_def)

lemma demo_archived_icon: "icon_check (ra_icon (accountParams demo_archived))"
  by (simp add: demo_archived_def demo_account_def accountParams_def demo_icon)

lemma demo_db5_sound: "sound demo_runtime demo_db5"
proof (rule ledger_change_sound [OF _ demo_sound])
  have "tx_valid demo_runtime demo_db demo_adjusted"
    using demo_usable [of demo_account] demo_account_row
    by (simp add: tx_valid_def tx_shape_valid_def demo_adjusted_def newBase_def) (simp add: demo_db_def)
  then show "ledger_change demo_runtime demo_db demo_db5" unfolding demo_db5_def
    by (rule transaction_created [OF wf_demo_adjusted _ demo_adjust_fks])
      (use demo_account_row demo_active in \<open>simp_all add: demo_adjusted_def newBase_def\<close>)
qed

lemma demo_db6_sound: "sound demo_runtime demo_db6"
proof (rule ledger_change_sound [OF _ demo_db5_sound])
  have bal: "row_balance demo_runtime demo_db5 (accountParams demo_archived) = 0"
    unfolding row_balance_params [OF wf_demo_archived demo_archived_icon]
    by (simp add: balance_spec_def demo_db5_txs demo_archived_def demo_account_def effect_def demo_expense_def demo_base_def
        demo_adjusted_def newBase_def side_def)
  have row: "account_row_of demo_db5 (js ''acc'') = Some (accountParams demo_account)"
    using demo_account_row by (simp add: demo_db5_def)
  show "ledger_change demo_runtime demo_db5 demo_db6" unfolding demo_db6_def
    by (rule account_changed [where old = "accountParams demo_account"], use row in \<open>simp add: demo_archived_def demo_account_def accountParams_def\<close>)
      (use bal account_ok_wf [OF wf_demo_archived demo_archived_icon] in
        \<open>simp_all add: same_interpretation_def, simp_all add: demo_archived_def demo_account_def accountParams_def\<close>)
qed

theorem fees_follow_their_transfer_witness:
  "\<exists>tr e. group_members demo_runtime demo_db4 (js ''g'') = {#tr, e#} \<and> companion_of tr e
     \<and> (demo_fee = tr \<or> demo_fee = e) \<and> 0 < tx_amountMinor e"
  by (rule fees_follow_their_transfer [OF rtranclp.rtrancl_refl good_parts(1,2) [OF demo_db4_good] demo_case_tables])
    (simp_all add: demo_db4_txs live_in_def, simp_all add: demo_fee_def demo_base_def)

definition demo_salary :: category where
  "demo_salary = demo_category\<lparr>c_id := js ''sal'', c_kind := IncomeKind, c_isDefault := True\<rparr>"

definition demo_db7 :: ledger_db where
  "demo_db7 = demo_db\<lparr>db_categories := db_categories demo_db @ [categoryParams demo_salary]\<rparr>"

lemma demo_salary_ok: "category_ok demo_runtime (categoryParams demo_salary)"
proof -
  have "wf_category demo_runtime demo_salary"
  proof -
    have "normalizeLedgerCategoryName demo_runtime (js ''Food'') = js ''food''"
      using wf_demo_category by (simp add: wf_category_def demo_category_def)
    with wf_demo_category show ?thesis by (simp add: wf_category_def demo_salary_def demo_category_def)
  qed
  moreover have "icon_check (rc_icon (categoryParams demo_salary))"
    by (simp add: demo_salary_def demo_category_def categoryParams_def demo_icon)
  ultimately show ?thesis unfolding category_ok_def by (auto simp: categoryOfRow_Inr)
qed

lemma demo_db7_good: "good demo_runtime demo_db7"
proof -
  have "ledger_change demo_runtime demo_db demo_db7" unfolding demo_db7_def
    by (rule category_created [OF demo_salary_ok])
      (simp_all add: demo_db_def demo_salary_def demo_category_def categoryParams_def category_unique_def)
  then have "sound demo_runtime demo_db7" using demo_sound by (rule ledger_change_sound)
  moreover have "paired demo_runtime demo_db7" using good_parts(2) [OF demo_good] by (simp add: demo_db7_def)
  ultimately show ?thesis by (simp add: good_def)
qed

lemma mapR_all: "\<forall>x\<in>set xs. \<exists>y. f x = Inr y \<and> P y \<Longrightarrow> \<exists>ys. mapR f xs = Inr ys \<and> list_all P ys"
  by (induction xs) auto

text \<open>
  Property C28. A deletion that is due is carried out: a live transaction outside a group, whose
  accounts are not archived, is deleted by a request that names its version, provided the clock is
  in range, the version can still grow and no other writer holds the database.
\<close>

theorem due_deletions_succeed:
  assumes "sound rt db" "t \<in> set (txs rt db)" "tx_deletedAt t = None" "tx_groupId t = None" "accounts_active db t"
    and "utc_ok rt (dep_now d 0)" "tx_version t < MAX_SAFE" "\<not> write_locked rt"
  shows "\<exists>dto db'. deleteTransaction rt d (tx_id t) (JObj [(js ''expectedVersion'', JInt (tx_version t))]) db = (Inr dto, db')
    \<and> (\<exists>u\<in>set (txs rt db'). tx_id u = tx_id t \<and> tx_deletedAt u = Some (dep_now d 0))"
proof -
  note wf = sound_parts(1) [OF assms(1)]
  from sound_parts(4) [OF assms(1,2)] obtain st where st: "db_settings db = Some st"
    and accts: "\<forall>i\<in>set (tx_accounts t). \<exists>a. account_row_of db i = Some a" unfolding tx_valid_def by blast
  from wf st obtain s0 where "wf_settings rt s0" "st = settingsParams rt s0" by (auto simp: wf_db_def)
  then obtain s where s: "requireSettings rt db = Inr s" using st
    by (simp add: requireSettings_def getSettings_def bindR_def settings_row_decode [THEN iffD2, OF conjI, OF _ refl])
  obtain r where r: "r \<in> set (db_transactions db)" "r = transactionParams t" "wf_tx rt t"
    using txs_in_db [OF wf assms(2)] by blast
  have look: "lookup_by rt_id (tx_id t) (db_transactions db) = Some (transactionParams t)"
    using lookup_by_mem [OF wf_db_parts(6) [OF wf] r(1)] r(2) by simp
  have get: "requireUserTransaction rt (tx_id t) db = Inr t"
    using look r(3) assms(4) by (simp add: requireUserTransaction_def getTransaction_def bindR_def)
  have "\<exists>a. requireAccount rt i db = Inr a \<and> a_archivedAt a = None" if i: "i \<in> set (tx_accounts t)" for i
  proof -
    from accts i obtain row where row: "account_row_of db i = Some row" by blast
    then have "row \<in> set (db_accounts db)" by (auto simp: account_row_of_def dest: lookup_by_SomeD)
    with wf_db_account [OF wf] have ok: "account_ok rt row" by blast
    then obtain a where a: "row = accountParams a" "accountOfRow rt row = Inr a" by (rule account_okE)
    moreover have "ra_archived_at row = None" using assms(5) i row by (auto simp: accounts_active_def)
    ultimately show ?thesis using row
      by (simp add: requireAccount_def getAccount_def account_row_of_def bindR_def) (simp add: accountParams_def)
  qed
  then obtain as where as: "transactionAccounts rt t db = Inr as" "list_all (\<lambda>a. a_archivedAt a = None) as"
    using mapR_all [of "tx_accounts t" "\<lambda>i. requireAccount rt i db" "\<lambda>a. a_archivedAt a = None"]
    by (auto simp: transactionAccounts_def transactionAccountIds_eq)
  then have act: "assertTransactionAccountsNotArchived rt t db = Inr ()"
    by (auto simp: assertTransactionAccountsNotArchived_def someArchived_def list_ex_iff list_all_iff)
  have "1 \<le> tx_version t" "is_safe (tx_version t)" using r(3) by (simp_all add: wf_tx_def wf_tx_base_def)
  then have cmd: "parseExpectedVersionCommand (JObj [(js ''expectedVersion'', JInt (tx_version t))]) = Inr (tx_version t)"
    by (simp add: parseExpectedVersionCommand_def asRecord_Inr [THEN iffD2] parseExpectedVersion_Inr
        assertExactKeys_def bindR_def)
  define at where "at = dep_now d 0"
  have now: "generatedTimestamp rt d 0 = Inr at" using assms(6) by (simp add: generatedTimestamp_Inr at_def)
  let ?u = "deletedItem at (tx_version t + 1) t"
  define db' where "db' = db\<lparr>db_transactions := replace_by rt_id (transactionParams ?u) (db_transactions db)\<rparr>"
  have del: "softDeleteTransaction (tx_id t) at (tx_version t + 1) at (tx_version t) db = Inr (Suc 0, db')"
    using look \<open>1 \<le> tx_version t\<close> by (simp add: softDeleteTransaction_def params_deleted db'_def)
  then have grp: "softDeleteGroup t at [t] None db = Inr (Some ?u, db')"
    using assms(3,7) by (simp add: nextVersion_def expectOneChange_def)
  have "\<exists>dto. deleteTransactionMutation rt d (tx_id t) (JObj [(js ''expectedVersion'', JInt (tx_version t))]) db = Inr (dto, db')"
    using assms(3,4) by (simp add: deleteTransactionMutation_def s get act cmd now grp assertExpectedVersion_def del: softDeleteGroup.simps)
  then have "\<exists>dto. deleteTransaction rt d (tx_id t) (JObj [(js ''expectedVersion'', JInt (tx_version t))]) db = (Inr dto, db')"
    using assms(8) by (auto simp: deleteTransaction_def runLedgerWrite_def)
  moreover have "?u \<in> set (txs rt db')"
    using txs_replaced_mem(2) [OF wf deletedItem_wf [OF r(3)] r(3) assms(2)] look assms(6,7) by (simp add: db'_def at_def)
  then have "\<exists>u\<in>set (txs rt db'). tx_id u = tx_id t \<and> tx_deletedAt u = Some (dep_now d 0)"
    by (rule bexI [rotated]) (simp add: at_def)
  ultimately show ?thesis by blast
qed

theorem due_deletions_succeed_witness:
  "\<exists>dto db'. deleteTransaction demo_runtime demo_deps (js ''t1'') (JObj [(js ''expectedVersion'', JInt 1)]) demo_db = (Inr dto, db')
    \<and> (\<exists>u\<in>set (txs demo_runtime db'). tx_id u = js ''t1'' \<and> tx_deletedAt u = Some 7)"
proof -
  have "accounts_active demo_db demo_expense"
    using demo_account_row demo_active by (simp add: accounts_active_def demo_expense_def)
  from due_deletions_succeed [OF demo_sound _ _ _ this, of demo_deps] show ?thesis
    by (simp add: demo_txs) (simp add: demo_expense_def demo_base_def demo_deps_def utc_ok_def demo_runtime_def is_safe_def MAX_SAFE_def)
qed

end
