(* ===== verification/LedgerReports.thy ===== *)
theory LedgerReports
  imports LedgerSystem LedgerProjections
begin

text \<open>
  What the read models show: the cash flow, breakdown, trends and totals are exact sums over the
  stored transactions, the pages behind a cursor list every transaction once, and the balances next
  to the transactions of an account are its balances after each of them.
\<close>

section \<open>Cash flow\<close>

primrec income_of :: "tx \<Rightarrow> int" where
  "income_of (IncomeTx b acct cat payee) = t_amountMinor b"
| "income_of (ExpenseTx b acct cat payee) = 0"
| "income_of (TransferTx b kind fee src dst payee) = 0"
| "income_of (AdjustmentTx b acct calculated target) = 0"

primrec expense_of :: "tx \<Rightarrow> int" where
  "expense_of (IncomeTx b acct cat payee) = 0"
| "expense_of (ExpenseTx b acct cat payee) = t_amountMinor b"
| "expense_of (TransferTx b kind fee src dst payee) = 0"
| "expense_of (AdjustmentTx b acct calculated target) = 0"

primrec repayment_of :: "tx \<Rightarrow> int" where
  "repayment_of (IncomeTx b acct cat payee) = 0"
| "repayment_of (ExpenseTx b acct cat payee) = 0"
| "repayment_of (TransferTx b kind fee src dst payee) = (if kind = Repayment then t_amountMinor b else 0)"
| "repayment_of (AdjustmentTx b acct calculated target) = 0"

definition total_of :: "(tx \<Rightarrow> int) \<Rightarrow> tx list \<Rightarrow> int" where
  "total_of f ts = sum_list (map f ts)"

lemma total_simps [simp]: "total_of f [] = 0" "total_of f (t # ts) = f t + total_of f ts" "total_of f (xs @ ys) = total_of f xs + total_of f ys"
  by (simp_all add: total_of_def)

lemma cashflowLoop_value:
  "cashflowLoop acc ts = Inr (i, e, r) \<Longrightarrow>
   i = fst acc + total_of income_of ts \<and> e = fst (snd acc) + total_of expense_of ts \<and> r = snd (snd acc) + total_of repayment_of ts"
proof (induction ts arbitrary: acc)
  case (Cons t ts)
  obtain x y z where acc: "acc = (x, y, z)" by (cases acc)
  show ?case using Cons.prems Cons.IH acc
    by (cases t) (auto simp: bindR_eq_Inr split: if_splits dest!: Cons.IH)
qed simp

definition is_cashflow :: "cashflow \<Rightarrow> tx list \<Rightarrow> bool" where
  "is_cashflow c ts \<longleftrightarrow> cf_incomeMinor c = total_of income_of ts \<and> cf_expenseMinor c = total_of expense_of ts
     \<and> cf_repaymentMinor c = total_of repayment_of ts \<and> cf_balanceMinor c = cf_incomeMinor c - cf_expenseMinor c"

lemma cashflow_value: "cashflowForTransactions ts = Inr c \<Longrightarrow> is_cashflow c ts"
  by (auto simp: cashflowForTransactions_def bindR_eq_Inr is_cashflow_def dest!: cashflowLoop_value)

section \<open>Breakdown\<close>

text \<open>What a category contributes: incomes for an income category, expenses for an expense category.\<close>

primrec amount_in :: "category_kind \<Rightarrow> ustr \<Rightarrow> tx \<Rightarrow> int" where
  "amount_in k i (IncomeTx b acct cat payee) = (if k = IncomeKind \<and> cat = i then t_amountMinor b else 0)"
| "amount_in k i (ExpenseTx b acct cat payee) = (if k = ExpenseKind \<and> cat = i then t_amountMinor b else 0)"
| "amount_in k i (TransferTx b kind fee src dst payee) = 0"
| "amount_in k i (AdjustmentTx b acct calculated target) = 0"

definition amount_of :: "(ustr \<times> int) list \<Rightarrow> ustr \<Rightarrow> int" where
  "amount_of g i = (case map_of g i of None \<Rightarrow> 0 | Some n \<Rightarrow> n)"

lemma map_of_put [simp]: "map_of (map_put k v g) = (map_of g)(k \<mapsto> v)"
  by (induction g) auto

lemma keys_put: "fst ` set (map_put k v g) = insert k (fst ` set g)"
  by (induction g) auto

lemma distinct_put: "distinct (map fst g) \<Longrightarrow> distinct (map fst (map_put k v g))"
proof (induction g)
  case (Cons p g)
  then show ?case using keys_put [of k v g] by (auto simp: image_iff)
qed simp

lemma sum_put: "distinct (map fst g) \<Longrightarrow> sum_list (map snd (map_put k v g)) = sum_list (map snd g) + v - amount_of g k"
proof (induction g)
  case (Cons p g)
  then have "amount_of g (fst p) = 0" by (auto simp: amount_of_def split: option.split dest: map_of_SomeD intro: rev_image_eqI)
  with Cons show ?case by (cases p) (auto simp: amount_of_def)
qed (simp add: amount_of_def)

definition sums_to :: "(ustr \<times> int) list \<Rightarrow> category_kind \<Rightarrow> tx list \<Rightarrow> bool" where
  "sums_to g k ts \<longleftrightarrow> distinct (map fst g) \<and> (\<forall>i. amount_of g i = total_of (amount_in k i) ts)
     \<and> sum_list (map snd g) = total_of (if k = IncomeKind then income_of else expense_of) ts"

lemma sums_to_snoc:
  assumes "sums_to g k ts" "addToGroup categories k cat n g = Inr g'"
    and "\<And>i. amount_in k i t = (if i = cat then n else 0)" "(if k = IncomeKind then income_of else expense_of) t = n"
  shows "sums_to g' k (ts @ [t])"
proof -
  from assms(2) have g': "g' = map_put cat (amount_of g cat + n) g"
    by (auto simp: addToGroup_def amount_of_def bindR_eq_Inr split: option.splits if_splits)
  have "amount_of g' i = (if i = cat then amount_of g cat + n else amount_of g i)" for i
    by (simp add: g' amount_of_def)
  moreover have "sum_list (map snd g') = sum_list (map snd g) + n"
    using assms(1) by (simp add: g' sum_put sums_to_def)
  ultimately show ?thesis using assms(1,3,4) distinct_put by (auto simp: sums_to_def g')
qed

lemma groupByCategory_sums:
  "groupByCategory categories groups ts = Inr (inc, ex) \<Longrightarrow> sums_to (fst groups) IncomeKind us \<Longrightarrow>
   sums_to (snd groups) ExpenseKind us \<Longrightarrow> sums_to inc IncomeKind (us @ ts) \<and> sums_to ex ExpenseKind (us @ ts)"
proof (induction ts arbitrary: groups us)
  case (Cons t ts)
  obtain g h where gr: "groups = (g, h)" by (cases groups)
  have skip: "sums_to x k (us @ [t])" if "sums_to x k us" "\<And>i. amount_in k i t = 0"
    "(if k = IncomeKind then income_of else expense_of) t = 0" for x k
    using that by (auto simp: sums_to_def)
  show ?case
  proof (cases t)
    case (IncomeTx b acct cat payee)
    with Cons.prems(1) gr obtain g' where g': "addToGroup categories IncomeKind cat (t_amountMinor b) g = Inr g'"
      "groupByCategory categories (g', h) ts = Inr (inc, ex)" by (auto simp: bindR_eq_Inr)
    have "sums_to g' IncomeKind (us @ [t])"
      by (rule sums_to_snoc [OF _ g'(1)]) (use Cons.prems(2) gr in \<open>auto simp: IncomeTx\<close>)
    moreover have "sums_to h ExpenseKind (us @ [t])" by (rule skip) (use Cons.prems(3) gr in \<open>auto simp: IncomeTx\<close>)
    ultimately show ?thesis using Cons.IH [OF g'(2), of "us @ [t]"] by simp
  next
    case (ExpenseTx b acct cat payee)
    with Cons.prems(1) gr obtain h' where h': "addToGroup categories ExpenseKind cat (t_amountMinor b) h = Inr h'"
      "groupByCategory categories (g, h') ts = Inr (inc, ex)" by (auto simp: bindR_eq_Inr)
    have "sums_to h' ExpenseKind (us @ [t])"
      by (rule sums_to_snoc [OF _ h'(1)]) (use Cons.prems(3) gr in \<open>auto simp: ExpenseTx\<close>)
    moreover have "sums_to g IncomeKind (us @ [t])" by (rule skip) (use Cons.prems(2) gr in \<open>auto simp: ExpenseTx\<close>)
    ultimately show ?thesis using Cons.IH [OF h'(2), of "us @ [t]"] by simp
  next
    case (TransferTx b kind fee src dst payee)
    have "sums_to g IncomeKind (us @ [t])" "sums_to h ExpenseKind (us @ [t])"
      by (rule skip; use Cons.prems gr in \<open>simp add: TransferTx\<close>)+
    with Cons TransferTx gr show ?thesis by (auto dest!: Cons.IH [where us = "us @ [t]"])
  next
    case (AdjustmentTx b acct calculated target)
    have "sums_to g IncomeKind (us @ [t])" "sums_to h ExpenseKind (us @ [t])"
      by (rule skip; use Cons.prems gr in \<open>simp add: AdjustmentTx\<close>)+
    with Cons AdjustmentTx gr show ?thesis by (auto dest!: Cons.IH [where us = "us @ [t]"])
  qed
qed simp

interpretation slice_order: total_preorder slice_le
  by unfold_locales (auto simp: slice_le_def)

definition is_breakdown :: "category_slice list \<Rightarrow> category_kind \<Rightarrow> tx list \<Rightarrow> bool" where
  "is_breakdown s k ts \<longleftrightarrow> sorted_wrt slice_le s \<and> distinct (map sl_categoryId s)
     \<and> (\<forall>x\<in>set s. sl_amountMinor x = total_of (amount_in k (sl_categoryId x)) ts)
     \<and> sum_list (map sl_amountMinor s) = total_of (if k = IncomeKind then income_of else expense_of) ts"

lemma toSlices_breakdown:
  assumes "toSlices categories g = Inr s" "sums_to g k ts"
  shows "is_breakdown s k ts"
proof -
  obtain raw where raw: "mapR (\<lambda>(i, amount).
        case categories i of
          None \<Rightarrow> Inl PlainErr
        | Some c \<Rightarrow> Inr \<lparr>sl_categoryId = i, sl_name = c_name c, sl_kind = c_kind c, sl_amountMinor = amount\<rparr>) g = Inr raw"
    and s: "s = order_by slice_le raw" using assms(1) by (auto simp: toSlices_def bindR_eq_Inr)
  from raw have "list_all2 (\<lambda>p x. sl_categoryId x = fst p \<and> sl_amountMinor x = snd p) g raw"
    unfolding mapR_Inr_iff by (rule list_all2_mono) (auto split: option.splits)
  then have g: "g = map (\<lambda>x. (sl_categoryId x, sl_amountMinor x)) raw"
    by (induction rule: list_all2_induct) auto
  have "sl_amountMinor x = total_of (amount_in k (sl_categoryId x)) ts" if "x \<in> set raw" for x
  proof -
    have "map_of g (sl_categoryId x) = Some (sl_amountMinor x)"
      by (rule map_of_is_SomeI) (use assms(2) that in \<open>auto simp: sums_to_def g\<close>)
    then have "amount_of g (sl_categoryId x) = sl_amountMinor x" by (simp add: amount_of_def del: map_of_eq_Some_iff)
    with assms(2) show ?thesis by (simp add: sums_to_def)
  qed
  moreover have "sum_list (map sl_amountMinor s) = sum_list (map sl_amountMinor raw)"
    unfolding s by (metis mset_map mset_order_by sum_mset_sum_list)
  moreover have "sum_list (map snd g) = sum_list (map sl_amountMinor raw)" by (simp add: g comp_def)
  ultimately show ?thesis using assms(2) slice_order.sorted_order_by [of raw]
    by (simp add: is_breakdown_def sums_to_def s g comp_def)
qed

lemma breakdown_value:
  assumes "categorySlicesForTransactions ts categories = Inr (inc, ex)"
  shows "is_breakdown inc IncomeKind ts \<and> is_breakdown ex ExpenseKind ts"
proof -
  from assms obtain g h where gh: "groupByCategory categories ([], []) ts = Inr (g, h)"
    "toSlices categories g = Inr inc" "toSlices categories h = Inr ex"
    by (auto simp: categorySlicesForTransactions_def bindR_eq_Inr)
  have "sums_to [] k []" for k by (simp add: sums_to_def amount_of_def)
  with groupByCategory_sums [OF gh(1), of "[]"] have "sums_to g IncomeKind ts" "sums_to h ExpenseKind ts" by simp_all
  with gh(2,3) toSlices_breakdown show ?thesis by blast
qed

section \<open>Periods that follow one another\<close>

text \<open>
  A total over consecutive half-open intervals is the total over the interval that they cover.
\<close>

definition within :: "int \<Rightarrow> int \<Rightarrow> tx \<Rightarrow> bool" where
  "within s e t \<longleftrightarrow> s \<le> tx_occurredAt t \<and> tx_occurredAt t < e"

definition consecutive :: "'a time_range_scheme list \<Rightarrow> bool" where
  "consecutive rs \<longleftrightarrow> (\<forall>r\<in>set rs. startMs r \<le> endMs r) \<and> (\<forall>i. Suc i < length rs \<longrightarrow> endMs (rs ! i) = startMs (rs ! Suc i))"

lemma consecutive_Cons: "consecutive (r # rs) \<longleftrightarrow> startMs r \<le> endMs r \<and> consecutive rs
    \<and> (rs \<noteq> [] \<longrightarrow> endMs r = startMs (hd rs))"
proof -
  have "(\<forall>i. Suc i < length (r # rs) \<longrightarrow> endMs ((r # rs) ! i) = startMs ((r # rs) ! Suc i)) \<longleftrightarrow>
      (\<forall>i. Suc i < length rs \<longrightarrow> endMs (rs ! i) = startMs (rs ! Suc i)) \<and> (rs \<noteq> [] \<longrightarrow> endMs r = startMs (hd rs))"
    (is "(\<forall>i. ?P i) \<longleftrightarrow> ?R")
  proof
    assume all: "\<forall>i. ?P i"
    show ?R using all [rule_format, of 0] all [rule_format, of "Suc _"] by (auto simp: hd_conv_nth)
  next
    assume ?R
    then have "?P i" for i by (cases i) (auto simp: hd_conv_nth)
    then show "\<forall>i. ?P i" by blast
  qed
  then show ?thesis by (auto simp: consecutive_def)
qed

lemma total_split: "a \<le> b \<Longrightarrow> b \<le> c \<Longrightarrow> total_of f (filter (within a c) ts) = total_of f (filter (within a b) ts) + total_of f (filter (within b c) ts)"
  by (induction ts) (auto simp: within_def)

lemma consecutive_ends: "consecutive rs \<Longrightarrow> rs \<noteq> [] \<Longrightarrow> startMs (hd rs) \<le> endMs (last rs)"
proof (induction rs)
  case (Cons r rs)
  then show ?case by (cases rs) (auto simp: consecutive_Cons)
qed simp

lemma total_consecutive:
  "consecutive rs \<Longrightarrow> rs \<noteq> [] \<Longrightarrow>
   (\<Sum>r\<leftarrow>rs. total_of f (filter (within (startMs r) (endMs r)) ts)) = total_of f (filter (within (startMs (hd rs)) (endMs (last rs))) ts)"
proof (induction rs)
  case (Cons r rs)
  show ?case
  proof (cases "rs = []")
    case False
    with Cons.prems(1) have r: "startMs r \<le> endMs r" "consecutive rs" "endMs r = startMs (hd rs)" by (simp_all add: consecutive_Cons)
    with Cons.IH False have "(\<Sum>r\<leftarrow>r # rs. total_of f (filter (within (startMs r) (endMs r)) ts))
        = total_of f (filter (within (startMs r) (endMs r)) ts) + total_of f (filter (within (endMs r) (endMs (last rs))) ts)" by simp
    also have "\<dots> = total_of f (filter (within (startMs r) (endMs (last rs))) ts)"
      by (rule total_split [symmetric]) (use r consecutive_ends [OF r(2) False] in auto)
    finally show ?thesis using False by simp
  qed simp
qed simp

section \<open>The transactions that a report counts\<close>

lemma map_filter_rows:
  "wf_db rt db \<Longrightarrow> map (tx_of rt) (filter P (db_transactions db)) = filter (\<lambda>t. P (transactionParams t)) (txs rt db)"
proof -
  have "list_all (tx_ok rt) rs \<Longrightarrow>
      map (tx_of rt) (filter P rs) = filter (\<lambda>t. P (transactionParams t)) (map (tx_of rt) rs)" for rs
    by (induction rs) (auto elim!: tx_okE)
  then show "wf_db rt db \<Longrightarrow> ?thesis" by (simp add: wf_db_def txs_def)
qed

lemma selected_mset:
  assumes "wf_db rt db" "selectTransactions rt P db = Inr ts"
  shows "mset ts = mset (filter (\<lambda>t. P (transactionParams t)) (txs rt db))"
proof -
  have "mset ts = mset (map (tx_of rt) (filter P (db_transactions db)))"
    using assms by (auto simp: selectTransactions_wf newest_first_def)
  then show ?thesis using map_filter_rows [OF assms(1)] by simp
qed

lemma total_perm: "mset xs = mset ys \<Longrightarrow> total_of f xs = total_of f ys"
  unfolding total_of_def by (rule sum_list_perm)

lemma total_filter_perm: "mset xs = mset ys \<Longrightarrow> total_of f (filter P xs) = total_of f (filter P ys)"
  by (rule total_perm) simp

lemma is_cashflow_perm: "mset xs = mset ys \<Longrightarrow> is_cashflow c xs \<longleftrightarrow> is_cashflow c ys"
  using total_perm [of xs ys] by (simp add: is_cashflow_def)

text \<open>The live transactions without those that are excluded from statistics.\<close>

definition counted :: "runtime \<Rightarrow> ledger_db \<Rightarrow> tx list" where
  "counted rt db = statisticsTransactions (filter (\<lambda>t. tx_deletedAt t = None) (txs rt db)) (fst ` set (db_exclusions db))"

lemma excluded_ids: "set (listStatisticsExcludedTransactionIds db) = fst ` set (db_exclusions db)"
  by (simp add: listStatisticsExcludedTransactionIds_def)

lemma deleted_row [simp]: "rt_deleted_at (transactionParams t) = tx_deletedAt t" "rt_occurred_at (transactionParams t) = tx_occurredAt t"
  "rt_created_at (transactionParams t) = tx_createdAt t" "rt_id (transactionParams t) = tx_id t"
  by (cases t; simp add: commonParams_def)+

lemma counted_listing:
  assumes "wf_db rt db" "listActiveTransactions rt db = Inr ts"
  shows "mset (statisticsTransactions ts (fst ` set (db_exclusions db))) = mset (counted rt db)"
  using selected_mset [OF assms(1), of "\<lambda>r. rt_deleted_at r = None" ts] assms(2)
  by (simp add: listActiveTransactions_def counted_def statisticsTransactions_def filter_filter_mset conj_commute)

lemma trend_points:
  assumes "trendForRanges rs ts = Inr ps"
  shows "map startMs ps = map startMs rs \<and> map endMs ps = map endMs rs
    \<and> (\<forall>p\<in>set ps. is_cashflow (mp_cashflow p) (filter (within (startMs p) (endMs p)) ts))"
proof -
  have "list_all2 (\<lambda>r p. startMs p = startMs r \<and> endMs p = endMs r
      \<and> is_cashflow (mp_cashflow p) (filter (within (startMs p) (endMs p)) ts)) rs ps"
    using assms unfolding trendForRanges_def mapR_Inr_iff
    by (rule list_all2_mono)
      (auto simp: bindR_eq_Inr isWithinRange_def [abs_def] within_def [abs_def] dest!: cashflow_value)
  then show ?thesis by (induction rule: list_all2_induct) auto
qed

text \<open>
  The monthly trend accounts for every transaction of its window exactly once: its
  points are consecutive months, each with the cash flow of the counted transactions of that month,
  and their incomes, expenses and repayments add up to the totals over the whole window.
\<close>

lemma trend_adds_up:
  assumes "wf_db rt db" "temporal_laws rt" "calendar_order rt" "getTrend rt d months anchor db = Inr ps"
  shows "length ps = nat months \<and> consecutive ps
    \<and> (\<forall>p\<in>set ps. is_cashflow (mp_cashflow p) (filter (within (startMs p) (endMs p)) (counted rt db)))
    \<and> (let window = filter (within (startMs (hd ps)) (endMs (last ps))) (counted rt db) in
       (\<Sum>p\<leftarrow>ps. cf_incomeMinor (mp_cashflow p)) = total_of income_of window
     \<and> (\<Sum>p\<leftarrow>ps. cf_expenseMinor (mp_cashflow p)) = total_of expense_of window
     \<and> (\<Sum>p\<leftarrow>ps. cf_repaymentMinor (mp_cashflow p)) = total_of repayment_of window)"
proof -
  from assms(4) obtain date tz rs ts where rs: "calendarMonthRangesForLocalDate rt months date tz = Inr rs"
    and ts: "listActiveTransactions rt db = Inr ts"
    and tr: "trendForRanges rs (statisticsTransactions ts (fst ` set (db_exclusions db))) = Inr ps"
    by (auto simp: getTrend_def bindR_eq_Inr Let_def excluded_ids)
  note months = month_ranges_consecutive [OF assms(2) rs] and forward = month_ranges_forward [OF assms(3) rs]
  have pts: "map startMs ps = map startMs rs" "map endMs ps = map endMs rs" using trend_points [OF tr] by simp_all
  then have len: "length ps = length rs" by (metis length_map)
  have nth: "startMs (ps ! i) = startMs (rs ! i)" "endMs (ps ! i) = endMs (rs ! i)" if "i < length ps" for i
    using that len pts by (metis nth_map)+
  have con: "consecutive ps"
    unfolding consecutive_def
  proof (intro conjI ballI allI impI)
    fix p assume "p \<in> set ps"
    then obtain i where "i < length ps" "p = ps ! i" by (auto simp: in_set_conv_nth)
    with nth len forward show "startMs p \<le> endMs p" by simp
  next
    fix i assume "Suc i < length ps"
    with nth len months show "endMs (ps ! i) = startMs (ps ! Suc i)" by simp
  qed
  have flow: "is_cashflow (mp_cashflow p) (filter (within (startMs p) (endMs p)) (counted rt db))" if "p \<in> set ps" for p
  proof -
    have "mset (filter (within (startMs p) (endMs p)) (statisticsTransactions ts (fst ` set (db_exclusions db))))
        = mset (filter (within (startMs p) (endMs p)) (counted rt db))" using counted_listing [OF assms(1) ts] by simp
    from is_cashflow_perm [OF this] trend_points [OF tr] that show ?thesis by blast
  qed
  have ne: "ps \<noteq> []" using rs len months by (auto simp: calendarMonthRangesForLocalDate_def split: if_splits)
  have sums: "(\<Sum>p\<leftarrow>ps. g p) = total_of f (filter (within (startMs (hd ps)) (endMs (last ps))) (counted rt db))"
    if "\<And>p. p \<in> set ps \<Longrightarrow> g p = total_of f (filter (within (startMs p) (endMs p)) (counted rt db))" for f and g :: "month_point \<Rightarrow> int"
    using total_consecutive [OF con ne, of f "counted rt db"] that by (simp cong: map_cong)
  show ?thesis using months len con flow
    by (simp add: Let_def sums [of "\<lambda>p. cf_incomeMinor (mp_cashflow p)" income_of]
        sums [of "\<lambda>p. cf_expenseMinor (mp_cashflow p)" expense_of]
        sums [of "\<lambda>p. cf_repaymentMinor (mp_cashflow p)" repayment_of] is_cashflow_def)
qed

section \<open>Overview\<close>

lemma mset_statistics: "mset xs = mset ys \<Longrightarrow> mset (statisticsTransactions xs e) = mset (statisticsTransactions ys e)"
  by (simp add: statisticsTransactions_def)

lemma statistics_filter: "statisticsTransactions (filter P ts) e = filter P (statisticsTransactions ts e)"
  by (simp add: statisticsTransactions_def conj_commute)

lemma is_breakdown_perm: "mset xs = mset ys \<Longrightarrow> is_breakdown s k xs \<longleftrightarrow> is_breakdown s k ys"
  using total_perm [of xs ys] by (simp add: is_breakdown_def)

lemma counted_select:
  assumes "wf_db rt db" "selectTransactions rt (\<lambda>r. rt_deleted_at r = None \<and> P (rt_occurred_at r)) db = Inr ts"
  shows "mset (statisticsTransactions ts (fst ` set (db_exclusions db))) = mset (filter (\<lambda>t. P (tx_occurredAt t)) (counted rt db))"
proof -
  have "mset ts = mset (filter (\<lambda>t. P (tx_occurredAt t)) (filter (\<lambda>t. tx_deletedAt t = None) (txs rt db)))"
    using selected_mset [OF assms] by (simp add: filter_filter_mset)
  from mset_statistics [OF this] show ?thesis by (simp add: counted_def statistics_filter del: filter_filter)
qed

text \<open>The transactions of a scope: all up to the end of the anchor day, or those of a period.\<close>

definition in_scope :: "overview_scope \<Rightarrow> period_ranges \<Rightarrow> tx \<Rightarrow> bool" where
  "in_scope scope r t \<longleftrightarrow>
     (case scope of
        ScopeAll \<Rightarrow> tx_occurredAt t < endMs (todayR r)
      | ScopePeriod p \<Rightarrow> within (startMs (periodOf r p)) (endMs (periodOf r p)) t)"

lemma PERIOD_ORDER_all: "p \<in> set PERIOD_ORDER"
  by (cases p) (simp_all add: PERIOD_ORDER_def)

lemma overview_parts:
  assumes "getOverview rt d scope anchor db = Inr ov"
  obtains s ranges months accts states cats window_txs scoped ex
  where "requireSettings rt db = Inr s" "periodRangesForLocalDate rt (ov_anchorDate ov) (s_timezone s) = Inr ranges"
    "listAccounts rt True db = Inr accts" "mapR (accountState rt db) accts = Inr states"
    "listActiveTransactionsInRange rt (Some (Min (set (startMs (hd months) # map startMs (map (periodOf ranges) PERIOD_ORDER)))))
       (Max (set (endMs (last months) # map endMs (map (periodOf ranges) PERIOD_ORDER)))) db = Inr window_txs"
    "(case scope of
        ScopeAll \<Rightarrow> listActiveTransactionsInRange rt None (endMs (todayR ranges)) db
      | ScopePeriod p \<Rightarrow> Inr (filter (\<lambda>t. isWithinRange (tx_occurredAt t) (periodOf ranges p)) window_txs)) = Inr scoped"
    "ex = fst ` set (db_exclusions db)"
    "natureTotal Asset states = Inr (ov_assetTotalMinor ov)" "natureTotal Liability states = Inr (ov_liabilityTotalMinor ov)"
    "checkedSubMinor (ov_assetTotalMinor ov) (ov_liabilityTotalMinor ov) = Inr (ov_netWorthMinor ov)"
    "cashflowForTransactions (statisticsTransactions scoped ex) = Inr (ov_cashflow ov)"
    "categorySlicesForTransactions (statisticsTransactions scoped ex) cats = Inr (ov_income ov, ov_expense ov)"
    "mapR (\<lambda>p. periodSummary p (periodOf ranges p) (statisticsTransactions window_txs ex)) PERIOD_ORDER = Inr (ov_periods ov)"
    "trendForRanges months (statisticsTransactions window_txs ex) = Inr (ov_trend ov)"
    "ov_scope ov = scope"
  using assms unfolding getOverview_def Let_def bindR_eq_Inr excluded_ids
  apply (elim exE conjE)
  subgoal for s nowMs todayDate resolved ranges months accts states catlist window_txs scoped asset liab cur accounts expo net flow slices
    apply (cases slices)
    apply (simp only: prod.case bindR_eq_Inr)
    apply (elim exE conjE)
    apply (rule that [of s ranges accts states months window_txs scoped "fst ` set (db_exclusions db)"
        "map_of (rev (map (\<lambda>c. (c_id c, c)) catlist))"])
    by (assumption | rule refl | (drule sum.inject(2) [THEN iffD1], clarsimp))+
  done

lemma periods_value:
  assumes "mapR (\<lambda>p. periodSummary p (rs p) ts) qs = Inr ps"
  shows "map ps_period ps = qs \<and> (\<forall>p\<in>set ps. startMs p = startMs (rs (ps_period p)) \<and> endMs p = endMs (rs (ps_period p))
    \<and> is_cashflow (ps_cashflow p) (filter (within (startMs p) (endMs p)) ts))"
proof -
  have "list_all2 (\<lambda>q p. ps_period p = q \<and> startMs p = startMs (rs q) \<and> endMs p = endMs (rs q)
      \<and> is_cashflow (ps_cashflow p) (filter (within (startMs p) (endMs p)) ts)) qs ps"
    using assms unfolding mapR_Inr_iff
    by (rule list_all2_mono)
      (auto simp: periodSummary_def bindR_eq_Inr isWithinRange_def [abs_def] within_def [abs_def] dest!: cashflow_value)
  then show ?thesis by (induction rule: list_all2_induct) auto
qed

lemma scoped_value:
  assumes wf: "wf_db rt db"
    and win: "listActiveTransactionsInRange rt (Some f) e db = Inr window_txs"
    and sc: "(case scope of
        ScopeAll \<Rightarrow> listActiveTransactionsInRange rt None (endMs (todayR ranges)) db
      | ScopePeriod p \<Rightarrow> Inr (filter (\<lambda>t. isWithinRange (tx_occurredAt t) (periodOf ranges p)) window_txs)) = Inr scoped"
    and cover: "\<And>p. f \<le> startMs (periodOf ranges p) \<and> endMs (periodOf ranges p) \<le> e"
  shows "mset (statisticsTransactions scoped (fst ` set (db_exclusions db))) = mset (filter (in_scope scope ranges) (counted rt db))"
    and "f \<le> a \<Longrightarrow> b \<le> e \<Longrightarrow> mset (filter (within a b) (statisticsTransactions window_txs (fst ` set (db_exclusions db))))
      = mset (filter (within a b) (counted rt db))"
proof -
  have "selectTransactions rt (\<lambda>r. rt_deleted_at r = None \<and> (f \<le> rt_occurred_at r \<and> rt_occurred_at r < e)) db = Inr window_txs"
    using win by (simp add: listActiveTransactionsInRange_def split: if_splits)
  from counted_select [OF wf this] have w: "mset (statisticsTransactions window_txs (fst ` set (db_exclusions db)))
      = mset (filter (\<lambda>t. f \<le> tx_occurredAt t \<and> tx_occurredAt t < e) (counted rt db))" .
  have sub: "mset (filter (within a b) (statisticsTransactions window_txs (fst ` set (db_exclusions db))))
      = mset (filter (within a b) (counted rt db))" if "f \<le> a" "b \<le> e" for a b
  proof -
    have "filter (within a b) (filter (\<lambda>t. f \<le> tx_occurredAt t \<and> tx_occurredAt t < e) ts) = filter (within a b) ts" for ts
      using that by (auto simp: within_def intro!: filter_cong)
    then show ?thesis using w by (metis mset_filter)
  qed
  then show "f \<le> a \<Longrightarrow> b \<le> e \<Longrightarrow> mset (filter (within a b) (statisticsTransactions window_txs (fst ` set (db_exclusions db))))
      = mset (filter (within a b) (counted rt db))" .
  show "mset (statisticsTransactions scoped (fst ` set (db_exclusions db))) = mset (filter (in_scope scope ranges) (counted rt db))"
  proof (cases scope)
    case ScopeAll
    then have "selectTransactions rt (\<lambda>r. rt_deleted_at r = None \<and> rt_occurred_at r < endMs (todayR ranges)) db = Inr scoped"
      using sc by (simp add: listActiveTransactionsInRange_def split: if_splits)
    from counted_select [OF wf this] show ?thesis by (simp add: in_scope_def [abs_def] ScopeAll)
  next
    case (ScopePeriod p)
    then have "scoped = filter (within (startMs (periodOf ranges p)) (endMs (periodOf ranges p))) window_txs"
      using sc by (simp add: isWithinRange_def within_def [abs_def])
    with sub [of "startMs (periodOf ranges p)" "endMs (periodOf ranges p)"] cover show ?thesis
      by (simp add: statistics_filter in_scope_def [abs_def] ScopePeriod)
  qed
qed

text \<open>
  Property C21. The overview is consistent with the ledger and with itself: its cash flow and both
  category breakdowns are the totals of the same counted transactions, those of the requested scope,
  the breakdowns are sorted and their slices add up to the cash flow, and each of the four periods
  shows the cash flow of the counted transactions in that period.
\<close>

theorem overview_consistent:
  assumes "wf_db rt db" "getOverview rt d scope anchor db = Inr ov"
  shows "\<exists>s ranges. requireSettings rt db = Inr s \<and> periodRangesForLocalDate rt (ov_anchorDate ov) (s_timezone s) = Inr ranges
    \<and> (let ts = filter (in_scope scope ranges) (counted rt db) in
         is_cashflow (ov_cashflow ov) ts \<and> is_breakdown (ov_income ov) IncomeKind ts \<and> is_breakdown (ov_expense ov) ExpenseKind ts)
    \<and> sum_list (map sl_amountMinor (ov_income ov)) = cf_incomeMinor (ov_cashflow ov)
    \<and> sum_list (map sl_amountMinor (ov_expense ov)) = cf_expenseMinor (ov_cashflow ov)
    \<and> map ps_period (ov_periods ov) = PERIOD_ORDER
    \<and> (\<forall>p\<in>set (ov_periods ov). startMs p = startMs (periodOf ranges (ps_period p)) \<and> endMs p = endMs (periodOf ranges (ps_period p))
        \<and> is_cashflow (ps_cashflow p) (filter (within (startMs p) (endMs p)) (counted rt db)))"
proof (rule overview_parts [OF assms(2)])
  fix s ranges months cats window_txs scoped ex
  assume p: "requireSettings rt db = Inr s" "periodRangesForLocalDate rt (ov_anchorDate ov) (s_timezone s) = Inr ranges"
      "listActiveTransactionsInRange rt (Some (Min (set (startMs (hd months) # map startMs (map (periodOf ranges) PERIOD_ORDER)))))
         (Max (set (endMs (last months) # map endMs (map (periodOf ranges) PERIOD_ORDER)))) db = Inr window_txs"
      "(case scope of
          ScopeAll \<Rightarrow> listActiveTransactionsInRange rt None (endMs (todayR ranges)) db
        | ScopePeriod p \<Rightarrow> Inr (filter (\<lambda>t. isWithinRange (tx_occurredAt t) (periodOf ranges p)) window_txs)) = Inr scoped"
      "ex = fst ` set (db_exclusions db)"
      "cashflowForTransactions (statisticsTransactions scoped ex) = Inr (ov_cashflow ov)"
      "categorySlicesForTransactions (statisticsTransactions scoped ex) cats = Inr (ov_income ov, ov_expense ov)"
      "mapR (\<lambda>p. periodSummary p (periodOf ranges p) (statisticsTransactions window_txs ex)) PERIOD_ORDER = Inr (ov_periods ov)"
  let ?f = "Min (set (startMs (hd months) # map startMs (map (periodOf ranges) PERIOD_ORDER)))"
  let ?e = "Max (set (endMs (last months) # map endMs (map (periodOf ranges) PERIOD_ORDER)))"
  let ?ts = "filter (in_scope scope ranges) (counted rt db)"
  have cover: "?f \<le> startMs (periodOf ranges q) \<and> endMs (periodOf ranges q) \<le> ?e" for q
    using PERIOD_ORDER_all [of q] by (intro conjI Min_le Max_ge) auto
  have perm: "mset (statisticsTransactions scoped ex) = mset ?ts"
    unfolding p(5) by (rule scoped_value(1) [OF assms(1) p(3,4) cover])
  have flow: "is_cashflow (ov_cashflow ov) ?ts" using cashflow_value [OF p(6)] is_cashflow_perm [OF perm] by blast
  have brk: "is_breakdown (ov_income ov) IncomeKind ?ts" "is_breakdown (ov_expense ov) ExpenseKind ?ts"
    using breakdown_value [OF p(7)] is_breakdown_perm [OF perm] by blast+
  note pv = periods_value [OF p(8)]
  have "is_cashflow (ps_cashflow q) (filter (within (startMs q) (endMs q)) (counted rt db))" if q: "q \<in> set (ov_periods ov)" for q
  proof -
    have e: "startMs q = startMs (periodOf ranges (ps_period q))" "endMs q = endMs (periodOf ranges (ps_period q))" using pv q by blast+
    have "mset (filter (within (startMs q) (endMs q)) (statisticsTransactions window_txs ex))
        = mset (filter (within (startMs q) (endMs q)) (counted rt db))"
      unfolding p(5) e by (rule scoped_value(2) [OF assms(1) p(3,4) cover]) (use cover in blast)+
    from is_cashflow_perm [OF this] pv q show ?thesis by blast
  qed
  then have periods: "\<forall>q\<in>set (ov_periods ov). startMs q = startMs (periodOf ranges (ps_period q)) \<and> endMs q = endMs (periodOf ranges (ps_period q))
        \<and> is_cashflow (ps_cashflow q) (filter (within (startMs q) (endMs q)) (counted rt db))" using pv by blast
  have sums: "sum_list (map sl_amountMinor (ov_income ov)) = cf_incomeMinor (ov_cashflow ov)"
    "sum_list (map sl_amountMinor (ov_expense ov)) = cf_expenseMinor (ov_cashflow ov)"
    using brk flow by (simp_all add: is_cashflow_def is_breakdown_def)
  show ?thesis unfolding Let_def using p(1,2) flow brk sums conjunct1 [OF pv] periods by blast
qed

text \<open>What the overview counts as the position of all accounts, archived ones included.\<close>

definition opening_position :: "account list \<Rightarrow> int" where
  "opening_position as = (\<Sum>a\<leftarrow>as. side (a_nature a) * a_openingBalanceMinor a)"

lemma accountState_balance:
  assumes "wf_db rt db" "wf_account rt a" "accountState rt db a = Inr s"
  shows "st_account s = a \<and> st_currentBalanceMinor s = balance_spec a (txs rt db)"
proof -
  from assms(3) obtain ts where ts: "listActiveTransactionsForAccount rt (a_id a) db = Inr ts"
    "deriveCurrentBalance a ts = Inr (st_currentBalanceMinor s)" "st_account s = a"
    by (auto simp: accountState_def bindR_eq_Inr)
  with derived_spec [OF assms(1,2)] show ?thesis by simp
qed

lemma natureTotal_value:
  assumes "natureTotal n states = Inr b"
  shows "b = sum_list (map st_currentBalanceMinor (filter (\<lambda>s. a_nature (st_account s) = n) states))"
  using assms checkedSumFrom_Inr by (auto simp: natureTotal_def checkedSumMinor_def bindR_eq_Inr)

lemma nature_split:
  "(\<Sum>s\<leftarrow>filter (\<lambda>s. a_nature (st_account s) = Asset) states. f s) - (\<Sum>s\<leftarrow>filter (\<lambda>s. a_nature (st_account s) = Liability) states. f s)
    = (\<Sum>s\<leftarrow>states. side (a_nature (st_account s)) * f s)" for f :: "account_state \<Rightarrow> int"
proof (induction states)
  case (Cons s states)
  then show ?case by (cases "a_nature (st_account s)") (simp_all add: side_def)
qed simp

lemma listAccounts_wf:
  assumes "wf_db rt db" "listAccounts rt True db = Inr as"
  shows "(\<forall>a\<in>set as. wf_account rt a) \<and> mset (map a_id as) = mset (map ra_id (db_accounts db))"
proof -
  let ?rows = "order_by (\<lambda>x y. account_key y \<le> account_key x) (db_accounts db)"
  have "list_all2 (\<lambda>r a. accountOfRow rt r = Inr a) ?rows as"
    using assms(2) by (simp add: listAccounts_def mapR_Inr_iff)
  then have "list_all2 (\<lambda>r a. wf_account rt a \<and> r = accountParams a) ?rows as"
    by (rule list.rel_mono_strong)
      (use assms(1) accountOfRow_Inr in \<open>auto simp: wf_db_def list_all_iff account_ok_def\<close>)
  then have "(\<forall>a\<in>set as. wf_account rt a) \<and> map a_id as = map ra_id ?rows"
    by (induction rule: list_all2_induct) (auto simp: accountParams_def)
  then show ?thesis by simp
qed

text \<open>
  The net worth that the overview shows is what the ledger adds up to: the opening
  balances of all assets minus those of all liabilities, plus the incomes, minus the expenses, plus
  the signed adjustments. Transfers, and the fees they were split from, never create or lose money.
\<close>

lemma overview_net_worth:
  assumes "sound rt db" "getOverview rt d scope anchor db = Inr ov"
  shows "\<exists>as. listAccounts rt True db = Inr as
    \<and> ov_netWorthMinor ov = opening_position as + (\<Sum>t\<leftarrow>txs rt db. net_gain as t)"
proof (rule overview_parts [OF assms(2)])
  fix accts states
  assume p: "listAccounts rt True db = Inr accts" "mapR (accountState rt db) accts = Inr states"
    "natureTotal Asset states = Inr (ov_assetTotalMinor ov)" "natureTotal Liability states = Inr (ov_liabilityTotalMinor ov)"
    "checkedSubMinor (ov_assetTotalMinor ov) (ov_liabilityTotalMinor ov) = Inr (ov_netWorthMinor ov)"
  note wf = sound_parts(1) [OF assms(1)]
  note accts = listAccounts_wf [OF wf p(1)]
  have "list_all2 (\<lambda>a s. accountState rt db a = Inr s) accts states" using p(2) by (simp add: mapR_Inr_iff)
  then have "list_all2 (\<lambda>a s. st_account s = a \<and> st_currentBalanceMinor s = balance_spec a (txs rt db)) accts states"
    by (rule list.rel_mono_strong) (use accts accountState_balance [OF wf] in blast)
  then have states: "(\<Sum>s\<leftarrow>states. side (a_nature (st_account s)) * st_currentBalanceMinor s)
      = (\<Sum>a\<leftarrow>accts. side (a_nature a) * balance_spec a (txs rt db))"
    by (induction rule: list_all2_induct) auto
  have "ov_netWorthMinor ov = ov_assetTotalMinor ov - ov_liabilityTotalMinor ov" using p(5) by simp
  also have "\<dots> = (\<Sum>s\<leftarrow>states. side (a_nature (st_account s)) * st_currentBalanceMinor s)"
    using natureTotal_value [OF p(3)] natureTotal_value [OF p(4)] nature_split [where states = states and f = st_currentBalanceMinor] by simp
  also have "\<dots> = opening_position accts + (\<Sum>t\<leftarrow>txs rt db. net_gain accts t)"
    unfolding states opening_position_def
  proof (rule net_worth_spec)
    show "distinct (map a_id accts)" using accts wf by (metis mset_eq_imp_distinct_iff wf_db_def)
    have ids: "a_id ` set accts = ra_id ` set (db_accounts db)" using accts by (metis mset_eq_setD set_map)
    have "set (tx_accounts t) \<subseteq> a_id ` set accts" if "t \<in> set (txs rt db)" for t
    proof
      fix i assume "i \<in> set (tx_accounts t)"
      with sound_parts(4) [OF assms(1) that] obtain r where "account_row_of db i = Some r" unfolding tx_valid_def by blast
      then have "r \<in> set (db_accounts db)" "ra_id r = i" using lookup_by_SomeD by (fastforce simp: account_row_of_def)+
      then show "i \<in> a_id ` set accts" by (auto simp: ids)
    qed
    then show "\<forall>t\<in>set (txs rt db). set (tx_accounts t) \<subseteq> a_id ` set accts \<and> wf_tx_shape t"
      using wf_db_txs [OF wf] by (auto simp: wf_tx_def)
  qed
  finally show ?thesis using p(1) by blast
qed

section \<open>A concrete overview\<close>

lemma demo_clock:
  "captureNow demo_runtime demo_deps = Inr 7"
  "ledgerLocalDateForInstant demo_runtime 7 (js ''UTC'') = Inr (js ''1970-01-01'')"
  "plainDateForLocalDate demo_runtime (js ''1970-01-01'') = Inr 0"
  "assertIanaTimeZoneId demo_runtime (JStr (js ''UTC'')) = Inr (js ''UTC'')"
proof -
  have z: "isIanaShape (js ''UTC'')" by (simp add: js_def isIanaShape_def iana_first_def iana_char_def)
  have d: "isLocalDateShape (js ''1970-01-01'')" by (simp add: js_def isLocalDateShape_def is_digit_def)
  show "captureNow demo_runtime demo_deps = Inr 7"
    by (simp add: captureNow_def demo_deps_def demo_runtime_def is_safe_def MAX_SAFE_def)
  show zone: "assertIanaTimeZoneId demo_runtime (JStr (js ''UTC'')) = Inr (js ''UTC'')"
    using z by (simp add: demo_runtime_def)
  show "ledgerLocalDateForInstant demo_runtime 7 (js ''UTC'') = Inr (js ''1970-01-01'')"
    using z by (simp add: ledgerLocalDateForInstant_def plainDateForInstant_def demo_runtime_def bindR_eq_Inr is_safe_def MAX_SAFE_def)
      (simp add: js_def)
  show "plainDateForLocalDate demo_runtime (js ''1970-01-01'') = Inr 0"
    using d by (simp add: plainDateForLocalDate_def demo_runtime_def bindR_eq_Inr) (simp add: js_def)
qed

lemma demo_midnight: "\<bar>d\<bar> \<le> 400 \<Longrightarrow> startOfLocalDate demo_runtime d z f = Inr (d * 86400000)"
  by (simp add: startOfLocalDate_def) (simp add: demo_runtime_def is_safe_def MAX_SAFE_def abs_mult)

definition demo_ranges :: period_ranges where
  "demo_ranges = \<lparr>todayR = \<lparr>startMs = 0, endMs = 86400000\<rparr>, weekR = \<lparr>startMs = -259200000, endMs = 345600000\<rparr>,
     monthR = \<lparr>startMs = 0, endMs = 2592000000\<rparr>, yearR = \<lparr>startMs = 0, endMs = 31104000000\<rparr>\<rparr>"

lemma demo_calendar:
  "add_days demo_runtime d k = Some (d + k)" "add_months demo_runtime d k = Some (d + 30 * k)"
  "add_years demo_runtime d k = Some (d + 360 * k)" "first_of_month demo_runtime d = Some (d - d mod 30)"
  "first_of_year demo_runtime d = Some (d - d mod 360)" "day_of_week demo_runtime d = (d + 3) mod 7 + 1"
  by (simp_all add: demo_runtime_def)

lemma demo_periods:
  "periodRangesForLocalDate demo_runtime (js ''1970-01-01'') (js ''UTC'') = Inr demo_ranges"
  by (simp add: periodRangesForLocalDate_def demo_clock periodRangeForPlainDate_def periodBounds_def demo_calendar
      demo_midnight demo_ranges_def del: assertIanaTimeZoneId_Inr)

definition demo_months :: "month_range list" where
  "demo_months = map (\<lambda>k. \<lparr>startMs = (30 * k - 330) * 86400000, endMs = (30 * k - 300) * 86400000,
     month = take 7 (date_text demo_runtime (30 * k - 330))\<rparr>) (map int [0..<nat 12])"

lemma demo_month_ranges:
  "calendarMonthRangesForLocalDate demo_runtime 12 (js ''1970-01-01'') (js ''UTC'') = Inr demo_months"
proof -
  have "calendarMonthAt demo_runtime (-330) z k = Inr \<lparr>startMs = (30 * k - 330) * 86400000, endMs = (30 * k - 300) * 86400000,
     month = take 7 (date_text demo_runtime (30 * k - 330))\<rparr>" if "k \<in> set (map int [0..<nat 12])" for k z
    using that by (auto simp: calendarMonthAt_def demo_calendar demo_midnight)
  then have "mapR (calendarMonthAt demo_runtime (-330) z) (map int [0..<nat 12]) = Inr demo_months" for z
    unfolding demo_months_def by (rule mapR_Inr_map)
  then show ?thesis
    by (simp add: calendarMonthRangesForLocalDate_def demo_clock demo_calendar arrayFrom_def catchCalendar_def
        is_safe_def MAX_SAFE_def del: assertIanaTimeZoneId_Inr)
qed

lemma demo_months_ends: "startMs (hd demo_months) = -28512000000" "endMs (last demo_months) = 2592000000" "demo_months \<noteq> []"
  by (simp_all add: demo_months_def upt_rec)
lemma demo_listed:
  "listAccounts demo_runtime True demo_db = Inr [demo_account]"
  "listCategories demo_runtime True demo_db = Inr [demo_category]"
proof -
  have "icon_check (ra_icon (accountParams demo_account))" "icon_check (rc_icon (categoryParams demo_category))"
    by (simp_all add: icon_check_def accountParams_def demo_account_def categoryParams_def demo_category_def)
  then show "listAccounts demo_runtime True demo_db = Inr [demo_account]"
    "listCategories demo_runtime True demo_db = Inr [demo_category]"
    using wf_demo_account wf_demo_category
    by (simp_all add: listAccounts_def listCategories_def demo_db_def accountOfRow_Inr [THEN iffD2] categoryOfRow_Inr [THEN iffD2])
qed

definition demo_state :: account_state where
  "demo_state = \<lparr>st_account = demo_account, st_transactions = [demo_expense], st_currentBalanceMinor = 300\<rparr>"

lemma demo_account_state: "accountState demo_runtime demo_db demo_account = Inr demo_state"
  by (simp add: accountState_def demo_list demo_derived demo_state_def)

lemma demo_select: "selectTransactions demo_runtime P demo_db = Inr (if P (transactionParams demo_expense) then [demo_expense] else [])"
  by (simp add: selectTransactions_wf [OF wf_demo_db])

lemma demo_totals: "natureTotal Asset [demo_state] = Inr 300" "natureTotal Liability [demo_state] = Inr 0"
  by (simp_all add: natureTotal_def demo_state_def checkedSumMinor_def is_safe_def MAX_SAFE_def checkedAddMinor_def
      checkedResult_def assertSafeInteger_def fl53_safe)

lemma demo_flow: "\<exists>c. cashflowForTransactions (filter P [demo_expense]) = Inr c"
  by (simp add: cashflowForTransactions_def demo_expense_def demo_base_def bindR_eq_Inr is_safe_def MAX_SAFE_def)

lemma demo_stats: "statisticsTransactions [demo_expense] {} = [demo_expense]" "statisticsTransactions [] {} = []"
  by (simp_all add: statisticsTransactions_def)

lemma demo_slices:
  "\<exists>r. categorySlicesForTransactions [demo_expense] (map_of (rev (map (\<lambda>c. (c_id c, c)) [demo_category]))) = Inr r"
  by (simp add: categorySlicesForTransactions_def addToGroup_def toSlices_def demo_expense_def demo_base_def demo_category_def
      bindR_eq_Inr is_safe_def MAX_SAFE_def)

lemma demo_summary: "\<exists>j. accountSummary demo_runtime \<lparr>startMs = 0, endMs = 2592000000\<rparr> demo_state = Inr j"
proof -
  have e: "transactionEffectForAccount demo_expense demo_account = Inr (-200)"
    using transactionEffect_eq [OF wf_demo_expense, of demo_account] by simp
  have "accountDtoEntries demo_runtime demo_account 300 \<noteq> Inl x" for x
    using currencyExponentFor_USD by (auto simp: accountDtoEntries_def demo_account_def)
  then obtain es where "accountDtoEntries demo_runtime demo_account 300 = Inr es"
    by (cases "accountDtoEntries demo_runtime demo_account 300") auto
  moreover have "\<exists>m. movementForAccount demo_account [demo_expense] \<lparr>startMs = 0, endMs = 2592000000\<rparr> = Inr m"
    by (simp add: movementForAccount_def isWithinRange_def e bindR_eq_Inr is_safe_def MAX_SAFE_def)
  ultimately show ?thesis by (auto simp: accountSummary_def demo_state_def)
qed

lemma demo_month: "periodRange demo_runtime PMonth 7 (js ''UTC'') = Inr \<lparr>startMs = 0, endMs = 2592000000\<rparr>"
proof -
  have "plainDateForInstant demo_runtime 7 (js ''UTC'') = Inr 0"
    by (simp add: plainDateForInstant_def bindR_eq_Inr) (simp add: demo_runtime_def is_safe_def MAX_SAFE_def)
  then show ?thesis
    by (simp add: periodRange_def demo_clock periodRangeForPlainDate_def periodBounds_def demo_calendar demo_midnight
        del: assertIanaTimeZoneId_Inr)
qed

lemma demo_period: "\<exists>y. periodSummary p r [demo_expense] = Inr y"
  unfolding periodSummary_def bindR_eq_Inr using demo_flow by blast

lemma demo_trend: "\<exists>y. trendForRanges rs [demo_expense] = Inr y"
  unfolding trendForRanges_def by (rule mapR_total) (unfold bindR_eq_Inr, use demo_flow in blast)

lemma demo_overview: "\<exists>ov. getOverview demo_runtime demo_deps ScopeAll None demo_db = Inr ov"
proof -
  obtain s where s: "requireSettings demo_runtime demo_db = Inr s" "s_baseCurrency s = js ''USD''" "s_timezone s = js ''UTC''"
    using demo_read(1) by blast
  have fx: "map (periodOf demo_ranges) PERIOD_ORDER = [todayR demo_ranges, weekR demo_ranges, monthR demo_ranges, yearR demo_ranges]"
    by (simp add: PERIOD_ORDER_def periodOf_def)
  have window: "Min (set (startMs (hd demo_months) # map startMs (map (periodOf demo_ranges) PERIOD_ORDER))) = -28512000000"
    "Max (set (endMs (last demo_months) # map endMs (map (periodOf demo_ranges) PERIOD_ORDER))) = 31104000000"
    unfolding fx demo_months_ends by (simp_all add: demo_ranges_def)
  have win: "listActiveTransactionsInRange demo_runtime (Some (-28512000000)) 31104000000 demo_db = Inr [demo_expense]"
    by (simp add: listActiveTransactionsInRange_def is_safe_def MAX_SAFE_def demo_select)
  have scoped: "listActiveTransactionsInRange demo_runtime None (endMs (todayR demo_ranges)) demo_db = Inr [demo_expense]"
    by (simp add: listActiveTransactionsInRange_def is_safe_def MAX_SAFE_def demo_select demo_ranges_def)
  have none: "set (listStatisticsExcludedTransactionIds demo_db) = {}"
    by (simp add: listStatisticsExcludedTransactionIds_def demo_db_def)
  obtain j where j: "accountSummary demo_runtime \<lparr>startMs = 0, endMs = 2592000000\<rparr> demo_state = Inr j" using demo_summary by blast
  obtain c where c: "cashflowForTransactions [demo_expense] = Inr c" using demo_flow [of "\<lambda>_. True"] by auto
  obtain sl where sl: "categorySlicesForTransactions [demo_expense] (map_of (rev (map (\<lambda>c. (c_id c, c)) [demo_category]))) = Inr sl"
    using demo_slices by blast
  obtain ps where ps: "mapR (\<lambda>p. periodSummary p (periodOf demo_ranges p) [demo_expense]) PERIOD_ORDER = Inr ps"
    using mapR_total [of PERIOD_ORDER "\<lambda>p. periodSummary p (periodOf demo_ranges p) [demo_expense]"] demo_period by blast
  obtain ms where ms: "trendForRanges demo_months [demo_expense] = Inr ms"
    using demo_trend by blast
  have recent: "listRecentActiveTransactionsBefore demo_runtime (endMs (todayR demo_ranges)) 5 demo_db = Inr [demo_expense]"
    using wf_demo_expense
    by (simp add: listRecentActiveTransactionsBefore_def demo_ranges_def is_safe_def MAX_SAFE_def grouped_charge_def)
      (simp add: demo_expense_def demo_base_def commonParams_def)
  have live: "a_archivedAt (st_account demo_state) = None" by (simp add: demo_state_def demo_account_def)
  have dto: "transactionDtoWithBundle demo_runtime demo_db demo_expense {} = Inr (transactionDto demo_expense False)"
    by (simp add: transactionDtoWithBundle_def demo_expense_def Let_def)
  have net: "checkedSubMinor 300 0 = Inr 300" by (simp add: is_safe_def MAX_SAFE_def)
  obtain inc ex where pair: "sl = (inc, ex)" by (cases sl)
  have anchor: "resolveAnchorDate demo_runtime None (js ''1970-01-01'') = Inr (js ''1970-01-01'')"
    by (simp add: resolveAnchorDate_def)
  have states: "mapR (accountState demo_runtime demo_db) [demo_account] = Inr [demo_state]" by (simp add: demo_account_state)
  have sums: "mapR (accountSummary demo_runtime \<lparr>startMs = 0, endMs = 2592000000\<rparr>) (filter (\<lambda>st. a_archivedAt (st_account st) = None) [demo_state]) = Inr [j]"
    using live j by simp
  have dtos: "mapR (\<lambda>t. transactionDtoWithBundle demo_runtime demo_db t {}) [demo_expense] = Inr [transactionDto demo_expense False]"
    by (simp add: dto)
  show ?thesis
    unfolding getOverview_def Let_def bindR_eq_Inr none
    apply (intro exI conjI)
    apply (rule s(1), rule demo_clock(1), unfold s, rule demo_clock(2), rule anchor, rule demo_periods, rule demo_month_ranges,
      rule demo_listed, rule states, rule demo_listed, unfold window overview_scope.case, rule win, rule scoped,
      rule demo_totals, rule demo_totals, rule demo_month, rule sums, rule currencyExponentFor_USD, rule net,
      unfold demo_stats, rule c, rule sl [unfolded pair])
    apply (unfold prod.case bindR_eq_Inr)
    apply (intro exI conjI)
    apply (rule ps ms recent dtos refl)+
    done
qed

lemma demo_counted: "counted demo_runtime demo_db = [demo_expense]"
  by (simp add: counted_def demo_txs statisticsTransactions_def) (simp add: demo_db_def)

theorem overview_consistent_witness:
  "\<exists>ov. getOverview demo_runtime demo_deps ScopeAll None demo_db = Inr ov
     \<and> cf_expenseMinor (ov_cashflow ov) = 200 \<and> sum_list (map sl_amountMinor (ov_expense ov)) = 200"
proof -
  obtain ov where ov: "getOverview demo_runtime demo_deps ScopeAll None demo_db = Inr ov" using demo_overview by blast
  from overview_consistent [OF wf_demo_db ov] obtain s ranges
    where r: "requireSettings demo_runtime demo_db = Inr s"
      "periodRangesForLocalDate demo_runtime (ov_anchorDate ov) (s_timezone s) = Inr ranges"
      "is_cashflow (ov_cashflow ov) (filter (in_scope ScopeAll ranges) [demo_expense])"
      "sum_list (map sl_amountMinor (ov_expense ov)) = cf_expenseMinor (ov_cashflow ov)"
    unfolding Let_def demo_counted by blast
  have "s_timezone s = js ''UTC''" using r(1) demo_read(1) by simp
  moreover have "ov_anchorDate ov = js ''1970-01-01''"
    using ov demo_read(1) demo_clock(1,2)
    by (auto simp: getOverview_def bindR_eq_Inr Let_def resolveAnchorDate_def simp del: assertUtcMilliseconds_Inr)
  ultimately have "ranges = demo_ranges" using r(2) demo_periods by simp
  then have "cf_expenseMinor (ov_cashflow ov) = 200"
    using r(3) by (simp add: is_cashflow_def in_scope_def demo_ranges_def) (simp add: demo_expense_def demo_base_def)
  with ov r(4) show ?thesis by auto
qed

end
