(* ===== verification/LedgerPages.thy ===== *)
theory LedgerPages
  imports LedgerReports
begin

text \<open>
  What a client of the read models can rely on: following the cursors lists every matching transaction
  exactly once and ends; the balances beside the rows of an account page and the points of the balance
  trend are the balances of the ledger at those positions and instants; the two serializers of the
  server (service.ts and projections.ts) print the same objects.
\<close>

section \<open>Following the cursors\<close>

text \<open>
  The loop of a client that asks for the next page while there is a cursor. \<open>None\<close> when the fuel runs
  out before the last page.
\<close>

primrec followPages :: "nat \<Rightarrow> runtime \<Rightarrow> ustr \<Rightarrow> ledger_db \<Rightarrow> tx_query \<Rightarrow> tx list res option" where
  "followPages 0 rt currency db q = None"
| "followPages (Suc n) rt currency db q =
     (case transactionPage rt q currency True db of
        Inl e \<Rightarrow> Some (Inl e)
      | Inr page \<Rightarrow>
          (case pg_nextCursor page of
             None \<Rightarrow> Some (Inr (pg_rows page))
           | Some c \<Rightarrow> map_option (map_sum id ((@) (pg_rows page)))
               (followPages n rt currency db (q\<lparr>lq_cursor := Some c\<rparr>))))"

text \<open>The rows a query selects, whatever page of them is asked for, newest first.\<close>

definition matches :: "runtime \<Rightarrow> query_options \<Rightarrow> ledger_db \<Rightarrow> tx list" where
  "matches rt opts db =
     map (tx_of rt) (newest_first (filter (transactionQueryFilter opts False db) (db_transactions db)))"

lemma position_of_params: "position_of (transactionParams t) = tx_position t"
  by (simp add: position_of_def tx_position_def)

lemma summary_ignores_cursor [simp]: "summarizeTransactions (opts\<lparr>q_cursor := c\<rparr>) db = summarizeTransactions opts db"
proof -
  have "transactionQueryFilter (opts\<lparr>q_cursor := c\<rparr>) False db = transactionQueryFilter opts False db"
    by (intro ext) (simp add: transactionQueryFilter_def searchClause_def split: filter_type.splits)
  then show ?thesis by (simp add: summarizeTransactions_def)
qed

lemma queryTransactions_rows:
  assumes "\<And>r. r \<in> set (queryRows opts db) \<Longrightarrow> tx_ok rt r"
  shows "queryTransactions rt opts db = Inr (map (tx_of rt) (queryRows opts db))"
  unfolding queryTransactions_def by (rule mapR_Inr_map) (use assms in \<open>auto elim!: tx_okE\<close>)

text \<open>The page that starts after \<open>j\<close> rows of the complete listing.\<close>

definition page_from :: "query_options \<Rightarrow> ledger_db \<Rightarrow> tx_row list \<Rightarrow> nat \<Rightarrow> query_options \<Rightarrow> bool" where
  "page_from opts db full j opts' \<longleftrightarrow>
     queryRows opts' db = take (nat (q_limit opts + 1)) (drop j full) \<and> q_limit opts' = q_limit opts
   \<and> q_sortBy opts' = SortOccurredAt \<and> q_sortDirection opts' = Desc
   \<and> summarizeTransactions opts' db = summarizeTransactions opts db"

lemma page_contents:
  assumes "normalizeTransactionQuery rt q currency = Inr opts'" "page_from opts db full j opts'"
    and "summarizeTransactions opts db = Inr summary" "1 \<le> q_limit opts"
    and "\<And>r. r \<in> set full \<Longrightarrow> tx_ok rt r"
  obtains page where "transactionPage rt q currency True db = Inr page"
    "pg_rows page = map (tx_of rt) (take (nat (q_limit opts)) (drop j full))"
    "pg_nextCursor page = (if j + nat (q_limit opts) < length full
       then Some (encodeCursor (tx_of rt (full ! (j + nat (q_limit opts) - 1)))) else None)"
proof -
  let ?l = "nat (q_limit opts)"
  let ?rows = "take (Suc ?l) (drop j full)"
  from assms(2,4) have rows: "queryRows opts' db = ?rows" and same: "q_limit opts' = q_limit opts"
     "q_sortBy opts' = SortOccurredAt" "q_sortDirection opts' = Desc" "summarizeTransactions opts' db = Inr summary"
    using assms(3) by (auto simp: page_from_def nat_add_distrib)
  have "queryTransactions rt opts' db = Inr (map (tx_of rt) ?rows)"
    unfolding rows [symmetric] by (rule queryTransactions_rows) (use assms(5) rows in \<open>auto dest: in_set_takeD in_set_dropD\<close>)
  moreover have more: "q_limit opts < int (length ?rows) \<longleftrightarrow> j + ?l < length full" using assms(4) by auto
  moreover have "last (map (tx_of rt) (take ?l ?rows)) = tx_of rt (full ! (j + ?l - 1))" if "j + ?l < length full"
    using that assms(4) by (simp add: last_conv_nth)
  ultimately show ?thesis
    using that assms(1,4) same by (simp add: transactionPage_def Let_def take_map)
qed

text \<open>What the database must be for its cursors to be readable.\<close>

definition readable_cursors :: "runtime \<Rightarrow> ledger_db \<Rightarrow> bool" where
  "readable_cursors rt db \<longleftrightarrow> (\<forall>t\<in>set (txs rt db). units16 (tx_id t)
     \<and> rt_json_parse rt (cursorText (tx_position t)) = Some (cursorPayload (tx_position t)))"

lemma distinct_keys:
  assumes "wf_db rt db" "readable_cursors rt db"
  shows "distinct (map tx_key (db_transactions db))"
  unfolding distinct_map
proof
  show "distinct (db_transactions db)" using assms(1) by (simp add: wf_db_def distinct_map)
  show "inj_on tx_key (set (db_transactions db))"
  proof (rule inj_onI)
    fix r r'
    assume r: "r \<in> set (db_transactions db)" "r' \<in> set (db_transactions db)" "tx_key r = tx_key r'"
    have units: "list_all (\<lambda>c. c < 65536) (rt_id x)" if "x \<in> set (db_transactions db)" for x
    proof -
      have "tx_ok rt x" using assms(1) that by (simp add: wf_db_def list_all_iff)
      then obtain t where "x = transactionParams t" "tx_of rt x = t" by (rule tx_okE)
      moreover have "units16 (tx_id (tx_of rt x))" using assms(2) that by (auto simp: readable_cursors_def txs_def)
      ultimately show ?thesis by (simp add: units16_def)
    qed
    have "code_points (rt_id r) = code_points (rt_id r')" using r(3) by (simp add: tx_key_def)
    then have "rt_id r = rt_id r'" using code_points_inj units r(1,2) by blast
    then show "r = r'" using assms(1) r(1,2) by (auto simp: wf_db_def distinct_map dest: inj_onD)
  qed
qed

lemma normalized_limit: "normalizeTransactionQuery rt q currency = Inr opts \<Longrightarrow> 1 \<le> q_limit opts"
  by (auto simp: normalizeTransactionQuery_def bindR_eq_Inr Let_def split: if_splits)

lemma normalize_cursor:
  assumes "normalizeTransactionQuery rt q currency = Inr opts" "lq_cursor q = None"
    and "parseLedgerTransactionCursor rt (JStr c) = Inr p"
  shows "normalizeTransactionQuery rt (q\<lparr>lq_cursor := Some c\<rparr>) currency = Inr (opts\<lparr>q_cursor := Some p\<rparr>)"
  using assms by (auto simp: normalizeTransactionQuery_def Let_def split: if_splits)

lemma normalize_plain:
  assumes "normalizeTransactionQuery rt q currency = Inr opts" "lq_cursor q = None" "lq_offset q = None"
    "lq_sortBy q \<noteq> Some SortAmount" "lq_sortDirection q \<noteq> Some Asc"
  shows "q_cursor opts = None" "q_offset opts = None" "q_sortBy opts = SortOccurredAt" "q_sortDirection opts = Desc"
proof -
  from assms have o: "opts = \<lparr>q_type = case_option FAll id (lq_type q), q_accountId = lq_accountId q,
             q_categoryId = lq_categoryId q, q_groupId = lq_groupId q, q_from = lq_from q, q_to = lq_to q,
             q_search = lq_search q, q_searchAmountMinor = transactionAmountSearchMinor rt (lq_search q) currency,
             q_includeDeleted = case_option False id (lq_includeDeleted q), q_limit = (case lq_limit q of None \<Rightarrow> 50 | Some n \<Rightarrow> n),
             q_offset = None, q_cursor = None,
             q_sortBy = case_option SortOccurredAt id (lq_sortBy q),
             q_sortDirection = case_option Desc id (lq_sortDirection q)\<rparr>"
    by (simp add: normalizeTransactionQuery_def Let_def split: if_splits)
  show "q_cursor opts = None" "q_offset opts = None" by (simp_all add: o)
  show "q_sortBy opts = SortOccurredAt" using assms(4) by (cases "the (lq_sortBy q)") (auto simp: o split: option.split)
  show "q_sortDirection opts = Desc" using assms(5) by (cases "the (lq_sortDirection q)") (auto simp: o split: option.split)
qed

lemma filter_without_cursor:
  "q_cursor opts = None \<Longrightarrow> transactionQueryFilter opts True db = transactionQueryFilter opts False db"
  by (intro ext) (simp add: transactionQueryFilter_def optEq_def)

lemma query_le_newest:
  "q_sortBy opts = SortOccurredAt \<Longrightarrow> q_sortDirection opts = Desc \<Longrightarrow> order_by (query_le opts) rs = newest_first rs"
proof -
  assume "q_sortBy opts = SortOccurredAt" "q_sortDirection opts = Desc"
  then have "query_le opts = (\<lambda>x y. tx_key y \<le> tx_key x)" by (intro ext) (simp add: query_le_default)
  then show ?thesis by (simp add: newest_first_def)
qed

lemma page_first:
  assumes "q_cursor opts = None" "q_offset opts = None" "q_sortBy opts = SortOccurredAt" "q_sortDirection opts = Desc"
  shows "page_from opts db (newest_first (filter (transactionQueryFilter opts False db) (db_transactions db))) 0 opts"
  using assms by (simp add: page_from_def queryRows_def query_le_newest filter_without_cursor)

lemma page_after:
  assumes "q_cursor opts = None" "q_offset opts = None" "q_sortBy opts = SortOccurredAt" "q_sortDirection opts = Desc"
    and "full = newest_first (filter (transactionQueryFilter opts False db) (db_transactions db))" "k < length full"
    and "distinct (map tx_key (db_transactions db))"
  shows "page_from opts db full (Suc k) (opts\<lparr>q_cursor := Some (position_of (full ! k))\<rparr>)"
  using query_after_cursor [OF assms(3,4,2,1,7) _ assms(6)] assms
  by (simp add: page_from_def filter_without_cursor)

lemma follow_from:
  assumes q: "normalizeTransactionQuery rt q currency = Inr opts" "lq_cursor q = None" "lq_offset q = None"
      "lq_sortBy q \<noteq> Some SortAmount" "lq_sortDirection q \<noteq> Some Asc"
    and db: "wf_db rt db" "readable_cursors rt db" "summarizeTransactions opts db = Inr summary"
    and full: "full = newest_first (filter (transactionQueryFilter opts False db) (db_transactions db))"
    and page: "normalizeTransactionQuery rt q' currency = Inr opts'" "page_from opts db full j opts'"
      "\<And>c. q'\<lparr>lq_cursor := c\<rparr> = q\<lparr>lq_cursor := c\<rparr>"
    and fuel: "length full \<le> n + j"
  shows "followPages (Suc n) rt currency db q' = Some (Inr (map (tx_of rt) (drop j full)))"
  using page fuel
proof (induction n arbitrary: q' opts' j)
  note plain = normalize_plain [OF q]
  have limit: "1 \<le> q_limit opts" using q(1) by (rule normalized_limit)
  have ok: "\<And>r. r \<in> set full \<Longrightarrow> tx_ok rt r \<and> r \<in> set (db_transactions db)"
    using db(1) by (simp add: full newest_first_def wf_db_def list_all_iff)
  case 0
  obtain page where "transactionPage rt q' currency True db = Inr page"
      "pg_rows page = map (tx_of rt) (take (nat (q_limit opts)) (drop j full))" "pg_nextCursor page = None"
    using 0(4) by (rule_tac page_contents [OF 0(1,2) db(3) limit]) (use ok in auto)
  with 0(4) show ?case by simp
next
  note plain = normalize_plain [OF q]
  have limit: "1 \<le> q_limit opts" using q(1) by (rule normalized_limit)
  have ok: "\<And>r. r \<in> set full \<Longrightarrow> tx_ok rt r \<and> r \<in> set (db_transactions db)"
    using db(1) by (simp add: full newest_first_def wf_db_def list_all_iff)
  case (Suc n)
  let ?l = "nat (q_limit opts)"
  let ?k = "j + ?l - 1"
  obtain page where p: "transactionPage rt q' currency True db = Inr page"
      "pg_rows page = map (tx_of rt) (take ?l (drop j full))"
      "pg_nextCursor page = (if j + ?l < length full then Some (encodeCursor (tx_of rt (full ! ?k))) else None)"
    by (rule page_contents [OF Suc.prems(1,2) db(3) limit]) (use ok in auto)
  show ?case
  proof (cases "j + ?l < length full")
    case False
    with p show ?thesis by simp
  next
    case True
    then have k: "?k < length full" "Suc ?k = j + ?l" using limit by simp_all
    then obtain t where t: "wf_tx rt t" "full ! ?k = transactionParams t" "tx_of rt (full ! ?k) = t"
      using ok nth_mem tx_okE by metis
    moreover have "t \<in> set (txs rt db)" using ok [OF nth_mem [OF k(1)]] t(3) by (auto simp: txs_def)
    ultimately have "parseLedgerTransactionCursor rt (JStr (encodeCursor t)) = Inr (position_of (full ! ?k))"
      using db(2) by (simp add: readable_cursors_def cursor_decodes position_of_params)
    with q(1,2) have "normalizeTransactionQuery rt (q'\<lparr>lq_cursor := Some (encodeCursor t)\<rparr>) currency
        = Inr (opts\<lparr>q_cursor := Some (position_of (full ! ?k))\<rparr>)"
      unfolding Suc.prems(3) by (rule normalize_cursor)
    then have "followPages (Suc n) rt currency db (q'\<lparr>lq_cursor := Some (encodeCursor t)\<rparr>)
        = Some (Inr (map (tx_of rt) (drop (j + ?l) full)))"
      using page_after [OF plain full k(1) distinct_keys [OF db(1,2)]] Suc.prems(3,4) limit k(2)
      by (intro Suc.IH) auto
    moreover have "take ?l (drop j full) @ drop (j + ?l) full = drop j full"
      using append_take_drop_id [of ?l "drop j full"] by (simp add: add.commute)
    ultimately show ?thesis using p t(3) True by (simp del: followPages.simps(2) add: followPages.simps(2) [of "Suc n"] flip: map_append)
  qed
qed

text \<open>
  Property C22. Following the cursors ends and loses nothing: from any first page of a newest-first
  query that succeeds, a client that keeps asking for the next page stops after at most as many pages
  as there are matching transactions, and has then received exactly the matching transactions, each
  once, newest first.
\<close>

theorem pages_list_everything:
  assumes "wf_db rt db" "readable_cursors rt db"
    and "normalizeTransactionQuery rt q currency = Inr opts" "transactionPage rt q currency True db = Inr page"
    and "lq_cursor q = None" "lq_offset q = None" "lq_sortBy q \<noteq> Some SortAmount" "lq_sortDirection q \<noteq> Some Asc"
  shows "followPages (Suc (length (matches rt opts db))) rt currency db q = Some (Inr (matches rt opts db))"
proof -
  let ?full = "newest_first (filter (transactionQueryFilter opts False db) (db_transactions db))"
  have m: "matches rt opts db = map (tx_of rt) (drop 0 ?full)" by (simp add: matches_def)
  obtain summary where "summarizeTransactions opts db = Inr summary"
    using assms(3,4) by (auto simp: transactionPage_def bindR_eq_Inr Let_def)
  from follow_from [OF assms(3,5-8,1,2) this refl assms(3) page_first [OF normalize_plain [OF assms(3,5-8)]] refl]
  show ?thesis unfolding m by simp
qed

lemma utc_ok_parse [simp]:
  "utc_ok (rt\<lparr>rt_json_parse := f\<rparr>) = utc_ok rt" "opt_utc_ok (rt\<lparr>rt_json_parse := f\<rparr>) = opt_utc_ok rt"
proof -
  show "utc_ok (rt\<lparr>rt_json_parse := f\<rparr>) = utc_ok rt" by (intro ext) (simp add: utc_ok_def)
  then show "opt_utc_ok (rt\<lparr>rt_json_parse := f\<rparr>) = opt_utc_ok rt" by (intro ext) (simp add: opt_utc_ok_def split: option.split)
qed

lemma wf_account_parse [simp]: "wf_account (rt\<lparr>rt_json_parse := f\<rparr>) a = wf_account rt a"
  by (simp add: wf_account_def)

lemma wf_category_parse [simp]: "wf_category (rt\<lparr>rt_json_parse := f\<rparr>) c = wf_category rt c"
  by (simp add: wf_category_def normalizeLedgerCategoryName_def toLowerCase_def)

lemma wf_tx_parse [simp]: "wf_tx (rt\<lparr>rt_json_parse := f\<rparr>) t = wf_tx rt t"
  by (cases t) (simp_all add: wf_tx_def wf_tx_base_def)

lemma account_ok_parse [simp]: "account_ok (rt\<lparr>rt_json_parse := f\<rparr>) r = account_ok rt r"
  by (auto simp: account_ok_def accountOfRow_Inr)

lemma category_ok_parse [simp]: "category_ok (rt\<lparr>rt_json_parse := f\<rparr>) r = category_ok rt r"
  by (auto simp: category_ok_def categoryOfRow_Inr)

lemma tx_ok_parse [simp]: "tx_ok (rt\<lparr>rt_json_parse := f\<rparr>) r = tx_ok rt r"
  by (simp add: tx_ok_def txOfRow_Inr)

definition demo_second :: tx where
  "demo_second = map_tx_base (\<lambda>b. b\<lparr>t_id := js ''t2'', t_occurredAt := 5\<rparr>) demo_expense"

definition pages_runtime :: runtime where
  "pages_runtime = demo_runtime\<lparr>rt_json_parse := (\<lambda>s.
     if s = cursorText (tx_position demo_expense) then Some (cursorPayload (tx_position demo_expense))
     else if s = cursorText (tx_position demo_second) then Some (cursorPayload (tx_position demo_second))
     else None)\<rparr>"

definition pages_db :: ledger_db where
  "pages_db = demo_db\<lparr>db_settings := None,
     db_transactions := [transactionParams demo_expense, transactionParams demo_second]\<rparr>"

definition one_by_one :: tx_query where
  "one_by_one = \<lparr>lq_type = None, lq_accountId = Some (js ''acc''), lq_categoryId = None, lq_groupId = None,
     lq_from = None, lq_to = None, lq_search = None, lq_includeDeleted = None, lq_limit = Some 1,
     lq_cursor = None, lq_offset = None, lq_sortBy = None, lq_sortDirection = None\<rparr>"

lemma demo_second_value:
  "demo_second = ExpenseTx (demo_base\<lparr>t_id := js ''t2'', t_occurredAt := 5\<rparr>) (js ''acc'') (js ''cat'') []"
  by (simp add: demo_second_def demo_expense_def)

lemma wf_demo_second: "wf_tx demo_runtime demo_second"
  by (simp add: demo_second_value wf_tx_def wf_tx_base_def demo_base_def demo_runtime_def utc_ok_def
      opt_utc_ok_def is_safe_def MAX_SAFE_def)

lemma wf_pages_db: "wf_db pages_runtime pages_db"
proof -
  have "tx_fks pages_db (transactionParams demo_expense)" "tx_fks pages_db (transactionParams demo_second)"
    by (simp_all add: tx_fks_def fk_def pages_db_def demo_db_def demo_expense_def demo_second_value commonParams_def demo_account_def
        demo_category_def)
  moreover have "tx_ok demo_runtime (transactionParams t)" if "wf_tx demo_runtime t" for t
    using that by (auto simp: tx_ok_def)
  moreover have "rt_id (transactionParams demo_expense) \<noteq> rt_id (transactionParams demo_second)"
    by (simp add: demo_expense_def demo_second_value demo_base_def commonParams_def js_def)
  ultimately show ?thesis
    using wf_demo_db by (simp add: wf_db_def pages_db_def pages_runtime_def wf_demo_expense wf_demo_second) (simp add: demo_db_def)
qed

lemma pages_cursor_texts: "cursorText (tx_position demo_second) \<noteq> cursorText (tx_position demo_expense)"
  by (simp add: cursorText_def tx_position_def demo_expense_def demo_second_value demo_base_def js_def int_text_def nat_text.simps)

lemma pages_cursors: "readable_cursors pages_runtime pages_db"
proof -
  have "tx_of pages_runtime (transactionParams t) = t" if "wf_tx demo_runtime t" for t
    using that by (simp add: pages_runtime_def)
  then show ?thesis
    by (simp add: readable_cursors_def txs_def pages_db_def wf_demo_expense wf_demo_second)
      (simp add: pages_runtime_def pages_cursor_texts, simp add: units16_def demo_expense_def demo_second_value demo_base_def js_def)
qed

theorem pages_list_everything_witness:
  "followPages 3 pages_runtime (js ''USD'') pages_db one_by_one = Some (Inr [demo_second, demo_expense])"
proof -
  let ?q = "demo_query\<lparr>q_accountId := Some (js ''acc'')\<rparr>"
  let ?rs = "[transactionParams demo_expense, transactionParams demo_second]"
  have n: "normalizeTransactionQuery pages_runtime one_by_one (js ''USD'') = Inr ?q"
    by (simp add: normalizeTransactionQuery_def one_by_one_def transactionAmountSearchMinor_def demo_query_def is_safe_def MAX_SAFE_def)
  have fields: "transactionQueryFilter ?q c pages_db r" if "r \<in> set ?rs" for r c
    using that by (auto simp: transactionQueryFilter_def demo_query_def optEq_def references_account_def
        demo_expense_def demo_second_value demo_base_def commonParams_def)
  have rows: "db_transactions pages_db = ?rs" by (simp add: pages_db_def)
  have m: "filter (transactionQueryFilter ?q c pages_db) (db_transactions pages_db) = ?rs" for c
    unfolding rows using fields by (intro filter_True) simp
  have amount: "tx_amountMinor demo_expense = 200" "tx_amountMinor demo_second = 200"
    by (simp_all add: demo_expense_def demo_second_value demo_base_def commonParams_def)
  have none: "db_exclusions pages_db = []" by (simp add: pages_db_def demo_db_def)
  have "int64 0" "int64 200" "int64 400" "fl53 0 = 0" "fl53 200 = 200" "fl53 400 = 400"
    by (simp_all add: int64_def fl53_exact)
  then have sums: "sqlSum [0, 0] = Inr 0" "sqlSum [200, 200] = Inr 400" by (simp_all add: sqlSum_def)
  have safe: "safeSummary 0 = Inr 0" "safeSummary 2 = Inr 2" "safeSummary 400 = Inr 400"
    by (simp_all add: safeSummary_def is_safe_def MAX_SAFE_def)
  have types: "rt_type (transactionParams demo_expense) = js ''expense''" "rt_type (transactionParams demo_second) = js ''expense''"
    by (simp_all add: demo_expense_def demo_second_value commonParams_def)
  have kinds: "js ''expense'' \<noteq> js ''income''" "\<not> is_repayment_row (transactionParams demo_expense)"
      "\<not> is_repayment_row (transactionParams demo_second)"
    by (simp_all add: is_repayment_row_def types js_def)
  obtain summary where s: "summarizeTransactions ?q pages_db = Inr summary"
    by (simp add: summarizeTransactions_def m none Let_def types kinds amount sums safe)
  obtain page where page: "transactionPage pages_runtime one_by_one (js ''USD'') True pages_db = Inr page"
    by (rule page_contents [OF n page_first s])
      (use wf_pages_db in \<open>simp_all add: demo_query_def newest_first_def wf_db_def list_all_iff\<close>)
  have "newest_first ?rs = rev ?rs"
    by (simp add: newest_first_def tx_key_def demo_expense_def demo_second_value demo_base_def commonParams_def less_eq_prod_def)
  then have "matches pages_runtime ?q pages_db = [demo_second, demo_expense]"
    by (simp add: matches_def m) (simp add: pages_runtime_def wf_demo_expense wf_demo_second)
  with pages_list_everything [OF wf_pages_db pages_cursors n page] show ?thesis
    by (simp add: one_by_one_def numeral_3_eq_3 del: followPages.simps)
qed

section \<open>Balances of an account page\<close>

lemma select_txs:
  "wf_db rt db \<Longrightarrow> map (tx_of rt) (filter P (db_transactions db)) = filter (\<lambda>t. P (transactionParams t)) (txs rt db)"
proof -
  assume "wf_db rt db"
  moreover have "list_all (tx_ok rt) rs \<Longrightarrow>
      map (tx_of rt) (filter P rs) = filter (\<lambda>t. P (transactionParams t)) (map (tx_of rt) rs)" for rs
    by (induction rs) (auto elim!: tx_okE)
  ultimately show ?thesis by (simp add: wf_db_def txs_def)
qed

lemma before_value:
  assumes "wf_db rt db" "getAccountBalanceBefore a before db = Inr b"
  shows "b = balance_spec a (filter (\<lambda>t. tx_occurredAt t < before) (txs rt db))"
  using balanceWhere_value [OF assms(1), of "\<lambda>r. rt_occurred_at r < before" a b] assms(2)
  by (simp add: getAccountBalanceBefore_def select_txs [OF assms(1)] split: if_splits)

definition balance_at :: "runtime \<Rightarrow> ledger_db \<Rightarrow> account \<Rightarrow> position \<Rightarrow> int" where
  "balance_at rt db a p = balance_spec a (filter (\<lambda>t. at_position p (transactionParams t)) (txs rt db))"

lemma positions_value:
  assumes "wf_db rt db" "getAccountBalancesAtPositions a ps db = Inr bs"
  shows "list_all2 (\<lambda>p b. fst b = pos_id p \<and> snd b = balance_at rt db a p) ps bs"
proof -
  let ?sum = "\<lambda>p. sqlSum (map (sql_effect (a_id a) (a_nature a))
     (filter (\<lambda>r. rt_deleted_at r = None \<and> references_account (a_id a) r \<and> at_position p r) (db_transactions db)))"
  let ?f = "\<lambda>p. bindR (?sum p) (\<lambda>e. Inr (pos_id p, e))"
  let ?g = "\<lambda>(i, e). bindR (accountBalanceFromEffect a e) (\<lambda>b. Inr (i, b))"
  from assms(2) obtain es where safe: "is_safe (a_openingBalanceMinor a)"
    and es: "list_all2 (\<lambda>p e. ?f p = Inr e) ps es" "list_all2 (\<lambda>e b. ?g e = Inr b) es bs"
    unfolding getAccountBalancesAtPositions_def by (auto simp: bindR_eq_Inr mapR_Inr_iff split: if_splits)
  have "fst b = pos_id p \<and> snd b = balance_at rt db a p" if f: "?f p = Inr e" and g: "?g e = Inr b" for p e b
  proof -
    from f g safe have "fst b = pos_id p" "balanceWhere (at_position p) a db = Inr (snd b)"
      by (auto simp: balanceWhere_def bindR_eq_Inr split: prod.splits)
    with balanceWhere_value [OF assms(1), of "at_position p" a "snd b"] show ?thesis
      by (simp add: balance_at_def select_txs [OF assms(1)])
  qed
  then show ?thesis by (rule list_all2_trans [OF _ es])
qed

lemma rowBalances_value:
  assumes bs: "list_all2 (\<lambda>p b. fst b = pos_id p \<and> snd b = balance_at rt db a p) (map tx_position ts) bs"
    and ts: "distinct (map tx_id ts)" and out: "rowBalances bs ts = Inr out"
  shows "list_all2 (\<lambda>t b. fst b = tx_id t \<and> snd b = balance_at rt db a (tx_position t)) ts out"
proof -
  have b: "list_all2 (\<lambda>t b. b = (tx_id t, balance_at rt db a (tx_position t))) ts bs"
    using bs unfolding list_all2_map1 by (rule list_all2_mono) (auto simp: tx_position_def)
  then have "bs = map (\<lambda>t. (tx_id t, balance_at rt db a (tx_position t))) ts"
    by (induction rule: list_all2_induct) simp_all
  then have "map_of bs (tx_id t) = Some (balance_at rt db a (tx_position t))" if "t \<in> set ts" for t
    using that ts by (simp add: map_of_eq_Some_iff comp_def image_iff) blast
  moreover have "list_all2 (\<lambda>t b. (case map_of bs (tx_id t) of None \<Rightarrow> Inl PlainErr | Some c \<Rightarrow> Inr (tx_id t, c)) = Inr b) ts out"
    using out by (simp add: rowBalances_def mapR_Inr_iff)
  ultimately show ?thesis by (auto elim!: list.rel_mono_strong)
qed

text \<open>The movement of a range: what the transactions other than adjustments added and took away.\<close>

definition moved :: "account \<Rightarrow> time_range \<Rightarrow> tx list \<Rightarrow> int list" where
  "moved a r ts = map (effect (a_nature a) (a_id a))
     (filter (\<lambda>t. tx_type t \<noteq> TAdjustment \<and> startMs r \<le> tx_occurredAt t \<and> tx_occurredAt t < endMs r) ts)"

lemma movementLoop_value:
  assumes "\<forall>t\<in>set ts. wf_tx rt t" "a_id a \<noteq> []" "movementLoop a r acc ts = Inr out"
  shows "fst out = fst acc + (\<Sum>e\<leftarrow>moved a r ts. max 0 e) \<and> snd out = snd acc + (\<Sum>e\<leftarrow>moved a r ts. max 0 (- e))"
  using assms(1,3)
proof (induction ts arbitrary: acc)
  case (Cons t ts)
  have e: "transactionEffectForAccount t a = Inr (effect (a_nature a) (a_id a) t)"
    using Cons.prems(1) assms(2) by (intro transactionEffect_eq [of rt]) simp_all
  show ?case using Cons.prems Cons.IH
    by (auto simp: moved_def e isWithinRange_def bindR_eq_Inr split: if_splits)
qed (simp add: moved_def)

lemma moved_cong: "mset ts = mset us \<Longrightarrow> mset (moved a r ts) = mset (moved a r us)"
  by (simp add: moved_def)

lemma moved_select:
  assumes "wf_db rt db" "listActiveTransactionsForAccountInRange rt (a_id a) (startMs r) (endMs r) db = Inr ts"
    and f: "f 0 = (0 :: int)"
  shows "(\<Sum>e\<leftarrow>moved a r ts. f e) = (\<Sum>e\<leftarrow>moved a r (txs rt db). f e)"
proof -
  have "mset ts = mset (filter (\<lambda>t. tx_deletedAt t = None \<and> a_id a \<in> set (tx_accounts t)
      \<and> startMs r \<le> tx_occurredAt t \<and> tx_occurredAt t < endMs r) (txs rt db))"
  proof -
    from assms(2) have "selectTransactions rt (\<lambda>r'. rt_deleted_at r' = None \<and> references_account (a_id a) r'
        \<and> startMs r \<le> rt_occurred_at r' \<and> rt_occurred_at r' < endMs r) db = Inr ts"
      by (simp add: listActiveTransactionsForAccountInRange_def split: if_splits)
    from selected_mset [OF assms(1) this] show ?thesis by (simp add: references_tx_accounts)
  qed
  then have "(\<Sum>e\<leftarrow>moved a r ts. f e) = (\<Sum>e\<leftarrow>moved a r (filter (\<lambda>t. tx_deletedAt t = None
      \<and> a_id a \<in> set (tx_accounts t) \<and> startMs r \<le> tx_occurredAt t \<and> tx_occurredAt t < endMs r) (txs rt db)). f e)"
    by (intro sum_list_perm moved_cong)
  also have "\<dots> = (\<Sum>e\<leftarrow>moved a r (txs rt db). f e)"
  proof -
    have "(\<Sum>e\<leftarrow>moved a r (filter (\<lambda>t. tx_deletedAt t = None
      \<and> a_id a \<in> set (tx_accounts t) \<and> startMs r \<le> tx_occurredAt t \<and> tx_occurredAt t < endMs r) us). f e)
      = (\<Sum>e\<leftarrow>moved a r us. f e)" for us
      using f effect_deleted effect_foreign by (induction us) (auto simp: moved_def)
    then show ?thesis .
  qed
  finally show ?thesis .
qed

lemma page_rows_distinct:
  assumes "wf_db rt db" "transactionPage rt q currency s db = Inr page"
  shows "distinct (map tx_id (pg_rows page))"
proof -
  from assms(2) obtain opts rows where rows: "mapR (txOfRow rt) (queryRows opts db) = Inr rows"
      "pg_rows page = rows \<or> pg_rows page = take (nat (q_limit opts)) rows"
    by (auto simp: transactionPage_def queryTransactions_def bindR_eq_Inr Let_def)
  have "list_all2 (\<lambda>r t. tx_id t = rt_id r) (queryRows opts db) rows"
    using rows(1) unfolding mapR_Inr_iff by (rule list_all2_mono) (auto simp: txOfRow_Inr)
  then have "map tx_id rows = map rt_id (queryRows opts db)" by (induction rule: list_all2_induct) simp_all
  moreover have "distinct (map rt_id (order_by (query_le opts) (filter P (db_transactions db))))" for P
  proof -
    let ?rs = "filter P (db_transactions db)"
    have "distinct (map rt_id ?rs)" using assms(1) by (simp add: wf_db_def distinct_map_filter)
    moreover have "mset (map rt_id (order_by (query_le opts) ?rs)) = mset (map rt_id ?rs)" by simp
    ultimately show ?thesis by (metis mset_eq_imp_distinct_iff)
  qed
  then have "distinct (map rt_id (queryRows opts db))"
    unfolding queryRows_def by (simp add: take_map [symmetric] drop_map [symmetric])
  ultimately have "distinct (map tx_id rows)" by simp
  then show ?thesis using rows(2) by (auto simp: take_map [symmetric])
qed

text \<open>
  Property C23. An account page shows the true balances: the current balance is the opening balance
  plus the signed effects of everything that has occurred up to the clock reading; the balance beside
  each row is the balance of the account right after that transaction in the ledger order; and the
  movement of the current month sums the increases and the decreases of that month, without the
  adjustments.
\<close>

theorem account_page_balances:
  assumes "wf_db rt db" "accountPage rt d i q db = Inr p"
  shows "\<exists>a s now m. requireAccount rt i db = Inr a \<and> requireSettings rt db = Inr s \<and> captureNow rt d = Inr now
    \<and> periodRange rt PMonth now (s_timezone s) = Inr m
    \<and> ap_currentBalanceMinor p = balance_spec a (filter (\<lambda>t. tx_occurredAt t \<le> now) (txs rt db))
    \<and> list_all2 (\<lambda>t b. fst b = tx_id t \<and> snd b = balance_at rt db a (tx_position t)) (pg_rows (ap_page p)) (ap_balances p)
    \<and> balanceIncreaseMinor (ap_movement p) = (\<Sum>e\<leftarrow>moved a m (txs rt db). max 0 e)
    \<and> balanceDecreaseMinor (ap_movement p) = (\<Sum>e\<leftarrow>moved a m (txs rt db). max 0 (- e))"
proof -
  from assms(2) obtain s a now page bs m ts mv where
    r: "requireSettings rt db = Inr s" "requireAccount rt i db = Inr a" "captureNow rt d = Inr now"
       "getAccountBalanceBefore a (now + 1) db = Inr (ap_currentBalanceMinor p)"
       "transactionPage rt (q\<lparr>lq_accountId := Some i\<rparr>) (s_baseCurrency s) False db = Inr page"
       "getAccountBalancesAtPositions a (map tx_position (pg_rows page)) db = Inr bs"
       "periodRange rt PMonth now (s_timezone s) = Inr m"
       "listActiveTransactionsForAccountInRange rt (a_id a) (startMs m) (endMs m) db = Inr ts"
       "movementLoop a m (0, 0) ts = Inr mv" "rowBalances bs (pg_rows page) = Inr (ap_balances p)"
       "ap_page p = page" "ap_movement p = \<lparr>balanceIncreaseMinor = fst mv, balanceDecreaseMinor = snd mv\<rparr>"
    unfolding accountPage_def movementForAccount_def exclusiveInstant_def bindR_eq_Inr assertUtcMilliseconds_Inr
    by (auto simp: split_beta)
  have a: "wf_account rt a" using requireAccount_read [OF assms(1) r(2)] by blast
  have "(\<lambda>t. tx_occurredAt t < now + 1) = (\<lambda>t. tx_occurredAt t \<le> now)" by auto
  with before_value [OF assms(1) r(4)]
  have current: "ap_currentBalanceMinor p = balance_spec a (filter (\<lambda>t. tx_occurredAt t \<le> now) (txs rt db))" by simp
  have rows: "list_all2 (\<lambda>t b. fst b = tx_id t \<and> snd b = balance_at rt db a (tx_position t)) (pg_rows (ap_page p)) (ap_balances p)"
    unfolding r(11) by (rule rowBalances_value [OF positions_value [OF assms(1) r(6)] page_rows_distinct [OF assms(1) r(5)] r(10)])
  have "\<forall>t\<in>set ts. wf_tx rt t"
    using r(8) assms(1) by (auto simp: listActiveTransactionsForAccountInRange_def selectTransactions_wf wf_db_def list_all_iff
        newest_first_def wf_tx_of split: if_splits)
  from movementLoop_value [OF this _ r(9)] a
  have "fst mv = (\<Sum>e\<leftarrow>moved a m ts. max 0 e)" "snd mv = (\<Sum>e\<leftarrow>moved a m ts. max 0 (- e))"
    by (simp_all add: wf_account_def)
  with r(12) moved_select [OF assms(1) r(8), of "max 0"] moved_select [OF assms(1) r(8), of "\<lambda>e. max 0 (- e)"]
  have "balanceIncreaseMinor (ap_movement p) = (\<Sum>e\<leftarrow>moved a m (txs rt db). max 0 e)"
    "balanceDecreaseMinor (ap_movement p) = (\<Sum>e\<leftarrow>moved a m (txs rt db). max 0 (- e))"
    by simp_all
  with r(1-3,7) current rows show ?thesis by blast
qed

lemma demo_balance: "balanceWhere P demo_account demo_db = Inr 300" if "P (transactionParams demo_expense)"
proof -
  have "is_safe (-200)" "is_safe 300" "is_safe 500" "int64 (-200)" by (simp_all add: is_safe_def MAX_SAFE_def int64_def)
  then show ?thesis
    using that by (simp add: balanceWhere_def references_tx_accounts sqlSum_def accountBalanceFromEffect_def bindR_eq_Inr)
qed

lemma demo_position:
  assumes "p = tx_position demo_expense"
  shows "getAccountBalancesAtPositions demo_account [p] demo_db = Inr [(js ''t1'', 300)]"
proof -
  have at: "at_position p (transactionParams demo_expense)" "is_safe (pos_occurredAt p)" "is_safe (pos_createdAt p)"
      "pos_id p = js ''t1''"
    by (simp_all add: assms at_position_def tx_position_def demo_expense_def demo_base_def commonParams_def is_safe_def MAX_SAFE_def)
  have "is_safe (-200)" "is_safe 300" "is_safe 500" "int64 (-200)" by (simp_all add: is_safe_def MAX_SAFE_def int64_def)
  with at show ?thesis
    by (simp add: getAccountBalancesAtPositions_def references_tx_accounts sqlSum_def accountBalanceFromEffect_def bindR_eq_Inr)
qed

lemma demo_account_dto: "\<exists>j. accountDto demo_runtime demo_account 300 = Inr j"
  using currencyExponentFor_USD by (auto simp: accountDto_def accountDtoEntries_def demo_account_def)

lemma demo_page:
  "\<exists>page. transactionPage demo_runtime (one_by_one\<lparr>lq_accountId := Some (js ''acc'')\<rparr>) (js ''USD'') False demo_db = Inr page
     \<and> pg_rows page = [demo_expense]"
proof -
  let ?q = "demo_query\<lparr>q_accountId := Some (js ''acc'')\<rparr>"
  have n: "normalizeTransactionQuery demo_runtime (one_by_one\<lparr>lq_accountId := Some (js ''acc'')\<rparr>) (js ''USD'') = Inr ?q"
    by (simp add: normalizeTransactionQuery_def one_by_one_def transactionAmountSearchMinor_def demo_query_def is_safe_def MAX_SAFE_def)
  have "transactionQueryFilter ?q True demo_db (transactionParams demo_expense)"
    by (simp add: transactionQueryFilter_def demo_query_def optEq_def references_account_def
        demo_expense_def demo_base_def commonParams_def)
  then have "queryTransactions demo_runtime ?q demo_db = Inr [demo_expense]"
    using wf_demo_expense by (simp add: queryTransactions_def queryRows_def demo_query_def)
  with n show ?thesis by (simp add: transactionPage_def Let_def demo_query_def)
qed

lemma demo_account_page: "\<exists>p. accountPage demo_runtime demo_deps (js ''acc'') one_by_one demo_db = Inr p
   \<and> pg_rows (ap_page p) = [demo_expense]"
proof -
  obtain s where s: "requireSettings demo_runtime demo_db = Inr s" "s_baseCurrency s = js ''USD''" "s_timezone s = js ''UTC''"
    using demo_read(1) by blast
  obtain page where page: "transactionPage demo_runtime (one_by_one\<lparr>lq_accountId := Some (js ''acc'')\<rparr>) (js ''USD'') False demo_db = Inr page"
      "pg_rows page = [demo_expense]"
    using demo_page by blast
  obtain dto where dto: "accountDto demo_runtime demo_account 300 = Inr dto" using demo_account_dto by blast
  have "is_safe 8" by (simp add: is_safe_def MAX_SAFE_def)
  moreover have "tx_occurredAt demo_expense < 8" by (simp add: demo_expense_def demo_base_def)
  ultimately have before: "getAccountBalanceBefore demo_account 8 demo_db = Inr 300"
    by (simp add: getAccountBalanceBefore_def demo_balance)
  have month: "listActiveTransactionsForAccountInRange demo_runtime (js ''acc'') 0 2592000000 demo_db = Inr [demo_expense]"
    by (simp add: listActiveTransactionsForAccountInRange_def is_safe_def MAX_SAFE_def demo_select references_tx_accounts)
  have e: "transactionEffectForAccount demo_expense demo_account = Inr (-200)"
    using transactionEffect_eq [OF wf_demo_expense, of demo_account] by simp
  have "\<exists>mv. movementForAccount demo_account [demo_expense] \<lparr>startMs = 0, endMs = 2592000000\<rparr> = Inr mv"
    by (simp add: movementForAccount_def isWithinRange_def e bindR_eq_Inr is_safe_def MAX_SAFE_def)
  then obtain mv where mv: "movementForAccount demo_account [demo_expense] \<lparr>startMs = 0, endMs = 2592000000\<rparr> = Inr mv"
    by blast
  have ex: "exclusiveInstant demo_runtime 7 = Inr 8"
    by (simp add: exclusiveInstant_def) (simp add: demo_runtime_def is_safe_def MAX_SAFE_def)
  have rows: "rowBalances [(js ''t1'', 300)] [demo_expense] = Inr [(js ''t1'', 300)]"
    by (simp add: rowBalances_def demo_expense_position)
  show ?thesis
    by (simp add: accountPage_def s demo_read demo_clock ex before page demo_position demo_month month dto mv rows)
qed

theorem account_page_balances_witness:
  "\<exists>p. accountPage demo_runtime demo_deps (js ''acc'') one_by_one demo_db = Inr p
     \<and> ap_currentBalanceMinor p = 300 \<and> ap_balances p = [(js ''t1'', 300)]"
proof -
  obtain p where p: "accountPage demo_runtime demo_deps (js ''acc'') one_by_one demo_db = Inr p" "pg_rows (ap_page p) = [demo_expense]"
    using demo_account_page by blast
  have before: "tx_occurredAt demo_expense \<le> 7" "at_position (tx_position demo_expense) (transactionParams demo_expense)"
    by (simp_all add: at_position_def tx_position_def demo_expense_def demo_base_def commonParams_def)
  from account_page_balances [OF wf_demo_db p(1)] p(2) show ?thesis
    by (auto simp: demo_read demo_clock demo_txs balance_at_def before list_all2_Cons1 balance_spec_def demo_expense_position p(1))
qed

section \<open>The balance trend\<close>

abbreviation occurring_before :: "int \<Rightarrow> tx list \<Rightarrow> tx list" where
  "occurring_before c ts \<equiv> filter (\<lambda>t. tx_occurredAt t < c) ts"

abbreviation effects :: "account \<Rightarrow> tx list \<Rightarrow> int" where
  "effects a ts \<equiv> \<Sum>t\<leftarrow>ts. effect (a_nature a) (a_id a) t"

lemma insort_trend:
  "sorted (map tx_occurredAt ts) \<Longrightarrow> sorted (map tx_occurredAt (insort_by (trend_le rt) t ts))"
  by (induction ts) (auto simp: trend_le_def split: if_splits)

lemma trend_sorted: "sorted (map tx_occurredAt (order_by (trend_le rt) ts))"
  by (induction ts) (auto intro: insort_trend)

lemma advance_value:
  assumes "\<forall>t\<in>set ts. wf_tx rt t" "a_id a \<noteq> []" "sorted (map tx_occurredAt ts)"
    and "advanceBalance a c b ts = Inr (b', rest)"
  shows "b' = b + effects a (occurring_before c ts) \<and> rest = filter (\<lambda>t. \<not> tx_occurredAt t < c) ts"
  using assms(1,3,4)
proof (induction ts arbitrary: b)
  case (Cons t ts)
  have e: "transactionEffectForAccount t a = Inr (effect (a_nature a) (a_id a) t)"
    using Cons.prems(1) assms(2) by (intro transactionEffect_eq [of rt]) simp_all
  show ?case
  proof (cases "tx_occurredAt t < c")
    case True
    with Cons.prems(3) e have "advanceBalance a c (b + effect (a_nature a) (a_id a) t) ts = Inr (b', rest)"
      by (auto simp: bindR_eq_Inr)
    from Cons.IH [OF _ _ this] Cons.prems(1,2) True show ?thesis by simp
  next
    case False
    with Cons.prems(2) have "\<forall>u\<in>set ts. \<not> tx_occurredAt u < c" by auto
    then have "occurring_before c ts = []" "filter (\<lambda>t. \<not> tx_occurredAt t < c) ts = ts" by (simp_all add: filter_empty_conv filter_id_conv)
    with False Cons.prems(3) show ?thesis by auto
  qed
qed simp

text \<open>The cutoffs of the points: the ends of the days, and the instant after the clock reading for today.\<close>

definition cutoffs :: "int \<Rightarrow> trend_point list \<Rightarrow> int list" where
  "cutoffs nowExclusive out = map bp_timestamp (butlast out) @ [nowExclusive]"

lemma trendPoints_value:
  assumes "trendPoints rt a z now nowEx (b, ts) ps = Inr out" "ps \<noteq> []" "a_id a \<noteq> []"
    and "\<forall>t\<in>set ts. wf_tx rt t" "sorted (map tx_occurredAt ts)" "sorted (cutoffs nowEx out)"
  shows "list_all2 (\<lambda>p c. bp_balanceMinor p = b + effects a (occurring_before c ts)) out (cutoffs nowEx out)"
  using assms(1,2,4-)
proof (induction ps arbitrary: b ts out)
  case (Cons p ps)
  from Cons.prems(1) obtain c b' rest out' where r:
      "(if ps = [] then Inr nowEx else bindR (localDateRange rt (pointDate p) z) (\<lambda>r. Inr (endMs r))) = Inr c"
      "advanceBalance a c b ts = Inr (b', rest)" "trendPoints rt a z now nowEx (b', rest) ps = Inr out'"
      "out = \<lparr>bp_date = pointDate p, bp_timestamp = (if ps = [] then now else c), bp_balanceMinor = b'\<rparr> # out'"
    by (auto simp: bindR_eq_Inr)
  note v = advance_value [OF Cons.prems(3) assms(3) Cons.prems(4) r(2)]
  show ?case
  proof (cases "ps = []")
    case True
    with r v show ?thesis by (simp add: cutoffs_def)
  next
    case False
    with r(3) have ne: "out' \<noteq> []" by (cases ps) (auto simp: bindR_eq_Inr)
    with r(4) False have cs: "cutoffs nowEx out = c # cutoffs nowEx out'" by (simp add: cutoffs_def)
    with Cons.prems(5) have later: "sorted (cutoffs nowEx out')" "\<forall>k\<in>set (cutoffs nowEx out'). c \<le> k" by simp_all
    have "list_all2 (\<lambda>p k. bp_balanceMinor p = b' + effects a (occurring_before k rest)) out' (cutoffs nowEx out')"
      using Cons.prems(3,4) v later(1) False by (intro Cons.IH [OF r(3)]) (auto simp: sorted_map intro: sorted_wrt_filter)
    moreover have "b' + effects a (occurring_before k rest) = b + effects a (occurring_before k ts)" if "c \<le> k" for k
    proof -
      have "effects a (occurring_before c us) + effects a (occurring_before k (filter (\<lambda>t. \<not> tx_occurredAt t < c) us))
          = effects a (occurring_before k us)" for us
        using that by (induction us) auto
      with v show ?thesis by simp
    qed
    ultimately have "list_all2 (\<lambda>p k. bp_balanceMinor p = b + effects a (occurring_before k ts)) out' (cutoffs nowEx out')"
      using later(2) by (auto elim!: list.rel_mono_strong)
    then show ?thesis using cs r(4) v by simp
  qed
qed simp

lemma trendPoints_shape:
  assumes "trendPoints rt a z now nowEx st ps = Inr out"
  shows "length out = length ps \<and> (ps \<noteq> [] \<longrightarrow> bp_timestamp (last out) = now)
    \<and> (\<forall>k. Suc k < length ps \<longrightarrow> (\<exists>r. localDateRange rt (pointDate (ps ! k)) z = Inr r \<and> bp_timestamp (out ! k) = endMs r))
    \<and> (\<forall>k < length ps. bp_date (out ! k) = pointDate (ps ! k))"
  using assms
proof (induction ps arbitrary: st out)
  case (Cons p ps)
  then obtain out' st' q where r: "out = q # out'" "trendPoints rt a z now nowEx st' ps = Inr out'"
      "ps = [] \<Longrightarrow> bp_timestamp q = now"
      "ps \<noteq> [] \<Longrightarrow> \<exists>r. localDateRange rt (pointDate p) z = Inr r \<and> bp_timestamp q = endMs r" "bp_date q = pointDate p"
    by (auto simp: bindR_eq_Inr split: if_splits)
  note ih = Cons.IH [OF r(2)]
  show ?case
  proof (intro conjI allI impI)
    fix k assume "Suc k < length (p # ps)"
    then show "\<exists>r'. localDateRange rt (pointDate ((p # ps) ! k)) z = Inr r' \<and> bp_timestamp (out ! k) = endMs r'"
      using ih r(1,4) by (cases k) auto
  next
    fix k assume "k < length (p # ps)"
    then show "bp_date (out ! k) = pointDate ((p # ps) ! k)" using ih r(1,5) by (cases k) auto
  qed (use ih r in \<open>auto\<close>)
qed simp

text \<open>
  The laws of Temporal on days: dates count days, a printed date parses back to itself, and a day
  that is not later than the local date of an instant starts no later than the instant.
\<close>

definition day_laws :: "runtime \<Rightarrow> bool" where
  "day_laws rt \<longleftrightarrow>
     (\<forall>d k e. add_days rt d k = Some e \<longrightarrow> e = d + k)
   \<and> (\<forall>d e. date_from rt (date_text rt d) = Some e \<and> isLocalDateShape (date_text rt d) \<longrightarrow> e = d)
   \<and> (\<forall>t z d s. d \<le> date_of_instant rt t z \<and> midnight rt d z = Some s \<longrightarrow> s \<le> t)"

lemma roundDiv_mono: "0 < b \<Longrightarrow> a \<le> c \<Longrightarrow> roundDiv a b \<le> roundDiv c b"
  by (simp add: roundDiv_def zdiv_mono1)

lemma int_div_less: "0 < b \<Longrightarrow> a < c * b \<Longrightarrow> a div b < c" for a b c :: int
proof (rule ccontr)
  assume b: "0 < b" "a < c * b" "\<not> a div b < c"
  then have "c * b \<le> a div b * b" by (intro mult_right_mono) simp_all
  also have "\<dots> \<le> a" using div_mult_mod_eq [of a b] pos_mod_sign [OF b(1), of a] by linarith
  finally show False using b(2) by simp
qed

lemma roundDiv_below: "roundDiv ((days - 1) * k) (n - 1) \<le> days - 2" if "0 \<le> k" "k < n - 1" "n \<le> days" for k n days :: int
proof -
  have xy: "(days - 1) * k \<le> (days - 1) * (n - 2)" using that by (intro mult_left_mono) simp_all
  have yz: "2 * ((days - 1) * (n - 2)) = (days - 1) * (2 * (n - 1)) - 2 * (days - 1)" by (simp add: algebra_simps)
  have "2 * x + (n - 1) < z" if "x \<le> y" "2 * y = z - 2 * (days - 1)" "n \<le> days" "0 < n - 1" for x y z :: int
    using that by presburger
  from this [OF xy yz that(3)] that have "2 * ((days - 1) * k) + (n - 1) < (days - 1) * (2 * (n - 1))" by linarith
  then have "(2 * ((days - 1) * k) + (n - 1)) div (2 * (n - 1)) < days - 1"
    using that by (intro int_div_less) simp_all
  then show ?thesis by (simp add: roundDiv_def)
qed

lemma day_points:
  assumes "day_laws rt" "calendarDayPointsForInstant rt days n now z = Inr ps" "n \<le> days"
  shows "length ps = nat n \<and> 0 < n \<and> (\<exists>day. (\<forall>i. day i = date_of_instant rt now z - (days - 1)
        + (if n = 1 then days - 1 else roundDiv ((days - 1) * int i) (n - 1)))
    \<and> midnight rt (day 0) z = Some (pointStartMs (hd ps))
    \<and> (\<forall>i j. i \<le> j \<and> j < length ps \<longrightarrow> day i \<le> day j)
    \<and> (\<forall>i < length ps. pointDate (ps ! i) = date_text rt (day i))
    \<and> (\<forall>i. Suc i < length ps \<longrightarrow> day i + 1 \<le> date_of_instant rt now z))"
proof -
  let ?off = "\<lambda>i. if n = 1 then days - 1 else roundDiv ((days - 1) * int i) (n - 1)"
  let ?today = "date_of_instant rt now z"
  from assms(2) have n: "1 \<le> n" "1 \<le> days" by (auto simp: calendarDayPointsForInstant_def split: if_splits)
  from assms(2) obtain first where first: "add_days rt ?today (- (days - 1)) = Some first"
    and arr: "arrayFrom n (\<lambda>index. let offset = (if n = 1 then days - 1 else roundDiv ((days - 1) * index) (n - 1)) in
         bindR (tryDate (add_days rt first offset)) (\<lambda>pd.
         bindR (startOfLocalDate rt pd z ''trend.startAt'') (\<lambda>s.
         Inr \<lparr>pointDate = date_text rt pd, pointStartMs = s\<rparr>))) = Inr ps"
    by (auto simp: calendarDayPointsForInstant_def plainDateForInstant_def bindR_eq_Inr split: if_splits)
  have len: "length ps = nat n" using arr by (simp add: arrayFrom_Inr)
  have pt: "\<exists>pd. add_days rt first (?off i) = Some pd \<and> midnight rt pd z = Some (pointStartMs (ps ! i))
       \<and> pointDate (ps ! i) = date_text rt pd" if "i < nat n" for i
  proof -
    from arr [unfolded arrayFrom_Inr] that obtain pd s where "add_days rt first (?off i) = Some pd" "midnight rt pd z = Some s"
        "ps ! i = \<lparr>pointDate = date_text rt pd, pointStartMs = s\<rparr>"
      by (auto simp: Let_def bindR_eq_Inr startOfLocalDate_Inr dest!: spec [of _ i] sym [of _ "ps ! i"])
    then show ?thesis by simp
  qed
  define day where "day = (\<lambda>i. first + ?off i)"
  have first': "first = ?today - (days - 1)" using first assms(1) unfolding day_laws_def by fastforce
  have at: "midnight rt (day i) z = Some (pointStartMs (ps ! i)) \<and> pointDate (ps ! i) = date_text rt (day i)" if "i < nat n" for i
    using pt [OF that] assms(1) unfolding day_laws_def day_def by metis
  have mono: "day i \<le> day j" if "i \<le> j" for i j
  proof (cases "n = 1")
    case False
    have "(days - 1) * int i \<le> (days - 1) * int j" using that n by (intro mult_left_mono) simp_all
    with False n show ?thesis by (simp add: day_def roundDiv_mono)
  qed (simp add: day_def)
  have early: "day i + 1 \<le> ?today" if "Suc i < nat n" for i
  proof -
    have "int i < n - 1" "n \<noteq> 1" using that by linarith+
    with roundDiv_below [of "int i" n days] assms(3) show ?thesis by (simp add: day_def first')
  qed
  have "hd ps = ps ! 0" using len n by (cases ps) simp_all
  moreover have "day i = ?today - (days - 1) + ?off i" for i by (simp add: day_def first')
  ultimately show ?thesis using at [of 0] at mono early len n by (intro conjI exI [of _ day]) auto
qed

lemma roundDiv_nearest: "0 < b \<Longrightarrow> 2 * \<bar>b * roundDiv a b - a\<bar> \<le> b"
proof -
  assume b: "0 < b"
  define m x where "m = (2 * a + b) mod (2 * b)" and "x = b * ((2 * a + b) div (2 * b))"
  have "2 * x + m = 2 * a + b" using mult_div_mod_eq [of "2 * b" "2 * a + b"] by (simp add: m_def x_def mult.assoc)
  moreover have "0 \<le> m" "m < 2 * b" using b by (simp_all add: m_def)
  ultimately have "2 * x \<le> b + 2 * a" "2 * a \<le> b + 2 * x" by presburger+
  then have "2 * \<bar>x - a\<bar> \<le> b" by (cases "a \<le> x") simp_all
  then show ?thesis by (simp add: x_def roundDiv_def)
qed

lemma roundDiv_exact: "0 < b \<Longrightarrow> roundDiv (b * k) b = k"
proof -
  assume b: "0 < b"
  have "2 * (b * k) + b = b + k * (2 * b)" by (simp add: algebra_simps)
  then have "roundDiv (b * k) b = (b + k * (2 * b)) div (2 * b)" by (simp only: roundDiv_def)
  also have "\<dots> = k + b div (2 * b)" using b by (intro div_mult_self1) simp
  also have "b div (2 * b) = 0" using b by (simp add: div_pos_pos_trivial)
  finally show ?thesis by simp
qed

text \<open>
  The local days of the points: the last \<open>days\<close> days one by one up to 30, and beyond twelve days spread
  evenly over them, each the whole day nearest to its exact position.
\<close>

definition day_of_point :: "int \<Rightarrow> int \<Rightarrow> nat \<Rightarrow> int \<Rightarrow> bool" where
  "day_of_point days today k day \<longleftrightarrow>
     (if days \<le> 30 then day = today - (days - 1) + int k
      else 2 * \<bar>11 * (day - (today - (days - 1))) - (days - 1) * int k\<bar> \<le> 11)"

lemma day_of_point_step:
  assumes "day = today - (days - 1) + (if n = 1 then days - 1 else roundDiv ((days - 1) * int k) (n - 1))"
    "n = (if days \<le> 30 then days else 12)" "0 < n" "int k < n"
  shows "day_of_point days today k day"
proof (cases "days \<le> 30")
  case True
  then show ?thesis using assms roundDiv_exact [of "days - 1" "int k"] by (simp add: day_of_point_def split: if_splits)
next
  case False
  then show ?thesis using assms roundDiv_nearest [of 11 "(days - 1) * int k"] by (simp add: day_of_point_def)
qed

lemma day_of_last_point:
  assumes "day_of_point days today k day" "int (Suc k) = (if days \<le> 30 then days else 12)"
  shows "day = today"
proof (cases "days \<le> 30")
  case False
  then have "k = 11" using assms(2) by simp
  then have "2 * \<bar>11 * (day - (today - (days - 1))) - (days - 1) * 11\<bar> \<le> 11"
    using assms(1) False by (simp only: day_of_point_def if_False) simp
  moreover have "11 * (day - (today - (days - 1))) - (days - 1) * 11 = 11 * (day - today)" by (simp add: algebra_simps)
  ultimately have "2 * (11 * \<bar>day - today\<bar>) \<le> 11" by (simp only: abs_mult abs_numeral)
  then show ?thesis by presburger
qed (use assms in \<open>simp add: day_of_point_def\<close>)

lemma localDateRange_end:
  assumes "day_laws rt" "localDateRange rt (date_text rt d) z = Inr r"
  shows "midnight rt (d + 1) z = Some (endMs r)"
proof -
  from assms(2) obtain d' e where "date_from rt (date_text rt d) = Some d'" "isLocalDateShape (date_text rt d)"
      "add_days rt d' 1 = Some e" "midnight rt e z = Some (endMs r)"
    by (auto simp: localDateRange_def plainDateForLocalDate_def plainDateFrom_def bindR_eq_Inr startOfLocalDate_Inr split: option.splits)
  with assms(1) show ?thesis unfolding day_laws_def by metis
qed

lemma trend_cutoffs:
  assumes "day_laws rt" "calendar_order rt" "calendarDayPointsForInstant rt days n now z = Inr ps" "n \<le> days"
    and "trendPoints rt a z now (now + 1) st ps = Inr out" "pointStartMs (hd ps) \<le> now + 1"
  shows "sorted (cutoffs (now + 1) out) \<and> (\<forall>c\<in>set (cutoffs (now + 1) out). pointStartMs (hd ps) \<le> c \<and> c \<le> now + 1)
    \<and> (\<forall>c\<in>set (butlast (cutoffs (now + 1) out)). c \<le> now)"
proof -
  obtain day where d: "midnight rt (day 0) z = Some (pointStartMs (hd ps))" "\<And>i j. i \<le> j \<Longrightarrow> j < length ps \<Longrightarrow> day i \<le> day j"
      "\<And>i. i < length ps \<Longrightarrow> pointDate (ps ! i) = date_text rt (day i)"
      "\<And>i. Suc i < length ps \<Longrightarrow> day i + 1 \<le> date_of_instant rt now z"
    using day_points [OF assms(1,3,4)] by blast
  note shape = trendPoints_shape [OF assms(5)]
  have ends: "midnight rt (day i + 1) z = Some (bp_timestamp (out ! i))" if "Suc i < length ps" for i
    using shape that d(3) [of i] localDateRange_end [OF assms(1), of "day i"] by fastforce
  have le: "s \<le> t" if "d \<le> e" "midnight rt d z = Some s" "midnight rt e z = Some t" for d e s t
    using assms(2) that unfolding calendar_order_def by blast
  let ?cs = "map bp_timestamp (butlast out)"
  have now: "c \<le> now" "pointStartMs (hd ps) \<le> c" if "c \<in> set ?cs" for c
  proof -
    from that obtain i where "i < length ?cs" "?cs ! i = c" by (auto simp: in_set_conv_nth)
    then have i: "Suc i < length ps" "c = bp_timestamp (out ! i)" using shape by (simp_all add: nth_butlast)
    show "c \<le> now" using ends [OF i(1)] d(4) [OF i(1)] assms(1) i(2) unfolding day_laws_def by blast
    have "day 0 \<le> day i + 1" using d(2) [of 0 i] i(1) by simp
    then show "pointStartMs (hd ps) \<le> c" using le [OF _ d(1) ends [OF i(1)]] i(2) by simp
  qed
  have "sorted ?cs"
    unfolding sorted_iff_nth_mono
  proof (intro allI impI)
    fix i j assume ij: "i \<le> j" "j < length ?cs"
    then have len: "Suc i < length ps" "Suc j < length ps" using shape by simp_all
    have "day i + 1 \<le> day j + 1" using d(2) [OF ij(1)] len by simp
    then have "bp_timestamp (out ! i) \<le> bp_timestamp (out ! j)" using le [OF _ ends ends] len by simp
    then show "?cs ! i \<le> ?cs ! j" using len shape by (simp add: nth_butlast)
  qed
  with now assms(6) show ?thesis by (force simp: cutoffs_def sorted_append)
qed

text \<open>The dates of the points, and the ends of the past days.\<close>

lemma trend_days:
  assumes "day_laws rt" "calendarDayPointsForInstant rt days n now z = Inr ps" "n \<le> days"
    and "trendPoints rt a z now nowEx st ps = Inr out" "n = (if days \<le> 30 then days else 12)" "k < length out"
  shows "\<exists>day. day_of_point days (date_of_instant rt now z) k day \<and> bp_date (out ! k) = date_text rt day
    \<and> (Suc k < length out \<longrightarrow> midnight rt (day + 1) z = Some (bp_timestamp (out ! k)))"
proof -
  obtain day where d: "\<And>i. day i = date_of_instant rt now z - (days - 1) + (if n = 1 then days - 1 else roundDiv ((days - 1) * int i) (n - 1))"
      "\<And>i. i < length ps \<Longrightarrow> pointDate (ps ! i) = date_text rt (day i)" and n: "length ps = nat n" "0 < n"
    using day_points [OF assms(1-3)] by blast
  note shape = trendPoints_shape [OF assms(4)]
  have k: "k < length ps" "int k < n" using shape assms(6) n by auto
  have "midnight rt (day k + 1) z = Some (bp_timestamp (out ! k))" if "Suc k < length out"
    using shape that d(2) [OF k(1)] localDateRange_end [OF assms(1), of "day k"] by fastforce
  moreover have "bp_date (out ! k) = date_text rt (day k)" using shape d(2) k(1) by simp
  ultimately show ?thesis using day_of_point_step [OF d(1) assms(5) n(2) k(2)] by blast
qed

lemma range_balance:
  assumes "wf_db rt db" "listActiveTransactionsForAccountInRange rt (a_id a) s e db = Inr ts"
    and "getAccountBalanceBefore a s db = Inr b0" and c: "s \<le> c" "c \<le> e"
  shows "b0 + effects a (occurring_before c (order_by (trend_le rt) ts)) = balance_spec a (occurring_before c (txs rt db))"
proof -
  let ?in_range = "\<lambda>t. tx_deletedAt t = None \<and> a_id a \<in> set (tx_accounts t) \<and> s \<le> tx_occurredAt t \<and> tx_occurredAt t < c"
  have "selectTransactions rt (\<lambda>r. rt_deleted_at r = None \<and> references_account (a_id a) r
      \<and> s \<le> rt_occurred_at r \<and> rt_occurred_at r < e) db = Inr ts"
    using assms(2) by (simp add: listActiveTransactionsForAccountInRange_def split: if_splits)
  from selected_mset [OF assms(1) this] c(2)
  have "mset (occurring_before c (order_by (trend_le rt) ts)) = mset (filter ?in_range (txs rt db))"
    by (simp add: references_tx_accounts filter_filter_mset) (auto intro!: filter_mset_cong)
  then have "effects a (occurring_before c (order_by (trend_le rt) ts)) = effects a (filter ?in_range (txs rt db))"
    by (rule sum_list_perm)
  moreover have "effects a (occurring_before s us) + effects a (filter ?in_range us) = effects a (occurring_before c us)" for us
    using c(1) effect_deleted effect_foreign by (induction us) auto
  ultimately show ?thesis using before_value [OF assms(1,3)] by (simp add: balance_spec_def)
qed

lemma trend_run:
  assumes "getAccountBalanceTrend rt d i days db = Inr out"
  obtains s a now p ps ts b0 where "requireSettings rt db = Inr s" "requireAccount rt i db = Inr a" "captureNow rt d = Inr now"
    "calendarDayPointsForInstant rt days (if days \<le> 30 then days else 12) now (s_timezone (s :: settings)) = Inr (p # ps)"
    "listActiveTransactionsForAccountInRange rt (a_id a) (pointStartMs p) (now + 1) db = Inr ts"
    "getAccountBalanceBefore a (pointStartMs p) db = Inr b0"
    "trendPoints rt a (s_timezone s) now (now + 1) (b0, order_by (trend_le rt) ts) (p # ps) = Inr out"
proof -
  from assms obtain s :: settings and a now cp where set: "requireSettings rt db = Inr s" and cp: "requireAccount rt i db = Inr a" "captureNow rt d = Inr now"
      "calendarDayPointsForInstant rt days (if days \<le> 30 then days else 12) now (s_timezone s) = Inr cp" "assertUtcMilliseconds rt (JInt (now + 1)) ''projection now exclusive'' = Inr (now + 1)"
      "(case cp of [] \<Rightarrow> Inl TypeErr | p # _ \<Rightarrow>
         bindR (listActiveTransactionsForAccountInRange rt (a_id a) (pointStartMs p) (now + 1) db) (\<lambda>ts.
         bindR (getAccountBalanceBefore a (pointStartMs p) db) (\<lambda>prefix_balance.
         accountBalanceTrend rt a prefix_balance ts cp now (s_timezone s)))) = Inr out"
    by (simp add: getAccountBalanceTrend_def exclusiveInstant_def bindR_eq_Inr Let_def) blast
  obtain p ps where p: "cp = p # ps" using cp(5) by (cases cp) simp_all
  from cp(4,5) obtain ts b0 where r: "listActiveTransactionsForAccountInRange rt (a_id a) (pointStartMs p) (now + 1) db = Inr ts"
      "getAccountBalanceBefore a (pointStartMs p) db = Inr b0"
      "trendPoints rt a (s_timezone s) now (now + 1) (b0, order_by (trend_le rt) ts) cp = Inr out"
    by (auto simp: p accountBalanceTrend_def exclusiveInstant_def bindR_eq_Inr simp del: trendPoints.simps)
  with set cp p that show thesis by blast
qed

text \<open>
  Property C24. The balance trend is exact: it has one point for each of the requested days (at most
  twelve beyond a month, spread evenly), in time order. Each past point is dated with its local day,
  stamped with the end of that day, which is the midnight that starts the next one in the time zone of
  the settings, and shows the balance of the account from everything that occurred before it; the last
  point is today's, stamped with the clock reading, and shows everything that occurred up to now.
\<close>

theorem balance_trend_exact:
  assumes "wf_db rt db" "day_laws rt" "calendar_order rt"
    and "getAccountBalanceTrend rt d i days db = Inr out"
  shows "\<exists>s a now. requireSettings rt db = Inr s \<and> requireAccount rt i db = Inr a \<and> captureNow rt d = Inr now
    \<and> int (length out) = (if days \<le> 30 then days else 12) \<and> sorted (map bp_timestamp out) \<and> bp_timestamp (last out) = now
    \<and> bp_date (last out) = date_text rt (date_of_instant rt now (s_timezone s))
    \<and> (\<forall>k < length out. \<exists>day. day_of_point days (date_of_instant rt now (s_timezone s)) k day \<and> bp_date (out ! k) = date_text rt day
         \<and> (Suc k < length out \<longrightarrow> midnight rt (day + 1) (s_timezone s) = Some (bp_timestamp (out ! k))))
    \<and> (\<forall>k < length out. bp_balanceMinor (out ! k) = balance_spec a
         (filter (\<lambda>t. if Suc k = length out then tx_occurredAt t \<le> now else tx_occurredAt t < bp_timestamp (out ! k)) (txs rt db)))"
proof -
  let ?n = "if days \<le> 30 then days else 12"
  obtain s a now p ps ts b0 where set: "requireSettings rt db = Inr s" and cp: "requireAccount rt i db = Inr a" "captureNow rt d = Inr now"
      "calendarDayPointsForInstant rt days ?n now (s_timezone (s :: settings)) = Inr (p # ps)"
    and r: "listActiveTransactionsForAccountInRange rt (a_id a) (pointStartMs p) (now + 1) db = Inr ts"
      "getAccountBalanceBefore a (pointStartMs p) db = Inr b0"
      "trendPoints rt a (s_timezone s) now (now + 1) (b0, order_by (trend_le rt) ts) (p # ps) = Inr out"
    by (rule trend_run [OF assms(4)])
  have a: "a_id a \<noteq> []" using requireAccount_read [OF assms(1) cp(1)] by (auto simp: wf_account_def)
  have start: "pointStartMs p < now + 1" using r(1) by (auto simp: listActiveTransactionsForAccountInRange_def split: if_splits)
  have n: "?n \<le> days" by simp
  have points: "length (p # ps) = nat ?n" "0 < ?n" using day_points [OF assms(2) cp(3) n] by blast+
  note shape = trendPoints_shape [OF r(3)]
  have "pointStartMs (hd (p # ps)) \<le> now + 1" using start by simp
  note cuts = trend_cutoffs [OF assms(2,3) cp(3) n r(3) this]
  have wf: "\<forall>t\<in>set (order_by (trend_le rt) ts). wf_tx rt t"
    using r(1) assms(1) by (auto simp: listActiveTransactionsForAccountInRange_def selectTransactions_wf newest_first_def wf_db_def
        list_all_iff wf_tx_of split: if_splits)
  have "list_all2 (\<lambda>q c. bp_balanceMinor q = b0 + effects a (occurring_before c (order_by (trend_le rt) ts))) out (cutoffs (now + 1) out)"
    using trendPoints_value [OF r(3) _ a wf trend_sorted] cuts by simp
  then have vals: "list_all2 (\<lambda>q c. bp_balanceMinor q = balance_spec a (occurring_before c (txs rt db))) out (cutoffs (now + 1) out)"
    by (rule list.rel_mono_strong) (use cuts range_balance [OF assms(1) r(1,2)] in simp)
  have ne: "out \<noteq> []" using shape by auto
  note out = append_butlast_last_id [OF ne]
  have len: "int (length out) = ?n" using shape points by simp
  have last: "bp_timestamp (last out) = now" using shape by simp
  have "map bp_timestamp out = map bp_timestamp (butlast out) @ [now]" using arg_cong [OF out, of "map bp_timestamp"] last by simp
  moreover have "butlast (cutoffs (now + 1) out) = map bp_timestamp (butlast out)" by (simp add: cutoffs_def)
  ultimately have sorted: "sorted (map bp_timestamp out)"
    using cuts by (simp add: sorted_append) (simp add: cutoffs_def sorted_append)
  have "bp_balanceMinor (out ! k) = balance_spec a
      (filter (\<lambda>t. if Suc k = length out then tx_occurredAt t \<le> now else tx_occurredAt t < bp_timestamp (out ! k)) (txs rt db))"
    if k: "k < length out" for k
  proof -
    have "bp_balanceMinor (out ! k) = balance_spec a (occurring_before (cutoffs (now + 1) out ! k) (txs rt db))"
      using vals k by (simp add: list_all2_conv_all_nth)
    moreover have "cutoffs (now + 1) out ! k = (if Suc k = length out then now + 1 else bp_timestamp (out ! k))"
      using k by (auto simp: cutoffs_def nth_append nth_butlast)
    moreover have "(\<lambda>t. tx_occurredAt t < now + 1) = (\<lambda>t. tx_occurredAt t \<le> now)" by auto
    ultimately show ?thesis by simp
  qed
  moreover have days: "\<exists>day. day_of_point days (date_of_instant rt now (s_timezone s)) k day \<and> bp_date (out ! k) = date_text rt day
      \<and> (Suc k < length out \<longrightarrow> midnight rt (day + 1) (s_timezone s) = Some (bp_timestamp (out ! k)))" if "k < length out" for k
    using trend_days [OF assms(2) cp(3) n r(3) refl that] .
  moreover have "bp_date (last out) = date_text rt (date_of_instant rt now (s_timezone s))"
  proof -
    have k: "length out - 1 < length out" using ne by simp
    obtain day where d: "day_of_point days (date_of_instant rt now (s_timezone s)) (length out - 1) day" "bp_date (last out) = date_text rt day"
      using days [OF k] last_conv_nth [OF ne] by auto
    moreover have "int (Suc (length out - 1)) = ?n" using k len by simp
    ultimately show ?thesis using day_of_last_point by blast
  qed
  ultimately show ?thesis using len last sorted set cp(1,2) by blast
qed

lemma day_laws_demo: "day_laws demo_runtime"
proof -
  have printed: "date_from demo_runtime (date_text demo_runtime d) = Some e \<and> isLocalDateShape (date_text demo_runtime d) \<longrightarrow> e = d"
    for d e
  proof (cases "0 \<le> d \<and> d \<le> 8")
    case True
    then show ?thesis by (simp add: demo_runtime_def)
  next
    case False
    then have "date_text demo_runtime d = js ''far''" by (auto simp: demo_runtime_def)
    then show ?thesis by (simp add: js_def isLocalDateShape_def)
  qed
  have "d * 86400000 \<le> t" if "d \<le> t div 86400000" for d t :: int using that by linarith
  then have "d \<le> date_of_instant demo_runtime t z \<and> midnight demo_runtime d z = Some s \<longrightarrow> s \<le> t" for d t z s
    by (auto simp: demo_runtime_def)
  with printed show ?thesis by (simp add: day_laws_def demo_calendar)
qed

definition trend_deps :: service_deps where
  "trend_deps = demo_deps\<lparr>dep_now := (\<lambda>_. 86400007)\<rparr>"

theorem balance_trend_exact_witness:
  "\<exists>p q. getAccountBalanceTrend demo_runtime trend_deps (js ''acc'') 2 demo_db = Inr [p, q]
     \<and> bp_balanceMinor p = 300 \<and> bp_balanceMinor q = 300 \<and> bp_timestamp q = 86400007"
proof -
  obtain s where s: "requireSettings demo_runtime demo_db = Inr s" "s_timezone s = js ''UTC''" using demo_read(1) by blast
  have now: "captureNow demo_runtime trend_deps = Inr 86400007" "exclusiveInstant demo_runtime 86400007 = Inr 86400008"
    by (simp_all add: captureNow_def exclusiveInstant_def trend_deps_def) (simp_all add: demo_runtime_def is_safe_def MAX_SAFE_def)
  have day: "plainDateForInstant demo_runtime 86400007 z = Inr 1" for z
    by (simp add: plainDateForInstant_def bindR_eq_Inr) (simp add: demo_runtime_def is_safe_def MAX_SAFE_def)
  have printed: "date_text demo_runtime 0 = js ''1970-01-01''" by (simp add: demo_runtime_def js_def)
  obtain d1 where pts: "calendarDayPointsForInstant demo_runtime 2 2 86400007 (js ''UTC'') = Inr
      [\<lparr>pointDate = js ''1970-01-01'', pointStartMs = 0\<rparr>, \<lparr>pointDate = d1, pointStartMs = 86400000\<rparr>]"
    by (simp add: calendarDayPointsForInstant_def demo_clock day demo_calendar arrayFrom_def roundDiv_def upt_rec demo_midnight printed
        is_safe_def MAX_SAFE_def catchCalendar_def del: assertIanaTimeZoneId_Inr)
  have range0: "localDateRange demo_runtime (js ''1970-01-01'') (js ''UTC'') = Inr \<lparr>startMs = 0, endMs = 86400000\<rparr>"
    by (simp add: localDateRange_def demo_clock demo_calendar demo_midnight del: assertIanaTimeZoneId_Inr)
  have sel: "listActiveTransactionsForAccountInRange demo_runtime (js ''acc'') 0 86400008 demo_db = Inr [demo_expense]"
    by (simp add: listActiveTransactionsForAccountInRange_def is_safe_def MAX_SAFE_def demo_select references_tx_accounts)
  have before: "getAccountBalanceBefore demo_account 0 demo_db = Inr 500"
    by (simp add: getAccountBalanceBefore_def balanceWhere_def sqlSum_def accountBalanceFromEffect_def fl53_exact)
      (simp add: is_safe_def MAX_SAFE_def demo_expense_def demo_base_def)
  have e: "transactionEffectForAccount demo_expense demo_account = Inr (-200)"
    using transactionEffect_eq [OF wf_demo_expense, of demo_account] by simp
  have "tx_occurredAt demo_expense = 0" by (simp add: demo_expense_def demo_base_def)
  note e = e this
  obtain p q where run: "getAccountBalanceTrend demo_runtime trend_deps (js ''acc'') 2 demo_db = Inr [p, q]" "bp_timestamp p = 86400000"
    by (simp add: getAccountBalanceTrend_def s demo_read now pts sel before accountBalanceTrend_def range0 e checkedAddMinor_eq
        is_safe_def MAX_SAFE_def)
  from balance_trend_exact [OF wf_demo_db day_laws_demo calendar_order_demo run(1)]
  obtain a t where a: "requireAccount demo_runtime (js ''acc'') demo_db = Inr a" "captureNow demo_runtime trend_deps = Inr t"
    and last: "bp_timestamp (last [p, q]) = t"
    and bal: "\<forall>k < length [p, q]. bp_balanceMinor ([p, q] ! k) = balance_spec a
         (filter (\<lambda>u. if Suc k = length [p, q] then tx_occurredAt u \<le> t else tx_occurredAt u < bp_timestamp ([p, q] ! k)) (txs demo_runtime demo_db))"
    by (elim exE conjE)
  from a have "a = demo_account" "t = 86400007" by (simp_all add: demo_read now)
  with bal last run(2) have "bp_balanceMinor p = 300" "bp_balanceMinor q = 300" "bp_timestamp q = 86400007"
    by (simp_all add: demo_txs e All_less_Suc balance_spec_def numeral_2_eq_2)
  with run(1) show ?thesis by blast
qed

section \<open>The two serializers\<close>

lemma same_body: "transactionDtoBody b x rest = JObj (transactionDtoBase b x @ rest)"
  by (simp add: transactionDtoBody_def transactionDtoBase_def truthyEntry_def nullInt_def split: option.splits)

lemma same_entries:
  "(case a_icon a of Some i \<Rightarrow> if i = [] \<or> i = js ''wallet'' then [] else [(js ''icon'', JStr i)] | None \<Rightarrow> []) = iconEntry (a_icon a)"
  "(case a_cardNumber a of Some n \<Rightarrow> if n = [] then [] else [(js ''cardNumber'', JStr n)] | None \<Rightarrow> []) = truthyEntry ''cardNumber'' (a_cardNumber a)"
  "(case a_archivedAt a of None \<Rightarrow> JNull | Some t \<Rightarrow> JInt t) = nullInt (a_archivedAt a)"
  by (simp_all add: iconEntry_def truthyEntry_def nullInt_def split: option.splits)

text \<open>
  The service and the projections serialize the same way: a transaction is printed as
  the same object by both, and the account object of the service is the one the projections print
  with the balance they derive.
\<close>

lemma read_models_agree:
  "transactionDto t x = toTransactionDto t x
   \<and> (toAccountDto rt a db = Inr j \<longleftrightarrow>
       (\<exists>st. accountState rt db a = Inr st \<and> accountDto rt a (st_currentBalanceMinor st) = Inr j))"
proof
  show "transactionDto t x = toTransactionDto t x"
    by (cases t) (simp_all add: transactionDto_def same_body split: option.splits)
  show "toAccountDto rt a db = Inr j \<longleftrightarrow>
      (\<exists>st. accountState rt db a = Inr st \<and> accountDto rt a (st_currentBalanceMinor st) = Inr j)"
    unfolding toAccountDto_def accountState_def accountDto_def accountDtoEntries_def same_entries bindR_eq_Inr
    by auto
qed

end
