(* ===== verification/AuthKdfGuard.thy ===== *)
theory AuthKdfGuard
  imports Prelude
begin

text \<open>
  The scheduler of password KDF work, server/auth/kdfGuard.ts. A job is the identity of one call of
  \<open>run\<close>. The guard keeps a counter of active jobs and a queue; the rest of the record is what the
  JavaScript runtime holds for it: the aborted signals, the pending promise chains (\<open>running\<close> until the
  job settles, \<open>finishing\<close> until its \<open>finally\<close> callback has run), the jobs whose function was called, and
  the calls of \<open>resolve\<close> and \<open>reject\<close>. Timers and abort listeners exist exactly for queued jobs.
  Overload resolution of the two argument orders of \<open>run\<close> is TypeScript's and is not modelled.
\<close>

named_theorems guard_defs \<open>operations of the KDF guard\<close>

type_synonym job = nat

datatype kdf_error = KdfOverloaded | KdfQueueTimeout | KdfAborted

datatype job_outcome = Settled | Rejected kdf_error

definition DEFAULT_KDF_CONCURRENCY :: int where "DEFAULT_KDF_CONCURRENCY = 3"
definition DEFAULT_KDF_MAX_QUEUE :: int where "DEFAULT_KDF_MAX_QUEUE = 24"
definition DEFAULT_KDF_QUEUE_WAIT_MS :: int where "DEFAULT_KDF_QUEUE_WAIT_MS = 5000"

record kdf_options =
  ko_concurrency :: "int option"
  ko_maxQueue :: "int option"
  ko_maxQueueWaitMs :: "int option"

record kdf_guard =
  concurrency :: int
  maxQueue :: int
  maxQueueWaitMs :: int
  active :: int
  queue :: "job list"
  aborted :: "job list"
  running :: "job list"
  finishing :: "job list"
  invoked :: "job list"
  outcomes :: "(job \<times> job_outcome) list"

section \<open>Operations\<close>

definition assertPositiveInteger :: "int \<Rightarrow> int option" where
  "assertPositiveInteger v = (if v < 1 then None else Some v)"

text \<open>The constructor; \<open>None\<close> for the thrown RangeError.\<close>

definition KdfGuard :: "kdf_options \<Rightarrow> kdf_guard option" where
  "KdfGuard opts =
     Option.bind (assertPositiveInteger (case_option DEFAULT_KDF_CONCURRENCY id (ko_concurrency opts))) (\<lambda>c.
     let q = case_option DEFAULT_KDF_MAX_QUEUE id (ko_maxQueue opts) in
     if q < 0 then None
     else Option.bind (assertPositiveInteger (case_option DEFAULT_KDF_QUEUE_WAIT_MS id (ko_maxQueueWaitMs opts))) (\<lambda>w.
       Some \<lparr>concurrency = c, maxQueue = q, maxQueueWaitMs = w, active = 0, queue = [], aborted = [],
             running = [], finishing = [], invoked = [], outcomes = []\<rparr>))"

definition activeCount :: "kdf_guard \<Rightarrow> int" where
  "activeCount g = active g"

definition queuedCount :: "kdf_guard \<Rightarrow> int" where
  "queuedCount g = int (length (queue g))"

definition pendingCount :: "kdf_guard \<Rightarrow> int" where
  "pendingCount g = active g + int (length (queue g))"

definition reject :: "job \<Rightarrow> kdf_error \<Rightarrow> kdf_guard \<Rightarrow> kdf_guard" where
  "reject j e g = g\<lparr>outcomes := outcomes g @ [(j, Rejected e)]\<rparr>"

definition start :: "job \<Rightarrow> kdf_guard \<Rightarrow> kdf_guard" where
  "start j g = g\<lparr>active := active g + 1, running := running g @ [j], invoked := invoked g @ [j]\<rparr>"

definition removeQueued :: "job \<Rightarrow> kdf_guard \<Rightarrow> kdf_guard option" where
  "removeQueued j g = (if j \<in> set (queue g) then Some (g\<lparr>queue := remove1 j (queue g)\<rparr>) else None)"

text \<open>The abort listener and the timer of a queued job.\<close>

definition abortListener :: "job \<Rightarrow> kdf_guard \<Rightarrow> kdf_guard" where
  "abortListener j g = (case removeQueued j g of None \<Rightarrow> g | Some g' \<Rightarrow> reject j KdfAborted g')"

definition queueTimeout :: "job \<Rightarrow> kdf_guard \<Rightarrow> kdf_guard" where
  "queueTimeout j g = (case removeQueued j g of None \<Rightarrow> g | Some g' \<Rightarrow> reject j KdfQueueTimeout g')"

definition run :: "job \<Rightarrow> kdf_guard \<Rightarrow> kdf_guard" where
  "run j g =
     (if j \<in> set (aborted g) then reject j KdfAborted g
      else if active g < concurrency g then start j g
      else if int (length (queue g)) \<ge> maxQueue g then reject j KdfOverloaded g
      else if j \<in> set (aborted g) then abortListener j g
      else g\<lparr>queue := queue g @ [j]\<rparr>)"

function drain :: "kdf_guard \<Rightarrow> kdf_guard" where
  "drain g =
     (if active g < concurrency g then
        (case queue g of
           [] \<Rightarrow> g
         | j # q \<Rightarrow>
             if j \<in> set (aborted g) then drain (reject j KdfAborted (g\<lparr>queue := q\<rparr>))
             else drain (start j (g\<lparr>queue := q\<rparr>)))
      else g)"
  by pat_completeness auto

termination
  by (relation "measure (\<lambda>g. length (queue g))") (simp_all add: reject_def start_def)

declare drain.simps [simp del]

text \<open>The abort of a signal; the settling of a job's promise; the \<open>finally\<close> callback after it.\<close>

definition abortSignal :: "job \<Rightarrow> kdf_guard \<Rightarrow> kdf_guard" where
  "abortSignal j g = abortListener j (g\<lparr>aborted := j # aborted g\<rparr>)"

definition settle :: "job \<Rightarrow> kdf_guard \<Rightarrow> kdf_guard" where
  "settle j g = g\<lparr>running := remove1 j (running g), finishing := finishing g @ [j], outcomes := outcomes g @ [(j, Settled)]\<rparr>"

definition release :: "job \<Rightarrow> kdf_guard \<Rightarrow> kdf_guard" where
  "release j g = drain (g\<lparr>finishing := remove1 j (finishing g), active := active g - 1\<rparr>)"

lemmas [guard_defs] = reject_def start_def removeQueued_def abortListener_def queueTimeout_def run_def
  abortSignal_def settle_def release_def

section \<open>The steps of the scheduler\<close>

definition known :: "kdf_guard \<Rightarrow> job set" where
  "known g = set (queue g) \<union> set (invoked g) \<union> fst ` set (outcomes g)"

text \<open>One event of the event loop; the flag tells whether a worker slot was given back.\<close>

inductive kdf_step :: "kdf_guard \<Rightarrow> bool \<Rightarrow> kdf_guard \<Rightarrow> bool" where
  Run: "j \<notin> known g \<Longrightarrow> kdf_step g False (run j g)"
| Abort: "kdf_step g False (abortSignal j g)"
| Timeout: "kdf_step g False (queueTimeout j g)"
| Settle: "j \<in> set (running g) \<Longrightarrow> kdf_step g False (settle j g)"
| Release: "j \<in> set (finishing g) \<Longrightarrow> kdf_step g True (release j g)"

text \<open>A run of the event loop with its number of releases.\<close>

inductive kdf_run :: "kdf_guard \<Rightarrow> nat \<Rightarrow> kdf_guard \<Rightarrow> bool" where
  Stop: "kdf_run g 0 g"
| Step: "kdf_run g n h \<Longrightarrow> kdf_step h b k \<Longrightarrow> kdf_run g (if b then Suc n else n) k"

section \<open>The invariant\<close>

definition settled :: "kdf_guard \<Rightarrow> job set" where
  "settled g = {j. (j, Settled) \<in> set (outcomes g)}"

definition concluded :: "kdf_guard \<Rightarrow> job set" where
  "concluded g = fst ` set (outcomes g)"

text \<open>Every job is in one place: waiting, running, or concluded with one outcome.\<close>

definition jobs_ok :: "kdf_guard \<Rightarrow> bool" where
  "jobs_ok g \<longleftrightarrow>
     distinct (queue g) \<and> distinct (running g) \<and> distinct (finishing g) \<and> distinct (invoked g)
   \<and> distinct (map fst (outcomes g))
   \<and> set (queue g) \<inter> (set (invoked g) \<union> concluded g \<union> set (aborted g)) = {}
   \<and> set (invoked g) = set (running g) \<union> settled g \<and> set (running g) \<inter> concluded g = {}
   \<and> set (finishing g) \<subseteq> settled g"

definition slots_ok :: "kdf_guard \<Rightarrow> bool" where
  "slots_ok g \<longleftrightarrow>
     1 \<le> concurrency g \<and> 0 \<le> maxQueue g \<and> active g = int (length (running g)) + int (length (finishing g))
   \<and> active g \<le> concurrency g \<and> int (length (queue g)) \<le> maxQueue g"

definition no_idle_slot :: "kdf_guard \<Rightarrow> bool" where
  "no_idle_slot g \<longleftrightarrow> queue g \<noteq> [] \<longrightarrow> active g = concurrency g"

definition guard_ok :: "kdf_guard \<Rightarrow> bool" where
  "guard_ok g \<longleftrightarrow> jobs_ok g \<and> slots_ok g \<and> no_idle_slot g"

lemmas ok_defs = jobs_ok_def slots_ok_def settled_def concluded_def

lemma settled_concluded: "settled g \<subseteq> concluded g"
  by (force simp: settled_def concluded_def)

lemma jobs_start:
  assumes "jobs_ok g" "j \<notin> known g"
  shows "jobs_ok (start j g)"
  using assms settled_concluded [of g] by (auto simp: jobs_ok_def start_def known_def settled_def concluded_def)

lemma jobs_reject:
  assumes "jobs_ok g" "j \<notin> known g"
  shows "jobs_ok (reject j e g)"
  using assms by (auto simp: jobs_ok_def reject_def known_def settled_def concluded_def)

lemma jobs_unqueue:
  assumes "jobs_ok g" "set q \<subseteq> set (queue g)" "distinct q"
  shows "jobs_ok (g\<lparr>queue := q\<rparr>)"
  using assms by (auto simp: jobs_ok_def settled_def concluded_def)

lemma jobs_dequeued: "jobs_ok g \<Longrightarrow> j \<in> set (queue g) \<Longrightarrow> j \<notin> set q \<Longrightarrow> j \<notin> known (g\<lparr>queue := q\<rparr>)"
  by (auto simp: jobs_ok_def known_def concluded_def)

lemma jobs_enqueue:
  assumes "jobs_ok g" "j \<notin> known g" "j \<notin> set (aborted g)"
  shows "jobs_ok (g\<lparr>queue := queue g @ [j]\<rparr>)"
  using assms by (auto simp: jobs_ok_def known_def settled_def concluded_def)

lemma jobs_settle:
  assumes "jobs_ok g" "j \<in> set (running g)"
  shows "jobs_ok (settle j g)"
proof -
  have "j \<notin> concluded g" using assms by (auto simp: jobs_ok_def)
  moreover from this have "j \<notin> set (finishing g)" using assms(1) settled_concluded [of g] by (auto simp: jobs_ok_def)
  ultimately show ?thesis using assms by (auto simp: jobs_ok_def settle_def settled_def concluded_def)
qed

lemma jobs_release:
  assumes "jobs_ok g"
  shows "jobs_ok (g\<lparr>finishing := remove1 j (finishing g), active := n\<rparr>)"
  using assms by (auto simp: jobs_ok_def settled_def concluded_def)

text \<open>What holds between two turns of the loop in \<open>drain\<close>: a slot may be free although jobs wait.\<close>

lemma drain_ok:
  "jobs_ok g \<Longrightarrow> slots_ok g \<Longrightarrow> guard_ok (drain g)"
proof (induction g rule: drain.induct)
  case (1 g)
  show ?case
  proof (cases "active g < concurrency g \<and> queue g \<noteq> []")
    case True
    then obtain j q where q: "queue g = j # q" "active g < concurrency g" by (cases "queue g") auto
    with 1(3) have j: "j \<notin> set (aborted g)" "j \<notin> set q" "distinct q" by (auto simp: jobs_ok_def)
    have "jobs_ok (start j (g\<lparr>queue := q\<rparr>))"
      using 1(3) q(1) j by (intro jobs_start jobs_unqueue jobs_dequeued) auto
    moreover have "slots_ok (start j (g\<lparr>queue := q\<rparr>))" using 1(4) q by (simp add: slots_ok_def start_def)
    ultimately show ?thesis using 1(2) [OF q(2,1) j(1)] q j(1) by (subst drain.simps) simp
  next
    case False
    with 1(3,4) show ?thesis
      by (subst drain.simps) (auto simp: guard_ok_def no_idle_slot_def slots_ok_def split: list.split)
  qed
qed

lemma removed_ok:
  assumes "guard_ok g" "removeQueued j g = Some h"
  shows "guard_ok (reject j e h)"
proof -
  from assms(2) have h: "j \<in> set (queue g)" "h = g\<lparr>queue := remove1 j (queue g)\<rparr>"
    by (auto simp: removeQueued_def split: if_splits)
  have j: "j \<notin> set (remove1 j (queue g))" "distinct (remove1 j (queue g))" "set (remove1 j (queue g)) \<subseteq> set (queue g)"
    using assms(1) by (auto simp: guard_ok_def jobs_ok_def dest: notin_set_remove1)
  have "jobs_ok (reject j e h)"
    unfolding h(2) using assms(1) h(1) j by (intro jobs_reject jobs_unqueue jobs_dequeued) (simp_all add: guard_ok_def)
  moreover have "slots_ok (reject j e h)" "no_idle_slot (reject j e h)"
    using assms(1) h by (auto simp: guard_ok_def slots_ok_def no_idle_slot_def reject_def length_remove1)
  ultimately show ?thesis by (simp add: guard_ok_def)
qed

lemma guard_ok_start:
  "guard_ok g \<Longrightarrow> j \<notin> known g \<Longrightarrow> active g < concurrency g \<Longrightarrow> guard_ok (start j g)"
  using jobs_start [of g j] by (auto simp: guard_ok_def slots_ok_def no_idle_slot_def) (simp_all add: start_def)

lemma guard_ok_run: "guard_ok g \<Longrightarrow> j \<notin> known g \<Longrightarrow> guard_ok (run j g)"
proof -
  assume g: "guard_ok g" "j \<notin> known g"
  have r: "guard_ok (reject j e g)" for e
    using g jobs_reject [of g j e] by (auto simp: guard_ok_def slots_ok_def no_idle_slot_def) (simp_all add: reject_def)
  have q: "guard_ok (g\<lparr>queue := queue g @ [j]\<rparr>)"
    if "j \<notin> set (aborted g)" "\<not> active g < concurrency g" "\<not> maxQueue g \<le> int (length (queue g))"
    using g that by (auto simp: guard_ok_def slots_ok_def no_idle_slot_def intro: jobs_enqueue)
  show ?thesis using r q guard_ok_start [OF g] by (simp add: run_def)
qed

lemma guard_ok_abort: "guard_ok g \<Longrightarrow> guard_ok (abortSignal j g)"
proof -
  assume g: "guard_ok g"
  let ?g = "g\<lparr>aborted := j # aborted g\<rparr>"
  show ?thesis
  proof (cases "j \<in> set (queue g)")
    case False
    with g have "guard_ok ?g" by (auto simp: guard_ok_def jobs_ok_def slots_ok_def no_idle_slot_def settled_def concluded_def)
    with False show ?thesis by (simp add: abortSignal_def abortListener_def removeQueued_def)
  next
    case True
    then have "abortSignal j g = (reject j KdfAborted (g\<lparr>queue := remove1 j (queue g)\<rparr>))\<lparr>aborted := j # aborted g\<rparr>"
      by (simp add: abortSignal_def abortListener_def removeQueued_def reject_def)
    moreover have "guard_ok (reject j KdfAborted (g\<lparr>queue := remove1 j (queue g)\<rparr>))"
      using True by (intro removed_ok [OF g]) (simp add: removeQueued_def)
    moreover have "j \<notin> set (remove1 j (queue g))" using g by (simp add: guard_ok_def jobs_ok_def)
    ultimately show ?thesis
      by (auto simp: guard_ok_def jobs_ok_def slots_ok_def no_idle_slot_def settled_def concluded_def reject_def)
  qed
qed

lemma guard_ok_timeout: "guard_ok g \<Longrightarrow> guard_ok (queueTimeout j g)"
  using removed_ok by (auto simp: queueTimeout_def split: option.split)

lemma guard_ok_settle: "guard_ok g \<Longrightarrow> j \<in> set (running g) \<Longrightarrow> guard_ok (settle j g)"
  by (auto simp: guard_ok_def jobs_settle)
    (auto simp: slots_ok_def no_idle_slot_def settle_def length_remove1 Suc_le_eq dest: length_pos_if_in_set)

lemma guard_ok_release: "guard_ok g \<Longrightarrow> j \<in> set (finishing g) \<Longrightarrow> guard_ok (release j g)"
  unfolding release_def
  by (rule drain_ok)
    (auto simp: guard_ok_def jobs_release slots_ok_def length_remove1 Suc_le_eq dest: length_pos_if_in_set)

lemma guard_ok_step: "kdf_step g b h \<Longrightarrow> guard_ok g \<Longrightarrow> guard_ok h"
  by (induction rule: kdf_step.induct)
    (simp_all add: guard_ok_run guard_ok_abort guard_ok_timeout guard_ok_settle guard_ok_release)

lemma guard_ok_reach: "kdf_run g n h \<Longrightarrow> guard_ok g \<Longrightarrow> guard_ok h"
  by (induction rule: kdf_run.induct) (auto dest: guard_ok_step)

lemma new_guard_ok: "KdfGuard opts = Some g \<Longrightarrow> guard_ok g"
  by (auto simp: KdfGuard_def assertPositiveInteger_def Let_def guard_ok_def jobs_ok_def slots_ok_def no_idle_slot_def
      settled_def concluded_def split: Option.bind_splits if_splits)

text \<open>
  Property C37. The guard keeps its budget and its books. Whatever the order of calls, aborts, timeouts
  and completions, from a new guard: at most \<open>concurrency\<close> jobs are active and at most \<open>maxQueue\<close> wait;
  nobody waits while a slot is free; every call of \<open>run\<close> is waiting, running or concluded, with exactly
  one outcome; and a job that was rejected was never started.
\<close>

theorem kdf_capacity:
  assumes "KdfGuard opts = Some g0" "kdf_run g0 n g"
  shows "0 \<le> activeCount g \<and> activeCount g \<le> concurrency g \<and> queuedCount g \<le> maxQueue g
    \<and> (queue g \<noteq> [] \<longrightarrow> activeCount g = concurrency g \<and> (running g \<noteq> [] \<or> finishing g \<noteq> []))
    \<and> known g = set (queue g) \<union> set (running g) \<union> fst ` set (outcomes g)
    \<and> set (queue g) \<inter> (set (running g) \<union> fst ` set (outcomes g)) = {} \<and> set (running g) \<inter> fst ` set (outcomes g) = {}
    \<and> distinct (map fst (outcomes g)) \<and> distinct (invoked g)
    \<and> (\<forall>j e. (j, Rejected e) \<in> set (outcomes g) \<longrightarrow> j \<notin> set (invoked g))"
proof -
  have g: "jobs_ok g" "slots_ok g" "no_idle_slot g"
    using guard_ok_reach [OF assms(2) new_guard_ok [OF assms(1)]] by (simp_all add: guard_ok_def)
  have "j \<notin> set (invoked g)" if r: "(j, Rejected e) \<in> set (outcomes g)" for j e
  proof
    assume "j \<in> set (invoked g)"
    moreover have "j \<notin> set (running g)" using g(1) r by (force simp: jobs_ok_def concluded_def)
    ultimately have "(j, Settled) \<in> set (outcomes g)" using g(1) by (auto simp: jobs_ok_def settled_def)
    with r g(1) show False by (auto simp: jobs_ok_def dest: eq_key_imp_eq_value)
  qed
  moreover have "known g = set (queue g) \<union> set (running g) \<union> fst ` set (outcomes g)"
    using g(1) settled_concluded [of g] by (auto simp: known_def jobs_ok_def concluded_def)
  ultimately show ?thesis
    using g by (auto simp: jobs_ok_def slots_ok_def no_idle_slot_def concluded_def activeCount_def queuedCount_def)
qed

section \<open>Service in order\<close>

definition place :: "job \<Rightarrow> kdf_guard \<Rightarrow> nat" where
  "place j g = length (takeWhile (\<lambda>k. k \<noteq> j) (queue g))"

lemma drain_shape:
  "\<exists>m. queue (drain g) = drop m (queue g) \<and> (active g < concurrency g \<and> queue g \<noteq> [] \<longrightarrow> 0 < m)
     \<and> (\<exists>ks. outcomes (drain g) = outcomes g @ map (\<lambda>k. (k, Rejected KdfAborted)) ks)
     \<and> known (drain g) = known g"
proof (induction g rule: drain.induct)
  case (1 g)
  show ?case
  proof (cases "active g < concurrency g \<and> queue g \<noteq> []")
    case True
    then obtain j q where q: "queue g = j # q" "active g < concurrency g" by (cases "queue g") auto
    let ?next = "if j \<in> set (aborted g) then reject j KdfAborted (g\<lparr>queue := q\<rparr>) else start j (g\<lparr>queue := q\<rparr>)"
    have step: "drain g = drain ?next" using q by (subst drain.simps) simp
    have n: "queue ?next = q" "known ?next = known g" "\<exists>ks. outcomes ?next = outcomes g @ map (\<lambda>k. (k, Rejected KdfAborted)) ks"
      using q(1) by (auto simp: reject_def start_def known_def intro: exI [of _ "[]"] exI [of _ "[j]"])
    from 1 [OF q(2,1)] obtain m ks where m: "queue (drain ?next) = drop m q"
        "outcomes (drain ?next) = outcomes ?next @ map (\<lambda>k. (k, Rejected KdfAborted)) ks" "known (drain ?next) = known ?next"
      by (cases "j \<in> set (aborted g)") (auto simp: reject_def start_def)
    from n(3) obtain ls where "outcomes ?next = outcomes g @ map (\<lambda>k. (k, Rejected KdfAborted)) ls" by blast
    with m n(2) q(1) show ?thesis unfolding step
      by (intro exI [of _ "Suc m"]) (auto intro!: exI [of _ "ls @ ks"])
  next
    case False
    then have "drain g = g" by (subst drain.simps) (auto split: list.split)
    then show ?thesis using False by (intro exI [of _ 0]) auto
  qed
qed

lemma place_drop:
  assumes "j \<in> set (drop m q)" "distinct q"
  shows "length (takeWhile (\<lambda>k. k \<noteq> j) (drop m q)) + m = length (takeWhile (\<lambda>k. k \<noteq> j) q)"
  using assms
proof (induction m arbitrary: q)
  case (Suc m)
  then obtain k r where q: "q = k # r" by (cases q) auto
  with Suc.prems have "j \<noteq> k" by (auto dest: in_set_dropD)
  with Suc.IH [of r] Suc.prems q show ?case by simp
qed simp

lemma place_remove1: "j \<in> set (remove1 k q) \<Longrightarrow> distinct q \<Longrightarrow>
  length (takeWhile (\<lambda>i. i \<noteq> j) (remove1 k q)) \<le> length (takeWhile (\<lambda>i. i \<noteq> j) q)"
  by (induction q) auto

lemma place_step:
  assumes "kdf_step g b h" "guard_ok g" "j \<in> set (queue g)" "j \<in> set (queue h)"
  shows "place j h + (if b then 1 else 0) \<le> place j g"
  using assms
proof (induction rule: kdf_step.induct)
  case (Release k g)
  let ?g = "g\<lparr>finishing := remove1 k (finishing g), active := active g - 1\<rparr>"
  obtain m where m: "queue (release k g) = drop m (queue g)" "active ?g < concurrency ?g \<and> queue ?g \<noteq> [] \<longrightarrow> 0 < m"
    using drain_shape [of ?g] by (auto simp: release_def)
  have "active g = concurrency g" "distinct (queue g)"
    using Release.prems by (auto simp: guard_ok_def no_idle_slot_def jobs_ok_def)
  then have "0 < m" using m(2) Release.prems(2) by auto
  with place_drop [of j m "queue g"] Release.prems(3) m(1) \<open>distinct (queue g)\<close> show ?case by (simp add: place_def)
next
  case (Run k g)
  then show ?case by (auto simp: run_def place_def reject_def start_def abortListener_def removeQueued_def)
next
  case (Abort g k)
  then show ?case
    by (auto simp: abortSignal_def abortListener_def removeQueued_def reject_def place_def guard_ok_def jobs_ok_def
        intro: place_remove1)
next
  case (Timeout g k)
  then show ?case
    by (auto simp: queueTimeout_def removeQueued_def reject_def place_def guard_ok_def jobs_ok_def intro: place_remove1)
qed (simp add: settle_def place_def)

lemma known_step: "kdf_step g b h \<Longrightarrow> known g \<subseteq> known h"
proof (induction rule: kdf_step.induct)
  case (Release k g)
  show ?case
    using drain_shape [of "g\<lparr>finishing := remove1 k (finishing g), active := active g - 1\<rparr>"]
    by (auto simp: release_def known_def)
qed (auto simp: guard_defs known_def split: option.splits if_splits dest: in_set_remove1 intro: rev_image_eqI)

lemma no_return: "kdf_step g b h \<Longrightarrow> j \<in> known g \<Longrightarrow> j \<notin> set (queue g) \<Longrightarrow> j \<notin> set (queue h)"
proof (induction rule: kdf_step.induct)
  case (Release k g)
  then show ?case
    using drain_shape [of "g\<lparr>finishing := remove1 k (finishing g), active := active g - 1\<rparr>"]
    by (auto simp: release_def dest: in_set_dropD)
qed (auto simp: guard_defs split: option.splits if_splits dest: notin_set_remove1)

text \<open>A job is refused for want of capacity only in its own call of \<open>run\<close>.\<close>

lemma overloaded_step:
  "kdf_step g b h \<Longrightarrow> (j, Rejected KdfOverloaded) \<in> set (outcomes h) \<Longrightarrow>
   (j, Rejected KdfOverloaded) \<in> set (outcomes g) \<or> j \<notin> known g"
proof (induction rule: kdf_step.induct)
  case (Release k g)
  then show ?case
    using drain_shape [of "g\<lparr>finishing := remove1 k (finishing g), active := active g - 1\<rparr>"]
    by (auto simp: release_def)
qed (auto simp: guard_defs split: option.splits if_splits)

lemma served_in_order:
  assumes "kdf_run g n h" "guard_ok g" "j \<in> set (queue g)"
  shows "j \<in> known h \<and> (j, Rejected KdfOverloaded) \<notin> set (outcomes h) \<and> (j \<in> set (queue h) \<longrightarrow> place j h + n \<le> place j g)"
  using assms
proof (induction rule: kdf_run.induct)
  case (Stop g)
  then show ?case by (force simp: known_def guard_ok_def jobs_ok_def concluded_def)
next
  case (Step g n h b k)
  note ih = Step.IH [OF Step.prems]
  have "guard_ok h" by (rule guard_ok_reach [OF Step.hyps(1) Step.prems(1)])
  moreover have "j \<in> set (queue h)" if "j \<in> set (queue k)" using no_return [OF Step.hyps(2)] ih that by blast
  ultimately show ?case
    using ih known_step [OF Step.hyps(2)] overloaded_step [OF Step.hyps(2), of j] place_step [OF Step.hyps(2), of j]
    by (auto split: if_splits)
qed

text \<open>
  Property C38. Waiting work is served first come, first served, and nobody starves: a job that stands
  behind \<open>place j g\<close> others in the queue has left it once more than that many slots were given back,
  whatever else was called, aborted or timed out in between. Then its function was called, or it was
  rejected because its own signal was aborted or its own wait timed out, never for want of capacity.
\<close>

theorem kdf_fifo_service:
  assumes "KdfGuard opts = Some g0" "kdf_run g0 m g" "j \<in> set (queue g)" "kdf_run g n h" "place j g < n"
  shows "j \<notin> set (queue h)
    \<and> (j \<in> set (invoked h) \<or> (j, Rejected KdfAborted) \<in> set (outcomes h) \<or> (j, Rejected KdfQueueTimeout) \<in> set (outcomes h))"
proof -
  have g: "guard_ok g" by (rule guard_ok_reach [OF assms(2) new_guard_ok [OF assms(1)]])
  have h: "jobs_ok h" using guard_ok_reach [OF assms(4) g] by (simp add: guard_ok_def)
  note s = served_in_order [OF assms(4) g assms(3)]
  with assms(5) have q: "j \<notin> set (queue h)" by auto
  moreover have "(j, Rejected KdfAborted) \<in> set (outcomes h) \<or> (j, Rejected KdfQueueTimeout) \<in> set (outcomes h)"
    if "j \<notin> set (invoked h)"
  proof -
    from s q that obtain r where r: "(j, r) \<in> set (outcomes h)" by (auto simp: known_def)
    have "r \<noteq> Settled" using r that h by (auto simp: jobs_ok_def settled_def)
    moreover have "r \<noteq> Rejected KdfOverloaded" using r s by blast
    ultimately show ?thesis using r by (metis job_outcome.exhaust kdf_error.exhaust)
  qed
  ultimately show ?thesis by blast
qed

text \<open>
  The witnesses: two slots of one worker each way. Jobs 1, 2, 3 and 4 arrive at a guard with one worker
  and a queue of two; 4 is refused, and 3 is behind 2 until two slots were given back.
\<close>

definition small_guard :: kdf_guard where
  "small_guard = the (KdfGuard \<lparr>ko_concurrency = Some 1, ko_maxQueue = Some 2, ko_maxQueueWaitMs = None\<rparr>)"

definition crowded :: kdf_guard where
  "crowded = run 4 (run 3 (run 2 (run 1 small_guard)))"

definition served_twice :: kdf_guard where
  "served_twice = release 2 (settle 2 (release 1 (settle 1 crowded)))"

lemma small_guard_eq: "KdfGuard \<lparr>ko_concurrency = Some 1, ko_maxQueue = Some 2, ko_maxQueueWaitMs = None\<rparr> = Some small_guard"
  by (simp add: small_guard_def KdfGuard_def assertPositiveInteger_def DEFAULT_KDF_QUEUE_WAIT_MS_def)

lemma small_guard_value:
  "small_guard = \<lparr>concurrency = 1, maxQueue = 2, maxQueueWaitMs = 5000, active = 0, queue = [], aborted = [],
     running = [], finishing = [], invoked = [], outcomes = []\<rparr>"
  by (simp add: small_guard_def KdfGuard_def assertPositiveInteger_def DEFAULT_KDF_QUEUE_WAIT_MS_def)

lemma crowded_value:
  "crowded = \<lparr>concurrency = 1, maxQueue = 2, maxQueueWaitMs = 5000, active = 1, queue = [2, 3], aborted = [],
     running = [1], finishing = [], invoked = [1], outcomes = [(4, Rejected KdfOverloaded)]\<rparr>"
  by (simp add: crowded_def small_guard_value guard_defs)

lemma crowded_reached: "kdf_run small_guard 0 crowded"
proof -
  have "kdf_run small_guard 0 (run 1 small_guard)"
    using kdf_run.Step [OF kdf_run.Stop kdf_step.Run [of 1 small_guard]] by (simp add: small_guard_value known_def)
  from kdf_run.Step [OF this kdf_step.Run [of 2]] have "kdf_run small_guard 0 (run 2 (run 1 small_guard))"
    by (simp add: small_guard_value known_def guard_defs)
  from kdf_run.Step [OF this kdf_step.Run [of 3]] have "kdf_run small_guard 0 (run 3 (run 2 (run 1 small_guard)))"
    by (simp add: small_guard_value known_def guard_defs)
  from kdf_run.Step [OF this kdf_step.Run [of 4]] show ?thesis
    by (simp add: crowded_def small_guard_value known_def guard_defs)
qed

lemma served_reached: "kdf_run crowded 2 served_twice"
proof -
  have "kdf_run crowded 0 (settle 1 crowded)"
    using kdf_run.Step [OF kdf_run.Stop kdf_step.Settle [of 1 crowded]] by (simp add: crowded_value)
  from kdf_run.Step [OF this kdf_step.Release [of 1]] have "kdf_run crowded 1 (release 1 (settle 1 crowded))"
    by (simp add: crowded_value guard_defs drain.simps)
  from kdf_run.Step [OF this kdf_step.Settle [of 2]] have "kdf_run crowded 1 (settle 2 (release 1 (settle 1 crowded)))"
    by (simp add: crowded_value guard_defs drain.simps)
  from kdf_run.Step [OF this kdf_step.Release [of 2]] show ?thesis
    by (simp add: crowded_value served_twice_def guard_defs drain.simps numeral_2_eq_2)
qed

theorem kdf_capacity_witness:
  "activeCount crowded = 1 \<and> activeCount crowded \<le> concurrency crowded \<and> queuedCount crowded \<le> maxQueue crowded
   \<and> 4 \<notin> set (invoked crowded)"
  using kdf_capacity [OF small_guard_eq crowded_reached] by (simp add: crowded_value activeCount_def)

theorem kdf_fifo_service_witness: "3 \<in> set (queue crowded) \<and> 3 \<notin> set (queue served_twice) \<and> 3 \<in> set (invoked served_twice)"
  using kdf_fifo_service [OF small_guard_eq crowded_reached _ served_reached, of 3]
  by (simp add: crowded_value place_def) (simp add: crowded_value served_twice_def guard_defs drain.simps)

end
