(* ===== verification/AuthPassword.thy ===== *)
theory AuthPassword
  imports JsText AuthKdfGuard
begin

text \<open>
  Credentials of server/auth/password.ts: the owner name, the password, the stored form of a password
  hash and its verification. scrypt itself is a parameter, a function from the UTF-8 bytes of the
  password and the salt to the derived key; the salt of \<open>randomBytes\<close> is an argument. \<open>hashPassword\<close> and
  \<open>verifyPassword\<close> wait for the KDF between two synchronous parts, which are two definitions each: the
  first one ends in the job that is handed to the guard, the second one runs on the key it returns.
  Strings are the only inputs here; the \<open>typeof\<close> checks are made where untyped values arrive.
\<close>

section \<open>Names and passwords\<close>

definition SCRYPT_N :: nat where "SCRYPT_N = 32768"
definition SCRYPT_R :: nat where "SCRYPT_R = 8"
definition SCRYPT_P :: nat where "SCRYPT_P = 1"
definition SCRYPT_SALT_BYTES :: nat where "SCRYPT_SALT_BYTES = 16"
definition SCRYPT_KEY_BYTES :: nat where "SCRYPT_KEY_BYTES = 32"

definition USERNAME_MIN_LENGTH :: nat where "USERNAME_MIN_LENGTH = 3"
definition USERNAME_MAX_LENGTH :: nat where "USERNAME_MAX_LENGTH = 32"
definition PASSWORD_MIN_LENGTH :: nat where "PASSWORD_MIN_LENGTH = 12"
definition PASSWORD_MAX_LENGTH :: nat where "PASSWORD_MAX_LENGTH = 256"

datatype password_error = InvalidUsername | InvalidPassword

definition codePointLength :: "ustr \<Rightarrow> nat" where
  "codePointLength s = length (code_points s)"

text \<open>\<open>/^[a-z0-9](?:[a-z0-9._-]{1,30}[a-z0-9])?$/\<close>\<close>

definition name_end :: "nat \<Rightarrow> bool" where
  "name_end c \<longleftrightarrow> (97 \<le> c \<and> c \<le> 122) \<or> (48 \<le> c \<and> c \<le> 57)"

definition name_unit :: "nat \<Rightarrow> bool" where
  "name_unit c \<longleftrightarrow> name_end c \<or> c = 46 \<or> c = 95 \<or> c = 45"

definition usernamePattern :: "ustr \<Rightarrow> bool" where
  "usernamePattern s =
     (case s of
        [] \<Rightarrow> False
      | c # r \<Rightarrow> name_end c
          \<and> (r = [] \<or> (name_end (last r) \<and> list_all name_unit (butlast r)
                \<and> 1 \<le> length (butlast r) \<and> length (butlast r) \<le> 30)))"

definition normalizeUsername :: "runtime \<Rightarrow> ustr \<Rightarrow> password_error + ustr" where
  "normalizeUsername rt s =
     (let normalized = toLowerCase (rt_lower rt) (js_trim s) in
      if codePointLength normalized < USERNAME_MIN_LENGTH \<or> codePointLength normalized > USERNAME_MAX_LENGTH
         \<or> \<not> usernamePattern normalized
      then Inl InvalidUsername else Inr normalized)"

definition isValidUsername :: "runtime \<Rightarrow> ustr \<Rightarrow> bool" where
  "isValidUsername rt s = (case normalizeUsername rt s of Inl _ \<Rightarrow> False | Inr _ \<Rightarrow> True)"

definition validatePassword :: "ustr \<Rightarrow> password_error + unit" where
  "validatePassword s =
     (let n = codePointLength s in
      if n < PASSWORD_MIN_LENGTH \<or> n > PASSWORD_MAX_LENGTH then Inl InvalidPassword else Inr ())"

definition isValidPassword :: "ustr \<Rightarrow> bool" where
  "isValidPassword s = (case validatePassword s of Inl _ \<Rightarrow> False | Inr _ \<Rightarrow> True)"

section \<open>The stored hash\<close>

record parsed_hash =
  ph_salt :: "nat list"
  ph_derivedKey :: "nat list"

text \<open>\<open>s.split(c)\<close>\<close>

primrec splitOn :: "nat \<Rightarrow> ustr \<Rightarrow> ustr list" where
  "splitOn c [] = [[]]"
| "splitOn c (x # xs) =
     (if x = c then [] # splitOn c xs
      else (case splitOn c xs of [] \<Rightarrow> [[x]] | p # ps \<Rightarrow> (x # p) # ps))"

definition decodeBase64Url :: "ustr \<Rightarrow> nat \<Rightarrow> nat list option" where
  "decodeBase64Url s expectedBytes =
     (if s = [] \<or> \<not> list_all is_b64 s then None
      else let decoded = b64_decode s in
        if length decoded \<noteq> expectedBytes \<or> b64_encode decoded \<noteq> s then None else Some decoded)"

text \<open>
  \<open>/^N=(\d+),r=(\d+),p=(\d+)$/\<close> and the three numbers. A digit run of any length is read exactly; a
  double that large is rounded or infinite, and neither is one of the approved values.
\<close>

definition numberField :: "string \<Rightarrow> ustr \<Rightarrow> nat option" where
  "numberField label s =
     (let ds = drop (length label) s in
      if take (length label) s = js label \<and> ds \<noteq> [] \<and> list_all is_digit ds then Some (digits_val ds) else None)"

definition parseParameters :: "ustr \<Rightarrow> (nat \<times> nat \<times> nat) option" where
  "parseParameters s =
     (case splitOn 44 s of
        [a, b, c] \<Rightarrow>
          (case (numberField ''N='' a, numberField ''r='' b, numberField ''p='' c) of
             (Some n, Some r, Some p) \<Rightarrow> Some (n, r, p)
           | _ \<Rightarrow> None)
      | _ \<Rightarrow> None)"

definition parsePasswordHash :: "ustr \<Rightarrow> parsed_hash option" where
  "parsePasswordHash encoded =
     (case splitOn 36 encoded of
        [algorithm, version, parameters, salt, key] \<Rightarrow>
          if algorithm \<noteq> js ''scrypt'' \<or> version \<noteq> js ''v1'' then None
          else if parseParameters parameters \<noteq> Some (SCRYPT_N, SCRYPT_R, SCRYPT_P) then None
          else Option.bind (decodeBase64Url salt SCRYPT_SALT_BYTES) (\<lambda>s.
               Option.bind (decodeBase64Url key SCRYPT_KEY_BYTES) (\<lambda>k.
               Some \<lparr>ph_salt = s, ph_derivedKey = k\<rparr>))
      | _ \<Rightarrow> None)"

definition encodePasswordHash :: "nat list \<Rightarrow> nat list \<Rightarrow> ustr" where
  "encodePasswordHash salt key =
     js ''scrypt$v1$N='' @ nat_text SCRYPT_N @ js '',r='' @ nat_text SCRYPT_R @ js '',p='' @ nat_text SCRYPT_P
       @ js ''$'' @ b64_encode salt @ js ''$'' @ b64_encode key"

section \<open>Hashing and verification\<close>

text \<open>The work handed to the guard, \<open>deriveScrypt(password, salt)\<close>, and its result.\<close>

record kdf_work =
  kw_password :: ustr
  kw_salt :: "nat list"

datatype kdf_answer = Derived "nat list" | Refused kdf_error | KdfFault

definition deriveScrypt :: "(nat list \<Rightarrow> nat list \<Rightarrow> nat list) \<Rightarrow> kdf_work \<Rightarrow> nat list" where
  "deriveScrypt scrypt w = scrypt (utf8_encode (kw_password w)) (kw_salt w)"

definition hashPassword :: "nat list \<Rightarrow> ustr \<Rightarrow> password_error + kdf_work" where
  "hashPassword salt password =
     bindR (validatePassword password) (\<lambda>_. Inr \<lparr>kw_password = password, kw_salt = salt\<rparr>)"

definition hashDerived :: "kdf_work \<Rightarrow> nat list \<Rightarrow> ustr" where
  "hashDerived w derivedKey = encodePasswordHash (kw_salt w) derivedKey"

text \<open>\<open>None\<close>: the promise is already resolved with false and no work is scheduled.\<close>

definition verifyPassword :: "ustr \<Rightarrow> ustr \<Rightarrow> (kdf_work \<times> parsed_hash) option" where
  "verifyPassword password encodedHash =
     (if \<not> isValidPassword password then None
      else case parsePasswordHash encodedHash of
        None \<Rightarrow> None
      | Some parsed \<Rightarrow> Some (\<lparr>kw_password = password, kw_salt = ph_salt parsed\<rparr>, parsed))"

definition verifyDerived :: "parsed_hash \<Rightarrow> nat list \<Rightarrow> bool" where
  "verifyDerived parsed candidate =
     (if length candidate \<noteq> length (ph_derivedKey parsed) then False else candidate = ph_derivedKey parsed)"

section \<open>Round trips\<close>

lemma splitOn_ne [simp]: "splitOn c s \<noteq> []"
  by (induction s) (auto split: list.split)

lemma splitOn_none: "c \<notin> set s \<Longrightarrow> splitOn c s = [s]"
  by (induction s) auto

lemma splitOn_join: "c \<notin> set s \<Longrightarrow> splitOn c (s @ c # t) = s # splitOn c t"
  by (induction s) (auto split: list.split)

lemma splitOn_split: "splitOn c t = s # q # r \<longleftrightarrow> (\<exists>u. t = s @ c # u \<and> c \<notin> set s \<and> splitOn c u = q # r)"
proof (induction t arbitrary: s)
  case (Cons x t)
  show ?case
  proof (cases "x = c")
    case True
    then show ?thesis by (cases s) auto
  next
    case False
    show ?thesis
    proof
      assume l: "splitOn c (x # t) = s # q # r"
      obtain p ps where p: "splitOn c t = p # ps" by (cases "splitOn c t") auto
      with l False have "s = x # p" "ps = q # r" by auto
      with p Cons.IH [of p] obtain u where "t = p @ c # u" "c \<notin> set p" "splitOn c u = q # r" by blast
      with False \<open>s = x # p\<close> show "\<exists>u. x # t = s @ c # u \<and> c \<notin> set s \<and> splitOn c u = q # r"
        by (intro exI [of _ u]) simp
    next
      assume "\<exists>u. x # t = s @ c # u \<and> c \<notin> set s \<and> splitOn c u = q # r"
      then show "splitOn c (x # t) = s # q # r" using splitOn_join by metis
    qed
  qed
qed simp

lemma splitOn_single: "splitOn c t = [s] \<longleftrightarrow> t = s \<and> c \<notin> set s"
proof
  show "splitOn c t = [s] \<Longrightarrow> t = s \<and> c \<notin> set s"
  proof (induction t arbitrary: s)
    case (Cons x t)
    obtain p ps where p: "splitOn c t = p # ps" by (cases "splitOn c t") auto
    with Cons.prems have "x \<noteq> c" "ps = []" "s = x # p" by (auto split: if_splits)
    with Cons.IH [of p] p show ?case by simp
  qed simp
qed (simp add: splitOn_none)

lemmas splitOn_eq = splitOn_split splitOn_single

lemma b64_units: "list_all (\<lambda>b. b < 256) bs \<Longrightarrow> list_all is_b64 (b64_encode bs)"
  using b64_sextets_bound [of bs] by (auto simp: b64_encode_def list_all_iff is_b64_char)

lemma no_dollar: "list_all (\<lambda>b. b < 256) bs \<Longrightarrow> 36 \<notin> set (b64_encode bs)"
  using b64_units [of bs] by (auto simp: list_all_iff is_b64_def)

lemma decodeBase64Url_iff:
  assumes "0 < n" "list_all (\<lambda>b. b < 256) bs"
  shows "decodeBase64Url (b64_encode bs) n = (if length bs = n then Some bs else None)"
proof -
  have "b64_encode bs = [] \<longleftrightarrow> bs = []" by (cases bs rule: b64_sextets.cases) (simp_all add: b64_encode_def)
  then show ?thesis using assms b64_units [OF assms(2)] by (auto simp: decodeBase64Url_def b64_roundtrip)
qed

lemma decodeBase64Url_Some: "decodeBase64Url s n = Some bs \<Longrightarrow> s = b64_encode bs \<and> length bs = n"
  by (auto simp: decodeBase64Url_def Let_def split: if_splits)

definition approved :: "ustr \<Rightarrow> bool" where
  "approved s \<longleftrightarrow> parseParameters s = Some (SCRYPT_N, SCRYPT_R, SCRYPT_P) \<and> 36 \<notin> set s"

definition standard :: ustr where
  "standard = js ''N='' @ nat_text SCRYPT_N @ js '',r='' @ nat_text SCRYPT_R @ js '',p='' @ nat_text SCRYPT_P"

lemma standard_value: "standard = js ''N=32768,r=8,p=1''"
  by (simp add: standard_def SCRYPT_N_def SCRYPT_R_def SCRYPT_P_def js_def nat_text.simps)

lemma standard_approved: "approved standard"
  by (simp add: approved_def standard_value SCRYPT_N_def SCRYPT_R_def SCRYPT_P_def js_def parseParameters_def
      numberField_def is_digit_def digits_val_def)

lemma parse_shape:
  "parsePasswordHash h = Some p \<longleftrightarrow>
   (\<exists>q s k. h = js ''scrypt$v1$'' @ q @ js ''$'' @ s @ js ''$'' @ k \<and> approved q
      \<and> 36 \<notin> set s \<and> 36 \<notin> set k
      \<and> decodeBase64Url s SCRYPT_SALT_BYTES = Some (ph_salt p) \<and> decodeBase64Url k SCRYPT_KEY_BYTES = Some (ph_derivedKey p))"
  (is "?l \<longleftrightarrow> ?r")
proof
  assume ?l
  then obtain q s k where sp: "splitOn 36 h = [js ''scrypt'', js ''v1'', q, s, k]"
    and q: "parseParameters q = Some (SCRYPT_N, SCRYPT_R, SCRYPT_P)"
    and d: "decodeBase64Url s SCRYPT_SALT_BYTES = Some (ph_salt p)" "decodeBase64Url k SCRYPT_KEY_BYTES = Some (ph_derivedKey p)"
    by (auto simp: parsePasswordHash_def split: list.splits if_splits Option.bind_splits)
  from sp show ?r using q d by (auto simp: splitOn_eq approved_def js_def)
next
  assume ?r
  then obtain q s k where h: "h = js ''scrypt'' @ 36 # js ''v1'' @ 36 # q @ 36 # s @ 36 # k" and q: "approved q"
    and d: "36 \<notin> set s" "36 \<notin> set k"
      "decodeBase64Url s SCRYPT_SALT_BYTES = Some (ph_salt p)" "decodeBase64Url k SCRYPT_KEY_BYTES = Some (ph_derivedKey p)"
    by (auto simp: js_def)
  have "36 \<notin> set (js ''scrypt'')" "36 \<notin> set (js ''v1'')" by (simp_all add: js_def)
  then have "splitOn 36 h = [js ''scrypt'', js ''v1'', q, s, k]"
    using d(1,2) q unfolding h approved_def by (simp add: splitOn_join splitOn_none)
  then show ?l using q d(3,4) by (cases p) (simp add: parsePasswordHash_def approved_def)
qed

text \<open>What \<open>scrypt\<close> of node:crypto returns: \<open>SCRYPT_KEY_BYTES\<close> bytes.\<close>

definition key_length :: "(nat list \<Rightarrow> nat list \<Rightarrow> nat list) \<Rightarrow> bool" where
  "key_length scrypt \<longleftrightarrow> (\<forall>b s. length (scrypt b s) = SCRYPT_KEY_BYTES \<and> list_all (\<lambda>c. c < 256) (scrypt b s))"

definition salt_ok :: "nat list \<Rightarrow> bool" where
  "salt_ok salt \<longleftrightarrow> length salt = SCRYPT_SALT_BYTES \<and> list_all (\<lambda>c. c < 256) salt"

lemma hashed_parses:
  assumes "salt_ok salt" "length key = SCRYPT_KEY_BYTES" "list_all (\<lambda>c. c < 256) key"
  shows "parsePasswordHash (encodePasswordHash salt key) = Some \<lparr>ph_salt = salt, ph_derivedKey = key\<rparr>"
proof -
  have e: "encodePasswordHash salt key = js ''scrypt$v1$'' @ standard @ js ''$'' @ b64_encode salt @ js ''$'' @ b64_encode key"
    by (simp add: encodePasswordHash_def standard_def js_def)
  have d: "decodeBase64Url (b64_encode salt) SCRYPT_SALT_BYTES = Some salt" "decodeBase64Url (b64_encode key) SCRYPT_KEY_BYTES = Some key"
    using assms by (simp_all add: decodeBase64Url_iff salt_ok_def SCRYPT_SALT_BYTES_def SCRYPT_KEY_BYTES_def)
  show ?thesis
    using d standard_approved no_dollar [of salt] no_dollar [of key] assms unfolding parse_shape e
    by (intro exI [of _ standard] exI [of _ "b64_encode salt"] exI [of _ "b64_encode key"]) (simp add: salt_ok_def)
qed

lemma verify_hashed:
  assumes "isValidPassword pw" "salt_ok salt" "length key = SCRYPT_KEY_BYTES" "list_all (\<lambda>c. c < 256) key"
  shows "verifyPassword pw (encodePasswordHash salt key) =
    Some (\<lparr>kw_password = pw, kw_salt = salt\<rparr>, \<lparr>ph_salt = salt, ph_derivedKey = key\<rparr>)"
  using assms by (simp add: verifyPassword_def hashed_parses)

text \<open>
  Property C39. A stored password verifies. For a valid password, a salt of the configured size and any
  KDF that returns keys of the configured size, hashing schedules the derivation for that password and
  salt; the text stored from its result is parsed back, and verification of the same password schedules
  the same derivation and accepts its result. Another valid password is accepted exactly when it has
  the same derived key, and an invalid one is refused without work for the KDF.
\<close>

theorem password_roundtrip:
  assumes "isValidPassword pw" "salt_ok salt" "key_length scrypt"
  shows "\<exists>w parsed. hashPassword salt pw = Inr w
    \<and> (let stored = hashDerived w (deriveScrypt scrypt w) in
         verifyPassword pw stored = Some (w, parsed) \<and> verifyDerived parsed (deriveScrypt scrypt w)
       \<and> (\<forall>pw'. if isValidPassword pw'
            then \<exists>w'. verifyPassword pw' stored = Some (w', parsed)
               \<and> verifyDerived parsed (deriveScrypt scrypt w')
                   = (scrypt (utf8_encode pw') salt = scrypt (utf8_encode pw) salt)
            else verifyPassword pw' stored = None))"
proof -
  let ?w = "\<lparr>kw_password = pw, kw_salt = salt\<rparr>" and ?key = "scrypt (utf8_encode pw) salt"
  have h: "hashPassword salt pw = Inr ?w"
    using assms(1) by (auto simp: hashPassword_def isValidPassword_def split: sum.splits)
  have k: "length ?key = SCRYPT_KEY_BYTES" "list_all (\<lambda>c. c < 256) ?key" using assms(3) by (simp_all add: key_length_def)
  have len: "length (scrypt a b) = length ?key" for a b using assms(3) by (simp add: key_length_def)
  show ?thesis
    using h verify_hashed [OF _ assms(2) k] assms(1) len
    by (intro exI [of _ ?w] exI [of _ "\<lparr>ph_salt = salt, ph_derivedKey = ?key\<rparr>"])
      (auto simp: hashDerived_def deriveScrypt_def verifyDerived_def Let_def verifyPassword_def)
qed

text \<open>A stand-in for scrypt on which examples evaluate: 32 copies of the first byte.\<close>

definition demo_scrypt :: "nat list \<Rightarrow> nat list \<Rightarrow> nat list" where
  "demo_scrypt b s = replicate 32 (sum_list b mod 256)"

definition demo_password :: ustr where "demo_password = js ''correct horse battery''"

lemma demo_key_length: "key_length demo_scrypt"
  by (simp add: key_length_def demo_scrypt_def SCRYPT_KEY_BYTES_def list_all_iff)

lemma demo_salt_ok: "salt_ok (replicate 16 7)"
  by (simp add: salt_ok_def SCRYPT_SALT_BYTES_def list_all_iff)

lemma code_points_ascii: "list_all (\<lambda>c. c < 128) s \<Longrightarrow> code_points s = s"
  by (induction s rule: code_points.induct) auto

lemma demo_password_valid: "isValidPassword demo_password"
proof -
  have "list_all (\<lambda>c. c < 128) demo_password" by (simp add: demo_password_def js_def)
  then have "codePointLength demo_password = length demo_password" by (simp add: codePointLength_def code_points_ascii)
  then show ?thesis
    by (simp add: isValidPassword_def validatePassword_def demo_password_def PASSWORD_MIN_LENGTH_def PASSWORD_MAX_LENGTH_def)
qed

theorem password_roundtrip_witness:
  "isValidPassword demo_password \<and> (\<exists>w. hashPassword (replicate 16 7) demo_password = Inr w)"
  using password_roundtrip [OF demo_password_valid demo_salt_ok demo_key_length] demo_password_valid by (elim exE conjE) (intro conjI exI; assumption)

section \<open>What may reach the KDF\<close>

lemma b64_high: "x < 64 \<Longrightarrow> y < 64 \<Longrightarrow> x * 4 + y div 16 < 256" for x y :: nat
proof -
  assume "x < 64" "y < 64"
  moreover from this have "y div 16 < 4" by auto
  ultimately show ?thesis by linarith
qed

lemma b64_mid: "z < 64 \<Longrightarrow> y mod 16 * 16 + z div 4 < 256" for y z :: nat
proof -
  assume "z < 64"
  then have "z div 4 < 16" by auto
  moreover have "y mod 16 < 16" by simp
  ultimately show ?thesis by linarith
qed

lemma b64_low: "w < 64 \<Longrightarrow> z mod 4 * 64 + w < 256" for z w :: nat
proof -
  assume "w < 64"
  moreover have "z mod 4 < 4" by simp
  ultimately show ?thesis by linarith
qed

lemma b64_bytes_bound: "list_all (\<lambda>n. n < 64) s \<Longrightarrow> list_all (\<lambda>c. c < 256) (b64_bytes s)"
  by (induction s rule: b64_bytes.induct) (simp_all add: b64_low b64_mid b64_high)

lemma b64_val_bound: "b64_val c < 64"
  by (auto simp: b64_val_def)

lemma b64_decode_bound: "list_all (\<lambda>c. c < 256) (b64_decode s)"
  unfolding b64_decode_def by (rule b64_bytes_bound) (simp add: list_all_iff b64_val_bound)

lemma decodeBase64Url_eq:
  assumes "0 < n"
  shows "decodeBase64Url s n = Some bs \<longleftrightarrow> s = b64_encode bs \<and> length bs = n \<and> list_all (\<lambda>c. c < 256) bs"
proof
  assume l: "decodeBase64Url s n = Some bs"
  then have "bs = b64_decode s" by (auto simp: decodeBase64Url_def Let_def split: if_splits)
  with b64_decode_bound [of s] decodeBase64Url_Some [OF l]
  show "s = b64_encode bs \<and> length bs = n \<and> list_all (\<lambda>c. c < 256) bs" by metis
qed (use assms decodeBase64Url_iff in auto)

lemma parse_exact:
  "parsePasswordHash h = Some p \<longleftrightarrow>
     (\<exists>q. h = js ''scrypt$v1$'' @ q @ js ''$'' @ b64_encode (ph_salt p) @ js ''$'' @ b64_encode (ph_derivedKey p) \<and> approved q)
   \<and> salt_ok (ph_salt p) \<and> length (ph_derivedKey p) = SCRYPT_KEY_BYTES \<and> list_all (\<lambda>c. c < 256) (ph_derivedKey p)"
proof -
  have n: "0 < SCRYPT_SALT_BYTES" "0 < SCRYPT_KEY_BYTES" by (simp_all add: SCRYPT_SALT_BYTES_def SCRYPT_KEY_BYTES_def)
  show ?thesis
    unfolding parse_shape decodeBase64Url_eq [OF n(1)] decodeBase64Url_eq [OF n(2)] salt_ok_def
    using no_dollar [of "ph_salt p"] no_dollar [of "ph_derivedKey p"] by auto
qed

text \<open>
  Only the approved cost reaches the KDF. Verification schedules work exactly for a
  password of 12 to 256 code points and a stored text of five fields with the approved algorithm,
  version and parameters, a canonical base64url salt of 16 bytes and a canonical derived key of 32; the
  scheduled work uses that password and that salt. Every other stored text is a plain refusal.
\<close>

lemma verify_schedules_approved_only:
  "verifyPassword pw h = Some (w, parsed) \<longleftrightarrow>
     12 \<le> length (code_points pw) \<and> length (code_points pw) \<le> 256
   \<and> (\<exists>q. h = js ''scrypt$v1$'' @ q @ js ''$'' @ b64_encode (ph_salt parsed) @ js ''$'' @ b64_encode (ph_derivedKey parsed)
        \<and> approved q)
   \<and> salt_ok (ph_salt parsed)
   \<and> length (ph_derivedKey parsed) = 32 \<and> list_all (\<lambda>c. c < 256) (ph_derivedKey parsed)
   \<and> w = \<lparr>kw_password = pw, kw_salt = ph_salt parsed\<rparr>"
proof -
  have "isValidPassword pw \<longleftrightarrow> 12 \<le> length (code_points pw) \<and> length (code_points pw) \<le> 256"
    by (auto simp: isValidPassword_def validatePassword_def codePointLength_def PASSWORD_MIN_LENGTH_def PASSWORD_MAX_LENGTH_def Let_def)
  then show ?thesis using parse_exact [of h parsed]
    by (auto simp: verifyPassword_def SCRYPT_KEY_BYTES_def split: option.splits)
qed

section \<open>User names\<close>

definition canonical_name :: "ustr \<Rightarrow> bool" where
  "canonical_name n \<longleftrightarrow> 3 \<le> length n \<and> length n \<le> 32 \<and> name_end (hd n) \<and> name_end (last n) \<and> list_all name_unit n"

lemma pattern_canonical: "usernamePattern n \<and> 3 \<le> length n \<longleftrightarrow> canonical_name n"
proof (cases n)
  case (Cons c r)
  show ?thesis
  proof (cases r rule: rev_cases)
    case (snoc m d)
    with Cons show ?thesis by (auto simp: usernamePattern_def canonical_name_def name_unit_def)
  qed (simp add: Cons usernamePattern_def canonical_name_def)
qed (simp add: usernamePattern_def canonical_name_def)

lemma canonical_ascii: "canonical_name n \<Longrightarrow> list_all (\<lambda>c. c < 128) n"
  by (auto simp: canonical_name_def list_all_iff name_unit_def name_end_def)

lemma name_unit_ascii: "name_unit c \<Longrightarrow> c < 128"
  by (auto simp: name_unit_def name_end_def)

lemma pattern_ascii: "usernamePattern n \<Longrightarrow> code_points n = n"
proof (cases n)
  case (Cons c r)
  assume u: "usernamePattern n"
  have "list_all name_unit n"
    using u Cons by (cases r rule: rev_cases) (auto simp: usernamePattern_def name_unit_def)
  then show ?thesis by (intro code_points_ascii) (auto simp: list_all_iff name_unit_ascii)
qed simp

lemma normalizeUsername_Inr:
  "normalizeUsername rt s = Inr n \<longleftrightarrow> n = toLowerCase (rt_lower rt) (js_trim s) \<and> canonical_name n"
  using pattern_ascii [of n] pattern_canonical [of n] canonical_ascii [THEN code_points_ascii, of n]
  by (auto simp: normalizeUsername_def Let_def codePointLength_def USERNAME_MIN_LENGTH_def USERNAME_MAX_LENGTH_def
      canonical_name_def)

lemma canonical_fixed: "canonical_name n \<Longrightarrow> normalizeUsername rt n = Inr n"
proof -
  assume n: "canonical_name n"
  then have "\<not> js_space (hd n)" "\<not> js_space (last n)" by (auto simp: canonical_name_def name_end_def js_space_def)
  then have "js_trim n = n" by (intro js_trim_fixed) simp
  moreover have "map ascii_lower n = n"
    using n by (intro map_idI) (auto simp: canonical_name_def list_all_iff name_unit_def name_end_def ascii_lower_def)
  ultimately show ?thesis using n canonical_ascii [OF n] by (simp add: normalizeUsername_Inr toLowerCase_def)
qed

end
