(* ===== verification/AuthConfig.thy ===== *)
theory AuthConfig
  imports AuthPassword
begin

text \<open>
  The configuration of authentication (server/auth/config.ts with readCanonicalEnv of server/env.ts) and
  the same-origin policy of mutations (server/auth/csrf.ts). The WHATWG parser behind \<open>new URL\<close> is the
  parameter \<open>parse_url\<close>: \<open>None\<close> for the thrown TypeError, else the components the code reads. Request
  headers are a list of lower-case names with their values.
\<close>

section \<open>Origins and cookies\<close>

definition SESSION_LIFETIME_MS :: int where "SESSION_LIFETIME_MS = 7 * 24 * 60 * 60 * 1000"
definition SESSION_LAST_SEEN_UPDATE_INTERVAL_MS :: int where "SESSION_LAST_SEEN_UPDATE_INTERVAL_MS = 60 * 60 * 1000"

definition SECURE_SESSION_COOKIE_NAME :: ustr where "SECURE_SESSION_COOKIE_NAME = js ''__Host-nuvyn_session''"
definition LOCAL_SESSION_COOKIE_NAME :: ustr where "LOCAL_SESSION_COOKIE_NAME = js ''nuvyn_session''"

record cookie_profile =
  ck_name :: ustr
  ck_secure :: bool
  ck_httpOnly :: bool
  ck_sameSite :: ustr
  ck_path :: ustr

record auth_config =
  cf_publicOrigin :: ustr
  cf_allowedOrigins :: "ustr list"
  cf_cookie :: cookie_profile
  cf_sessionLifetimeMs :: int
  cf_sessionLastSeenUpdateIntervalMs :: int
  cf_revokeSessionsOnStart :: bool

record url =
  url_protocol :: ustr
  url_username :: ustr
  url_password :: ustr
  url_hostname :: ustr
  url_pathname :: ustr
  url_search :: ustr
  url_hash :: ustr
  url_origin :: ustr

definition LOOPBACK_HTTP_HOSTS :: "ustr list" where
  "LOOPBACK_HTTP_HOSTS = [js ''localhost'', js ''127.0.0.1'', js ''[::1]'']"

definition MAX_PUBLIC_ORIGINS :: nat where "MAX_PUBLIC_ORIGINS = 8"

definition cookieProfile :: "bool \<Rightarrow> cookie_profile" where
  "cookieProfile secure =
     (if secure
      then \<lparr>ck_name = SECURE_SESSION_COOKIE_NAME, ck_secure = True, ck_httpOnly = True, ck_sameSite = js ''Lax'', ck_path = js ''/''\<rparr>
      else \<lparr>ck_name = LOCAL_SESSION_COOKIE_NAME, ck_secure = False, ck_httpOnly = True, ck_sameSite = js ''Lax'', ck_path = js ''/''\<rparr>)"

text \<open>One entry of the list: \<open>None\<close> for each of its AuthConfigErrors.\<close>

definition parseOriginEntry :: "(ustr \<Rightarrow> url option) \<Rightarrow> ustr \<Rightarrow> url option" where
  "parseOriginEntry parse_url raw =
     Option.bind (parse_url raw) (\<lambda>u.
       if url_protocol u \<noteq> js ''http:'' \<and> url_protocol u \<noteq> js ''https:'' then None
       else if url_username u \<noteq> [] \<or> url_password u \<noteq> [] \<or> 42 \<in> set (url_hostname u) then None
       else if url_pathname u \<noteq> js ''/'' \<or> url_search u \<noteq> [] \<or> url_hash u \<noteq> [] then None
       else if url_protocol u = js ''http:'' \<and> url_hostname u \<notin> set LOOPBACK_HTTP_HOSTS then None
       else Some u)"

primrec mapM :: "('a \<Rightarrow> 'b option) \<Rightarrow> 'a list \<Rightarrow> 'b list option" where
  "mapM f [] = Some []"
| "mapM f (x # xs) = Option.bind (f x) (\<lambda>y. Option.bind (mapM f xs) (\<lambda>ys. Some (y # ys)))"

definition parsePublicOrigin :: "(ustr \<Rightarrow> url option) \<Rightarrow> ustr \<Rightarrow> auth_config option" where
  "parsePublicOrigin parse_url value =
     (if js_trim value = [] then None
      else let entries = map js_trim (splitOn 44 value) in
        if [] \<in> set entries \<or> length entries > MAX_PUBLIC_ORIGINS then None
        else Option.bind (mapM (parseOriginEntry parse_url) entries) (\<lambda>urls.
          if length urls > 1 \<and> (\<exists>u\<in>set urls. url_protocol u \<noteq> js ''https:'') then None
          else let allowedOrigins = map url_origin urls in
            if card (set allowedOrigins) \<noteq> length allowedOrigins then None
            else Some \<lparr>cf_publicOrigin = hd allowedOrigins, cf_allowedOrigins = allowedOrigins,
                       cf_cookie = cookieProfile (url_protocol (hd urls) = js ''https:''),
                       cf_sessionLifetimeMs = SESSION_LIFETIME_MS,
                       cf_sessionLastSeenUpdateIntervalMs = SESSION_LAST_SEEN_UPDATE_INTERVAL_MS,
                       cf_revokeSessionsOnStart = False\<rparr>))"

text \<open>The environment is a list of names and values; an empty value counts as unset.\<close>

definition readCanonicalEnv :: "(ustr \<times> ustr) list \<Rightarrow> string \<Rightarrow> ustr option" where
  "readCanonicalEnv env name =
     (case map_of env (js name) of
        None \<Rightarrow> None
      | Some v \<Rightarrow> let canonical = js_trim v in if canonical = [] then None else Some canonical)"

definition loadAuthConfig :: "(ustr \<Rightarrow> url option) \<Rightarrow> (ustr \<times> ustr) list \<Rightarrow> auth_config option" where
  "loadAuthConfig parse_url env =
     map_option (\<lambda>config. config\<lparr>cf_revokeSessionsOnStart :=
         (readCanonicalEnv env ''NUVYN_AUTH_REVOKE_SESSIONS_ON_START'' = Some (js ''1''))\<rparr>)
       (parsePublicOrigin parse_url (case_option [] id (readCanonicalEnv env ''NUVYN_PUBLIC_ORIGIN'')))"

definition activeSessionCookieName :: "auth_config \<Rightarrow> ustr" where
  "activeSessionCookieName config = ck_name (cf_cookie config)"

section \<open>The same-origin policy\<close>

type_synonym headers = "(ustr \<times> ustr) list"

datatype csrf_failure = CsrfOriginMismatch | CsrfCrossSite | InvalidContentType

definition method_upper :: "ustr \<Rightarrow> ustr" where
  "method_upper m = map ascii_upper m"

definition isUnsafeMethod :: "ustr \<Rightarrow> bool" where
  "isUnsafeMethod m \<longleftrightarrow> method_upper m \<in> {js ''POST'', js ''PUT'', js ''PATCH'', js ''DELETE''}"

definition checkCsrfHeaders :: "headers \<Rightarrow> ustr \<Rightarrow> auth_config \<Rightarrow> csrf_failure + unit" where
  "checkCsrfHeaders h m config =
     (if \<not> isUnsafeMethod m then Inr ()
      else if (case map_of h (js ''origin'') of None \<Rightarrow> False | Some o1 \<Rightarrow> o1 \<notin> set (cf_allowedOrigins config))
      then Inl CsrfOriginMismatch
      else if (case map_of h (js ''sec-fetch-site'') of None \<Rightarrow> False | Some s \<Rightarrow> map ascii_lower s = js ''cross-site'')
      then Inl CsrfCrossSite
      else Inr ())"

text \<open>\<open>/^application\/json\s*(?:;|$)/i\<close>\<close>

definition hasJsonContentType :: "headers \<Rightarrow> bool" where
  "hasJsonContentType h =
     (case map_of h (js ''content-type'') of
        None \<Rightarrow> False
      | Some t \<Rightarrow> map ascii_lower (take 16 t) = js ''application/json''
          \<and> (let r = dropWhile js_space (drop 16 t) in r = [] \<or> hd r = 59))"

definition checkJsonContentType :: "headers \<Rightarrow> csrf_failure + unit" where
  "checkJsonContentType h = (if hasJsonContentType h then Inr () else Inl InvalidContentType)"

section \<open>What a configuration allows\<close>

lemma mapM_Some_iff: "mapM f xs = Some ys \<longleftrightarrow> list_all2 (\<lambda>x y. f x = Some y) xs ys"
  by (induction xs arbitrary: ys) (auto simp: list_all2_Cons1 bind_eq_Some_conv)

lemma parseOriginEntry_ok:
  "parseOriginEntry parse_url raw = Some u \<Longrightarrow>
     (url_protocol u = js ''https:'' \<or> url_protocol u = js ''http:'' \<and> url_hostname u \<in> set LOOPBACK_HTTP_HOSTS)
   \<and> url_username u = [] \<and> url_password u = [] \<and> 42 \<notin> set (url_hostname u)
   \<and> url_pathname u = js ''/'' \<and> url_search u = [] \<and> url_hash u = []"
  by (auto simp: parseOriginEntry_def split: Option.bind_splits if_splits)

text \<open>
  An accepted configuration lists one to eight different origins, each over HTTPS or, when it is the only
  one, over HTTP on a loopback host; the session cookie is the \<open>__Host-\<close> one exactly when they are HTTPS.
\<close>

definition config_ok :: "auth_config \<Rightarrow> bool" where
  "config_ok c \<longleftrightarrow> cf_allowedOrigins c \<noteq> [] \<and> length (cf_allowedOrigins c) \<le> 8 \<and> distinct (cf_allowedOrigins c)
     \<and> cf_publicOrigin c = hd (cf_allowedOrigins c) \<and> cf_sessionLifetimeMs c = SESSION_LIFETIME_MS
     \<and> (cf_cookie c = cookieProfile True \<or> cf_cookie c = cookieProfile False \<and> length (cf_allowedOrigins c) = 1)"

lemma parsed_config_ok:
  assumes "parsePublicOrigin parse_url value = Some c"
  shows "config_ok c"
proof -
  let ?entries = "map js_trim (splitOn 44 value)"
  from assms obtain urls where u: "mapM (parseOriginEntry parse_url) ?entries = Some urls"
    and n: "length ?entries \<le> MAX_PUBLIC_ORIGINS"
    and one: "length urls > 1 \<longrightarrow> (\<forall>u\<in>set urls. url_protocol u = js ''https:'')"
    and d: "card (set (map url_origin urls)) = length (map url_origin urls)"
    and c: "c = \<lparr>cf_publicOrigin = hd (map url_origin urls), cf_allowedOrigins = map url_origin urls,
                  cf_cookie = cookieProfile (url_protocol (hd urls) = js ''https:''),
                  cf_sessionLifetimeMs = SESSION_LIFETIME_MS,
                  cf_sessionLastSeenUpdateIntervalMs = SESSION_LAST_SEEN_UPDATE_INTERVAL_MS,
                  cf_revokeSessionsOnStart = False\<rparr>"
    by (auto simp: parsePublicOrigin_def Let_def bind_eq_Some_conv split: if_splits)
  from u have len: "length urls = length ?entries" unfolding mapM_Some_iff by (auto dest: list_all2_lengthD)
  have "splitOn 44 value \<noteq> []" by simp
  then have ne: "urls \<noteq> []" using len by auto
  have "url_protocol (hd urls) = js ''https:'' \<or> length urls = 1"
    using one ne by (cases urls) (auto simp: Suc_lessI)
  then show ?thesis using ne len n card_distinct [OF d]
    by (cases "url_protocol (hd urls) = js ''https:''") (auto simp: config_ok_def c hd_map MAX_PUBLIC_ORIGINS_def)
qed

lemma loaded_config_ok: "loadAuthConfig parse_url env = Some c \<Longrightarrow> config_ok c"
  by (auto simp: loadAuthConfig_def config_ok_def dest!: parsed_config_ok)

lemma csrf_passed:
  "checkCsrfHeaders h m config = Inr () \<Longrightarrow> isUnsafeMethod m \<Longrightarrow>
     (\<forall>org. map_of h (js ''origin'') = Some org \<longrightarrow> org \<in> set (cf_allowedOrigins config))
   \<and> (\<forall>s. map_of h (js ''sec-fetch-site'') = Some s \<longrightarrow> map ascii_lower s \<noteq> js ''cross-site'')"
  by (auto simp: checkCsrfHeaders_def split: if_splits option.splits)

end
