(* ===== verification/AuthSession.thy ===== *)
theory AuthSession
  imports AuthConfig
begin

text \<open>
  Sessions: server/auth/session.ts over the tables of migrations/0006_authentication.sql. The three
  tables are a record of lists of rows (\<open>auth_instance\<close> has at most its row 1, so it is an option), with
  the AUTOINCREMENT counters of the two tables that have one. Constraints are checked by the inserts.
  \<open>AuthSessionRecord\<close> has the columns of a session row under other names; both are \<open>session_row\<close>. Instants
  are integers; the \<open>Number.isFinite\<close> checks of the code pass for every integer. Raw session tokens are
  drawn by \<open>randomBytes\<close>; the drawn bytes are an argument.
\<close>

named_theorems session_defs \<open>operations on the tables of authentication\<close>

section \<open>Tables\<close>

record user_row =
  us_id :: int
  us_username :: ustr
  us_username_normalized :: ustr
  us_password_hash :: ustr
  us_disabled :: bool
  us_created_at :: int
  us_updated_at :: int

record instance_row =
  in_owner_user_id :: int
  in_created_at :: int
  in_updated_at :: int

record session_row =
  se_id :: int
  se_user_id :: int
  se_token_hash :: ustr
  se_created_at :: int
  se_expires_at :: int
  se_last_seen_at :: int
  se_revoked_at :: "int option"

record auth_db =
  au_users :: "user_row list"
  au_user_seq :: int
  au_instance :: "instance_row option"
  au_sessions :: "session_row list"
  au_session_seq :: int

text \<open>\<open>None\<close> for a violated constraint.\<close>

definition insertUser :: "ustr \<Rightarrow> ustr \<Rightarrow> int \<Rightarrow> auth_db \<Rightarrow> (int \<times> auth_db) option" where
  "insertUser username passwordHash at db =
     (if username \<in> us_username_normalized ` set (au_users db) then None
      else let i = au_user_seq db + 1 in
        Some (i, db\<lparr>au_users := au_users db @ [\<lparr>us_id = i, us_username = username, us_username_normalized = username,
            us_password_hash = passwordHash, us_disabled = False, us_created_at = at, us_updated_at = at\<rparr>],
          au_user_seq := i\<rparr>))"

definition insertInstance :: "int \<Rightarrow> int \<Rightarrow> auth_db \<Rightarrow> auth_db option" where
  "insertInstance userId at db =
     (if au_instance db \<noteq> None \<or> userId \<notin> us_id ` set (au_users db) then None
      else Some (db\<lparr>au_instance := Some \<lparr>in_owner_user_id = userId, in_created_at = at, in_updated_at = at\<rparr>\<rparr>))"

section \<open>Operations\<close>

datatype session_status = Valid | Missing | Expired | Revoked | DisabledOwner

record session_user =
  su_id :: int
  su_username :: ustr
  su_disabled :: bool

record session_lookup =
  lk_status :: session_status
  lk_session :: "session_row option"
  lk_user :: "session_user option"

record created_session =
  cs_rawToken :: ustr
  cs_tokenHash :: ustr
  cs_session :: session_row

definition generateSessionToken :: "nat list \<Rightarrow> ustr" where
  "generateSessionToken bytes = b64_encode bytes"

definition hashSessionToken :: "runtime \<Rightarrow> ustr \<Rightarrow> ustr" where
  "hashSessionToken rt rawToken = (if length rawToken = 0 then [] else rt_sha256 rt rawToken)"

definition createSession :: "runtime \<Rightarrow> nat list \<Rightarrow> int \<Rightarrow> int \<Rightarrow> auth_db \<Rightarrow> (created_session \<times> auth_db) option" where
  "createSession rt bytes userId now db =
     (let rawToken = generateSessionToken bytes; tokenHash = hashSessionToken rt rawToken;
          row = \<lparr>se_id = au_session_seq db + 1, se_user_id = userId, se_token_hash = tokenHash, se_created_at = now,
                 se_expires_at = now + SESSION_LIFETIME_MS, se_last_seen_at = now, se_revoked_at = None\<rparr>
      in if tokenHash \<in> se_token_hash ` set (au_sessions db) \<or> userId \<notin> us_id ` set (au_users db) then None
         else Some (\<lparr>cs_rawToken = rawToken, cs_tokenHash = tokenHash, cs_session = row\<rparr>,
                db\<lparr>au_sessions := au_sessions db @ [row], au_session_seq := se_id row\<rparr>))"

text \<open>The join of a session with the owner of the instance.\<close>

definition sessionOwner :: "auth_db \<Rightarrow> session_row \<Rightarrow> user_row option" where
  "sessionOwner db s =
     (case lookup_by us_id (se_user_id s) (au_users db) of
        None \<Rightarrow> None
      | Some u \<Rightarrow> (case au_instance db of
            None \<Rightarrow> None
          | Some i \<Rightarrow> if in_owner_user_id i = us_id u then Some u else None))"

definition resolveSession :: "(session_row \<Rightarrow> bool) \<Rightarrow> int \<Rightarrow> auth_db \<Rightarrow> session_lookup" where
  "resolveSession p now db =
     (case find (\<lambda>s. p s \<and> sessionOwner db s \<noteq> None) (au_sessions db) of
        None \<Rightarrow> \<lparr>lk_status = Missing, lk_session = None, lk_user = None\<rparr>
      | Some s \<Rightarrow>
          let u = the (sessionOwner db s) in
          if us_username u = [] then \<lparr>lk_status = Missing, lk_session = None, lk_user = None\<rparr>
          else let user = \<lparr>su_id = se_user_id s, su_username = us_username u, su_disabled = us_disabled u\<rparr>;
                   status = (if se_revoked_at s \<noteq> None then Revoked
                             else if se_expires_at s \<le> now then Expired
                             else if us_disabled u then DisabledOwner else Valid)
               in \<lparr>lk_status = status, lk_session = Some s, lk_user = Some user\<rparr>)"

definition findSessionByRawToken :: "runtime \<Rightarrow> ustr \<Rightarrow> int \<Rightarrow> auth_db \<Rightarrow> session_lookup" where
  "findSessionByRawToken rt rawToken now db =
     (let tokenHash = hashSessionToken rt rawToken in
      if tokenHash = [] then \<lparr>lk_status = Missing, lk_session = None, lk_user = None\<rparr>
      else resolveSession (\<lambda>s. se_token_hash s = tokenHash) now db)"

definition findSessionById :: "int \<Rightarrow> int \<Rightarrow> auth_db \<Rightarrow> session_lookup" where
  "findSessionById sessionId now db =
     (if \<not> is_safe sessionId \<or> sessionId < 1 then \<lparr>lk_status = Missing, lk_session = None, lk_user = None\<rparr>
      else resolveSession (\<lambda>s. se_id s = sessionId) now db)"

text \<open>\<open>UPDATE auth_sessions SET ... WHERE p\<close> with its number of changed rows.\<close>

definition updateSessions :: "(session_row \<Rightarrow> bool) \<Rightarrow> (session_row \<Rightarrow> session_row) \<Rightarrow> auth_db \<Rightarrow> nat \<times> auth_db" where
  "updateSessions p f db =
     (length (filter p (au_sessions db)), db\<lparr>au_sessions := map (\<lambda>s. if p s then f s else s) (au_sessions db)\<rparr>)"

definition coalesceRevoked :: "int \<Rightarrow> session_row \<Rightarrow> session_row" where
  "coalesceRevoked now s = s\<lparr>se_revoked_at := (case se_revoked_at s of None \<Rightarrow> Some now | Some t \<Rightarrow> Some t)\<rparr>"

definition revokeSession :: "runtime \<Rightarrow> ustr \<Rightarrow> int \<Rightarrow> auth_db \<Rightarrow> bool \<times> auth_db" where
  "revokeSession rt rawToken now db =
     (let tokenHash = hashSessionToken rt rawToken in
      if tokenHash = [] then (False, db)
      else let (n, db') = updateSessions (\<lambda>s. se_token_hash s = tokenHash \<and> se_revoked_at s = None) (coalesceRevoked now) db
           in (n > 0, db'))"

definition revokeSessionById :: "int \<Rightarrow> int \<Rightarrow> auth_db \<Rightarrow> bool \<times> auth_db" where
  "revokeSessionById sessionId now db =
     (let (n, db') = updateSessions (\<lambda>s. se_id s = sessionId \<and> se_revoked_at s = None) (coalesceRevoked now) db
      in (n > 0, db'))"

definition revokeAllSessions :: "int \<Rightarrow> int \<Rightarrow> auth_db \<Rightarrow> nat \<times> auth_db" where
  "revokeAllSessions userId now db =
     updateSessions (\<lambda>s. se_user_id s = userId \<and> se_revoked_at s = None) (coalesceRevoked now) db"

text \<open>The statement of \<open>createAuthRuntime\<close> under NUVYN_AUTH_REVOKE_SESSIONS_ON_START.\<close>

definition revokeEverySession :: "int \<Rightarrow> auth_db \<Rightarrow> nat \<times> auth_db" where
  "revokeEverySession now db = updateSessions (\<lambda>s. se_revoked_at s = None) (coalesceRevoked now) db"

definition deleteExpiredSessions :: "int \<Rightarrow> auth_db \<Rightarrow> nat \<times> auth_db" where
  "deleteExpiredSessions now db =
     (length (filter (\<lambda>s. se_expires_at s \<le> now) (au_sessions db)),
      db\<lparr>au_sessions := filter (\<lambda>s. \<not> se_expires_at s \<le> now) (au_sessions db)\<rparr>)"

text \<open>\<open>None\<close> for the thrown RangeError.\<close>

definition touchSessionLastSeen :: "int \<Rightarrow> int \<Rightarrow> int \<Rightarrow> auth_db \<Rightarrow> (bool \<times> auth_db) option" where
  "touchSessionLastSeen sessionId now minimumIntervalMs db =
     (if minimumIntervalMs < 0 then None
      else let (n, db') = updateSessions
             (\<lambda>s. se_id s = sessionId \<and> se_revoked_at s = None \<and> se_expires_at s > now
                \<and> se_last_seen_at s \<le> now - minimumIntervalMs)
             (\<lambda>s. s\<lparr>se_last_seen_at := now\<rparr>) db
           in Some (n > 0, db'))"

definition selectSessionToken :: "(ustr \<times> ustr) list \<Rightarrow> auth_config \<Rightarrow> ustr option" where
  "selectSessionToken cookies config =
     (case map_of cookies (ck_name (cf_cookie config)) of
        None \<Rightarrow> None
      | Some canonical \<Rightarrow> if length canonical > 0 then Some canonical else None)"

lemmas [session_defs] = insertUser_def insertInstance_def createSession_def updateSessions_def coalesceRevoked_def
  revokeSession_def revokeSessionById_def revokeAllSessions_def revokeEverySession_def deleteExpiredSessions_def
  touchSessionLastSeen_def

section \<open>Invariant and evolution of the tables\<close>

definition session_ok :: "session_row \<Rightarrow> bool" where
  "session_ok s \<longleftrightarrow> se_expires_at s = se_created_at s + SESSION_LIFETIME_MS
     \<and> se_created_at s \<le> se_last_seen_at s \<and> se_last_seen_at s < se_expires_at s"

definition auth_db_ok :: "auth_db \<Rightarrow> bool" where
  "auth_db_ok db \<longleftrightarrow>
     distinct (map us_id (au_users db)) \<and> distinct (map us_username_normalized (au_users db))
   \<and> (\<forall>u\<in>set (au_users db). us_id u \<le> au_user_seq db)
   \<and> (\<forall>i. au_instance db = Some i \<longrightarrow> in_owner_user_id i \<in> us_id ` set (au_users db))
   \<and> distinct (map se_id (au_sessions db)) \<and> distinct (map se_token_hash (au_sessions db))
   \<and> (\<forall>s\<in>set (au_sessions db). se_id s \<le> au_session_seq db \<and> se_user_id s \<in> us_id ` set (au_users db) \<and> session_ok s)"

text \<open>What may happen to a session row: it is seen later, and revoked once.\<close>

definition same_session :: "session_row \<Rightarrow> session_row \<Rightarrow> bool" where
  "same_session s s' \<longleftrightarrow> se_id s' = se_id s \<and> se_user_id s' = se_user_id s \<and> se_token_hash s' = se_token_hash s
     \<and> se_created_at s' = se_created_at s \<and> se_expires_at s' = se_expires_at s
     \<and> se_last_seen_at s \<le> se_last_seen_at s' \<and> (se_revoked_at s \<noteq> None \<longrightarrow> se_revoked_at s' = se_revoked_at s)"

definition evolves :: "auth_db \<Rightarrow> auth_db \<Rightarrow> bool" where
  "evolves db db' \<longleftrightarrow>
     au_session_seq db \<le> au_session_seq db' \<and> set (au_users db) \<subseteq> set (au_users db')
   \<and> (au_instance db \<noteq> None \<longrightarrow> au_instance db' = au_instance db \<and> au_users db' = au_users db)
   \<and> (\<forall>s'\<in>set (au_sessions db'). au_session_seq db < se_id s' \<or> (\<exists>s\<in>set (au_sessions db). same_session s s'))"

lemma same_session_refl [simp]: "same_session s s"
  by (simp add: same_session_def)

lemma kept_member: "s \<in> A \<Longrightarrow> \<exists>r\<in>A. same_session r s"
  using same_session_refl by blast

lemma same_session_trans: "same_session a b \<Longrightarrow> same_session b c \<Longrightarrow> same_session a c"
  by (auto simp: same_session_def)

lemma evolves_refl [simp]: "evolves db db"
  unfolding evolves_def using same_session_refl by blast

lemma evolves_trans:
  assumes ab: "evolves a b" and bc: "evolves b c"
  shows "evolves a c"
proof -
  have "au_session_seq a < se_id t \<or> (\<exists>s\<in>set (au_sessions a). same_session s t)" if t: "t \<in> set (au_sessions c)" for t
  proof (cases "au_session_seq b < se_id t")
    case True
    with ab show ?thesis by (simp add: evolves_def)
  next
    case False
    with bc t obtain s where s: "s \<in> set (au_sessions b)" "same_session s t" by (auto simp: evolves_def)
    then have "se_id t = se_id s" by (simp add: same_session_def)
    with ab s show ?thesis by (metis evolves_def same_session_trans)
  qed
  moreover have "au_users c = au_users a \<and> au_instance c = au_instance a" if "au_instance a \<noteq> None"
    using that ab bc by (simp add: evolves_def)
  moreover have "au_session_seq a \<le> au_session_seq c" "set (au_users a) \<subseteq> set (au_users c)"
    using ab bc by (auto simp: evolves_def)
  ultimately show ?thesis unfolding evolves_def [of a c] by blast
qed

lemma coalesce_same: "se_revoked_at s = None \<Longrightarrow> same_session s (coalesceRevoked now s)"
  by (simp add: same_session_def coalesceRevoked_def)

lemma evolves_sessions:
  "(\<And>s'. s' \<in> set xs \<Longrightarrow> \<exists>s\<in>set (au_sessions db). same_session s s') \<Longrightarrow> evolves db (db\<lparr>au_sessions := xs\<rparr>)"
  by (simp add: evolves_def)

lemma update_evolves:
  assumes "\<And>s. p s \<Longrightarrow> same_session s (f s)"
  shows "evolves db (snd (updateSessions p f db))"
  unfolding updateSessions_def snd_conv
proof (rule evolves_sessions)
  fix s' assume "s' \<in> set (map (\<lambda>s. if p s then f s else s) (au_sessions db))"
  then obtain s where "s \<in> set (au_sessions db)" "s' = (if p s then f s else s)" by auto
  with assms show "\<exists>s\<in>set (au_sessions db). same_session s s'" by (intro bexI [of _ s]) auto
qed

lemma update_ok:
  assumes "auth_db_ok db" "\<And>s. p s \<Longrightarrow> same_session s (f s)" "\<And>s. p s \<Longrightarrow> session_ok s \<Longrightarrow> session_ok (f s)"
  shows "auth_db_ok (snd (updateSessions p f db))"
proof -
  let ?g = "\<lambda>s. if p s then f s else s"
  have g: "se_id (?g s) = se_id s" "se_user_id (?g s) = se_user_id s" "se_token_hash (?g s) = se_token_hash s"
    "session_ok s \<Longrightarrow> session_ok (?g s)" for s
    using assms(2,3) by (auto simp: same_session_def)
  define ys where "ys = map ?g (au_sessions db)"
  have m: "map se_id ys = map se_id (au_sessions db)" "map se_token_hash ys = map se_token_hash (au_sessions db)"
    unfolding ys_def map_map comp_def g by (rule refl)+
  have "\<forall>s\<in>set ys. se_id s \<le> au_session_seq db \<and> se_user_id s \<in> us_id ` set (au_users db) \<and> session_ok s"
    unfolding ys_def using assms(1) g by (simp only: auth_db_ok_def list.set_map ball_simps) blast
  with assms(1) m show ?thesis unfolding updateSessions_def snd_conv ys_def [symmetric] by (simp add: auth_db_ok_def)
qed

lemma coalesce_ok: "session_ok s \<Longrightarrow> session_ok (coalesceRevoked now s)"
  by (simp add: session_ok_def coalesceRevoked_def)

lemma revoke_kept:
  assumes "\<And>s. p s \<Longrightarrow> se_revoked_at s = None"
  shows "evolves db (snd (updateSessions p (coalesceRevoked now) db))"
    and "auth_db_ok db \<Longrightarrow> auth_db_ok (snd (updateSessions p (coalesceRevoked now) db))"
  using assms by (auto intro!: update_evolves update_ok coalesce_same coalesce_ok)

lemma revokeSession_kept:
  "evolves db (snd (revokeSession rt raw now db)) \<and> (auth_db_ok db \<longrightarrow> auth_db_ok (snd (revokeSession rt raw now db)))"
  using revoke_kept [of "\<lambda>s. se_token_hash s = hashSessionToken rt raw \<and> se_revoked_at s = None" db now]
  by (auto simp: revokeSession_def Let_def split: prod.split)

lemma revokeEvery_kept:
  "evolves db (snd (revokeEverySession now db)) \<and> (auth_db_ok db \<longrightarrow> auth_db_ok (snd (revokeEverySession now db)))"
  using revoke_kept [of "\<lambda>s. se_revoked_at s = None" db now] by (auto simp: revokeEverySession_def)

lemma deleteExpired_kept:
  "evolves db (snd (deleteExpiredSessions now db)) \<and> (auth_db_ok db \<longrightarrow> auth_db_ok (snd (deleteExpiredSessions now db)))"
  by (auto simp: deleteExpiredSessions_def auth_db_ok_def distinct_map_filter intro!: evolves_sessions kept_member)

lemma touch_kept:
  assumes "touchSessionLastSeen i now interval db = Some (b, db')"
  shows "evolves db db' \<and> (auth_db_ok db \<longrightarrow> auth_db_ok db')"
proof -
  let ?p = "\<lambda>s. se_id s = i \<and> se_revoked_at s = None \<and> se_expires_at s > now \<and> se_last_seen_at s \<le> now - interval"
  from assms have i: "0 \<le> interval" and d: "db' = snd (updateSessions ?p (\<lambda>s. s\<lparr>se_last_seen_at := now\<rparr>) db)"
    by (auto simp: touchSessionLastSeen_def updateSessions_def split: if_splits)
  have "same_session s (s\<lparr>se_last_seen_at := now\<rparr>)" if "?p s" for s using that i by (simp add: same_session_def)
  moreover have "session_ok (s\<lparr>se_last_seen_at := now\<rparr>)" if "?p s" "session_ok s" for s
    using that i by (auto simp: session_ok_def)
  ultimately show ?thesis unfolding d by (intro conjI impI update_evolves update_ok) auto
qed

lemma createSession_kept:
  assumes "createSession rt bytes userId now db = Some (c, db')"
  shows "evolves db db' \<and> (auth_db_ok db \<longrightarrow> auth_db_ok db')
    \<and> au_sessions db' = au_sessions db @ [cs_session c] \<and> au_users db' = au_users db \<and> au_instance db' = au_instance db
    \<and> se_id (cs_session c) = au_session_seq db + 1 \<and> se_user_id (cs_session c) = userId
    \<and> se_token_hash (cs_session c) = hashSessionToken rt (cs_rawToken c)
    \<and> se_created_at (cs_session c) = now \<and> se_expires_at (cs_session c) = now + SESSION_LIFETIME_MS \<and> se_revoked_at (cs_session c) = None"
proof -
  from assms have d: "db' = db\<lparr>au_sessions := au_sessions db @ [cs_session c], au_session_seq := au_session_seq db + 1\<rparr>"
    and c: "cs_session c = \<lparr>se_id = au_session_seq db + 1, se_user_id = userId, se_token_hash = hashSessionToken rt (cs_rawToken c),
       se_created_at = now, se_expires_at = now + SESSION_LIFETIME_MS, se_last_seen_at = now, se_revoked_at = None\<rparr>"
    and n: "hashSessionToken rt (cs_rawToken c) \<notin> se_token_hash ` set (au_sessions db)" "userId \<in> us_id ` set (au_users db)"
    by (auto simp: createSession_def Let_def split: if_splits)
  have "session_ok (cs_session c)" by (simp add: c session_ok_def SESSION_LIFETIME_MS_def)
  moreover have "au_session_seq db + 1 \<notin> se_id ` set (au_sessions db)" if "auth_db_ok db"
    using that by (force simp: auth_db_ok_def)
  ultimately have "auth_db_ok db \<longrightarrow> auth_db_ok db'" using n unfolding d by (fastforce simp: auth_db_ok_def c)
  moreover have "evolves db db'" unfolding d by (auto simp: evolves_def c intro: kept_member)
  ultimately show ?thesis by (simp add: d c)
qed

text \<open>The owner transaction: the user and the instance row appear together, once.\<close>

lemma insertOwner_kept:
  assumes "insertUser username hash at db = Some (i, db1)" "insertInstance i at db1 = Some db2" "auth_db_ok db"
  shows "evolves db db2 \<and> auth_db_ok db2 \<and> au_instance db = None \<and> au_sessions db2 = au_sessions db \<and> au_session_seq db2 = au_session_seq db
    \<and> (\<exists>u. au_users db2 = au_users db @ [u] \<and> us_id u = i \<and> us_username u = username \<and> us_username_normalized u = username
         \<and> us_password_hash u = hash \<and> \<not> us_disabled u)
    \<and> au_instance db2 = Some \<lparr>in_owner_user_id = i, in_created_at = at, in_updated_at = at\<rparr>"
proof -
  have i: "i \<notin> us_id ` set (au_users db)" "i = au_user_seq db + 1" and u: "username \<notin> us_username_normalized ` set (au_users db)"
    using assms(1,3) by (force simp: insertUser_def Let_def auth_db_ok_def split: if_splits)+
  have seq: "us_id v \<le> au_user_seq db + 1" if "v \<in> set (au_users db)" for v
    using assms(3) that by (force simp: auth_db_ok_def)
  have "se_user_id s \<in> us_id ` set (au_users db)" if "s \<in> set (au_sessions db)" for s
    using assms(3) that by (simp add: auth_db_ok_def)
  with assms i u seq show ?thesis
    by (auto simp: insertUser_def insertInstance_def Let_def evolves_def auth_db_ok_def kept_member split: if_splits)
qed

section \<open>Looking a session up\<close>

text \<open>The session that a valid lookup found, and its owner.\<close>

definition authentic :: "auth_db \<Rightarrow> int \<Rightarrow> session_row \<Rightarrow> user_row \<Rightarrow> bool" where
  "authentic db now s u \<longleftrightarrow> s \<in> set (au_sessions db) \<and> u \<in> set (au_users db) \<and> us_id u = se_user_id s
     \<and> map_option in_owner_user_id (au_instance db) = Some (us_id u) \<and> us_username u \<noteq> [] \<and> \<not> us_disabled u
     \<and> se_revoked_at s = None \<and> now < se_expires_at s"

lemma resolve_valid:
  assumes "resolveSession p now db = l" "lk_status l = Valid"
  shows "\<exists>s u. p s \<and> authentic db now s u \<and> lk_session l = Some s
    \<and> lk_user l = Some \<lparr>su_id = us_id u, su_username = us_username u, su_disabled = False\<rparr>"
proof -
  from assms obtain s where f: "find (\<lambda>s. p s \<and> sessionOwner db s \<noteq> None) (au_sessions db) = Some s"
    by (auto simp: resolveSession_def split: option.splits)
  then have s: "p s" "s \<in> set (au_sessions db)" "sessionOwner db s \<noteq> None" by (auto simp: find_Some_iff)
  then obtain u where u: "sessionOwner db s = Some u" by blast
  then have "lookup_by us_id (se_user_id s) (au_users db) = Some u"
    "map_option in_owner_user_id (au_instance db) = Some (us_id u)"
    by (auto simp: sessionOwner_def split: option.splits if_splits)
  moreover from this(1) have "u \<in> set (au_users db)" "us_id u = se_user_id s" by (auto dest: lookup_by_SomeD)
  ultimately show ?thesis using assms s f u
    by (intro exI [of _ s] exI [of _ u]) (auto simp: resolveSession_def Let_def authentic_def split: if_splits)
qed

lemma resolve_authentic:
  assumes "auth_db_ok db" "authentic db now s u" "p s" "\<And>r. r \<in> set (au_sessions db) \<Longrightarrow> p r \<Longrightarrow> r = s"
  shows "resolveSession p now db = \<lparr>lk_status = Valid, lk_session = Some s,
    lk_user = Some \<lparr>su_id = us_id u, su_username = us_username u, su_disabled = False\<rparr>\<rparr>"
proof -
  have u: "sessionOwner db s = Some u"
    using assms(1,2) lookup_by_mem [of us_id "au_users db" u]
    by (auto simp: sessionOwner_def authentic_def auth_db_ok_def)
  have "find (\<lambda>s. p s \<and> sessionOwner db s \<noteq> None) (au_sessions db) = Some s"
  proof (cases "find (\<lambda>s. p s \<and> sessionOwner db s \<noteq> None) (au_sessions db)")
    case None
    with assms(2,3) u show ?thesis by (auto simp: find_None_iff authentic_def)
  next
    case (Some r)
    then show ?thesis using assms(4) [of r] by (auto simp: find_Some_iff)
  qed
  with u assms(2) show ?thesis by (auto simp: resolveSession_def authentic_def)
qed

lemma raw_token_valid:
  assumes "lk_status (findSessionByRawToken rt raw now db) = Valid"
  shows "\<exists>s u. raw \<noteq> [] \<and> se_token_hash s = rt_sha256 rt raw \<and> authentic db now s u
    \<and> lk_session (findSessionByRawToken rt raw now db) = Some s
    \<and> lk_user (findSessionByRawToken rt raw now db) = Some \<lparr>su_id = us_id u, su_username = us_username u, su_disabled = False\<rparr>"
proof -
  from assms have ne: "hashSessionToken rt raw \<noteq> []" and f: "findSessionByRawToken rt raw now db
      = resolveSession (\<lambda>s. se_token_hash s = hashSessionToken rt raw) now db"
    by (auto simp: findSessionByRawToken_def Let_def split: if_splits)
  have "raw \<noteq> [] \<and> hashSessionToken rt raw = rt_sha256 rt raw" using ne by (auto simp: hashSessionToken_def split: if_splits)
  with resolve_valid [OF refl, of "\<lambda>s. se_token_hash s = hashSessionToken rt raw" now db] assms show ?thesis
    unfolding f by metis
qed

lemma authentic_found:
  assumes "auth_db_ok db" "authentic db now s u" "raw \<noteq> []" "rt_sha256 rt raw \<noteq> []" "se_token_hash s = rt_sha256 rt raw"
  shows "findSessionByRawToken rt raw now db = \<lparr>lk_status = Valid, lk_session = Some s,
    lk_user = Some \<lparr>su_id = us_id u, su_username = us_username u, su_disabled = False\<rparr>\<rparr>"
proof -
  have "r = s" if "r \<in> set (au_sessions db)" "se_token_hash r = se_token_hash s" for r
    using assms(1,2) that by (auto simp: auth_db_ok_def authentic_def distinct_map dest: inj_onD)
  then show ?thesis using assms
    by (simp add: findSessionByRawToken_def hashSessionToken_def resolve_authentic)
qed

text \<open>A session that was revoked, or whose time has passed, is never authentic again.\<close>

lemma ended_stays_ended:
  assumes "evolves db db'" "auth_db_ok db" "s \<in> set (au_sessions db)" "se_revoked_at s \<noteq> None \<or> se_expires_at s \<le> now"
    and "now \<le> now'" "authentic db' now' s' u"
  shows "se_id s' \<noteq> se_id s"
proof
  assume i: "se_id s' = se_id s"
  have "se_id s \<le> au_session_seq db" using assms(2,3) by (simp add: auth_db_ok_def)
  with assms(1,6) i obtain r where r: "r \<in> set (au_sessions db)" "same_session r s'"
    by (auto simp: evolves_def authentic_def)
  with i have "se_id r = se_id s" by (simp add: same_session_def)
  with r(1) assms(2,3) have "r = s" by (auto simp: auth_db_ok_def distinct_map dest: inj_onD)
  with r(2) assms(4-6) show False by (auto simp: same_session_def authentic_def)
qed

end
