(* ===== verification/AuthRateLimit.thy ===== *)
theory AuthRateLimit
  imports Prelude "HOL-Library.AList"
begin

text \<open>
  The failure accounting of server/auth/rateLimit.ts. A limiter is a record of its five limits and
  its buckets; the JavaScript \<open>Map\<close> of buckets is the list of its entries in insertion order, so that
  \<open>AList.update\<close> is \<open>Map.set\<close> and \<open>AList.delete\<close> is \<open>Map.delete\<close>. Clock readings and limits are
  integers in the range where doubles are exact; the power of two of the back-off may leave that
  range, but then the minimum with \<open>maxDelayMs\<close> is \<open>maxDelayMs\<close> in both.
\<close>

named_theorems limiter_defs \<open>operations of the failure limiter\<close>

section \<open>Limits\<close>

definition AUTH_FAILURE_WINDOW_MS :: int where "AUTH_FAILURE_WINDOW_MS = 5 * 60 * 1000"
definition AUTH_FAILURE_THRESHOLD :: int where "AUTH_FAILURE_THRESHOLD = 5"
definition AUTH_MAX_DELAY_MS :: int where "AUTH_MAX_DELAY_MS = 15 * 60 * 1000"
definition AUTH_MAX_BUCKETS :: int where "AUTH_MAX_BUCKETS = 256"
definition AUTH_BASE_RETRY_MS :: int where "AUTH_BASE_RETRY_MS = 1000"
definition SETUP_FAILURE_WINDOW_MS :: int where "SETUP_FAILURE_WINDOW_MS = 60 * 1000"
definition SETUP_FAILURE_THRESHOLD :: int where "SETUP_FAILURE_THRESHOLD = 3"
definition SETUP_MAX_BUCKETS :: int where "SETUP_MAX_BUCKETS = 64"
definition SETUP_BASE_RETRY_MS :: int where "SETUP_BASE_RETRY_MS = AUTH_BASE_RETRY_MS"
definition SETUP_MAX_DELAY_MS :: int where "SETUP_MAX_DELAY_MS = AUTH_MAX_DELAY_MS"

record limiter_options =
  lo_windowMs :: "int option"
  lo_threshold :: "int option"
  lo_maxDelayMs :: "int option"
  lo_maxBuckets :: "int option"
  lo_baseRetryMs :: "int option"

record failure_record =
  fr_failures :: int
  fr_retryAfterMs :: int

record bucket =
  failures :: int
  firstFailureAt :: int
  lastFailureAt :: int
  blockedUntil :: int

record limiter =
  windowMs :: int
  threshold :: int
  maxDelayMs :: int
  maxBuckets :: int
  baseRetryMs :: int
  buckets :: "(ustr \<times> bucket) list"

text \<open>The constructor; \<open>None\<close> for the thrown RangeError.\<close>

definition positiveInteger :: "int \<Rightarrow> int option" where
  "positiveInteger v = (if v < 1 then None else Some v)"

definition AuthRateLimiter :: "limiter_options \<Rightarrow> limiter option" where
  "AuthRateLimiter opts =
     Option.bind (positiveInteger (case_option AUTH_FAILURE_WINDOW_MS id (lo_windowMs opts))) (\<lambda>w.
     Option.bind (positiveInteger (case_option AUTH_FAILURE_THRESHOLD id (lo_threshold opts))) (\<lambda>t.
     Option.bind (positiveInteger (case_option AUTH_MAX_DELAY_MS id (lo_maxDelayMs opts))) (\<lambda>d.
     Option.bind (positiveInteger (case_option AUTH_MAX_BUCKETS id (lo_maxBuckets opts))) (\<lambda>m.
     Option.bind (positiveInteger (case_option AUTH_BASE_RETRY_MS id (lo_baseRetryMs opts))) (\<lambda>b.
     Some \<lparr>windowMs = w, threshold = t, maxDelayMs = d, maxBuckets = m, baseRetryMs = b, buckets = []\<rparr>)))))"

section \<open>Operations\<close>

definition limiter_size :: "limiter \<Rightarrow> int" where
  "limiter_size l = int (length (buckets l))"

definition stale :: "int \<Rightarrow> int \<Rightarrow> bucket \<Rightarrow> bool" where
  "stale window at b \<longleftrightarrow> at - lastFailureAt b \<ge> window \<and> blockedUntil b \<le> at"

definition prune :: "int \<Rightarrow> limiter \<Rightarrow> limiter" where
  "prune at l = l\<lparr>buckets := filter (\<lambda>p. \<not> stale (windowMs l) at (snd p)) (buckets l)\<rparr>"

definition normalizeKey :: "ustr \<Rightarrow> ustr" where
  "normalizeKey key = (if length key > 0 then key else js ''<invalid>'')"

text \<open>The scan for the entry with the earliest last failure, the first one of equals.\<close>

primrec oldestFrom :: "(ustr \<times> int) option \<Rightarrow> (ustr \<times> bucket) list \<Rightarrow> ustr option" where
  "oldestFrom best [] = map_option fst best"
| "oldestFrom best (p # ps) =
     oldestFrom (case best of
         None \<Rightarrow> Some (fst p, lastFailureAt (snd p))
       | Some (k, at) \<Rightarrow> if lastFailureAt (snd p) < at then Some (fst p, lastFailureAt (snd p)) else best) ps"

lemma oldestFrom_in: "oldestFrom best ps = Some k \<Longrightarrow> k \<in> fst ` set ps \<or> (\<exists>at. best = Some (k, at))"
  by (induction ps arbitrary: best) (fastforce split: option.splits if_splits)+

lemma oldestFrom_some: "best \<noteq> None \<or> ps \<noteq> [] \<Longrightarrow> oldestFrom best ps \<noteq> None"
  by (induction ps arbitrary: best) (auto split: option.splits)

lemma delete_shorter: "k \<in> fst ` set ps \<Longrightarrow> length (AList.delete k ps) < length ps"
  unfolding AList.delete_eq by (elim imageE, rule length_filter_less) auto

function enforceBound :: "int \<Rightarrow> (ustr \<times> bucket) list \<Rightarrow> (ustr \<times> bucket) list" where
  "enforceBound m bs =
     (if int (length bs) \<le> m then bs
      else case oldestFrom None bs of
        None \<Rightarrow> bs
      | Some k \<Rightarrow> enforceBound m (AList.delete k bs))"
  by pat_completeness auto

termination
  by (relation "measure (\<lambda>(m, bs). length bs)") (auto dest!: oldestFrom_in intro!: delete_shorter)

declare enforceBound.simps [simp del]

text \<open>
  One failure. The bucket that is counted may be evicted by the bound in the same call; its object is
  still updated for the result, but no longer in the map.
\<close>

definition openBucket :: "limiter \<Rightarrow> ustr \<Rightarrow> int \<Rightarrow> bucket" where
  "openBucket l key at =
     (case map_of (buckets l) key of
        Some b \<Rightarrow>
          if at - firstFailureAt b \<ge> windowMs l \<and> blockedUntil b \<le> at
          then \<lparr>failures = 0, firstFailureAt = at, lastFailureAt = at, blockedUntil = 0\<rparr> else b
      | None \<Rightarrow> \<lparr>failures = 0, firstFailureAt = at, lastFailureAt = at, blockedUntil = 0\<rparr>)"

definition countFailure :: "limiter \<Rightarrow> ustr \<Rightarrow> int \<Rightarrow> bucket" where
  "countFailure l key at =
     (let b = openBucket l key at in b\<lparr>failures := failures b + 1, lastFailureAt := at\<rparr>)"

definition newDelay :: "limiter \<Rightarrow> int \<Rightarrow> int" where
  "newDelay l n =
     (if n \<ge> threshold l then min (maxDelayMs l) (baseRetryMs l * 2 ^ nat (max 0 (n - threshold l))) else 0)"

definition penalize :: "limiter \<Rightarrow> int \<Rightarrow> bucket \<Rightarrow> bucket" where
  "penalize l at b =
     (let delay = newDelay l (failures b) in
      if delay > 0 then b\<lparr>blockedUntil := max (blockedUntil b) (at + delay)\<rparr>
      else if blockedUntil b \<le> at then b\<lparr>blockedUntil := 0\<rparr> else b)"

definition recordFailure :: "ustr \<Rightarrow> int \<Rightarrow> limiter \<Rightarrow> failure_record \<times> limiter" where
  "recordFailure key0 at l0 =
     (let l = prune at l0;
          key = normalizeKey key0;
          b = countFailure l key at;
          kept = enforceBound (maxBuckets l) (AList.update key b (buckets l));
          b' = penalize l at b
      in (\<lparr>fr_failures = failures b', fr_retryAfterMs = max 0 (blockedUntil b' - at)\<rparr>,
          l\<lparr>buckets := (if key \<in> fst ` set kept then AList.update key b' kept else kept)\<rparr>))"

definition reset :: "ustr \<Rightarrow> limiter \<Rightarrow> limiter" where
  "reset key l = l\<lparr>buckets := AList.delete (normalizeKey key) (buckets l)\<rparr>"

definition retryAfter :: "ustr \<Rightarrow> int \<Rightarrow> limiter \<Rightarrow> int" where
  "retryAfter key at l =
     (case map_of (buckets l) (normalizeKey key) of
        None \<Rightarrow> 0
      | Some b \<Rightarrow> max 0 (blockedUntil b - at))"

lemmas [limiter_defs] = prune_def openBucket_def countFailure_def penalize_def recordFailure_def reset_def retryAfter_def


section \<open>Histories\<close>

datatype limiter_op = Failed ustr int | Cleared ustr

primrec op_key :: "limiter_op \<Rightarrow> ustr" where
  "op_key (Failed k at) = normalizeKey k"
| "op_key (Cleared k) = normalizeKey k"

primrec op_step :: "limiter_op \<Rightarrow> limiter \<Rightarrow> limiter" where
  "op_step (Failed k at) l = snd (recordFailure k at l)"
| "op_step (Cleared k) l = reset k l"

definition after :: "limiter_op list \<Rightarrow> limiter \<Rightarrow> limiter" where
  "after ops l = fold op_step ops l"

lemma after_simps [simp]: "after [] l = l" "after (ops @ [x]) l = op_step x (after ops l)"
  by (simp_all add: after_def)

definition fail_times :: "limiter_op list \<Rightarrow> int list" where
  "fail_times ops = concat (map (\<lambda>x. case x of Failed k at \<Rightarrow> [at] | Cleared k \<Rightarrow> []) ops)"

lemma fail_times_simps [simp]:
  "fail_times [] = []" "fail_times (Failed k at # ops) = at # fail_times ops" "fail_times (Cleared k # ops) = fail_times ops"
  "fail_times (xs @ ys) = fail_times xs @ fail_times ys"
  by (simp_all add: fail_times_def)

section \<open>The bound\<close>

abbreviation keys :: "limiter \<Rightarrow> ustr list" where
  "keys l \<equiv> map fst (buckets l)"

definition limiter_ok :: "limiter \<Rightarrow> bool" where
  "limiter_ok l \<longleftrightarrow> distinct (keys l) \<and> int (length (buckets l)) \<le> maxBuckets l \<and> 1 \<le> maxBuckets l"

lemma distinct_filter_keys: "distinct (map fst bs) \<Longrightarrow> distinct (map fst (filter P bs))"
  by (induction bs) auto

lemma enforceBound_ok:
  "distinct (map fst bs) \<Longrightarrow> 0 \<le> m \<Longrightarrow>
     distinct (map fst (enforceBound m bs)) \<and> int (length (enforceBound m bs)) \<le> m
     \<and> set (enforceBound m bs) \<subseteq> set bs"
proof (induction m bs rule: enforceBound.induct)
  case (1 m bs)
  show ?case
  proof (cases "int (length bs) \<le> m")
    case True
    with 1 show ?thesis by (subst (1 2 3) enforceBound.simps) simp
  next
    case False
    then have "oldestFrom None bs \<noteq> None" using 1(3) by (intro oldestFrom_some) auto
    then obtain k where k: "oldestFrom None bs = Some k" by blast
    have "distinct (map fst (AList.delete k bs))" using 1(2) by (rule distinct_delete)
    with 1(1) [OF False k] 1(3) have ih: "distinct (map fst (enforceBound m (AList.delete k bs)))
        \<and> int (length (enforceBound m (AList.delete k bs))) \<le> m \<and> set (enforceBound m (AList.delete k bs)) \<subseteq> set (AList.delete k bs)" by blast
    have "set (AList.delete k bs) \<subseteq> set bs" by (auto simp: AList.delete_eq)
    with ih k False show ?thesis by (subst (1 2 3) enforceBound.simps) auto
  qed
qed

lemma enforceBound_id: "int (length bs) \<le> m \<Longrightarrow> enforceBound m bs = bs"
  by (subst enforceBound.simps) simp

lemma limits_kept [simp]:
  "windowMs (op_step x l) = windowMs l" "threshold (op_step x l) = threshold l" "maxDelayMs (op_step x l) = maxDelayMs l"
  "maxBuckets (op_step x l) = maxBuckets l" "baseRetryMs (op_step x l) = baseRetryMs l"
  by (cases x; simp add: recordFailure_def reset_def prune_def Let_def)+

lemma update_same_length: "k \<in> fst ` set ps \<Longrightarrow> length (AList.update k v ps) = length ps"
  by (induction ps) auto

lemma op_step_ok: "limiter_ok l \<Longrightarrow> limiter_ok (op_step x l)"
proof (cases x)
  case (Failed k at)
  assume l: "limiter_ok l"
  let ?l = "prune at l" and ?k = "normalizeKey k"
  let ?b = "countFailure ?l ?k at"
  let ?kept = "enforceBound (maxBuckets ?l) (AList.update ?k ?b (buckets ?l))"
  have "distinct (map fst (AList.update ?k ?b (buckets ?l)))"
    using l by (intro distinct_update) (simp add: prune_def limiter_ok_def distinct_filter_keys)
  from enforceBound_ok [OF this, of "maxBuckets ?l"] l
  have "distinct (map fst ?kept) \<and> int (length ?kept) \<le> maxBuckets l" by (simp add: limiter_ok_def prune_def)
  with l Failed show ?thesis
    by (simp add: recordFailure_def Let_def limiter_ok_def update_same_length distinct_update) (simp add: prune_def)
next
  case (Cleared k)
  assume l: "limiter_ok l"
  have "length (AList.delete (normalizeKey k) (buckets l)) \<le> length (buckets l)" by (simp add: AList.delete_eq)
  with l Cleared show ?thesis by (simp add: reset_def limiter_ok_def distinct_delete)
qed

lemma new_limiter: "AuthRateLimiter opts = Some l \<Longrightarrow> buckets l = [] \<and> 1 \<le> windowMs l \<and> 1 \<le> threshold l
    \<and> 1 \<le> maxDelayMs l \<and> 1 \<le> maxBuckets l \<and> 1 \<le> baseRetryMs l"
  by (auto simp: AuthRateLimiter_def positiveInteger_def split: Option.bind_splits if_splits)

lemma after_limits [simp]:
  "windowMs (after ops l) = windowMs l" "threshold (after ops l) = threshold l" "maxDelayMs (after ops l) = maxDelayMs l"
  "maxBuckets (after ops l) = maxBuckets l" "baseRetryMs (after ops l) = baseRetryMs l"
  by (induction ops rule: rev_induct) simp_all

lemma after_ok: "limiter_ok l \<Longrightarrow> limiter_ok (after ops l)"
  by (induction ops rule: rev_induct) (simp_all add: op_step_ok)

lemma new_limiter_ok: "AuthRateLimiter opts = Some l \<Longrightarrow> limiter_ok l"
  by (auto simp: limiter_ok_def dest: new_limiter)

lemma penalize_simps [simp]:
  "failures (penalize l at b) = failures b" "firstFailureAt (penalize l at b) = firstFailureAt b"
  "lastFailureAt (penalize l at b) = lastFailureAt b"
  by (simp_all add: penalize_def Let_def)

lemma newDelay_bound: "1 \<le> maxDelayMs l \<Longrightarrow> newDelay l n \<le> maxDelayMs l"
  by (simp add: newDelay_def)

definition blocked_within :: "int \<Rightarrow> limiter \<Rightarrow> bool" where
  "blocked_within latest l \<longleftrightarrow> (\<forall>p\<in>set (buckets l). blockedUntil (snd p) \<le> latest + maxDelayMs l)"

lemma set_update_subset: "set (AList.update k v ps) \<subseteq> insert (k, v) (set ps)"
  by (induction ps) auto

lemma penalize_pruned: "penalize (prune u l) at b = penalize l at b"
  by (simp add: penalize_def prune_def newDelay_def)

lemma recordFailure_entries:
  assumes "limiter_ok l" "p \<in> set (buckets (snd (recordFailure k at l)))"
  shows "p \<in> set (buckets l) \<or> p = (normalizeKey k, penalize l at (countFailure (prune at l) (normalizeKey k) at))"
proof -
  let ?l = "prune at l" and ?k = "normalizeKey k"
  let ?b = "countFailure ?l ?k at"
  let ?bs = "AList.update ?k ?b (buckets ?l)"
  let ?kept = "enforceBound (maxBuckets ?l) ?bs"
  have d: "distinct (map fst ?bs)"
    using assms(1) by (intro distinct_update) (simp add: prune_def limiter_ok_def distinct_filter_keys)
  have m: "0 \<le> maxBuckets ?l" using assms(1) by (simp add: limiter_ok_def prune_def)
  note kept = enforceBound_ok [OF d m]
  note pen = penalize_pruned [of at l at]
  have old: "q \<in> set (buckets l)" if "q \<in> set ?kept" "fst q \<noteq> ?k" for q
    using that kept set_update_subset [of ?k ?b "buckets ?l"] by (auto simp: prune_def)
  have "p \<in> set ?kept \<and> fst p \<noteq> ?k \<or> p = (?k, penalize l at ?b)"
  proof (cases "?k \<in> fst ` set ?kept")
    case True
    then have "p \<in> set (AList.update ?k (penalize l at ?b) ?kept)"
      using assms(2) by (simp add: recordFailure_def Let_def pen)
    then have "map_of (AList.update ?k (penalize l at ?b) ?kept) (fst p) = Some (snd p)"
      using kept by (intro map_of_is_SomeI) (auto intro: distinct_update)
    then show ?thesis using kept by (auto simp: update_conv' map_of_eq_Some_iff split: if_splits) (metis prod.collapse)+
  next
    case False
    then have "p \<in> set ?kept" using assms(2) by (simp add: recordFailure_def Let_def)
    with False show ?thesis by force
  qed
  with old show ?thesis by blast
qed

text \<open>
  With \<open>latest\<close> not before any clock reading so far, no bucket is blocked for longer than \<open>maxDelayMs\<close>
  after it, neither the stored ones nor the one that a failure has just penalized.
\<close>

lemma penalized_within:
  assumes "1 \<le> maxDelayMs l" "blocked_within latest l" "at \<le> latest" "0 \<le> latest"
  shows "blockedUntil (penalize l at (countFailure (prune at l) key at)) \<le> latest + maxDelayMs l"
proof -
  have "blockedUntil (openBucket (prune at l) key at) \<le> latest + maxDelayMs l"
  proof (cases "map_of (buckets (prune at l)) key")
    case (Some c)
    then have "(key, c) \<in> set (buckets l)" by (auto simp: prune_def dest: map_of_SomeD)
    with assms(2) have "blockedUntil c \<le> latest + maxDelayMs l" by (force simp: blocked_within_def)
    with Some assms(1,4) show ?thesis by (simp add: openBucket_def)
  qed (use assms(1,4) in \<open>simp add: openBucket_def\<close>)
  moreover have "at + newDelay l n \<le> latest + maxDelayMs l" for n using newDelay_bound [OF assms(1), of n] assms(3) by linarith
  ultimately show ?thesis using assms(1,4) by (simp add: penalize_def countFailure_def Let_def)
qed

lemma blocked_within_step:
  assumes "limiter_ok l" "1 \<le> maxDelayMs l" "blocked_within latest l" "\<forall>t\<in>set (fail_times [x]). t \<le> latest" "0 \<le> latest"
  shows "blocked_within latest (op_step x l)"
proof (cases x)
  case (Failed k t)
  have t: "t \<le> latest" using assms(4) Failed by simp
  have "blockedUntil (snd p) \<le> latest + maxDelayMs l" if "p \<in> set (buckets (snd (recordFailure k t l)))" for p
    using recordFailure_entries [OF assms(1) that]
  proof
    assume "p \<in> set (buckets l)"
    with assms(3) show ?thesis by (simp add: blocked_within_def)
  qed (simp add: penalized_within [OF assms(2,3) t assms(5)])
  with Failed limits_kept(3) [of x l] show ?thesis by (simp add: blocked_within_def)
next
  case (Cleared k)
  with assms(3) show ?thesis by (auto simp: blocked_within_def reset_def AList.delete_eq)
qed

lemma after_blocked:
  assumes "limiter_ok l" "1 \<le> maxDelayMs l" "buckets l = []" "0 \<le> latest" "\<forall>t\<in>set (fail_times ops). t \<le> latest"
  shows "blocked_within latest (after ops l)"
  using assms(5)
proof (induction ops rule: rev_induct)
  case (snoc x ops)
  with blocked_within_step [OF after_ok [OF assms(1)], of ops latest x] assms(2,4) show ?case by simp
qed (use assms(3) in \<open>simp add: blocked_within_def\<close>)

lemma recorded_retry:
  "fr_retryAfterMs (fst (recordFailure k at l)) =
     max 0 (blockedUntil (penalize l at (countFailure (prune at l) (normalizeKey k) at)) - at)"
  using penalize_pruned by (simp only: recordFailure_def Let_def fst_conv failure_record.simps)

text \<open>
  Property C35. The limiter is bounded: after any history of failures and resets, whatever the keys
  and however the clock moved, there are at most \<open>maxBuckets\<close> buckets, one for each key. The delay that
  it asks for, when a key is looked up and when a failure is recorded, is never negative, and at the
  latest clock reading of the history it is at most \<open>maxDelayMs\<close>; when the clock went back it exceeds
  that by no more than the clock stands behind the latest reading.
\<close>

theorem limiter_bounded:
  assumes "AuthRateLimiter opts = Some l"
  shows "limiter_size (after ops l) \<le> maxBuckets l \<and> distinct (keys (after ops l))
    \<and> 0 \<le> retryAfter k at (after ops l) \<and> 0 \<le> fr_retryAfterMs (fst (recordFailure k at (after ops l)))
    \<and> (0 \<le> latest \<and> at \<le> latest \<and> (\<forall>t\<in>set (fail_times ops). t \<le> latest)
        \<longrightarrow> retryAfter k at (after ops l) \<le> maxDelayMs l + (latest - at)
          \<and> fr_retryAfterMs (fst (recordFailure k at (after ops l))) \<le> maxDelayMs l + (latest - at))"
proof -
  note l = new_limiter [OF assms]
  note ok = after_ok [OF new_limiter_ok [OF assms], of ops]
  have "retryAfter k at (after ops l) \<le> maxDelayMs l + (latest - at)
      \<and> fr_retryAfterMs (fst (recordFailure k at (after ops l))) \<le> maxDelayMs l + (latest - at)"
    if t: "0 \<le> latest" "at \<le> latest" "\<forall>t\<in>set (fail_times ops). t \<le> latest"
  proof
    have within: "blocked_within latest (after ops l)"
      using l t by (intro after_blocked [OF new_limiter_ok [OF assms]]) simp_all
    then show "retryAfter k at (after ops l) \<le> maxDelayMs l + (latest - at)"
      using l t by (force simp: retryAfter_def blocked_within_def dest!: map_of_SomeD split: option.split)
    show "fr_retryAfterMs (fst (recordFailure k at (after ops l))) \<le> maxDelayMs l + (latest - at)"
      using penalized_within [OF _ within t(2,1), of "normalizeKey k"] l t by (simp add: recorded_retry)
  qed
  moreover have "0 \<le> retryAfter k at (after ops l)" by (simp add: retryAfter_def split: option.split)
  ultimately show ?thesis using ok by (simp add: limiter_size_def limiter_ok_def recorded_retry)
qed

definition small_limiter :: limiter where
  "small_limiter = \<lparr>windowMs = 300000, threshold = 2, maxDelayMs = 4000, maxBuckets = 1, baseRetryMs = 1000, buckets = []\<rparr>"

theorem limiter_bounded_witness:
  "limiter_size (after [Failed (js ''a'') 1, Failed (js ''b'') 2, Failed (js ''b'') 3] small_limiter) \<le> 1
   \<and> retryAfter (js ''b'') 3 (after [Failed (js ''a'') 1, Failed (js ''b'') 2, Failed (js ''b'') 3] small_limiter) \<le> 4000
   \<and> fr_retryAfterMs (fst (recordFailure (js ''b'') 3 (after [Failed (js ''a'') 1, Failed (js ''b'') 2, Failed (js ''b'') 3] small_limiter))) \<le> 4000"
proof -
  have "AuthRateLimiter \<lparr>lo_windowMs = None, lo_threshold = Some 2, lo_maxDelayMs = Some 4000, lo_maxBuckets = Some 1, lo_baseRetryMs = None\<rparr>
      = Some small_limiter"
    by (simp add: AuthRateLimiter_def positiveInteger_def small_limiter_def AUTH_FAILURE_WINDOW_MS_def AUTH_BASE_RETRY_MS_def)
  from limiter_bounded [OF this, of "[Failed (js ''a'') 1, Failed (js ''b'') 2, Failed (js ''b'') 3]" "js ''b''" 3 3]
  show ?thesis by (simp add: small_limiter_def)
qed

section \<open>Keys do not interfere\<close>

text \<open>What a limiter still knows of a key at an instant: a stale bucket is as good as none.\<close>

definition live :: "limiter \<Rightarrow> ustr \<Rightarrow> int \<Rightarrow> bucket option" where
  "live l key at = (case map_of (buckets l) key of Some b \<Rightarrow> if stale (windowMs l) at b then None else Some b | None \<Rightarrow> None)"

lemma map_of_filter_value:
  "distinct (map fst ps) \<Longrightarrow> map_of (filter (\<lambda>p. P (snd p)) ps) k = (case map_of ps k of Some v \<Rightarrow> if P v then Some v else None | None \<Rightarrow> None)"
  by (induction ps) (auto split: option.splits simp: map_of_eq_None_iff)

lemma map_of_prune: "limiter_ok l \<Longrightarrow> map_of (buckets (prune at l)) k = live l k at"
  using map_of_filter_value [of "buckets l" "\<lambda>b. \<not> stale (windowMs l) at b" k]
  by (simp add: prune_def live_def limiter_ok_def cong: option.case_cong) (simp split: option.split)

lemma stale_later: "stale w at b \<Longrightarrow> at \<le> at' \<Longrightarrow> stale w at' b"
  by (simp add: stale_def)

lemma live_later:
  assumes "live l k at = live l' k at" "at \<le> at'" "windowMs l = windowMs l'"
  shows "live l k at' = live l' k at'"
proof -
  have "live m k at' = (case live m k at of Some b \<Rightarrow> if stale (windowMs m) at' b then None else Some b | None \<Rightarrow> None)" for m
    using stale_later [OF _ assms(2), of "windowMs m"] by (auto simp: live_def split: option.split)
  from this [of l] this [of l'] show ?thesis unfolding assms(1,3) by simp
qed

text \<open>Two limiters with the same limits that agree on a key.\<close>

definition agree :: "ustr \<Rightarrow> int \<Rightarrow> limiter \<Rightarrow> limiter \<Rightarrow> bool" where
  "agree k at l l' \<longleftrightarrow> live l k at = live l' k at \<and> windowMs l = windowMs l' \<and> threshold l = threshold l'
     \<and> maxDelayMs l = maxDelayMs l' \<and> maxBuckets l = maxBuckets l' \<and> baseRetryMs l = baseRetryMs l'"

lemma agree_later: "agree k at l l' \<Longrightarrow> at \<le> at' \<Longrightarrow> agree k at' l l'"
  unfolding agree_def using live_later [of l k at l' at'] by blast

text \<open>Without eviction a failure is counted in its own bucket and nowhere else.\<close>

lemma recordFailure_uncrowded:
  fixes at :: int
  assumes "limiter_ok l" "finite K" "set (keys l) \<subseteq> K" "normalizeKey k \<in> K" "int (card K) \<le> maxBuckets l"
  defines "b \<equiv> countFailure (prune at l) (normalizeKey k) at"
  shows "recordFailure k at l =
      (\<lparr>fr_failures = failures b, fr_retryAfterMs = max 0 (blockedUntil (penalize l at b) - at)\<rparr>,
       (prune at l)\<lparr>buckets := AList.update (normalizeKey k) (penalize l at b) (buckets (prune at l))\<rparr>)"
    and "set (keys (snd (recordFailure k at l))) \<subseteq> K"
proof -
  let ?l = "prune at l" and ?k = "normalizeKey k"
  have sub: "set (map fst (AList.update ?k b (buckets ?l))) \<subseteq> K"
    using assms(3,4) by (auto simp: dom_update prune_def)
  have "distinct (map fst (AList.update ?k b (buckets ?l)))"
    using assms(1) by (intro distinct_update) (simp add: prune_def limiter_ok_def distinct_filter_keys)
  then have "length (AList.update ?k b (buckets ?l)) \<le> card K"
    using sub assms(2) by (metis card_mono distinct_card length_map)
  with assms(5) have kept: "enforceBound (maxBuckets ?l) (AList.update ?k b (buckets ?l)) = AList.update ?k b (buckets ?l)"
    by (intro enforceBound_id) (simp add: prune_def)
  have pen: "penalize ?l at c = penalize l at c" for c by (simp add: penalize_def prune_def newDelay_def)
  have twice: "AList.update ?k c (AList.update ?k b ps) = AList.update ?k c ps" for c ps by (induction ps) auto
  have "?k \<in> fst ` set (AList.update ?k b (buckets ?l))" by (simp add: dom_update)
  then show run: "recordFailure k at l =
      (\<lparr>fr_failures = failures b, fr_retryAfterMs = max 0 (blockedUntil (penalize l at b) - at)\<rparr>,
       ?l\<lparr>buckets := AList.update ?k (penalize l at b) (buckets ?l)\<rparr>)"
    by (simp add: recordFailure_def Let_def b_def [symmetric] kept pen twice)
  show "set (keys (snd (recordFailure k at l))) \<subseteq> K"
    using assms(3,4) by (auto simp: run dom_update prune_def)
qed

lemma prune_limits [simp]:
  "windowMs (prune at l) = windowMs l" "threshold (prune at l) = threshold l" "maxDelayMs (prune at l) = maxDelayMs l"
  "maxBuckets (prune at l) = maxBuckets l" "baseRetryMs (prune at l) = baseRetryMs l"
  by (simp_all add: prune_def)

lemma live_update_same:
  "live (l\<lparr>buckets := AList.update k b ps\<rparr>) k at = (if stale (windowMs l) at b then None else Some b)"
  by (simp add: live_def update_conv')

lemma live_update_other:
  "j \<noteq> k \<Longrightarrow> live (l\<lparr>buckets := AList.update j b ps\<rparr>) k at = live (l\<lparr>buckets := ps\<rparr>) k at"
  by (simp add: live_def update_conv' split: option.split)

lemma live_pruned: "limiter_ok l \<Longrightarrow> live (prune at l) k at = live l k at"
proof -
  assume l: "limiter_ok l"
  have "live (prune at l) k at = (case live l k at of Some b \<Rightarrow> if stale (windowMs l) at b then None else Some b | None \<Rightarrow> None)"
    unfolding live_def [of "prune at l"] map_of_prune [OF l] prune_limits ..
  also have "\<dots> = live l k at" by (auto simp: live_def split: option.split)
  finally show ?thesis .
qed

lemma agree_count:
  assumes "agree k at l l'" "limiter_ok l" "limiter_ok l'"
  shows "countFailure (prune at l) k at = countFailure (prune at l') k at" "penalize l at b = penalize l' at b"
proof -
  have "map_of (buckets (prune at l)) k = map_of (buckets (prune at l')) k"
    using assms by (simp add: map_of_prune agree_def)
  moreover have "windowMs (prune at l) = windowMs (prune at l')" using assms(1) by (simp add: agree_def)
  ultimately show "countFailure (prune at l) k at = countFailure (prune at l') k at"
    by (simp only: countFailure_def openBucket_def)
  show "penalize l at b = penalize l' at b" using assms(1) by (simp add: penalize_def newDelay_def agree_def)
qed

lemma agree_same_key:
  assumes "agree k at l l'" "limiter_ok l" "limiter_ok l'" "normalizeKey j = k"
    and "finite K" "set (keys l) \<subseteq> K" "set (keys l') \<subseteq> K" "k \<in> K" "int (card K) \<le> maxBuckets l"
  shows "fst (recordFailure j at l) = fst (recordFailure j at l') \<and> agree k at (snd (recordFailure j at l)) (snd (recordFailure j at l'))"
proof -
  have m: "maxBuckets l = maxBuckets l'" using assms(1) by (simp add: agree_def)
  note r = recordFailure_uncrowded(1) [OF assms(2,5,6), of j at] recordFailure_uncrowded(1) [OF assms(3,5,7), of j at]
  note c = agree_count [OF assms(1-3)]
  show ?thesis using r assms(1,4,8,9) m c live_update_same [where l = "prune at l" and k = k] live_update_same [where l = "prune at l'" and k = k]
    by (simp add: agree_def)
qed

lemma agree_other_key:
  assumes "agree k at l l'" "limiter_ok l" "normalizeKey j \<noteq> k"
    and "finite K" "set (keys l) \<subseteq> K" "normalizeKey j \<in> K" "int (card K) \<le> maxBuckets l"
  shows "agree k at (snd (recordFailure j at l)) l'"
proof -
  note r = recordFailure_uncrowded(1) [OF assms(2,4,5,6,7), of at]
  have "live ((prune at l)\<lparr>buckets := AList.update (normalizeKey j) b (buckets (prune at l))\<rparr>) k at = live l k at" for b
    using live_update_other [OF assms(3), where l = "prune at l" and ps = "buckets (prune at l)"] live_pruned [OF assms(2), of at k] by simp
  with r assms(1) show ?thesis by (simp add: agree_def)
qed

lemma agree_reset: "agree k at l l' \<Longrightarrow> agree k at (reset j l) (if normalizeKey j = k then reset j l' else l')"
proof -
  assume a: "agree k at l l'"
  have "live (reset j m) k at = (if normalizeKey j = k then None else live m k at)" for m
    by (simp add: live_def reset_def delete_conv' split: option.split)
  with a show ?thesis by (simp add: agree_def) (simp add: reset_def)
qed

lemma keys_reset: "set (keys (reset j l)) \<subseteq> set (keys l)"
  by (auto simp: reset_def AList.delete_eq)

definition concerns :: "ustr \<Rightarrow> limiter_op \<Rightarrow> bool" where
  "concerns key x \<longleftrightarrow> op_key x = normalizeKey key"

lemma fail_times_filter: "set (fail_times (filter P ops)) \<subseteq> set (fail_times ops)"
  by (induction ops) (auto simp: fail_times_def)

lemma own_history:
  assumes "limiter_ok l" "buckets l = []" "finite K" "int (card K) \<le> maxBuckets l"
    and "sorted (fail_times ops)" "\<forall>t\<in>set (fail_times ops). t \<le> at" "op_key ` set ops \<subseteq> K"
  shows "agree (normalizeKey key) at (after ops l) (after (filter (concerns key) ops) l)
    \<and> set (keys (after ops l)) \<subseteq> K \<and> set (keys (after (filter (concerns key) ops) l)) \<subseteq> K"
  using assms(5-)
proof (induction ops arbitrary: at rule: rev_induct)
  case Nil
  then show ?case using assms(2) by (simp add: agree_def)
next
  case (snoc x ops)
  let ?l = "after ops l" and ?l' = "after (filter (concerns key) ops) l" and ?k = "normalizeKey key"
  note ok = after_ok [OF assms(1), of ops] after_ok [OF assms(1), of "filter (concerns key) ops"]
  show ?case
  proof (cases x)
    case (Cleared j)
    with snoc have ih: "agree ?k at ?l ?l'" "set (keys ?l) \<subseteq> K" "set (keys ?l') \<subseteq> K" by simp_all
    have c: "concerns key x \<longleftrightarrow> normalizeKey j = ?k" using Cleared by (simp add: concerns_def)
    have sub: "set (keys (reset j ?l)) \<subseteq> K" "set (keys (reset j ?l')) \<subseteq> K"
      using ih(2,3) keys_reset by (blast intro: subset_trans)+
    show ?thesis using agree_reset [OF ih(1), of j] sub ih(3) c Cleared by (cases "normalizeKey j = ?k") simp_all
  next
    case (Failed j t)
    with snoc.prems have t: "t \<le> at" "normalizeKey j \<in> K" and old: "sorted (fail_times ops)" "\<forall>u\<in>set (fail_times ops). u \<le> t"
        "op_key ` set ops \<subseteq> K"
      by (auto simp: sorted_append)
    from snoc.IH [OF old] have ih: "agree ?k t ?l ?l'" "set (keys ?l) \<subseteq> K" "set (keys ?l') \<subseteq> K" by blast+
    have c: "concerns key x \<longleftrightarrow> normalizeKey j = ?k" using Failed by (simp add: concerns_def)
    have m: "int (card K) \<le> maxBuckets ?l" "int (card K) \<le> maxBuckets ?l'" using assms(4) by simp_all
    note sub = recordFailure_uncrowded(2) [OF ok(1) assms(3) ih(2) t(2) m(1), of t]
      recordFailure_uncrowded(2) [OF ok(2) assms(3) ih(3) t(2) m(2), of t]
    show ?thesis
    proof (cases "normalizeKey j = ?k")
      case True
      from agree_same_key [OF ih(1) ok True assms(3) ih(2,3) _ m(1)] t(2) True sub agree_later [OF _ t(1)] Failed c
      show ?thesis by simp
    next
      case False
      from agree_other_key [OF ih(1) ok(1) False assms(3) ih(2) t(2) m(1)] False sub(1) ih(3) agree_later [OF _ t(1)] Failed c
      show ?thesis by simp
    qed
  qed
qed

section \<open>The back-off\<close>

definition tallied :: "limiter \<Rightarrow> int list \<Rightarrow> bucket" where
  "tallied l ts = \<lparr>failures = int (length ts), firstFailureAt = hd ts, lastFailureAt = last ts,
     blockedUntil = (if int (length ts) < threshold l then 0 else last ts + newDelay l (int (length ts)))\<rparr>"

lemma newDelay_mono: "1 \<le> maxDelayMs l \<Longrightarrow> 1 \<le> baseRetryMs l \<Longrightarrow> n \<le> m \<Longrightarrow> newDelay l n \<le> newDelay l m"
proof -
  assume l: "1 \<le> maxDelayMs l" "1 \<le> baseRetryMs l" "n \<le> m"
  then have "baseRetryMs l * 2 ^ nat (max 0 (n - threshold l)) \<le> baseRetryMs l * 2 ^ nat (max 0 (m - threshold l))"
    by (intro mult_left_mono power_increasing nat_mono) auto
  moreover have "0 \<le> baseRetryMs l * 2 ^ nat (max 0 (m - threshold l))" using l(2) by simp
  ultimately show ?thesis using l(1,3) by (auto simp: newDelay_def)
qed

lemma newDelay_pos: "1 \<le> maxDelayMs l \<Longrightarrow> 1 \<le> baseRetryMs l \<Longrightarrow> threshold l \<le> n \<Longrightarrow> 0 < newDelay l n"
  by (simp add: newDelay_def)

lemma next_count:
  assumes l: "1 \<le> windowMs l" "1 \<le> maxDelayMs l" "1 \<le> baseRetryMs l" and at: "0 \<le> at" "\<forall>t\<in>set ts. t \<le> at \<and> at - t < windowMs l"
    and known: "live l key at = (if ts = [] then None else Some (tallied l ts))" and ok: "limiter_ok l"
  shows "penalize l at (countFailure (prune at l) key at) = tallied l (ts @ [at])"
proof -
  let ?n = "int (length (ts @ [at]))"
  let ?old = "if ts = [] then 0 else blockedUntil (tallied l ts)"
  have c: "countFailure (prune at l) key at = \<lparr>failures = ?n, firstFailureAt = hd (ts @ [at]), lastFailureAt = at, blockedUntil = ?old\<rparr>"
  proof (cases "ts = []")
    case False
    then have "at - hd ts < windowMs l" using at(2) by simp
    with False known show ?thesis by (simp add: countFailure_def openBucket_def map_of_prune [OF ok]) (simp add: tallied_def)
  qed (use known in \<open>simp add: countFailure_def openBucket_def map_of_prune [OF ok]\<close>)
  have old: "?old \<le> at + newDelay l ?n"
  proof (cases "ts = []")
    case False
    then have "last ts \<le> at" using at(2) by simp
    with at(1) newDelay_mono [OF l(2,3), of "int (length ts)" ?n] newDelay_mono [OF l(2,3), of "threshold l - 1" ?n] False
    show ?thesis by (auto simp: tallied_def newDelay_def split: if_splits)
  qed (use at(1) l in \<open>simp add: newDelay_def\<close>)
  show ?thesis
  proof (cases "threshold l \<le> ?n")
    case True
    with old newDelay_pos [OF l(2,3) True] c show ?thesis by (simp add: penalize_def Let_def tallied_def max_def)
  next
    case False
    then have "newDelay l ?n = 0" "?old = 0" by (simp_all add: newDelay_def tallied_def)
    with c at(1) False show ?thesis by (simp add: penalize_def Let_def tallied_def)
  qed
qed

lemma own_count:
  assumes l: "limiter_ok l" "buckets l = []" "1 \<le> windowMs l" "1 \<le> maxDelayMs l" "1 \<le> baseRetryMs l"
    and "\<forall>x\<in>set ops. \<exists>j t. x = Failed j t \<and> normalizeKey j = key" "sorted (fail_times ops)"
    and "\<forall>t\<in>set (fail_times ops). 0 \<le> t \<and> t \<le> at \<and> at - t < windowMs l"
  shows "live (after ops l) key at = (if fail_times ops = [] then None else Some (tallied l (fail_times ops)))
    \<and> set (keys (after ops l)) \<subseteq> {key}"
  using assms(6-)
proof (induction ops arbitrary: at rule: rev_induct)
  case Nil
  then show ?case using l(2) by (simp add: live_def)
next
  case (snoc x ops)
  from snoc.prems(1) obtain j t where x: "x = Failed j t" "normalizeKey j = key" by auto
  let ?ts = "fail_times ops" and ?l = "after ops l"
  have ts: "\<forall>u\<in>set ?ts. 0 \<le> u \<and> u \<le> t \<and> t - u < windowMs l" "sorted ?ts" "0 \<le> t" "t \<le> at" "at - t < windowMs l"
    using snoc.prems(2,3) x by (auto simp: sorted_append)
  note ok = after_ok [OF l(1), of ops]
  from snoc.IH [OF _ ts(2,1)] snoc.prems(1) have ih: "live ?l key t = (if ?ts = [] then None else Some (tallied l ?ts))"
      "set (keys ?l) \<subseteq> {key}" by auto
  have same: "tallied ?l us = tallied l us" "penalize ?l t b = penalize l t b" for us b
    by (simp_all add: tallied_def penalize_def newDelay_def)
  have "penalize ?l t (countFailure (prune t ?l) key t) = tallied l (?ts @ [t])"
    using next_count [of ?l t ?ts key] l(3-5) ts ih(1) ok by (simp add: same)
  moreover have "int (card {key}) \<le> maxBuckets ?l" using ok by (simp add: limiter_ok_def)
  ultimately have "recordFailure j t ?l = (fst (recordFailure j t ?l), (prune t ?l)\<lparr>buckets := AList.update key (tallied l (?ts @ [t])) (buckets (prune t ?l))\<rparr>)"
      "set (keys (snd (recordFailure j t ?l))) \<subseteq> {key}"
    using recordFailure_uncrowded [OF ok, of "{key}" j t] ih(2) x(2) by simp_all
  moreover have "\<not> stale (windowMs l) at (tallied l (?ts @ [t]))" using ts(5) by (simp add: stale_def tallied_def)
  ultimately have "live (op_step x ?l) key at = Some (tallied l (?ts @ [t]))" "set (keys (op_step x ?l)) \<subseteq> {key}"
    using live_update_same [where l = "prune t ?l" and k = key] x(1) by (metis after_limits(1) op_step.simps(1) prune_limits(1) snd_conv)+
  then show ?case using x(1) by simp
qed

text \<open>
  Property C36. The penalty is the documented exponential back-off of the key's own failures. In a
  history with a clock that does not go back, in which at most \<open>maxBuckets\<close> keys occur and the key was
  not reset, let \<open>ts\<close> be the times of its failures, all within the window. Whatever failures and resets
  of other keys are interleaved, the next failure of the key is counted as number \<open>length ts + 1\<close>; it
  is not penalized below the threshold, and from there on the penalty starts at \<open>baseRetryMs\<close> and
  doubles with every failure up to \<open>maxDelayMs\<close>.
\<close>

theorem backoff_exact:
  assumes "AuthRateLimiter opts = Some l"
    and "sorted (fail_times ops)" "\<forall>t\<in>set (fail_times ops). 0 \<le> t \<and> t \<le> at" "0 \<le> at"
    and "\<forall>j. Cleared j \<in> set ops \<longrightarrow> normalizeKey j \<noteq> normalizeKey key"
    and "int (card (insert (normalizeKey key) (op_key ` set ops))) \<le> maxBuckets l"
    and "ts = fail_times (filter (concerns key) ops)" "\<forall>t\<in>set ts. at - t < windowMs l"
  shows "fst (recordFailure key at (after ops l)) =
    \<lparr>fr_failures = int (length ts) + 1,
     fr_retryAfterMs = (if int (length ts) + 1 < threshold l then 0
       else min (maxDelayMs l) (baseRetryMs l * 2 ^ nat (int (length ts) + 1 - threshold l)))\<rparr>"
proof -
  let ?k = "normalizeKey key" and ?own = "after (filter (concerns key) ops) l"
  let ?K = "insert ?k (op_key ` set ops)"
  note l = new_limiter [OF assms(1)] and ok0 = new_limiter_ok [OF assms(1)]
  note ok = after_ok [OF ok0, of ops] after_ok [OF ok0, of "filter (concerns key) ops"]
  from own_history [OF ok0 _ _ assms(6,2), of at key] assms(3) l
  have own: "agree ?k at (after ops l) ?own" "set (keys (after ops l)) \<subseteq> ?K" "set (keys ?own) \<subseteq> ?K" by auto
  have fails: "\<forall>x\<in>set (filter (concerns key) ops). \<exists>j t. x = Failed j t \<and> normalizeKey j = ?k"
  proof
    fix x assume "x \<in> set (filter (concerns key) ops)"
    with assms(5) show "\<exists>j t. x = Failed j t \<and> normalizeKey j = ?k" by (cases x) (auto simp: concerns_def)
  qed
  have "sorted (fail_times (filter (concerns key) ops'))" if "sorted (fail_times ops')" for ops'
    using that fail_times_filter [of "concerns key"] by (induction ops') (auto simp: fail_times_def split: limiter_op.splits)
  then have sorted: "sorted (fail_times (filter (concerns key) ops))" using assms(2) .
  have times: "\<forall>t\<in>set (fail_times (filter (concerns key) ops)). 0 \<le> t \<and> t \<le> at \<and> at - t < windowMs l"
    using assms(3,7,8) fail_times_filter [of "concerns key" ops] by blast
  have known: "live ?own ?k at = (if ts = [] then None else Some (tallied l ts))"
    using own_count [OF ok0 _ _ _ _ fails sorted times] l assms(7) by simp
  have m: "int (card ?K) \<le> maxBuckets (after ops l)" "int (card ?K) \<le> maxBuckets ?own" using assms(6) by simp_all
  have "fst (recordFailure key at (after ops l)) = fst (recordFailure key at ?own)"
    using agree_same_key [OF own(1) ok refl _ own(2,3) _ m(1)] by simp
  also have "\<dots> = \<lparr>fr_failures = int (length ts) + 1, fr_retryAfterMs = max 0 (blockedUntil (tallied l (ts @ [at])) - at)\<rparr>"
  proof -
    have same: "tallied ?own us = tallied l us" for us by (simp add: tallied_def newDelay_def)
    have "penalize ?own at (countFailure (prune at ?own) ?k at) = tallied l (ts @ [at])"
      using next_count [of ?own at ts ?k] l assms(4,7) times known ok(2) by (simp add: same)
    then have p: "penalize ?own at (countFailure (prune at ?own) ?k at) = tallied l (ts @ [at])" .
    then have "failures (countFailure (prune at ?own) ?k at) = int (length ts) + 1" by (metis tallied_def penalize_simps(1) bucket.select_convs(1) length_append_singleton of_nat_Suc add.commute)
    with p show ?thesis using recordFailure_uncrowded(1) [OF ok(2) _ own(3) _ m(2), of key at] by simp
  qed
  finally show ?thesis using l assms(4) by (auto simp: tallied_def newDelay_def add.commute)
qed

definition two_keys :: limiter where
  "two_keys = small_limiter\<lparr>maxBuckets := 2\<rparr>"

theorem backoff_exact_witness:
  "fst (recordFailure (js ''b'') 4 (after [Failed (js ''b'') 1, Failed (js ''a'') 2, Failed (js ''b'') 3] two_keys))
    = \<lparr>fr_failures = 3, fr_retryAfterMs = 2000\<rparr>"
proof -
  have new: "AuthRateLimiter \<lparr>lo_windowMs = None, lo_threshold = Some 2, lo_maxDelayMs = Some 4000, lo_maxBuckets = Some 2, lo_baseRetryMs = None\<rparr>
      = Some two_keys"
    by (simp add: AuthRateLimiter_def positiveInteger_def two_keys_def small_limiter_def AUTH_FAILURE_WINDOW_MS_def AUTH_BASE_RETRY_MS_def)
  have names: "normalizeKey (js ''a'') = js ''a''" "normalizeKey (js ''b'') = js ''b''" by (simp_all add: normalizeKey_def)
  show ?thesis
    using backoff_exact [OF new, of "[Failed (js ''b'') 1, Failed (js ''a'') 2, Failed (js ''b'') 3]" 4 "js ''b''" "[1, 3]"]
    by (simp add: names concerns_def two_keys_def small_limiter_def insert_commute card_insert_if)
qed

end
