(* ===== verification/AuthService.thy ===== *)
theory AuthService
  imports AuthSession AuthRateLimit
begin

text \<open>
  The first-run setup capability (server/auth/bootstrap.ts), the authentication service
  (server/auth/service.ts) and the start of its runtime (server/auth/runtime.ts). The state holds what the
  objects of the code keep: the tables, the setup capability, the two limiters, the throttle of the
  housekeeping and its microtasks.

  A synchronous turn of the event loop reads its clocks, draws its random bytes and meets its storage
  faults through the record \<open>turn\<close>; the service's clock and the limiters' own clock are separate, as in
  the code. Every statement that reads, that writes, or that
  inserts a session fails when the turn says so (the latter on its own, since the owner may be committed
  before the session fails). \<open>setup\<close> and \<open>login\<close>
  wait for the KDF once; each is a first part that ends in an error or in a pending call, and a second part
  that runs on the answer of the KDF, after whatever other turns came between.
\<close>

named_theorems service_defs \<open>operations of the authentication service\<close>

section \<open>The setup capability\<close>

definition MIN_EXPLICIT_BOOTSTRAP_TOKEN_BYTES :: nat where "MIN_EXPLICIT_BOOTSTRAP_TOKEN_BYTES = 32"

record bootstrap_state =
  bs_token :: "ustr option"
  bs_closed :: bool
  bs_loggedFallback :: bool

definition newBootstrap :: "ustr option \<Rightarrow> bootstrap_state" where
  "newBootstrap token = \<lparr>bs_token = token, bs_closed = (token = None), bs_loggedFallback = False\<rparr>"

text \<open>The state with the line it logs.\<close>

definition logFallbackOnce :: "bootstrap_state \<Rightarrow> bootstrap_state \<times> ustr option" where
  "logFallbackOnce b =
     (case bs_token b of
        None \<Rightarrow> (b, None)
      | Some t \<Rightarrow> if bs_loggedFallback b then (b, None)
          else (b\<lparr>bs_loggedFallback := True\<rparr>, Some (js ''[nuvyn] generated one-time setup token: '' @ t)))"

text \<open>\<open>None\<close> for the thrown RangeErrors; \<open>bytes\<close> are the drawn ones of the fallback.\<close>

definition createBootstrap :: "ustr option \<Rightarrow> nat list \<Rightarrow> auth_db \<Rightarrow> (bootstrap_state \<times> ustr option) option" where
  "createBootstrap explicitToken bytes db =
     (if au_instance db \<noteq> None then Some (newBootstrap None, None)
      else case explicitToken of
        Some explicit \<Rightarrow>
          if length explicit > 0
          then if length (utf8_encode explicit) < MIN_EXPLICIT_BOOTSTRAP_TOKEN_BYTES then None
               else Some (newBootstrap (Some explicit), None)
          else if length bytes < MIN_EXPLICIT_BOOTSTRAP_TOKEN_BYTES then None
          else Some (logFallbackOnce (newBootstrap (Some (b64_encode bytes))))
      | None \<Rightarrow>
          if length bytes < MIN_EXPLICIT_BOOTSTRAP_TOKEN_BYTES then None
          else Some (logFallbackOnce (newBootstrap (Some (b64_encode bytes)))))"

definition setupRequired :: "bootstrap_state \<Rightarrow> bool" where
  "setupRequired b \<longleftrightarrow> \<not> bs_closed b"

definition verifyBootstrap :: "runtime \<Rightarrow> jval \<Rightarrow> bootstrap_state \<Rightarrow> bool" where
  "verifyBootstrap rt provided b =
     (case (provided, bs_token b) of
        (JStr p, Some t) \<Rightarrow> \<not> bs_closed b \<and> rt_sha256 rt t = rt_sha256 rt p
      | _ \<Rightarrow> False)"

definition markOwnerCommitted :: "bootstrap_state \<Rightarrow> bootstrap_state" where
  "markOwnerCommitted b = b\<lparr>bs_token := None, bs_closed := True\<rparr>"

section \<open>The service\<close>

definition DUMMY_PASSWORD_HASH :: ustr where
  "DUMMY_PASSWORD_HASH = js ''scrypt$v1$N=32768,r=8,p=1$vxB7driim0d14ZL4x7e7xA$ii4iR3nQJbaXGQ4irXtmyqVBqk4KFukoTQxVsx-VKQw''"

definition SESSION_EXPIRED_PRUNE_INTERVAL_MS :: int where
  "SESSION_EXPIRED_PRUNE_INTERVAL_MS = 30 * 60 * 1000"

record safe_user =
  sf_id :: int
  sf_username :: ustr

datatype auth_code = ValidationError | BootstrapInvalid | AlreadyInitialized | InvalidCredentials | AuthRateLimited | AuthUnavailable

datatype auth_error = AuthServiceError auth_code int "int option" | StorageFault

type_synonym 'a auth_res = "auth_error + 'a"

record auth_state =
  st_db :: auth_db
  st_bootstrap :: bootstrap_state
  st_loginLimiter :: limiter
  st_setupLimiter :: limiter
  st_lastPruneAt :: "int option"
  st_pruneScheduled :: bool
  st_microtasks :: "int list"

record service_options =
  so_dummyPasswordHash :: ustr
  so_lastSeenInterval :: int
  so_pruneInterval :: int

record turn =
  tn_now :: int
  tn_sysNow :: int
  tn_token :: "nat list"
  tn_salt :: "nat list"
  tn_readFails :: bool
  tn_writeFails :: bool
  tn_sessionFails :: bool

definition serviceOptions :: "auth_config \<Rightarrow> service_options" where
  "serviceOptions config =
     \<lparr>so_dummyPasswordHash = DUMMY_PASSWORD_HASH, so_lastSeenInterval = cf_sessionLastSeenUpdateIntervalMs config,
      so_pruneInterval = SESSION_EXPIRED_PRUNE_INTERVAL_MS\<rparr>"

definition safeUser :: "user_row \<Rightarrow> safe_user" where
  "safeUser u = \<lparr>sf_id = us_id u, sf_username = us_username u\<rparr>"

definition ownerOf :: "auth_db \<Rightarrow> user_row option" where
  "ownerOf db = Option.bind (au_instance db) (\<lambda>i. lookup_by us_id (in_owner_user_id i) (au_users db))"

definition ownerRow :: "turn \<Rightarrow> auth_db \<Rightarrow> user_row option auth_res" where
  "ownerRow tn db = (if tn_readFails tn then Inl StorageFault else Inr (ownerOf db))"

definition kdfUnavailable :: "kdf_error option \<Rightarrow> auth_error" where
  "kdfUnavailable e =
     (case e of Some _ \<Rightarrow> AuthServiceError AuthRateLimited 429 (Some 1000)
      | None \<Rightarrow> AuthServiceError AuthUnavailable 500 None)"

definition retryAfterError :: "int \<Rightarrow> auth_error" where
  "retryAfterError ms = AuthServiceError AuthRateLimited 429 (Some ms)"

definition throwLoginFailure :: "ustr option \<Rightarrow> int \<Rightarrow> limiter \<Rightarrow> auth_error \<times> limiter" where
  "throwLoginFailure normalized at limiter =
     (let (failure, limiter') = recordFailure (case_option (js ''<invalid-username>'') id normalized) at limiter in
      (if fr_retryAfterMs failure > 0 then retryAfterError (fr_retryAfterMs failure)
       else AuthServiceError InvalidCredentials 401 None, limiter'))"

definition ownerExists :: "turn \<Rightarrow> auth_state \<Rightarrow> bool auth_res" where
  "ownerExists tn s = bindR (ownerRow tn (st_db s)) (\<lambda>o1. Inr (o1 \<noteq> None))"

record auth_status =
  as_authenticated :: bool
  as_setupRequired :: bool
  as_user :: "safe_user option"
  as_session :: "session_lookup option"

definition status :: "runtime \<Rightarrow> turn \<Rightarrow> ustr option \<Rightarrow> auth_state \<Rightarrow> auth_status auth_res" where
  "status rt tn rawToken s =
     bindR (ownerRow tn (st_db s)) (\<lambda>owner.
       case owner of
         None \<Rightarrow> Inr \<lparr>as_authenticated = False, as_setupRequired = True, as_user = None, as_session = None\<rparr>
       | Some own \<Rightarrow>
           (case rawToken of
              None \<Rightarrow> Inr \<lparr>as_authenticated = False, as_setupRequired = False, as_user = None, as_session = None\<rparr>
            | Some raw \<Rightarrow>
                if raw = [] then Inr \<lparr>as_authenticated = False, as_setupRequired = False, as_user = None, as_session = None\<rparr>
                else let session = findSessionByRawToken rt raw (tn_now tn) (st_db s) in
                  if lk_status session \<noteq> Valid \<or> lk_user session = None
                  then Inr \<lparr>as_authenticated = False, as_setupRequired = False, as_user = None, as_session = Some session\<rparr>
                  else Inr \<lparr>as_authenticated = True, as_setupRequired = False, as_user = Some (safeUser own),
                            as_session = Some session\<rparr>))"

text \<open>Housekeeping: the gate, and the microtask it schedules.\<close>

definition maybePruneExpiredSessions :: "service_options \<Rightarrow> int \<Rightarrow> auth_state \<Rightarrow> auth_state" where
  "maybePruneExpiredSessions opts now s =
     (if st_pruneScheduled s
         \<or> (case st_lastPruneAt s of None \<Rightarrow> False | Some t \<Rightarrow> now - t < so_pruneInterval opts) then s
      else s\<lparr>st_lastPruneAt := Some now, st_pruneScheduled := True, st_microtasks := st_microtasks s @ [now]\<rparr>)"

definition pruneMicrotask :: "turn \<Rightarrow> int \<Rightarrow> auth_state \<Rightarrow> auth_state" where
  "pruneMicrotask tn now s =
     (let s' = s\<lparr>st_microtasks := remove1 now (st_microtasks s), st_pruneScheduled := False\<rparr> in
      if tn_writeFails tn then s' else s'\<lparr>st_db := snd (deleteExpiredSessions now (st_db s'))\<rparr>)"

definition maintainAuthenticatedSession ::
  "service_options \<Rightarrow> turn \<Rightarrow> session_row \<Rightarrow> auth_state \<Rightarrow> auth_state auth_res" where
  "maintainAuthenticatedSession opts tn session s =
     (let now = tn_now tn in
      if now - se_last_seen_at session \<ge> so_lastSeenInterval opts
      then if tn_writeFails tn then Inl StorageFault
           else case touchSessionLastSeen (se_id session) now (so_lastSeenInterval opts) (st_db s) of
             None \<Rightarrow> Inl StorageFault
           | Some (touched, db) \<Rightarrow>
               if \<not> touched then Inl StorageFault
               else Inr (maybePruneExpiredSessions opts now (s\<lparr>st_db := db\<rparr>))
      else Inr (maybePruneExpiredSessions opts now s))"

section \<open>Setup\<close>

record pending_setup =
  ps_username :: ustr
  ps_work :: kdf_work

definition setupBegin ::
  "runtime \<Rightarrow> turn \<Rightarrow> jval \<Rightarrow> jval \<Rightarrow> jval \<Rightarrow> auth_state \<Rightarrow> pending_setup auth_res \<times> auth_state" where
  "setupBegin rt tn bootstrapToken usernameValue passwordValue s =
     (case ownerExists tn s of
        Inl e \<Rightarrow> (Inl e, s)
      | Inr exists \<Rightarrow>
          if exists then (Inl (AuthServiceError AlreadyInitialized 409 None), s)
          else let retry = retryAfter (js ''setup'') (tn_now tn) (st_setupLimiter s) in
          if retry > 0 then (Inl (retryAfterError retry), s)
          else case (usernameValue, passwordValue) of
            (JStr username0, JStr password) \<Rightarrow>
              (case bindR (normalizeUsername rt username0) (\<lambda>u. bindR (validatePassword password) (\<lambda>_. Inr u)) of
                 Inl _ \<Rightarrow> (Inl (AuthServiceError ValidationError 400 None), s)
               | Inr username \<Rightarrow>
                   if \<not> verifyBootstrap rt bootstrapToken (st_bootstrap s)
                   then let (failure, l) = recordFailure (js ''setup'') (tn_sysNow tn) (st_setupLimiter s) in
                     (Inl (if fr_retryAfterMs failure > 0 then retryAfterError (fr_retryAfterMs failure)
                           else AuthServiceError BootstrapInvalid 401 None), s\<lparr>st_setupLimiter := l\<rparr>)
                   else case hashPassword (tn_salt tn) password of
                     Inl _ \<Rightarrow> (Inl (kdfUnavailable None), s)
                   | Inr work \<Rightarrow> (Inr \<lparr>ps_username = username, ps_work = work\<rparr>, s))
          | _ \<Rightarrow> (Inl (AuthServiceError ValidationError 400 None), s))"

text \<open>
  The owner transaction. \<open>Inl (Some e)\<close> for an AuthServiceError thrown in it, \<open>Inl None\<close> for any other
  error; SQLite rolls both back.
\<close>

definition ownerTransaction ::
  "turn \<Rightarrow> ustr \<Rightarrow> ustr \<Rightarrow> int \<Rightarrow> auth_db \<Rightarrow> auth_error option + (user_row \<times> auth_db)" where
  "ownerTransaction tn username passwordHash now db =
     (if tn_readFails tn \<or> tn_writeFails tn then Inl None
      else if ownerOf db \<noteq> None then Inl (Some (AuthServiceError AlreadyInitialized 409 None))
      else case insertUser username passwordHash now db of
        None \<Rightarrow> Inl None
      | Some (userId, db1) \<Rightarrow>
          (case insertInstance userId now db1 of
             None \<Rightarrow> Inl None
           | Some db2 \<Rightarrow> (case ownerOf db2 of None \<Rightarrow> Inl None | Some created \<Rightarrow> Inr (created, db2))))"

definition setupFinish ::
  "runtime \<Rightarrow> turn \<Rightarrow> pending_setup \<Rightarrow> kdf_answer \<Rightarrow> auth_state \<Rightarrow> (safe_user \<times> created_session) auth_res \<times> auth_state" where
  "setupFinish rt tn p answer s =
     (case answer of
        Refused e \<Rightarrow> (Inl (kdfUnavailable (Some e)), s)
      | KdfFault \<Rightarrow> (Inl (kdfUnavailable None), s)
      | Derived derivedKey \<Rightarrow>
          let passwordHash = hashDerived (ps_work p) derivedKey; now = tn_now tn in
          case ownerTransaction tn (ps_username p) passwordHash now (st_db s) of
            Inl (Some e) \<Rightarrow> (Inl e, s)
          | Inl None \<Rightarrow>
              (case ownerRow tn (st_db s) of
                 Inl e \<Rightarrow> (Inl e, s)
               | Inr (Some _) \<Rightarrow> (Inl (AuthServiceError AlreadyInitialized 409 None), s)
               | Inr None \<Rightarrow> (Inl (AuthServiceError AuthUnavailable 500 None), s))
          | Inr (owner, db) \<Rightarrow>
              let s' = s\<lparr>st_db := db, st_bootstrap := markOwnerCommitted (st_bootstrap s),
                         st_setupLimiter := reset (js ''setup'') (st_setupLimiter s)\<rparr>
              in case (if tn_sessionFails tn then None else createSession rt (tn_token tn) (us_id owner) now db) of
                   None \<Rightarrow> (Inl (AuthServiceError AuthUnavailable 500 None), s')
                 | Some (session, db') \<Rightarrow> (Inr (safeUser owner, session), s'\<lparr>st_db := db'\<rparr>))"

section \<open>Login\<close>

record pending_login =
  pl_normalized :: "ustr option"
  pl_candidate :: "user_row option"
  pl_verification :: "(kdf_work \<times> parsed_hash) option"

definition loginBegin ::
  "runtime \<Rightarrow> service_options \<Rightarrow> turn \<Rightarrow> jval \<Rightarrow> jval \<Rightarrow> auth_state \<Rightarrow> pending_login auth_res \<times> auth_state" where
  "loginBegin rt opts tn usernameValue passwordValue s =
     (case (usernameValue, passwordValue) of
        (JStr username, JStr password) \<Rightarrow>
          (let normalized = (case normalizeUsername rt username of Inl _ \<Rightarrow> None | Inr n \<Rightarrow> Some n) in
           if \<not> isValidPassword password
           then let (e, l) = throwLoginFailure normalized (tn_sysNow tn) (st_loginLimiter s) in
                (Inl e, s\<lparr>st_loginLimiter := l\<rparr>)
           else case ownerRow tn (st_db s) of
             Inl e \<Rightarrow> (Inl e, s)
           | Inr owner \<Rightarrow>
               let candidate = (case owner of
                     Some own \<Rightarrow> if Some (us_username_normalized own) = normalized then Some own else None
                   | None \<Rightarrow> None)
               in (Inr \<lparr>pl_normalized = normalized, pl_candidate = candidate,
                        pl_verification = verifyPassword password
                          (case candidate of Some c \<Rightarrow> us_password_hash c | None \<Rightarrow> so_dummyPasswordHash opts)\<rparr>, s))
      | _ \<Rightarrow> (Inl (AuthServiceError ValidationError 400 None), s))"

text \<open>The awaited boolean of \<open>verifyPassword\<close>; the answer counts only when work was scheduled.\<close>

definition verifiedBy :: "pending_login \<Rightarrow> kdf_answer \<Rightarrow> auth_error + bool" where
  "verifiedBy p answer =
     (case pl_verification p of
        None \<Rightarrow> Inr False
      | Some (_, parsed) \<Rightarrow>
          (case answer of
             Derived k \<Rightarrow> Inr (verifyDerived parsed k)
           | Refused e \<Rightarrow> Inl (kdfUnavailable (Some e))
           | KdfFault \<Rightarrow> Inl (kdfUnavailable None)))"

definition loginFinish ::
  "runtime \<Rightarrow> turn \<Rightarrow> pending_login \<Rightarrow> kdf_answer \<Rightarrow> auth_state \<Rightarrow> (safe_user \<times> created_session) auth_res \<times> auth_state" where
  "loginFinish rt tn p answer s =
     (case verifiedBy p answer of
        Inl e \<Rightarrow> (Inl e, s)
      | Inr verified \<Rightarrow>
          (case pl_candidate p of
             Some candidate \<Rightarrow>
               if \<not> verified \<or> us_disabled candidate
               then let (e, l) = throwLoginFailure (pl_normalized p) (tn_sysNow tn) (st_loginLimiter s) in
                    (Inl e, s\<lparr>st_loginLimiter := l\<rparr>)
               else let s' = s\<lparr>st_loginLimiter := reset (the (pl_normalized p)) (st_loginLimiter s)\<rparr> in
                 if tn_writeFails tn \<or> tn_sessionFails tn then (Inl (AuthServiceError AuthUnavailable 500 None), s')
                 else (case createSession rt (tn_token tn) (us_id candidate) (tn_now tn) (st_db s) of
                         None \<Rightarrow> (Inl (AuthServiceError AuthUnavailable 500 None), s')
                       | Some (session, db) \<Rightarrow> (Inr (safeUser candidate, session), s'\<lparr>st_db := db\<rparr>))
           | None \<Rightarrow>
               let (e, l) = throwLoginFailure (pl_normalized p) (tn_sysNow tn) (st_loginLimiter s) in
               (Inl e, s\<lparr>st_loginLimiter := l\<rparr>)))"

definition logout :: "runtime \<Rightarrow> turn \<Rightarrow> ustr option \<Rightarrow> auth_state \<Rightarrow> unit auth_res \<times> auth_state" where
  "logout rt tn rawToken s =
     (case rawToken of
        None \<Rightarrow> (Inr (), s)
      | Some raw \<Rightarrow>
          if raw = [] then (Inr (), s)
          else if tn_readFails tn then (Inl StorageFault, s)
          else let lookup = findSessionByRawToken rt raw (tn_now tn) (st_db s) in
            if lk_session lookup \<noteq> None \<and> lk_status lookup \<noteq> Revoked
            then if tn_writeFails tn then (Inl StorageFault, s)
                 else (Inr (), s\<lparr>st_db := snd (revokeSession rt raw (tn_now tn) (st_db s))\<rparr>)
            else (Inr (), s))"

section \<open>The start of the runtime\<close>

definition setupLimiterOptions :: "limiter_options \<Rightarrow> limiter_options" where
  "setupLimiterOptions opts =
     \<lparr>lo_windowMs = Some (min (case_option SETUP_FAILURE_WINDOW_MS id (lo_windowMs opts)) SETUP_FAILURE_WINDOW_MS),
      lo_threshold = Some (min (case_option SETUP_FAILURE_THRESHOLD id (lo_threshold opts)) SETUP_FAILURE_THRESHOLD),
      lo_maxDelayMs = Some (min (case_option SETUP_MAX_DELAY_MS id (lo_maxDelayMs opts)) SETUP_MAX_DELAY_MS),
      lo_maxBuckets = Some (min (case_option SETUP_MAX_BUCKETS id (lo_maxBuckets opts)) SETUP_MAX_BUCKETS),
      lo_baseRetryMs = Some (min (case_option SETUP_BASE_RETRY_MS id (lo_baseRetryMs opts)) SETUP_MAX_DELAY_MS)\<rparr>"

text \<open>\<open>None\<close> for a RangeError of the setup token or of a limiter.\<close>

definition createAuthRuntime ::
  "auth_config \<Rightarrow> ustr option \<Rightarrow> limiter_options \<Rightarrow> nat list \<Rightarrow> int \<Rightarrow> auth_db \<Rightarrow> auth_state option" where
  "createAuthRuntime config setupToken opts bytes now db =
     Option.bind (createBootstrap setupToken bytes db) (\<lambda>(bootstrap, _).
     Option.bind (AuthRateLimiter opts) (\<lambda>loginLimiter.
     Option.bind (AuthRateLimiter (setupLimiterOptions opts)) (\<lambda>setupLimiter.
     Some \<lparr>st_db = (if cf_revokeSessionsOnStart config then snd (revokeEverySession now db) else db),
           st_bootstrap = bootstrap, st_loginLimiter = loginLimiter, st_setupLimiter = setupLimiter,
           st_lastPruneAt = None, st_pruneScheduled = False, st_microtasks = []\<rparr>)))"

lemmas [service_defs] = ownerRow_def ownerExists_def status_def maybePruneExpiredSessions_def pruneMicrotask_def
  maintainAuthenticatedSession_def setupBegin_def ownerTransaction_def setupFinish_def loginBegin_def verifiedBy_def
  loginFinish_def logout_def throwLoginFailure_def

end
