(* ===== verification/AuthRoutes.thy ===== *)
theory AuthRoutes
  imports AuthService
begin

text \<open>
  The HTTP side of authentication: the boundary before every route of the application
  (server/auth/middleware.ts) and the four routes of server/auth/routes.ts. A request carries its method,
  path, headers, cookies, its body as \<open>c.req.json()\<close> resolves it (\<open>None\<close> when it rejects) and whether Hono's
  body limit refuses it. A reply has its status, its error code or its payload, the cookie it sets or
  clears, and the session whose diary capability it invalidates; message texts are not modelled, and every
  reply is \<open>no-store\<close>. The runtime is \<open>None\<close> until the server installed it.

  The setup and login routes wait twice, for the body and for the KDF; \<open>waiting\<close> says for what. The wait
  for the diary service in a logout is no scheduling point of its own: what follows reads everything again.
\<close>

section \<open>Requests and replies\<close>

record http_request =
  rq_method :: ustr
  rq_path :: ustr
  rq_headers :: headers
  rq_cookies :: "(ustr \<times> ustr) list"
  rq_body :: "jval option"
  rq_tooLarge :: bool

datatype reply_body =
    ErrorBody ustr
  | StatusBody bool bool "safe_user option"
  | SignedIn safe_user
  | NoBody

record session_cookie =
  sc_name :: ustr
  sc_value :: ustr
  sc_maxAge :: int
  sc_expires :: int

record auth_reply =
  ar_status :: int
  ar_body :: reply_body
  ar_retryAfter :: "int option"
  ar_cookie :: "session_cookie option"
  ar_clearCookies :: bool
  ar_invalidated :: "int option"

definition plainReply :: "int \<Rightarrow> reply_body \<Rightarrow> auth_reply" where
  "plainReply st body = \<lparr>ar_status = st, ar_body = body, ar_retryAfter = None, ar_cookie = None, ar_clearCookies = False,
     ar_invalidated = None\<rparr>"

definition jsonError :: "int \<Rightarrow> string \<Rightarrow> int option \<Rightarrow> auth_reply" where
  "jsonError st c retryAfterMs =
     (plainReply st (ErrorBody (js c)))
       \<lparr>ar_retryAfter := map_option (\<lambda>ms. max 1 ((ms + 999) div 1000)) retryAfterMs\<rparr>"

definition unavailable :: auth_reply where
  "unavailable = jsonError 503 ''auth-unavailable'' None"

primrec authCodeText :: "auth_code \<Rightarrow> string" where
  "authCodeText ValidationError = ''validation-error''"
| "authCodeText BootstrapInvalid = ''bootstrap-invalid''"
| "authCodeText AlreadyInitialized = ''already-initialized''"
| "authCodeText InvalidCredentials = ''invalid-credentials''"
| "authCodeText AuthRateLimited = ''auth-rate-limited''"
| "authCodeText AuthUnavailable = ''auth-unavailable''"

primrec authErrorReply :: "auth_error \<Rightarrow> auth_reply" where
  "authErrorReply (AuthServiceError c st retry) = jsonError st (authCodeText c) retry"
| "authErrorReply StorageFault = jsonError 500 ''auth-unavailable'' None"

primrec csrfReply :: "csrf_failure \<Rightarrow> auth_reply" where
  "csrfReply CsrfOriginMismatch = jsonError 403 ''csrf-origin-mismatch'' None"
| "csrfReply CsrfCrossSite = jsonError 403 ''csrf-cross-site'' None"
| "csrfReply InvalidContentType = jsonError 415 ''invalid-content-type'' None"

section \<open>The boundary\<close>

definition PUBLIC_ENDPOINTS :: "ustr list" where
  "PUBLIC_ENDPOINTS = [js ''GET /api/health'', js ''GET /api/auth/status'', js ''POST /api/auth/setup'',
     js ''POST /api/auth/login'', js ''POST /api/auth/logout'']"

definition isPublicEndpoint :: "ustr \<Rightarrow> ustr \<Rightarrow> bool" where
  "isPublicEndpoint m p \<longleftrightarrow> method_upper m @ js '' '' @ p \<in> set PUBLIC_ENDPOINTS"

text \<open>Node's HTTP parser lets only a run of digits through as Content-Length.\<close>

definition requestHasBody :: "headers \<Rightarrow> bool" where
  "requestHasBody h =
     (case map_of h (js ''content-length'') of
        Some t \<Rightarrow> if t \<noteq> [] \<and> list_all is_digit t then digits_val t > 0
                  else map_of h (js ''transfer-encoding'') \<noteq> None
      | None \<Rightarrow> map_of h (js ''transfer-encoding'') \<noteq> None)"

definition requiresJsonBody :: "ustr \<Rightarrow> ustr \<Rightarrow> bool" where
  "requiresJsonBody m p \<longleftrightarrow>
     \<not> (m = js ''PUT'' \<and> take 12 p = js ''/api/assets/'' \<and> drop 12 p \<noteq> [] \<and> 47 \<notin> set (drop 12 p)
        \<or> m = js ''POST'' \<and> p = js ''/api/note/images'')"

datatype boundary_result = Respond auth_reply | Proceed "(safe_user \<times> int) option"

text \<open>The checks of a mutation after the session was accepted.\<close>

definition mutationChecks :: "auth_config \<Rightarrow> ustr \<Rightarrow> http_request \<Rightarrow> auth_reply option" where
  "mutationChecks config m rq =
     (if \<not> isUnsafeMethod m then None
      else case checkCsrfHeaders (rq_headers rq) m config of
        Inl e \<Rightarrow> Some (csrfReply e)
      | Inr _ \<Rightarrow>
          if m = js ''POST'' \<and> rq_path rq = js ''/api/note/images''
             \<and> case_option [] id (map_of (rq_headers rq) (js ''origin'')) \<notin> set (cf_allowedOrigins config)
          then Some (csrfReply CsrfOriginMismatch)
          else if requestHasBody (rq_headers rq) \<and> requiresJsonBody m (rq_path rq)
          then (case checkJsonContentType (rq_headers rq) of Inl e \<Rightarrow> Some (csrfReply e) | Inr _ \<Rightarrow> None)
          else None)"

definition authBoundary ::
  "runtime \<Rightarrow> auth_config \<Rightarrow> turn \<Rightarrow> http_request \<Rightarrow> auth_state option \<Rightarrow> boundary_result \<times> auth_state option" where
  "authBoundary rt config tn rq installed =
     (let m = method_upper (rq_method rq) in
      if isPublicEndpoint m (rq_path rq) then (Proceed None, installed)
      else case installed of
        None \<Rightarrow> (Respond unavailable, installed)
      | Some s \<Rightarrow>
          (case status rt tn (selectSessionToken (rq_cookies rq) config) s of
             Inl _ \<Rightarrow> (Respond unavailable, installed)
           | Inr st \<Rightarrow>
               (case (as_authenticated st, as_user st) of
                  (True, Some user) \<Rightarrow>
                    (case as_session st of
                       None \<Rightarrow> (Respond unavailable, installed)
                     | Some session \<Rightarrow>
                         (case (lk_status session, lk_session session) of
                            (Valid, Some row) \<Rightarrow>
                              (case maintainAuthenticatedSession (serviceOptions config) tn row s of
                                 Inl _ \<Rightarrow> (Respond unavailable, installed)
                               | Inr s' \<Rightarrow>
                                   (case mutationChecks config m rq of
                                      Some reply \<Rightarrow> (Respond reply, Some s')
                                    | None \<Rightarrow> (Proceed (Some (user, se_id row)), Some s')))
                          | _ \<Rightarrow> (Respond unavailable, installed)))
                | _ \<Rightarrow>
                    (Respond ((jsonError 401 ''auth-session-required'' None)
                       \<lparr>ar_invalidated := Option.bind (as_session st) (\<lambda>l. map_option se_id (lk_session l))\<rparr>), installed))))"

section \<open>The routes\<close>

definition AUTH_REQUEST_BODY_MAX_BYTES :: int where "AUTH_REQUEST_BODY_MAX_BYTES = 16 * 1024"

definition parseObject :: "jval option \<Rightarrow> jobj option" where
  "parseObject body = (case body of Some (JObj props) \<Rightarrow> Some props | _ \<Rightarrow> None)"

definition sessionCookie :: "auth_config \<Rightarrow> ustr \<Rightarrow> int \<Rightarrow> session_cookie" where
  "sessionCookie config rawToken expiresAt =
     \<lparr>sc_name = ck_name (cf_cookie config), sc_value = rawToken, sc_maxAge = SESSION_LIFETIME_MS div 1000, sc_expires = expiresAt\<rparr>"

definition csrfError :: "auth_config \<Rightarrow> http_request \<Rightarrow> bool \<Rightarrow> auth_reply option" where
  "csrfError config rq requireJson =
     (case checkCsrfHeaders (rq_headers rq) (rq_method rq) config of
        Inl e \<Rightarrow> Some (csrfReply e)
      | Inr _ \<Rightarrow>
          if requireJson
          then (case checkJsonContentType (rq_headers rq) of Inl e \<Rightarrow> Some (csrfReply e) | Inr _ \<Rightarrow> None)
          else None)"

definition statusRoute :: "runtime \<Rightarrow> auth_config \<Rightarrow> turn \<Rightarrow> http_request \<Rightarrow> auth_state \<Rightarrow> auth_reply" where
  "statusRoute rt config tn rq s =
     (case status rt tn (selectSessionToken (rq_cookies rq) config) s of
        Inl _ \<Rightarrow> unavailable
      | Inr st \<Rightarrow>
          (case (as_authenticated st, as_user st) of
             (True, Some user) \<Rightarrow> plainReply 200 (StatusBody True False (Some user))
           | _ \<Rightarrow> plainReply 200 (StatusBody False (as_setupRequired st) None)))"

datatype waiting =
    SetupBody http_request
  | SetupKdf pending_setup
  | LoginBody http_request
  | LoginKdf pending_login

definition setupOpen :: "auth_config \<Rightarrow> turn \<Rightarrow> http_request \<Rightarrow> auth_state \<Rightarrow> auth_reply + waiting" where
  "setupOpen config tn rq s =
     (if rq_tooLarge rq then Inl (jsonError 413 ''auth-request-too-large'' None)
      else case csrfError config rq True of
        Some reply \<Rightarrow> Inl reply
      | None \<Rightarrow>
          (case ownerExists tn s of
             Inl _ \<Rightarrow> Inl unavailable
           | Inr True \<Rightarrow> Inl (jsonError 409 ''already-initialized'' None)
           | Inr False \<Rightarrow> Inr (SetupBody rq)))"

definition setupRead :: "runtime \<Rightarrow> turn \<Rightarrow> http_request \<Rightarrow> auth_state \<Rightarrow> (auth_reply + waiting) \<times> auth_state" where
  "setupRead rt tn rq s =
     (case parseObject (rq_body rq) of
        None \<Rightarrow> (Inl (jsonError 400 ''validation-error'' None), s)
      | Some body \<Rightarrow>
          (case setupBegin rt tn (jget body ''bootstrapToken'') (jget body ''username'') (jget body ''password'') s of
             (Inl e, s') \<Rightarrow> (Inl (authErrorReply e), s')
           | (Inr p, s') \<Rightarrow> (Inr (SetupKdf p), s')))"

definition signedIn :: "auth_config \<Rightarrow> int \<Rightarrow> (safe_user \<times> created_session) auth_res \<Rightarrow> auth_reply" where
  "signedIn config st result =
     (case result of
        Inl e \<Rightarrow> authErrorReply e
      | Inr (user, session) \<Rightarrow>
          (plainReply st (SignedIn user))
            \<lparr>ar_cookie := Some (sessionCookie config (cs_rawToken session) (se_expires_at (cs_session session)))\<rparr>)"

definition loginOpen :: "auth_config \<Rightarrow> http_request \<Rightarrow> auth_reply + waiting" where
  "loginOpen config rq =
     (if rq_tooLarge rq then Inl (jsonError 413 ''auth-request-too-large'' None)
      else case csrfError config rq True of Some reply \<Rightarrow> Inl reply | None \<Rightarrow> Inr (LoginBody rq))"

definition loginRead ::
  "runtime \<Rightarrow> auth_config \<Rightarrow> turn \<Rightarrow> http_request \<Rightarrow> auth_state \<Rightarrow> (auth_reply + waiting) \<times> auth_state" where
  "loginRead rt config tn rq s =
     (case parseObject (rq_body rq) of
        None \<Rightarrow> (Inl (jsonError 400 ''validation-error'' None), s)
      | Some body \<Rightarrow>
          (case loginBegin rt (serviceOptions config) tn (jget body ''username'') (jget body ''password'') s of
             (Inl e, s') \<Rightarrow> (Inl (authErrorReply e), s')
           | (Inr p, s') \<Rightarrow> (Inr (LoginKdf p), s')))"

definition resume ::
  "runtime \<Rightarrow> auth_config \<Rightarrow> turn \<Rightarrow> kdf_answer \<Rightarrow> waiting \<Rightarrow> auth_state \<Rightarrow> (auth_reply + waiting) \<times> auth_state" where
  "resume rt config tn answer w s =
     (case w of
        SetupBody rq \<Rightarrow> setupRead rt tn rq s
      | LoginBody rq \<Rightarrow> loginRead rt config tn rq s
      | SetupKdf p \<Rightarrow> (case setupFinish rt tn p answer s of (r, s') \<Rightarrow> (Inl (signedIn config 201 r), s'))
      | LoginKdf p \<Rightarrow> (case loginFinish rt tn p answer s of (r, s') \<Rightarrow> (Inl (signedIn config 200 r), s')))"

definition logoutRoute :: "runtime \<Rightarrow> auth_config \<Rightarrow> turn \<Rightarrow> http_request \<Rightarrow> auth_state \<Rightarrow> auth_reply \<times> auth_state" where
  "logoutRoute rt config tn rq s =
     (case csrfError config rq False of
        Some reply \<Rightarrow> (reply, s)
      | None \<Rightarrow>
          let rawToken = selectSessionToken (rq_cookies rq) config;
              sessionId = (case rawToken of
                 None \<Rightarrow> None
               | Some raw \<Rightarrow> if tn_readFails tn then None
                   else map_option se_id (lk_session (findSessionByRawToken rt raw (tn_sysNow tn) (st_db s))))
          in case logout rt tn rawToken s of
               (Inl _, s') \<Rightarrow> (unavailable\<lparr>ar_clearCookies := True, ar_invalidated := sessionId\<rparr>, s')
             | (Inr _, s') \<Rightarrow> ((plainReply 204 NoBody)\<lparr>ar_clearCookies := True, ar_invalidated := sessionId\<rparr>, s'))"

end
