(* ===== verification/AuthSystem.thy ===== *)
theory AuthSystem
  imports AuthRoutes
begin

text \<open>
  Authentication as a state machine. A system is the state of the runtime with the requests that wait for
  their body or for the KDF; a step is one turn of the event loop: a setup or login request is admitted or
  goes on after its wait, a logout, a request at the boundary, a housekeeping microtask. Turns of different
  requests interleave freely, with arbitrary clocks, random bytes and storage faults, and the KDF answers a
  wait with the derived key or with a refusal. The trace of a run lists what was resumed, latest first.
\<close>

section \<open>Steps\<close>

record auth_system =
  sy_state :: auth_state
  sy_waiting :: "waiting list"

text \<open>What the KDF may answer to a wait.\<close>

definition answers :: "(nat list \<Rightarrow> nat list \<Rightarrow> nat list) \<Rightarrow> waiting \<Rightarrow> kdf_answer \<Rightarrow> bool" where
  "answers scrypt w a \<longleftrightarrow> (case a of
       Derived k \<Rightarrow>
         (case w of
            SetupKdf p \<Rightarrow> k = deriveScrypt scrypt (ps_work p)
          | LoginKdf p \<Rightarrow> (case pl_verification p of None \<Rightarrow> True | Some (work, _) \<Rightarrow> k = deriveScrypt scrypt work)
          | _ \<Rightarrow> True)
     | _ \<Rightarrow> True)"

definition wait_next :: "auth_reply + waiting \<Rightarrow> waiting list \<Rightarrow> waiting list" where
  "wait_next r ws = (case r of Inl _ \<Rightarrow> ws | Inr w \<Rightarrow> ws @ [w])"

inductive auth_step ::
  "runtime \<Rightarrow> auth_config \<Rightarrow> (nat list \<Rightarrow> nat list \<Rightarrow> nat list) \<Rightarrow> auth_system \<Rightarrow> waiting list \<Rightarrow> auth_system \<Rightarrow> bool"
  for rt config scrypt where
  OpenSetup: "auth_step rt config scrypt y [] (y\<lparr>sy_waiting := wait_next (setupOpen config tn rq (sy_state y)) (sy_waiting y)\<rparr>)"
| OpenLogin: "auth_step rt config scrypt y [] (y\<lparr>sy_waiting := wait_next (loginOpen config rq) (sy_waiting y)\<rparr>)"
| Resume: "w \<in> set (sy_waiting y) \<Longrightarrow> answers scrypt w a \<Longrightarrow> resume rt config tn a w (sy_state y) = (r, s) \<Longrightarrow>
    auth_step rt config scrypt y [w] \<lparr>sy_state = s, sy_waiting = wait_next r (remove1 w (sy_waiting y))\<rparr>"
| Logout: "auth_step rt config scrypt y [] (y\<lparr>sy_state := snd (logoutRoute rt config tn rq (sy_state y))\<rparr>)"
| Boundary: "authBoundary rt config tn rq (Some (sy_state y)) = (r, Some s) \<Longrightarrow> auth_step rt config scrypt y [] (y\<lparr>sy_state := s\<rparr>)"
| Housekeeping: "now \<in> set (st_microtasks (sy_state y)) \<Longrightarrow>
    auth_step rt config scrypt y [] (y\<lparr>sy_state := pruneMicrotask tn now (sy_state y)\<rparr>)"

inductive auth_run ::
  "runtime \<Rightarrow> auth_config \<Rightarrow> (nat list \<Rightarrow> nat list \<Rightarrow> nat list) \<Rightarrow> auth_system \<Rightarrow> waiting list \<Rightarrow> auth_system \<Rightarrow> bool"
  for rt config scrypt where
  Start: "auth_run rt config scrypt y [] y"
| Turn: "auth_run rt config scrypt y evs z \<Longrightarrow> auth_step rt config scrypt z new x \<Longrightarrow> auth_run rt config scrypt y (new @ evs) x"

abbreviation tables :: "auth_system \<Rightarrow> auth_db" where
  "tables y \<equiv> st_db (sy_state y)"

section \<open>What the operations keep\<close>

text \<open>The state moves on: the tables evolve, and the setup token stays or is dropped with the owner commit.\<close>

definition bootstrap_ok :: "auth_state \<Rightarrow> bool" where
  "bootstrap_ok s \<longleftrightarrow> bs_closed (st_bootstrap s) = (bs_token (st_bootstrap s) = None)
     \<and> (bs_token (st_bootstrap s) = None) = (au_instance (st_db s) \<noteq> None)"

definition state_ok :: "auth_state \<Rightarrow> bool" where
  "state_ok s \<longleftrightarrow> auth_db_ok (st_db s) \<and> bootstrap_ok s"

definition moves :: "auth_state \<Rightarrow> auth_state \<Rightarrow> bool" where
  "moves s s' \<longleftrightarrow> evolves (st_db s) (st_db s') \<and> (state_ok s \<longrightarrow> state_ok s')
     \<and> (bs_token (st_bootstrap s') = bs_token (st_bootstrap s) \<or> bs_token (st_bootstrap s') = None)"

text \<open>A step that touches neither the owner nor the setup token and opens no session.\<close>

definition quiet :: "auth_state \<Rightarrow> auth_state \<Rightarrow> bool" where
  "quiet s s' \<longleftrightarrow> evolves (st_db s) (st_db s') \<and> (auth_db_ok (st_db s) \<longrightarrow> auth_db_ok (st_db s'))
     \<and> au_instance (st_db s') = au_instance (st_db s) \<and> au_users (st_db s') = au_users (st_db s)
     \<and> au_session_seq (st_db s') = au_session_seq (st_db s) \<and> st_bootstrap s' = st_bootstrap s"

lemma moves_refl [simp]: "moves s s"
  by (simp add: moves_def)

lemma moves_trans: "moves a b \<Longrightarrow> moves b c \<Longrightarrow> moves a c"
  by (auto simp: moves_def intro: evolves_trans)

lemma quiet_moves: "quiet s s' \<Longrightarrow> moves s s'"
  by (auto simp: quiet_def moves_def state_ok_def bootstrap_ok_def)

lemma quiet_same: "st_db s' = st_db s \<Longrightarrow> st_bootstrap s' = st_bootstrap s \<Longrightarrow> quiet s s'"
  by (simp add: quiet_def)

lemma quiet_trans: "quiet a b \<Longrightarrow> quiet b c \<Longrightarrow> quiet a c"
  by (auto simp: quiet_def intro: evolves_trans)

lemma quiet_tables:
  assumes "evolves (st_db s) db \<and> (auth_db_ok (st_db s) \<longrightarrow> auth_db_ok db)" "au_instance db = au_instance (st_db s)" "au_users db = au_users (st_db s)"
    and "au_session_seq db = au_session_seq (st_db s)" "st_db s' = db" "st_bootstrap s' = st_bootstrap s"
  shows "quiet s s'"
  using assms by (simp add: quiet_def)

lemma session_tables [simp]:
  "au_instance (snd (updateSessions p f db)) = au_instance db" "au_users (snd (updateSessions p f db)) = au_users db"
  "au_instance (snd (deleteExpiredSessions now db)) = au_instance db" "au_users (snd (deleteExpiredSessions now db)) = au_users db"
  "au_instance (snd (revokeSession rt raw now db)) = au_instance db" "au_users (snd (revokeSession rt raw now db)) = au_users db"
  "au_session_seq (snd (updateSessions p f db)) = au_session_seq db" "au_session_seq (snd (deleteExpiredSessions now db)) = au_session_seq db"
  "au_session_seq (snd (revokeSession rt raw now db)) = au_session_seq db"
  by (simp_all add: updateSessions_def deleteExpiredSessions_def revokeSession_def Let_def)

lemma touch_tables:
  "touchSessionLastSeen i now interval db = Some (b, db') \<Longrightarrow> au_instance db' = au_instance db \<and> au_users db' = au_users db
    \<and> au_session_seq db' = au_session_seq db"
  by (auto simp: touchSessionLastSeen_def updateSessions_def split: if_splits)

lemma prune_quiet: "quiet s (maybePruneExpiredSessions opts now s)"
  by (rule quiet_same) (simp_all add: maybePruneExpiredSessions_def)

lemma maintain_quiet:
  assumes "maintainAuthenticatedSession opts tn row s = Inr s'"
  shows "quiet s s'"
proof (cases "tn_now tn - se_last_seen_at row \<ge> so_lastSeenInterval opts")
  case True
  with assms obtain db where t: "touchSessionLastSeen (se_id row) (tn_now tn) (so_lastSeenInterval opts) (st_db s) = Some (True, db)"
    and s': "s' = maybePruneExpiredSessions opts (tn_now tn) (s\<lparr>st_db := db\<rparr>)"
    by (auto simp: maintainAuthenticatedSession_def Let_def split: if_splits option.splits)
  have "quiet s (s\<lparr>st_db := db\<rparr>)"
    by (rule quiet_tables [OF touch_kept [OF t]]) (use touch_tables [OF t] in simp_all)
  then show ?thesis unfolding s' by (rule quiet_trans) (rule prune_quiet)
next
  case False
  with assms show ?thesis by (auto simp: maintainAuthenticatedSession_def Let_def prune_quiet)
qed

lemma boundary_quiet:
  assumes "authBoundary rt config tn rq (Some s) = (r, Some s')"
  shows "quiet s s'"
proof -
  have "s' = s \<or> (\<exists>row. maintainAuthenticatedSession (serviceOptions config) tn row s = Inr s')"
    using assms by (auto simp: authBoundary_def Let_def split: if_splits sum.splits option.splits bool.splits session_status.splits)
  then show ?thesis using maintain_quiet quiet_same by blast
qed

lemma logout_quiet: "quiet s (snd (logoutRoute rt config tn rq s))"
proof -
  have "quiet s (snd (logout rt tn raw s))" for raw
    by (auto simp: logout_def Let_def quiet_same split: option.splits
        intro!: quiet_tables [OF revokeSession_kept])
  then show ?thesis by (auto simp: logoutRoute_def Let_def quiet_same split: option.splits prod.splits sum.splits) (metis snd_conv)+
qed

lemma microtask_quiet: "quiet s (pruneMicrotask tn now s)"
  by (auto simp: pruneMicrotask_def Let_def quiet_same intro!: quiet_tables [OF deleteExpired_kept])

section \<open>Setup and login\<close>

lemma setupBegin_result:
  assumes "setupBegin rt tn t u pw s = (r, s')"
  shows "quiet s s' \<and> st_db s' = st_db s \<and> (\<forall>p. r = Inr p \<longrightarrow> (\<exists>name password token tok.
      u = JStr name \<and> pw = JStr password \<and> t = JStr token \<and> bs_token (st_bootstrap s) = Some tok
    \<and> rt_sha256 rt tok = rt_sha256 rt token \<and> normalizeUsername rt name = Inr (ps_username p)
    \<and> isValidPassword password \<and> ps_work p = \<lparr>kw_password = password, kw_salt = tn_salt tn\<rparr>))"
proof (cases "ownerExists tn s = Inr False \<and> retryAfter (js ''setup'') (tn_now tn) (st_setupLimiter s) \<le> 0
    \<and> (\<exists>name password. u = JStr name \<and> pw = JStr password)")
  case False
  with assms have "s' = s" "\<forall>p. r \<noteq> Inr p"
    by (auto simp: setupBegin_def Let_def split: sum.splits if_splits jval.splits)
  then show ?thesis by (simp add: quiet_same)
next
  case True
  then obtain name password where v: "u = JStr name" "pw = JStr password" by blast
  show ?thesis
  proof (cases "bindR (normalizeUsername rt name) (\<lambda>u. bindR (validatePassword password) (\<lambda>_. Inr u))")
    case (Inl e)
    with True v assms have "s' = s" "\<forall>p. r \<noteq> Inr p" by (auto simp: setupBegin_def Let_def)
    then show ?thesis by (simp add: quiet_same)
  next
    case (Inr n)
    then have n: "normalizeUsername rt name = Inr n" "validatePassword password = Inr ()" by (auto simp: bindR_eq_Inr)
    show ?thesis
    proof (cases "verifyBootstrap rt t (st_bootstrap s)")
      case False
      with True v Inr assms show ?thesis
        by (auto simp: setupBegin_def Let_def quiet_same split: prod.splits)
    next
      case verified: True
      then have "\<exists>token tok. t = JStr token \<and> bs_token (st_bootstrap s) = Some tok \<and> rt_sha256 rt tok = rt_sha256 rt token"
        by (auto simp: verifyBootstrap_def split: jval.splits option.splits)
      with True verified v Inr n assms show ?thesis
        by (auto simp: setupBegin_def Let_def hashPassword_def isValidPassword_def quiet_same)
    qed
  qed
qed

text \<open>The commit of the owner, with or without the session after it.\<close>

definition owner_committed :: "turn \<Rightarrow> pending_setup \<Rightarrow> nat list \<Rightarrow> auth_db \<Rightarrow> user_row \<Rightarrow> auth_db \<Rightarrow> bool" where
  "owner_committed tn p k db own db' \<longleftrightarrow>
     ownerOf db = None \<and> ownerOf db' = Some own \<and> evolves db db' \<and> (auth_db_ok db \<longrightarrow> auth_db_ok db')
   \<and> au_sessions db' = au_sessions db \<and> au_session_seq db' = au_session_seq db \<and> au_instance db' \<noteq> None
   \<and> us_username own = ps_username p \<and> us_username_normalized own = ps_username p
   \<and> us_password_hash own = hashDerived (ps_work p) k \<and> \<not> us_disabled own"

lemma ownerTransaction_result:
  assumes "ownerTransaction tn (ps_username p) (hashDerived (ps_work p) k) now db = Inr (own, db')" "auth_db_ok db"
  shows "owner_committed tn p k db own db' \<and> au_instance db = None"
proof -
  from assms(1) obtain i db1 where o: "ownerOf db = None"
      "insertUser (ps_username p) (hashDerived (ps_work p) k) now db = Some (i, db1)"
      "insertInstance i now db1 = Some db'" "ownerOf db' = Some own"
    by (auto simp: ownerTransaction_def split: if_splits option.splits)
  note k = insertOwner_kept [OF o(2,3) assms(2)]
  then obtain u where u: "au_users db' = au_users db @ [u]" "us_id u = i" "us_username u = ps_username p"
      "us_username_normalized u = ps_username p" "us_password_hash u = hashDerived (ps_work p) k" "\<not> us_disabled u"
      "auth_db_ok db'" "au_instance db' = Some \<lparr>in_owner_user_id = i, in_created_at = now, in_updated_at = now\<rparr>"
    by blast
  have "lookup_by us_id i (au_users db') = Some u"
    using lookup_by_mem [of us_id "au_users db'" u] u(1,2,7) by (simp add: auth_db_ok_def)
  with o(4) u(8) have "own = u" by (simp add: ownerOf_def)
  with k u o(1,4) show ?thesis by (simp add: owner_committed_def)
qed

lemma setupFinish_result:
  assumes "setupFinish rt tn p a s = (r, s')" "state_ok s"
  shows "moves s s' \<and> (s' = s \<and> (\<forall>x. r \<noteq> Inr x)
    \<or> (\<exists>k own db. a = Derived k \<and> owner_committed tn p k (st_db s) own db \<and> bs_token (st_bootstrap s') = None
        \<and> (st_db s' = db \<and> (\<forall>x. r \<noteq> Inr x)
           \<or> (\<exists>c. createSession rt (tn_token tn) (us_id own) (tn_now tn) db = Some (c, st_db s') \<and> r = Inr (safeUser own, c)))))"
proof (cases "\<exists>k own db. a = Derived k
    \<and> ownerTransaction tn (ps_username p) (hashDerived (ps_work p) k) (tn_now tn) (st_db s) = Inr (own, db)")
  case False
  then have "s' = s \<and> (\<forall>x. r \<noteq> Inr x)"
    using assms(1) by (auto simp: setupFinish_def Let_def split: kdf_answer.splits sum.splits option.splits)
  then show ?thesis by simp
next
  case True
  then obtain k own db where a: "a = Derived k"
    and o: "ownerTransaction tn (ps_username p) (hashDerived (ps_work p) k) (tn_now tn) (st_db s) = Inr (own, db)" by blast
  have ok: "auth_db_ok (st_db s)" using assms(2) by (simp add: state_ok_def)
  note c = ownerTransaction_result [OF o ok]
  let ?session = "if tn_sessionFails tn then None else createSession rt (tn_token tn) (us_id own) (tn_now tn) db"
  have b: "st_bootstrap s' = markOwnerCommitted (st_bootstrap s)"
    and d: "?session = None \<and> st_db s' = db \<and> (\<forall>x. r \<noteq> Inr x)
      \<or> (\<exists>c. ?session = Some (c, st_db s') \<and> r = Inr (safeUser own, c))"
    using assms(1) o by (auto simp: setupFinish_def Let_def a split: option.splits prod.splits)
  have "evolves db (st_db s') \<and> (auth_db_ok db \<longrightarrow> auth_db_ok (st_db s')) \<and> au_instance (st_db s') = au_instance db"
    using d createSession_kept [of rt "tn_token tn" "us_id own" "tn_now tn" db] by (auto split: if_splits)
  then have "moves s s'" using c ok b
    by (auto simp: moves_def owner_committed_def state_ok_def bootstrap_ok_def markOwnerCommitted_def intro: evolves_trans)
  moreover have "bs_token (st_bootstrap s') = None" by (simp add: b markOwnerCommitted_def)
  ultimately show ?thesis using a c d by (auto split: if_splits)
qed

text \<open>A pending login tells which owner and password it is about.\<close>

definition login_for :: "runtime \<Rightarrow> service_options \<Rightarrow> auth_db \<Rightarrow> jval \<Rightarrow> jval \<Rightarrow> pending_login \<Rightarrow> bool" where
  "login_for rt opts db u pw p \<longleftrightarrow> (\<exists>name password. u = JStr name \<and> pw = JStr password \<and> isValidPassword password
     \<and> (\<forall>n. pl_normalized p = Some n \<longleftrightarrow> normalizeUsername rt name = Inr n)
     \<and> (\<forall>c. pl_candidate p = Some c \<longrightarrow> ownerOf db = Some c \<and> normalizeUsername rt name = Inr (us_username_normalized c)
          \<and> pl_verification p = verifyPassword password (us_password_hash c)))"

lemma loginBegin_result:
  assumes "loginBegin rt opts tn u pw s = (r, s')"
  shows "quiet s s' \<and> st_db s' = st_db s \<and> (\<forall>p. r = Inr p \<longrightarrow> login_for rt opts (st_db s) u pw p)"
proof (cases "\<exists>name password. u = JStr name \<and> pw = JStr password \<and> isValidPassword password")
  case False
  then have "st_db s' = st_db s \<and> st_bootstrap s' = st_bootstrap s \<and> (\<forall>p. r \<noteq> Inr p)"
    using assms by (auto simp: loginBegin_def Let_def split: jval.splits if_splits prod.splits)
  then show ?thesis by (simp add: quiet_same)
next
  case True
  then obtain name password where v: "u = JStr name" "pw = JStr password" "isValidPassword password" by blast
  then show ?thesis using assms
    by (auto simp: loginBegin_def Let_def quiet_same login_for_def ownerRow_def
        split: sum.splits option.splits if_splits)
qed

lemma loginFinish_result:
  assumes "loginFinish rt tn p a s = (r, s')"
  shows "moves s s' \<and> au_instance (st_db s') = au_instance (st_db s) \<and> au_users (st_db s') = au_users (st_db s) \<and> (st_db s' = st_db s \<and> (\<forall>x. r \<noteq> Inr x)
    \<or> (\<exists>c w parsed k session. pl_candidate p = Some c \<and> pl_verification p = Some (w, parsed) \<and> a = Derived k
        \<and> verifyDerived parsed k \<and> \<not> us_disabled c
        \<and> createSession rt (tn_token tn) (us_id c) (tn_now tn) (st_db s) = Some (session, st_db s')
        \<and> r = Inr (safeUser c, session)))"
proof (cases "\<exists>c w parsed k session db. pl_candidate p = Some c \<and> pl_verification p = Some (w, parsed) \<and> a = Derived k
    \<and> verifyDerived parsed k \<and> \<not> us_disabled c \<and> \<not> tn_writeFails tn \<and> \<not> tn_sessionFails tn
    \<and> createSession rt (tn_token tn) (us_id c) (tn_now tn) (st_db s) = Some (session, db)")
  case False
  then have "st_db s' = st_db s \<and> st_bootstrap s' = st_bootstrap s \<and> (\<forall>x. r \<noteq> Inr x)"
    using assms by (auto simp: loginFinish_def verifiedBy_def Let_def split: sum.splits option.splits if_splits prod.splits kdf_answer.splits)
  then show ?thesis by (simp add: quiet_same quiet_moves)
next
  case True
  then obtain c w parsed k session db where t: "pl_candidate p = Some c" "pl_verification p = Some (w, parsed)" "a = Derived k"
      "verifyDerived parsed k" "\<not> us_disabled c" "\<not> tn_writeFails tn" "\<not> tn_sessionFails tn"
      "createSession rt (tn_token tn) (us_id c) (tn_now tn) (st_db s) = Some (session, db)" by blast
  then have e: "st_db s' = db" "st_bootstrap s' = st_bootstrap s" "r = Inr (safeUser c, session)"
    using assms by (auto simp: loginFinish_def verifiedBy_def Let_def)
  have "moves s s' \<and> au_instance (st_db s') = au_instance (st_db s) \<and> au_users (st_db s') = au_users (st_db s)"
    using createSession_kept [OF t(8)] e(1,2) by (simp add: moves_def state_ok_def bootstrap_ok_def)
  with t e show ?thesis by blast
qed

section \<open>Where owners and sessions come from\<close>

definition setup_posted :: "runtime \<Rightarrow> ustr \<Rightarrow> waiting list \<Rightarrow> pending_setup \<Rightarrow> bool" where
  "setup_posted rt tok evs p \<longleftrightarrow> (\<exists>rq body name password token. SetupBody rq \<in> set evs \<and> rq_body rq = Some (JObj body)
     \<and> jget body ''username'' = JStr name \<and> jget body ''password'' = JStr password \<and> jget body ''bootstrapToken'' = JStr token
     \<and> rt_sha256 rt tok = rt_sha256 rt token \<and> normalizeUsername rt name = Inr (ps_username p)
     \<and> isValidPassword password \<and> kw_password (ps_work p) = password)"

definition login_posted :: "runtime \<Rightarrow> service_options \<Rightarrow> waiting list \<Rightarrow> auth_db \<Rightarrow> pending_login \<Rightarrow> bool" where
  "login_posted rt opts evs db p \<longleftrightarrow> (\<exists>rq body. LoginBody rq \<in> set evs \<and> rq_body rq = Some (JObj body)
     \<and> login_for rt opts db (jget body ''username'') (jget body ''password'') p)"

text \<open>The owner was set up by a request of the trace with the setup token.\<close>

definition owner_posted ::
  "runtime \<Rightarrow> (nat list \<Rightarrow> nat list \<Rightarrow> nat list) \<Rightarrow> ustr option \<Rightarrow> waiting list \<Rightarrow> user_row \<Rightarrow> bool" where
  "owner_posted rt scrypt token evs own \<longleftrightarrow> (\<exists>tok p. token = Some tok \<and> setup_posted rt tok evs p
     \<and> us_username own = ps_username p \<and> us_username_normalized own = ps_username p \<and> \<not> us_disabled own
     \<and> us_password_hash own = hashDerived (ps_work p) (deriveScrypt scrypt (ps_work p)))"

text \<open>A login request of the trace named the owner and carried the password of its stored hash.\<close>

definition login_proved ::
  "runtime \<Rightarrow> (nat list \<Rightarrow> nat list \<Rightarrow> nat list) \<Rightarrow> waiting list \<Rightarrow> user_row \<Rightarrow> bool" where
  "login_proved rt scrypt evs own \<longleftrightarrow> (\<exists>rq body name password parsed. LoginBody rq \<in> set evs \<and> rq_body rq = Some (JObj body)
     \<and> jget body ''username'' = JStr name \<and> jget body ''password'' = JStr password
     \<and> normalizeUsername rt name = Inr (us_username_normalized own) \<and> isValidPassword password
     \<and> parsePasswordHash (us_password_hash own) = Some parsed
     \<and> scrypt (utf8_encode password) (ph_salt parsed) = ph_derivedKey parsed)"

definition session_proved ::
  "runtime \<Rightarrow> (nat list \<Rightarrow> nat list \<Rightarrow> nat list) \<Rightarrow> auth_system \<Rightarrow> waiting list \<Rightarrow> auth_db \<Rightarrow> session_row \<Rightarrow> bool" where
  "session_proved rt scrypt y0 evs db s \<longleftrightarrow> (\<exists>own. ownerOf db = Some own \<and> se_user_id s = us_id own
     \<and> (login_proved rt scrypt evs own \<and> \<not> us_disabled own
        \<or> ownerOf (tables y0) = None \<and> owner_posted rt scrypt (bs_token (st_bootstrap (sy_state y0))) evs own))"

definition waiting_ok :: "runtime \<Rightarrow> service_options \<Rightarrow> auth_system \<Rightarrow> waiting list \<Rightarrow> auth_db \<Rightarrow> waiting \<Rightarrow> bool" where
  "waiting_ok rt opts y0 evs db w \<longleftrightarrow> (case w of
       SetupKdf p \<Rightarrow> \<exists>tok. bs_token (st_bootstrap (sy_state y0)) = Some tok \<and> setup_posted rt tok evs p
     | LoginKdf p \<Rightarrow> login_posted rt opts evs db p
     | _ \<Rightarrow> True)"

definition trace_ok ::
  "runtime \<Rightarrow> service_options \<Rightarrow> (nat list \<Rightarrow> nat list \<Rightarrow> nat list) \<Rightarrow> auth_system \<Rightarrow> waiting list \<Rightarrow> auth_system \<Rightarrow> bool" where
  "trace_ok rt opts scrypt y0 evs y \<longleftrightarrow>
     moves (sy_state y0) (sy_state y) \<and> state_ok (sy_state y)
   \<and> (\<forall>w\<in>set (sy_waiting y). waiting_ok rt opts y0 evs (tables y) w)
   \<and> (\<forall>own. ownerOf (tables y) = Some own \<longrightarrow>
        ownerOf (tables y0) = Some own \<or> owner_posted rt scrypt (bs_token (st_bootstrap (sy_state y0))) evs own)
   \<and> (\<forall>s\<in>set (au_sessions (tables y)). au_session_seq (tables y0) < se_id s \<longrightarrow> session_proved rt scrypt y0 evs (tables y) s)"

lemma ownerOf_stable: "evolves db db' \<Longrightarrow> ownerOf db = Some own \<Longrightarrow> ownerOf db' = Some own"
  by (auto simp: evolves_def ownerOf_def bind_eq_Some_conv)

lemma ownerOf_instance: "auth_db_ok db \<Longrightarrow> ownerOf db = None \<longleftrightarrow> au_instance db = None"
  by (cases "au_instance db") (auto simp: ownerOf_def auth_db_ok_def lookup_by_None_iff)

lemma posted_mono:
  assumes "set evs \<subseteq> set evs'"
  shows "setup_posted rt tok evs p \<Longrightarrow> setup_posted rt tok evs' p"
    and "owner_posted rt scrypt token evs own \<Longrightarrow> owner_posted rt scrypt token evs' own"
    and "login_proved rt scrypt evs own \<Longrightarrow> login_proved rt scrypt evs' own"
proof -
  show s: "setup_posted rt tok evs p \<Longrightarrow> setup_posted rt tok evs' p" for tok p
    unfolding setup_posted_def using assms by blast
  show "owner_posted rt scrypt token evs own \<Longrightarrow> owner_posted rt scrypt token evs' own"
    unfolding owner_posted_def using s by blast
  show "login_proved rt scrypt evs own \<Longrightarrow> login_proved rt scrypt evs' own"
    unfolding login_proved_def using assms by blast
qed

lemma waiting_mono:
  assumes "waiting_ok rt opts y0 evs db w" "set evs \<subseteq> set evs'" "evolves db db'"
  shows "waiting_ok rt opts y0 evs' db' w"
proof (cases w)
  case (SetupKdf p)
  with assms(1) posted_mono(1) [OF assms(2)] show ?thesis by (auto simp: waiting_ok_def)
next
  case (LoginKdf p)
  with assms(1) obtain rq body where b: "LoginBody rq \<in> set evs" "rq_body rq = Some (JObj body)"
    "login_for rt opts db (jget body ''username'') (jget body ''password'') p"
    by (auto simp: waiting_ok_def login_posted_def)
  moreover have "login_for rt opts db' (jget body ''username'') (jget body ''password'') p"
    using b(3) ownerOf_stable [OF assms(3)] unfolding login_for_def by blast
  ultimately show ?thesis using assms(2) LoginKdf by (auto simp: waiting_ok_def login_posted_def)
qed (simp_all add: waiting_ok_def)

lemma proved_mono:
  assumes "session_proved rt scrypt y0 evs db s" "set evs \<subseteq> set evs'" "evolves db db'" "same_session s s'"
  shows "session_proved rt scrypt y0 evs' db' s'"
  using assms posted_mono(2,3) [OF assms(2)] ownerOf_stable [OF assms(3)]
  by (auto simp: session_proved_def same_session_def)

text \<open>A turn keeps what is known, if what it adds is accounted for.\<close>

lemma trace_step:
  assumes "trace_ok rt opts scrypt y0 evs y" "moves (sy_state y) (sy_state x)" "set evs \<subseteq> set evs'"
    and waits: "\<And>w. w \<in> set (sy_waiting x) \<Longrightarrow> w \<in> set (sy_waiting y) \<or> waiting_ok rt opts y0 evs' (tables x) w"
    and owner: "\<And>own. ownerOf (tables y) = None \<Longrightarrow> ownerOf (tables x) = Some own \<Longrightarrow>
      owner_posted rt scrypt (bs_token (st_bootstrap (sy_state y0))) evs' own"
    and sessions: "\<And>s. s \<in> set (au_sessions (tables x)) \<Longrightarrow> au_session_seq (tables y) < se_id s \<Longrightarrow>
      session_proved rt scrypt y0 evs' (tables x) s"
  shows "trace_ok rt opts scrypt y0 evs' x"
proof -
  have e: "evolves (tables y) (tables x)" using assms(2) by (simp add: moves_def)
  have "session_proved rt scrypt y0 evs' (tables x) s"
    if s: "s \<in> set (au_sessions (tables x))" "au_session_seq (tables y0) < se_id s" for s
  proof (cases "au_session_seq (tables y) < se_id s")
    case False
    with e s(1) obtain r where r: "r \<in> set (au_sessions (tables y))" "same_session r s" by (auto simp: evolves_def)
    then have "se_id r = se_id s" by (simp add: same_session_def)
    with r(1) s(2) assms(1) have "session_proved rt scrypt y0 evs (tables y) r" by (simp add: trace_ok_def)
    then show ?thesis by (rule proved_mono [OF _ assms(3) e r(2)])
  qed (rule sessions [OF s(1)])
  moreover have "waiting_ok rt opts y0 evs' (tables x) w" if "w \<in> set (sy_waiting x)" for w
    using waits [OF that] assms(1) waiting_mono [OF _ assms(3) e] by (auto simp: trace_ok_def)
  moreover have "ownerOf (tables y0) = Some own \<or> owner_posted rt scrypt (bs_token (st_bootstrap (sy_state y0))) evs' own"
    if "ownerOf (tables x) = Some own" for own
  proof (cases "ownerOf (tables y)")
    case None
    then show ?thesis using owner that by blast
  next
    case (Some o1)
    with ownerOf_stable [OF e] that have "ownerOf (tables y) = Some own" by auto
    with assms(1) posted_mono(2) [OF assms(3)] show ?thesis by (auto simp: trace_ok_def)
  qed
  moreover have "moves (sy_state y0) (sy_state x)" "state_ok (sy_state x)"
    using assms(1,2) by (auto simp: trace_ok_def moves_def intro: evolves_trans)
  ultimately show ?thesis by (simp add: trace_ok_def)
qed

lemma trace_quiet:
  assumes "trace_ok rt opts scrypt y0 evs y" "quiet (sy_state y) (sy_state x)" "set evs \<subseteq> set evs'"
    and waits: "\<And>w. w \<in> set (sy_waiting x) \<Longrightarrow> w \<in> set (sy_waiting y) \<or> waiting_ok rt opts y0 evs' (tables x) w"
  shows "trace_ok rt opts scrypt y0 evs' x"
proof (rule trace_step [OF assms(1) quiet_moves [OF assms(2)] assms(3) waits])
  have "state_ok (sy_state x)" using assms(1) quiet_moves [OF assms(2)] by (simp add: trace_ok_def moves_def)
  then have "se_id s \<le> au_session_seq (tables y)" if "s \<in> set (au_sessions (tables x))" for s
    using that assms(2) by (auto simp: state_ok_def auth_db_ok_def quiet_def)
  then show "s \<in> set (au_sessions (tables x)) \<Longrightarrow> au_session_seq (tables y) < se_id s \<Longrightarrow> session_proved rt scrypt y0 evs' (tables x) s" for s
    by force
  show "ownerOf (tables y) = None \<Longrightarrow> ownerOf (tables x) = Some own \<Longrightarrow>
    owner_posted rt scrypt (bs_token (st_bootstrap (sy_state y0))) evs' own" for own
    using assms(2) by (simp add: quiet_def ownerOf_def)
qed

lemma wait_next_mem: "w \<in> set (wait_next r ws) \<longleftrightarrow> w \<in> set ws \<or> r = Inr w"
  by (cases r) (auto simp: wait_next_def)

lemma resume_setup_body:
  assumes "trace_ok rt (serviceOptions config) scrypt y0 evs y" "resume rt config tn a (SetupBody rq) (sy_state y) = (r, s)"
  shows "trace_ok rt (serviceOptions config) scrypt y0 (SetupBody rq # evs)
    \<lparr>sy_state = s, sy_waiting = wait_next r (remove1 (SetupBody rq) (sy_waiting y))\<rparr>" (is "trace_ok _ _ _ _ ?evs ?x")
proof (cases "parseObject (rq_body rq)")
  case None
  with assms(2) have "s = sy_state y" "\<forall>w. r \<noteq> Inr w" by (auto simp: resume_def setupRead_def)
  with assms(1) show ?thesis
    by (intro trace_quiet [OF assms(1)]) (auto simp: quiet_same wait_next_mem dest: set_remove1_subset [THEN subsetD])
next
  case (Some body)
  obtain r1 s1 where b: "setupBegin rt tn (jget body ''bootstrapToken'') (jget body ''username'') (jget body ''password'') (sy_state y)
      = (r1, s1)" by fastforce
  with Some assms(2) have s: "s = s1" and r: "\<And>w. r = Inr w \<Longrightarrow> \<exists>p. r1 = Inr p \<and> w = SetupKdf p"
    by (auto simp: resume_def setupRead_def split: sum.splits)
  note k = setupBegin_result [OF b]
  have "bs_token (st_bootstrap (sy_state y)) = Some tok \<Longrightarrow> bs_token (st_bootstrap (sy_state y0)) = Some tok" for tok
    using assms(1) by (auto simp: trace_ok_def moves_def)
  moreover have "rq_body rq = Some (JObj body)" using Some by (auto simp: parseObject_def split: option.splits jval.splits)
  ultimately have "waiting_ok rt (serviceOptions config) y0 ?evs (st_db s) (SetupKdf p)" if "r1 = Inr p" for p
    using k that by (fastforce simp: waiting_ok_def setup_posted_def)
  then show ?thesis using k r unfolding s
    by (intro trace_quiet [OF assms(1)]) (auto simp: wait_next_mem dest: set_remove1_subset [THEN subsetD])
qed

lemma resume_login_body:
  assumes "trace_ok rt (serviceOptions config) scrypt y0 evs y" "resume rt config tn a (LoginBody rq) (sy_state y) = (r, s)"
  shows "trace_ok rt (serviceOptions config) scrypt y0 (LoginBody rq # evs)
    \<lparr>sy_state = s, sy_waiting = wait_next r (remove1 (LoginBody rq) (sy_waiting y))\<rparr>" (is "trace_ok _ _ _ _ ?evs ?x")
proof (cases "parseObject (rq_body rq)")
  case None
  with assms(2) have "s = sy_state y" "\<forall>w. r \<noteq> Inr w" by (auto simp: resume_def loginRead_def)
  with assms(1) show ?thesis
    by (intro trace_quiet [OF assms(1)]) (auto simp: quiet_same wait_next_mem dest: set_remove1_subset [THEN subsetD])
next
  case (Some body)
  obtain r1 s1 where b: "loginBegin rt (serviceOptions config) tn (jget body ''username'') (jget body ''password'') (sy_state y)
      = (r1, s1)" by fastforce
  with Some assms(2) have s: "s = s1" and r: "\<And>w. r = Inr w \<Longrightarrow> \<exists>p. r1 = Inr p \<and> w = LoginKdf p"
    by (auto simp: resume_def loginRead_def split: sum.splits)
  note k = loginBegin_result [OF b]
  have "rq_body rq = Some (JObj body)" using Some by (auto simp: parseObject_def split: option.splits jval.splits)
  with k have "waiting_ok rt (serviceOptions config) y0 ?evs (st_db s) (LoginKdf p)" if "r1 = Inr p" for p
    using that unfolding s by (fastforce simp: waiting_ok_def login_posted_def)
  then show ?thesis using k r unfolding s
    by (intro trace_quiet [OF assms(1)]) (auto simp: wait_next_mem dest: set_remove1_subset [THEN subsetD])
qed

lemma resume_setup_kdf:
  assumes "trace_ok rt (serviceOptions config) scrypt y0 evs y" "resume rt config tn a (SetupKdf p) (sy_state y) = (r, s)"
    and w: "SetupKdf p \<in> set (sy_waiting y)" and a: "answers scrypt (SetupKdf p) a"
  shows "trace_ok rt (serviceOptions config) scrypt y0 (SetupKdf p # evs)
    \<lparr>sy_state = s, sy_waiting = wait_next r (remove1 (SetupKdf p) (sy_waiting y))\<rparr>" (is "trace_ok _ _ _ _ ?evs ?x")
proof -
  have ok: "state_ok (sy_state y)" using assms(1) by (simp add: trace_ok_def)
  obtain r1 where f: "setupFinish rt tn p a (sy_state y) = (r1, s)" and r: "\<forall>w. r \<noteq> Inr w"
    using assms(2) by (auto simp: resume_def split: prod.splits)
  note k = setupFinish_result [OF f ok]
  show ?thesis
  proof (cases "s = sy_state y")
    case True
    with r show ?thesis
      by (intro trace_quiet [OF assms(1)]) (auto simp: quiet_same wait_next_mem dest: set_remove1_subset [THEN subsetD])
  next
    case False
    with k obtain key own db where c: "a = Derived key" "owner_committed tn p key (tables y) own db"
      and d: "st_db s = db \<or> (\<exists>c. createSession rt (tn_token tn) (us_id own) (tn_now tn) db = Some (c, st_db s))" by blast
    have m: "moves (sy_state y) s" using k by blast
    have own: "ownerOf (st_db s) = Some own"
      using d c(2) ownerOf_stable [of db "st_db s" own] createSession_kept [of rt "tn_token tn" "us_id own" "tn_now tn" db]
      by (auto simp: owner_committed_def)
    have "key = deriveScrypt scrypt (ps_work p)" using a c(1) by (simp add: answers_def)
    moreover obtain tok where "bs_token (st_bootstrap (sy_state y0)) = Some tok" "setup_posted rt tok evs p"
      using assms(1) w by (fastforce simp: trace_ok_def waiting_ok_def)
    ultimately have posted: "owner_posted rt scrypt (bs_token (st_bootstrap (sy_state y0))) ?evs own"
      using c(2) posted_mono(1) [of evs ?evs rt tok p] by (auto simp: owner_posted_def owner_committed_def)
    have none: "ownerOf (tables y0) = None"
    proof (cases "ownerOf (tables y0)")
      case (Some o1)
      then have "ownerOf (tables y) = Some o1" using assms(1) ownerOf_stable by (auto simp: trace_ok_def moves_def)
      with c(2) show ?thesis by (simp add: owner_committed_def)
    qed
    have new: "session_proved rt scrypt y0 ?evs (st_db s) x"
      if x: "x \<in> set (au_sessions (st_db s))" "au_session_seq (tables y) < se_id x" for x
    proof -
      have "x \<notin> set (au_sessions (tables y))" using x(2) ok by (force simp: state_ok_def auth_db_ok_def)
      moreover have "au_sessions db = au_sessions (tables y)" using c(2) by (simp add: owner_committed_def)
      ultimately obtain made where "createSession rt (tn_token tn) (us_id own) (tn_now tn) db = Some (made, st_db s)"
        using d x(1) by auto
      note this = createSession_kept [OF this]
      with x(1) \<open>x \<notin> _\<close> \<open>au_sessions db = _\<close> have "se_user_id x = us_id own" by auto
      with own posted none show ?thesis by (auto simp: session_proved_def)
    qed
    show ?thesis
    proof (rule trace_step [OF assms(1)])
      show "moves (sy_state y) (sy_state ?x)" "set evs \<subseteq> set ?evs" using m by auto
      show "w \<in> set (sy_waiting ?x) \<Longrightarrow> w \<in> set (sy_waiting y) \<or> waiting_ok rt (serviceOptions config) y0 ?evs (tables ?x) w" for w
        using r by (auto simp: wait_next_mem dest: set_remove1_subset [THEN subsetD])
    qed (use own posted new in auto)
  qed
qed

lemma resume_login_kdf:
  assumes "trace_ok rt (serviceOptions config) scrypt y0 evs y" "resume rt config tn a (LoginKdf p) (sy_state y) = (r, s)"
    and w: "LoginKdf p \<in> set (sy_waiting y)" and a: "answers scrypt (LoginKdf p) a"
  shows "trace_ok rt (serviceOptions config) scrypt y0 (LoginKdf p # evs)
    \<lparr>sy_state = s, sy_waiting = wait_next r (remove1 (LoginKdf p) (sy_waiting y))\<rparr>" (is "trace_ok _ _ _ _ ?evs ?x")
proof -
  obtain r1 where f: "loginFinish rt tn p a (sy_state y) = (r1, s)" and r: "\<forall>w. r \<noteq> Inr w"
    using assms(2) by (auto simp: resume_def split: prod.splits)
  note k = loginFinish_result [OF f]
  have new: "session_proved rt scrypt y0 ?evs (st_db s) x"
    if x: "x \<in> set (au_sessions (st_db s))" "au_session_seq (tables y) < se_id x" for x
  proof -
    have "x \<notin> set (au_sessions (tables y))" using x(2) assms(1) by (force simp: trace_ok_def state_ok_def auth_db_ok_def)
    with x(1) k obtain c work parsed key session where c: "pl_candidate p = Some c" "pl_verification p = Some (work, parsed)"
        "a = Derived key" "verifyDerived parsed key" "\<not> us_disabled c"
        "createSession rt (tn_token tn) (us_id c) (tn_now tn) (tables y) = Some (session, st_db s)"
      by auto
    note made = createSession_kept [OF c(6)]
    with x(1) \<open>x \<notin> _\<close> have u: "se_user_id x = us_id c" by auto
    obtain rq body where rq: "LoginBody rq \<in> set evs" "rq_body rq = Some (JObj body)"
        "login_for rt (serviceOptions config) (tables y) (jget body ''username'') (jget body ''password'') p"
      using assms(1) w by (fastforce simp: trace_ok_def waiting_ok_def login_posted_def)
    then obtain name password where l: "jget body ''username'' = JStr name" "jget body ''password'' = JStr password"
        "isValidPassword password" "ownerOf (tables y) = Some c" "normalizeUsername rt name = Inr (us_username_normalized c)"
        "verifyPassword password (us_password_hash c) = Some (work, parsed)"
      using c(1,2) by (auto simp: login_for_def)
    have p: "parsePasswordHash (us_password_hash c) = Some parsed" "work = \<lparr>kw_password = password, kw_salt = ph_salt parsed\<rparr>"
      using l(6) by (auto simp: verifyPassword_def split: if_splits option.splits)
    have "key = deriveScrypt scrypt work" using a c(2,3) by (simp add: answers_def)
    with c(4) p(2) have "scrypt (utf8_encode password) (ph_salt parsed) = ph_derivedKey parsed"
      by (auto simp: verifyDerived_def deriveScrypt_def split: if_splits)
    with rq l p(1) have "login_proved rt scrypt ?evs c" unfolding login_proved_def by (intro exI conjI) auto
    moreover have "ownerOf (st_db s) = Some c" using l(4) made by (simp add: ownerOf_def)
    ultimately show ?thesis using u c(5) by (auto simp: session_proved_def)
  qed
  show ?thesis
    by (rule trace_step [OF assms(1)])
      (use k r new in \<open>auto simp: wait_next_mem ownerOf_def dest: set_remove1_subset [THEN subsetD]\<close>)
qed

lemma auth_step_trace:
  assumes "auth_step rt config scrypt y new x" "trace_ok rt (serviceOptions config) scrypt y0 evs y"
  shows "trace_ok rt (serviceOptions config) scrypt y0 (new @ evs) x"
  using assms
proof (induction rule: auth_step.induct)
  case (OpenSetup y tn rq)
  have "w = SetupBody rq" if "setupOpen config tn rq (sy_state y) = Inr w" for w
    using that by (auto simp: setupOpen_def split: if_splits option.splits sum.splits bool.splits)
  then show ?case
    by (intro trace_quiet [OF OpenSetup]) (auto simp: quiet_same wait_next_mem waiting_ok_def)
next
  case (OpenLogin y rq)
  have "w = LoginBody rq" if "loginOpen config rq = Inr w" for w
    using that by (auto simp: loginOpen_def split: if_splits option.splits)
  then show ?case
    by (intro trace_quiet [OF OpenLogin]) (auto simp: quiet_same wait_next_mem waiting_ok_def)
next
  case (Resume w y a tn r s)
  show ?case
    using resume_setup_body [OF Resume(4)] resume_login_body [OF Resume(4)] resume_setup_kdf [OF Resume(4)]
      resume_login_kdf [OF Resume(4)] Resume(1-3) unfolding append.simps by (cases w) metis+
next
  case (Logout y tn rq)
  then show ?case by (auto intro!: trace_quiet [OF Logout] logout_quiet)
next
  case (Boundary tn rq y r s)
  then show ?case by (auto intro!: trace_quiet [OF Boundary(2)] boundary_quiet [OF Boundary(1)])
next
  case (Housekeeping now y tn)
  then show ?case by (auto intro!: trace_quiet [OF Housekeeping(2)] microtask_quiet)
qed

lemma auth_run_trace:
  assumes "auth_run rt config scrypt y0 evs y" "state_ok (sy_state y0)" "sy_waiting y0 = []"
  shows "trace_ok rt (serviceOptions config) scrypt y0 evs y"
  using assms
proof (induction rule: auth_run.induct)
  case (Start y)
  then show ?case
    by (force simp: trace_ok_def state_ok_def auth_db_ok_def)
next
  case (Turn y evs z new x)
  then show ?case using auth_step_trace by blast
qed

section \<open>Runs\<close>

lemma resume_moves:
  assumes "resume rt config tn a w s = (r, s')" "state_ok s"
  shows "moves s s'"
proof (cases w)
  case (SetupBody rq)
  with assms(1) show ?thesis
    by (auto simp: resume_def setupRead_def split: option.splits prod.splits sum.splits
        dest!: setupBegin_result intro: quiet_moves)
next
  case (LoginBody rq)
  with assms(1) show ?thesis
    by (auto simp: resume_def loginRead_def split: option.splits prod.splits sum.splits
        dest!: loginBegin_result intro: quiet_moves)
next
  case (SetupKdf p)
  with assms setupFinish_result [of rt tn p a s] show ?thesis by (auto simp: resume_def split: prod.splits)
next
  case (LoginKdf p)
  with assms loginFinish_result [of rt tn p a s] show ?thesis by (auto simp: resume_def split: prod.splits)
qed

lemma auth_step_moves: "auth_step rt config scrypt y new x \<Longrightarrow> state_ok (sy_state y) \<Longrightarrow> moves (sy_state y) (sy_state x)"
  by (induction rule: auth_step.induct)
    (simp_all add: resume_moves quiet_moves logout_quiet microtask_quiet boundary_quiet)

lemma auth_run_moves: "auth_run rt config scrypt y evs z \<Longrightarrow> state_ok (sy_state y) \<Longrightarrow> moves (sy_state y) (sy_state z)"
proof (induction rule: auth_run.induct)
  case (Turn y evs z new x)
  then have "moves (sy_state y) (sy_state z)" by blast
  moreover from this Turn.prems have "state_ok (sy_state z)" by (simp add: moves_def)
  ultimately show ?case using auth_step_moves [OF Turn.hyps(2)] moves_trans by blast
qed simp

lemma new_runtime:
  assumes "createAuthRuntime config token opts bytes now db = Some s" "auth_db_ok db"
  shows "state_ok s \<and> au_session_seq (st_db s) = au_session_seq db \<and> ownerOf (st_db s) = ownerOf db"
proof -
  from assms(1) obtain b log where b: "createBootstrap token bytes db = Some (b, log)" "st_bootstrap s = b"
    and d: "st_db s = (if cf_revokeSessionsOnStart config then snd (revokeEverySession now db) else db)"
    by (auto simp: createAuthRuntime_def bind_eq_Some_conv)
  have "bs_closed b = (bs_token b = None) \<and> (bs_token b = None) = (au_instance db \<noteq> None)"
    using b(1) by (auto simp: createBootstrap_def newBootstrap_def logFallbackOnce_def split: if_splits option.splits)
  moreover have "auth_db_ok (st_db s)" using d assms(2) revokeEvery_kept [of db now] by auto
  moreover have "au_session_seq (st_db s) = au_session_seq db \<and> au_users (st_db s) = au_users db \<and> au_instance (st_db s) = au_instance db"
    using d by (auto simp: revokeEverySession_def updateSessions_def)
  ultimately show ?thesis using b(2) by (simp add: state_ok_def bootstrap_ok_def ownerOf_def)
qed

text \<open>What the boundary lets through.\<close>

lemma boundary_proceeds:
  assumes "authBoundary rt config tn rq (Some s) = (Proceed who, st)" "\<not> isPublicEndpoint (method_upper (rq_method rq)) (rq_path rq)"
    and "auth_db_ok (st_db s)"
  shows "\<exists>token row own. map_of (rq_cookies rq) (ck_name (cf_cookie config)) = Some token \<and> se_token_hash row = rt_sha256 rt token
    \<and> authentic (st_db s) (tn_now tn) row own \<and> ownerOf (st_db s) = Some own \<and> who = Some (safeUser own, se_id row)
    \<and> mutationChecks config (method_upper (rq_method rq)) rq = None"
proof -
  let ?raw = "selectSessionToken (rq_cookies rq) config"
  from assms(1,2) obtain st1 user session row where st: "status rt tn ?raw s = Inr st1" "as_authenticated st1" "as_user st1 = Some user"
      "as_session st1 = Some session" "lk_status session = Valid" "lk_session session = Some row" "who = Some (user, se_id row)"
    and m: "mutationChecks config (method_upper (rq_method rq)) rq = None"
    by (auto simp: authBoundary_def Let_def split: if_splits sum.splits option.splits bool.splits session_status.splits)
  from st(1,2) obtain raw own where o: "?raw = Some raw" "ownerOf (st_db s) = Some own"
      "session = findSessionByRawToken rt raw (tn_now tn) (st_db s)" "user = safeUser own"
    using st(3,4) by (auto simp: status_def ownerRow_def Let_def bindR_eq_Inr split: if_splits option.splits)
  obtain r u where r: "se_token_hash r = rt_sha256 rt raw" "authentic (st_db s) (tn_now tn) r u" "lk_session session = Some r"
    using raw_token_valid [of rt raw "tn_now tn" "st_db s"] st(5) o(3) by auto
  have "ownerOf (st_db s) = Some u"
    using r(2) assms(3) lookup_by_mem [of us_id "au_users (st_db s)" u]
    by (auto simp: authentic_def ownerOf_def auth_db_ok_def)
  moreover have "map_of (rq_cookies rq) (ck_name (cf_cookie config)) = Some raw"
    using o(1) by (auto simp: selectSessionToken_def split: option.splits if_splits)
  ultimately show ?thesis using r st(6,7) o(2,4) m by auto
qed

section \<open>Properties\<close>

lemma csrf_status: "ar_status (csrfReply e) \<noteq> 204"
  by (cases e) (simp_all add: jsonError_def plainReply_def)

lemma method_upper_idem: "method_upper (method_upper m) = method_upper m"
  by (auto simp: method_upper_def ascii_upper_def)

text \<open>
  Property C9. There is one owner, forever. Once an owner exists, no later sequence of requests, whatever
  their interleaving, adds a user or changes the owner's name or password hash; setup stays closed: no
  submitted token is accepted, no setup request is started, and one that was already waiting for the KDF
  when the owner was committed is refused.
\<close>

theorem one_owner:
  assumes "state_ok (sy_state y)" "ownerOf (tables y) = Some own" "auth_run rt config scrypt y evs z"
  shows "ownerOf (tables z) = Some own \<and> au_users (tables z) = au_users (tables y)
    \<and> (\<forall>t. \<not> verifyBootstrap rt t (st_bootstrap (sy_state z)))
    \<and> (\<forall>tn t u pw p. fst (setupBegin rt tn t u pw (sy_state z)) \<noteq> Inr p)
    \<and> (\<forall>tn p a x. fst (setupFinish rt tn p a (sy_state z)) \<noteq> Inr x)"
proof -
  have m: "moves (sy_state y) (sy_state z)" by (rule auth_run_moves [OF assms(3,1)])
  have own: "ownerOf (tables z) = Some own" using m ownerOf_stable [OF _ assms(2)] by (simp add: moves_def)
  have z: "state_ok (sy_state z)" using m assms(1) by (simp add: moves_def)
  have i: "au_instance (tables y) \<noteq> None" using assms(2) by (auto simp: ownerOf_def bind_eq_Some_conv)
  with m have "au_users (tables z) = au_users (tables y)" "au_instance (tables z) \<noteq> None"
    by (auto simp: moves_def evolves_def)
  moreover from this(2) z have t: "bs_token (st_bootstrap (sy_state z)) = None" by (simp add: state_ok_def bootstrap_ok_def)
  moreover have "fst (setupBegin rt tn tk u pw (sy_state z)) \<noteq> Inr p" for tn tk u pw p
    using setupBegin_result [of rt tn tk u pw "sy_state z"] t by (cases "setupBegin rt tn tk u pw (sy_state z)") fastforce
  moreover have "fst (setupFinish rt tn p a (sy_state z)) \<noteq> Inr x" for tn p a x
  proof -
    obtain r s' where f: "setupFinish rt tn p a (sy_state z) = (r, s')" by fastforce
    have "\<not> owner_committed tn p k (tables z) o1 db" for k o1 db using own by (simp add: owner_committed_def)
    with setupFinish_result [OF f z] have "\<forall>x. r \<noteq> Inr x" by blast
    with f show ?thesis by (cases x) simp
  qed
  ultimately show ?thesis using own by (simp add: verifyBootstrap_def split: jval.split)
qed

text \<open>
  Property C10. Sessions need credentials. In every run of a started server, each session that was not there
  at the start belongs to the owner, and either a login request of the run named the owner and carried a
  password whose derived key is the stored one, while the owner was enabled; or the instance had no owner at
  the start and the owner was set up in this run by a request with the server's setup token, with the
  password that request carried.
\<close>

theorem sessions_need_credentials:
  assumes "createAuthRuntime config setupToken lopts bytes at db0 = Some s0" "auth_db_ok db0"
    and "auth_run rt config scrypt \<lparr>sy_state = s0, sy_waiting = []\<rparr> evs y"
    and "s \<in> set (au_sessions (tables y))" "au_session_seq db0 < se_id s"
  shows "\<exists>own. ownerOf (tables y) = Some own \<and> se_user_id s = us_id own
    \<and> (login_proved rt scrypt evs own \<and> \<not> us_disabled own
       \<or> ownerOf db0 = None \<and> owner_posted rt scrypt (bs_token (st_bootstrap s0)) evs own)"
proof -
  note n = new_runtime [OF assms(1,2)]
  then have "trace_ok rt (serviceOptions config) scrypt \<lparr>sy_state = s0, sy_waiting = []\<rparr> evs y"
    by (intro auth_run_trace [OF assms(3)]) simp_all
  with assms(4,5) n show ?thesis by (auto simp: trace_ok_def session_proved_def)
qed

text \<open>
  Property C11. Protected requests are authenticated. In every reachable state, a request to a route that is
  not one of the five public ones reaches its handler only with the cookie of the configured name holding the
  token of a stored session of the enabled owner that is not revoked and younger than seven days, and the
  handler is told that owner and that session; a mutation has moreover no foreign origin, is not cross-site,
  and a body it must send as JSON is JSON.
\<close>

theorem protected_requests_authenticated:
  assumes "createAuthRuntime config setupToken lopts bytes at db0 = Some s0" "auth_db_ok db0"
    and "auth_run rt config scrypt \<lparr>sy_state = s0, sy_waiting = []\<rparr> evs y"
    and "authBoundary rt config tn rq (Some (sy_state y)) = (Proceed who, st)"
    and "\<not> isPublicEndpoint (method_upper (rq_method rq)) (rq_path rq)"
  shows "(\<exists>token s own. map_of (rq_cookies rq) (ck_name (cf_cookie config)) = Some token
      \<and> s \<in> set (au_sessions (tables y)) \<and> se_token_hash s = rt_sha256 rt token \<and> se_revoked_at s = None
      \<and> tn_now tn < se_created_at s + 604800000 \<and> ownerOf (tables y) = Some own \<and> se_user_id s = us_id own
      \<and> \<not> us_disabled own \<and> who = Some (safeUser own, se_id s))
    \<and> (isUnsafeMethod (rq_method rq) \<longrightarrow>
        (\<forall>org. map_of (rq_headers rq) (js ''origin'') = Some org \<longrightarrow> org \<in> set (cf_allowedOrigins config))
      \<and> (\<forall>v. map_of (rq_headers rq) (js ''sec-fetch-site'') = Some v \<longrightarrow> map ascii_lower v \<noteq> js ''cross-site'')
      \<and> (requestHasBody (rq_headers rq) \<and> requiresJsonBody (method_upper (rq_method rq)) (rq_path rq) \<longrightarrow>
           hasJsonContentType (rq_headers rq)))"
proof -
  let ?m = "method_upper (rq_method rq)"
  have "state_ok (sy_state y)"
    using new_runtime [OF assms(1,2)] auth_run_moves [OF assms(3)] by (simp add: moves_def)
  then have db: "auth_db_ok (tables y)" by (simp add: state_ok_def)
  from boundary_proceeds [OF assms(4,5) db] obtain token s own where b:
      "map_of (rq_cookies rq) (ck_name (cf_cookie config)) = Some token" "se_token_hash s = rt_sha256 rt token"
      "authentic (tables y) (tn_now tn) s own" "ownerOf (tables y) = Some own" "who = Some (safeUser own, se_id s)"
      "mutationChecks config ?m rq = None" by blast
  from b(3) db have "session_ok s" by (auto simp: authentic_def auth_db_ok_def)
  then have first: "\<exists>token s own. map_of (rq_cookies rq) (ck_name (cf_cookie config)) = Some token
      \<and> s \<in> set (au_sessions (tables y)) \<and> se_token_hash s = rt_sha256 rt token \<and> se_revoked_at s = None
      \<and> tn_now tn < se_created_at s + 604800000 \<and> ownerOf (tables y) = Some own \<and> se_user_id s = us_id own
      \<and> \<not> us_disabled own \<and> who = Some (safeUser own, se_id s)"
    using b by (intro exI [of _ token] exI [of _ s] exI [of _ own]) (auto simp: authentic_def session_ok_def SESSION_LIFETIME_MS_def)
  have up: "isUnsafeMethod ?m = isUnsafeMethod (rq_method rq)"
    by (simp add: isUnsafeMethod_def method_upper_idem)
  have c: "checkCsrfHeaders (rq_headers rq) ?m config = Inr ()
      \<and> (requestHasBody (rq_headers rq) \<and> requiresJsonBody ?m (rq_path rq) \<longrightarrow> hasJsonContentType (rq_headers rq))"
    if "isUnsafeMethod (rq_method rq)"
    using b(6) that up by (auto simp: mutationChecks_def checkJsonContentType_def split: if_splits sum.splits)
  show ?thesis using first c csrf_passed [of "rq_headers rq" ?m config] up by blast
qed

text \<open>
  Property C12. Logout is final. After a logout that answered 204 for the token of a valid session, no later
  request is ever let through on that session, whatever happens in between and whatever the clocks show.
\<close>

theorem logout_is_final:
  assumes "state_ok (sy_state y)" "selectSessionToken (rq_cookies rq) config = Some token"
    and "authentic (tables y) (tn_now tn) s own" "se_token_hash s = rt_sha256 rt token" "rt_sha256 rt token \<noteq> []"
    and "logoutRoute rt config tn rq (sy_state y) = (reply, s1)" "ar_status reply = 204"
    and "auth_run rt config scrypt (y\<lparr>sy_state := s1\<rparr>) evs z"
    and "authBoundary rt config tn2 rq2 (Some (sy_state z)) = (Proceed (Some (user, sid)), st)"
    and "\<not> isPublicEndpoint (method_upper (rq_method rq2)) (rq_path rq2)"
  shows "sid \<noteq> se_id s"
proof -
  have ok: "auth_db_ok (tables y)" using assms(1) by (simp add: state_ok_def)
  have ne: "token \<noteq> []" using assms(2) by (auto simp: selectSessionToken_def split: option.splits if_splits)
  have "logout rt tn (Some token) (sy_state y) = (Inr (), s1)"
    using assms(2,6,7)
    by (auto simp: logoutRoute_def Let_def unavailable_def jsonError_def plainReply_def csrfError_def csrf_status
        split: option.splits sum.splits prod.splits)
  then have s1: "st_db s1 = snd (revokeSession rt token (tn_now tn) (tables y))"
    using authentic_found [OF ok assms(3) ne assms(5,4)] ne by (auto simp: logout_def split: if_splits)
  have s1_ok: "state_ok s1"
    using logout_quiet [of "sy_state y" rt config tn rq] assms(1,6) by (auto dest!: quiet_moves simp: moves_def)
  have h: "hashSessionToken rt token = se_token_hash s" "se_token_hash s \<noteq> []" "se_revoked_at s = None" "s \<in> set (au_sessions (tables y))"
    using ne assms(3-5) by (simp_all add: hashSessionToken_def authentic_def)
  then have "coalesceRevoked (tn_now tn) s \<in> set (au_sessions (st_db s1))"
    unfolding s1 by (auto simp: revokeSession_def updateSessions_def Let_def)
  moreover have m: "moves s1 (sy_state z)" using auth_run_moves [OF assms(8)] s1_ok by simp
  moreover from this s1_ok have z: "auth_db_ok (tables z)" by (simp add: moves_def state_ok_def)
  moreover obtain row own2 where r: "authentic (tables z) (tn_now tn2) row own2" "sid = se_id row"
    using boundary_proceeds [OF assms(9,10) z] by blast
  ultimately show ?thesis
    using ended_stays_ended [of "st_db s1" "tables z" "coalesceRevoked (tn_now tn) s" "tn_now tn2" "tn_now tn2" row own2] s1_ok h(3)
    by (auto simp: moves_def state_ok_def coalesceRevoked_def)
qed

section \<open>Signing in\<close>

lemma maintain_succeeds:
  assumes "row \<in> set (au_sessions (st_db s))" "se_revoked_at row = None" "tn_now tn < se_expires_at row"
    and "\<not> tn_writeFails tn" "0 \<le> so_lastSeenInterval opts"
  shows "\<exists>s'. maintainAuthenticatedSession opts tn row s = Inr s'"
proof (cases "tn_now tn - se_last_seen_at row \<ge> so_lastSeenInterval opts")
  case True
  let ?p = "\<lambda>r. se_id r = se_id row \<and> se_revoked_at r = None \<and> se_expires_at r > tn_now tn
    \<and> se_last_seen_at r \<le> tn_now tn - so_lastSeenInterval opts"
  have "row \<in> set (filter ?p (au_sessions (st_db s)))" using assms True by simp
  then have "0 < length (filter ?p (au_sessions (st_db s)))" by (rule length_pos_if_in_set)
  with assms(4,5) True show ?thesis
    unfolding maintainAuthenticatedSession_def touchSessionLastSeen_def updateSessions_def Let_def
    by (simp del: length_greater_0_conv)
qed (simp add: maintainAuthenticatedSession_def Let_def)

lemma boundary_lets_in:
  assumes "auth_db_ok (st_db s)" "authentic (st_db s) (tn_now tn) row own" "ownerOf (st_db s) = Some own"
    and "se_token_hash row = rt_sha256 rt token" "token \<noteq> []" "rt_sha256 rt token \<noteq> []"
    and "map_of (rq_cookies rq) (ck_name (cf_cookie config)) = Some token"
    and "method_upper (rq_method rq) = js ''GET''" "\<not> isPublicEndpoint (js ''GET'') (rq_path rq)"
    and "\<not> tn_readFails tn" "\<not> tn_writeFails tn" "0 \<le> cf_sessionLastSeenUpdateIntervalMs config"
  shows "\<exists>s'. authBoundary rt config tn rq (Some s) = (Proceed (Some (safeUser own, se_id row)), Some s')"
proof -
  have f: "findSessionByRawToken rt token (tn_now tn) (st_db s) = \<lparr>lk_status = Valid, lk_session = Some row,
      lk_user = Some \<lparr>su_id = us_id own, su_username = us_username own, su_disabled = False\<rparr>\<rparr>"
    by (rule authentic_found [OF assms(1,2,5,6,4)])
  have raw: "selectSessionToken (rq_cookies rq) config = Some token" using assms(5,7) by (simp add: selectSessionToken_def)
  obtain s' where m: "maintainAuthenticatedSession (serviceOptions config) tn row s = Inr s'"
    using maintain_succeeds [of row s tn "serviceOptions config"] assms(2,11,12) by (auto simp: authentic_def serviceOptions_def)
  have "\<not> isUnsafeMethod (js ''GET'')" by (simp add: isUnsafeMethod_def method_upper_def ascii_upper_def js_def)
  then have "mutationChecks config (js ''GET'') rq = None" by (simp add: mutationChecks_def)
  with f raw m assms(3,5,8-10) show ?thesis
    by (simp add: authBoundary_def status_def ownerRow_def Let_def)
qed

lemma sign_in:
  assumes "state_ok (sy_state y)" "ownerOf (tables y) = Some own" "\<not> us_disabled own" "us_username own \<noteq> []"
    and "normalizeUsername rt name = Inr (us_username_normalized own)" "isValidPassword password"
    and "parsePasswordHash (us_password_hash own) = Some parsed"
    and "scrypt (utf8_encode password) (ph_salt parsed) = ph_derivedKey parsed"
    and "\<not> tn_readFails tn1" "auth_run rt config scrypt y evs z"
    and "\<not> tn_writeFails tn2" "\<not> tn_sessionFails tn2" "generateSessionToken (tn_token tn2) = token" "token \<noteq> []" "rt_sha256 rt token \<noteq> []"
    and "rt_sha256 rt token \<notin> se_token_hash ` set (au_sessions (tables z))"
    and "\<not> tn_readFails tn3" "\<not> tn_writeFails tn3" "tn_now tn3 < tn_now tn2 + SESSION_LIFETIME_MS"
    and "map_of (rq_cookies rq) (ck_name (cf_cookie config)) = Some token" "method_upper (rq_method rq) = js ''GET''"
    and "\<not> isPublicEndpoint (js ''GET'') (rq_path rq)" "0 \<le> cf_sessionLastSeenUpdateIntervalMs config"
  shows "\<exists>p c s2 s3. loginBegin rt opts tn1 (JStr name) (JStr password) (sy_state y) = (Inr p, sy_state y)
    \<and> answers scrypt (LoginKdf p) (Derived (ph_derivedKey parsed))
    \<and> loginFinish rt tn2 p (Derived (ph_derivedKey parsed)) (sy_state z) = (Inr (safeUser own, c), s2)
    \<and> cs_rawToken c = token \<and> au_sessions (st_db s2) = au_sessions (tables z) @ [cs_session c]
    \<and> se_id (cs_session c) = au_session_seq (tables z) + 1
    \<and> authBoundary rt config tn3 rq (Some s2) = (Proceed (Some (safeUser own, se_id (cs_session c))), Some s3)"
proof -
  let ?w = "\<lparr>kw_password = password, kw_salt = ph_salt parsed\<rparr>"
  let ?p = "\<lparr>pl_normalized = Some (us_username_normalized own), pl_candidate = Some own, pl_verification = Some (?w, parsed)\<rparr>"
  have m: "moves (sy_state y) (sy_state z)" by (rule auth_run_moves [OF assms(10,1)])
  then have z: "auth_db_ok (tables z)" using assms(1) by (simp add: moves_def state_ok_def)
  have own: "ownerOf (tables z) = Some own" using m ownerOf_stable [OF _ assms(2)] by (simp add: moves_def)
  have u: "own \<in> set (au_users (tables z))" "map_option in_owner_user_id (au_instance (tables z)) = Some (us_id own)"
    using own by (auto simp: ownerOf_def bind_eq_Some_conv dest!: lookup_by_SomeD)
  have begins: "loginBegin rt opts tn1 (JStr name) (JStr password) (sy_state y) = (Inr ?p, sy_state y)"
    using assms(2,5-7,9) by (simp add: loginBegin_def ownerRow_def verifyPassword_def)
  have fits: "answers scrypt (LoginKdf ?p) (Derived (ph_derivedKey parsed))"
    using assms(8) by (simp add: answers_def deriveScrypt_def)
  from u(1) have ids: "us_id own \<in> us_id ` set (au_users (tables z))" by blast
  have h: "hashSessionToken rt token = rt_sha256 rt token" using assms(14) by (simp add: hashSessionToken_def)
  obtain c db where c: "createSession rt (tn_token tn2) (us_id own) (tn_now tn2) (tables z) = Some (c, db)"
    using assms(13,16) ids h by (simp add: createSession_def Let_def)
  have raw: "cs_rawToken c = token" using c assms(13) by (auto simp: createSession_def Let_def split: if_splits)
  note k = createSession_kept [OF c]
  obtain s2 where f: "loginFinish rt tn2 ?p (Derived (ph_derivedKey parsed)) (sy_state z) = (Inr (safeUser own, c), s2)"
    and s2: "st_db s2 = db"
    using c assms(3,11,12) by (simp add: loginFinish_def verifiedBy_def verifyDerived_def Let_def)
  have db: "auth_db_ok db" "ownerOf db = Some own" using k z own by (simp_all add: ownerOf_def)
  have "authentic db (tn_now tn3) (cs_session c) own"
    using k u assms(3,4,19) by (auto simp: authentic_def)
  moreover have "se_token_hash (cs_session c) = rt_sha256 rt token" using k raw h by simp
  ultimately obtain s3 where "authBoundary rt config tn3 rq (Some s2) = (Proceed (Some (safeUser own, se_id (cs_session c))), Some s3)"
    using boundary_lets_in [of s2 tn3 "cs_session c" own rt token rq config] db s2 assms(14,15,17,18,20-23) by auto
  with begins fits f raw k s2 show ?thesis by blast
qed

text \<open>
  Property C13. The owner can always sign in. However many attempts failed before and whatever other requests
  run while the KDF works, the enabled owner's name and password start a login, its answer opens a session
  with a fresh token, and for the next seven days the token lets a request through to its handler as the
  owner; only faults of the storage stand in the way.
\<close>

theorem owner_can_sign_in:
  assumes "state_ok (sy_state y)" "ownerOf (tables y) = Some own" "\<not> us_disabled own" "us_username own \<noteq> []"
    and "normalizeUsername rt name = Inr (us_username_normalized own)" "isValidPassword password"
    and "parsePasswordHash (us_password_hash own) = Some parsed"
    and "scrypt (utf8_encode password) (ph_salt parsed) = ph_derivedKey parsed"
    and "\<not> tn_readFails tn1" "auth_run rt config scrypt y evs z"
    and "\<not> tn_writeFails tn2" "\<not> tn_sessionFails tn2" "generateSessionToken (tn_token tn2) = token" "token \<noteq> []" "rt_sha256 rt token \<noteq> []"
    and "rt_sha256 rt token \<notin> se_token_hash ` set (au_sessions (tables z))"
    and "\<not> tn_readFails tn3" "\<not> tn_writeFails tn3" "tn_now tn3 < tn_now tn2 + SESSION_LIFETIME_MS"
    and "map_of (rq_cookies rq) (ck_name (cf_cookie config)) = Some token" "method_upper (rq_method rq) = js ''GET''"
    and "\<not> isPublicEndpoint (js ''GET'') (rq_path rq)" "0 \<le> cf_sessionLastSeenUpdateIntervalMs config"
  shows "\<exists>p c s2 s3. loginBegin rt (serviceOptions config) tn1 (JStr name) (JStr password) (sy_state y) = (Inr p, sy_state y)
    \<and> answers scrypt (LoginKdf p) (Derived (ph_derivedKey parsed))
    \<and> loginFinish rt tn2 p (Derived (ph_derivedKey parsed)) (sy_state z) = (Inr (safeUser own, c), s2)
    \<and> cs_rawToken c = token
    \<and> authBoundary rt config tn3 rq (Some s2) = (Proceed (Some (safeUser own, se_id (cs_session c))), Some s3)"
  using sign_in [OF assms, of "serviceOptions config"] by blast

section \<open>A server on which the properties apply\<close>

definition demo_name :: ustr where "demo_name = js ''owner''"

definition demo_key :: "nat list" where "demo_key = demo_scrypt (utf8_encode demo_password) (replicate 16 7)"

definition demo_owner :: user_row where
  "demo_owner = \<lparr>us_id = 1, us_username = demo_name, us_username_normalized = demo_name,
     us_password_hash = encodePasswordHash (replicate 16 7) demo_key, us_disabled = False, us_created_at = 0, us_updated_at = 0\<rparr>"

definition demo_session :: "int \<Rightarrow> ustr \<Rightarrow> session_row" where
  "demo_session i token = \<lparr>se_id = i, se_user_id = 1, se_token_hash = token, se_created_at = 0,
     se_expires_at = SESSION_LIFETIME_MS, se_last_seen_at = 0, se_revoked_at = None\<rparr>"

definition demo_auth_db :: "session_row list \<Rightarrow> auth_db" where
  "demo_auth_db sessions = \<lparr>au_users = [demo_owner], au_user_seq = 1,
     au_instance = Some \<lparr>in_owner_user_id = 1, in_created_at = 0, in_updated_at = 0\<rparr>,
     au_sessions = sessions, au_session_seq = int (length sessions)\<rparr>"

definition demo_config :: auth_config where
  "demo_config = \<lparr>cf_publicOrigin = js ''http://localhost'', cf_allowedOrigins = [js ''http://localhost''],
     cf_cookie = cookieProfile False, cf_sessionLifetimeMs = SESSION_LIFETIME_MS,
     cf_sessionLastSeenUpdateIntervalMs = SESSION_LAST_SEEN_UPDATE_INTERVAL_MS, cf_revokeSessionsOnStart = False\<rparr>"

definition demo_limits :: limiter_options where
  "demo_limits = \<lparr>lo_windowMs = None, lo_threshold = None, lo_maxDelayMs = None, lo_maxBuckets = None, lo_baseRetryMs = None\<rparr>"

definition demo_server :: "session_row list \<Rightarrow> auth_state" where
  "demo_server sessions = the (createAuthRuntime demo_config None demo_limits [] 0 (demo_auth_db sessions))"

definition demo_turn :: turn where
  "demo_turn = \<lparr>tn_now = 1000, tn_sysNow = 1000, tn_token = [1, 2, 3], tn_salt = replicate 16 7,
     tn_readFails = False, tn_writeFails = False, tn_sessionFails = False\<rparr>"

definition demo_token :: ustr where "demo_token = b64_encode [1, 2, 3]"

definition demo_http :: "string \<Rightarrow> string \<Rightarrow> ustr \<Rightarrow> http_request" where
  "demo_http m p token = \<lparr>rq_method = js m, rq_path = js p, rq_headers = [(js ''content-type'', js ''application/json'')],
     rq_cookies = [(LOCAL_SESSION_COOKIE_NAME, token)],
     rq_body = Some (JObj [(js ''username'', JStr demo_name), (js ''password'', JStr demo_password)]), rq_tooLarge = False\<rparr>"

lemma demo_started: "createAuthRuntime demo_config None demo_limits [] 0 (demo_auth_db ss) = Some (demo_server ss)
    \<and> st_db (demo_server ss) = demo_auth_db ss \<and> bs_token (st_bootstrap (demo_server ss)) = None"
  by (simp add: demo_server_def createAuthRuntime_def createBootstrap_def demo_auth_db_def demo_config_def demo_limits_def newBootstrap_def
      AuthRateLimiter_def positiveInteger_def setupLimiterOptions_def AUTH_FAILURE_WINDOW_MS_def AUTH_FAILURE_THRESHOLD_def
      AUTH_MAX_DELAY_MS_def AUTH_MAX_BUCKETS_def AUTH_BASE_RETRY_MS_def SETUP_FAILURE_WINDOW_MS_def SETUP_FAILURE_THRESHOLD_def
      SETUP_MAX_BUCKETS_def SETUP_BASE_RETRY_MS_def SETUP_MAX_DELAY_MS_def)

lemma demo_auth_db_ok:
  "distinct (map se_id ss) \<Longrightarrow> distinct (map se_token_hash ss) \<Longrightarrow> \<forall>s\<in>set ss. \<exists>i t. s = demo_session i t \<and> i \<le> int (length ss) \<Longrightarrow>
   auth_db_ok (demo_auth_db ss)"
  by (fastforce simp: auth_db_ok_def demo_auth_db_def demo_owner_def demo_session_def session_ok_def SESSION_LIFETIME_MS_def)

lemma demo_no_sessions: "auth_db_ok (demo_auth_db [])"
  by (rule demo_auth_db_ok) simp_all

lemma demo_ready: "state_ok (demo_server [])" "ownerOf (st_db (demo_server [])) = Some demo_owner"
  using new_runtime [OF conjunct1 [OF demo_started] demo_no_sessions]
  by (simp_all add: ownerOf_def demo_started demo_auth_db_def demo_owner_def)

lemma demo_name_normal: "normalizeUsername rt demo_name = Inr demo_name"
  by (rule canonical_fixed) (simp add: canonical_name_def demo_name_def js_def name_unit_def name_end_def)

lemma demo_hash: "parsePasswordHash (us_password_hash demo_owner) = Some \<lparr>ph_salt = replicate 16 7, ph_derivedKey = demo_key\<rparr>"
  using demo_key_length demo_salt_ok by (simp add: demo_owner_def hashed_parses demo_key_def key_length_def)

lemma demo_token_value: "demo_token = [65, 81, 73, 68]"
  by (simp add: demo_token_def b64_encode_def b64_char_def)

lemma demo_facts:
  "ownerOf (demo_auth_db ss) = Some demo_owner" "us_id demo_owner = 1"
  "\<not> us_disabled demo_owner" "us_username demo_owner = demo_name" "us_username_normalized demo_owner = demo_name" "demo_name \<noteq> []"
  "rt_sha256 demo_runtime t = t" "au_sessions (demo_auth_db ss) = ss" "au_session_seq (demo_auth_db ss) = int (length ss)"
  "tn_now demo_turn = 1000" "\<not> tn_readFails demo_turn" "\<not> tn_writeFails demo_turn" "\<not> tn_sessionFails demo_turn"
  "generateSessionToken (tn_token demo_turn) = demo_token" "demo_token \<noteq> []"
  "ck_name (cf_cookie demo_config) = LOCAL_SESSION_COOKIE_NAME" "cf_sessionLastSeenUpdateIntervalMs demo_config = 3600000"
  "rq_cookies (demo_http m p token) = [(LOCAL_SESSION_COOKIE_NAME, token)]" "rq_method (demo_http m p token) = js m"
  "rq_path (demo_http m p token) = js p" "method_upper (js ''GET'') = js ''GET''" "method_upper (js ''POST'') = js ''POST''"
  "\<not> isPublicEndpoint (js ''GET'') (js ''/api/ledger/accounts'')"
  "ph_salt \<lparr>ph_salt = a, ph_derivedKey = b\<rparr> = a" "ph_derivedKey \<lparr>ph_salt = a, ph_derivedKey = b\<rparr> = b"
  by (simp_all add: ownerOf_def demo_owner_def demo_name_def demo_runtime_def demo_auth_db_def demo_turn_def demo_token_value
      generateSessionToken_def b64_encode_def b64_char_def demo_config_def cookieProfile_def SESSION_LAST_SEEN_UPDATE_INTERVAL_MS_def
      demo_http_def method_upper_def ascii_upper_def js_def isPublicEndpoint_def PUBLIC_ENDPOINTS_def)

lemma demo_sign_in:
  assumes "y = \<lparr>sy_state = demo_server [], sy_waiting = []\<rparr>" "parsed = \<lparr>ph_salt = replicate 16 7, ph_derivedKey = demo_key\<rparr>"
  shows "\<exists>p c s2 s3. loginBegin demo_runtime (serviceOptions demo_config) demo_turn (JStr demo_name) (JStr demo_password) (sy_state y)
      = (Inr p, sy_state y)
    \<and> answers demo_scrypt (LoginKdf p) (Derived (ph_derivedKey parsed))
    \<and> loginFinish demo_runtime demo_turn p (Derived (ph_derivedKey parsed)) (sy_state y) = (Inr (safeUser demo_owner, c), s2)
    \<and> cs_rawToken c = demo_token \<and> au_sessions (st_db s2) = au_sessions (tables y) @ [cs_session c]
    \<and> se_id (cs_session c) = au_session_seq (tables y) + 1
    \<and> authBoundary demo_runtime demo_config demo_turn (demo_http ''GET'' ''/api/ledger/accounts'' demo_token) (Some s2)
        = (Proceed (Some (safeUser demo_owner, se_id (cs_session c))), Some s3)"
  by (rule sign_in [OF _ _ _ _ _ demo_password_valid _ _ _ auth_run.Start, of _ demo_owner])
    (simp_all add: assms demo_ready demo_started demo_hash demo_name_normal demo_facts demo_key_def SESSION_LIFETIME_MS_def)

text \<open>One login from the arrival of the request to its reply.\<close>

lemma demo_login:
  "\<exists>evs y row s3. auth_run demo_runtime demo_config demo_scrypt \<lparr>sy_state = demo_server [], sy_waiting = []\<rparr> evs y
    \<and> au_sessions (tables y) = [row] \<and> se_id row = 1
    \<and> authBoundary demo_runtime demo_config demo_turn (demo_http ''GET'' ''/api/ledger/accounts'' demo_token) (Some (sy_state y))
        = (Proceed (Some (safeUser demo_owner, 1)), Some s3)"
proof -
  let ?rq = "demo_http ''POST'' ''/api/auth/login'' []"
  let ?y0 = "\<lparr>sy_state = demo_server [], sy_waiting = []\<rparr>" and ?y1 = "\<lparr>sy_state = demo_server [], sy_waiting = [LoginBody ?rq]\<rparr>"
  from demo_sign_in [OF refl refl] obtain p c s2 s3 where
      b: "loginBegin demo_runtime (serviceOptions demo_config) demo_turn (JStr demo_name) (JStr demo_password) (demo_server [])
        = (Inr p, demo_server [])"
    and a: "answers demo_scrypt (LoginKdf p) (Derived demo_key)"
    and f: "loginFinish demo_runtime demo_turn p (Derived demo_key) (demo_server []) = (Inr (safeUser demo_owner, c), s2)"
    and s: "au_sessions (st_db s2) = [cs_session c]" "se_id (cs_session c) = 1"
    and p: "authBoundary demo_runtime demo_config demo_turn (demo_http ''GET'' ''/api/ledger/accounts'' demo_token) (Some s2)
        = (Proceed (Some (safeUser demo_owner, 1)), Some s3)"
    by (auto simp: demo_started demo_facts)
  have "loginOpen demo_config ?rq = Inr (LoginBody ?rq)"
    by (simp add: loginOpen_def csrfError_def checkCsrfHeaders_def checkJsonContentType_def hasJsonContentType_def demo_http_def
        js_def ascii_lower_def)
  with auth_step.OpenLogin [of demo_runtime demo_config demo_scrypt ?y0 ?rq]
  have "auth_step demo_runtime demo_config demo_scrypt ?y0 [] ?y1" by (simp add: wait_next_def)
  note r = auth_run.Turn [OF auth_run.Start this]
  have "resume demo_runtime demo_config demo_turn KdfFault (LoginBody ?rq) (demo_server []) = (Inr (LoginKdf p), demo_server [])"
    using b by (simp add: resume_def loginRead_def parseObject_def demo_http_def)
  then have "auth_step demo_runtime demo_config demo_scrypt ?y1 [LoginBody ?rq] \<lparr>sy_state = demo_server [], sy_waiting = [LoginKdf p]\<rparr>"
    using auth_step.Resume [where w = "LoginBody ?rq" and y = ?y1 and scrypt = demo_scrypt and a = KdfFault
        and rt = demo_runtime and config = demo_config and tn = demo_turn]
    by (simp add: answers_def wait_next_def)
  note r = auth_run.Turn [OF r this]
  have "resume demo_runtime demo_config demo_turn (Derived demo_key) (LoginKdf p) (demo_server [])
      = (Inl (signedIn demo_config 200 (Inr (safeUser demo_owner, c))), s2)"
    using f by (simp add: resume_def)
  then have "auth_step demo_runtime demo_config demo_scrypt \<lparr>sy_state = demo_server [], sy_waiting = [LoginKdf p]\<rparr> [LoginKdf p]
      \<lparr>sy_state = s2, sy_waiting = []\<rparr>"
    using auth_step.Resume [where w = "LoginKdf p" and y = "\<lparr>sy_state = demo_server [], sy_waiting = [LoginKdf p]\<rparr>"
        and scrypt = demo_scrypt and a = "Derived demo_key" and rt = demo_runtime and config = demo_config and tn = demo_turn] a
    by (simp add: wait_next_def)
  note r = auth_run.Turn [OF r this]
  then have "auth_run demo_runtime demo_config demo_scrypt ?y0 [LoginKdf p, LoginBody ?rq] \<lparr>sy_state = s2, sy_waiting = []\<rparr>" by simp
  with s p show ?thesis
    by (intro exI [of _ "[LoginKdf p, LoginBody ?rq]"] exI [of _ "\<lparr>sy_state = s2, sy_waiting = []\<rparr>"]) simp
qed

theorem one_owner_witness:
  "ownerOf (st_db (demo_server [])) = Some demo_owner
   \<and> \<not> verifyBootstrap demo_runtime (JStr demo_token) (st_bootstrap (demo_server []))"
  using one_owner [OF _ _ auth_run.Start, of "\<lparr>sy_state = demo_server [], sy_waiting = []\<rparr>" demo_owner demo_runtime] demo_ready
  by simp

theorem sessions_need_credentials_witness:
  "\<exists>evs y s. auth_run demo_runtime demo_config demo_scrypt \<lparr>sy_state = demo_server [], sy_waiting = []\<rparr> evs y
     \<and> s \<in> set (au_sessions (tables y)) \<and> login_proved demo_runtime demo_scrypt evs demo_owner"
proof -
  obtain evs y row where r: "auth_run demo_runtime demo_config demo_scrypt \<lparr>sy_state = demo_server [], sy_waiting = []\<rparr> evs y"
      "au_sessions (tables y) = [row]" "se_id row = 1" using demo_login by blast
  have "ownerOf (tables y) = Some demo_owner"
    using ownerOf_stable auth_run_moves [OF r(1)] demo_ready by (auto simp: moves_def)
  with sessions_need_credentials [OF conjunct1 [OF demo_started] demo_no_sessions r(1), of row] r
  show ?thesis by (intro exI [of _ evs] exI [of _ y] exI [of _ row]) (auto simp: demo_facts)
qed

theorem protected_requests_authenticated_witness:
  "\<exists>evs y s3. auth_run demo_runtime demo_config demo_scrypt \<lparr>sy_state = demo_server [], sy_waiting = []\<rparr> evs y
     \<and> authBoundary demo_runtime demo_config demo_turn (demo_http ''GET'' ''/api/ledger/accounts'' demo_token) (Some (sy_state y))
         = (Proceed (Some (safeUser demo_owner, 1)), Some s3)
     \<and> (\<exists>s. s \<in> set (au_sessions (tables y)) \<and> se_token_hash s = demo_token \<and> se_revoked_at s = None)"
proof -
  obtain evs y s3 where r: "auth_run demo_runtime demo_config demo_scrypt \<lparr>sy_state = demo_server [], sy_waiting = []\<rparr> evs y"
      "authBoundary demo_runtime demo_config demo_turn (demo_http ''GET'' ''/api/ledger/accounts'' demo_token) (Some (sy_state y))
         = (Proceed (Some (safeUser demo_owner, 1)), Some s3)" using demo_login by blast
  have "\<exists>s. s \<in> set (au_sessions (tables y)) \<and> se_token_hash s = demo_token \<and> se_revoked_at s = None"
    using conjunct1 [OF protected_requests_authenticated [OF conjunct1 [OF demo_started] demo_no_sessions r]]
    by (auto simp: demo_facts)
  with r show ?thesis by blast
qed

lemma demo_two_ok: "auth_db_ok (demo_auth_db [demo_session 1 (js ''a''), demo_session 2 (js ''b'')])"
  by (rule demo_auth_db_ok) (auto simp: demo_session_def)

theorem logout_is_final_witness:
  "\<exists>reply s1 st. logoutRoute demo_runtime demo_config demo_turn (demo_http ''POST'' ''/api/auth/logout'' (js ''a''))
       (demo_server [demo_session 1 (js ''a''), demo_session 2 (js ''b'')]) = (reply, s1) \<and> ar_status reply = 204
     \<and> authBoundary demo_runtime demo_config demo_turn (demo_http ''GET'' ''/api/ledger/accounts'' (js ''b'')) (Some s1)
         = (Proceed (Some (safeUser demo_owner, 2)), st) \<and> (2::int) \<noteq> se_id (demo_session 1 (js ''a''))"
proof -
  let ?s1 = "demo_session 1 (js ''a'')" and ?s2 = "demo_session 2 (js ''b'')"
  let ?ss = "[?s1, ?s2]" and ?rq = "demo_http ''POST'' ''/api/auth/logout'' (js ''a'')"
  let ?s = "demo_server ?ss" and ?y = "\<lparr>sy_state = demo_server ?ss, sy_waiting = []\<rparr>"
  have ok: "state_ok ?s" "st_db ?s = demo_auth_db ?ss"
    using new_runtime [OF conjunct1 [OF demo_started] demo_two_ok] demo_started by auto
  have live: "authentic (demo_auth_db ?ss) 1000 r demo_owner" if "r \<in> {?s1, ?s2}" for r
    using that by (auto simp: authentic_def demo_auth_db_def demo_owner_def demo_session_def demo_name_def js_def SESSION_LIFETIME_MS_def)
  have raw: "selectSessionToken (rq_cookies ?rq) demo_config = Some (js ''a'')" by (simp add: selectSessionToken_def demo_facts)
  obtain reply t1 where l: "logoutRoute demo_runtime demo_config demo_turn ?rq ?s = (reply, t1)" by fastforce
  have found: "findSessionByRawToken demo_runtime (js ''a'') 1000 (demo_auth_db ?ss) = \<lparr>lk_status = Valid, lk_session = Some ?s1,
      lk_user = Some \<lparr>su_id = 1, su_username = us_username demo_owner, su_disabled = False\<rparr>\<rparr>"
    using authentic_found [OF demo_two_ok live [of ?s1], of "js ''a''" demo_runtime] by (simp add: demo_facts demo_session_def)
  have "csrfError demo_config ?rq False = None"
    by (simp add: csrfError_def checkCsrfHeaders_def demo_http_def js_def)
  with l found raw ok(2) have st: "ar_status reply = 204"
    and db: "st_db t1 = snd (revokeSession demo_runtime (js ''a'') 1000 (demo_auth_db ?ss))"
    by (auto simp: logoutRoute_def logout_def Let_def demo_facts plainReply_def)
  have rows: "au_sessions (st_db t1) = [coalesceRevoked 1000 ?s1, ?s2]" "au_users (st_db t1) = [demo_owner]"
      "au_instance (st_db t1) = au_instance (demo_auth_db ?ss)"
    by (simp_all add: db revokeSession_def hashSessionToken_def demo_facts updateSessions_def demo_session_def Let_def demo_auth_db_def)
  have "quiet ?s t1" using logout_quiet [of ?s demo_runtime demo_config demo_turn ?rq] l by simp
  then have t: "auth_db_ok (st_db t1)" using ok by (simp add: quiet_def state_ok_def)
  have "authentic (st_db t1) 1000 ?s2 demo_owner" "ownerOf (st_db t1) = Some demo_owner"
    using live [of ?s2] rows by (simp_all add: authentic_def ownerOf_def demo_auth_db_def demo_owner_def)
  then have "\<exists>t2. authBoundary demo_runtime demo_config demo_turn (demo_http ''GET'' ''/api/ledger/accounts'' (js ''b'')) (Some t1)
         = (Proceed (Some (safeUser demo_owner, 2)), Some t2)"
    using boundary_lets_in [OF t, of demo_turn ?s2 demo_owner demo_runtime "js ''b''" "demo_http ''GET'' ''/api/ledger/accounts'' (js ''b'')" demo_config]
    by (simp add: demo_facts) (simp add: demo_session_def)
  then obtain t2 where p: "authBoundary demo_runtime demo_config demo_turn (demo_http ''GET'' ''/api/ledger/accounts'' (js ''b'')) (Some t1)
         = (Proceed (Some (safeUser demo_owner, 2)), Some t2)" by blast
  have "2 \<noteq> se_id ?s1"
  proof (rule logout_is_final [OF _ raw, of ?y demo_turn _ demo_owner demo_runtime reply t1 demo_scrypt "[]" "\<lparr>sy_state = t1, sy_waiting = []\<rparr>"
        demo_turn "demo_http ''GET'' ''/api/ledger/accounts'' (js ''b'')" "safeUser demo_owner" 2 "Some t2"])
    show "auth_run demo_runtime demo_config demo_scrypt (?y\<lparr>sy_state := t1\<rparr>) [] \<lparr>sy_state = t1, sy_waiting = []\<rparr>"
      using auth_run.Start by simp
  qed (use ok l st p live [of ?s1] in \<open>simp_all add: demo_facts demo_session_def\<close>)
  with l st p show ?thesis by blast
qed

theorem owner_can_sign_in_witness:
  "\<exists>p. fst (loginBegin demo_runtime (serviceOptions demo_config) demo_turn (JStr demo_name) (JStr demo_password) (demo_server [])) = Inr p"
proof -
  let ?y = "\<lparr>sy_state = demo_server [], sy_waiting = []\<rparr>" and ?parsed = "\<lparr>ph_salt = replicate 16 7, ph_derivedKey = demo_key\<rparr>"
  have "\<exists>p c s2 s3. loginBegin demo_runtime (serviceOptions demo_config) demo_turn (JStr demo_name) (JStr demo_password) (sy_state ?y)
      = (Inr p, sy_state ?y)
    \<and> answers demo_scrypt (LoginKdf p) (Derived (ph_derivedKey ?parsed))
    \<and> loginFinish demo_runtime demo_turn p (Derived (ph_derivedKey ?parsed)) (sy_state ?y) = (Inr (safeUser demo_owner, c), s2)
    \<and> cs_rawToken c = demo_token
    \<and> authBoundary demo_runtime demo_config demo_turn (demo_http ''GET'' ''/api/ledger/accounts'' demo_token) (Some s2)
        = (Proceed (Some (safeUser demo_owner, se_id (cs_session c))), Some s3)"
    by (rule owner_can_sign_in [OF _ _ _ _ _ demo_password_valid _ _ _ auth_run.Start, of _ demo_owner])
      (simp_all add: demo_ready demo_started demo_hash demo_name_normal demo_facts demo_key_def SESSION_LIFETIME_MS_def)
  then show ?thesis by (elim exE conjE) (rule exI, simp)
qed

end
