(* ===== verification/AuthLedger.thy ===== *)
theory AuthLedger
  imports AuthSystem LedgerSystem
begin

text \<open>
  The Ledger behind the boundary, as server/index.ts mounts them: every request under /api passes
  \<open>authBoundary\<close> first, and only a request it lets through reaches the Ledger routes. Which call Hono makes of a method and a path is
  outside the repository: the request and the call are independent here, so that what is shown holds for every
  dispatch.
\<close>

type_synonym server_state = "auth_state option \<times> ledger_db"

definition serveLedger ::
  "runtime \<Rightarrow> service_deps \<Rightarrow> auth_config \<Rightarrow> turn \<Rightarrow> http_request \<Rightarrow> ledger_request \<Rightarrow> server_state
     \<Rightarrow> (auth_reply + http_response) \<times> server_state" where
  "serveLedger rt d config tn rq call st =
     (case authBoundary rt config tn rq (fst st) of
        (Respond reply, installed) \<Rightarrow> (Inl reply, installed, snd st)
      | (Proceed _, installed) \<Rightarrow>
          (let (response, db) = ledgerRoutes rt d call (snd st) in (Inr response, installed, db)))"

definition ledger_path :: "ustr \<Rightarrow> bool" where
  "ledger_path p \<longleftrightarrow> take 11 p = js ''/api/ledger''"

lemma no_public_ledger: "x \<in> set PUBLIC_ENDPOINTS \<Longrightarrow> \<forall>i\<in>{0..<23}. take 11 (drop i x) \<noteq> js ''/api/ledger''"
  by (auto simp: PUBLIC_ENDPOINTS_def js_def numeral_eq_Suc atLeast0_lessThan_Suc)

lemma public_length: "x \<in> set PUBLIC_ENDPOINTS \<Longrightarrow> length x \<le> 21"
  by (auto simp: PUBLIC_ENDPOINTS_def)

lemma ledger_protected:
  assumes "ledger_path p"
  shows "\<not> isPublicEndpoint m p"
proof
  assume "isPublicEndpoint m p"
  then have x: "method_upper m @ js '' '' @ p \<in> set PUBLIC_ENDPOINTS" (is "?x \<in> _") by (simp add: isPublicEndpoint_def)
  then have "length ?x \<le> 21" by (rule public_length)
  then have "length m + 1 \<in> {0..<23}" by (simp add: method_upper_def)
  moreover have "take 11 (drop (length m + 1) ?x) = js ''/api/ledger''"
    using assms by (simp add: method_upper_def ledger_path_def)
  ultimately show False using no_public_ledger [OF x] by blast
qed

text \<open>
  Property C14. The Ledger serves only the signed-in owner. In every reachable state of the server a Ledger
  request either is answered by the boundary and leaves the Ledger's database as it was, or reaches the
  Ledger's routes on behalf of a stored, unrevoked, unexpired session of the enabled owner whose token the
  request carries in the session cookie.
\<close>

theorem ledger_requires_owner_session:
  assumes "createAuthRuntime config setupToken lopts bytes at db0 = Some s0" "auth_db_ok db0"
    and "auth_run rt config scrypt \<lparr>sy_state = s0, sy_waiting = []\<rparr> evs y"
    and "ledger_path (rq_path rq)"
    and "serveLedger rt d config tn rq call (Some (sy_state y), db) = (out, installed, db')"
  shows "case out of
      Inl _ \<Rightarrow> db' = db
    | Inr response \<Rightarrow> (response, db') = ledgerRoutes rt d call db
        \<and> (\<exists>token s own. map_of (rq_cookies rq) (ck_name (cf_cookie config)) = Some token
             \<and> se_token_hash s = rt_sha256 rt token \<and> authentic (tables y) (tn_now tn) s own \<and> ownerOf (tables y) = Some own)"
proof -
  have "state_ok (sy_state y)"
    using new_runtime [OF assms(1,2)] auth_run_moves [OF assms(3)] by (simp add: moves_def)
  then have db: "auth_db_ok (tables y)" by (simp add: state_ok_def)
  obtain r st where b: "authBoundary rt config tn rq (Some (sy_state y)) = (r, st)" by fastforce
  show ?thesis
  proof (cases r)
    case (Respond reply)
    with assms(5) b show ?thesis by (auto simp: serveLedger_def)
  next
    case (Proceed who)
    then have "out = Inr (fst (ledgerRoutes rt d call db))" "db' = snd (ledgerRoutes rt d call db)"
      using assms(5) b by (auto simp: serveLedger_def split: prod.splits)
    moreover obtain token s own where "map_of (rq_cookies rq) (ck_name (cf_cookie config)) = Some token"
        "se_token_hash s = rt_sha256 rt token" "authentic (tables y) (tn_now tn) s own" "ownerOf (tables y) = Some own"
      using boundary_proceeds [OF b [unfolded Proceed] ledger_protected [OF assms(4)] db] by blast
    ultimately show ?thesis by auto
  qed
qed

theorem ledger_requires_owner_session_witness:
  "\<exists>y response db'. fst (serveLedger demo_runtime demo_deps demo_config demo_turn
        (demo_http ''GET'' ''/api/ledger/accounts'' demo_token) demo_delete (Some (sy_state y), empty_db)) = Inr response
     \<and> (response, db') = ledgerRoutes demo_runtime demo_deps demo_delete empty_db \<and> (\<exists>s own. authentic (tables y) 1000 s own)"
proof -
  let ?rq = "demo_http ''GET'' ''/api/ledger/accounts'' demo_token"
  obtain evs y s3 where r: "auth_run demo_runtime demo_config demo_scrypt \<lparr>sy_state = demo_server [], sy_waiting = []\<rparr> evs y"
    and b: "authBoundary demo_runtime demo_config demo_turn ?rq (Some (sy_state y)) = (Proceed (Some (safeUser demo_owner, 1)), Some s3)"
    using demo_login by blast
  obtain response db' where l: "ledgerRoutes demo_runtime demo_deps demo_delete empty_db = (response, db')" by fastforce
  have path: "ledger_path (rq_path ?rq)" by (simp add: demo_facts ledger_path_def js_def)
  have "serveLedger demo_runtime demo_deps demo_config demo_turn ?rq demo_delete (Some (sy_state y), empty_db) = (Inr response, Some s3, db')"
    using b l by (simp add: serveLedger_def)
  with ledger_requires_owner_session [OF conjunct1 [OF demo_started] demo_no_sessions r path this] show ?thesis
    by (intro exI [of _ y] exI [of _ response] exI [of _ db']) (auto simp: demo_facts)
qed

end
