(* ===== verification/AssetStore.thy ===== *)
theory AssetStore
  imports JsRuntime JsText
begin

text \<open>
  The store of binary assets (server/assets/repository.ts over the tables of migrations/0030_asset_foundation.sql,
  with server/assets/validation.ts and shared/assetProtocol.ts). An asset is a row of metadata, its bytes are
  a file named by its identifier; a reference says that an owner uses the asset for a purpose. A transaction
  is a function on the tables whose error leaves them as they were.
\<close>

named_theorems store_defs \<open>operations of the asset and board repositories\<close>

section \<open>Errors\<close>

datatype asset_code =
    INVALID_ASSET_ID | UNSUPPORTED_ASSET_MIME | ASSET_NOT_FOUND | ASSET_ID_CONFLICT | ASSET_BINARY_CONFLICT
  | INVALID_ASSET_REFERENCES | ASSET_BINARY_MISSING | ASSET_BINARY_UNREADABLE | ASSET_BINARY_CORRUPT
  | ASSET_STORAGE_ERROR | ASSET_METADATA_PERSIST_FAILED

datatype board_code =
    BOARD_NOT_FOUND | BOARD_FOLDER_NOT_FOUND | BOARD_VALIDATION_ERROR | BOARD_SCENE_CORRUPT
  | BOARD_SCENE_VERSION_UNSUPPORTED | BOARD_SCENE_ENGINE_UNSUPPORTED | BOARD_SCENE_REVISION_CONFLICT
  | BOARD_ASSET_REFERENCE_CONFLICT | BOARD_STORAGE_ERROR

text \<open>What may be thrown: the two error classes, SQLite's foreign key violation, anything else.\<close>

datatype store_error =
    AssetError asset_code int
  | BoardError board_code int
  | ForeignKeyViolation
  | OtherFault

type_synonym 'a store_res = "store_error + 'a"

section \<open>Identifiers and types\<close>

definition hex_unit :: "nat \<Rightarrow> bool" where
  "hex_unit c \<longleftrightarrow> is_digit c \<or> (97 \<le> ascii_lower c \<and> ascii_lower c \<le> 102)"

text \<open>\<open>UUID_RE\<close>, one unit after another.\<close>

definition uuid_unit :: "nat \<times> nat \<Rightarrow> bool" where
  "uuid_unit = (\<lambda>(i, c).
     if i \<in> {8, 13, 18, 23} then c = 45
     else if i = 14 then 49 \<le> c \<and> c \<le> 56
     else if i = 19 then ascii_lower c \<in> {56, 57, 97, 98}
     else hex_unit c)"

definition uuidPattern :: "ustr \<Rightarrow> bool" where
  "uuidPattern s \<longleftrightarrow> length s = 36 \<and> list_all uuid_unit (enumerate 0 s)"

definition isAssetId :: "jval \<Rightarrow> bool" where
  "isAssetId v = (case v of JStr s \<Rightarrow> uuidPattern s | _ \<Rightarrow> False)"

definition BOARD_ASSET_MIME_TYPES :: "ustr list" where
  "BOARD_ASSET_MIME_TYPES = [js ''image/png'', js ''image/jpeg'', js ''image/webp'', js ''image/gif'', js ''image/avif'',
     js ''image/svg+xml'']"

definition isBoardAssetMimeType :: "jval \<Rightarrow> bool" where
  "isBoardAssetMimeType v = (case v of JStr s \<Rightarrow> s \<in> set BOARD_ASSET_MIME_TYPES | _ \<Rightarrow> False)"

definition assertAssetId :: "jval \<Rightarrow> ustr store_res" where
  "assertAssetId v = (case v of
     JStr s \<Rightarrow> if isAssetId v then Inr s else Inl (AssetError INVALID_ASSET_ID 400)
   | _ \<Rightarrow> Inl (AssetError INVALID_ASSET_ID 400))"

definition assertBoardAssetMimeType :: "jval \<Rightarrow> ustr store_res" where
  "assertBoardAssetMimeType v = (case v of
     JStr s \<Rightarrow> if isBoardAssetMimeType v then Inr s else Inl (AssetError UNSUPPORTED_ASSET_MIME 400)
   | _ \<Rightarrow> Inl (AssetError UNSUPPORTED_ASSET_MIME 400))"

text \<open>Every item is checked before its duplicate is dropped.\<close>

primrec dedupeFrom :: "ustr list \<Rightarrow> jval list \<Rightarrow> ustr list store_res" where
  "dedupeFrom result [] = Inr result"
| "dedupeFrom result (item # rest) =
     bindR (assertAssetId item) (\<lambda>assetId.
       if assetId \<in> set result then dedupeFrom result rest else dedupeFrom (result @ [assetId]) rest)"

definition normalizeAssetIds :: "jval \<Rightarrow> ustr list store_res" where
  "normalizeAssetIds v = (case v of JArr xs \<Rightarrow> dedupeFrom [] xs | _ \<Rightarrow> Inl (AssetError INVALID_ASSET_REFERENCES 400))"

section \<open>The tables\<close>

record asset_meta =
  am_id :: ustr
  am_mimeType :: ustr
  am_byteSize :: int
  am_sha256 :: ustr
  am_storageKey :: ustr
  am_createdAt :: int

record ref_owner =
  ow_type :: ustr
  ow_id :: ustr
  ow_purpose :: ustr

record asset_ref =
  rf_asset :: ustr
  rf_owner :: ref_owner
  rf_createdAt :: int

record asset_db =
  ad_assets :: "asset_meta list"
  ad_refs :: "asset_ref list"

text \<open>SQLite's \<open>trim\<close> removes spaces, its \<open>length\<close> counts the characters before the first NUL.\<close>

definition sql_trim :: "ustr \<Rightarrow> ustr" where
  "sql_trim s = rev (dropWhile (\<lambda>c. c = 32) (rev (dropWhile (\<lambda>c. c = 32) s)))"

definition sql_length :: "ustr \<Rightarrow> nat" where
  "sql_length s = length (code_points (takeWhile (\<lambda>c. c \<noteq> 0) s))"

definition owner_check :: "ref_owner \<Rightarrow> bool" where
  "owner_check w \<longleftrightarrow> 0 < sql_length (sql_trim (ow_type w)) \<and> 0 < sql_length (sql_trim (ow_id w))
     \<and> 0 < sql_length (sql_trim (ow_purpose w))"

definition text_le :: "ustr \<Rightarrow> ustr \<Rightarrow> bool" where
  "text_le a b \<longleftrightarrow> code_points a \<le> code_points b"

section \<open>The repository\<close>

definition findAsset :: "ustr \<Rightarrow> asset_db \<Rightarrow> asset_meta option" where
  "findAsset assetId db = lookup_by am_id assetId (ad_assets db)"

definition insertAsset :: "asset_meta \<Rightarrow> asset_db \<Rightarrow> asset_db store_res" where
  "insertAsset m db =
     (if am_byteSize m < 0 \<or> am_id m \<in> am_id ` set (ad_assets db) \<or> am_storageKey m \<in> am_storageKey ` set (ad_assets db)
      then Inl OtherFault
      else Inr (db\<lparr>ad_assets := ad_assets db @ [m]\<rparr>))"

definition listReferenceIds :: "ref_owner \<Rightarrow> asset_db \<Rightarrow> ustr list" where
  "listReferenceIds w db = order_by text_le (map rf_asset (filter (\<lambda>r. rf_owner r = w) (ad_refs db)))"

definition dropReferences :: "ref_owner \<Rightarrow> asset_db \<Rightarrow> asset_db" where
  "dropReferences w db = db\<lparr>ad_refs := filter (\<lambda>r. rf_owner r \<noteq> w) (ad_refs db)\<rparr>"

definition insertReference :: "ref_owner \<Rightarrow> int \<Rightarrow> ustr \<Rightarrow> asset_db \<Rightarrow> asset_db store_res" where
  "insertReference w at assetId db =
     (if \<not> owner_check w \<or> (\<exists>r\<in>set (ad_refs db). rf_asset r = assetId \<and> rf_owner r = w) then Inl OtherFault
      else if assetId \<notin> am_id ` set (ad_assets db) then Inl ForeignKeyViolation
      else Inr (db\<lparr>ad_refs := ad_refs db @ [\<lparr>rf_asset = assetId, rf_owner = w, rf_createdAt = at\<rparr>]\<rparr>))"

primrec insertReferences :: "ref_owner \<Rightarrow> int \<Rightarrow> ustr list \<Rightarrow> asset_db \<Rightarrow> asset_db store_res" where
  "insertReferences w at [] db = Inr db"
| "insertReferences w at (i # ids) db = bindR (insertReference w at i db) (insertReferences w at ids)"

definition replaceReferences :: "ref_owner \<Rightarrow> ustr list \<Rightarrow> int \<Rightarrow> asset_db \<Rightarrow> asset_db store_res" where
  "replaceReferences w assetIds createdAt db = insertReferences w createdAt assetIds (dropReferences w db)"

definition deleteReferences :: "ref_owner \<Rightarrow> asset_db \<Rightarrow> ustr list \<times> asset_db" where
  "deleteReferences w db = (listReferenceIds w db, dropReferences w db)"

definition deleteAllReferencesForOwner :: "ustr \<Rightarrow> ustr \<Rightarrow> asset_db \<Rightarrow> ustr list \<times> asset_db" where
  "deleteAllReferencesForOwner ownerType ownerId db =
     (let mine = (\<lambda>r. ow_type (rf_owner r) = ownerType \<and> ow_id (rf_owner r) = ownerId) in
      (order_by text_le (remdups (map rf_asset (filter mine (ad_refs db)))),
       db\<lparr>ad_refs := filter (\<lambda>r. \<not> mine r) (ad_refs db)\<rparr>))"

text \<open>The storage key when the claim succeeded.\<close>

definition tryClaimUnreferenced :: "ustr \<Rightarrow> asset_db \<Rightarrow> ustr option \<times> asset_db" where
  "tryClaimUnreferenced assetId db =
     (case findAsset assetId db of
        None \<Rightarrow> (None, db)
      | Some m \<Rightarrow>
          if \<exists>r\<in>set (ad_refs db). rf_asset r = assetId then (None, db)
          else (Some (am_storageKey m), db\<lparr>ad_assets := filter (\<lambda>x. am_id x \<noteq> assetId) (ad_assets db)\<rparr>))"

lemmas [store_defs] = insertAsset_def dropReferences_def insertReference_def replaceReferences_def deleteReferences_def
  deleteAllReferencesForOwner_def tryClaimUnreferenced_def

section \<open>What the operations do to the tables\<close>

definition asset_db_ok :: "asset_db \<Rightarrow> bool" where
  "asset_db_ok db \<longleftrightarrow> distinct (map am_id (ad_assets db))
     \<and> (\<forall>m\<in>set (ad_assets db). am_storageKey m = am_id m \<and> 0 \<le> am_byteSize m \<and> uuidPattern (am_id m))
     \<and> distinct (map (\<lambda>r. (rf_asset r, rf_owner r)) (ad_refs db))
     \<and> (\<forall>r\<in>set (ad_refs db). rf_asset r \<in> am_id ` set (ad_assets db))"

definition references :: "asset_db \<Rightarrow> ref_owner \<Rightarrow> ustr set" where
  "references db w = set (map rf_asset (filter (\<lambda>r. rf_owner r = w) (ad_refs db)))"

lemma set_listReferenceIds [simp]: "set (listReferenceIds w db) = references db w"
  by (simp add: listReferenceIds_def references_def)

lemma findAsset_Some: "findAsset i db = Some m \<Longrightarrow> m \<in> set (ad_assets db) \<and> am_id m = i"
  unfolding findAsset_def by (rule lookup_by_SomeD)

lemma findAsset_iff: "asset_db_ok db \<Longrightarrow> findAsset i db = Some m \<longleftrightarrow> m \<in> set (ad_assets db) \<and> am_id m = i"
  unfolding findAsset_def asset_db_ok_def using lookup_by_SomeD [of am_id i "ad_assets db"] by (auto intro: lookup_by_mem)

lemma findAsset_None: "findAsset i db = None \<longleftrightarrow> i \<notin> am_id ` set (ad_assets db)"
  by (simp add: findAsset_def lookup_by_None_iff)

lemma insertReference_Inr: "insertReference w at i db = Inr db' \<longleftrightarrow>
    owner_check w \<and> i \<in> am_id ` set (ad_assets db) \<and> i \<notin> references db w
  \<and> db' = db\<lparr>ad_refs := ad_refs db @ [\<lparr>rf_asset = i, rf_owner = w, rf_createdAt = at\<rparr>]\<rparr>"
  by (auto simp: insertReference_def references_def image_iff)

lemma insertReferences_Inr: "insertReferences w at ids db = Inr db' \<longleftrightarrow>
    (ids \<noteq> [] \<longrightarrow> owner_check w) \<and> set ids \<subseteq> am_id ` set (ad_assets db) \<and> distinct ids \<and> set ids \<inter> references db w = {}
  \<and> db' = db\<lparr>ad_refs := ad_refs db @ map (\<lambda>i. \<lparr>rf_asset = i, rf_owner = w, rf_createdAt = at\<rparr>) ids\<rparr>"
proof (induction ids arbitrary: db)
  case (Cons i ids)
  let ?db = "db\<lparr>ad_refs := ad_refs db @ [\<lparr>rf_asset = i, rf_owner = w, rf_createdAt = at\<rparr>]\<rparr>"
  have "references ?db w = insert i (references db w)" by (simp add: references_def)
  then show ?case
    by (auto simp: bindR_eq_Inr insertReference_Inr Cons.IH)
qed auto

lemma references_drop: "references (dropReferences w db) v = (if v = w then {} else references db v)"
  by (auto simp: references_def dropReferences_def)

lemma assets_drop [simp]: "ad_assets (dropReferences w db) = ad_assets db"
  by (simp add: dropReferences_def)

text \<open>A successful replacement leaves exactly the new references of the owner and those of all others.\<close>

lemma replaceReferences_Inr:
  assumes "replaceReferences w ids at db = Inr db'"
  shows "ad_assets db' = ad_assets db" "distinct ids" "set ids \<subseteq> am_id ` set (ad_assets db)"
    and "references db' v = (if v = w then set ids else references db v)"
    and "filter (\<lambda>r. rf_owner r \<noteq> w) (ad_refs db') = filter (\<lambda>r. rf_owner r \<noteq> w) (ad_refs db)"
proof -
  from assms have d: "db' = (dropReferences w db)\<lparr>ad_refs := ad_refs (dropReferences w db)
      @ map (\<lambda>i. \<lparr>rf_asset = i, rf_owner = w, rf_createdAt = at\<rparr>) ids\<rparr>"
    and p: "distinct ids" "set ids \<subseteq> am_id ` set (ad_assets db)"
    by (simp_all add: replaceReferences_def insertReferences_Inr)
  show "ad_assets db' = ad_assets db" "distinct ids" "set ids \<subseteq> am_id ` set (ad_assets db)" using d p by simp_all
  show "references db' v = (if v = w then set ids else references db v)"
    by (simp add: references_def d dropReferences_def filter_map o_def conj_commute cong: conj_cong)
  show "filter (\<lambda>r. rf_owner r \<noteq> w) (ad_refs db') = filter (\<lambda>r. rf_owner r \<noteq> w) (ad_refs db)"
    by (simp add: d dropReferences_def filter_map o_def)
qed

lemma distinct_map_filterI: "distinct (map f xs) \<Longrightarrow> distinct (map f (filter P xs))"
  by (induction xs) auto

lemma drop_ok [intro]: "asset_db_ok db \<Longrightarrow> asset_db_ok (dropReferences w db)"
  by (auto simp: asset_db_ok_def dropReferences_def intro: distinct_map_filterI)

lemma insertReferences_ok:
  assumes "insertReferences w at ids db = Inr db'" "asset_db_ok db"
  shows "asset_db_ok db'"
proof -
  from assms(1) have p: "set ids \<subseteq> am_id ` set (ad_assets db)" "distinct ids" "set ids \<inter> references db w = {}"
    and d: "db' = db\<lparr>ad_refs := ad_refs db @ map (\<lambda>i. \<lparr>rf_asset = i, rf_owner = w, rf_createdAt = at\<rparr>) ids\<rparr>"
    by (auto simp: insertReferences_Inr)
  have "(\<lambda>r. (rf_asset r, rf_owner r)) ` set (ad_refs db) \<inter> (\<lambda>i. (i, w)) ` set ids = {}"
    using p(3) by (fastforce simp: references_def)
  moreover have "inj_on (\<lambda>i. (i, w)) (set ids)" by (simp add: inj_on_def)
  ultimately show ?thesis
    using assms(2) p(1,2) by (auto simp: asset_db_ok_def d o_def distinct_map)
qed

lemma replaceReferences_ok: "replaceReferences w ids at db = Inr db' \<Longrightarrow> asset_db_ok db \<Longrightarrow> asset_db_ok db'"
  unfolding replaceReferences_def by (erule insertReferences_ok) (rule drop_ok)

lemma deleteAll_ok: "asset_db_ok db \<Longrightarrow> asset_db_ok (snd (deleteAllReferencesForOwner t i db))"
  by (auto simp: asset_db_ok_def deleteAllReferencesForOwner_def Let_def intro: distinct_map_filterI)

lemma insertAsset_ok:
  assumes "insertAsset m db = Inr db'" "asset_db_ok db" "am_storageKey m = am_id m" "uuidPattern (am_id m)"
  shows "asset_db_ok db'"
  using assms by (auto simp: insertAsset_def asset_db_ok_def split: if_splits)

lemma claim_ok:
  assumes "asset_db_ok db"
  shows "asset_db_ok (snd (tryClaimUnreferenced i db))"
proof -
  have "rf_asset r \<in> am_id ` {x \<in> set (ad_assets db). am_id x \<noteq> i}"
    if "\<forall>r\<in>set (ad_refs db). rf_asset r \<noteq> i" "r \<in> set (ad_refs db)" for r
  proof -
    have "rf_asset r \<in> am_id ` set (ad_assets db)" using that(2) assms by (simp add: asset_db_ok_def)
    then obtain m where "m \<in> set (ad_assets db)" "rf_asset r = am_id m" by blast
    with that show ?thesis by auto
  qed
  with assms show ?thesis
    by (auto simp: asset_db_ok_def tryClaimUnreferenced_def intro: distinct_map_filterI split: option.splits)
qed

lemma claim_result:
  assumes "tryClaimUnreferenced i db = (Some k, db')" "asset_db_ok db"
  shows "k = i" "\<exists>m\<in>set (ad_assets db). am_id m = i" "\<forall>r\<in>set (ad_refs db). rf_asset r \<noteq> i"
    and "ad_refs db' = ad_refs db" "set (ad_assets db') = {m \<in> set (ad_assets db). am_id m \<noteq> i}"
  using assms findAsset_Some [of i db] by (auto simp: tryClaimUnreferenced_def asset_db_ok_def split: option.splits if_splits)

lemma claim_none: "tryClaimUnreferenced i db = (None, db') \<Longrightarrow> db' = db"
  by (auto simp: tryClaimUnreferenced_def split: option.splits if_splits)

end
