(* ===== verification/BoardScenes.thy ===== *)
theory BoardScenes
  imports AssetStore
begin

text \<open>
  What a board request may contain and what a board stores (server/board/validation.ts with
  shared/boardProtocol.ts). The drawing itself is opaque JSON, except that its image elements name files and
  its file map sends each of these to an asset; the references of a scene are exactly the assets of the map.
\<close>

section \<open>Identifiers, names and numbers\<close>

definition BOARD_ENGINE_EXCALIDRAW :: ustr where "BOARD_ENGINE_EXCALIDRAW = js ''excalidraw''"
definition CURRENT_BOARD_SCENE_VERSION :: int where "CURRENT_BOARD_SCENE_VERSION = 1"
definition DEFAULT_BOARD_TITLE :: ustr where "DEFAULT_BOARD_TITLE = js ''Untitled Board''"

definition boardValidationError :: "'a store_res" where
  "boardValidationError = Inl (BoardError BOARD_VALIDATION_ERROR 400)"

definition assertBoardId :: "jval \<Rightarrow> ustr store_res" where
  "assertBoardId v = (case v of
     JStr s \<Rightarrow> if s = [] \<or> js_trim s \<noteq> s then boardValidationError else Inr s
   | _ \<Rightarrow> boardValidationError)"

definition assertBoardFolderId :: "jval \<Rightarrow> ustr store_res" where
  "assertBoardFolderId v = (case v of
     JStr s \<Rightarrow> if s = [] \<or> js_trim s \<noteq> s then boardValidationError else Inr s
   | _ \<Rightarrow> boardValidationError)"

definition normalizeBoardFolderName :: "jval \<Rightarrow> ustr store_res" where
  "normalizeBoardFolderName v = (case v of
     JStr s \<Rightarrow> (let name = js_trim s in
       if length name = 0 then boardValidationError
       else if length name > 80 then boardValidationError
       else Inr name)
   | _ \<Rightarrow> boardValidationError)"

definition normalizeNullableBoardFolderId :: "jval \<Rightarrow> ustr option store_res" where
  "normalizeNullableBoardFolderId v =
     (if v = JNull \<or> v = JUndef then Inr None else bindR (assertBoardFolderId v) (\<lambda>i. Inr (Some i)))"

definition normalizeBoardTitle :: "jval \<Rightarrow> ustr store_res" where
  "normalizeBoardTitle v = (case v of
     JStr s \<Rightarrow> (let title = js_trim s in Inr (if title = [] then DEFAULT_BOARD_TITLE else title))
   | _ \<Rightarrow> boardValidationError)"

definition assertExpectedRevision :: "jval \<Rightarrow> int store_res" where
  "assertExpectedRevision v = (case v of
     JInt n \<Rightarrow> if is_safe n \<and> 0 \<le> n then Inr n else boardValidationError
   | _ \<Rightarrow> boardValidationError)"

definition assertSupportedBoardSceneContract :: "jval \<Rightarrow> jval \<Rightarrow> unit store_res" where
  "assertSupportedBoardSceneContract engine sceneVersion =
     (if engine \<noteq> JStr BOARD_ENGINE_EXCALIDRAW then Inl (BoardError BOARD_SCENE_ENGINE_UNSUPPORTED 409)
      else if sceneVersion \<noteq> JInt CURRENT_BOARD_SCENE_VERSION then Inl (BoardError BOARD_SCENE_VERSION_UNSUPPORTED 409)
      else Inr ())"

section \<open>Scenes\<close>

record board_scene =
  sn_engineData :: jval
  sn_appState :: jval
  sn_assetRefs :: "ustr list"

definition CANONICAL_EMPTY_ENGINE_DATA :: jval where
  "CANONICAL_EMPTY_ENGINE_DATA = JObj [(js ''elements'', JArr []), (js ''fileMap'', JObj [])]"

definition createCanonicalEmptyBoardScene :: board_scene where
  "createCanonicalEmptyBoardScene =
     \<lparr>sn_engineData = CANONICAL_EMPTY_ENGINE_DATA, sn_appState = JObj [], sn_assetRefs = []\<rparr>"

primrec normalizeReferencesFrom :: "ustr list \<Rightarrow> jval list \<Rightarrow> ustr list store_res" where
  "normalizeReferencesFrom result [] = Inr result"
| "normalizeReferencesFrom result (item # rest) =
     (if \<not> isAssetId item then boardValidationError
      else case item of
        JStr s \<Rightarrow> if s \<in> set result then boardValidationError else normalizeReferencesFrom (result @ [s]) rest
      | _ \<Rightarrow> boardValidationError)"

definition normalizeAssetReferences :: "jval \<Rightarrow> ustr list store_res" where
  "normalizeAssetReferences v = (case v of JArr xs \<Rightarrow> normalizeReferencesFrom [] xs | _ \<Rightarrow> boardValidationError)"

text \<open>The files of the images that are not deleted; each must be mapped.\<close>

primrec activeImages :: "jobj \<Rightarrow> ustr list \<Rightarrow> jval list \<Rightarrow> ustr list store_res" where
  "activeImages fileMap active [] = Inr active"
| "activeImages fileMap active (element # rest) =
     (case element of
        JObj e \<Rightarrow>
          if jget e ''type'' \<noteq> JStr (js ''image'') \<or> jget e ''isDeleted'' = JBool True then activeImages fileMap active rest
          else (case jget e ''fileId'' of
                  JStr f \<Rightarrow>
                    if js_trim f = [] then boardValidationError
                    else if map_of fileMap f = None then boardValidationError
                    else activeImages fileMap (active @ [f]) rest
                | _ \<Rightarrow> boardValidationError)
      | _ \<Rightarrow> activeImages fileMap active rest)"

primrec checkFileMap :: "ustr list \<Rightarrow> jobj \<Rightarrow> unit store_res" where
  "checkFileMap active [] = Inr ()"
| "checkFileMap active (entry # rest) =
     (if js_trim (fst entry) = [] then boardValidationError
      else if \<not> isAssetId (snd entry) then boardValidationError
      else if fst entry \<notin> set active then boardValidationError
      else checkFileMap active rest)"

text \<open>The file map of valid engine data.\<close>

definition validateEngineData :: "jval \<Rightarrow> jobj store_res" where
  "validateEngineData v = (case v of
     JObj e \<Rightarrow>
       (case (jget e ''elements'', jget e ''fileMap'') of
          (JArr elements, JObj fileMap) \<Rightarrow>
            bindR (activeImages fileMap [] elements) (\<lambda>active.
            bindR (checkFileMap active fileMap) (\<lambda>_. Inr fileMap))
        | _ \<Rightarrow> boardValidationError)
   | _ \<Rightarrow> boardValidationError)"

definition finite_text :: "ustr \<Rightarrow> bool" where
  "finite_text t \<longleftrightarrow> t \<notin> {js ''NaN'', js ''Infinity'', js ''-Infinity''}"

definition finiteNumber :: "jval \<Rightarrow> bool" where
  "finiteNumber v = (case v of JInt _ \<Rightarrow> True | JFloat t \<Rightarrow> finite_text t | _ \<Rightarrow> False)"

definition PERSISTENT_APP_STATE_FIELDS :: "ustr list" where
  "PERSISTENT_APP_STATE_FIELDS = [js ''zoom'', js ''scrollX'', js ''scrollY'', js ''gridSize'', js ''viewBackgroundColor'']"

definition validatePersistentAppState :: "jval \<Rightarrow> jval store_res" where
  "validatePersistentAppState v = (case v of
     JObj a \<Rightarrow>
       (if \<exists>k\<in>set (map fst a). k \<notin> set PERSISTENT_APP_STATE_FIELDS then boardValidationError
        else if \<exists>k\<in>{''zoom'', ''scrollX'', ''scrollY''}. hasOwn a k \<and> \<not> finiteNumber (jget a k) then boardValidationError
        else if hasOwn a ''gridSize'' \<and> jget a ''gridSize'' \<noteq> JNull \<and> \<not> finiteNumber (jget a ''gridSize'') then boardValidationError
        else if hasOwn a ''viewBackgroundColor'' \<and> (case jget a ''viewBackgroundColor'' of JStr _ \<Rightarrow> False | _ \<Rightarrow> True)
        then boardValidationError
        else Inr v)
   | _ \<Rightarrow> boardValidationError)"

text \<open>\<open>normalizeBoardScene\<close> of an object with these three properties.\<close>

definition normalizeSceneParts :: "jval \<Rightarrow> jval \<Rightarrow> jval \<Rightarrow> board_scene store_res" where
  "normalizeSceneParts engineData appState refs =
     bindR (validateEngineData engineData) (\<lambda>fileMap.
     bindR (normalizeAssetReferences refs) (\<lambda>assetRefs.
       let fileMapAssetIds = set (map snd fileMap) in
       if card fileMapAssetIds \<noteq> length assetRefs \<or> (\<exists>i\<in>set assetRefs. JStr i \<notin> fileMapAssetIds) then boardValidationError
       else bindR (validatePersistentAppState appState) (\<lambda>app.
         Inr \<lparr>sn_engineData = engineData, sn_appState = app, sn_assetRefs = assetRefs\<rparr>)))"

definition normalizeBoardScene :: "jval \<Rightarrow> board_scene store_res" where
  "normalizeBoardScene v = (case v of
     JObj s \<Rightarrow> normalizeSceneParts (jget s ''engineData'') (jget s ''persistentAppState'') (jget s ''assetRefs'')
   | _ \<Rightarrow> boardValidationError)"

definition refs_json :: "ustr list \<Rightarrow> jval" where
  "refs_json ids = JArr (map JStr ids)"

definition parseStoredBoardScene :: "runtime \<Rightarrow> ustr \<Rightarrow> ustr \<Rightarrow> ustr list \<Rightarrow> board_scene store_res" where
  "parseStoredBoardScene rt engineDataJson appStateJson assetRefs =
     (case (rt_json_parse rt engineDataJson, rt_json_parse rt appStateJson) of
        (Some engineData, Some appState) \<Rightarrow>
          (case normalizeSceneParts engineData appState (refs_json assetRefs) of
             Inl (BoardError BOARD_VALIDATION_ERROR _) \<Rightarrow> Inl (BoardError BOARD_SCENE_CORRUPT 500)
           | r \<Rightarrow> r)
      | _ \<Rightarrow> Inl (BoardError BOARD_SCENE_CORRUPT 500))"

definition migrateBoardScene :: "int \<Rightarrow> board_scene \<Rightarrow> board_scene store_res" where
  "migrateBoardScene sceneVersion scene =
     (if sceneVersion \<noteq> CURRENT_BOARD_SCENE_VERSION then Inl (BoardError BOARD_SCENE_VERSION_UNSUPPORTED 409) else Inr scene)"

definition serializeBoardScenePart :: "runtime \<Rightarrow> jval \<Rightarrow> ustr store_res" where
  "serializeBoardScenePart rt v = (if v = JUndef then boardValidationError else Inr (rt_json_text rt v))"

section \<open>JSON text\<close>

text \<open>
  \<open>JSON.stringify\<close> followed by \<open>JSON.parse\<close> on a value that \<open>JSON.parse\<close> returned: the value itself, with
  \<open>null\<close> for a number that is not finite (\<open>1e999\<close> parses to an infinity).
\<close>

fun stored_json :: "jval \<Rightarrow> jval" where
  "stored_json (JFloat t) = (if finite_text t then JFloat t else JNull)"
| "stored_json (JArr xs) = JArr (map stored_json xs)"
| "stored_json (JObj ps) = JObj (map (\<lambda>p. (fst p, stored_json (snd p))) ps)"
| "stored_json v = v"

definition parsed_json :: "runtime \<Rightarrow> jval \<Rightarrow> bool" where
  "parsed_json rt v \<longleftrightarrow> (\<exists>t. rt_json_parse rt t = Some v)"

definition json_laws :: "runtime \<Rightarrow> bool" where
  "json_laws rt \<longleftrightarrow>
     (\<forall>v. parsed_json rt v \<longrightarrow> rt_json_parse rt (rt_json_text rt v) = Some (stored_json v))
   \<and> \<not> parsed_json rt JUndef
   \<and> (\<forall>ps. parsed_json rt (JObj ps) \<longrightarrow> distinct (map fst ps) \<and> (\<forall>p\<in>set ps. parsed_json rt (snd p)))
   \<and> parsed_json rt CANONICAL_EMPTY_ENGINE_DATA \<and> parsed_json rt (JObj [])"

lemma map_of_stored: "map_of (map (\<lambda>p. (fst p, stored_json (snd p))) ps) k = map_option stored_json (map_of ps k)"
  by (induction ps) auto

lemma jget_stored [simp]: "jget (map (\<lambda>p. (fst p, stored_json (snd p))) ps) k = stored_json (jget ps k)"
  by (simp add: jget_def map_of_stored split: option.splits)

lemma stored_simps [simp]:
  "stored_json v = JStr s \<longleftrightarrow> v = JStr s" "stored_json v = JBool b \<longleftrightarrow> v = JBool b"
  "stored_json v = JArr ys \<longleftrightarrow> (\<exists>xs. v = JArr xs \<and> ys = map stored_json xs)"
  "stored_json v = JObj qs \<longleftrightarrow> (\<exists>ps. v = JObj ps \<and> qs = map (\<lambda>p. (fst p, stored_json (snd p))) ps)"
  by (cases v; auto)+

lemma isAssetId_JStr: "isAssetId v \<longleftrightarrow> (\<exists>s. v = JStr s \<and> uuidPattern s)"
  by (auto simp: isAssetId_def split: jval.splits)

lemma isAssetId_stored [simp]: "isAssetId (stored_json v) = isAssetId v"
  by (simp add: isAssetId_JStr)

lemma boardValidationError_simps [simp]:
  "boardValidationError \<noteq> Inr x" "(boardValidationError = (Inl e :: 'a store_res)) = (e = BoardError BOARD_VALIDATION_ERROR 400)"
  by (auto simp: boardValidationError_def)

section \<open>Validation is stable\<close>

lemma activeImages_stored:
  "activeImages fm act els = Inr r \<Longrightarrow>
     activeImages (map (\<lambda>p. (fst p, stored_json (snd p))) fm) act (map stored_json els) = Inr r"
  by (induction els arbitrary: act)
    (auto simp: map_of_stored split: jval.splits if_splits)

lemma checkFileMap_stored:
  "checkFileMap act fm = Inr u \<Longrightarrow> checkFileMap act (map (\<lambda>p. (fst p, stored_json (snd p))) fm) = Inr u"
  by (induction fm) (auto split: if_splits)

lemma checkFileMap_ids: "checkFileMap act fm = Inr u \<Longrightarrow> \<forall>v\<in>set (map snd fm). isAssetId v"
  by (induction fm) (auto split: if_splits)

lemma stored_ids: "\<forall>v\<in>set (map snd fm). isAssetId v \<Longrightarrow> map (\<lambda>p. (fst p, stored_json (snd p))) fm = fm"
  by (induction fm) (auto simp: isAssetId_JStr)

lemma validateEngineData_stored:
  assumes "validateEngineData v = Inr fm"
  shows "validateEngineData (stored_json v) = Inr fm" "\<forall>x\<in>set (map snd fm). isAssetId x" "v \<noteq> JUndef"
proof -
  from assms obtain e els act where v: "v = JObj e" "jget e ''elements'' = JArr els" "jget e ''fileMap'' = JObj fm"
    and a: "activeImages fm [] els = Inr act" "checkFileMap act fm = Inr ()"
    by (auto simp: validateEngineData_def bindR_eq_Inr split: jval.splits)
  show ids: "\<forall>x\<in>set (map snd fm). isAssetId x" using checkFileMap_ids [OF a(2)] .
  show "v \<noteq> JUndef" using v by simp
  show "validateEngineData (stored_json v) = Inr fm"
    using v activeImages_stored [OF a(1)] a(2) by (simp add: validateEngineData_def stored_ids [OF ids])
qed

lemma normalizeReferencesFrom_Inr:
  "normalizeReferencesFrom acc xs = Inr ids \<longleftrightarrow>
     (\<exists>more. xs = map JStr more \<and> ids = acc @ more \<and> (\<forall>s\<in>set more. uuidPattern s) \<and> distinct more \<and> set more \<inter> set acc = {})"
proof (induction xs arbitrary: acc)
  case (Cons x xs)
  show ?case
  proof (cases "isAssetId x")
    case True
    then obtain s where x: "x = JStr s" "uuidPattern s" by (auto simp: isAssetId_JStr)
    have "isAssetId (JStr s)" using True x by simp
    then show ?thesis
      unfolding x(1) using x(2)
      by (auto simp: Cons.IH map_eq_Cons_conv Cons_eq_map_conv)
  next
    case False
    then show ?thesis by (auto simp: isAssetId_JStr Cons_eq_map_conv)
  qed
qed auto

lemma normalizeAssetReferences_Inr:
  "normalizeAssetReferences v = Inr ids \<longleftrightarrow> v = refs_json ids \<and> (\<forall>s\<in>set ids. uuidPattern s) \<and> distinct ids"
  by (auto simp: normalizeAssetReferences_def refs_json_def normalizeReferencesFrom_Inr split: jval.splits)

lemma appState_stored:
  assumes "validatePersistentAppState v = Inr a" "\<And>ps. v = JObj ps \<Longrightarrow> distinct (map fst ps)"
  shows "a = v \<and> stored_json v = v \<and> v \<noteq> JUndef"
proof -
  from assms(1) obtain ps where v: "v = JObj ps" and a: "a = v"
    and known: "\<forall>k\<in>set (map fst ps). k \<in> set PERSISTENT_APP_STATE_FIELDS"
    and num: "\<forall>k\<in>{''zoom'', ''scrollX'', ''scrollY''}. hasOwn ps k \<longrightarrow> finiteNumber (jget ps k)"
    and grid: "hasOwn ps ''gridSize'' \<longrightarrow> jget ps ''gridSize'' = JNull \<or> finiteNumber (jget ps ''gridSize'')"
    and bg: "hasOwn ps ''viewBackgroundColor'' \<longrightarrow> (\<exists>s. jget ps ''viewBackgroundColor'' = JStr s)"
    by (auto simp: validatePersistentAppState_def split: jval.splits if_splits)
  have fin: "finiteNumber x \<Longrightarrow> stored_json x = x" for x by (auto simp: finiteNumber_def split: jval.splits)
  have "stored_json (snd p) = snd p" if p: "p \<in> set ps" for p
  proof -
    have m: "map_of ps (fst p) = Some (snd p)"
      using p assms(2) [OF v] by (simp add: map_of_eq_Some_iff)
    have "fst p \<in> set PERSISTENT_APP_STATE_FIELDS" using known p by auto
    then consider k where "k \<in> {''zoom'', ''scrollX'', ''scrollY''}" "fst p = js k"
      | "fst p = js ''gridSize''" | "fst p = js ''viewBackgroundColor''"
      by (auto simp: PERSISTENT_APP_STATE_FIELDS_def)
    then show ?thesis
    proof cases
      case 1
      with num m have "finiteNumber (snd p)" by (force simp: hasOwn_def jget_def)
      then show ?thesis by (rule fin)
    next
      case 2
      with grid m have "snd p = JNull \<or> finiteNumber (snd p)" by (auto simp: hasOwn_def jget_def)
      then show ?thesis using fin by auto
    next
      case 3
      with bg m show ?thesis by (auto simp: hasOwn_def jget_def)
    qed
  qed
  then have "map (\<lambda>p. (fst p, stored_json (snd p))) ps = ps" by (simp add: map_idI)
  with v a show ?thesis by simp
qed

text \<open>A normalized scene, its references in any order: what is stored normalizes to the stored scene.\<close>

lemma normalizeSceneParts_Inr:
  assumes "normalizeSceneParts e a r = Inr sc"
  shows "sn_engineData sc = e" "sn_appState sc = a" "r = refs_json (sn_assetRefs sc)" "distinct (sn_assetRefs sc)"
    and "\<exists>fm. validateEngineData e = Inr fm \<and> set (map snd fm) = JStr ` set (sn_assetRefs sc)"
    and "validatePersistentAppState a = Inr a" "e \<noteq> JUndef" "\<forall>s\<in>set (sn_assetRefs sc). uuidPattern s"
proof -
  from assms obtain fm ids where fm: "validateEngineData e = Inr fm" and ids: "normalizeAssetReferences r = Inr ids"
    and card: "card (set (map snd fm)) = length ids" and sub: "\<forall>i\<in>set ids. JStr i \<in> set (map snd fm)"
    and a: "validatePersistentAppState a = Inr (sn_appState sc)" and sc: "sn_engineData sc = e" "sn_assetRefs sc = ids"
    by (auto simp: normalizeSceneParts_def bindR_eq_Inr Let_def split: if_splits)
  have app: "sn_appState sc = a" using a by (auto simp: validatePersistentAppState_def split: jval.splits if_splits)
  have d: "distinct ids" "r = refs_json ids" "\<forall>s\<in>set ids. uuidPattern s" using ids by (simp_all add: normalizeAssetReferences_Inr)
  have "card (JStr ` set ids) = length ids" using d(1) by (simp add: card_image inj_on_def distinct_card)
  then have "set (map snd fm) = JStr ` set ids"
    using card sub by (metis List.finite_set card_subset_eq image_subset_iff)
  then show "\<exists>fm. validateEngineData e = Inr fm \<and> set (map snd fm) = JStr ` set (sn_assetRefs sc)" using fm sc by blast
  show "sn_engineData sc = e" "sn_appState sc = a" "r = refs_json (sn_assetRefs sc)" "distinct (sn_assetRefs sc)"
    "validatePersistentAppState a = Inr a" "\<forall>s\<in>set (sn_assetRefs sc). uuidPattern s" using sc app d a by simp_all
  show "e \<noteq> JUndef" using validateEngineData_stored(3) [OF fm] .
qed

lemma stored_scene_valid:
  assumes n: "normalizeSceneParts e a r = Inr sc" and d: "\<And>ps. a = JObj ps \<Longrightarrow> distinct (map fst ps)"
    and refs: "set ids = set (sn_assetRefs sc)" "distinct ids"
  shows "normalizeSceneParts (stored_json e) (stored_json a) (refs_json ids)
     = Inr \<lparr>sn_engineData = stored_json e, sn_appState = a, sn_assetRefs = ids\<rparr>"
proof -
  note p = normalizeSceneParts_Inr [OF n]
  obtain fm where fm: "validateEngineData e = Inr fm" "set (map snd fm) = JStr ` set ids" using p(5) refs by auto
  have "normalizeAssetReferences (refs_json ids) = Inr ids" using p(8) refs by (simp add: normalizeAssetReferences_Inr)
  moreover have "card (set (map snd fm)) = length ids"
    unfolding fm(2) using refs(2) by (simp add: card_image inj_on_def distinct_card)
  moreover have "stored_json a = a" using appState_stored [OF p(6) d] by simp
  ultimately show ?thesis
    using validateEngineData_stored(1) [OF fm(1)] p(6) fm(2) by (simp add: normalizeSceneParts_def)
qed

end
