(* ===== verification/AssetService.thy ===== *)
theory AssetService
  imports AssetStore
begin

text \<open>
  The asset service (server/assets/service.ts) over the file system boundary (server/assets/storage.ts and the
  create-only files of server/durableCreateOnlyFile.ts). The files are a map from names to an inode and bytes.
  An operation that awaits the file system is split there: its first part ends in a task, and the step of a
  task is what one turn of the event loop does with it, ending in an error, in a result or in the next task.

  The record \<open>asset_turn\<close> is what a turn meets: the clock, whether reads and transactions of the database
  fail, whether a commit is reported as failed although it happened, what the awaited file operation throws,
  the inode of a created file and what a failed write leaves behind. The hash of bytes is the parameter \<open>hash\<close>.
\<close>

section \<open>Turns, files and tasks\<close>

record asset_turn =
  at_now :: int
  at_readFails :: bool
  at_writeFails :: bool
  at_commitLost :: bool
  at_io :: "store_error option"
  at_inode :: nat
  at_left :: "nat list option"

record stored_file =
  fl_inode :: nat
  fl_data :: "nat list"

type_synonym files = "ustr \<Rightarrow> stored_file option"

text \<open>
  \<open>CreateOpen\<close>: the file is about to be opened with O_EXCL; \<open>CreateWrite\<close>: it is open and being written;
  \<open>UndoCreate\<close>: the metadata could not be stored and the file is being removed; \<open>VerifyRead\<close>: an asset with
  this content is already known and its file is being read.
\<close>

datatype asset_task =
    CreateOpen asset_meta "nat list"
  | CreateWrite asset_meta "nat list" nat
  | UndoCreate asset_meta nat
  | VerifyRead asset_meta asset_meta

datatype removal = Capture ustr | Unlink ustr nat ustr

record cleaner =
  cl_removal :: "removal option"
  cl_ids :: "ustr list"
  cl_failed :: "ustr list"

record reader =
  rd_current :: "asset_meta option"
  rd_ids :: "ustr list"

section \<open>Reading\<close>

definition isSafeTimestamp :: "int \<Rightarrow> bool" where
  "isSafeTimestamp v \<longleftrightarrow> is_safe v \<and> 0 \<le> v"

definition assertStorageKey :: "asset_meta \<Rightarrow> unit store_res" where
  "assertStorageKey m =
     (if am_storageKey m \<noteq> am_id m then Inl (AssetError ASSET_STORAGE_ERROR 500)
      else bindR (assertAssetId (JStr (am_storageKey m))) (\<lambda>_. Inr ()))"

text \<open>\<open>readAssetBinary\<close> before its wait, and after it.\<close>

definition readBegin :: "asset_turn \<Rightarrow> ustr \<Rightarrow> asset_db \<Rightarrow> asset_meta store_res" where
  "readBegin tn assetId db =
     bindR (assertAssetId (JStr assetId)) (\<lambda>i.
       if at_readFails tn then Inl OtherFault
       else case findAsset i db of
         None \<Rightarrow> Inl (AssetError ASSET_NOT_FOUND 404)
       | Some m \<Rightarrow> bindR (assertStorageKey m) (\<lambda>_. Inr m))"

definition readFinish :: "(nat list \<Rightarrow> ustr) \<Rightarrow> asset_turn \<Rightarrow> asset_meta \<Rightarrow> files \<Rightarrow> nat list store_res" where
  "readFinish hash tn m fs =
     (case at_io tn of
        Some (AssetError c st) \<Rightarrow> Inl (AssetError c st)
      | Some _ \<Rightarrow> Inl (AssetError ASSET_BINARY_UNREADABLE 500)
      | None \<Rightarrow>
          (case fs (am_id m) of
             None \<Rightarrow> Inl (AssetError ASSET_BINARY_MISSING 500)
           | Some f \<Rightarrow>
               if int (length (fl_data f)) \<noteq> am_byteSize m \<or> hash (fl_data f) \<noteq> am_sha256 m
               then Inl (AssetError ASSET_BINARY_CORRUPT 500)
               else Inr (fl_data f)))"

text \<open>One turn of \<open>assertAssetReferencesReadable\<close>; \<open>None\<close> when the loop is over.\<close>

definition readerStep :: "(nat list \<Rightarrow> ustr) \<Rightarrow> asset_turn \<Rightarrow> reader \<Rightarrow> asset_db \<Rightarrow> files \<Rightarrow> reader option store_res" where
  "readerStep hash tn r db fs =
     (case rd_current r of
        Some m \<Rightarrow> bindR (readFinish hash tn m fs) (\<lambda>_. Inr (Some (r\<lparr>rd_current := None\<rparr>)))
      | None \<Rightarrow>
          (case rd_ids r of
             [] \<Rightarrow> Inr None
           | i # rest \<Rightarrow> bindR (readBegin tn i db) (\<lambda>m. Inr (Some \<lparr>rd_current = Some m, rd_ids = rest\<rparr>))))"

section \<open>Storing\<close>

definition getAssetMetadata :: "asset_turn \<Rightarrow> jval \<Rightarrow> asset_db \<Rightarrow> asset_meta option store_res" where
  "getAssetMetadata tn assetId db =
     bindR (assertAssetId assetId) (\<lambda>i. if at_readFails tn then Inl OtherFault else Inr (findAsset i db))"

definition verifyIdempotentAsset :: "asset_turn \<Rightarrow> asset_meta \<Rightarrow> int \<Rightarrow> ustr \<Rightarrow> asset_db \<Rightarrow> asset_task store_res" where
  "verifyIdempotentAsset tn m byteSize sha256 db =
     bindR (assertStorageKey m) (\<lambda>_.
       if am_byteSize m \<noteq> byteSize \<or> am_sha256 m \<noteq> sha256 then Inl (AssetError ASSET_ID_CONFLICT 409)
       else bindR (readBegin tn (am_id m) db) (\<lambda>m'. Inr (VerifyRead m m')))"

definition persistAsset ::
  "(nat list \<Rightarrow> ustr) \<Rightarrow> asset_turn \<Rightarrow> jval \<Rightarrow> jval \<Rightarrow> nat list \<Rightarrow> int option \<Rightarrow> asset_db \<Rightarrow> asset_task store_res" where
  "persistAsset hash tn assetIdValue mimeValue data maxBytes db =
     bindR (assertAssetId assetIdValue) (\<lambda>assetId.
     bindR (assertBoardAssetMimeType mimeValue) (\<lambda>mimeType.
       if (case maxBytes of None \<Rightarrow> False | Some k \<Rightarrow> \<not> (is_safe k \<and> 0 \<le> k)) then Inl (AssetError ASSET_BINARY_CONFLICT 400)
       else if (case maxBytes of None \<Rightarrow> False | Some k \<Rightarrow> int (length data) > k) then Inl (AssetError ASSET_BINARY_CONFLICT 413)
       else if at_readFails tn then Inl OtherFault
       else let sha256 = hash data; byteSize = int (length data) in
         case findAsset assetId db of
           Some existing \<Rightarrow> verifyIdempotentAsset tn existing byteSize sha256 db
         | None \<Rightarrow>
             if \<not> isSafeTimestamp (at_now tn) then Inl (AssetError ASSET_STORAGE_ERROR 500)
             else Inr (CreateOpen \<lparr>am_id = assetId, am_mimeType = mimeType, am_byteSize = byteSize, am_sha256 = sha256,
                                   am_storageKey = assetId, am_createdAt = at_now tn\<rparr> data)))"

text \<open>The open with O_EXCL, with what follows its EEXIST.\<close>

definition createOpen :: "asset_turn \<Rightarrow> asset_meta \<Rightarrow> nat list \<Rightarrow> asset_db \<Rightarrow> files \<Rightarrow> asset_task store_res \<times> files" where
  "createOpen tn m data db fs =
     (case at_io tn of
        Some e \<Rightarrow> (Inl e, fs)
      | None \<Rightarrow>
          if fs (am_id m) = None
          then (Inr (CreateWrite m data (at_inode tn)), fs(am_id m \<mapsto> \<lparr>fl_inode = at_inode tn, fl_data = []\<rparr>))
          else if at_readFails tn then (Inl OtherFault, fs)
          else (case findAsset (am_id m) db of
                  Some raced \<Rightarrow> (verifyIdempotentAsset tn raced (am_byteSize m) (am_sha256 m) db, fs)
                | None \<Rightarrow> (Inl (AssetError ASSET_BINARY_CONFLICT 409), fs)))"

text \<open>After the file is written: the insert, and the answer to its failure.\<close>

definition insertCreated ::
  "asset_turn \<Rightarrow> asset_meta \<Rightarrow> nat \<Rightarrow> asset_db \<Rightarrow> (asset_meta + asset_task) store_res \<times> asset_db" where
  "insertCreated tn m inode db =
     (let failed = (\<lambda>now.
            case (if at_readFails tn then None else findAsset (am_id m) now) of
              Some incumbent \<Rightarrow> (bindR (verifyIdempotentAsset tn incumbent (am_byteSize m) (am_sha256 m) now) (\<lambda>t. Inr (Inr t)), now)
            | None \<Rightarrow> (Inr (Inr (UndoCreate m inode)), now))
      in case (if at_writeFails tn then Inl OtherFault else insertAsset m db) of
           Inl _ \<Rightarrow> failed db
         | Inr db' \<Rightarrow> if at_commitLost tn then failed db' else (Inr (Inl m), db'))"

definition createWrite ::
  "asset_turn \<Rightarrow> asset_meta \<Rightarrow> nat list \<Rightarrow> nat \<Rightarrow> asset_db \<Rightarrow> files \<Rightarrow> (asset_meta + asset_task) store_res \<times> asset_db \<times> files" where
  "createWrite tn m data inode db fs =
     (case at_io tn of
        Some e \<Rightarrow> (Inl e, db, fs(am_id m := map_option (\<lambda>d. \<lparr>fl_inode = inode, fl_data = d\<rparr>) (at_left tn)))
      | None \<Rightarrow>
          (let (r, db') = insertCreated tn m inode db in
           (r, db', fs(am_id m \<mapsto> \<lparr>fl_inode = inode, fl_data = data\<rparr>))))"

text \<open>\<open>removeCreatedDurableFile\<close>: the file goes only when it is still the owned one.\<close>

definition removeCreatedFile :: "(nat list \<Rightarrow> ustr) \<Rightarrow> ustr \<Rightarrow> nat \<Rightarrow> ustr \<Rightarrow> files \<Rightarrow> files option" where
  "removeCreatedFile hash i inode contentHash fs =
     (case fs i of
        None \<Rightarrow> None
      | Some f \<Rightarrow> if fl_inode f = inode \<and> hash (fl_data f) = contentHash then Some (fs(i := None)) else None)"

definition undoCreate :: "(nat list \<Rightarrow> ustr) \<Rightarrow> asset_turn \<Rightarrow> asset_meta \<Rightarrow> nat \<Rightarrow> files \<Rightarrow> store_error \<times> files" where
  "undoCreate hash tn m inode fs =
     (AssetError ASSET_METADATA_PERSIST_FAILED 500,
      if at_io tn \<noteq> None then fs
      else case removeCreatedFile hash (am_id m) inode (am_sha256 m) fs of None \<Rightarrow> fs | Some fs' \<Rightarrow> fs')"

text \<open>One turn of a pending \<open>persistAsset\<close>.\<close>

definition persistStep ::
  "(nat list \<Rightarrow> ustr) \<Rightarrow> asset_turn \<Rightarrow> asset_task \<Rightarrow> asset_db \<Rightarrow> files \<Rightarrow> (asset_meta + asset_task) store_res \<times> asset_db \<times> files" where
  "persistStep hash tn task db fs =
     (case task of
        CreateOpen m data \<Rightarrow> (let (r, fs') = createOpen tn m data db fs in (bindR r (\<lambda>t. Inr (Inr t)), db, fs'))
      | CreateWrite m data inode \<Rightarrow> createWrite tn m data inode db fs
      | UndoCreate m inode \<Rightarrow> (let (e, fs') = undoCreate hash tn m inode fs in (Inl e, db, fs'))
      | VerifyRead m m' \<Rightarrow> (bindR (readFinish hash tn m' fs) (\<lambda>_. Inr (Inl m)), db, fs))"

section \<open>Cleaning up\<close>

text \<open>
  One turn of the loop over the claims (\<open>cleanupAssetIds\<close> of server/board/service.ts with
  \<open>tryClaimUnreferencedAssetForDeletion\<close>): the next claim, or a part of the removal of a claimed file.
\<close>

definition claimNext :: "asset_turn \<Rightarrow> cleaner \<Rightarrow> ustr \<Rightarrow> asset_db \<Rightarrow> cleaner store_res \<times> asset_db" where
  "claimNext tn cl assetId db =
     (case assertAssetId (JStr assetId) of
        Inl e \<Rightarrow> (Inl e, db)
      | Inr validated \<Rightarrow>
          if at_writeFails tn then (Inl OtherFault, db)
          else (case tryClaimUnreferenced validated db of
                  (claimed, db') \<Rightarrow>
                    if at_commitLost tn then (Inl OtherFault, db')
                    else case claimed of None \<Rightarrow> (Inr cl, db') | Some key \<Rightarrow>
                    if key = [] then (Inr cl, db')
                    else if key \<noteq> validated then (Inr (cl\<lparr>cl_failed := cl_failed cl @ [validated]\<rparr>), db')
                    else (Inr (cl\<lparr>cl_removal := Some (Capture key)\<rparr>), db')))"

definition removeStep :: "(nat list \<Rightarrow> ustr) \<Rightarrow> asset_turn \<Rightarrow> removal \<Rightarrow> cleaner \<Rightarrow> files \<Rightarrow> cleaner \<times> files" where
  "removeStep hash tn rem cl fs =
     (let over = cl\<lparr>cl_removal := None\<rparr>; lost = (\<lambda>i. over\<lparr>cl_failed := cl_failed cl @ [i]\<rparr>) in
      case rem of
        Capture i \<Rightarrow>
          if at_io tn \<noteq> None then (lost i, fs)
          else (case fs i of
                  None \<Rightarrow> (over, fs)
                | Some f \<Rightarrow> (cl\<lparr>cl_removal := Some (Unlink i (fl_inode f) (hash (fl_data f)))\<rparr>, fs))
      | Unlink i inode h \<Rightarrow>
          if at_io tn \<noteq> None then (lost i, fs)
          else (case removeCreatedFile hash i inode h fs of
                  None \<Rightarrow> (lost i, fs)
                | Some fs' \<Rightarrow> (over, fs')))"

definition cleanStep ::
  "(nat list \<Rightarrow> ustr) \<Rightarrow> asset_turn \<Rightarrow> cleaner \<Rightarrow> asset_db \<Rightarrow> files \<Rightarrow> cleaner option store_res \<times> asset_db \<times> files" where
  "cleanStep hash tn cl db fs =
     (case cl_removal cl of
        Some rem \<Rightarrow> (let (cl', fs') = removeStep hash tn rem cl fs in (Inr (Some cl'), db, fs'))
      | None \<Rightarrow>
          (case cl_ids cl of
             [] \<Rightarrow> (Inr None, db, fs)
           | i # rest \<Rightarrow>
               (let (r, db') = claimNext tn (cl\<lparr>cl_ids := rest\<rparr>) i db in (bindR r (\<lambda>c. Inr (Some c)), db', fs))))"

definition cleanerFor :: "ustr list \<Rightarrow> cleaner" where
  "cleanerFor ids = \<lparr>cl_removal = None, cl_ids = rev (remdups (rev ids)), cl_failed = []\<rparr>"

end
