(* ===== verification/BoardRepository.thy ===== *)
theory BoardRepository
  imports BoardScenes AssetService
begin

text \<open>
  The tables of boards, scenes and folders and their statements (server/board/repository.ts over
  migrations/0031_board_foundation.sql to 0033_board_folders.sql). A statement that reads fails when the turn
  says so, and so does a transaction, which then changes nothing; a transaction whose commit is lost changes the tables and is
  still reported as failed. An operation that writes and then reads
  returns its result together with the tables, since the write stays when the read fails.
\<close>

section \<open>Tables\<close>

record board_row =
  bo_id :: ustr
  bo_title :: ustr
  bo_createdAt :: int
  bo_updatedAt :: int
  bo_lastOpenedAt :: "int option"
  bo_folderId :: "ustr option"

record scene_row =
  sr_boardId :: ustr
  sr_engine :: ustr
  sr_sceneVersion :: int
  sr_revision :: int
  sr_engineDataJson :: ustr
  sr_appStateJson :: ustr

record folder_row =
  bf_id :: ustr
  bf_name :: ustr
  bf_parentId :: "ustr option"
  bf_createdAt :: int
  bf_updatedAt :: int

record board_db =
  bd_assets :: asset_db
  bd_boards :: "board_row list"
  bd_scenes :: "scene_row list"
  bd_folders :: "folder_row list"

record board_metadata =
  mt_id :: ustr
  mt_title :: ustr
  mt_thumbnailAssetId :: "ustr option"
  mt_folderId :: "ustr option"
  mt_createdAt :: int
  mt_updatedAt :: int
  mt_lastOpenedAt :: "int option"

record folder_summary =
  su_folder :: folder_row
  su_boardCount :: nat

record scene_record =
  rc_boardId :: ustr
  rc_engine :: ustr
  rc_sceneVersion :: int
  rc_revision :: int
  rc_scene :: board_scene

record board_aggregate =
  ag_metadata :: board_metadata
  ag_sceneRecord :: scene_record

record save_input =
  sv_boardId :: ustr
  sv_expectedRevision :: int
  sv_engine :: ustr
  sv_sceneVersion :: int
  sv_scene :: board_scene

record save_result =
  sx_revision :: int
  sx_updatedAt :: int
  sx_removedAssetIds :: "ustr list"

definition sceneOwner :: "ustr \<Rightarrow> ref_owner" where
  "sceneOwner i = \<lparr>ow_type = js ''board'', ow_id = i, ow_purpose = js ''scene''\<rparr>"

definition thumbnailOwner :: "ustr \<Rightarrow> ref_owner" where
  "thumbnailOwner i = \<lparr>ow_type = js ''board'', ow_id = i, ow_purpose = js ''thumbnail''\<rparr>"

definition boardTransaction :: "asset_turn \<Rightarrow> (board_db \<Rightarrow> ('a \<times> board_db) store_res) \<Rightarrow> board_db \<Rightarrow> 'a store_res \<times> board_db" where
  "boardTransaction tn f db =
     (if at_writeFails tn then (Inl OtherFault, db)
      else case f db of
             Inl e \<Rightarrow> (Inl e, db)
           | Inr (x, db') \<Rightarrow> (if at_commitLost tn then Inl OtherFault else Inr x, db'))"

definition boardRead :: "asset_turn \<Rightarrow> 'a store_res \<Rightarrow> 'a store_res" where
  "boardRead tn r = (if at_readFails tn then Inl OtherFault else r)"

text \<open>A validated argument first, then an operation on the tables.\<close>

definition validated :: "'b store_res \<Rightarrow> ('b \<Rightarrow> board_db \<Rightarrow> 'a store_res \<times> board_db) \<Rightarrow> board_db \<Rightarrow> 'a store_res \<times> board_db" where
  "validated v k db = (case v of Inl e \<Rightarrow> (Inl e, db) | Inr x \<Rightarrow> k x db)"

definition andThen :: "'a store_res \<times> board_db \<Rightarrow> ('a \<Rightarrow> board_db \<Rightarrow> 'b store_res \<times> board_db) \<Rightarrow> 'b store_res \<times> board_db" where
  "andThen p k = (case p of (Inl e, db) \<Rightarrow> (Inl e, db) | (Inr x, db) \<Rightarrow> k x db)"

section \<open>Boards\<close>

text \<open>\<open>THUMBNAIL_PROJECTION\<close>\<close>

definition newest_reference :: "asset_ref \<Rightarrow> asset_ref \<Rightarrow> bool" where
  "newest_reference a b \<longleftrightarrow> rf_createdAt b < rf_createdAt a
     \<or> rf_createdAt a = rf_createdAt b \<and> text_le (rf_asset b) (rf_asset a)"

definition thumbnailOf :: "asset_db \<Rightarrow> ustr \<Rightarrow> ustr option" where
  "thumbnailOf db i =
     (case order_by newest_reference (filter (\<lambda>r. rf_owner r = thumbnailOwner i) (ad_refs db)) of
        [] \<Rightarrow> None | r # _ \<Rightarrow> Some (rf_asset r))"

definition metadataFromRow :: "board_db \<Rightarrow> board_row \<Rightarrow> board_metadata" where
  "metadataFromRow db b =
     \<lparr>mt_id = bo_id b, mt_title = bo_title b, mt_thumbnailAssetId = thumbnailOf (bd_assets db) (bo_id b),
      mt_folderId = bo_folderId b, mt_createdAt = bo_createdAt b, mt_updatedAt = bo_updatedAt b,
      mt_lastOpenedAt = bo_lastOpenedAt b\<rparr>"

definition getBoardMetadata :: "asset_turn \<Rightarrow> ustr \<Rightarrow> board_db \<Rightarrow> board_metadata option store_res" where
  "getBoardMetadata tn boardId db =
     bindR (assertBoardId (JStr boardId)) (\<lambda>i.
     boardRead tn (Inr (map_option (metadataFromRow db) (lookup_by bo_id i (bd_boards db)))))"

definition latest_board :: "board_row \<Rightarrow> board_row \<Rightarrow> bool" where
  "latest_board a b \<longleftrightarrow> bo_updatedAt b < bo_updatedAt a \<or> bo_updatedAt a = bo_updatedAt b \<and> text_le (bo_id b) (bo_id a)"

definition listBoards :: "asset_turn \<Rightarrow> board_db \<Rightarrow> board_metadata list store_res" where
  "listBoards tn db = boardRead tn (Inr (map (metadataFromRow db) (order_by latest_board (bd_boards db))))"

definition createBoard ::
  "runtime \<Rightarrow> asset_turn \<Rightarrow> ustr \<Rightarrow> ustr \<Rightarrow> int \<Rightarrow> ustr option \<Rightarrow> board_db \<Rightarrow> unit store_res \<times> board_db" where
  "createBoard rt tn boardId title createdAt folderId =
     validated (assertBoardId (JStr boardId)) (\<lambda>i.
     boardTransaction tn (\<lambda>db.
       if (case folderId of None \<Rightarrow> False | Some f \<Rightarrow> f \<notin> bf_id ` set (bd_folders db))
       then Inl (BoardError BOARD_FOLDER_NOT_FOUND 404)
       else if i \<in> bo_id ` set (bd_boards db) \<or> i \<in> sr_boardId ` set (bd_scenes db) then Inl OtherFault
       else let scene = createCanonicalEmptyBoardScene in
         bindR (serializeBoardScenePart rt (sn_engineData scene)) (\<lambda>engineDataJson.
         bindR (serializeBoardScenePart rt (sn_appState scene)) (\<lambda>appStateJson.
           Inr ((), db\<lparr>bd_boards := bd_boards db @ [\<lparr>bo_id = i, bo_title = title, bo_createdAt = createdAt,
                          bo_updatedAt = createdAt, bo_lastOpenedAt = None, bo_folderId = folderId\<rparr>],
                       bd_scenes := bd_scenes db @ [\<lparr>sr_boardId = i, sr_engine = BOARD_ENGINE_EXCALIDRAW,
                          sr_sceneVersion = CURRENT_BOARD_SCENE_VERSION, sr_revision = 0,
                          sr_engineDataJson = engineDataJson, sr_appStateJson = appStateJson\<rparr>]\<rparr>)))))"

text \<open>\<open>UPDATE boards SET ... WHERE id = ?\<close>, with its error for a missing row.\<close>

definition updateBoard :: "ustr \<Rightarrow> store_error \<Rightarrow> (board_row \<Rightarrow> board_row) \<Rightarrow> board_db \<Rightarrow> board_db store_res" where
  "updateBoard i missing f db =
     (if i \<notin> bo_id ` set (bd_boards db) then Inl missing
      else Inr (db\<lparr>bd_boards := map (\<lambda>b. if bo_id b = i then f b else b) (bd_boards db)\<rparr>))"

definition boardStorageError :: store_error where "boardStorageError = BoardError BOARD_STORAGE_ERROR 500"
definition boardNotFound :: store_error where "boardNotFound = BoardError BOARD_NOT_FOUND 404"
definition folderNotFound :: store_error where "folderNotFound = BoardError BOARD_FOLDER_NOT_FOUND 404"

text \<open>The metadata after a write, which must still be there.\<close>

definition metadataAfter :: "asset_turn \<Rightarrow> ustr \<Rightarrow> board_db \<Rightarrow> board_metadata store_res \<times> board_db" where
  "metadataAfter tn i db =
     (bindR (getBoardMetadata tn i db) (\<lambda>m. case m of None \<Rightarrow> Inl boardStorageError | Some x \<Rightarrow> Inr x), db)"

definition changeBoard ::
  "asset_turn \<Rightarrow> ustr \<Rightarrow> (ustr \<Rightarrow> board_db \<Rightarrow> board_db store_res) \<Rightarrow> board_db \<Rightarrow> board_metadata store_res \<times> board_db" where
  "changeBoard tn boardId f =
     validated (assertBoardId (JStr boardId)) (\<lambda>i db.
       andThen (boardTransaction tn (\<lambda>d. bindR (f i d) (\<lambda>d'. Inr ((), d'))) db) (\<lambda>_. metadataAfter tn i))"

definition moveBoardToFolder :: "asset_turn \<Rightarrow> ustr \<Rightarrow> ustr option \<Rightarrow> board_db \<Rightarrow> board_metadata store_res \<times> board_db" where
  "moveBoardToFolder tn boardId folderId =
     changeBoard tn boardId (\<lambda>i db.
       if i \<notin> bo_id ` set (bd_boards db) then Inl boardNotFound
       else if (case folderId of None \<Rightarrow> False | Some f \<Rightarrow> f \<notin> bf_id ` set (bd_folders db)) then Inl folderNotFound
       else updateBoard i boardNotFound (\<lambda>b. b\<lparr>bo_folderId := folderId\<rparr>) db)"

definition openedAt :: "int \<Rightarrow> board_row \<Rightarrow> board_row" where
  "openedAt at b = b\<lparr>bo_lastOpenedAt :=
     (case bo_lastOpenedAt b of None \<Rightarrow> Some at | Some t \<Rightarrow> if t < at then Some at else Some t)\<rparr>"

definition markBoardOpened :: "asset_turn \<Rightarrow> ustr \<Rightarrow> int \<Rightarrow> board_db \<Rightarrow> board_metadata store_res \<times> board_db" where
  "markBoardOpened tn boardId lastOpenedAt =
     changeBoard tn boardId (\<lambda>i. updateBoard i boardNotFound (openedAt lastOpenedAt))"

definition renameBoard :: "asset_turn \<Rightarrow> ustr \<Rightarrow> ustr \<Rightarrow> int \<Rightarrow> board_db \<Rightarrow> board_metadata store_res \<times> board_db" where
  "renameBoard tn boardId title updatedAt =
     changeBoard tn boardId (\<lambda>i. updateBoard i boardNotFound (\<lambda>b. b\<lparr>bo_title := title, bo_updatedAt := updatedAt\<rparr>))"

section \<open>Folders\<close>

definition folderSummary :: "board_db \<Rightarrow> folder_row \<Rightarrow> folder_summary" where
  "folderSummary db f =
     \<lparr>su_folder = f, su_boardCount = length (filter (\<lambda>b. bo_folderId b = Some (bf_id f)) (bd_boards db))\<rparr>"

definition folder_le :: "folder_row \<Rightarrow> folder_row \<Rightarrow> bool" where
  "folder_le a b \<longleftrightarrow> code_points (map ascii_lower (bf_name a)) < code_points (map ascii_lower (bf_name b))
     \<or> code_points (map ascii_lower (bf_name a)) = code_points (map ascii_lower (bf_name b)) \<and> text_le (bf_id a) (bf_id b)"

definition listBoardFolders :: "asset_turn \<Rightarrow> board_db \<Rightarrow> folder_summary list store_res" where
  "listBoardFolders tn db = boardRead tn (Inr (map (folderSummary db) (order_by folder_le (bd_folders db))))"

definition getBoardFolder :: "asset_turn \<Rightarrow> ustr \<Rightarrow> board_db \<Rightarrow> folder_summary option store_res" where
  "getBoardFolder tn folderId db =
     bindR (assertBoardFolderId (JStr folderId)) (\<lambda>i.
     boardRead tn (Inr (map_option (folderSummary db) (lookup_by bf_id i (bd_folders db)))))"

definition folder_check :: "ustr \<Rightarrow> bool" where
  "folder_check name \<longleftrightarrow> 0 < sql_length (sql_trim name) \<and> sql_length (sql_trim name) \<le> 80"

definition folderAfter :: "asset_turn \<Rightarrow> ustr \<Rightarrow> board_db \<Rightarrow> folder_summary store_res \<times> board_db" where
  "folderAfter tn i db =
     (bindR (getBoardFolder tn i db) (\<lambda>f. case f of None \<Rightarrow> Inl boardStorageError | Some x \<Rightarrow> Inr x), db)"

definition createBoardFolder ::
  "asset_turn \<Rightarrow> ustr \<Rightarrow> ustr \<Rightarrow> ustr option \<Rightarrow> int \<Rightarrow> board_db \<Rightarrow> folder_summary store_res \<times> board_db" where
  "createBoardFolder tn folderId name parentId createdAt =
     validated (assertBoardFolderId (JStr folderId)) (\<lambda>i db.
       andThen (boardTransaction tn (\<lambda>d.
         if \<not> folder_check name \<or> createdAt < 0 \<or> i \<in> bf_id ` set (bd_folders d) then Inl OtherFault
         else if (case parentId of None \<Rightarrow> False | Some p \<Rightarrow> p \<noteq> i \<and> p \<notin> bf_id ` set (bd_folders d)) then Inl ForeignKeyViolation
         else Inr ((), d\<lparr>bd_folders := bd_folders d @ [\<lparr>bf_id = i, bf_name = name, bf_parentId = parentId,
                          bf_createdAt = createdAt, bf_updatedAt = createdAt\<rparr>]\<rparr>)) db)
         (\<lambda>_. folderAfter tn i))"

definition renameBoardFolder :: "asset_turn \<Rightarrow> ustr \<Rightarrow> ustr \<Rightarrow> int \<Rightarrow> board_db \<Rightarrow> folder_summary store_res \<times> board_db" where
  "renameBoardFolder tn folderId name updatedAt =
     validated (assertBoardFolderId (JStr folderId)) (\<lambda>i db.
       andThen (boardTransaction tn (\<lambda>d.
         if i \<notin> bf_id ` set (bd_folders d) then Inl folderNotFound
         else if \<not> folder_check name \<or> updatedAt < 0 then Inl OtherFault
         else Inr ((), d\<lparr>bd_folders := map (\<lambda>f. if bf_id f = i then f\<lparr>bf_name := name, bf_updatedAt := updatedAt\<rparr> else f)
                          (bd_folders d)\<rparr>)) db)
         (\<lambda>_. folderAfter tn i))"

definition deleteBoardFolder :: "asset_turn \<Rightarrow> ustr \<Rightarrow> board_db \<Rightarrow> bool store_res \<times> board_db" where
  "deleteBoardFolder tn folderId =
     validated (assertBoardFolderId (JStr folderId)) (\<lambda>i.
     boardTransaction tn (\<lambda>db.
       if i \<notin> bf_id ` set (bd_folders db) then Inr (False, db)
       else if \<exists>f\<in>set (bd_folders db). bf_parentId f = Some i \<and> bf_id f \<noteq> i then Inl ForeignKeyViolation
       else Inr (True, db\<lparr>bd_boards := map (\<lambda>b. if bo_folderId b = Some i then b\<lparr>bo_folderId := None\<rparr> else b) (bd_boards db),
                          bd_folders := filter (\<lambda>f. bf_id f \<noteq> i) (bd_folders db)\<rparr>)))"

section \<open>Scenes\<close>

definition getSceneRecord :: "runtime \<Rightarrow> asset_turn \<Rightarrow> ustr \<Rightarrow> board_db \<Rightarrow> scene_record store_res" where
  "getSceneRecord rt tn i db =
     boardRead tn
       (case lookup_by sr_boardId i (bd_scenes db) of
          None \<Rightarrow> Inl (BoardError BOARD_SCENE_CORRUPT 500)
        | Some r \<Rightarrow>
            if sr_engine r \<noteq> BOARD_ENGINE_EXCALIDRAW then Inl (BoardError BOARD_SCENE_ENGINE_UNSUPPORTED 409)
            else if sr_sceneVersion r > CURRENT_BOARD_SCENE_VERSION then Inl (BoardError BOARD_SCENE_VERSION_UNSUPPORTED 409)
            else if sr_sceneVersion r < 1 \<or> \<not> is_safe (sr_revision r) \<or> sr_revision r < 0
            then Inl (BoardError BOARD_SCENE_CORRUPT 500)
            else bindR (parseStoredBoardScene rt (sr_engineDataJson r) (sr_appStateJson r)
                         (listReferenceIds (sceneOwner i) (bd_assets db))) (\<lambda>parsed.
                 bindR (migrateBoardScene (sr_sceneVersion r) parsed) (\<lambda>scene.
                   Inr \<lparr>rc_boardId = sr_boardId r, rc_engine = BOARD_ENGINE_EXCALIDRAW, rc_sceneVersion = sr_sceneVersion r,
                        rc_revision = sr_revision r, rc_scene = scene\<rparr>)))"

definition getBoard :: "runtime \<Rightarrow> asset_turn \<Rightarrow> ustr \<Rightarrow> board_db \<Rightarrow> board_aggregate option store_res" where
  "getBoard rt tn boardId db =
     bindR (assertBoardId (JStr boardId)) (\<lambda>i.
     bindR (getBoardMetadata tn i db) (\<lambda>metadata.
       case metadata of
         None \<Rightarrow> Inr None
       | Some m \<Rightarrow> bindR (getSceneRecord rt tn i db) (\<lambda>s. Inr (Some \<lparr>ag_metadata = m, ag_sceneRecord = s\<rparr>))))"

text \<open>The scene rows go with their board (ON DELETE CASCADE).\<close>

definition deleteBoard :: "asset_turn \<Rightarrow> ustr \<Rightarrow> board_db \<Rightarrow> ustr list option store_res \<times> board_db" where
  "deleteBoard tn boardId =
     validated (assertBoardId (JStr boardId)) (\<lambda>i.
     boardTransaction tn (\<lambda>db.
       if i \<notin> bo_id ` set (bd_boards db) then Inr (None, db)
       else let (assetIds, assets) = deleteAllReferencesForOwner (js ''board'') i (bd_assets db) in
         Inr (Some assetIds, db\<lparr>bd_assets := assets,
                               bd_boards := filter (\<lambda>b. bo_id b \<noteq> i) (bd_boards db),
                               bd_scenes := filter (\<lambda>r. sr_boardId r \<noteq> i) (bd_scenes db)\<rparr>)))"

text \<open>The catch clause of the transactions that write references.\<close>

definition referenceConflict :: "'a store_res \<times> board_db \<Rightarrow> 'a store_res \<times> board_db" where
  "referenceConflict p =
     (case p of (Inl ForeignKeyViolation, db) \<Rightarrow> (Inl (BoardError BOARD_ASSET_REFERENCE_CONFLICT 409), db) | _ \<Rightarrow> p)"

definition saveTransaction ::
  "ustr \<Rightarrow> int \<Rightarrow> ustr \<Rightarrow> int \<Rightarrow> ustr \<Rightarrow> ustr \<Rightarrow> ustr list \<Rightarrow> int \<Rightarrow> board_db \<Rightarrow> (save_result \<times> board_db) store_res" where
  "saveTransaction i expectedRevision engine sceneVersion engineDataJson appStateJson newAssetIds updatedAt db =
     (case lookup_by sr_boardId i (bd_scenes db) of
        None \<Rightarrow> Inl (if i \<in> bo_id ` set (bd_boards db) then boardStorageError else boardNotFound)
      | Some current \<Rightarrow>
          let oldAssetIds = listReferenceIds (sceneOwner i) (bd_assets db) in
          if sr_revision current \<noteq> expectedRevision then Inl (BoardError BOARD_SCENE_REVISION_CONFLICT 409)
          else let scenes = map (\<lambda>r. if sr_boardId r = i
                     then r\<lparr>sr_engine := engine, sr_sceneVersion := sceneVersion, sr_engineDataJson := engineDataJson,
                            sr_appStateJson := appStateJson, sr_revision := sr_revision r + 1\<rparr> else r) (bd_scenes db) in
            bindR (replaceReferences (sceneOwner i) newAssetIds updatedAt (bd_assets db)) (\<lambda>assets.
            bindR (updateBoard i boardStorageError (\<lambda>b. b\<lparr>bo_updatedAt := updatedAt\<rparr>)
                     (db\<lparr>bd_scenes := scenes, bd_assets := assets\<rparr>)) (\<lambda>db'.
              Inr (\<lparr>sx_revision = expectedRevision + 1, sx_updatedAt = updatedAt,
                    sx_removedAssetIds = filter (\<lambda>a. a \<notin> set newAssetIds) oldAssetIds\<rparr>, db'))))"

definition saveBoardScene :: "runtime \<Rightarrow> asset_turn \<Rightarrow> save_input \<Rightarrow> int \<Rightarrow> board_db \<Rightarrow> save_result store_res \<times> board_db" where
  "saveBoardScene rt tn input updatedAt =
     validated (assertBoardId (JStr (sv_boardId input))) (\<lambda>i.
     validated (assertExpectedRevision (JInt (sv_expectedRevision input))) (\<lambda>expectedRevision.
     validated (assertSupportedBoardSceneContract (JStr (sv_engine input)) (JInt (sv_sceneVersion input))) (\<lambda>_.
     validated (normalizeSceneParts (sn_engineData (sv_scene input)) (sn_appState (sv_scene input))
                  (refs_json (sn_assetRefs (sv_scene input)))) (\<lambda>scene.
     validated (if expectedRevision \<ge> MAX_SAFE then boardValidationError else Inr ()) (\<lambda>_.
     validated (serializeBoardScenePart rt (sn_engineData scene)) (\<lambda>engineDataJson.
     validated (serializeBoardScenePart rt (sn_appState scene)) (\<lambda>appStateJson db.
       referenceConflict (boardTransaction tn (saveTransaction i expectedRevision (sv_engine input) (sv_sceneVersion input)
         engineDataJson appStateJson (sn_assetRefs scene) updatedAt) db))))))))"

definition replaceThumbnailReference ::
  "asset_turn \<Rightarrow> ustr \<Rightarrow> ustr option \<Rightarrow> int \<Rightarrow> board_db \<Rightarrow> ustr list store_res \<times> board_db" where
  "replaceThumbnailReference tn boardId assetId referenceCreatedAt =
     validated (assertBoardId (JStr boardId)) (\<lambda>i db.
       referenceConflict (boardTransaction tn (\<lambda>d.
         if i \<notin> bo_id ` set (bd_boards d) then Inl boardNotFound
         else let (oldAssetIds, assets) = deleteReferences (thumbnailOwner i) (bd_assets d) in
           bindR (case assetId of
                    None \<Rightarrow> Inr assets
                  | Some a \<Rightarrow> if a = [] then Inr assets else replaceReferences (thumbnailOwner i) [a] referenceCreatedAt assets)
             (\<lambda>assets'. Inr (filter (\<lambda>a. Some a \<noteq> assetId) oldAssetIds, d\<lparr>bd_assets := assets'\<rparr>))) db))"

section \<open>The invariant of the tables\<close>

definition scene_ok :: "runtime \<Rightarrow> asset_db \<Rightarrow> scene_row \<Rightarrow> bool" where
  "scene_ok rt assets r \<longleftrightarrow> sr_engine r = BOARD_ENGINE_EXCALIDRAW \<and> sr_sceneVersion r = 1
     \<and> 0 \<le> sr_revision r \<and> sr_revision r \<le> MAX_SAFE
     \<and> (\<exists>e a sc. rt_json_parse rt (sr_engineDataJson r) = Some e \<and> rt_json_parse rt (sr_appStateJson r) = Some a
          \<and> normalizeSceneParts e a (refs_json (listReferenceIds (sceneOwner (sr_boardId r)) assets)) = Inr sc)"

definition board_db_ok :: "runtime \<Rightarrow> board_db \<Rightarrow> bool" where
  "board_db_ok rt db \<longleftrightarrow> asset_db_ok (bd_assets db)
     \<and> distinct (map bo_id (bd_boards db)) \<and> distinct (map sr_boardId (bd_scenes db))
     \<and> sr_boardId ` set (bd_scenes db) = bo_id ` set (bd_boards db)
     \<and> (\<forall>r\<in>set (bd_scenes db). scene_ok rt (bd_assets db) r)
     \<and> (\<forall>r\<in>set (ad_refs (bd_assets db)). ow_type (rf_owner r) = js ''board'' \<longrightarrow> ow_id (rf_owner r) \<in> bo_id ` set (bd_boards db))
     \<and> distinct (map bf_id (bd_folders db))
     \<and> (\<forall>b\<in>set (bd_boards db). \<forall>f. bo_folderId b = Some f \<longrightarrow> f \<in> bf_id ` set (bd_folders db))"

lemma sceneOwner_simps [simp]:
  "sceneOwner i = sceneOwner j \<longleftrightarrow> i = j" "thumbnailOwner i \<noteq> sceneOwner j" "sceneOwner j \<noteq> thumbnailOwner i"
  "ow_type (sceneOwner i) = js ''board''" "ow_id (sceneOwner i) = i" "ow_type (thumbnailOwner i) = js ''board''" "ow_id (thumbnailOwner i) = i"
  by (simp_all add: sceneOwner_def thumbnailOwner_def)

lemma validated_Inr: "validated v k db = (Inr x, db') \<longleftrightarrow> (\<exists>y. v = Inr y \<and> k y db = (Inr x, db'))"
  by (cases v) (simp_all add: validated_def)

lemma validated_value [simp]: "validated (Inr y) k = k y" "validated (Inl e) k db = (Inl e, db)"
  by (simp_all add: validated_def [abs_def])

lemma boardTransaction_Inr: "boardTransaction tn f db = (Inr x, db') \<longleftrightarrow>
    \<not> at_writeFails tn \<and> \<not> at_commitLost tn \<and> f db = Inr (x, db')"
  by (auto simp: boardTransaction_def split: sum.splits)

lemma kept_intros:
  "(\<And>y. v = Inr y \<Longrightarrow> P (snd (k y db))) \<Longrightarrow> P db \<Longrightarrow> P (snd (validated v k db))"
  "(\<And>x d. f db = Inr (x, d) \<Longrightarrow> P d) \<Longrightarrow> P db \<Longrightarrow> P (snd (boardTransaction tn f db))"
  "P (snd p) \<Longrightarrow> P (snd (andThen p (\<lambda>_. metadataAfter tn i)))"
  "P (snd p) \<Longrightarrow> P (snd (andThen p (\<lambda>_. folderAfter tn i)))"
  "P (snd p) \<Longrightarrow> P (snd (referenceConflict p))"
  by (auto simp: validated_def boardTransaction_def andThen_def metadataAfter_def folderAfter_def referenceConflict_def
      split: sum.splits prod.splits store_error.splits)

lemmas db_kept = kept_intros [where P = "board_db_ok rt" for rt]

lemma updateBoard_Inr:
  "updateBoard i e f db = Inr db' \<longleftrightarrow> i \<in> bo_id ` set (bd_boards db)
     \<and> db' = db\<lparr>bd_boards := map (\<lambda>b. if bo_id b = i then f b else b) (bd_boards db)\<rparr>"
  by (auto simp: updateBoard_def)

lemma ids_update: "(\<And>b. bo_id (f b) = bo_id b) \<Longrightarrow> map bo_id (map (\<lambda>b. if p b then f b else b) bs) = map bo_id bs"
  by (simp add: o_def)

text \<open>The boards may change in everything but their identifiers.\<close>

lemma boards_changed_ok:
  assumes "board_db_ok rt db" "map bo_id bs = map bo_id (bd_boards db)"
    and "\<And>b f. b \<in> set bs \<Longrightarrow> bo_folderId b = Some f \<Longrightarrow> f \<in> bf_id ` set (bd_folders db)"
  shows "board_db_ok rt (db\<lparr>bd_boards := bs\<rparr>)"
proof -
  have "bo_id ` set bs = bo_id ` set (bd_boards db)" using assms(2) by (metis list.set_map)
  with assms show ?thesis by (simp add: board_db_ok_def)
qed

lemma updateBoard_ok:
  assumes "updateBoard i e f db = Inr db'" "board_db_ok rt db" "\<And>b. bo_id (f b) = bo_id b"
    and "\<And>b g. b \<in> set (bd_boards db) \<Longrightarrow> bo_folderId (f b) = Some g \<Longrightarrow> g \<in> bf_id ` set (bd_folders db)"
  shows "board_db_ok rt db'"
proof -
  have d: "db' = db\<lparr>bd_boards := map (\<lambda>b. if bo_id b = i then f b else b) (bd_boards db)\<rparr>" using assms(1) by (simp add: updateBoard_Inr)
  have old: "bo_folderId b = Some g \<Longrightarrow> g \<in> bf_id ` set (bd_folders db)" if "b \<in> set (bd_boards db)" for b g
    using assms(2) that by (simp add: board_db_ok_def)
  show ?thesis
    unfolding d by (rule boards_changed_ok [OF assms(2) ids_update [OF assms(3)]]) (auto dest: old assms(4) split: if_splits)
qed

lemma changeBoard_ok:
  assumes "board_db_ok rt db" "\<And>i d'. f i db = Inr d' \<Longrightarrow> board_db_ok rt d'"
  shows "board_db_ok rt (snd (changeBoard tn boardId f db))"
  unfolding changeBoard_def by (rule db_kept(1), rule db_kept(3), rule db_kept(2)) (auto simp: bindR_eq_Inr assms)

lemma moveBoardToFolder_ok:
  assumes "board_db_ok rt db"
  shows "board_db_ok rt (snd (moveBoardToFolder tn b f db))"
  unfolding moveBoardToFolder_def
proof (rule changeBoard_ok [OF assms])
  fix i d'
  assume d: "(if i \<notin> bo_id ` set (bd_boards db) then Inl boardNotFound
       else if (case f of None \<Rightarrow> False | Some f \<Rightarrow> f \<notin> bf_id ` set (bd_folders db)) then Inl folderNotFound
       else updateBoard i boardNotFound (\<lambda>b. b\<lparr>bo_folderId := f\<rparr>) db) = Inr d'"
  then have u: "updateBoard i boardNotFound (\<lambda>b. b\<lparr>bo_folderId := f\<rparr>) db = Inr d'" by (simp split: if_splits)
  have "\<And>g. f = Some g \<Longrightarrow> g \<in> bf_id ` set (bd_folders db)" using d by (simp split: if_splits)
  then show "board_db_ok rt d'" by (intro updateBoard_ok [OF u assms]) simp_all
qed

lemma folder_known: "board_db_ok rt db \<Longrightarrow> b \<in> set (bd_boards db) \<Longrightarrow> bo_folderId b = Some g \<Longrightarrow> g \<in> bf_id ` set (bd_folders db)"
  by (simp add: board_db_ok_def)

lemma markBoardOpened_ok:
  assumes "board_db_ok rt db"
  shows "board_db_ok rt (snd (markBoardOpened tn b at db))"
  unfolding markBoardOpened_def
  by (rule changeBoard_ok [OF assms]) (erule updateBoard_ok [OF _ assms]; simp add: openedAt_def folder_known [OF assms])

lemma renameBoard_ok:
  assumes "board_db_ok rt db"
  shows "board_db_ok rt (snd (renameBoard tn b t at db))"
  unfolding renameBoard_def
  by (rule changeBoard_ok [OF assms]) (erule updateBoard_ok [OF _ assms]; simp add: folder_known [OF assms])

text \<open>The folders may change in everything but their identifiers, and may grow.\<close>

lemma folders_changed_ok:
  assumes "board_db_ok rt db" "distinct (map bf_id fs)" "bf_id ` set (bd_folders db) \<subseteq> bf_id ` set fs"
  shows "board_db_ok rt (db\<lparr>bd_folders := fs\<rparr>)"
  using assms by (auto simp: board_db_ok_def simp del: image_subset_iff)

lemma createBoardFolder_ok:
  assumes "board_db_ok rt db"
  shows "board_db_ok rt (snd (createBoardFolder tn f n p at db))"
  unfolding createBoardFolder_def
proof (rule db_kept(1), rule db_kept(4), rule db_kept(2))
  fix i x d
  assume "(if \<not> folder_check n \<or> at < 0 \<or> i \<in> bf_id ` set (bd_folders db) then Inl OtherFault
         else if (case p of None \<Rightarrow> False | Some p \<Rightarrow> p \<noteq> i \<and> p \<notin> bf_id ` set (bd_folders db)) then Inl ForeignKeyViolation
         else Inr ((), db\<lparr>bd_folders := bd_folders db @ [\<lparr>bf_id = i, bf_name = n, bf_parentId = p,
                          bf_createdAt = at, bf_updatedAt = at\<rparr>]\<rparr>)) = Inr (x, d)"
  then have "i \<notin> bf_id ` set (bd_folders db)" and d: "d = db\<lparr>bd_folders := bd_folders db @ [\<lparr>bf_id = i, bf_name = n, bf_parentId = p,
                          bf_createdAt = at, bf_updatedAt = at\<rparr>]\<rparr>" by (auto split: if_splits)
  then show "board_db_ok rt d"
    unfolding d using assms by (intro folders_changed_ok) (auto simp: board_db_ok_def)
qed (simp_all add: assms)

lemma renameBoardFolder_ok:
  assumes "board_db_ok rt db"
  shows "board_db_ok rt (snd (renameBoardFolder tn f n at db))"
  unfolding renameBoardFolder_def
proof (rule db_kept(1), rule db_kept(4), rule db_kept(2))
  fix i x d
  let ?fs = "map (\<lambda>x. if bf_id x = i then x\<lparr>bf_name := n, bf_updatedAt := at\<rparr> else x) (bd_folders db)"
  assume "(if i \<notin> bf_id ` set (bd_folders db) then Inl folderNotFound
         else if \<not> folder_check n \<or> at < 0 then Inl OtherFault
         else Inr ((), db\<lparr>bd_folders := ?fs\<rparr>)) = Inr (x, d)"
  then have d: "d = db\<lparr>bd_folders := ?fs\<rparr>" by (simp split: if_splits)
  have ids: "map bf_id ?fs = map bf_id (bd_folders db)" by simp
  then have "bf_id ` set ?fs = bf_id ` set (bd_folders db)" by (metis list.set_map)
  with ids show "board_db_ok rt d"
    unfolding d using assms by (intro folders_changed_ok) (simp_all add: board_db_ok_def del: map_map set_map)
qed (simp_all add: assms)

lemma deleteBoardFolder_ok:
  assumes "board_db_ok rt db"
  shows "board_db_ok rt (snd (deleteBoardFolder tn f db))"
  unfolding deleteBoardFolder_def
proof (rule db_kept(1), rule db_kept(2))
  fix i x d
  let ?bs = "map (\<lambda>b. if bo_folderId b = Some i then b\<lparr>bo_folderId := None\<rparr> else b) (bd_boards db)"
  let ?fs = "filter (\<lambda>f. bf_id f \<noteq> i) (bd_folders db)"
  assume "(if i \<notin> bf_id ` set (bd_folders db) then Inr (False, db)
       else if \<exists>f\<in>set (bd_folders db). bf_parentId f = Some i \<and> bf_id f \<noteq> i then Inl ForeignKeyViolation
       else Inr (True, db\<lparr>bd_boards := ?bs, bd_folders := ?fs\<rparr>)) = Inr (x, d)"
  then consider "d = db" | "d = db\<lparr>bd_boards := ?bs, bd_folders := ?fs\<rparr>" by (auto split: if_splits)
  then show "board_db_ok rt d"
  proof cases
    case 2
    have ids: "map bo_id ?bs = map bo_id (bd_boards db)" by simp
    then have "bo_id ` set ?bs = bo_id ` set (bd_boards db)" by (metis list.set_map)
    moreover have "g \<in> bf_id ` set ?fs" if "b \<in> set ?bs" "bo_folderId b = Some g" for b g
    proof -
      from that have "g \<noteq> i" "\<exists>c\<in>set (bd_boards db). bo_folderId c = Some g" by (auto split: if_splits)
      with folder_known [OF assms] show ?thesis by fastforce
    qed
    moreover have "distinct (map bf_id ?fs)" using assms by (auto simp: board_db_ok_def intro: distinct_map_filterI)
    ultimately show ?thesis unfolding 2 using assms ids by (simp add: board_db_ok_def del: map_map set_map set_filter)
  qed (simp add: assms)
qed (simp_all add: assms)

text \<open>A scene row depends on the references of its own board only.\<close>

lemma listReferenceIds_cong:
  "filter (\<lambda>r. rf_owner r = w) (ad_refs db') = filter (\<lambda>r. rf_owner r = w) (ad_refs db) \<Longrightarrow> listReferenceIds w db' = listReferenceIds w db"
  by (simp add: listReferenceIds_def)

lemma scene_ok_cong:
  assumes "scene_ok rt assets r" "listReferenceIds (sceneOwner (sr_boardId r)) assets' = listReferenceIds (sceneOwner (sr_boardId r)) assets"
  shows "scene_ok rt assets' r"
  using assms by (simp add: scene_ok_def)

lemma filter_owner_drop: "filter (\<lambda>r. rf_owner r \<noteq> w) xs = filter (\<lambda>r. rf_owner r \<noteq> w) ys \<Longrightarrow> v \<noteq> w \<Longrightarrow>
    filter (\<lambda>r. rf_owner r = v) xs = filter (\<lambda>r. rf_owner r = v) ys"
proof -
  assume eq: "filter (\<lambda>r. rf_owner r \<noteq> w) xs = filter (\<lambda>r. rf_owner r \<noteq> w) ys" and "v \<noteq> w"
  then have "filter (\<lambda>r. rf_owner r = v) zs = filter (\<lambda>r. rf_owner r = v) (filter (\<lambda>r. rf_owner r \<noteq> w) zs)" for zs
    by (simp add: conj_commute cong: conj_cong)
  with eq show ?thesis by metis
qed

lemma replace_other_refs:
  assumes "replaceReferences w ids at db = Inr db'" "v \<noteq> w"
  shows "listReferenceIds v db' = listReferenceIds v db"
  by (rule listReferenceIds_cong [OF filter_owner_drop [OF replaceReferences_Inr(5) [OF assms(1)] assms(2)]])

lemma distinct_listReferenceIds: "asset_db_ok db \<Longrightarrow> distinct (listReferenceIds w db)"
proof -
  assume ok: "asset_db_ok db"
  have "distinct (map (\<lambda>r. (rf_asset r, rf_owner r)) (filter (\<lambda>r. rf_owner r = w) (ad_refs db)))"
    using ok by (intro distinct_map_filterI) (simp add: asset_db_ok_def)
  then have "distinct (map rf_asset (filter (\<lambda>r. rf_owner r = w) (ad_refs db)))"
    by (auto simp: distinct_map inj_on_def)
  then show ?thesis
    using distinct_order_by [of id text_le "map rf_asset (filter (\<lambda>r. rf_owner r = w) (ad_refs db))"]
    by (simp add: listReferenceIds_def)
qed

lemma canonical_scene_valid: "normalizeSceneParts CANONICAL_EMPTY_ENGINE_DATA (JObj []) (refs_json [])
    = Inr \<lparr>sn_engineData = CANONICAL_EMPTY_ENGINE_DATA, sn_appState = JObj [], sn_assetRefs = []\<rparr>"
  by (simp add: normalizeSceneParts_def validateEngineData_def CANONICAL_EMPTY_ENGINE_DATA_def jget_def normalizeAssetReferences_def
      refs_json_def validatePersistentAppState_def)

lemma stored_canonical [simp]: "stored_json CANONICAL_EMPTY_ENGINE_DATA = CANONICAL_EMPTY_ENGINE_DATA"
  by (simp add: CANONICAL_EMPTY_ENGINE_DATA_def)

lemma no_foreign_refs:
  assumes "board_db_ok rt db" "i \<notin> bo_id ` set (bd_boards db)"
  shows "listReferenceIds (sceneOwner i) (bd_assets db) = []"
proof -
  have "rf_owner r \<noteq> sceneOwner i" if "r \<in> set (ad_refs (bd_assets db))" for r
    using that assms by (auto simp: board_db_ok_def)
  then have "filter (\<lambda>r. rf_owner r = sceneOwner i) (ad_refs (bd_assets db)) = []" by (simp add: filter_empty_conv)
  then show ?thesis by (simp add: listReferenceIds_def)
qed

lemma createBoard_ok:
  assumes "board_db_ok rt db" "json_laws rt"
  shows "board_db_ok rt (snd (createBoard rt tn b t at f db))"
  unfolding createBoard_def
proof (rule db_kept(1), rule db_kept(2))
  fix i x d
  assume "(if (case f of None \<Rightarrow> False | Some f \<Rightarrow> f \<notin> bf_id ` set (bd_folders db)) then Inl (BoardError BOARD_FOLDER_NOT_FOUND 404)
       else if i \<in> bo_id ` set (bd_boards db) \<or> i \<in> sr_boardId ` set (bd_scenes db) then Inl OtherFault
       else let scene = createCanonicalEmptyBoardScene in
         bindR (serializeBoardScenePart rt (sn_engineData scene)) (\<lambda>engineDataJson.
         bindR (serializeBoardScenePart rt (sn_appState scene)) (\<lambda>appStateJson.
           Inr ((), db\<lparr>bd_boards := bd_boards db @ [\<lparr>bo_id = i, bo_title = t, bo_createdAt = at,
                          bo_updatedAt = at, bo_lastOpenedAt = None, bo_folderId = f\<rparr>],
                       bd_scenes := bd_scenes db @ [\<lparr>sr_boardId = i, sr_engine = BOARD_ENGINE_EXCALIDRAW,
                          sr_sceneVersion = CURRENT_BOARD_SCENE_VERSION, sr_revision = 0,
                          sr_engineDataJson = engineDataJson, sr_appStateJson = appStateJson\<rparr>]\<rparr>)))) = Inr (x, d)"
  then have i: "i \<notin> bo_id ` set (bd_boards db)" "i \<notin> sr_boardId ` set (bd_scenes db)"
    and f: "\<And>g. f = Some g \<Longrightarrow> g \<in> bf_id ` set (bd_folders db)"
    and d: "d = db\<lparr>bd_boards := bd_boards db @ [\<lparr>bo_id = i, bo_title = t, bo_createdAt = at,
                          bo_updatedAt = at, bo_lastOpenedAt = None, bo_folderId = f\<rparr>],
                   bd_scenes := bd_scenes db @ [\<lparr>sr_boardId = i, sr_engine = BOARD_ENGINE_EXCALIDRAW,
                          sr_sceneVersion = CURRENT_BOARD_SCENE_VERSION, sr_revision = 0,
                          sr_engineDataJson = rt_json_text rt CANONICAL_EMPTY_ENGINE_DATA, sr_appStateJson = rt_json_text rt (JObj [])\<rparr>]\<rparr>"
    by (auto simp: Let_def createCanonicalEmptyBoardScene_def serializeBoardScenePart_def CANONICAL_EMPTY_ENGINE_DATA_def split: if_splits option.splits)
  have "listReferenceIds (sceneOwner i) (bd_assets db) = []" by (rule no_foreign_refs [OF assms(1) i(1)])
  then have "scene_ok rt (bd_assets db) \<lparr>sr_boardId = i, sr_engine = BOARD_ENGINE_EXCALIDRAW,
                          sr_sceneVersion = CURRENT_BOARD_SCENE_VERSION, sr_revision = 0,
                          sr_engineDataJson = rt_json_text rt CANONICAL_EMPTY_ENGINE_DATA, sr_appStateJson = rt_json_text rt (JObj [])\<rparr>"
    using canonical_scene_valid assms(2) by (simp add: scene_ok_def CURRENT_BOARD_SCENE_VERSION_def MAX_SAFE_def json_laws_def)
  with i f show "board_db_ok rt d" unfolding d using assms(1) by (auto simp: board_db_ok_def)
qed (simp_all add: assms)

lemma deleteBoard_ok:
  assumes "board_db_ok rt db"
  shows "board_db_ok rt (snd (deleteBoard tn b db))"
  unfolding deleteBoard_def
proof (rule db_kept(1), rule db_kept(2))
  fix i x d
  let ?assets = "snd (deleteAllReferencesForOwner (js ''board'') i (bd_assets db))"
  let ?d = "db\<lparr>bd_assets := ?assets, bd_boards := filter (\<lambda>b. bo_id b \<noteq> i) (bd_boards db),
               bd_scenes := filter (\<lambda>r. sr_boardId r \<noteq> i) (bd_scenes db)\<rparr>"
  assume "(if i \<notin> bo_id ` set (bd_boards db) then Inr (None, db)
       else let (assetIds, assets) = deleteAllReferencesForOwner (js ''board'') i (bd_assets db) in
         Inr (Some assetIds, db\<lparr>bd_assets := assets,
                               bd_boards := filter (\<lambda>b. bo_id b \<noteq> i) (bd_boards db),
                               bd_scenes := filter (\<lambda>r. sr_boardId r \<noteq> i) (bd_scenes db)\<rparr>)) = Inr (x, d)"
  then consider "d = db" | "d = ?d" by (auto split: if_splits prod.splits)
  then show "board_db_ok rt d"
  proof cases
    case 2
    have refs: "ad_refs ?assets = filter (\<lambda>r. \<not> (ow_type (rf_owner r) = js ''board'' \<and> ow_id (rf_owner r) = i)) (ad_refs (bd_assets db))"
      by (simp add: deleteAllReferencesForOwner_def Let_def)
    have "listReferenceIds (sceneOwner j) ?assets = listReferenceIds (sceneOwner j) (bd_assets db)" if "j \<noteq> i" for j
    proof (rule listReferenceIds_cong)
      show "filter (\<lambda>r. rf_owner r = sceneOwner j) (ad_refs ?assets) = filter (\<lambda>r. rf_owner r = sceneOwner j) (ad_refs (bd_assets db))"
        unfolding refs filter_filter by (rule filter_cong) (use that in auto)
    qed
    then have "\<forall>r\<in>set (bd_scenes ?d). scene_ok rt ?assets r"
      using assms by (auto simp: board_db_ok_def intro: scene_ok_cong)
    moreover have "sr_boardId ` {r \<in> set (bd_scenes db). sr_boardId r \<noteq> i} = bo_id ` {b \<in> set (bd_boards db). bo_id b \<noteq> i}"
    proof -
      have "sr_boardId ` {r \<in> set (bd_scenes db). sr_boardId r \<noteq> i} = sr_boardId ` set (bd_scenes db) - {i}" by auto
      also have "\<dots> = bo_id ` set (bd_boards db) - {i}" using assms by (simp add: board_db_ok_def)
      also have "\<dots> = bo_id ` {b \<in> set (bd_boards db). bo_id b \<noteq> i}" by auto
      finally show ?thesis .
    qed
    moreover have "ow_id (rf_owner r) \<in> bo_id ` {b \<in> set (bd_boards db). bo_id b \<noteq> i}"
      if "r \<in> set (ad_refs ?assets)" "ow_type (rf_owner r) = js ''board''" for r
    proof -
      have "ow_id (rf_owner r) \<in> bo_id ` set (bd_boards db)" "ow_id (rf_owner r) \<noteq> i"
        using that assms by (auto simp: refs board_db_ok_def)
      then show ?thesis by auto
    qed
    ultimately show ?thesis
      unfolding 2 using assms deleteAll_ok [of "bd_assets db" "js ''board''" i]
      by (simp add: board_db_ok_def distinct_map_filterI) blast
  qed (simp add: assms)
qed (simp_all add: assms)

text \<open>What a successful save did.\<close>

lemma saveTransaction_Inr:
  "saveTransaction i rv engine version ej aj ids at db = Inr (x, db') \<longleftrightarrow>
     (\<exists>current assets. lookup_by sr_boardId i (bd_scenes db) = Some current \<and> sr_revision current = rv
        \<and> replaceReferences (sceneOwner i) ids at (bd_assets db) = Inr assets \<and> i \<in> bo_id ` set (bd_boards db)
        \<and> x = \<lparr>sx_revision = rv + 1, sx_updatedAt = at,
               sx_removedAssetIds = filter (\<lambda>a. a \<notin> set ids) (listReferenceIds (sceneOwner i) (bd_assets db))\<rparr>
        \<and> db' = db\<lparr>bd_assets := assets,
                   bd_boards := map (\<lambda>b. if bo_id b = i then b\<lparr>bo_updatedAt := at\<rparr> else b) (bd_boards db),
                   bd_scenes := map (\<lambda>r. if sr_boardId r = i
                     then r\<lparr>sr_engine := engine, sr_sceneVersion := version, sr_engineDataJson := ej,
                            sr_appStateJson := aj, sr_revision := sr_revision r + 1\<rparr> else r) (bd_scenes db)\<rparr>)"
  by (auto simp: saveTransaction_def Let_def bindR_eq_Inr updateBoard_Inr split: option.splits if_splits)

lemma referenceConflict_Inr [simp]: "referenceConflict p = (Inr x, db) \<longleftrightarrow> p = (Inr x, db)"
  by (auto simp: referenceConflict_def split: prod.splits sum.splits store_error.splits)

lemma assert_Inr:
  "assertExpectedRevision (JInt k) = Inr j \<longleftrightarrow> j = k \<and> is_safe k \<and> 0 \<le> k"
  "assertSupportedBoardSceneContract (JStr g) (JInt v) = Inr u \<longleftrightarrow> g = BOARD_ENGINE_EXCALIDRAW \<and> v = 1"
  "serializeBoardScenePart rt x = Inr t \<longleftrightarrow> x \<noteq> JUndef \<and> t = rt_json_text rt x"
  "(if c then boardValidationError else Inr y) = Inr z \<longleftrightarrow> \<not> c \<and> z = y"
  by (auto simp: assertExpectedRevision_def assertSupportedBoardSceneContract_def serializeBoardScenePart_def CURRENT_BOARD_SCENE_VERSION_def)

lemma saveBoardScene_InrE:
  assumes "saveBoardScene rt tn input at db = (Inr x, db')"
  obtains i sc where "assertBoardId (JStr (sv_boardId input)) = Inr i"
    and "is_safe (sv_expectedRevision input)" "0 \<le> sv_expectedRevision input" "sv_expectedRevision input < MAX_SAFE"
    and "normalizeSceneParts (sn_engineData (sv_scene input)) (sn_appState (sv_scene input))
           (refs_json (sn_assetRefs (sv_scene input))) = Inr sc"
    and "\<not> at_writeFails tn" "\<not> at_commitLost tn"
    and "saveTransaction i (sv_expectedRevision input) BOARD_ENGINE_EXCALIDRAW 1
           (rt_json_text rt (sn_engineData sc)) (rt_json_text rt (sn_appState sc)) (sn_assetRefs sc) at db = Inr (x, db')"
  using assms unfolding saveBoardScene_def validated_Inr assert_Inr referenceConflict_Inr boardTransaction_Inr not_le
  by (elim exE conjE) (rule that; simp)

text \<open>A save that is reported as failed has changed nothing, or its commit was lost after it took place.\<close>

lemma saveBoardScene_failed:
  assumes "saveBoardScene rt tn input at db = (Inl e, d)"
  shows "d = db \<or> (\<exists>x. saveBoardScene rt (tn\<lparr>at_commitLost := False\<rparr>) input at db = (Inr x, d))"
  using assms
  by (auto simp: saveBoardScene_def validated_def referenceConflict_def boardTransaction_def
      split: sum.splits prod.splits store_error.splits if_splits)

lemma scene_unique: "board_db_ok rt db \<Longrightarrow> r \<in> set (bd_scenes db) \<Longrightarrow> lookup_by sr_boardId (sr_boardId r) (bd_scenes db) = Some r"
  by (auto simp: board_db_ok_def intro: lookup_by_mem)

lemma scene_exists:
  assumes "board_db_ok rt db" "i \<in> bo_id ` set (bd_boards db)"
  obtains r where "lookup_by sr_boardId i (bd_scenes db) = Some r" "r \<in> set (bd_scenes db)" "sr_boardId r = i" "scene_ok rt (bd_assets db) r"
proof -
  have "i \<in> sr_boardId ` set (bd_scenes db)" using assms by (simp add: board_db_ok_def)
  then obtain r where r: "r \<in> set (bd_scenes db)" "sr_boardId r = i" by auto
  with scene_unique [OF assms(1) r(1)] assms(1) that show thesis by (auto simp: board_db_ok_def)
qed

text \<open>The row that a save leaves, read back.\<close>

lemma saved_scene_reads:
  assumes "json_laws rt" "parsed_json rt e" "parsed_json rt a" "asset_db_ok assets"
    and n: "normalizeSceneParts e a r = Inr sc" and refs: "references assets (sceneOwner i) = set (sn_assetRefs sc)"
  shows "rt_json_parse rt (rt_json_text rt e) = Some (stored_json e)" "rt_json_parse rt (rt_json_text rt a) = Some a"
    and "normalizeSceneParts (stored_json e) a (refs_json (listReferenceIds (sceneOwner i) assets))
       = Inr \<lparr>sn_engineData = stored_json e, sn_appState = a, sn_assetRefs = listReferenceIds (sceneOwner i) assets\<rparr>"
proof -
  have d: "\<And>ps. a = JObj ps \<Longrightarrow> distinct (map fst ps)" using assms(1,3) by (auto simp: json_laws_def)
  have sa: "stored_json a = a" using appState_stored [OF normalizeSceneParts_Inr(6) [OF n] d] by simp
  show "rt_json_parse rt (rt_json_text rt e) = Some (stored_json e)" using assms(1,2) by (simp add: json_laws_def)
  have "rt_json_parse rt (rt_json_text rt a) = Some (stored_json a)" using assms(1,3) by (simp add: json_laws_def)
  with sa show "rt_json_parse rt (rt_json_text rt a) = Some a" by simp
  have "set (listReferenceIds (sceneOwner i) assets) = set (sn_assetRefs sc)" using refs by simp
  from stored_scene_valid [OF n d this distinct_listReferenceIds [OF assms(4)]] sa
  show "normalizeSceneParts (stored_json e) a (refs_json (listReferenceIds (sceneOwner i) assets))
       = Inr \<lparr>sn_engineData = stored_json e, sn_appState = a, sn_assetRefs = listReferenceIds (sceneOwner i) assets\<rparr>" by simp
qed

lemma saveBoardScene_ok:
  assumes ok: "board_db_ok rt db" and laws: "json_laws rt"
    and parsed: "parsed_json rt (sn_engineData (sv_scene input))" "parsed_json rt (sn_appState (sv_scene input))"
  shows "board_db_ok rt (snd (saveBoardScene rt tn0 input at db))"
proof (cases "saveBoardScene rt tn0 input at db")
  case (Pair res db')
  show ?thesis
  proof (cases "db' = db")
    case True
    with ok Pair show ?thesis by simp
  next
    case False
    with Pair obtain tn x where saved: "saveBoardScene rt tn input at db = (Inr x, db')"
      using saveBoardScene_failed by (cases res) blast+
    obtain i sc where n: "normalizeSceneParts (sn_engineData (sv_scene input)) (sn_appState (sv_scene input))
             (refs_json (sn_assetRefs (sv_scene input))) = Inr sc" and max: "sv_expectedRevision input < MAX_SAFE"
      and rev: "0 \<le> sv_expectedRevision input"
      and t: "saveTransaction i (sv_expectedRevision input) BOARD_ENGINE_EXCALIDRAW 1
             (rt_json_text rt (sn_engineData sc)) (rt_json_text rt (sn_appState sc)) (sn_assetRefs sc) at db = Inr (x, db')"
      by (rule saveBoardScene_InrE [OF saved])
    note sc = normalizeSceneParts_Inr(1,2) [OF n]
    from t obtain current assets where cur: "lookup_by sr_boardId i (bd_scenes db) = Some current"
        "sr_revision current = sv_expectedRevision input"
      and rep: "replaceReferences (sceneOwner i) (sn_assetRefs sc) at (bd_assets db) = Inr assets"
      and i: "i \<in> bo_id ` set (bd_boards db)"
      and d: "db' = db\<lparr>bd_assets := assets,
                   bd_boards := map (\<lambda>b. if bo_id b = i then b\<lparr>bo_updatedAt := at\<rparr> else b) (bd_boards db),
                   bd_scenes := map (\<lambda>r. if sr_boardId r = i
                     then r\<lparr>sr_engine := BOARD_ENGINE_EXCALIDRAW, sr_sceneVersion := 1,
                            sr_engineDataJson := rt_json_text rt (sn_engineData sc),
                            sr_appStateJson := rt_json_text rt (sn_appState sc), sr_revision := sr_revision r + 1\<rparr> else r) (bd_scenes db)\<rparr>"
        (is "_ = db\<lparr>bd_assets := assets, bd_boards := ?bs, bd_scenes := ?ss\<rparr>")
      by (auto simp: saveTransaction_Inr)
    have aok: "asset_db_ok (bd_assets db)" and aok': "asset_db_ok assets"
      using ok replaceReferences_ok [OF rep] by (simp_all add: board_db_ok_def)
    have refs: "references assets (sceneOwner i) = set (sn_assetRefs sc)" using replaceReferences_Inr(4) [OF rep] by simp
    note readback = saved_scene_reads [OF laws parsed [folded sc] aok' n [folded sc] refs]
    have rows: "scene_ok rt assets r'" if "r' \<in> set ?ss" for r'
    proof -
      from that obtain r where r: "r \<in> set (bd_scenes db)" and r': "r' = (if sr_boardId r = i
                     then r\<lparr>sr_engine := BOARD_ENGINE_EXCALIDRAW, sr_sceneVersion := 1,
                            sr_engineDataJson := rt_json_text rt (sn_engineData sc),
                            sr_appStateJson := rt_json_text rt (sn_appState sc), sr_revision := sr_revision r + 1\<rparr> else r)" by auto
      have old: "scene_ok rt (bd_assets db) r" using ok r by (simp add: board_db_ok_def)
      show ?thesis
      proof (cases "sr_boardId r = i")
        case True
        then have "current = r" using scene_unique [OF ok r] cur(1) by simp
        with cur(2) max rev have "0 \<le> sr_revision r + 1" "sr_revision r + 1 \<le> MAX_SAFE" by simp_all
        with readback True show ?thesis by (simp add: r' scene_ok_def)
      next
        case False
        then have "scene_ok rt assets r"
          by (intro scene_ok_cong [OF old] replace_other_refs [OF rep]) simp
        with False show ?thesis by (simp add: r')
      qed
    qed
    have ids: "map bo_id ?bs = map bo_id (bd_boards db)" "map sr_boardId ?ss = map sr_boardId (bd_scenes db)" by simp_all
    have ids': "bo_id ` set ?bs = bo_id ` set (bd_boards db)" "sr_boardId ` set ?ss = sr_boardId ` set (bd_scenes db)"
      using ids by (metis list.set_map)+
    have owners: "ow_id (rf_owner r) \<in> bo_id ` set (bd_boards db)"
      if "r \<in> set (ad_refs assets)" "ow_type (rf_owner r) = js ''board''" for r
    proof (cases "rf_owner r = sceneOwner i")
      case True
      with i show ?thesis by simp
    next
      case False
      with that(1) have "r \<in> set (filter (\<lambda>r. rf_owner r \<noteq> sceneOwner i) (ad_refs assets))" by simp
      then have "r \<in> set (ad_refs (bd_assets db))" unfolding replaceReferences_Inr(5) [OF rep] by simp
      with ok that(2) show ?thesis by (simp add: board_db_ok_def)
    qed
    have folders: "g \<in> bf_id ` set (bd_folders db)" if "b \<in> set ?bs" "bo_folderId b = Some g" for b g
      using that folder_known [OF ok] by (auto split: if_splits)
    have "board_db_ok rt db'"
      unfolding d using ok aok' ids ids' rows owners folders by (simp add: board_db_ok_def del: map_map set_map)
    with Pair show ?thesis by simp
  qed
qed

lemma scene_known: "board_db_ok rt db \<Longrightarrow> r \<in> set (bd_scenes db) \<Longrightarrow> scene_ok rt (bd_assets db) r"
  by (simp add: board_db_ok_def)

text \<open>References of one owner may be replaced, as long as it is no scene and its board exists.\<close>

lemma assets_replaced_ok:
  assumes ok: "board_db_ok rt db" and rep: "replaceReferences w ids at (bd_assets db) = Inr assets"
    and w: "\<And>i. w \<noteq> sceneOwner i" "ow_type w = js ''board'' \<Longrightarrow> ow_id w \<in> bo_id ` set (bd_boards db)"
  shows "board_db_ok rt (db\<lparr>bd_assets := assets\<rparr>)"
proof -
  have "scene_ok rt assets r" if "r \<in> set (bd_scenes db)" for r
    by (rule scene_ok_cong [OF scene_known [OF ok that]], rule replace_other_refs [OF rep]) (rule w(1) [symmetric])
  moreover have "ow_id (rf_owner r) \<in> bo_id ` set (bd_boards db)"
    if "r \<in> set (ad_refs assets)" "ow_type (rf_owner r) = js ''board''" for r
  proof (cases "rf_owner r = w")
    case True
    with w(2) that(2) show ?thesis by simp
  next
    case False
    with that(1) have "r \<in> set (filter (\<lambda>r. rf_owner r \<noteq> w) (ad_refs assets))" by simp
    then have "r \<in> set (ad_refs (bd_assets db))" unfolding replaceReferences_Inr(5) [OF rep] by simp
    with ok that(2) show ?thesis by (simp add: board_db_ok_def)
  qed
  ultimately show ?thesis using ok replaceReferences_ok [OF rep] by (simp add: board_db_ok_def)
qed

lemma replace_none: "replaceReferences w [] at db = Inr (dropReferences w db)"
  by (simp add: replaceReferences_def)

lemma replaceReferences_dropped: "replaceReferences w ids at (dropReferences w db) = replaceReferences w ids at db"
  by (simp add: replaceReferences_def dropReferences_def)

lemma replaceThumbnailReference_ok:
  assumes ok: "board_db_ok rt db"
  shows "board_db_ok rt (snd (replaceThumbnailReference tn b a at db))"
  unfolding replaceThumbnailReference_def
proof (rule db_kept(1), rule db_kept(5), rule db_kept(2))
  fix i x d
  assume "(if i \<notin> bo_id ` set (bd_boards db) then Inl boardNotFound
         else let (oldAssetIds, assets) = deleteReferences (thumbnailOwner i) (bd_assets db) in
           bindR (case a of
                    None \<Rightarrow> Inr assets
                  | Some a \<Rightarrow> if a = [] then Inr assets else replaceReferences (thumbnailOwner i) [a] at assets)
             (\<lambda>assets'. Inr (filter (\<lambda>x. Some x \<noteq> a) oldAssetIds, db\<lparr>bd_assets := assets'\<rparr>))) = Inr (x, d)"
  then have i: "i \<in> bo_id ` set (bd_boards db)"
    and r: "\<exists>assets. (case a of
                    None \<Rightarrow> Inr (dropReferences (thumbnailOwner i) (bd_assets db))
                  | Some a \<Rightarrow> if a = [] then Inr (dropReferences (thumbnailOwner i) (bd_assets db))
                      else replaceReferences (thumbnailOwner i) [a] at (bd_assets db)) = Inr assets \<and> d = db\<lparr>bd_assets := assets\<rparr>"
    by (auto simp: deleteReferences_def bindR_eq_Inr replaceReferences_dropped split: if_splits option.splits)
  from r obtain assets where rep: "\<exists>ids. replaceReferences (thumbnailOwner i) ids at (bd_assets db) = Inr assets"
    and d: "d = db\<lparr>bd_assets := assets\<rparr>"
    using replace_none [of "thumbnailOwner i" at "bd_assets db"] by (auto split: if_splits option.splits)
  then obtain ids where rep: "replaceReferences (thumbnailOwner i) ids at (bd_assets db) = Inr assets" by blast
  show "board_db_ok rt d" unfolding d by (rule assets_replaced_ok [OF ok rep]) (use i in simp_all)
qed (simp_all add: ok)

text \<open>Claiming an unreferenced asset changes no board.\<close>

lemma claimed_ok:
  assumes "board_db_ok rt db"
  shows "board_db_ok rt (db\<lparr>bd_assets := snd (tryClaimUnreferenced i (bd_assets db))\<rparr>)"
proof -
  have refs: "ad_refs (snd (tryClaimUnreferenced i (bd_assets db))) = ad_refs (bd_assets db)"
    by (simp add: tryClaimUnreferenced_def split: option.splits)
  have "scene_ok rt (snd (tryClaimUnreferenced i (bd_assets db))) r" if "r \<in> set (bd_scenes db)" for r
    by (rule scene_ok_cong [OF scene_known [OF assms that]], rule listReferenceIds_cong) (simp add: refs)
  then show ?thesis using assms claim_ok by (simp add: board_db_ok_def refs)
qed

lemma inserted_ok:
  assumes "board_db_ok rt db" "insertAsset m (bd_assets db) = Inr assets" "am_storageKey m = am_id m" "uuidPattern (am_id m)"
  shows "board_db_ok rt (db\<lparr>bd_assets := assets\<rparr>)"
proof -
  have refs: "ad_refs assets = ad_refs (bd_assets db)" using assms(2) by (auto simp: insertAsset_def split: if_splits)
  have "scene_ok rt assets r" if "r \<in> set (bd_scenes db)" for r
    by (rule scene_ok_cong [OF scene_known [OF assms(1) that]], rule listReferenceIds_cong) (simp add: refs)
  then show ?thesis using assms insertAsset_ok [OF assms(2)] by (simp add: board_db_ok_def refs)
qed

section \<open>Reading a board\<close>

lemma board_lookup: "lookup_by bo_id i bs = None \<longleftrightarrow> i \<notin> bo_id ` set bs"
  by (rule lookup_by_None_iff)

text \<open>In a sound database every board can be opened, and its scene names exactly its references.\<close>

lemma board_readable:
  assumes ok: "board_db_ok rt db" and i: "i \<in> bo_id ` set (bd_boards db)" "assertBoardId (JStr i) = Inr i" and tn: "\<not> at_readFails tn"
  obtains ag where "getBoard rt tn i db = Inr (Some ag)" "mt_id (ag_metadata ag) = i" "rc_boardId (ag_sceneRecord ag) = i"
    "sn_assetRefs (rc_scene (ag_sceneRecord ag)) = listReferenceIds (sceneOwner i) (bd_assets db)"
proof -
  obtain b where b: "lookup_by bo_id i (bd_boards db) = Some b" "bo_id b = i"
    using i(1) lookup_by_SomeD [of bo_id i] board_lookup by (metis option.exhaust)
  obtain r where r: "lookup_by sr_boardId i (bd_scenes db) = Some r" "sr_boardId r = i" "scene_ok rt (bd_assets db) r"
    using scene_exists [OF ok i(1)] by metis
  then obtain e a sc where p: "rt_json_parse rt (sr_engineDataJson r) = Some e" "rt_json_parse rt (sr_appStateJson r) = Some a"
      "normalizeSceneParts e a (refs_json (listReferenceIds (sceneOwner i) (bd_assets db))) = Inr sc"
    and f: "sr_engine r = BOARD_ENGINE_EXCALIDRAW" "sr_sceneVersion r = 1" "0 \<le> sr_revision r" "sr_revision r \<le> MAX_SAFE"
    by (auto simp: scene_ok_def)
  have refs: "sn_assetRefs sc = listReferenceIds (sceneOwner i) (bd_assets db)"
  proof -
    have "map JStr (listReferenceIds (sceneOwner i) (bd_assets db)) = map JStr (sn_assetRefs sc)"
      using normalizeSceneParts_Inr(3) [OF p(3)] by (simp add: refs_json_def)
    then show ?thesis by (metis inj_map_eq_map injI jval.inject(4))
  qed
  have "is_safe (sr_revision r)" using f(3,4) by (simp add: is_safe_def)
  then have "getSceneRecord rt tn i db = Inr \<lparr>rc_boardId = i, rc_engine = BOARD_ENGINE_EXCALIDRAW, rc_sceneVersion = 1,
      rc_revision = sr_revision r, rc_scene = sc\<rparr>"
    using r f p tn by (simp add: getSceneRecord_def boardRead_def parseStoredBoardScene_def migrateBoardScene_def
        CURRENT_BOARD_SCENE_VERSION_def)
  then have g: "getBoard rt tn i db = Inr (Some \<lparr>ag_metadata = metadataFromRow db b, ag_sceneRecord = \<lparr>rc_boardId = i,
      rc_engine = BOARD_ENGINE_EXCALIDRAW, rc_sceneVersion = 1, rc_revision = sr_revision r, rc_scene = sc\<rparr>\<rparr>)"
    using b tn i(2) by (simp add: getBoard_def getBoardMetadata_def boardRead_def)
  show thesis by (rule that [OF g]) (simp_all add: refs b(2) metadataFromRow_def)
qed

section \<open>Saving a scene\<close>

lemma listed_after_replace:
  assumes "replaceReferences w ids at db = Inr db'"
  shows "listReferenceIds w db' = order_by text_le ids"
proof -
  have "db' = (dropReferences w db)\<lparr>ad_refs := ad_refs (dropReferences w db) @ map (\<lambda>i. \<lparr>rf_asset = i, rf_owner = w, rf_createdAt = at\<rparr>) ids\<rparr>"
    using assms by (simp add: replaceReferences_def insertReferences_Inr)
  then have "map rf_asset (filter (\<lambda>r. rf_owner r = w) (ad_refs db')) = ids"
    by (simp add: dropReferences_def o_def filter_map cong: conj_cong)
  then show ?thesis by (simp add: listReferenceIds_def)
qed

lemma lookup_mapped:
  "(\<And>r. key (f r) = key r) \<Longrightarrow> lookup_by key k (map f xs) = map_option f (lookup_by key k xs)"
  by (induction xs) auto

lemma assertBoardId_Inr: "assertBoardId (JStr s) = Inr i \<longleftrightarrow> i = s \<and> s \<noteq> [] \<and> js_trim s = s"
  by (auto simp: assertBoardId_def)

text \<open>The next reader of a saved board sees the new revision and what was saved, its references in order.\<close>

lemma saved_board:
  assumes ok: "board_db_ok rt db" and laws: "json_laws rt"
    and parsed: "parsed_json rt (sn_engineData (sv_scene input))" "parsed_json rt (sn_appState (sv_scene input))"
    and saved: "saveBoardScene rt tn input at db = (Inr x, db')" and tn: "\<not> at_readFails tn2"
  shows "\<exists>ag. getBoard rt tn2 (sv_boardId input) db' = Inr (Some ag)
    \<and> ag_sceneRecord ag = \<lparr>rc_boardId = sv_boardId input, rc_engine = BOARD_ENGINE_EXCALIDRAW, rc_sceneVersion = 1,
        rc_revision = sv_expectedRevision input + 1,
        rc_scene = \<lparr>sn_engineData = stored_json (sn_engineData (sv_scene input)), sn_appState = sn_appState (sv_scene input),
                    sn_assetRefs = order_by text_le (sn_assetRefs (sv_scene input))\<rparr>\<rparr>
    \<and> mt_updatedAt (ag_metadata ag) = at
    \<and> sx_revision x = sv_expectedRevision input + 1 \<and> sx_updatedAt x = at"
proof -
  let ?i = "sv_boardId input" and ?s = "sv_scene input"
  obtain i sc where i: "assertBoardId (JStr ?i) = Inr i" and max: "0 \<le> sv_expectedRevision input" "sv_expectedRevision input < MAX_SAFE"
    and n: "normalizeSceneParts (sn_engineData ?s) (sn_appState ?s) (refs_json (sn_assetRefs ?s)) = Inr sc"
    and t: "saveTransaction i (sv_expectedRevision input) BOARD_ENGINE_EXCALIDRAW 1
           (rt_json_text rt (sn_engineData sc)) (rt_json_text rt (sn_appState sc)) (sn_assetRefs sc) at db = Inr (x, db')"
    by (rule saveBoardScene_InrE [OF saved])
  have i': "i = ?i" using i by (simp add: assertBoardId_Inr)
  have sc: "sn_engineData sc = sn_engineData ?s" "sn_appState sc = sn_appState ?s" "sn_assetRefs sc = sn_assetRefs ?s"
  proof -
    have "map JStr (sn_assetRefs ?s) = map JStr (sn_assetRefs sc)" using normalizeSceneParts_Inr(3) [OF n] by (simp add: refs_json_def)
    then show "sn_assetRefs sc = sn_assetRefs ?s" by (metis inj_map_eq_map injI jval.inject(4))
  qed (simp_all add: normalizeSceneParts_Inr(1,2) [OF n])
  from t obtain current assets where cur: "lookup_by sr_boardId i (bd_scenes db) = Some current" "sr_revision current = sv_expectedRevision input"
    and rep: "replaceReferences (sceneOwner i) (sn_assetRefs sc) at (bd_assets db) = Inr assets" and b: "i \<in> bo_id ` set (bd_boards db)"
    and x: "sx_revision x = sv_expectedRevision input + 1" "sx_updatedAt x = at"
    and d: "db' = db\<lparr>bd_assets := assets,
                   bd_boards := map (\<lambda>b. if bo_id b = i then b\<lparr>bo_updatedAt := at\<rparr> else b) (bd_boards db),
                   bd_scenes := map (\<lambda>r. if sr_boardId r = i
                     then r\<lparr>sr_engine := BOARD_ENGINE_EXCALIDRAW, sr_sceneVersion := 1, sr_engineDataJson := rt_json_text rt (sn_engineData sc),
                            sr_appStateJson := rt_json_text rt (sn_appState sc), sr_revision := sr_revision r + 1\<rparr> else r) (bd_scenes db)\<rparr>"
    by (auto simp: saveTransaction_Inr)
  have aok: "asset_db_ok assets" using ok replaceReferences_ok [OF rep] by (simp add: board_db_ok_def)
  have refs: "references assets (sceneOwner i) = set (sn_assetRefs sc)" using replaceReferences_Inr(4) [OF rep] by simp
  note readback = saved_scene_reads [OF laws parsed [folded sc] aok n [folded sc] refs]
  have cid: "sr_boardId current = i" using lookup_by_key [OF cur(1)] .
  have row: "lookup_by sr_boardId i (bd_scenes db') = Some (current\<lparr>sr_engine := BOARD_ENGINE_EXCALIDRAW, sr_sceneVersion := 1,
      sr_engineDataJson := rt_json_text rt (sn_engineData sc), sr_appStateJson := rt_json_text rt (sn_appState sc),
      sr_revision := sr_revision current + 1\<rparr>)"
    unfolding d by (simp add: lookup_mapped cur(1) cid)
  have "is_safe (sr_revision current + 1)" using max cur(2) by (simp add: is_safe_def)
  then have scene: "getSceneRecord rt tn2 i db' = Inr \<lparr>rc_boardId = i, rc_engine = BOARD_ENGINE_EXCALIDRAW, rc_sceneVersion = 1,
      rc_revision = sv_expectedRevision input + 1,
      rc_scene = \<lparr>sn_engineData = stored_json (sn_engineData sc), sn_appState = sn_appState sc, sn_assetRefs = listReferenceIds (sceneOwner i) assets\<rparr>\<rparr>"
    using readback row tn cid max cur(2)
    by (simp add: getSceneRecord_def boardRead_def parseStoredBoardScene_def migrateBoardScene_def CURRENT_BOARD_SCENE_VERSION_def d)
  obtain br where br: "lookup_by bo_id i (bd_boards db) = Some br" using b board_lookup by (metis option.exhaust)
  have brow: "lookup_by bo_id i (bd_boards db') = Some (br\<lparr>bo_updatedAt := at\<rparr>)"
    unfolding d by (simp add: lookup_mapped br lookup_by_key [OF br])
  have "getBoard rt tn2 ?i db' = Inr (Some \<lparr>ag_metadata = metadataFromRow db' (br\<lparr>bo_updatedAt := at\<rparr>), ag_sceneRecord = \<lparr>rc_boardId = i,
      rc_engine = BOARD_ENGINE_EXCALIDRAW, rc_sceneVersion = 1, rc_revision = sv_expectedRevision input + 1,
      rc_scene = \<lparr>sn_engineData = stored_json (sn_engineData sc), sn_appState = sn_appState sc, sn_assetRefs = listReferenceIds (sceneOwner i) assets\<rparr>\<rparr>\<rparr>)"
    using i tn brow scene by (simp add: getBoard_def getBoardMetadata_def boardRead_def i' [symmetric])
  moreover have "listReferenceIds (sceneOwner ?i) assets = order_by text_le (sn_assetRefs ?s)"
    using listed_after_replace [OF rep] sc(3) i' by simp
  ultimately show ?thesis using x sc i' by (simp add: metadataFromRow_def)
qed

end
