(* ===== verification/BoardService.thy ===== *)
theory BoardService
  imports BoardRepository
begin

text \<open>
  The board service (server/board/service.ts) behind its routes (server/board/routes.ts, folderRoutes.ts and the
  delete and read routes of server/assets/routes.ts). A request that only uses the database is answered in
  its turn; one that reads or removes asset files becomes a task, whose step is one turn of the event loop. The
  body of a request is the JSON value that was read from it, and an error is answered by its class, code and
  status; a body that is refused for its size, type or syntax never gets here.
\<close>

section \<open>Requests, replies and tasks\<close>

datatype board_request =
    ListBoards
  | CreateBoard jval
  | BoardMetadata ustr
  | PreviewBoard ustr
  | OpenBoard ustr
  | RenameBoard ustr jval
  | MoveBoard ustr jval
  | SaveScene ustr jval
  | SetThumbnail ustr jval
  | DeleteBoard ustr
  | ListFolders
  | CreateFolder jval
  | RenameFolder ustr jval
  | DeleteFolder ustr
  | PersistAsset jval jval "nat list" "int option"
  | DeleteUnreferenced ustr
  | ReadAsset ustr

datatype board_reply =
    ErrorReply store_error
  | BoardReply board_aggregate
  | MetadataReply board_metadata
  | BoardsReply "board_metadata list"
  | FolderReply folder_summary
  | FoldersReply "folder_summary list"
  | SavedReply int int
  | ThumbnailReply "ustr option"
  | AssetReply asset_meta
  | BytesReply asset_meta "nat list"
  | NoContentReply

text \<open>What follows when the references are readable.\<close>

datatype board_task =
    Viewing board_aggregate bool reader
  | Saving save_input reader
  | Picturing ustr "ustr option" reader
  | Cleaning board_reply cleaner
  | Persisting asset_task
  | ReadingAsset asset_meta asset_meta

type_synonym board_turn_result = "(board_reply + board_task) \<times> board_db"

definition answer :: "('a \<Rightarrow> board_reply) \<Rightarrow> 'a store_res \<times> board_db \<Rightarrow> board_turn_result" where
  "answer f p = (case p of (Inl e, db) \<Rightarrow> (Inl (ErrorReply e), db) | (Inr x, db) \<Rightarrow> (Inl (f x), db))"

definition proceed :: "board_task store_res \<Rightarrow> board_db \<Rightarrow> board_turn_result" where
  "proceed r db = (case r of Inl e \<Rightarrow> (Inl (ErrorReply e), db) | Inr t \<Rightarrow> (Inr t, db))"

section \<open>The service\<close>

definition nextTimestamp :: "asset_turn \<Rightarrow> int store_res" where
  "nextTimestamp tn = (if isSafeTimestamp (at_now tn) then Inr (at_now tn) else Inl boardStorageError)"

definition present :: "store_error \<Rightarrow> 'a option \<Rightarrow> 'a store_res" where
  "present e v = (case v of None \<Rightarrow> Inl e | Some x \<Rightarrow> Inr x)"

definition serviceCreateBoard ::
  "runtime \<Rightarrow> asset_turn \<Rightarrow> ustr \<Rightarrow> jval \<Rightarrow> jval \<Rightarrow> board_db \<Rightarrow> board_aggregate store_res \<times> board_db" where
  "serviceCreateBoard rt tn newId titleValue folderValue =
     validated (normalizeNullableBoardFolderId folderValue) (\<lambda>folderId.
     validated (if titleValue = JUndef then Inr DEFAULT_BOARD_TITLE else normalizeBoardTitle titleValue) (\<lambda>title.
     validated (assertBoardId (JStr newId)) (\<lambda>i.
     validated (nextTimestamp tn) (\<lambda>now db.
       andThen (createBoard rt tn i title now folderId db) (\<lambda>_ db'.
         (bindR (getBoard rt tn i db') (present boardStorageError), db'))))))"

definition serviceBoardMetadata :: "asset_turn \<Rightarrow> ustr \<Rightarrow> board_db \<Rightarrow> board_metadata store_res" where
  "serviceBoardMetadata tn boardId db =
     bindR (assertBoardId (JStr boardId)) (\<lambda>i. bindR (getBoardMetadata tn i db) (present boardNotFound))"

definition serviceCreateFolder ::
  "asset_turn \<Rightarrow> ustr \<Rightarrow> jval \<Rightarrow> jval \<Rightarrow> board_db \<Rightarrow> folder_summary store_res \<times> board_db" where
  "serviceCreateFolder tn newId nameValue parentValue =
     validated (normalizeNullableBoardFolderId parentValue) (\<lambda>parentId.
     validated (if parentId \<noteq> None then boardValidationError else Inr ()) (\<lambda>_.
     validated (assertBoardFolderId (JStr newId)) (\<lambda>i.
     validated (normalizeBoardFolderName nameValue) (\<lambda>name.
     validated (nextTimestamp tn) (\<lambda>now. createBoardFolder tn i name None now)))))"

definition serviceRenameFolder :: "asset_turn \<Rightarrow> ustr \<Rightarrow> jval \<Rightarrow> board_db \<Rightarrow> folder_summary store_res \<times> board_db" where
  "serviceRenameFolder tn folderId nameValue =
     validated (assertBoardFolderId (JStr folderId)) (\<lambda>i.
     validated (normalizeBoardFolderName nameValue) (\<lambda>name.
     validated (nextTimestamp tn) (\<lambda>now. renameBoardFolder tn i name now)))"

definition serviceDeleteFolder :: "asset_turn \<Rightarrow> ustr \<Rightarrow> board_db \<Rightarrow> unit store_res \<times> board_db" where
  "serviceDeleteFolder tn folderId =
     validated (assertBoardFolderId (JStr folderId)) (\<lambda>i db.
       andThen (deleteBoardFolder tn i db) (\<lambda>existed db'. (if existed then Inr () else Inl folderNotFound, db')))"

definition serviceMoveBoard :: "asset_turn \<Rightarrow> ustr \<Rightarrow> jval \<Rightarrow> board_db \<Rightarrow> board_metadata store_res \<times> board_db" where
  "serviceMoveBoard tn boardId folderValue =
     validated (assertBoardId (JStr boardId)) (\<lambda>i.
     validated (normalizeNullableBoardFolderId folderValue) (\<lambda>folderId. moveBoardToFolder tn i folderId))"

definition serviceRenameBoard :: "asset_turn \<Rightarrow> ustr \<Rightarrow> jval \<Rightarrow> board_db \<Rightarrow> board_metadata store_res \<times> board_db" where
  "serviceRenameBoard tn boardId titleValue =
     validated (assertBoardId (JStr boardId)) (\<lambda>i.
     validated (normalizeBoardTitle titleValue) (\<lambda>title.
     validated (nextTimestamp tn) (\<lambda>now. renameBoard tn i title now)))"

text \<open>\<open>assertAssetReferencesReadable\<close> up to its loop.\<close>

definition referencesReader :: "ustr list \<Rightarrow> reader store_res" where
  "referencesReader ids = bindR (normalizeAssetIds (refs_json ids)) (\<lambda>xs. Inr \<lparr>rd_current = None, rd_ids = xs\<rparr>)"

definition serviceViewBoard :: "runtime \<Rightarrow> asset_turn \<Rightarrow> bool \<Rightarrow> ustr \<Rightarrow> board_db \<Rightarrow> board_task store_res" where
  "serviceViewBoard rt tn opening boardId db =
     bindR (assertBoardId (JStr boardId)) (\<lambda>i.
     bindR (getBoard rt tn i db) (\<lambda>found.
     bindR (present boardNotFound found) (\<lambda>board.
     bindR (referencesReader (sn_assetRefs (rc_scene (ag_sceneRecord board)))) (\<lambda>r.
       Inr (Viewing board opening r)))))"

definition finishView :: "asset_turn \<Rightarrow> board_aggregate \<Rightarrow> bool \<Rightarrow> board_db \<Rightarrow> board_aggregate store_res \<times> board_db" where
  "finishView tn board opening =
     (if \<not> opening then Pair (Inr board)
      else validated (nextTimestamp tn) (\<lambda>now db.
        andThen (markBoardOpened tn (mt_id (ag_metadata board)) now db) (\<lambda>metadata db'.
          (Inr (board\<lparr>ag_metadata := metadata\<rparr>), db'))))"

definition serviceSaveScene :: "ustr \<Rightarrow> jval \<Rightarrow> jval \<Rightarrow> jval \<Rightarrow> jval \<Rightarrow> board_task store_res" where
  "serviceSaveScene boardId revisionValue engineValue versionValue sceneValue =
     bindR (assertBoardId (JStr boardId)) (\<lambda>i.
     bindR (assertExpectedRevision revisionValue) (\<lambda>expectedRevision.
     bindR (assertSupportedBoardSceneContract engineValue versionValue) (\<lambda>_.
     bindR (normalizeBoardScene sceneValue) (\<lambda>scene.
     bindR (referencesReader (sn_assetRefs scene)) (\<lambda>r.
       Inr (Saving \<lparr>sv_boardId = i, sv_expectedRevision = expectedRevision, sv_engine = BOARD_ENGINE_EXCALIDRAW,
                     sv_sceneVersion = CURRENT_BOARD_SCENE_VERSION, sv_scene = scene\<rparr> r))))))"

definition finishSave :: "runtime \<Rightarrow> asset_turn \<Rightarrow> save_input \<Rightarrow> board_db \<Rightarrow> board_turn_result" where
  "finishSave rt tn input db =
     (case validated (nextTimestamp tn) (\<lambda>now. saveBoardScene rt tn input now) db of
        (Inl e, db') \<Rightarrow> (Inl (ErrorReply e), db')
      | (Inr saved, db') \<Rightarrow>
          (Inr (Cleaning (SavedReply (sx_revision saved) (sx_updatedAt saved)) (cleanerFor (sx_removedAssetIds saved))), db'))"

definition serviceSetThumbnail :: "ustr \<Rightarrow> jval \<Rightarrow> board_task store_res" where
  "serviceSetThumbnail boardId assetValue =
     bindR (assertBoardId (JStr boardId)) (\<lambda>i.
     bindR (if assetValue = JNull then Inr None else bindR (assertAssetId assetValue) (\<lambda>a. Inr (Some a))) (\<lambda>assetId.
     bindR (case assetId of None \<Rightarrow> Inr \<lparr>rd_current = None, rd_ids = []\<rparr> | Some a \<Rightarrow> referencesReader [a]) (\<lambda>r.
       Inr (Picturing i assetId r))))"

definition finishThumbnail :: "asset_turn \<Rightarrow> ustr \<Rightarrow> ustr option \<Rightarrow> board_db \<Rightarrow> board_turn_result" where
  "finishThumbnail tn boardId assetId db =
     (case validated (nextTimestamp tn) (\<lambda>now. replaceThumbnailReference tn boardId assetId now) db of
        (Inl e, db') \<Rightarrow> (Inl (ErrorReply e), db')
      | (Inr old, db') \<Rightarrow> (Inr (Cleaning (ThumbnailReply assetId) (cleanerFor old)), db'))"

definition serviceDeleteBoard :: "asset_turn \<Rightarrow> ustr \<Rightarrow> board_db \<Rightarrow> board_turn_result" where
  "serviceDeleteBoard tn boardId db =
     (case validated (assertBoardId (JStr boardId)) (deleteBoard tn) db of
        (Inl e, db') \<Rightarrow> (Inl (ErrorReply e), db')
      | (Inr None, db') \<Rightarrow> (Inl (ErrorReply boardNotFound), db')
      | (Inr (Some ids), db') \<Rightarrow> (Inr (Cleaning NoContentReply (cleanerFor ids)), db'))"

section \<open>The routes\<close>

definition boardObject :: "jval \<Rightarrow> jobj store_res" where
  "boardObject v = (case v of JObj props \<Rightarrow> Inr props | _ \<Rightarrow> boardValidationError)"

definition ownOr :: "jobj \<Rightarrow> string \<Rightarrow> jval \<Rightarrow> jval" where
  "ownOr body k d = (if hasOwn body k then jget body k else d)"

definition nullableString :: "jobj \<Rightarrow> string \<Rightarrow> bool" where
  "nullableString body k \<longleftrightarrow> hasOwn body k \<and> (case jget body k of JNull \<Rightarrow> True | JStr _ \<Rightarrow> True | _ \<Rightarrow> False)"

definition saveSceneRoute :: "ustr \<Rightarrow> jval \<Rightarrow> board_task store_res" where
  "saveSceneRoute boardId value =
     bindR (boardObject value) (\<lambda>body.
       case jget body ''engine'' of
         JStr engine \<Rightarrow> serviceSaveScene boardId (jget body ''expectedRevision'') (JStr engine) (jget body ''sceneVersion'')
                         (jget body ''scene'')
       | _ \<Rightarrow> boardValidationError)"

definition thumbnailRoute :: "ustr \<Rightarrow> jval \<Rightarrow> board_task store_res" where
  "thumbnailRoute boardId value =
     bindR (boardObject value) (\<lambda>body.
       if \<not> nullableString body ''assetId'' then boardValidationError else serviceSetThumbnail boardId (jget body ''assetId''))"

definition readAssetRoute :: "asset_turn \<Rightarrow> ustr \<Rightarrow> asset_db \<Rightarrow> board_task store_res" where
  "readAssetRoute tn assetId db =
     bindR (getAssetMetadata tn (JStr assetId) db) (\<lambda>found.
     bindR (present (AssetError ASSET_NOT_FOUND 404) found) (\<lambda>metadata.
       if \<not> isBoardAssetMimeType (JStr (am_mimeType metadata)) then Inl (AssetError ASSET_STORAGE_ERROR 500)
       else bindR (readBegin tn assetId db) (\<lambda>m. Inr (ReadingAsset metadata m))))"

text \<open>The arrival of a request; \<open>newId\<close> is what the identifier generator would return.\<close>

definition boardRoute ::
  "runtime \<Rightarrow> (nat list \<Rightarrow> ustr) \<Rightarrow> asset_turn \<Rightarrow> ustr \<Rightarrow> board_request \<Rightarrow> board_db \<Rightarrow> board_turn_result" where
  "boardRoute rt hash tn newId rq db =
     (case rq of
        ListBoards \<Rightarrow> answer BoardsReply (listBoards tn db, db)
      | CreateBoard value \<Rightarrow> answer BoardReply
          (validated (boardObject value) (\<lambda>body.
             serviceCreateBoard rt tn newId (ownOr body ''title'' JUndef) (ownOr body ''folderId'' JNull)) db)
      | BoardMetadata i \<Rightarrow> answer MetadataReply (serviceBoardMetadata tn i db, db)
      | PreviewBoard i \<Rightarrow> proceed (serviceViewBoard rt tn False i db) db
      | OpenBoard i \<Rightarrow> proceed (serviceViewBoard rt tn True i db) db
      | RenameBoard i value \<Rightarrow> answer MetadataReply
          (validated (boardObject value) (\<lambda>body. serviceRenameBoard tn i (jget body ''title'')) db)
      | MoveBoard i value \<Rightarrow> answer MetadataReply
          (validated (bindR (boardObject value) (\<lambda>body.
             if nullableString body ''folderId'' then Inr body else boardValidationError)) (\<lambda>body.
             serviceMoveBoard tn i (jget body ''folderId'')) db)
      | SaveScene i value \<Rightarrow> proceed (saveSceneRoute i value) db
      | SetThumbnail i value \<Rightarrow> proceed (thumbnailRoute i value) db
      | DeleteBoard i \<Rightarrow> serviceDeleteBoard tn i db
      | ListFolders \<Rightarrow> answer FoldersReply (listBoardFolders tn db, db)
      | CreateFolder value \<Rightarrow> answer FolderReply
          (validated (boardObject value) (\<lambda>body.
             serviceCreateFolder tn newId (ownOr body ''name'' JUndef) (ownOr body ''parentId'' JNull)) db)
      | RenameFolder i value \<Rightarrow> answer FolderReply
          (validated (boardObject value) (\<lambda>body. serviceRenameFolder tn i (jget body ''name'')) db)
      | DeleteFolder i \<Rightarrow> answer (\<lambda>_. NoContentReply) (serviceDeleteFolder tn i db)
      | PersistAsset assetId mime data maxBytes \<Rightarrow>
          proceed (bindR (persistAsset hash tn assetId mime data maxBytes (bd_assets db)) (\<lambda>t. Inr (Persisting t))) db
      | DeleteUnreferenced i \<Rightarrow> (Inr (Cleaning NoContentReply (cleanerFor [i])), db)
      | ReadAsset i \<Rightarrow> proceed (readAssetRoute tn i (bd_assets db)) db)"

text \<open>The status of an error (\<open>apiErrorResponse\<close>): that of its class, 500 for anything else.\<close>

definition safeStatus :: "int \<Rightarrow> int" where
  "safeStatus st = (if 400 \<le> st \<and> st \<le> 599 then st else 500)"

definition apiErrorStatus :: "store_error \<Rightarrow> int" where
  "apiErrorStatus e = (case e of AssetError _ st \<Rightarrow> safeStatus st | BoardError _ st \<Rightarrow> safeStatus st | _ \<Rightarrow> 500)"

section \<open>Turns of a task\<close>

type_synonym board_store = "board_db \<times> files"

text \<open>The end of the reads is the start of what they were for, in the same turn.\<close>

definition afterReads :: "runtime \<Rightarrow> asset_turn \<Rightarrow> board_task \<Rightarrow> board_db \<Rightarrow> board_turn_result" where
  "afterReads rt tn task db =
     (case task of
        Viewing board opening _ \<Rightarrow> answer BoardReply (finishView tn board opening db)
      | Saving input _ \<Rightarrow> finishSave rt tn input db
      | Picturing boardId assetId _ \<Rightarrow> finishThumbnail tn boardId assetId db
      | t \<Rightarrow> (Inr t, db))"

definition readTurn ::
  "runtime \<Rightarrow> (nat list \<Rightarrow> ustr) \<Rightarrow> asset_turn \<Rightarrow> board_task \<Rightarrow> reader \<Rightarrow> (reader \<Rightarrow> board_task) \<Rightarrow> board_store
     \<Rightarrow> (board_reply + board_task) \<times> board_store" where
  "readTurn rt hash tn task r again st =
     (case readerStep hash tn r (bd_assets (fst st)) (snd st) of
        Inl e \<Rightarrow> (Inl (ErrorReply e), st)
      | Inr (Some r') \<Rightarrow> (Inr (again r'), st)
      | Inr None \<Rightarrow> (let (out, db) = afterReads rt tn task (fst st) in (out, db, snd st)))"

definition cleanTurn :: "(nat list \<Rightarrow> ustr) \<Rightarrow> asset_turn \<Rightarrow> board_reply \<Rightarrow> cleaner \<Rightarrow> board_store \<Rightarrow> (board_reply + board_task) \<times> board_store" where
  "cleanTurn hash tn reply cl st =
     (let (r, assets, fs) = cleanStep hash tn cl (bd_assets (fst st)) (snd st);
          st' = ((fst st)\<lparr>bd_assets := assets\<rparr>, fs) in
      case r of
        Inl e \<Rightarrow> (Inl (ErrorReply e), st')
      | Inr None \<Rightarrow> (Inl reply, st')
      | Inr (Some cl') \<Rightarrow> (Inr (Cleaning reply cl'), st'))"

definition persistTurn :: "(nat list \<Rightarrow> ustr) \<Rightarrow> asset_turn \<Rightarrow> asset_task \<Rightarrow> board_store \<Rightarrow> (board_reply + board_task) \<times> board_store" where
  "persistTurn hash tn task st =
     (let (r, assets, fs) = persistStep hash tn task (bd_assets (fst st)) (snd st);
          st' = ((fst st)\<lparr>bd_assets := assets\<rparr>, fs) in
      case r of
        Inl e \<Rightarrow> (Inl (ErrorReply e), st')
      | Inr (Inl m) \<Rightarrow> (Inl (AssetReply m), st')
      | Inr (Inr t) \<Rightarrow> (Inr (Persisting t), st'))"

definition taskTurn ::
  "runtime \<Rightarrow> (nat list \<Rightarrow> ustr) \<Rightarrow> asset_turn \<Rightarrow> board_task \<Rightarrow> board_store \<Rightarrow> (board_reply + board_task) \<times> board_store" where
  "taskTurn rt hash tn task st =
     (case task of
        Viewing board opening r \<Rightarrow> readTurn rt hash tn task r (Viewing board opening) st
      | Saving input r \<Rightarrow> readTurn rt hash tn task r (Saving input) st
      | Picturing i a r \<Rightarrow> readTurn rt hash tn task r (Picturing i a) st
      | Cleaning reply cl \<Rightarrow> cleanTurn hash tn reply cl st
      | Persisting t \<Rightarrow> persistTurn hash tn t st
      | ReadingAsset metadata m \<Rightarrow>
          (case readFinish hash tn m (snd st) of
             Inl e \<Rightarrow> (Inl (ErrorReply e), st)
           | Inr data \<Rightarrow> (Inl (BytesReply metadata data), st)))"

end
