(* ===== verification/BoardSystem.thy ===== *)
theory BoardSystem
  imports BoardService
begin

text \<open>
  Boards and assets as a state machine. A system is the tables and files, the tasks that wait for the file
  system, and the identifiers that the generator has handed out; a step is the arrival of a request or a turn
  of a task, so that requests interleave at their waits. The trace of a run lists the scene saves that
  were committed, latest first, each with its board and the revision it expected. \<open>Q\<close> says what a turn may meet.

  The theory shows what every reachable state keeps, in particular that an asset with metadata has its file
  although files are written and removed in several turns.
\<close>

section \<open>Steps\<close>

record board_system =
  by_store :: board_store
  by_tasks :: "board_task list"
  by_used :: "ustr list"

definition board_start :: board_system where
  "board_start = \<lparr>by_store = (\<lparr>bd_assets = \<lparr>ad_assets = [], ad_refs = []\<rparr>, bd_boards = [], bd_scenes = [], bd_folders = []\<rparr>, \<lambda>_. None),
     by_tasks = [], by_used = []\<rparr>"

definition task_next :: "board_reply + board_task \<Rightarrow> board_task list \<Rightarrow> board_task list" where
  "task_next r ts = (case r of Inl _ \<Rightarrow> ts | Inr t \<Rightarrow> ts @ [t])"

text \<open>
  The save that a turn committed: the one that it reports, and one that is answered as failed although the
  scenes have changed.
\<close>

definition saved_by :: "board_task \<Rightarrow> board_reply + board_task \<Rightarrow> board_db \<Rightarrow> board_db \<Rightarrow> (ustr \<times> int) list" where
  "saved_by task out db db' =
     (case task of
        Saving input _ \<Rightarrow>
          if (case out of Inr (Cleaning (SavedReply _ _) _) \<Rightarrow> True | _ \<Rightarrow> False) \<or> bd_scenes db' \<noteq> bd_scenes db
          then [(sv_boardId input, sv_expectedRevision input)] else []
      | _ \<Rightarrow> [])"

text \<open>The scene of a save was read by \<open>JSON.parse\<close>.\<close>

definition request_parsed :: "runtime \<Rightarrow> board_request \<Rightarrow> bool" where
  "request_parsed rt rq = (case rq of SaveScene _ v \<Rightarrow> parsed_json rt v | _ \<Rightarrow> True)"

inductive board_step ::
  "runtime \<Rightarrow> (nat list \<Rightarrow> ustr) \<Rightarrow> (asset_turn \<Rightarrow> bool) \<Rightarrow> board_system \<Rightarrow> (ustr \<times> int) list \<Rightarrow> board_system \<Rightarrow> bool"
  for rt hash Q where
  Arrive: "Q tn \<Longrightarrow> newId \<notin> set (by_used y) \<Longrightarrow> request_parsed rt rq \<Longrightarrow>
    boardRoute rt hash tn newId rq (fst (by_store y)) = (out, db) \<Longrightarrow>
    board_step rt hash Q y [] \<lparr>by_store = (db, snd (by_store y)), by_tasks = task_next out (by_tasks y), by_used = newId # by_used y\<rparr>"
| Turn: "Q tn \<Longrightarrow> task \<in> set (by_tasks y) \<Longrightarrow> taskTurn rt hash tn task (by_store y) = (out, st) \<Longrightarrow>
    board_step rt hash Q y (saved_by task out (fst (by_store y)) (fst st))
      \<lparr>by_store = st, by_tasks = task_next out (remove1 task (by_tasks y)), by_used = by_used y\<rparr>"

inductive board_run ::
  "runtime \<Rightarrow> (nat list \<Rightarrow> ustr) \<Rightarrow> (asset_turn \<Rightarrow> bool) \<Rightarrow> board_system \<Rightarrow> (ustr \<times> int) list \<Rightarrow> board_system \<Rightarrow> bool"
  for rt hash Q where
  Still: "board_run rt hash Q y [] y"
| Move: "board_run rt hash Q y evs z \<Longrightarrow> board_step rt hash Q z new x \<Longrightarrow> board_run rt hash Q y (new @ evs) x"

text \<open>A turn in which a commit is not lost while the read that should find it fails.\<close>

definition calm :: "asset_turn \<Rightarrow> bool" where
  "calm tn \<longleftrightarrow> \<not> (at_commitLost tn \<and> at_readFails tn)"

section \<open>Files\<close>

definition backed :: "(nat list \<Rightarrow> ustr) \<Rightarrow> files \<Rightarrow> asset_meta \<Rightarrow> bool" where
  "backed hash fs m \<longleftrightarrow> (\<exists>f. fs (am_id m) = Some f \<and> int (length (fl_data f)) = am_byteSize m \<and> hash (fl_data f) = am_sha256 m)"

text \<open>The names that a task has to itself: those of files it is creating or removing.\<close>

definition persist_holds :: "asset_task \<Rightarrow> ustr list" where
  "persist_holds t = (case t of CreateWrite m _ _ \<Rightarrow> [am_id m] | UndoCreate m _ \<Rightarrow> [am_id m] | _ \<Rightarrow> [])"

definition clean_holds :: "cleaner \<Rightarrow> ustr list" where
  "clean_holds cl = (case cl_removal cl of None \<Rightarrow> [] | Some (Capture i) \<Rightarrow> [i] | Some (Unlink i _ _) \<Rightarrow> [i])"

definition holds :: "board_task \<Rightarrow> ustr list" where
  "holds t = (case t of Persisting p \<Rightarrow> persist_holds p | Cleaning _ cl \<Rightarrow> clean_holds cl | _ \<Rightarrow> [])"

definition persist_ok :: "(nat list \<Rightarrow> ustr) \<Rightarrow> asset_task \<Rightarrow> bool" where
  "persist_ok hash t = (case t of
       CreateOpen m data \<Rightarrow> am_sha256 m = hash data \<and> am_byteSize m = int (length data) \<and> am_storageKey m = am_id m \<and> uuidPattern (am_id m)
     | CreateWrite m data _ \<Rightarrow> am_sha256 m = hash data \<and> am_byteSize m = int (length data) \<and> am_storageKey m = am_id m \<and> uuidPattern (am_id m)
     | _ \<Rightarrow> True)"

definition files_ok :: "(nat list \<Rightarrow> ustr) \<Rightarrow> asset_meta list \<Rightarrow> files \<Rightarrow> ustr list \<Rightarrow> bool" where
  "files_ok hash ms fs held \<longleftrightarrow> distinct held \<and> (\<forall>i\<in>set held. fs i \<noteq> None \<and> i \<notin> am_id ` set ms) \<and> (\<forall>m\<in>set ms. backed hash fs m)"

lemma files_ok_mset: "mset held = mset held' \<Longrightarrow> files_ok hash ms fs held = files_ok hash ms fs held'"
  unfolding files_ok_def by (metis mset_eq_setD mset_eq_imp_distinct_iff)

lemma files_ok_release: "files_ok hash ms fs (i # rest) \<Longrightarrow> files_ok hash ms fs rest"
  by (simp add: files_ok_def)

lemma backed_other: "am_id m \<noteq> i \<Longrightarrow> backed hash (fs(i := v)) m = backed hash fs m"
  by (simp add: backed_def)

text \<open>Whoever holds a name may write its file or remove it.\<close>

lemma files_ok_write: "files_ok hash ms fs (i # rest) \<Longrightarrow> files_ok hash ms (fs(i \<mapsto> f)) (i # rest)"
  by (auto simp: files_ok_def backed_def)

lemma files_ok_remove: "files_ok hash ms fs (i # rest) \<Longrightarrow> files_ok hash ms (fs(i := None)) rest"
  by (auto simp: files_ok_def backed_def)

lemma files_ok_open: "files_ok hash ms fs rest \<Longrightarrow> fs i = None \<Longrightarrow> files_ok hash ms (fs(i \<mapsto> f)) (i # rest)"
  by (auto simp: files_ok_def backed_def)

lemma files_ok_insert: "files_ok hash ms fs (am_id m # rest) \<Longrightarrow> backed hash fs m \<Longrightarrow> files_ok hash (ms @ [m]) fs rest"
  by (auto simp: files_ok_def)

lemma files_ok_claim:
  "files_ok hash ms fs rest \<Longrightarrow> m \<in> set ms \<Longrightarrow> am_id m = i \<Longrightarrow> files_ok hash (filter (\<lambda>x. am_id x \<noteq> i) ms) fs (i # rest)"
  by (auto simp: files_ok_def backed_def)

lemma files_ok_fewer: "files_ok hash ms fs held \<Longrightarrow> set ms' \<subseteq> set ms \<Longrightarrow> files_ok hash ms' fs held"
  by (auto simp: files_ok_def)

definition next_holds :: "(asset_meta + asset_task) store_res \<Rightarrow> ustr list" where
  "next_holds r = (case r of Inr (Inr t) \<Rightarrow> persist_holds t | _ \<Rightarrow> [])"

definition next_ok :: "(nat list \<Rightarrow> ustr) \<Rightarrow> (asset_meta + asset_task) store_res \<Rightarrow> bool" where
  "next_ok hash r = (case r of Inr (Inr t) \<Rightarrow> persist_ok hash t | _ \<Rightarrow> True)"

lemma verify_holds: "verifyIdempotentAsset tn m sz sha db = Inr t \<Longrightarrow> persist_holds t = [] \<and> persist_ok hash t"
  by (auto simp: verifyIdempotentAsset_def bindR_eq_Inr persist_holds_def persist_ok_def split: if_splits)

lemma next_verify [simp]: "next_holds (bindR (verifyIdempotentAsset tn m sz sha db) (\<lambda>t. Inr (Inr t))) = []"
  "next_ok hash (bindR (verifyIdempotentAsset tn m sz sha db) (\<lambda>t. Inr (Inr t)))"
  using verify_holds [of tn m sz sha db]
  by (cases "verifyIdempotentAsset tn m sz sha db"; simp add: next_holds_def next_ok_def)+

lemma insertCreated_files:
  assumes f: "files_ok hash (ad_assets db) fs (am_id m # rest)" and b: "backed hash fs m" and calm: "calm tn"
    and r: "insertCreated tn m inode db = (r, db')"
  shows "files_ok hash (ad_assets db') fs (next_holds r @ rest) \<and> next_ok hash r"
proof -
  have stays: "files_ok hash (ad_assets db) fs (next_holds r @ rest) \<and> next_ok hash r"
    if "r = (case (if at_readFails tn then None else findAsset (am_id m) db) of
              Some incumbent \<Rightarrow> bindR (verifyIdempotentAsset tn incumbent (am_byteSize m) (am_sha256 m) db) (\<lambda>t. Inr (Inr t))
            | None \<Rightarrow> Inr (Inr (UndoCreate m inode)))"
    using that f files_ok_release [OF f]
    by (auto simp: next_holds_def [of "Inr (Inr (UndoCreate m inode))"] next_ok_def [of _ "Inr (Inr (UndoCreate m inode))"]
        persist_holds_def persist_ok_def split: option.splits)
  show ?thesis
  proof (cases "if at_writeFails tn then Inl OtherFault else insertAsset m db")
    case (Inl e)
    with r stays show ?thesis by (auto simp: insertCreated_def Let_def split: option.splits)
  next
    case (Inr db1)
    then have d: "db1 = db\<lparr>ad_assets := ad_assets db @ [m]\<rparr>" "am_id m \<notin> am_id ` set (ad_assets db)"
      by (auto simp: insertAsset_def split: if_splits)
    have f1: "files_ok hash (ad_assets db1) fs rest" using files_ok_insert [OF f b] by (simp add: d)
    show ?thesis
    proof (cases "at_commitLost tn")
      case False
      with r Inr f1 show ?thesis by (auto simp: insertCreated_def next_holds_def next_ok_def)
    next
      case True
      then have "\<not> at_readFails tn" using calm by (simp add: calm_def)
      moreover have "findAsset (am_id m) db1 = Some m"
        using d(2) by (simp add: findAsset_def d(1) lookup_by_None_iff [THEN iffD2])
      ultimately have "r = bindR (verifyIdempotentAsset tn m (am_byteSize m) (am_sha256 m) db1) (\<lambda>t. Inr (Inr t))" "db' = db1"
        using r Inr True by (auto simp: insertCreated_def Let_def)
      with f1 show ?thesis by simp
    qed
  qed
qed

lemma createWrite_files:
  assumes f: "files_ok hash (ad_assets db) fs (am_id m # rest)" and calm: "calm tn"
    and ok: "am_sha256 m = hash data" "am_byteSize m = int (length data)"
    and r: "createWrite tn m data inode db fs = (r, db', fs')"
  shows "files_ok hash (ad_assets db') fs' (next_holds r @ rest) \<and> next_ok hash r"
proof (cases "at_io tn")
  case None
  let ?fs = "fs(am_id m \<mapsto> \<lparr>fl_inode = inode, fl_data = data\<rparr>)"
  have "insertCreated tn m inode db = (r, db')" "fs' = ?fs"
    using r None by (auto simp: createWrite_def split: prod.splits)
  moreover have "backed hash ?fs m" using ok by (simp add: backed_def)
  ultimately show ?thesis using insertCreated_files [OF files_ok_write [OF f] _ calm] by simp
next
  case (Some e)
  then have d: "r = Inl e" "db' = db" "fs' = fs(am_id m := map_option (\<lambda>d. \<lparr>fl_inode = inode, fl_data = d\<rparr>) (at_left tn))"
    using r by (auto simp: createWrite_def)
  have "files_ok hash (ad_assets db) fs' rest"
    unfolding d(3) using files_ok_remove [OF f] files_ok_release [OF files_ok_write [OF f]] by (cases "at_left tn") auto
  with d show ?thesis by (simp add: next_holds_def next_ok_def)
qed

lemma removeCreatedFile_Some: "removeCreatedFile hash i inode h fs = Some fs' \<Longrightarrow> fs' = fs(i := None)"
  by (auto simp: removeCreatedFile_def split: option.splits if_splits)

lemma persistStep_files:
  assumes f: "files_ok hash (ad_assets db) fs (persist_holds t @ rest)" and ok: "persist_ok hash t" and calm: "calm tn"
    and r: "persistStep hash tn t db fs = (r, db', fs')"
  shows "files_ok hash (ad_assets db') fs' (next_holds r @ rest) \<and> next_ok hash r"
proof (cases t)
  case (CreateOpen m data)
  with f have f0: "files_ok hash (ad_assets db) fs rest" by (simp add: persist_holds_def)
  from r CreateOpen obtain q where q: "createOpen tn m data db fs = (q, fs')" and d: "r = bindR q (\<lambda>t. Inr (Inr t))" "db' = db"
    by (auto simp: persistStep_def split: prod.splits)
  show ?thesis
  proof (cases "at_io tn = None \<and> fs (am_id m) = None")
    case True
    with q have "q = Inr (CreateWrite m data (at_inode tn))" "fs' = fs(am_id m \<mapsto> \<lparr>fl_inode = at_inode tn, fl_data = []\<rparr>)"
      by (auto simp: createOpen_def)
    with d files_ok_open [OF f0, of "am_id m"] True ok CreateOpen show ?thesis
      by (simp add: next_holds_def next_ok_def persist_holds_def persist_ok_def)
  next
    case False
    have n: "next_holds (bindR (Inl e) k) = []" "next_ok hash (bindR (Inl e) k)" for e and k :: "asset_task \<Rightarrow> (asset_meta + asset_task) store_res"
      by (simp_all add: next_holds_def next_ok_def)
    from False q have "fs' = fs \<and> next_holds r = [] \<and> next_ok hash r"
      unfolding d(1) by (auto simp: createOpen_def next_holds_def [of "Inl _"] next_ok_def [of _ "Inl _"] split: option.splits if_splits)
    with d f0 show ?thesis by simp
  qed
next
  case (CreateWrite m data inode)
  with assms show ?thesis
    by (intro createWrite_files [of hash db fs m rest tn data inode]) (simp_all add: persist_holds_def persist_ok_def persistStep_def)
next
  case (UndoCreate m inode)
  with f have f0: "files_ok hash (ad_assets db) fs (am_id m # rest)" by (simp add: persist_holds_def)
  from r UndoCreate have d: "next_holds r = []" "next_ok hash r" "db' = db"
    "fs' = fs \<or> fs' = fs(am_id m := None)"
    by (auto simp: persistStep_def undoCreate_def next_holds_def next_ok_def split: prod.splits option.splits if_splits
        dest!: removeCreatedFile_Some)
  then show ?thesis using files_ok_release [OF f0] files_ok_remove [OF f0] by auto
next
  case (VerifyRead m m')
  with r have "next_holds r = []" "next_ok hash r" "db' = db" "fs' = fs"
    by (cases "readFinish hash tn m' fs"; auto simp: persistStep_def next_holds_def next_ok_def)+
  with f VerifyRead show ?thesis by (simp add: persist_holds_def)
qed

definition next_clean :: "cleaner option store_res \<Rightarrow> ustr list" where
  "next_clean r = (case r of Inr (Some cl) \<Rightarrow> clean_holds cl | _ \<Rightarrow> [])"

lemma claimNext_cases:
  assumes "claimNext tn cl i db = (r, db')" "asset_db_ok db" "cl_removal cl = None"
  shows "db' = db \<and> (\<forall>c. r = Inr c \<longrightarrow> clean_holds c = [])
    \<or> (\<exists>c. r = Inr c \<and> clean_holds c = [i] \<and> (\<exists>m\<in>set (ad_assets db). am_id m = i) \<and> db' = snd (tryClaimUnreferenced i db)
        \<and> ad_assets db' = filter (\<lambda>x. am_id x \<noteq> i) (ad_assets db))
    \<or> r = Inl OtherFault \<and> db' = snd (tryClaimUnreferenced i db)"
proof -
  consider "db' = db" "\<forall>c. r = Inr c \<longrightarrow> clean_holds c = []" | "r = Inl OtherFault" "db' = snd (tryClaimUnreferenced i db)"
    | key where "assertAssetId (JStr i) = Inr i" "tryClaimUnreferenced i db = (Some key, db')"
        "r = (if key = [] then Inr cl else if key \<noteq> i then Inr (cl\<lparr>cl_failed := cl_failed cl @ [i]\<rparr>) else Inr (cl\<lparr>cl_removal := Some (Capture key)\<rparr>))"
    using assms(1,3) claim_none [of i db]
    by (auto simp: claimNext_def assertAssetId_def clean_holds_def split: sum.splits if_splits prod.splits option.splits)
  then show ?thesis
  proof cases
    case 3
    note c = claim_result [OF 3(2) assms(2)]
    have "i \<noteq> []" using 3(1) by (auto simp: assertAssetId_def isAssetId_def uuidPattern_def split: if_splits)
    with 3(3) c(1) have "r = Inr (cl\<lparr>cl_removal := Some (Capture i)\<rparr>)" by simp
    moreover have "ad_assets db' = filter (\<lambda>x. am_id x \<noteq> i) (ad_assets db)"
      using 3(2) by (auto simp: tryClaimUnreferenced_def split: option.splits if_splits)
    ultimately show ?thesis using c(2) 3(2) by (auto simp: clean_holds_def)
  qed auto
qed

lemma cleanStep_files:
  assumes f: "files_ok hash (ad_assets db) fs (clean_holds cl @ rest)" and ok: "asset_db_ok db"
    and r: "cleanStep hash tn cl db fs = (r, db', fs')"
  shows "files_ok hash (ad_assets db') fs' (next_clean r @ rest) \<and> (db' = db \<or> (\<exists>i. db' = snd (tryClaimUnreferenced i db)))"
proof (cases "cl_removal cl")
  case None
  with f have f0: "files_ok hash (ad_assets db) fs rest" by (simp add: clean_holds_def)
  show ?thesis
  proof (cases "cl_ids cl")
    case Nil
    with r None f0 show ?thesis by (auto simp: cleanStep_def next_clean_def)
  next
    case (Cons i ids)
    with r None obtain q where q: "claimNext tn (cl\<lparr>cl_ids := ids\<rparr>) i db = (q, db')"
      and d: "r = bindR q (\<lambda>c. Inr (Some c))" "fs' = fs" by (auto simp: cleanStep_def split: prod.splits)
    from claimNext_cases [OF q ok] None consider "db' = db" "\<forall>c. q = Inr c \<longrightarrow> clean_holds c = []"
      | c where "q = Inr c" "clean_holds c = [i]" "\<exists>m\<in>set (ad_assets db). am_id m = i" "db' = snd (tryClaimUnreferenced i db)"
          "ad_assets db' = filter (\<lambda>x. am_id x \<noteq> i) (ad_assets db)"
      | "q = Inl OtherFault" "db' = snd (tryClaimUnreferenced i db)" by auto
    then show ?thesis
    proof cases
      case 1
      then have "next_clean r = []" by (cases q) (simp_all add: d next_clean_def)
      with f0 1 d show ?thesis by simp
    next
      case 2
      then obtain m where "m \<in> set (ad_assets db)" "am_id m = i" by auto
      from files_ok_claim [OF f0 this] 2 d show ?thesis by (auto simp: next_clean_def)
    next
      case 3
      have "set (ad_assets db') \<subseteq> set (ad_assets db)"
        by (auto simp: 3(2) tryClaimUnreferenced_def split: option.splits if_splits)
      from files_ok_fewer [OF f0 this] 3 d show ?thesis by (auto simp: next_clean_def)
    qed
  qed
next
  case (Some rem)
  define i where "i = (case rem of Capture i \<Rightarrow> i | Unlink i _ _ \<Rightarrow> i)"
  have h: "clean_holds cl = [i]" using Some by (simp add: clean_holds_def i_def split: removal.splits)
  with f have f1: "files_ok hash (ad_assets db) fs (i # rest)" by simp
  from r Some obtain cl' where c: "removeStep hash tn rem cl fs = (cl', fs')" and d: "r = Inr (Some cl')" "db' = db"
    by (auto simp: cleanStep_def split: prod.splits)
  have "clean_holds cl' = [] \<and> (fs' = fs \<or> fs' = fs(i := None)) \<or> clean_holds cl' = [i] \<and> fs' = fs"
    using c by (auto simp: removeStep_def Let_def clean_holds_def i_def split: removal.splits if_splits option.splits
        dest!: removeCreatedFile_Some)
  then show ?thesis
    using d files_ok_release [OF f1] files_ok_remove [OF f1] f1 by (auto simp: next_clean_def)
qed

section \<open>Requests keep the tables sound\<close>

text \<open>Board operations keep the invariant and the metadata of the assets.\<close>

definition kept :: "runtime \<Rightarrow> board_db \<Rightarrow> board_db \<Rightarrow> bool" where
  "kept rt db d \<longleftrightarrow> board_db_ok rt d \<and> ad_assets (bd_assets d) = ad_assets (bd_assets db)"

lemma kept_refl [simp]: "kept rt db db \<longleftrightarrow> board_db_ok rt db"
  by (simp add: kept_def)

lemmas same_intros = kept_intros [where P = "\<lambda>d. ad_assets (bd_assets d) = A" for A]

lemma updateBoard_same: "updateBoard i e f db = Inr d \<Longrightarrow> bd_assets d = bd_assets db"
  by (auto simp: updateBoard_Inr)

lemma changeBoard_same:
  assumes "\<And>i d'. f i db = Inr d' \<Longrightarrow> bd_assets d' = bd_assets db"
  shows "ad_assets (bd_assets (snd (changeBoard tn boardId f db))) = ad_assets (bd_assets db)"
  unfolding changeBoard_def by (rule same_intros(1), rule same_intros(3), rule same_intros(2)) (auto simp: bindR_eq_Inr assms)

lemma replace_same: "replaceReferences w ids at db = Inr db' \<Longrightarrow> ad_assets db' = ad_assets db"
  by (rule replaceReferences_Inr(1))

lemma ops_same:
  "ad_assets (bd_assets (snd (createBoard rt tn b t at f db))) = ad_assets (bd_assets db)"
  "ad_assets (bd_assets (snd (moveBoardToFolder tn b f db))) = ad_assets (bd_assets db)"
  "ad_assets (bd_assets (snd (markBoardOpened tn b at db))) = ad_assets (bd_assets db)"
  "ad_assets (bd_assets (snd (renameBoard tn b t at db))) = ad_assets (bd_assets db)"
  "ad_assets (bd_assets (snd (createBoardFolder tn g n p at db))) = ad_assets (bd_assets db)"
  "ad_assets (bd_assets (snd (renameBoardFolder tn g n at db))) = ad_assets (bd_assets db)"
  "ad_assets (bd_assets (snd (deleteBoardFolder tn g db))) = ad_assets (bd_assets db)"
  "ad_assets (bd_assets (snd (deleteBoard tn b db))) = ad_assets (bd_assets db)"
  "ad_assets (bd_assets (snd (saveBoardScene rt tn input at db))) = ad_assets (bd_assets db)"
  "ad_assets (bd_assets (snd (replaceThumbnailReference tn b a at db))) = ad_assets (bd_assets db)"
proof -
  show "ad_assets (bd_assets (snd (createBoard rt tn b t at f db))) = ad_assets (bd_assets db)"
    unfolding createBoard_def
    by (rule same_intros(1), rule same_intros(2)) (auto simp: Let_def bindR_eq_Inr split: if_splits)
  show "ad_assets (bd_assets (snd (moveBoardToFolder tn b f db))) = ad_assets (bd_assets db)"
    unfolding moveBoardToFolder_def by (rule changeBoard_same) (auto dest: updateBoard_same split: if_splits)
  show "ad_assets (bd_assets (snd (markBoardOpened tn b at db))) = ad_assets (bd_assets db)"
    unfolding markBoardOpened_def by (rule changeBoard_same) (rule updateBoard_same)
  show "ad_assets (bd_assets (snd (renameBoard tn b t at db))) = ad_assets (bd_assets db)"
    unfolding renameBoard_def by (rule changeBoard_same) (rule updateBoard_same)
  show "ad_assets (bd_assets (snd (createBoardFolder tn g n p at db))) = ad_assets (bd_assets db)"
    unfolding createBoardFolder_def
    by (rule same_intros(1), rule same_intros(4), rule same_intros(2)) (auto split: if_splits)
  show "ad_assets (bd_assets (snd (renameBoardFolder tn g n at db))) = ad_assets (bd_assets db)"
    unfolding renameBoardFolder_def
    by (rule same_intros(1), rule same_intros(4), rule same_intros(2)) (auto split: if_splits)
  show "ad_assets (bd_assets (snd (deleteBoardFolder tn g db))) = ad_assets (bd_assets db)"
    unfolding deleteBoardFolder_def by (rule same_intros(1), rule same_intros(2)) (auto split: if_splits)
  show "ad_assets (bd_assets (snd (deleteBoard tn b db))) = ad_assets (bd_assets db)"
    unfolding deleteBoard_def
    by (rule same_intros(1), rule same_intros(2)) (auto simp: deleteAllReferencesForOwner_def Let_def split: if_splits)
  show "ad_assets (bd_assets (snd (saveBoardScene rt tn input at db))) = ad_assets (bd_assets db)"
    unfolding saveBoardScene_def
    by (rule same_intros(1), rule same_intros(1), rule same_intros(1), rule same_intros(1), rule same_intros(1), rule same_intros(1),
        rule same_intros(1), rule same_intros(5), rule same_intros(2)) (auto simp: saveTransaction_Inr dest: replace_same)
  show "ad_assets (bd_assets (snd (replaceThumbnailReference tn b a at db))) = ad_assets (bd_assets db)"
    unfolding replaceThumbnailReference_def
    by (rule same_intros(1), rule same_intros(5), rule same_intros(2))
      (auto simp: deleteReferences_def bindR_eq_Inr split: if_splits option.splits dest!: replace_same)
qed

lemma ops_kept:
  assumes "board_db_ok rt db"
  shows "json_laws rt \<Longrightarrow> kept rt db (snd (createBoard rt tn b t at f db))"
    "kept rt db (snd (moveBoardToFolder tn b f db))" "kept rt db (snd (markBoardOpened tn b at db))"
    "kept rt db (snd (renameBoard tn b t at db))" "kept rt db (snd (createBoardFolder tn g n p at db))"
    "kept rt db (snd (renameBoardFolder tn g n at db))" "kept rt db (snd (deleteBoardFolder tn g db))"
    "kept rt db (snd (deleteBoard tn b db))" "kept rt db (snd (replaceThumbnailReference tn b a at db))"
    "json_laws rt \<Longrightarrow> parsed_json rt (sn_engineData (sv_scene input)) \<Longrightarrow> parsed_json rt (sn_appState (sv_scene input)) \<Longrightarrow>
       kept rt db (snd (saveBoardScene rt tn input at db))"
  using assms
  by (simp_all add: kept_def ops_same createBoard_ok moveBoardToFolder_ok markBoardOpened_ok renameBoard_ok createBoardFolder_ok
      renameBoardFolder_ok deleteBoardFolder_ok deleteBoard_ok replaceThumbnailReference_ok saveBoardScene_ok)

lemma keep_validated: "(\<And>y. v = Inr y \<Longrightarrow> kept rt db (snd (k y db))) \<Longrightarrow> board_db_ok rt db \<Longrightarrow> kept rt db (snd (validated v k db))"
  by (cases v) (simp_all add: validated_def)

lemma keep_andThen: "kept rt db (snd p) \<Longrightarrow> (\<And>x d. snd (k x d) = d) \<Longrightarrow> kept rt db (snd (andThen p k))"
  by (auto simp: andThen_def split: prod.splits sum.splits)

lemma snd_answer [simp]: "snd (answer f p) = snd p"
  by (auto simp: answer_def split: prod.splits sum.splits)

lemma snd_proceed [simp]: "snd (proceed r db) = db"
  by (auto simp: proceed_def split: sum.splits)

lemma snd_deleteBoard [simp]: "snd (serviceDeleteBoard tn b db) = snd (validated (assertBoardId (JStr b)) (deleteBoard tn) db)"
  by (auto simp: serviceDeleteBoard_def split: prod.splits sum.splits option.splits)

lemma boardRoute_kept:
  assumes "board_db_ok rt db" "json_laws rt"
  shows "kept rt db (snd (boardRoute rt hash tn newId rq db))"
  using ops_kept [OF assms(1)] assms
  by (cases rq) (auto simp: boardRoute_def serviceCreateBoard_def serviceRenameBoard_def serviceMoveBoard_def serviceCreateFolder_def
      serviceRenameFolder_def serviceDeleteFolder_def intro!: keep_validated keep_andThen)

section \<open>What every reachable state keeps\<close>

definition task_ok :: "runtime \<Rightarrow> (nat list \<Rightarrow> ustr) \<Rightarrow> board_task \<Rightarrow> bool" where
  "task_ok rt hash t = (case t of
       Persisting p \<Rightarrow> persist_ok hash p
     | Saving input _ \<Rightarrow> parsed_json rt (sn_engineData (sv_scene input)) \<and> parsed_json rt (sn_appState (sv_scene input))
     | _ \<Rightarrow> True)"

definition boards_ok :: "runtime \<Rightarrow> (nat list \<Rightarrow> ustr) \<Rightarrow> board_system \<Rightarrow> bool" where
  "boards_ok rt hash y \<longleftrightarrow> board_db_ok rt (fst (by_store y))
     \<and> files_ok hash (ad_assets (bd_assets (fst (by_store y)))) (snd (by_store y)) (concat (map holds (by_tasks y)))
     \<and> (\<forall>t\<in>set (by_tasks y). task_ok rt hash t)"

definition out_holds :: "board_reply + board_task \<Rightarrow> ustr list" where
  "out_holds r = (case r of Inl _ \<Rightarrow> [] | Inr t \<Rightarrow> holds t)"

definition out_ok :: "runtime \<Rightarrow> (nat list \<Rightarrow> ustr) \<Rightarrow> board_reply + board_task \<Rightarrow> bool" where
  "out_ok rt hash r = (case r of Inl _ \<Rightarrow> True | Inr t \<Rightarrow> task_ok rt hash t)"

lemma out_simps [simp]: "out_holds (Inl x) = []" "out_ok rt hash (Inl x)" "out_holds (Inr t) = holds t" "out_ok rt hash (Inr t) = task_ok rt hash t"
  by (simp_all add: out_holds_def out_ok_def)

lemma out_answer [simp]: "out_holds (fst (answer f p)) = []" "out_ok rt hash (fst (answer f p))"
  by (auto simp: answer_def split: prod.splits sum.splits)

lemma out_proceed: "(\<And>t. r = Inr t \<Longrightarrow> holds t = [] \<and> task_ok rt hash t) \<Longrightarrow>
    out_holds (fst (proceed r db)) = [] \<and> out_ok rt hash (fst (proceed r db))"
  by (cases r) (simp_all add: proceed_def)

lemma parsed_property:
  assumes "json_laws rt" "parsed_json rt (JObj ps)" "jget ps k \<noteq> JUndef"
  shows "parsed_json rt (jget ps k)"
proof -
  from assms(3) obtain v where "map_of ps (js k) = Some v" "jget ps k = v" by (auto simp: jget_def split: option.splits)
  then have "(js k, v) \<in> set ps" "jget ps k = v" by (auto dest: map_of_SomeD)
  with assms(1,2) show ?thesis by (force simp: json_laws_def)
qed

lemma saveSceneRoute_task:
  assumes r: "saveSceneRoute i v = Inr t" and laws: "json_laws rt" and v: "parsed_json rt v"
  shows "holds t = [] \<and> task_ok rt hash t"
proof -
  from r obtain body engine where b: "v = JObj body"
    and s: "serviceSaveScene i (jget body ''expectedRevision'') (JStr engine) (jget body ''sceneVersion'') (jget body ''scene'') = Inr t"
    by (auto simp: saveSceneRoute_def boardObject_def bindR_eq_Inr split: jval.splits)
  from s obtain sc input rd where n: "normalizeBoardScene (jget body ''scene'') = Inr sc" and t: "t = Saving input rd" and i: "sv_scene input = sc"
    by (auto simp: serviceSaveScene_def bindR_eq_Inr)
  from n obtain s where s: "jget body ''scene'' = JObj s"
    and p: "normalizeSceneParts (jget s ''engineData'') (jget s ''persistentAppState'') (jget s ''assetRefs'') = Inr sc"
    by (auto simp: normalizeBoardScene_def split: jval.splits)
  note e = normalizeSceneParts_Inr [OF p]
  have "parsed_json rt (jget body ''scene'')" by (rule parsed_property [OF laws]) (use v b s in simp_all)
  then have ps: "parsed_json rt (JObj s)" using s by simp
  have "jget s ''persistentAppState'' \<noteq> JUndef" using e(6) by (auto simp: validatePersistentAppState_def)
  then have "parsed_json rt (jget s ''engineData'')" "parsed_json rt (jget s ''persistentAppState'')"
    using e(7) by (auto intro: parsed_property [OF laws ps])
  then show ?thesis by (simp add: t holds_def task_ok_def i e(1,2))
qed

lemma persistAsset_task:
  assumes "persistAsset hash tn i m data mb db = Inr t"
  shows "persist_holds t = [] \<and> persist_ok hash t"
proof -
  from assms obtain assetId mime where i: "assertAssetId i = Inr assetId"
    and c: "(case findAsset assetId db of
           Some existing \<Rightarrow> verifyIdempotentAsset tn existing (int (length data)) (hash data) db
         | None \<Rightarrow>
             if \<not> isSafeTimestamp (at_now tn) then Inl (AssetError ASSET_STORAGE_ERROR 500)
             else Inr (CreateOpen \<lparr>am_id = assetId, am_mimeType = mime, am_byteSize = int (length data), am_sha256 = hash data,
                                   am_storageKey = assetId, am_createdAt = at_now tn\<rparr> data)) = Inr t"
    by (auto simp: persistAsset_def bindR_eq_Inr Let_def split: if_splits)
  have u: "uuidPattern assetId" using i by (auto simp: assertAssetId_def isAssetId_def split: jval.splits if_splits)
  from c verify_holds u show ?thesis by (auto simp: persist_holds_def persist_ok_def split: option.splits if_splits)
qed

lemma boardRoute_out:
  assumes "json_laws rt" "request_parsed rt rq"
  shows "out_holds (fst (boardRoute rt hash tn newId rq db)) = [] \<and> out_ok rt hash (fst (boardRoute rt hash tn newId rq db))"
proof (cases rq)
  case (SaveScene i v)
  with assms saveSceneRoute_task show ?thesis
    by (simp only: boardRoute_def board_request.case) (rule out_proceed, simp add: request_parsed_def)
next
  case (PersistAsset i m data mb)
  show ?thesis
    by (simp only: PersistAsset boardRoute_def board_request.case)
      (rule out_proceed, auto simp: bindR_eq_Inr holds_def task_ok_def dest: persistAsset_task)
next
  case (DeleteBoard i)
  then show ?thesis
    by (auto simp: boardRoute_def serviceDeleteBoard_def holds_def clean_holds_def cleanerFor_def task_ok_def
        split: prod.splits sum.splits option.splits)
next
  case (PreviewBoard i)
  show ?thesis
    by (simp only: PreviewBoard boardRoute_def board_request.case)
      (rule out_proceed, auto simp: serviceViewBoard_def bindR_eq_Inr holds_def task_ok_def)
next
  case (OpenBoard i)
  show ?thesis
    by (simp only: OpenBoard boardRoute_def board_request.case)
      (rule out_proceed, auto simp: serviceViewBoard_def bindR_eq_Inr holds_def task_ok_def)
next
  case (SetThumbnail i v)
  show ?thesis
    by (simp only: SetThumbnail boardRoute_def board_request.case)
      (rule out_proceed, auto simp: thumbnailRoute_def serviceSetThumbnail_def bindR_eq_Inr holds_def task_ok_def split: if_splits)
next
  case (ReadAsset i)
  show ?thesis
    by (simp only: ReadAsset boardRoute_def board_request.case)
      (rule out_proceed, auto simp: readAssetRoute_def bindR_eq_Inr holds_def task_ok_def split: if_splits)
qed (simp_all add: boardRoute_def holds_def clean_holds_def cleanerFor_def task_ok_def)

lemma afterReads_kept:
  assumes "board_db_ok rt db" "json_laws rt" "task_ok rt hash t" "holds t = []"
  shows "kept rt db (snd (afterReads rt tn t db))"
    "out_holds (fst (afterReads rt tn t db)) = [] \<and> out_ok rt hash (fst (afterReads rt tn t db))"
proof -
  show "kept rt db (snd (afterReads rt tn t db))"
  proof (cases t)
    case (Viewing board op1 r)
    then show ?thesis
      using ops_kept [OF assms(1)] assms(1)
      by (auto simp: afterReads_def finishView_def intro!: keep_validated keep_andThen)
  next
    case (Saving input r)
    have "snd (finishSave rt tn input db) = snd (validated (nextTimestamp tn) (\<lambda>now. saveBoardScene rt tn input now) db)"
      by (auto simp: finishSave_def split: prod.splits sum.splits)
    moreover have "kept rt db \<dots>"
      using assms Saving by (intro keep_validated ops_kept(10)) (simp_all add: task_ok_def)
    ultimately show ?thesis by (simp add: afterReads_def Saving)
  next
    case (Picturing b a r)
    have "snd (finishThumbnail tn b a db) = snd (validated (nextTimestamp tn) (\<lambda>now. replaceThumbnailReference tn b a now) db)"
      by (auto simp: finishThumbnail_def split: prod.splits sum.splits)
    moreover have "kept rt db \<dots>" using assms(1) by (intro keep_validated ops_kept(9))
    ultimately show ?thesis by (simp add: afterReads_def Picturing)
  qed (simp_all add: afterReads_def assms(1))
  show "out_holds (fst (afterReads rt tn t db)) = [] \<and> out_ok rt hash (fst (afterReads rt tn t db))"
    using assms(3,4)
    by (cases t) (auto simp: afterReads_def finishSave_def finishThumbnail_def holds_def clean_holds_def cleanerFor_def task_ok_def
        split: prod.splits sum.splits)
qed

lemma persistStep_db:
  assumes "persistStep hash tn t db fs = (r, db', fs')" "persist_ok hash t"
  shows "db' = db \<or> (\<exists>m. insertAsset m db = Inr db' \<and> am_storageKey m = am_id m \<and> uuidPattern (am_id m))"
proof (cases t)
  case (CreateWrite m data inode)
  have "d = db \<or> insertAsset m db = Inr d" if "insertCreated tn m inode db = (q, d)" for q d
    using that by (auto simp: insertCreated_def Let_def split: sum.splits if_splits option.splits)
  with assms CreateWrite show ?thesis
    by (auto simp: persistStep_def createWrite_def persist_ok_def split: option.splits prod.splits)
qed (use assms in \<open>auto simp: persistStep_def split: prod.splits\<close>)

lemma update_same [simp]: "db\<lparr>bd_assets := bd_assets db\<rparr> = db"
  by simp

lemma taskTurn_ok:
  assumes ok: "board_db_ok rt (fst st)" and laws: "json_laws rt" and calm: "calm tn" and t: "task_ok rt hash task"
    and f: "files_ok hash (ad_assets (bd_assets (fst st))) (snd st) (holds task @ rest)"
    and r: "taskTurn rt hash tn task st = (out, st')"
  shows "board_db_ok rt (fst st') \<and> files_ok hash (ad_assets (bd_assets (fst st'))) (snd st') (out_holds out @ rest) \<and> out_ok rt hash out"
proof -
  have reads: ?thesis if h: "holds task = []" and again: "\<And>r'. holds (again r') = []" "\<And>r'. task_ok rt hash (again r')"
    and q: "readTurn rt hash tn task rd again st = (out, st')" for rd again
  proof (cases "readerStep hash tn rd (bd_assets (fst st)) (snd st)")
    case (Inl e)
    with q ok f h show ?thesis by (auto simp: readTurn_def)
  next
    case (Inr res)
    show ?thesis
    proof (cases res)
      case None
      then have "out = fst (afterReads rt tn task (fst st))" "st' = (snd (afterReads rt tn task (fst st)), snd st)"
        using q Inr by (auto simp: readTurn_def split: prod.splits)
      with afterReads_kept [OF ok laws t h, of tn] f h show ?thesis by (simp add: kept_def)
    next
      case (Some r')
      with q ok f h again Inr show ?thesis by (auto simp: readTurn_def)
    qed
  qed
  show ?thesis
  proof (cases task)
    case (Viewing board op1 rd)
    with r show ?thesis by (intro reads [of "Viewing board op1" rd]) (simp_all add: taskTurn_def holds_def task_ok_def)
  next
    case (Saving input rd)
    with r t show ?thesis by (intro reads [of "Saving input" rd]) (simp_all add: taskTurn_def holds_def task_ok_def)
  next
    case (Picturing i a rd)
    with r show ?thesis by (intro reads [of "Picturing i a" rd]) (simp_all add: taskTurn_def holds_def task_ok_def)
  next
    case (Cleaning reply cl)
    obtain q assets fs where c: "cleanStep hash tn cl (bd_assets (fst st)) (snd st) = (q, assets, fs)" by (metis prod_cases3)
    have aok: "asset_db_ok (bd_assets (fst st))" using ok by (simp add: board_db_ok_def)
    from f Cleaning have "files_ok hash (ad_assets (bd_assets (fst st))) (snd st) (clean_holds cl @ rest)" by (simp add: holds_def)
    from cleanStep_files [OF this aok c] have n: "files_ok hash (ad_assets assets) fs (next_clean q @ rest)"
      and d: "assets = bd_assets (fst st) \<or> (\<exists>i. assets = snd (tryClaimUnreferenced i (bd_assets (fst st))))" by auto
    from r Cleaning c have "st' = ((fst st)\<lparr>bd_assets := assets\<rparr>, fs)" "out_holds out = next_clean q" "out_ok rt hash out"
      by (auto simp: taskTurn_def cleanTurn_def Let_def next_clean_def holds_def task_ok_def split: sum.splits option.splits)
    with n d ok claimed_ok [OF ok] show ?thesis by auto
  next
    case (Persisting p)
    obtain q assets fs where c: "persistStep hash tn p (bd_assets (fst st)) (snd st) = (q, assets, fs)" by (metis prod_cases3)
    from f t Persisting have "files_ok hash (ad_assets (bd_assets (fst st))) (snd st) (persist_holds p @ rest)" and p: "persist_ok hash p"
      by (simp_all add: holds_def task_ok_def)
    from persistStep_files [OF this calm c] have n: "files_ok hash (ad_assets assets) fs (next_holds q @ rest)" "next_ok hash q" by auto
    from r Persisting c n(2) have "st' = ((fst st)\<lparr>bd_assets := assets\<rparr>, fs)" "out_holds out = next_holds q" "out_ok rt hash out"
      by (auto simp: taskTurn_def persistTurn_def Let_def next_holds_def next_ok_def holds_def task_ok_def split: sum.splits)
    moreover have "board_db_ok rt ((fst st)\<lparr>bd_assets := assets\<rparr>)"
      using persistStep_db [OF c p] ok inserted_ok [OF ok] by auto
    ultimately show ?thesis using n by simp
  next
    case (ReadingAsset metadata m)
    with r ok f show ?thesis by (auto simp: taskTurn_def holds_def split: sum.splits)
  qed
qed

lemma task_next_holds: "concat (map holds (task_next out ts)) = concat (map holds ts) @ out_holds out"
  by (cases out) (simp_all add: task_next_def)

lemma task_next_ok: "(\<forall>t\<in>set ts. task_ok rt hash t) \<Longrightarrow> out_ok rt hash out \<Longrightarrow> \<forall>t\<in>set (task_next out ts). task_ok rt hash t"
  by (cases out) (auto simp: task_next_def)

lemma holds_remove1: "t \<in> set ts \<Longrightarrow> mset (concat (map holds ts)) = mset (holds t @ concat (map holds (remove1 t ts)))"
  by (induction ts) auto

lemma board_step_ok:
  assumes "board_step rt hash Q y new z" "boards_ok rt hash y" "json_laws rt" "\<And>tn. Q tn \<Longrightarrow> calm tn"
  shows "boards_ok rt hash z"
  using assms(1)
proof cases
  case (Arrive tn newId rq out db)
  have ok: "board_db_ok rt (fst (by_store y))" using assms(2) by (simp add: boards_ok_def)
  have k: "kept rt (fst (by_store y)) db" using boardRoute_kept [OF ok assms(3), of hash tn newId rq] Arrive by simp
  have o: "out_holds out = []" "out_ok rt hash out" using boardRoute_out [OF assms(3), of rq hash tn newId "fst (by_store y)"] Arrive by simp_all
  have "\<forall>t\<in>set (task_next out (by_tasks y)). task_ok rt hash t"
    by (rule task_next_ok) (use assms(2) o in \<open>simp_all add: boards_ok_def\<close>)
  then show ?thesis
    using assms(2) k o(1) by (simp add: Arrive(2) boards_ok_def kept_def task_next_holds)
next
  case (Turn tn task out st)
  let ?rest = "concat (map holds (remove1 task (by_tasks y)))"
  have ok: "board_db_ok rt (fst (by_store y))" and t: "task_ok rt hash task"
    and f: "files_ok hash (ad_assets (bd_assets (fst (by_store y)))) (snd (by_store y)) (holds task @ ?rest)"
    using assms(2) Turn by (simp_all add: boards_ok_def files_ok_mset [OF holds_remove1 [OF Turn(4)]])
  from taskTurn_ok [OF ok assms(3) assms(4) [OF Turn(3)] t f Turn(5)]
  have n: "board_db_ok rt (fst st)" "files_ok hash (ad_assets (bd_assets (fst st))) (snd st) (out_holds out @ ?rest)" "out_ok rt hash out" by auto
  have "files_ok hash (ad_assets (bd_assets (fst st))) (snd st) (?rest @ out_holds out)"
    using n(2) by (subst files_ok_mset [of _ "out_holds out @ ?rest"]) simp_all
  moreover have "\<forall>t\<in>set (task_next out (remove1 task (by_tasks y))). task_ok rt hash t"
    using assms(2) n(3) set_remove1_subset [of task "by_tasks y"] by (intro task_next_ok) (auto simp: boards_ok_def)
  ultimately show ?thesis using n(1) by (simp add: Turn(2) boards_ok_def task_next_holds)
qed

lemma board_run_ok:
  "board_run rt hash Q y evs z \<Longrightarrow> boards_ok rt hash y \<Longrightarrow> json_laws rt \<Longrightarrow> (\<And>tn. Q tn \<Longrightarrow> calm tn) \<Longrightarrow> boards_ok rt hash z"
  by (induction rule: board_run.induct) (auto intro: board_step_ok)

lemma board_start_ok: "boards_ok rt hash board_start"
  by (simp add: boards_ok_def board_start_def board_db_ok_def asset_db_ok_def files_ok_def)

end
