(* ===== verification/BoardHistory.thy ===== *)
theory BoardHistory
  imports BoardSystem
begin

text \<open>
  The scene revisions of a run, and what follows for a user: the committed saves of a board form a chain of
  expected revisions 0, 1, 2, ..., of which the stored revision is the length, so that no save overwrites one
  that it has not seen; every board can be opened; every asset that a board uses is stored.
\<close>

section \<open>Revisions\<close>

definition revisions :: "board_db \<Rightarrow> (ustr \<times> int) list" where
  "revisions db = map (\<lambda>r. (sr_boardId r, sr_revision r)) (bd_scenes db)"

text \<open>A request drops scenes, or adds one under the new identifier at revision 0.\<close>

definition grown :: "ustr \<Rightarrow> (ustr \<times> int) list \<Rightarrow> (ustr \<times> int) list \<Rightarrow> bool" where
  "grown i rs rs' \<longleftrightarrow> (\<exists>P. rs' = filter P rs)
     \<or> i \<notin> fst ` set rs \<and> assertBoardId (JStr i) = Inr i \<and> rs' = rs @ [(i, 0)]"

definition bumped :: "ustr \<Rightarrow> (ustr \<times> int) list \<Rightarrow> (ustr \<times> int) list" where
  "bumped i rs = map (\<lambda>p. if fst p = i then (i, snd p + 1) else p) rs"

lemma grown_refl [simp]: "grown i rs rs"
  unfolding grown_def by (rule disjI1, rule exI [of _ "\<lambda>_. True"]) simp

lemma grown_filter [simp]: "grown i rs (filter P rs)"
  by (auto simp: grown_def)

lemmas scene_intros = kept_intros [where P = "\<lambda>d. bd_scenes d = R" for R]
lemmas grown_intros = kept_intros [where P = "\<lambda>d. grown n (revisions R) (revisions d)" for n R]

lemma updateBoard_scenes: "updateBoard i e f db = Inr d \<Longrightarrow> bd_scenes d = bd_scenes db"
  by (auto simp: updateBoard_Inr)

lemma changeBoard_scenes:
  assumes "\<And>i d'. f i db = Inr d' \<Longrightarrow> bd_scenes d' = bd_scenes db"
  shows "bd_scenes (snd (changeBoard tn boardId f db)) = bd_scenes db"
  unfolding changeBoard_def by (rule scene_intros(1), rule scene_intros(3), rule scene_intros(2)) (auto simp: bindR_eq_Inr assms)

lemma board_ops_scenes [simp]:
  "bd_scenes (snd (moveBoardToFolder tn b f db)) = bd_scenes db"
  "bd_scenes (snd (markBoardOpened tn b at db)) = bd_scenes db"
  "bd_scenes (snd (renameBoard tn b t at db)) = bd_scenes db"
  by (simp_all add: moveBoardToFolder_def markBoardOpened_def renameBoard_def)
    (rule changeBoard_scenes, auto dest: updateBoard_scenes split: if_splits)+

lemma folder_ops_scenes [simp]:
  "bd_scenes (snd (createBoardFolder tn g n p at db)) = bd_scenes db"
  "bd_scenes (snd (renameBoardFolder tn g n at db)) = bd_scenes db"
  unfolding createBoardFolder_def renameBoardFolder_def
  by (rule scene_intros(1), rule scene_intros(4), rule scene_intros(2), auto split: if_splits)+

lemma deleteBoardFolder_scenes [simp]: "bd_scenes (snd (deleteBoardFolder tn g db)) = bd_scenes db"
  unfolding deleteBoardFolder_def by (rule scene_intros(1), rule scene_intros(2)) (auto split: if_splits)

lemma thumbnail_scenes [simp]: "bd_scenes (snd (replaceThumbnailReference tn b a at db)) = bd_scenes db"
  unfolding replaceThumbnailReference_def
  by (rule scene_intros(1), rule scene_intros(5), rule scene_intros(2))
    (auto simp: deleteReferences_def bindR_eq_Inr split: if_splits option.splits)

lemma revisions_cong: "bd_scenes d = bd_scenes db \<Longrightarrow> revisions d = revisions db"
  by (simp add: revisions_def)

lemma deleteBoard_grown: "grown n (revisions db) (revisions (snd (deleteBoard tn b db)))"
  unfolding deleteBoard_def
proof (rule grown_intros(1), rule grown_intros(2))
  fix i x d
  assume "(if i \<notin> bo_id ` set (bd_boards db) then Inr (None, db)
       else let (assetIds, assets) = deleteAllReferencesForOwner (js ''board'') i (bd_assets db) in
         Inr (Some assetIds, db\<lparr>bd_assets := assets,
                               bd_boards := filter (\<lambda>b. bo_id b \<noteq> i) (bd_boards db),
                               bd_scenes := filter (\<lambda>r. sr_boardId r \<noteq> i) (bd_scenes db)\<rparr>)) = Inr (x, d)"
  then have "revisions d = revisions db \<or> revisions d = filter (\<lambda>p. fst p \<noteq> i) (revisions db)"
    by (auto simp: revisions_def filter_map o_def split: if_splits prod.splits)
  then show "grown n (revisions db) (revisions d)" by auto
qed simp_all

lemma createBoard_grown: "grown b (revisions db) (revisions (snd (createBoard rt tn b t at f db)))"
  unfolding createBoard_def
proof (rule grown_intros(1), rule grown_intros(2))
  fix i x d
  assume i: "assertBoardId (JStr b) = Inr i"
    and d: "(if (case f of None \<Rightarrow> False | Some f \<Rightarrow> f \<notin> bf_id ` set (bd_folders db))
       then Inl (BoardError BOARD_FOLDER_NOT_FOUND 404)
       else if i \<in> bo_id ` set (bd_boards db) \<or> i \<in> sr_boardId ` set (bd_scenes db) then Inl OtherFault
       else let scene = createCanonicalEmptyBoardScene in
         bindR (serializeBoardScenePart rt (sn_engineData scene)) (\<lambda>engineDataJson.
         bindR (serializeBoardScenePart rt (sn_appState scene)) (\<lambda>appStateJson.
           Inr ((), db\<lparr>bd_boards := bd_boards db @ [\<lparr>bo_id = i, bo_title = t, bo_createdAt = at,
                          bo_updatedAt = at, bo_lastOpenedAt = None, bo_folderId = f\<rparr>],
                       bd_scenes := bd_scenes db @ [\<lparr>sr_boardId = i, sr_engine = BOARD_ENGINE_EXCALIDRAW,
                          sr_sceneVersion = CURRENT_BOARD_SCENE_VERSION, sr_revision = 0,
                          sr_engineDataJson = engineDataJson, sr_appStateJson = appStateJson\<rparr>]\<rparr>)))) = Inr (x, d)"
  have "i = b" "assertBoardId (JStr i) = Inr i" using i by (simp_all add: assertBoardId_Inr)
  moreover from d have "i \<notin> sr_boardId ` set (bd_scenes db)" by (simp split: if_splits)
  moreover from d have "revisions d = revisions db @ [(i, 0)]" by (auto simp: revisions_def Let_def bindR_eq_Inr split: if_splits)
  ultimately show "grown b (revisions db) (revisions d)" by (auto simp: grown_def revisions_def)
qed simp_all

lemma grown_andThen: "grown n (revisions db) (revisions (snd p)) \<Longrightarrow> (\<And>x d. snd (k x d) = d) \<Longrightarrow>
    grown n (revisions db) (revisions (snd (andThen p k)))"
  by (auto simp: andThen_def split: prod.splits sum.splits)

lemma grown_board_ops:
  "grown n (revisions db) (revisions (snd (serviceMoveBoard tn b v db)))"
  "grown n (revisions db) (revisions (snd (serviceRenameBoard tn b v db)))"
  "grown n (revisions db) (revisions (snd (serviceDeleteBoard tn b db)))"
  unfolding serviceMoveBoard_def serviceRenameBoard_def snd_deleteBoard
  by (rule grown_intros(1) deleteBoard_grown | simp add: revisions_def)+

lemma grown_folder_ops:
  "grown n (revisions db) (revisions (snd (serviceCreateFolder tn b v w db)))"
  "grown n (revisions db) (revisions (snd (serviceRenameFolder tn b v db)))"
  "grown n (revisions db) (revisions (snd (serviceDeleteFolder tn b db)))"
  unfolding serviceCreateFolder_def serviceRenameFolder_def serviceDeleteFolder_def
  by (rule grown_intros(1) grown_andThen | simp add: revisions_def)+

lemma grown_create: "grown newId (revisions db) (revisions (snd (serviceCreateBoard rt tn newId v w db)))"
  unfolding serviceCreateBoard_def assertBoardId_Inr
  by (rule grown_intros(1) grown_andThen | simp add: assertBoardId_Inr createBoard_grown)+

lemma boardRoute_grown: "grown newId (revisions db) (revisions (snd (boardRoute rt hash tn newId rq db)))"
  by (cases rq) (simp_all add: boardRoute_def grown_intros(1) grown_board_ops grown_folder_ops grown_create
      del: snd_deleteBoard split del: if_split)

text \<open>A successful save raises the revision that it expected, everything else leaves the revisions alone.\<close>

lemma saved_tables:
  assumes "saveBoardScene rt tn input at db = (Inr x, d)" and i: "i = sv_boardId input"
  shows "\<exists>current ids g. lookup_by sr_boardId i (bd_scenes db) = Some current \<and> sr_revision current = sv_expectedRevision input
    \<and> replaceReferences (sceneOwner i) ids at (bd_assets db) = Inr (bd_assets d)
    \<and> bd_boards d = map (\<lambda>b. if bo_id b = i then b\<lparr>bo_updatedAt := at\<rparr> else b) (bd_boards db)
    \<and> bd_scenes d = map (\<lambda>r. if sr_boardId r = i then g r else r) (bd_scenes db)
    \<and> (\<forall>r. sr_boardId (g r) = sr_boardId r \<and> sr_revision (g r) = sr_revision r + 1)"
proof -
  have "\<exists>j (sc :: board_scene). assertBoardId (JStr i) = Inr j \<and> saveTransaction j (sv_expectedRevision input) BOARD_ENGINE_EXCALIDRAW 1
           (rt_json_text rt (sn_engineData sc)) (rt_json_text rt (sn_appState sc)) (sn_assetRefs sc) at db = Inr (x, d)"
    unfolding i by (rule saveBoardScene_InrE [OF assms(1)]) (intro exI conjI; assumption)
  then obtain sc :: board_scene where
    t: "saveTransaction i (sv_expectedRevision input) BOARD_ENGINE_EXCALIDRAW 1
           (rt_json_text rt (sn_engineData sc)) (rt_json_text rt (sn_appState sc)) (sn_assetRefs sc) at db = Inr (x, d)"
    by (auto simp: assertBoardId_Inr)
  let ?g = "\<lambda>r. r\<lparr>sr_engine := BOARD_ENGINE_EXCALIDRAW, sr_sceneVersion := 1, sr_engineDataJson := rt_json_text rt (sn_engineData sc),
    sr_appStateJson := rt_json_text rt (sn_appState sc), sr_revision := sr_revision r + 1\<rparr>"
  from t obtain current assets where "lookup_by sr_boardId i (bd_scenes db) = Some current" "sr_revision current = sv_expectedRevision input"
    "replaceReferences (sceneOwner i) (sn_assetRefs sc) at (bd_assets db) = Inr assets" "bd_assets d = assets"
    "bd_boards d = map (\<lambda>b. if bo_id b = i then b\<lparr>bo_updatedAt := at\<rparr> else b) (bd_boards db)"
    "bd_scenes d = map (\<lambda>r. if sr_boardId r = i then ?g r else r) (bd_scenes db)"
    by (auto simp: saveTransaction_Inr)
  then show ?thesis by (intro exI [of _ current] exI [of _ "sn_assetRefs sc"] exI [of _ ?g]) simp
qed

lemma saved_bumps:
  assumes "saveBoardScene rt tn input at db = (Inr x, d)"
  shows "(sv_boardId input, sv_expectedRevision input) \<in> set (revisions db) \<and> revisions d = bumped (sv_boardId input) (revisions db)"
proof -
  from saved_tables [OF assms refl] obtain current g where
    c: "lookup_by sr_boardId (sv_boardId input) (bd_scenes db) = Some current" "sr_revision current = sv_expectedRevision input"
    and d: "bd_scenes d = map (\<lambda>r. if sr_boardId r = sv_boardId input then g r else r) (bd_scenes db)"
    and g: "\<forall>r. sr_boardId (g r) = sr_boardId r \<and> sr_revision (g r) = sr_revision r + 1" by blast
  have "current \<in> set (bd_scenes db)" "sr_boardId current = sv_boardId input" using lookup_by_SomeD [OF c(1)] by auto
  then have "(sv_boardId input, sv_expectedRevision input) \<in> set (revisions db)" using c(2) by (force simp: revisions_def)
  moreover have "revisions d = bumped (sv_boardId input) (revisions db)" using g by (simp add: revisions_def d bumped_def)
  ultimately show ?thesis ..
qed

definition turn_bumps :: "(ustr \<times> int) list \<Rightarrow> board_db \<Rightarrow> board_db \<Rightarrow> bool" where
  "turn_bumps new db d \<longleftrightarrow> new = [] \<and> revisions d = revisions db
     \<or> (\<exists>i n. new = [(i, n)] \<and> (i, n) \<in> set (revisions db) \<and> revisions d = bumped i (revisions db))"

lemma bumped_differs: "(i, n) \<in> set rs \<Longrightarrow> bumped i rs \<noteq> rs"
proof
  assume a: "(i, n) \<in> set rs" "bumped i rs = rs"
  have "(case p of (j, k) \<Rightarrow> if j = i then (j, k + 1) else (j, k)) = p" if "p \<in> set rs" for p
    using a(2) that map_eq_conv [of _ rs id] by (fastforce simp: bumped_def)
  from this [OF a(1)] show False by simp
qed

lemma finishSave_bumps:
  assumes "finishSave rt tn input db = (out, d)"
  shows "turn_bumps (saved_by (Saving input r) out db d) db d"
proof (cases "nextTimestamp tn")
  case (Inl e)
  with assms show ?thesis by (auto simp: finishSave_def turn_bumps_def saved_by_def)
next
  case (Inr now)
  obtain q d' where s: "saveBoardScene rt tn input now db = (q, d')" by (cases "saveBoardScene rt tn input now db")
  show ?thesis
  proof (cases q)
    case (Inl e)
    then have out: "d' = d" "out = Inl (ErrorReply e)" using assms Inr s by (auto simp: finishSave_def)
    show ?thesis
    proof (cases "d = db")
      case True
      with out show ?thesis by (simp add: turn_bumps_def saved_by_def)
    next
      case False
      then obtain x tn' where "saveBoardScene rt tn' input now db = (Inr x, d)"
        using saveBoardScene_failed s Inl out(1) by blast
      note b = saved_bumps [OF this]
      then have "bd_scenes d \<noteq> bd_scenes db" using bumped_differs revisions_cong by metis
      with b show ?thesis by (simp add: turn_bumps_def saved_by_def)
    qed
  next
    case b: (Inr x)
    with assms Inr s have "saved_by (Saving input r) out db d = [(sv_boardId input, sv_expectedRevision input)]" "d' = d"
      by (auto simp: finishSave_def saved_by_def)
    with saved_bumps s b show ?thesis by (simp add: turn_bumps_def)
  qed
qed

lemma finishView_revisions [simp]: "revisions (snd (finishView tn b op1 db)) = revisions db"
proof -
  have "bd_scenes (snd (finishView tn b op1 db)) = bd_scenes db"
    unfolding finishView_def
    by (cases op1) (simp_all, rule scene_intros(1), auto simp: andThen_def dest: arg_cong [where f = "\<lambda>p. bd_scenes (snd p)"] split: prod.splits sum.splits)
  then show ?thesis by (rule revisions_cong)
qed

lemma finishThumbnail_revisions: "finishThumbnail tn b a db = (out, d) \<Longrightarrow> revisions d = revisions db"
proof -
  assume a: "finishThumbnail tn b a db = (out, d)"
  have "snd (finishThumbnail tn b a db) = snd (validated (nextTimestamp tn) (\<lambda>now. replaceThumbnailReference tn b a now) db)"
    by (auto simp: finishThumbnail_def split: prod.splits sum.splits)
  then have "d = snd (validated (nextTimestamp tn) (\<lambda>now. replaceThumbnailReference tn b a now) db)" using a by simp
  moreover have "bd_scenes \<dots> = bd_scenes db" by (rule scene_intros(1)) simp_all
  ultimately show ?thesis by (intro revisions_cong) simp
qed

lemma readTurn_bumps:
  assumes r: "readTurn rt hash tn task rd again st = (out, st')" and again: "\<And>r'. saved_by task (Inr (again r')) (fst st) (fst st) = []"
    and after: "\<And>out d. afterReads rt tn task (fst st) = (out, d) \<Longrightarrow> turn_bumps (saved_by task out (fst st) d) (fst st) d"
  shows "turn_bumps (saved_by task out (fst st) (fst st')) (fst st) (fst st')"
proof (cases "readerStep hash tn rd (bd_assets (fst st)) (snd st)")
  case (Inl e)
  with r show ?thesis by (cases task) (auto simp: readTurn_def turn_bumps_def saved_by_def)
next
  case (Inr res)
  with r again after show ?thesis
    by (cases res) (auto simp: readTurn_def turn_bumps_def split: prod.splits)
qed

lemma saved_by_other [simp]: "saved_by (Viewing b op1 r) out db db' = []" "saved_by (Picturing i a r) out db db' = []"
  by (simp_all add: saved_by_def)

lemma saved_by_again [simp]: "saved_by (Saving input r) (Inr (Saving input r')) db db = []"
  by (simp add: saved_by_def)

lemma answered_view: "answer BoardReply (finishView tn b op1 db) = (out, d) \<Longrightarrow> revisions d = revisions db"
  using finishView_revisions [of tn b op1 db] snd_answer [of BoardReply "finishView tn b op1 db"] by simp

lemma taskTurn_bumps:
  assumes "taskTurn rt hash tn task st = (out, st')"
  shows "turn_bumps (saved_by task out (fst st) (fst st')) (fst st) (fst st')"
proof (cases task)
  case (Viewing b op1 r)
  have "readTurn rt hash tn task r (Viewing b op1) st = (out, st')" using assms Viewing by (simp add: taskTurn_def)
  then show ?thesis
    by (rule readTurn_bumps) (auto simp: Viewing afterReads_def turn_bumps_def dest: answered_view)
next
  case (Saving input r)
  have "readTurn rt hash tn task r (Saving input) st = (out, st')" using assms Saving by (simp add: taskTurn_def)
  then show ?thesis
    by (rule readTurn_bumps) (simp_all add: Saving afterReads_def finishSave_bumps)
next
  case (Picturing i a r)
  have "readTurn rt hash tn task r (Picturing i a) st = (out, st')" using assms Picturing by (simp add: taskTurn_def)
  then show ?thesis
    by (rule readTurn_bumps) (auto simp: Picturing afterReads_def turn_bumps_def dest: finishThumbnail_revisions)
qed (use assms in \<open>auto simp: taskTurn_def cleanTurn_def persistTurn_def Let_def turn_bumps_def saved_by_def revisions_def
    split: prod.splits sum.splits option.splits\<close>)

section \<open>The chain of saves\<close>

text \<open>The saves of each board in a run: \<open>k\<close> of them, expecting 0, ..., k - 1.\<close>

definition chain_of :: "(ustr \<times> int) list \<Rightarrow> ustr \<Rightarrow> nat \<Rightarrow> bool" where
  "chain_of evs i k \<longleftrightarrow> map snd (filter (\<lambda>e. fst e = i) evs) = map int (rev [0..<k])"

definition chained :: "(ustr \<times> int) list \<Rightarrow> ustr list \<Rightarrow> (ustr \<times> int) list \<Rightarrow> bool" where
  "chained rs used evs \<longleftrightarrow> distinct (map fst rs) \<and> fst ` set rs \<subseteq> set used
     \<and> (\<forall>i\<in>fst ` set rs. assertBoardId (JStr i) = Inr i)
     \<and> (\<forall>i. \<exists>k. chain_of evs i k \<and> (\<forall>n. (i, n) \<in> set rs \<longrightarrow> n = int k) \<and> (i \<notin> set used \<longrightarrow> k = 0))"

lemma chainedE:
  assumes "chained rs used evs"
  obtains k where "chain_of evs i k" "\<forall>n. (i, n) \<in> set rs \<longrightarrow> n = int k" "i \<notin> set used \<longrightarrow> k = 0"
proof -
  have "\<exists>k. chain_of evs i k \<and> (\<forall>n. (i, n) \<in> set rs \<longrightarrow> n = int k) \<and> (i \<notin> set used \<longrightarrow> k = 0)"
    using assms unfolding chained_def by (elim conjE) (erule spec)
  then show thesis using that by blast
qed

lemma chained_fewer:
  assumes "chained rs used evs" "set rs' \<subseteq> set rs" "distinct (map fst rs')" "set used \<subseteq> set used'"
  shows "chained rs' used' evs"
  unfolding chained_def
proof (intro conjI allI)
  fix i
  obtain k where "chain_of evs i k" "\<forall>n. (i, n) \<in> set rs \<longrightarrow> n = int k" "i \<notin> set used \<longrightarrow> k = 0" by (rule chainedE [OF assms(1)])
  with assms(2,4) show "\<exists>k. chain_of evs i k \<and> (\<forall>n. (i, n) \<in> set rs' \<longrightarrow> n = int k) \<and> (i \<notin> set used' \<longrightarrow> k = 0)"
    by (intro exI [of _ k]) auto
qed (use assms in \<open>auto simp: chained_def\<close>)

lemma chained_grown:
  assumes c: "chained rs used evs" and i: "i \<notin> set used" and g: "grown i rs rs'"
  shows "chained rs' (i # used) evs"
proof -
  consider P where "rs' = filter P rs" | "i \<notin> fst ` set rs" "rs' = rs @ [(i, 0)]" "assertBoardId (JStr i) = Inr i" using g by (auto simp: grown_def)
  then show ?thesis
  proof cases
    case 1
    show ?thesis by (rule chained_fewer [OF c]) (use 1 c in \<open>auto simp: chained_def intro: distinct_map_filterI\<close>)
  next
    case 2
    show ?thesis
      unfolding chained_def
    proof (intro conjI allI)
      fix j
      obtain k where k: "chain_of evs j k" "\<forall>n. (j, n) \<in> set rs \<longrightarrow> n = int k" "j \<notin> set used \<longrightarrow> k = 0" by (rule chainedE [OF c])
      with i 2(2) show "\<exists>k. chain_of evs j k \<and> (\<forall>n. (j, n) \<in> set rs' \<longrightarrow> n = int k) \<and> (j \<notin> set (i # used) \<longrightarrow> k = 0)"
        by (intro exI [of _ k]) auto
    qed (use c 2 in \<open>auto simp: chained_def\<close>)
  qed
qed

lemma chained_bumped:
  assumes c: "chained rs used evs" and i: "(i, n) \<in> set rs"
  shows "chained (bumped i rs) used ((i, n) # evs)"
  unfolding chained_def
proof (intro conjI allI)
  have m: "map fst (bumped i rs) = map fst rs" by (auto simp: bumped_def)
  then show "distinct (map fst (bumped i rs))" "fst ` set (bumped i rs) \<subseteq> set used"
    "\<forall>j\<in>fst ` set (bumped i rs). assertBoardId (JStr j) = Inr j"
    using c by (simp_all add: chained_def flip: set_map)
  fix j
  obtain k where k: "chain_of evs j k" "\<forall>n. (j, n) \<in> set rs \<longrightarrow> n = int k" "j \<notin> set used \<longrightarrow> k = 0" by (rule chainedE [OF c])
  show "\<exists>k. chain_of ((i, n) # evs) j k \<and> (\<forall>n. (j, n) \<in> set (bumped i rs) \<longrightarrow> n = int k) \<and> (j \<notin> set used \<longrightarrow> k = 0)"
  proof (cases "j = i")
    case True
    have "chain_of ((i, n) # evs) j (Suc k)" using k(1,2) i True by (simp add: chain_of_def)
    moreover have "\<forall>n. (j, n) \<in> set (bumped i rs) \<longrightarrow> n = int (Suc k)" using k(2) True by (auto simp: bumped_def)
    moreover have "j \<in> set used" using c i True by (force simp: chained_def)
    ultimately show ?thesis by blast
  next
    case False
    with k show ?thesis by (intro exI [of _ k]) (auto simp: chain_of_def bumped_def)
  qed
qed

lemma board_step_chained:
  assumes "board_step rt hash Q y new z" "chained (revisions (fst (by_store y))) (by_used y) evs"
  shows "chained (revisions (fst (by_store z))) (by_used z) (new @ evs)"
  using assms(1)
proof cases
  case (Arrive tn newId rq out db)
  have "grown newId (revisions (fst (by_store y))) (revisions db)"
    using boardRoute_grown [of newId "fst (by_store y)" rt hash tn rq] Arrive by simp
  with assms(2) Arrive show ?thesis by (simp add: chained_grown)
next
  case (Turn tn task out st)
  from taskTurn_bumps [OF Turn(5)] show ?thesis
    using assms(2) chained_bumped by (auto simp: Turn(1,2) turn_bumps_def)
qed

lemma board_run_chained:
  "board_run rt hash Q y evs z \<Longrightarrow> chained (revisions (fst (by_store y))) (by_used y) [] \<Longrightarrow>
     chained (revisions (fst (by_store z))) (by_used z) evs"
  by (induction rule: board_run.induct) (auto intro: board_step_chained)

lemma start_chained: "chained (revisions (fst (by_store board_start))) (by_used board_start) []"
  by (auto simp: chained_def revisions_def board_start_def chain_of_def intro!: exI [of _ "0 :: nat"])

section \<open>What holds in every run\<close>

lemma run_ok: "board_run rt hash Q board_start evs y \<Longrightarrow> json_laws rt \<Longrightarrow> (\<And>tn. Q tn \<Longrightarrow> calm tn) \<Longrightarrow> boards_ok rt hash y"
  by (rule board_run_ok [OF _ board_start_ok])

lemma run_chained: "board_run rt hash Q board_start evs y \<Longrightarrow> chained (revisions (fst (by_store y))) (by_used y) evs"
  by (rule board_run_chained [OF _ start_chained])

lemma chained_known: "chained rs used evs \<Longrightarrow> i \<in> fst ` set rs \<Longrightarrow> assertBoardId (JStr i) = Inr i"
  unfolding chained_def by blast

lemma lookup_elsewhere:
  "(\<And>r. key (g r) = key r) \<Longrightarrow> j \<noteq> i \<Longrightarrow> lookup_by key j (map (\<lambda>r. if key r = i then g r else r) xs) = lookup_by key j xs"
  by (induction xs) auto

lemma run_ids:
  assumes "board_run rt hash Q board_start evs y" "board_db_ok rt (fst (by_store y))" "i \<in> bo_id ` set (bd_boards (fst (by_store y)))"
  shows "assertBoardId (JStr i) = Inr i"
proof (rule chained_known [OF run_chained [OF assms(1)]])
  have "fst ` set (revisions (fst (by_store y))) = sr_boardId ` set (bd_scenes (fst (by_store y)))"
    by (simp add: revisions_def image_image)
  then show "i \<in> fst ` set (revisions (fst (by_store y)))" using assms(2,3) by (simp add: board_db_ok_def)
qed

text \<open>Property C15. The committed saves of a board, those answered with success and those whose commit took
  place although it was reported as failed, expected the revisions 0, 1, 2, ... in this order, each once, however
  requests and their waits interleave and whatever fails, and the stored revision is their number: no save
  replaces one that its client has not seen.\<close>

theorem saves_form_a_chain:
  assumes "board_run rt hash Q board_start evs y"
  shows "\<exists>k. map snd (filter (\<lambda>e. fst e = i) evs) = map int (rev [0..<k])
    \<and> (\<forall>r\<in>set (bd_scenes (fst (by_store y))). sr_boardId r = i \<longrightarrow> sr_revision r = int k)"
proof -
  obtain k where "chain_of evs i k" "\<forall>n. (i, n) \<in> set (revisions (fst (by_store y))) \<longrightarrow> n = int k"
    by (rule chainedE [OF run_chained [OF assms]])
  then show ?thesis by (intro exI [of _ k]) (auto simp: chain_of_def revisions_def)
qed

text \<open>Property C17. In every reachable state each board can be opened, and the scene that is read names exactly
  the assets that the board references.\<close>

theorem boards_always_open:
  assumes "board_run rt hash Q board_start evs y" "json_laws rt" "\<And>tn. Q tn \<Longrightarrow> calm tn"
    and "b \<in> set (bd_boards (fst (by_store y)))" "\<not> at_readFails tn"
  shows "\<exists>ag. getBoard rt tn (bo_id b) (fst (by_store y)) = Inr (Some ag) \<and> mt_id (ag_metadata ag) = bo_id b
    \<and> rc_boardId (ag_sceneRecord ag) = bo_id b
    \<and> sn_assetRefs (rc_scene (ag_sceneRecord ag)) = listReferenceIds (sceneOwner (bo_id b)) (bd_assets (fst (by_store y)))"
proof -
  have ok: "board_db_ok rt (fst (by_store y))" using run_ok [OF assms(1-3)] by (simp add: boards_ok_def)
  have i: "bo_id b \<in> bo_id ` set (bd_boards (fst (by_store y)))" using assms(4) by simp
  show ?thesis by (rule board_readable [OF ok i run_ids [OF assms(1) ok i] assms(5)]) blast
qed

text \<open>Property C16. In every reachable state an asset that is referenced has metadata and its file, with the
  recorded length and hash: reading it succeeds unless the database or the file system fails. Files are
  written and removed over several turns of the event loop, and the turns of all requests interleave.\<close>

theorem referenced_assets_are_stored:
  assumes "board_run rt hash Q board_start evs y" "json_laws rt" "\<And>tn. Q tn \<Longrightarrow> calm tn"
    and "r \<in> set (ad_refs (bd_assets (fst (by_store y))))" "\<not> at_readFails tn" "at_io tn = None"
  shows "\<exists>m data. readBegin tn (rf_asset r) (bd_assets (fst (by_store y))) = Inr m
    \<and> readFinish hash tn m (snd (by_store y)) = Inr data"
proof -
  let ?db = "bd_assets (fst (by_store y))"
  have ok: "board_db_ok rt (fst (by_store y))" and f: "\<forall>m\<in>set (ad_assets ?db). backed hash (snd (by_store y)) m"
    using run_ok [OF assms(1-3)] by (auto simp: boards_ok_def files_ok_def)
  have a: "asset_db_ok ?db" using ok by (simp add: board_db_ok_def)
  then have "rf_asset r \<in> am_id ` set (ad_assets ?db)" using assms(4) by (simp add: asset_db_ok_def)
  then obtain m where m: "m \<in> set (ad_assets ?db)" "am_id m = rf_asset r" by auto
  have p: "am_storageKey m = am_id m" "uuidPattern (am_id m)" using a m(1) by (simp_all add: asset_db_ok_def)
  have find: "findAsset (am_id m) ?db = Some m" using findAsset_iff [OF a] m(1) by simp
  have "readBegin tn (rf_asset r) ?db = Inr m"
    using assms(5) find p by (simp add: readBegin_def assertAssetId_def isAssetId_def assertStorageKey_def flip: m(2))
  moreover obtain g where "snd (by_store y) (am_id m) = Some g" "int (length (fl_data g)) = am_byteSize m" "hash (fl_data g) = am_sha256 m"
    using f m(1) by (auto simp: backed_def)
  then have "readFinish hash tn m (snd (by_store y)) = Inr (fl_data g)" using assms(6) by (simp add: readFinish_def)
  ultimately show ?thesis by blast
qed

text \<open>Property C18. After a save in a reachable state, the next reader gets the new revision and the scene that was
  saved: its state, its engine data as JSON keeps it, its asset references in order.\<close>

theorem saved_scene_is_read_back:
  assumes "board_run rt hash Q board_start evs y" "json_laws rt" "\<And>tn. Q tn \<Longrightarrow> calm tn"
    and "parsed_json rt (sn_engineData (sv_scene input))" "parsed_json rt (sn_appState (sv_scene input))"
    and "saveBoardScene rt tn input at (fst (by_store y)) = (Inr x, db')" "\<not> at_readFails tn2"
  shows "\<exists>ag. getBoard rt tn2 (sv_boardId input) db' = Inr (Some ag)
    \<and> ag_sceneRecord ag = \<lparr>rc_boardId = sv_boardId input, rc_engine = BOARD_ENGINE_EXCALIDRAW, rc_sceneVersion = 1,
        rc_revision = sx_revision x,
        rc_scene = \<lparr>sn_engineData = stored_json (sn_engineData (sv_scene input)), sn_appState = sn_appState (sv_scene input),
                    sn_assetRefs = order_by text_le (sn_assetRefs (sv_scene input))\<rparr>\<rparr>
    \<and> mt_updatedAt (ag_metadata ag) = at \<and> sx_revision x = sv_expectedRevision input + 1"
proof -
  have ok: "board_db_ok rt (fst (by_store y))" using run_ok [OF assms(1-3)] by (simp add: boards_ok_def)
  from saved_board [OF ok assms(2,4-7)] show ?thesis by auto
qed

text \<open>Property C19. A save changes nothing of any other board: whoever reads another board afterwards gets
  what they would have got before.\<close>

theorem saves_touch_one_board:
  assumes "saveBoardScene rt tn input at db = (Inr x, db')" "j \<noteq> sv_boardId input"
  shows "getBoard rt tn2 j db' = getBoard rt tn2 j db"
proof -
  let ?i = "sv_boardId input"
  from saved_tables [OF assms(1) refl] obtain ids g where rep: "replaceReferences (sceneOwner ?i) ids at (bd_assets db) = Inr (bd_assets db')"
    and d: "bd_boards db' = map (\<lambda>b. if bo_id b = ?i then b\<lparr>bo_updatedAt := at\<rparr> else b) (bd_boards db)"
      "bd_scenes db' = map (\<lambda>r. if sr_boardId r = ?i then g r else r) (bd_scenes db)"
    and g: "\<forall>r. sr_boardId (g r) = sr_boardId r \<and> sr_revision (g r) = sr_revision r + 1" by blast
  have rows: "lookup_by bo_id j (bd_boards db') = lookup_by bo_id j (bd_boards db)"
    "lookup_by sr_boardId j (bd_scenes db') = lookup_by sr_boardId j (bd_scenes db)"
    unfolding d using assms(2) g by (simp_all add: lookup_elsewhere)
  have refs: "listReferenceIds (sceneOwner j) (bd_assets db') = listReferenceIds (sceneOwner j) (bd_assets db)"
    by (rule replace_other_refs [OF rep]) (simp add: assms(2))
  have "filter (\<lambda>r. rf_owner r = thumbnailOwner j) (ad_refs (bd_assets db')) = filter (\<lambda>r. rf_owner r = thumbnailOwner j) (ad_refs (bd_assets db))"
    by (rule filter_owner_drop [OF replaceReferences_Inr(5) [OF rep]]) simp
  then have "thumbnailOf (bd_assets db') j = thumbnailOf (bd_assets db) j" by (simp add: thumbnailOf_def)
  then have "bo_id b = j \<Longrightarrow> metadataFromRow db' b = metadataFromRow db b" for b by (simp add: metadataFromRow_def)
  then have "map_option (metadataFromRow db') (lookup_by bo_id j (bd_boards db)) = map_option (metadataFromRow db) (lookup_by bo_id j (bd_boards db))"
    using lookup_by_key [of bo_id j "bd_boards db"] by (cases "lookup_by bo_id j (bd_boards db)") simp_all
  then have "boardRead tn2 (Inr (map_option (metadataFromRow db') (lookup_by bo_id j (bd_boards db'))))
      = boardRead tn2 (Inr (map_option (metadataFromRow db) (lookup_by bo_id j (bd_boards db))))"
    by (simp only: rows)
  moreover have "getSceneRecord rt tn2 j db' = getSceneRecord rt tn2 j db" by (simp only: getSceneRecord_def rows refs)
  moreover have "assertBoardId (JStr j) = Inr i \<Longrightarrow> i = j" for i by (simp add: assertBoardId_Inr)
  ultimately show ?thesis
    by (cases "assertBoardId (JStr j)") (simp_all add: getBoard_def getBoardMetadata_def)
qed

text \<open>Property C40. When a commit is reported as failed although it happened and the read that should tell fails too,
  storing an asset removes the file of the committed metadata: the comment in \<open>persistAsset\<close> ("With no reliable
  DB answer, fail closed and retain the binary.") says otherwise. This is why the other properties speak
  of calm turns.\<close>

theorem lost_commit_removes_binary:
  assumes "at_io tn = None" "at_commitLost tn" "at_readFails tn" "\<not> at_writeFails tn" "at_io tn2 = None"
    and "insertAsset m db = Inr db'" "hash data = am_sha256 m"
  shows "\<exists>fs1 fs2. persistStep hash tn (CreateWrite m data inode) db fs = (Inr (Inr (UndoCreate m inode)), db', fs1)
    \<and> persistStep hash tn2 (UndoCreate m inode) db' fs1 = (Inl (AssetError ASSET_METADATA_PERSIST_FAILED 500), db', fs2)
    \<and> findAsset (am_id m) db' = Some m \<and> fs2 (am_id m) = None"
proof -
  have d: "am_id m \<notin> am_id ` set (ad_assets db)" "db' = db\<lparr>ad_assets := ad_assets db @ [m]\<rparr>"
    using assms(6) by (auto simp: insertAsset_def split: if_splits)
  then have "lookup_by am_id (am_id m) (ad_assets db) = None" by (simp add: lookup_by_None_iff)
  then have "findAsset (am_id m) db' = Some m" by (simp add: findAsset_def d(2))
  then show ?thesis
    using assms by (simp add: persistStep_def createWrite_def insertCreated_def undoCreate_def removeCreatedFile_def)
qed

section \<open>A run\<close>

text \<open>An image is stored, a board is created, a scene that shows the image is saved.\<close>

definition image_id :: ustr where "image_id = js ''00000000-0000-1000-8000-000000000000''"

definition image_engine :: jval where
  "image_engine = JObj [(js ''elements'', JArr [JObj [(js ''type'', JStr (js ''image'')), (js ''fileId'', JStr (js ''f''))]]),
     (js ''fileMap'', JObj [(js ''f'', JStr image_id)])]"

definition image_scene :: jval where
  "image_scene = JObj [(js ''engineData'', image_engine), (js ''persistentAppState'', JObj []), (js ''assetRefs'', JArr [JStr image_id])]"

definition save_body :: jval where
  "save_body = JObj [(js ''expectedRevision'', JInt 0), (js ''engine'', JStr BOARD_ENGINE_EXCALIDRAW), (js ''sceneVersion'', JInt 1),
     (js ''scene'', image_scene)]"

definition json_table :: "(ustr \<times> jval) list" where
  "json_table = [([0], CANONICAL_EMPTY_ENGINE_DATA), ([1], JObj []), ([2], JArr []), ([3], image_engine), ([4], image_scene),
     ([5], save_body), ([6], JInt 0), ([7], JInt 1), ([8], JStr BOARD_ENGINE_EXCALIDRAW), ([9], JArr [JStr image_id]),
     ([10], JArr [JObj [(js ''type'', JStr (js ''image'')), (js ''fileId'', JStr (js ''f''))]]), ([11], JObj [(js ''f'', JStr image_id)]),
     ([12], JStr image_id)]"

definition board_runtime :: runtime where
  "board_runtime = demo_runtime\<lparr>rt_json_parse := map_of json_table,
     rt_json_text := \<lambda>v. case map_of (map (\<lambda>p. (snd p, fst p)) json_table) v of Some t \<Rightarrow> t | None \<Rightarrow> []\<rparr>"

definition calm_turn :: asset_turn where
  "calm_turn = \<lparr>at_now = 5, at_readFails = False, at_writeFails = False, at_commitLost = False, at_io = None, at_inode = 1, at_left = None\<rparr>"

definition image_meta :: asset_meta where
  "image_meta = \<lparr>am_id = image_id, am_mimeType = js ''image/png'', am_byteSize = 2, am_sha256 = [7, 8], am_storageKey = image_id, am_createdAt = 5\<rparr>"

definition image_input :: save_input where
  "image_input = \<lparr>sv_boardId = js ''b1'', sv_expectedRevision = 0, sv_engine = BOARD_ENGINE_EXCALIDRAW, sv_sceneVersion = 1,
     sv_scene = \<lparr>sn_engineData = image_engine, sn_appState = JObj [], sn_assetRefs = [image_id]\<rparr>\<rparr>"

definition stored_db :: board_db where
  "stored_db = \<lparr>bd_assets = \<lparr>ad_assets = [image_meta], ad_refs = []\<rparr>, bd_boards = [], bd_scenes = [], bd_folders = []\<rparr>"

definition image_board :: board_row where
  "image_board = \<lparr>bo_id = js ''b1'', bo_title = DEFAULT_BOARD_TITLE, bo_createdAt = 5, bo_updatedAt = 5, bo_lastOpenedAt = None, bo_folderId = None\<rparr>"

definition image_row :: "int \<Rightarrow> ustr \<Rightarrow> scene_row" where
  "image_row n t = \<lparr>sr_boardId = js ''b1'', sr_engine = BOARD_ENGINE_EXCALIDRAW, sr_sceneVersion = 1, sr_revision = n,
     sr_engineDataJson = t, sr_appStateJson = [1]\<rparr>"

definition created_db :: board_db where
  "created_db = stored_db\<lparr>bd_boards := [image_board], bd_scenes := [image_row 0 [0]]\<rparr>"

definition saved_db :: "int \<Rightarrow> board_db" where
  "saved_db n = \<lparr>bd_assets = \<lparr>ad_assets = [image_meta], ad_refs = [\<lparr>rf_asset = image_id, rf_owner = sceneOwner (js ''b1''), rf_createdAt = 5\<rparr>]\<rparr>,
     bd_boards = [image_board], bd_scenes = [image_row n [3]], bd_folders = []\<rparr>"

definition image_files :: files where
  "image_files = [image_id \<mapsto> \<lparr>fl_inode = 1, fl_data = [7, 8]\<rparr>]"

lemma image_id_pattern: "uuidPattern image_id"
  by code_simp

lemma image_id_item [simp]: "isAssetId (JStr image_id)" "image_id \<noteq> []"
  using image_id_pattern by (auto simp: isAssetId_def uuidPattern_def)

lemma b1_id [simp]: "assertBoardId (JStr (js ''b1'')) = Inr (js ''b1'')" "js_trim (js ''f'') = js ''f''"
  by (simp_all add: assertBoardId_def js_def js_trim_def js_space_def)

lemma table_texts [simp]:
  "rt_json_text board_runtime CANONICAL_EMPTY_ENGINE_DATA = [0]" "rt_json_text board_runtime (JObj []) = [1]"
  "rt_json_text board_runtime image_engine = [3]"
  by (simp_all add: board_runtime_def json_table_def CANONICAL_EMPTY_ENGINE_DATA_def image_engine_def)

lemma table_parses [simp]:
  "rt_json_parse board_runtime [0] = Some CANONICAL_EMPTY_ENGINE_DATA" "rt_json_parse board_runtime [Suc 0] = Some (JObj [])"
  "rt_json_parse board_runtime [3] = Some image_engine"
  by (simp_all add: board_runtime_def json_table_def)

lemma table_values: "parsed_json board_runtime v \<longleftrightarrow> v \<in> set (map snd json_table)"
proof -
  have d: "distinct (map fst json_table)" by (simp add: json_table_def)
  have "rt_json_parse board_runtime = map_of json_table" by (simp add: board_runtime_def)
  then have "parsed_json board_runtime v \<longleftrightarrow> (\<exists>t. (t, v) \<in> set json_table)"
    by (simp only: parsed_json_def map_of_eq_Some_iff [OF d])
  also have "\<dots> \<longleftrightarrow> v \<in> set (map snd json_table)" unfolding set_map by (rule iffI) (erule exE, erule image_eqI [rotated], simp, auto)
  finally show ?thesis .
qed

lemmas json_samples = json_table_def CANONICAL_EMPTY_ENGINE_DATA_def image_engine_def image_scene_def save_body_def BOARD_ENGINE_EXCALIDRAW_def

lemma table_stored: "v \<in> set (map snd json_table) \<Longrightarrow> rt_json_parse board_runtime (rt_json_text board_runtime v) = Some (stored_json v)"
  by (auto simp: board_runtime_def json_samples)

lemma board_runtime_laws: "json_laws board_runtime"
  unfolding json_laws_def table_values
proof (intro conjI allI impI)
  fix ps assume "JObj ps \<in> set (map snd json_table)"
  then show "distinct (map fst ps)" "\<forall>p\<in>set ps. snd p \<in> set (map snd json_table)"
    by (auto simp: json_samples)
qed (rule table_stored, assumption, simp_all add: json_samples)

lemma image_scene_normal: "normalizeSceneParts image_engine (JObj []) (JArr [JStr image_id]) =
    Inr \<lparr>sn_engineData = image_engine, sn_appState = JObj [], sn_assetRefs = [image_id]\<rparr>"
  by (simp add: normalizeSceneParts_def validateEngineData_def image_engine_def normalizeAssetReferences_def validatePersistentAppState_def)

lemma canonical_normal: "normalizeSceneParts CANONICAL_EMPTY_ENGINE_DATA (JObj []) (refs_json []) =
    Inr \<lparr>sn_engineData = CANONICAL_EMPTY_ENGINE_DATA, sn_appState = JObj [], sn_assetRefs = []\<rparr>"
  by (rule canonical_scene_valid)
lemma calm_turn_simps [simp]:
  "at_now calm_turn = 5" "\<not> at_readFails calm_turn" "\<not> at_writeFails calm_turn" "\<not> at_commitLost calm_turn" "at_io calm_turn = None"
  "at_inode calm_turn = 1" "isSafeTimestamp 5" "calm calm_turn" "nextTimestamp calm_turn = Inr 5"
  by (simp_all add: calm_turn_def isSafeTimestamp_def is_safe_def MAX_SAFE_def calm_def nextTimestamp_def)

lemma image_meta_simps [simp]:
  "am_id image_meta = image_id" "am_storageKey image_meta = image_id" "am_sha256 image_meta = [7, 8]" "am_byteSize image_meta = 2"
  by (simp_all add: image_meta_def)

lemma image_asset [simp]: "assertAssetId (JStr image_id) = Inr image_id" "assertStorageKey image_meta = Inr ()"
  by (simp_all add: assertAssetId_def assertStorageKey_def)

definition new_files :: files where
  "new_files = [image_id \<mapsto> \<lparr>fl_inode = 1, fl_data = []\<rparr>]"

lemma step1: "boardRoute board_runtime id calm_turn (js ''r1'') (PersistAsset (JStr image_id) (JStr (js ''image/png'')) [7, 8] None)
    (fst (by_store board_start)) = (Inr (Persisting (CreateOpen image_meta [7, 8])), fst (by_store board_start))"
  by (simp add: boardRoute_def persistAsset_def assertBoardAssetMimeType_def isBoardAssetMimeType_def BOARD_ASSET_MIME_TYPES_def
      findAsset_def board_start_def proceed_def image_meta_def)

lemma step2: "taskTurn board_runtime id calm_turn (Persisting (CreateOpen image_meta [7, 8])) (by_store board_start)
    = (Inr (Persisting (CreateWrite image_meta [7, 8] 1)), fst (by_store board_start), new_files)"
  by (simp add: taskTurn_def persistTurn_def persistStep_def createOpen_def board_start_def new_files_def)

lemma step3: "taskTurn board_runtime id calm_turn (Persisting (CreateWrite image_meta [7, 8] 1)) (fst (by_store board_start), new_files)
    = (Inl (AssetReply image_meta), stored_db, image_files)"
  by (simp add: taskTurn_def persistTurn_def persistStep_def createWrite_def insertCreated_def insertAsset_def board_start_def
      new_files_def image_files_def stored_db_def)

lemma image_row_simps [simp]:
  "sr_boardId (image_row n t) = js ''b1''" "sr_revision (image_row n t) = n" "sr_engine (image_row n t) = BOARD_ENGINE_EXCALIDRAW"
  "sr_sceneVersion (image_row n t) = 1" "sr_engineDataJson (image_row n t) = t" "sr_appStateJson (image_row n t) = [Suc 0]"
  "bo_id image_board = js ''b1''"
  by (simp_all add: image_row_def image_board_def)

lemma values_defined [simp]: "CANONICAL_EMPTY_ENGINE_DATA \<noteq> JUndef" "image_engine \<noteq> JUndef"
  by (simp_all add: CANONICAL_EMPTY_ENGINE_DATA_def image_engine_def)

lemma created_references: "listReferenceIds (sceneOwner i) (bd_assets created_db) = []" "ad_refs (bd_assets created_db) = []"
  by (simp_all add: listReferenceIds_def created_db_def stored_db_def order_by_def)

lemma step4: "\<exists>ag. boardRoute board_runtime id calm_turn (js ''b1'') (CreateBoard (JObj [])) stored_db = (Inl (BoardReply ag), created_db)"
proof -
  have c: "createBoard board_runtime calm_turn (js ''b1'') DEFAULT_BOARD_TITLE 5 None stored_db = (Inr (), created_db)"
    by (simp add: createBoard_def boardTransaction_def serializeBoardScenePart_def createCanonicalEmptyBoardScene_def
        stored_db_def created_db_def image_board_def image_row_def CURRENT_BOARD_SCENE_VERSION_def)
  have "board_db_ok board_runtime stored_db"
    using image_id_pattern by (simp add: board_db_ok_def stored_db_def asset_db_ok_def)
  from createBoard_ok [OF this board_runtime_laws, of calm_turn "js ''b1''" DEFAULT_BOARD_TITLE 5 None] c
  have ok: "board_db_ok board_runtime created_db" by simp
  obtain ag where "getBoard board_runtime calm_turn (js ''b1'') created_db = Inr (Some ag)"
    by (rule board_readable [OF ok, of "js ''b1''" calm_turn]) (simp_all add: created_db_def)
  with c show ?thesis
    by (simp add: boardRoute_def boardObject_def ownOr_def serviceCreateBoard_def normalizeNullableBoardFolderId_def
        andThen_def present_def answer_def)
qed

lemma step5: "boardRoute board_runtime id calm_turn (js ''r2'') (SaveScene (js ''b1'') save_body) created_db
    = (Inr (Saving image_input \<lparr>rd_current = None, rd_ids = [image_id]\<rparr>), created_db)"
proof -
  have "normalizeBoardScene image_scene = Inr \<lparr>sn_engineData = image_engine, sn_appState = JObj [], sn_assetRefs = [image_id]\<rparr>"
    by (simp add: normalizeBoardScene_def image_scene_def image_scene_normal)
  then have "serviceSaveScene (js ''b1'') (JInt 0) (JStr BOARD_ENGINE_EXCALIDRAW) (JInt 1) image_scene
      = Inr (Saving image_input \<lparr>rd_current = None, rd_ids = [image_id]\<rparr>)"
    by (simp add: serviceSaveScene_def assertExpectedRevision_def assertSupportedBoardSceneContract_def CURRENT_BOARD_SCENE_VERSION_def
        referencesReader_def normalizeAssetIds_def refs_json_def image_input_def)
  then have "saveSceneRoute (js ''b1'') save_body = Inr (Saving image_input \<lparr>rd_current = None, rd_ids = [image_id]\<rparr>)"
    by (simp add: saveSceneRoute_def boardObject_def save_body_def)
  then show ?thesis by (simp add: boardRoute_def proceed_def)
qed

lemma step6: "taskTurn board_runtime id calm_turn (Saving image_input \<lparr>rd_current = None, rd_ids = [image_id]\<rparr>) (created_db, image_files)
    = (Inr (Saving image_input \<lparr>rd_current = Some image_meta, rd_ids = []\<rparr>), created_db, image_files)"
  by (simp add: taskTurn_def readTurn_def readerStep_def readBegin_def findAsset_def created_db_def stored_db_def)

lemma step7: "taskTurn board_runtime id calm_turn (Saving image_input \<lparr>rd_current = Some image_meta, rd_ids = []\<rparr>) (created_db, image_files)
    = (Inr (Saving image_input \<lparr>rd_current = None, rd_ids = []\<rparr>), created_db, image_files)"
  by (simp add: taskTurn_def readTurn_def readerStep_def readFinish_def image_files_def)

lemma owner_simps [simp]: "owner_check (sceneOwner (js ''b1''))"
  by (simp add: owner_check_def sceneOwner_def sql_length_def sql_trim_def js_def)

lemma image_saved: "saveBoardScene board_runtime calm_turn image_input 5 created_db = (Inr \<lparr>sx_revision = 1, sx_updatedAt = 5, sx_removedAssetIds = []\<rparr>, saved_db 1)"
proof -
  have "insertReferences (sceneOwner (js ''b1'')) 5 [image_id] (bd_assets stored_db)
      = Inr (bd_assets (saved_db 1))"
    by (simp add: insertReference_def stored_db_def saved_db_def)
  then have r: "replaceReferences (sceneOwner (js ''b1'')) [image_id] 5 (bd_assets created_db) = Inr (bd_assets (saved_db 1))"
    by (simp add: replaceReferences_def dropReferences_def created_db_def stored_db_def)
  have "saveTransaction (js ''b1'') 0 BOARD_ENGINE_EXCALIDRAW 1 [3] [1] [image_id] 5 created_db
      = Inr (\<lparr>sx_revision = 1, sx_updatedAt = 5, sx_removedAssetIds = []\<rparr>, saved_db 1)"
    unfolding saveTransaction_Inr
    by (rule exI [of _ "image_row 0 [0]"], rule exI [of _ "bd_assets (saved_db 1)"])
      (simp add: r created_references, simp add: created_db_def stored_db_def saved_db_def image_board_def image_row_def)
  then show ?thesis
    by (simp add: saveBoardScene_def image_input_def assert_Inr assertExpectedRevision_def assertSupportedBoardSceneContract_def
        CURRENT_BOARD_SCENE_VERSION_def refs_json_def image_scene_normal serializeBoardScenePart_def boardTransaction_def
        referenceConflict_def MAX_SAFE_def)
qed

lemma step8: "taskTurn board_runtime id calm_turn (Saving image_input \<lparr>rd_current = None, rd_ids = []\<rparr>) (created_db, image_files)
    = (Inr (Cleaning (SavedReply 1 5) (cleanerFor [])), saved_db 1, image_files)"
  by (simp add: taskTurn_def readTurn_def readerStep_def afterReads_def finishSave_def image_saved)

lemma runs_arrive:
  assumes "board_run rt hash Q x evs \<lparr>by_store = (db, fs), by_tasks = ts, by_used = us\<rparr>" "Q tn" "i \<notin> set us" "request_parsed rt rq"
    and "boardRoute rt hash tn i rq db = (out, db')"
  shows "board_run rt hash Q x evs \<lparr>by_store = (db', fs), by_tasks = task_next out ts, by_used = i # us\<rparr>"
  using board_run.Move [OF assms(1) board_step.Arrive [where tn = tn and newId = i and rq = rq and out = out and db = db']] assms by simp

lemma runs_turn:
  assumes "board_run rt hash Q x evs \<lparr>by_store = st, by_tasks = t # ts, by_used = us\<rparr>" "Q tn" "taskTurn rt hash tn t st = (out, st')"
  shows "board_run rt hash Q x (saved_by t out (fst st) (fst st') @ evs) \<lparr>by_store = st', by_tasks = task_next out ts, by_used = us\<rparr>"
  using board_run.Move [OF assms(1) board_step.Turn [where tn = tn and task = t and out = out and st = st']] assms by simp

lemma image_run: "\<exists>y. board_run board_runtime id calm board_start [(js ''b1'', 0)] y \<and> by_store y = (saved_db 1, image_files)"
proof -
  have p: "request_parsed board_runtime (SaveScene (js ''b1'') save_body)"
    by (simp add: request_parsed_def table_values json_table_def)
  have q: "request_parsed board_runtime (PersistAsset a b c d)" "request_parsed board_runtime (CreateBoard v)" for a b c d v
    by (simp_all add: request_parsed_def)
  have s: "by_store board_start = (fst (by_store board_start), \<lambda>_. None)" by (simp add: board_start_def)
  note n = task_next_def saved_by_def
  have "board_run board_runtime id calm board_start [] \<lparr>by_store = by_store board_start, by_tasks = [], by_used = []\<rparr>"
    using board_run.Still [of board_runtime id calm board_start] by (simp add: board_start_def)
  then have "board_run board_runtime id calm board_start [] \<lparr>by_store = (fst (by_store board_start), \<lambda>_. None), by_tasks = [], by_used = []\<rparr>"
    using s by simp
  from runs_arrive [OF this calm_turn_simps(8) _ q(1) step1] have
    "board_run board_runtime id calm board_start [] \<lparr>by_store = by_store board_start,
       by_tasks = [Persisting (CreateOpen image_meta [7, 8])], by_used = [js ''r1'']\<rparr>" by (simp add: n flip: s)
  from runs_turn [OF this calm_turn_simps(8) step2] have
    "board_run board_runtime id calm board_start [] \<lparr>by_store = (fst (by_store board_start), new_files),
       by_tasks = [Persisting (CreateWrite image_meta [7, 8] 1)], by_used = [js ''r1'']\<rparr>" by (simp add: n)
  from runs_turn [OF this calm_turn_simps(8) step3] have s3:
    "board_run board_runtime id calm board_start [] \<lparr>by_store = (stored_db, image_files), by_tasks = [], by_used = [js ''r1'']\<rparr>" by (simp add: n)
  obtain ag where s4: "boardRoute board_runtime id calm_turn (js ''b1'') (CreateBoard (JObj [])) stored_db = (Inl (BoardReply ag), created_db)"
    using step4 by blast
  from runs_arrive [where Q = calm, OF s3 calm_turn_simps(8) _ q(2) s4] have
    "board_run board_runtime id calm board_start [] \<lparr>by_store = (created_db, image_files), by_tasks = [], by_used = [js ''b1'', js ''r1'']\<rparr>"
    by (simp add: n)
  from runs_arrive [OF this calm_turn_simps(8) _ p step5] have
    "board_run board_runtime id calm board_start [] \<lparr>by_store = (created_db, image_files),
       by_tasks = [Saving image_input \<lparr>rd_current = None, rd_ids = [image_id]\<rparr>], by_used = [js ''r2'', js ''b1'', js ''r1'']\<rparr>" by (simp add: n)
  from runs_turn [OF this calm_turn_simps(8) step6] have
    "board_run board_runtime id calm board_start [] \<lparr>by_store = (created_db, image_files),
       by_tasks = [Saving image_input \<lparr>rd_current = Some image_meta, rd_ids = []\<rparr>], by_used = [js ''r2'', js ''b1'', js ''r1'']\<rparr>" by (simp add: n)
  from runs_turn [OF this calm_turn_simps(8) step7] have
    "board_run board_runtime id calm board_start [] \<lparr>by_store = (created_db, image_files),
       by_tasks = [Saving image_input \<lparr>rd_current = None, rd_ids = []\<rparr>], by_used = [js ''r2'', js ''b1'', js ''r1'']\<rparr>" by (simp add: n)
  from runs_turn [OF this calm_turn_simps(8) step8] have
    "board_run board_runtime id calm board_start [(js ''b1'', 0)] \<lparr>by_store = (saved_db 1, image_files),
       by_tasks = [Cleaning (SavedReply 1 5) (cleanerFor [])], by_used = [js ''r2'', js ''b1'', js ''r1'']\<rparr>"
    by (simp add: n image_input_def)
  then show ?thesis by - (rule exI, rule conjI, assumption, simp)
qed

theorem saves_form_a_chain_witness:
  "\<exists>y k. board_run board_runtime id calm board_start [(js ''b1'', 0)] y
    \<and> map snd (filter (\<lambda>e. fst e = js ''b1'') [(js ''b1'', 0 :: int)]) = map int (rev [0..<k])
    \<and> (\<forall>r\<in>set (bd_scenes (fst (by_store y))). sr_boardId r = js ''b1'' \<longrightarrow> sr_revision r = int k) \<and> bd_scenes (fst (by_store y)) \<noteq> []"
proof -
  obtain y where y: "board_run board_runtime id calm board_start [(js ''b1'', 0)] y" "by_store y = (saved_db 1, image_files)"
    using image_run by blast
  from saves_form_a_chain [OF y(1), of "js ''b1''"] obtain k where
    "map snd (filter (\<lambda>e. fst e = js ''b1'') [(js ''b1'', 0 :: int)]) = map int (rev [0..<k])"
    "\<forall>r\<in>set (bd_scenes (fst (by_store y))). sr_boardId r = js ''b1'' \<longrightarrow> sr_revision r = int k" by blast
  moreover have "bd_scenes (fst (by_store y)) \<noteq> []" by (simp add: y(2) saved_db_def)
  ultimately show ?thesis using y(1) by (intro exI [of _ y] exI [of _ k] conjI)
qed

theorem boards_always_open_witness:
  "\<exists>y ag. board_run board_runtime id calm board_start [(js ''b1'', 0)] y
    \<and> getBoard board_runtime calm_turn (js ''b1'') (fst (by_store y)) = Inr (Some ag) \<and> sn_assetRefs (rc_scene (ag_sceneRecord ag)) = [image_id]"
proof -
  obtain y where y: "board_run board_runtime id calm board_start [(js ''b1'', 0)] y" "by_store y = (saved_db 1, image_files)"
    using image_run by blast
  have b: "image_board \<in> set (bd_boards (fst (by_store y)))" by (simp add: y(2) saved_db_def)
  have "listReferenceIds (sceneOwner (js ''b1'')) (bd_assets (fst (by_store y))) = [image_id]"
    by (simp add: y(2) saved_db_def listReferenceIds_def order_by_def)
  then show ?thesis
    using boards_always_open [OF y(1) board_runtime_laws _ b calm_turn_simps(2)] y(1) by auto
qed

theorem referenced_assets_are_stored_witness:
  "\<exists>y m data. board_run board_runtime id calm board_start [(js ''b1'', 0)] y
    \<and> readBegin calm_turn image_id (bd_assets (fst (by_store y))) = Inr m \<and> readFinish id calm_turn m (snd (by_store y)) = Inr data"
proof -
  obtain y where y: "board_run board_runtime id calm board_start [(js ''b1'', 0)] y" "by_store y = (saved_db 1, image_files)"
    using image_run by blast
  have "\<lparr>rf_asset = image_id, rf_owner = sceneOwner (js ''b1''), rf_createdAt = 5\<rparr> \<in> set (ad_refs (bd_assets (fst (by_store y))))"
    by (simp add: y(2) saved_db_def)
  from referenced_assets_are_stored [OF y(1) board_runtime_laws _ this calm_turn_simps(2,5)] y(1) show ?thesis by auto
qed

lemma second_save: "\<exists>x d. saveBoardScene board_runtime calm_turn (image_input\<lparr>sv_expectedRevision := 1\<rparr>) 5 (saved_db 1) = (Inr x, d)"
proof -
  have "insertReferences (sceneOwner (js ''b1'')) 5 [image_id] (bd_assets stored_db) = Inr (bd_assets (saved_db 1))"
    by (simp add: insertReference_def stored_db_def saved_db_def)
  then have r: "replaceReferences (sceneOwner (js ''b1'')) [image_id] 5 (bd_assets (saved_db 1)) = Inr (bd_assets (saved_db 1))"
    by (simp add: replaceReferences_def dropReferences_def saved_db_def stored_db_def)
  have "\<exists>x d. saveTransaction (js ''b1'') 1 BOARD_ENGINE_EXCALIDRAW 1 [3] [1] [image_id] 5 (saved_db 1) = Inr (x, d)"
    unfolding saveTransaction_Inr using r by (simp add: saved_db_def)
  then show ?thesis
    by (auto simp: saveBoardScene_def image_input_def assert_Inr assertExpectedRevision_def assertSupportedBoardSceneContract_def
        CURRENT_BOARD_SCENE_VERSION_def refs_json_def image_scene_normal serializeBoardScenePart_def boardTransaction_def
        referenceConflict_def MAX_SAFE_def)
qed

theorem saved_scene_is_read_back_witness:
  "\<exists>d ag. getBoard board_runtime calm_turn (js ''b1'') d = Inr (Some ag) \<and> rc_revision (ag_sceneRecord ag) = 2
    \<and> sn_engineData (rc_scene (ag_sceneRecord ag)) = image_engine"
proof -
  let ?in = "image_input\<lparr>sv_expectedRevision := 1\<rparr>"
  obtain y where y: "board_run board_runtime id calm board_start [(js ''b1'', 0)] y" "by_store y = (saved_db 1, image_files)"
    using image_run by blast
  obtain x d where s: "saveBoardScene board_runtime calm_turn ?in 5 (fst (by_store y)) = (Inr x, d)" using second_save y(2) by auto
  have "parsed_json board_runtime (sn_engineData (sv_scene ?in))" "parsed_json board_runtime (sn_appState (sv_scene ?in))"
    by (simp_all add: table_values json_table_def image_input_def)
  from saved_scene_is_read_back [OF y(1) board_runtime_laws _ this s calm_turn_simps(2)]
  obtain ag where "getBoard board_runtime calm_turn (js ''b1'') d = Inr (Some ag)" "rc_revision (ag_sceneRecord ag) = 2"
    "sn_engineData (rc_scene (ag_sceneRecord ag)) = stored_json image_engine"
    by (auto simp: image_input_def)
  moreover have "stored_json image_engine = image_engine" by (simp add: image_engine_def)
  ultimately show ?thesis by auto
qed

theorem saves_touch_one_board_witness:
  "getBoard board_runtime calm_turn (js ''b2'') (saved_db 1) = getBoard board_runtime calm_turn (js ''b2'') created_db"
  by (rule saves_touch_one_board [OF image_saved]) (simp add: image_input_def)

theorem lost_commit_removes_binary_witness:
  "\<exists>db' fs2. findAsset image_id db' = Some image_meta \<and> fs2 image_id = (None :: stored_file option)"
proof -
  let ?lost = "calm_turn\<lparr>at_commitLost := True, at_readFails := True\<rparr>" and ?none = "\<lparr>ad_assets = [], ad_refs = []\<rparr>"
  have "insertAsset image_meta ?none = Inr \<lparr>ad_assets = [image_meta], ad_refs = []\<rparr>" by (simp add: insertAsset_def)
  from lost_commit_removes_binary [where tn = ?lost and ?tn2.0 = calm_turn and hash = id and data = "[7, 8]", OF _ _ _ _ _ this]
  show ?thesis by auto
qed

end
