(* ===== verification/Spec2Isabelle.thy ===== *)
theory Spec2Isabelle
  imports LedgerPages AuthLedger BoardHistory
begin

text \<open>
  A verification development for three parts of the server of Nuvyn: the Ledger, personal bookkeeping
  (server/ledger/ with shared/ledger*.ts), from an HTTP request down to the SQL statements;
  authentication (server/auth/), which stands before every route; and boards with their assets
  (server/board/, server/assets/), drawings in the database and images in files. Paths are below src/.

  Parts and their interaction. Every request under /api passes the boundary of authentication, which
  looks up the session of its cookie, refreshes it and applies the same-origin policy. The routes of
  authentication itself set the instance up (once, with a setup token), sign the owner in and out; they
  consult two failure limiters and wait for scrypt, which a guard admits to a bounded number of slots.

  In the Ledger a route parses the body of a request, hands the typed request to an
  operation of the service, and turns an escaped error into a response. An operation runs a mutation
  in a write transaction; a mutation reads rows through the repository, decodes them, checks the
  rules of the domain, derives balances with the balance engine, and writes rows with an expected
  version. A create runs inside the idempotency wrapper, which stores its response under the
  request's key.

  A board has a scene, whose revision a save must name, and may be in a folder; its scene and its
  thumbnail reference assets. A save or a view first reads the files of all its references, each in turns
  of its own, then uses the database; what a save, a new thumbnail or a deletion no longer references is
  claimed in the database, and then its file is removed.

  Where each part is modelled:
    \<^item> \<open>Prelude\<close>, \<open>JsRuntime\<close>: strings as lists of UTF-16 code units, computations that may throw as
      sums, JSON values, IEEE doubles rounded to 53 bits; the record \<open>runtime\<close> of what is not code of
      the repository (Temporal, SHA-256, JSON text, the Unicode case tables, the clock of the process
      and whether another connection holds the write lock).
    \<^item> \<open>LedgerErrors\<close>: server/ledger/errors.ts and writeTransaction.ts. A transaction is a function on
      the database that returns it unchanged when the callback throws.
    \<^item> \<open>LedgerMoney\<close>, \<open>LedgerCurrency\<close>, \<open>LedgerTime\<close>: money.ts, shared/ledgerCurrency.ts, time.ts.
    \<^item> \<open>LedgerDomain\<close>: domain.ts with the enumerations, and the encoders of the repository. \<open>tx\<close> is the
      discriminated union of income, expense, transfer and adjustment.
    \<^item> \<open>LedgerBalance\<close>: balance.ts and shared/ledgerAnalytics.ts.
    \<^item> \<open>LedgerRepository\<close>: repository.ts. The record \<open>ledger_db\<close> holds one list of rows for each table;
      the constraints of the migrations are checked by the insert and update statements.
    \<^item> \<open>LedgerValidation\<close>: the request parsers of validation.ts.
    \<^item> \<open>LedgerIdempotency\<close>: idempotency.ts. \<open>LedgerService\<close>: service.ts and defaultCategories.ts.
    \<^item> \<open>LedgerQuery\<close>: the query parser and the opaque page cursor (validation.ts, and encodeCursor of
      projections.ts), with base64url, UTF-8 and UTF-16 written out.
    \<^item> \<open>LedgerProjections\<close>: projections.ts, the read models: transaction pages, the page of an account
      with running balances, the balance trend, the overview, the monthly trend.
    \<^item> \<open>LedgerRoutes\<close>: routes/. \<open>ledgerRoutes\<close> is the function from a request and a database to a
      response and a database.
    \<^item> \<open>JsText\<close>: base64url, UTF-8 and UTF-16, which cursors, tokens and stored hashes use.
    \<^item> \<open>AuthRateLimit\<close>: rateLimit.ts, a list of buckets in insertion order. \<open>AuthKdfGuard\<close>: kdfGuard.ts, a
      record of the active jobs and the queue; abort, timeout and completion are operations on it.
      \<open>AuthPassword\<close>: password.ts; scrypt is a parameter, and hashing and verification are split at their wait.
    \<^item> \<open>AuthConfig\<close>: config.ts, csrf.ts and server/env.ts; the parser of \<open>new URL\<close> is a parameter.
    \<^item> \<open>AuthSession\<close>: session.ts over the tables of migrations/0006_authentication.sql (\<open>auth_db\<close>).
    \<^item> \<open>AuthService\<close>: bootstrap.ts, service.ts and the start of runtime.ts. \<open>auth_state\<close> is what its objects
      keep; the record \<open>turn\<close> is what one turn of the event loop meets: clocks, random bytes, storage faults.
    \<^item> \<open>AuthRoutes\<close>: middleware.ts and routes.ts, each route split at its waits.
    \<^item> \<open>AuthLedger\<close>: the Ledger mounted behind the boundary (server/index.ts).
    \<^item> \<open>AssetStore\<close>: assets/repository.ts and validation.ts with shared/assetProtocol.ts, over the tables
      \<open>asset_db\<close>. \<open>AssetService\<close>: assets/service.ts and storage.ts with durableCreateOnlyFile.ts; the files are a
      map from names to an inode and bytes, an operation is split at its waits, and the record \<open>asset_turn\<close> is
      what a turn meets: the clock, faults of the database and of the file system, what a failed write leaves.
    \<^item> \<open>BoardScenes\<close>: board/validation.ts with shared/boardProtocol.ts. \<open>BoardRepository\<close>: board/repository.ts
      over the tables \<open>board_db\<close>. \<open>BoardService\<close>: board/service.ts, routes.ts, folderRoutes.ts and two routes of
      assets/routes.ts; \<open>boardRoute\<close> is the arrival of a request, \<open>taskTurn\<close> a turn of one that waits.

  Specification and proofs:
    \<^item> \<open>LedgerLifecycle\<close> states what the service owes the database: \<open>ledger_change\<close>, an inductive
      relation with one rule for each kind of change and its guards, and \<open>sound\<close>, the invariant of the
      rows; every change keeps it.
    \<^item> \<open>LedgerRefinement\<close>, \<open>LedgerGroups\<close>, \<open>LedgerCorrections\<close> show, mutation by mutation, that what
      the service commits is a sequence of such changes, and that the groups of a transfer and its fee
      stay paired.
    \<^item> \<open>LedgerSystem\<close> takes the routes as the steps of a state machine (\<open>served\<close>) and derives the
      invariants and safety properties of every reachable database.
    \<^item> \<open>LedgerReports\<close> shows that the overview and the trends are the totals of the counted
      transactions of their ranges, and that the net worth they show is the one of the ledger.
    \<^item> \<open>LedgerPages\<close> shows that following the cursors of a query lists every match once, and that the
      account page and the balance trend show the balances of the ledger, the trend at the end of each local day.
    \<^item> The other Ledger theories carry the properties of their component: exact arithmetic and decimal
      round trips, row decoders that accept exactly the encodings of well-formed values, the balance engine
      against the signed-integer specification and against the SQL aggregates, keyset pagination,
      versioned updates, parsers, fingerprints and replay.
    \<^item> \<open>AuthRateLimit\<close>: the number of buckets and the delays are bounded, also when the clock goes back, and the back-off of a key is the
      doubling one, whatever other keys do. \<open>AuthKdfGuard\<close>: capacity, no idle slot beside a waiting job, and
      service in order, over the runs of the guard (\<open>kdf_step\<close>). \<open>AuthPassword\<close>: hash and verification agree,
      and only approved costs reach scrypt.
    \<^item> \<open>AuthSession\<close>: the invariant of the tables (\<open>auth_db_ok\<close>) and what may happen to a session row
      (\<open>evolves\<close>): it is seen later and revoked once.
    \<^item> \<open>AuthSystem\<close> takes the turns of the event loop as the steps of a state machine (\<open>auth_step\<close>), in
      which requests interleave at their waits, and shows for its runs: one owner forever, no session without
      credentials, no protected request without a live session, logout is final, and the owner can always
      sign in. \<open>AuthLedger\<close> combines this with the Ledger.
    \<^item> \<open>BoardRepository\<close>: the invariant of the tables (\<open>board_db_ok\<close>) and that every operation keeps it.
      \<open>BoardSystem\<close> takes arrivals and turns as the steps of a state machine (\<open>board_step\<close>) and shows that
      files and metadata stay together (\<open>files_ok\<close>, in which a task has the name of the file it creates or
      removes to itself). \<open>BoardHistory\<close>: the committed saves of a board, those with a lost answer
      included, form a chain of revisions, every board opens, every referenced asset is stored, a save is read back and touches one board; and the one case in which
      storing an asset loses a committed file, which contradicts a comment of the code.

  Hypotheses on what is outside the repository, each stated where it is used: \<open>case_tables_ok\<close> (the
  Unicode lower-case table is stable on the built-in category names), \<open>temporal_laws\<close>, \<open>day_laws\<close> and
  \<open>calendar_order\<close> (documented calendar laws; later local dates start later), \<open>readable_cursors\<close>
  (\<open>JSON.parse\<close> reads back the cursor text that \<open>JSON.stringify\<close> wrote), \<open>fresh_ids\<close> (the generated
  identifiers are distinct and not in use, which random UUIDs provide), absence of a SHA-256 collision where
  a fingerprint must tell requests apart, \<open>key_length\<close> (scrypt returns the length it was asked for), and for
  a sign-in that the digest of the new token is non-empty and not in use. For boards: \<open>json_laws\<close>
  (\<open>JSON.parse\<close> after \<open>JSON.stringify\<close> gives a parsed value back, with null for an infinity), and \<open>calm\<close>
  turns (a commit is not lost while the read that should find it fails too).

  Bounds. Recursion is structural, on lists of rows, digits or JSON values, or has a measure; only following
  the cursors of a query takes fuel, and the number of matching rows is proved enough. Amounts, versions and
  instants are integers; the checks against \<open>MAX_SAFE\<close> are the code's, and arithmetic on doubles rounds to
  53 bits before it is checked. Runs of a system have any finite length.

  Not modelled: message texts of errors and log lines; run-time guards without a counterpart for values of
  HOL types (accessors, cycles, promises returned by callbacks, test seams); the schema migrations as code
  (their constraints are in the model); timers as such (a timeout is a step that may come); the choice of the
  guard argument in password.ts and the process-wide holder of the runtime; the diary services that a logout
  notifies. For boards: size limits and types of bodies, the notification of the attachment index, the
  upload route (streams and magic bytes), the SVG preview and the board materials; file names are
  case-sensitive, other processes do not touch the directory of the assets, and a file operation takes its
  effect in one turn between two others, while turns of different requests interleave in every order.
  Strings reach SQLite as they are (lone surrogates are not replaced). The vault, history, attachments and AI
  services are transactions on files and clients of
  other services, and the web client is user interface: they are listed as components and left out.
\<close>

end
